(* ===== verification/Prelude.thy ===== *)
theory Prelude
  imports Complex_Main "HOL-Library.Char_ord" "HOL-Library.List_Lexorder" "HOL-Library.Sublist"
begin

text \<open>
  Shared vocabulary of the development: Go strings as byte lists, the functions of
  Go's packages \<^verbatim>\<open>strings\<close>, \<^verbatim>\<open>strconv\<close> and \<^verbatim>\<open>bufio\<close> that the program calls, and the
  contracts (locales) that several components share.

  A Go string is a sequence of bytes, and \<^typ>\<open>char\<close> is a byte, so \<^typ>\<open>string\<close> is exactly
  Go's string; comparison is the byte-wise lexicographic order of the library.  White
  space follows \<^verbatim>\<open>unicode.IsSpace\<close>, including the multi-byte UTF-8 encodings.  Case
  mapping is the ASCII part of Go's: bytes outside A-Z and a-z are left alone, so the
  model agrees with the code on ASCII text (hosts, ecosystems, severities, roles).
\<close>

named_theorems go_defs \<open>definitions of the string functions of Go, unfolded on demand\<close>

section \<open>The Go string functions\<close>

subsection \<open>Prefixes, suffixes, searching\<close>

definition has_prefix :: "string \<Rightarrow> string \<Rightarrow> bool" where
  "has_prefix s p \<longleftrightarrow> take (length p) s = p"

definition has_suffix :: "string \<Rightarrow> string \<Rightarrow> bool" where
  "has_suffix s p \<longleftrightarrow> length p \<le> length s \<and> drop (length s - length p) s = p"

definition trim_prefix :: "string \<Rightarrow> string \<Rightarrow> string" where
  "trim_prefix s p = (if has_prefix s p then drop (length p) s else s)"

definition trim_suffix :: "string \<Rightarrow> string \<Rightarrow> string" where
  "trim_suffix s p = (if has_suffix s p then take (length s - length p) s else s)"

text \<open>\<open>index_of s sub\<close> is \<^verbatim>\<open>strings.Index(s, sub)\<close>, with \<open>None\<close> for -1.\<close>

fun index_of :: "string \<Rightarrow> string \<Rightarrow> nat option" where
  "index_of [] sub = (if sub = [] then Some 0 else None)"
| "index_of (c # s) sub =
     (if has_prefix (c # s) sub then Some 0 else map_option Suc (index_of s sub))"

definition contains :: "string \<Rightarrow> string \<Rightarrow> bool" where
  "contains s sub \<longleftrightarrow> index_of s sub \<noteq> None"

definition contains_any :: "string \<Rightarrow> string \<Rightarrow> bool" where
  "contains_any s cs \<longleftrightarrow> (\<exists>c \<in> set s. c \<in> set cs)"

text \<open>\<open>index_any s cs\<close> is \<^verbatim>\<open>strings.IndexAny\<close> for ASCII cutsets.\<close>

fun index_any :: "string \<Rightarrow> string \<Rightarrow> nat option" where
  "index_any [] cs = None"
| "index_any (c # s) cs = (if c \<in> set cs then Some 0 else map_option Suc (index_any s cs))"

text \<open>\<^verbatim>\<open>strings.Cut\<close>: the parts before and after the first separator, if there is one.\<close>

definition cut :: "string \<Rightarrow> string \<Rightarrow> (string \<times> string) option" where
  "cut s sep = (case index_of s sep of
      None \<Rightarrow> None
    | Some i \<Rightarrow> Some (take i s, drop (i + length sep) s))"

text \<open>\<^verbatim>\<open>strings.LastIndex\<close> for a one-byte separator.\<close>

fun last_index_byte :: "string \<Rightarrow> char \<Rightarrow> nat option" where
  "last_index_byte [] c = None"
| "last_index_byte (x # s) c = (case last_index_byte s c of
      Some i \<Rightarrow> Some (Suc i)
    | None \<Rightarrow> if x = c then Some 0 else None)"

subsection \<open>Splitting and joining\<close>

text \<open>\<^verbatim>\<open>strings.Split\<close> with a one-byte separator: never the empty list.\<close>

fun split_on :: "char \<Rightarrow> string \<Rightarrow> string list" where
  "split_on c [] = [[]]"
| "split_on c (x # s) = (if x = c then [] # split_on c s
     else (case split_on c s of [] \<Rightarrow> [[x]] | w # ws \<Rightarrow> (x # w) # ws))"

fun join :: "string \<Rightarrow> string list \<Rightarrow> string" where
  "join sep [] = []"
| "join sep [w] = w"
| "join sep (w # ws) = w @ sep @ join sep ws"

text \<open>\<^verbatim>\<open>strings.FieldsFunc\<close> for a predicate on ASCII runes: the maximal runs of bytes
  that do not satisfy it.\<close>

fun fields_by :: "(char \<Rightarrow> bool) \<Rightarrow> string \<Rightarrow> string \<Rightarrow> string list" where
  "fields_by p cur [] = (if cur = [] then [] else [cur])"
| "fields_by p cur (c # s) =
     (if p c then (if cur = [] then fields_by p [] s else cur # fields_by p [] s)
      else fields_by p (cur @ [c]) s)"

definition fields_func :: "(char \<Rightarrow> bool) \<Rightarrow> string \<Rightarrow> string list" where
  "fields_func p s = fields_by p [] s"

subsection \<open>Case mapping\<close>

definition to_lower_char :: "char \<Rightarrow> char" where
  "to_lower_char c = (let n = (of_char c :: nat) in if 65 \<le> n \<and> n \<le> 90 then char_of (n + 32) else c)"

definition to_upper_char :: "char \<Rightarrow> char" where
  "to_upper_char c = (let n = (of_char c :: nat) in if 97 \<le> n \<and> n \<le> 122 then char_of (n - 32) else c)"

definition to_lower :: "string \<Rightarrow> string" where
  "to_lower s = map to_lower_char s"

definition to_upper :: "string \<Rightarrow> string" where
  "to_upper s = map to_upper_char s"

definition equal_fold :: "string \<Rightarrow> string \<Rightarrow> bool" where
  "equal_fold s t \<longleftrightarrow> to_lower s = to_lower t"

subsection \<open>White space\<close>

definition ascii_space :: "char \<Rightarrow> bool" where
  "ascii_space c \<longleftrightarrow>
     c = CHR '' '' \<or> c = CHR 0x09 \<or> c = CHR 0x0A \<or> c = CHR 0x0B \<or> c = CHR 0x0C \<or> c = CHR 0x0D"

text \<open>The UTF-8 encodings of the non-ASCII white space of \<^verbatim>\<open>unicode.IsSpace\<close>.\<close>

definition wide_spaces :: "string list" where
  "wide_spaces =
    [[CHR 0xC2, CHR 0x85], [CHR 0xC2, CHR 0xA0], [CHR 0xE1, CHR 0x9A, CHR 0x80],
     [CHR 0xE2, CHR 0x80, CHR 0x80], [CHR 0xE2, CHR 0x80, CHR 0x81],
     [CHR 0xE2, CHR 0x80, CHR 0x82], [CHR 0xE2, CHR 0x80, CHR 0x83],
     [CHR 0xE2, CHR 0x80, CHR 0x84], [CHR 0xE2, CHR 0x80, CHR 0x85],
     [CHR 0xE2, CHR 0x80, CHR 0x86], [CHR 0xE2, CHR 0x80, CHR 0x87],
     [CHR 0xE2, CHR 0x80, CHR 0x88], [CHR 0xE2, CHR 0x80, CHR 0x89],
     [CHR 0xE2, CHR 0x80, CHR 0x8A], [CHR 0xE2, CHR 0x80, CHR 0xA8],
     [CHR 0xE2, CHR 0x80, CHR 0xA9], [CHR 0xE2, CHR 0x80, CHR 0xAF],
     [CHR 0xE2, CHR 0x81, CHR 0x9F], [CHR 0xE3, CHR 0x80, CHR 0x80]]"

text \<open>Length of the white-space rune the string begins with, 0 if there is none; \<open>enc\<close> is
  the list of encodings to look for (reversed ones when reading from the end).\<close>

definition space_len :: "string list \<Rightarrow> string \<Rightarrow> nat" where
  "space_len enc s = (case s of [] \<Rightarrow> 0
     | c # _ \<Rightarrow> if ascii_space c then 1
        else if (of_char c :: nat) < 128 then 0
        else (case find (has_prefix s) enc of None \<Rightarrow> 0 | Some w \<Rightarrow> length w))"

lemma space_len_Nil [simp]: "space_len enc [] = 0"
  by (simp add: space_len_def)

function strip_space :: "string list \<Rightarrow> string \<Rightarrow> string" where
  "strip_space enc s =
     (if space_len enc s = 0 then s else strip_space enc (drop (space_len enc s) s))"
  by pat_completeness auto
termination
proof (relation "measure (\<lambda>(enc, s). length s)")
  fix enc s
  assume "space_len enc s \<noteq> 0"
  then have "s \<noteq> []" and "0 < space_len enc s" by auto
  then show "((enc, drop (space_len enc s) s), enc, s) \<in> measure (\<lambda>(enc, s). length s)"
    by simp
qed simp

declare strip_space.simps [simp del]

definition trim_left :: "string \<Rightarrow> string" where
  "trim_left s = strip_space wide_spaces s"

definition trim_right :: "string \<Rightarrow> string" where
  "trim_right s = rev (strip_space (map rev wide_spaces) (rev s))"

definition trim_space :: "string \<Rightarrow> string" where
  "trim_space s = trim_right (trim_left s)"

text \<open>\<^verbatim>\<open>strings.Fields\<close>: the maximal runs without white space.\<close>

function fields_from :: "string \<Rightarrow> string \<Rightarrow> string list" where
  "fields_from cur [] = (if cur = [] then [] else [cur])"
| "fields_from cur (c # s) =
     (let n = space_len wide_spaces (c # s) in
      if n = 0 then fields_from (cur @ [c]) s
      else (if cur = [] then [] else [cur]) @ fields_from [] (drop (n - 1) s))"
  by pat_completeness auto
termination
  by (relation "measure (\<lambda>(cur, s). length s)") auto

definition go_fields :: "string \<Rightarrow> string list" where
  "go_fields s = fields_from [] s"

text \<open>\<^verbatim>\<open>strings.Trim\<close> with an ASCII cutset.\<close>

definition trim_cutset :: "string \<Rightarrow> string \<Rightarrow> string" where
  "trim_cutset cs s = rev (dropWhile (\<lambda>c. c \<in> set cs) (rev (dropWhile (\<lambda>c. c \<in> set cs) s)))"

definition trim_right_cutset :: "string \<Rightarrow> string \<Rightarrow> string" where
  "trim_right_cutset cs s = rev (dropWhile (\<lambda>c. c \<in> set cs) (rev s))"

section \<open>Numbers as text, and line scanning\<close>

datatype num_error = ErrSyntax | ErrRange

definition is_digit :: "char \<Rightarrow> bool" where
  "is_digit c \<longleftrightarrow> (let n = (of_char c :: nat) in 48 \<le> n \<and> n \<le> 57)"

definition digit_val :: "char \<Rightarrow> nat" where
  "digit_val c = of_char c - 48"

text \<open>The digit loop of \<^verbatim>\<open>strconv.ParseUint\<close>: it reports a value above 64 bits at the
  digit that overflows, before it looks at the rest.\<close>

fun dec_scan :: "nat \<Rightarrow> string \<Rightarrow> num_error + nat" where
  "dec_scan n [] = Inr n"
| "dec_scan n (c # s) =
     (if \<not> is_digit c then Inl ErrSyntax
      else if 10 * n + digit_val c > 18446744073709551615 then Inl ErrRange
      else dec_scan (10 * n + digit_val c) s)"

text \<open>\<^verbatim>\<open>strconv.Atoi\<close> on a 64-bit platform: the value it returns and its error.  On a range
  error the value is the nearest representable one.\<close>

definition atoi :: "string \<Rightarrow> int \<times> num_error option" where
  "atoi s =
     (let neg = (case s of c # _ \<Rightarrow> c = CHR ''-'' | [] \<Rightarrow> False);
          ds = (case s of c # r \<Rightarrow> if c = CHR ''-'' \<or> c = CHR ''+'' then r else s | [] \<Rightarrow> [])
      in if ds = [] then (0, Some ErrSyntax)
         else (case dec_scan 0 ds of
             Inl ErrSyntax \<Rightarrow> (0, Some ErrSyntax)
           | Inl ErrRange \<Rightarrow>
               (if neg then - 9223372036854775808 else 9223372036854775807, Some ErrRange)
           | Inr n \<Rightarrow>
               if neg then
                 (if n > 9223372036854775808 then (- 9223372036854775808, Some ErrRange)
                  else (- int n, None))
               else
                 (if n \<ge> 9223372036854775808 then (9223372036854775807, Some ErrRange)
                  else (int n, None))))"

fun nat_str :: "nat \<Rightarrow> string" where
  "nat_str n = (if n < 10 then [char_of (48 + n)] else nat_str (n div 10) @ [char_of (48 + n mod 10)])"

declare nat_str.simps [simp del]

definition itoa :: "int \<Rightarrow> string" where
  "itoa i = (if i < 0 then CHR ''-'' # nat_str (nat (- i)) else nat_str (nat i))"

definition newline :: char where
  "newline = CHR 0x0A"

definition drop_cr :: "string \<Rightarrow> string" where
  "drop_cr w = trim_suffix w [CHR 0x0D]"

text \<open>\<^verbatim>\<open>bufio.Scanner\<close> with \<^verbatim>\<open>ScanLines\<close> and a buffer of at most \<open>m\<close> bytes: the tokens,
  and whether scanning stopped with \<^verbatim>\<open>ErrTooLong\<close> at a line that does not fit.\<close>

fun scan_pieces :: "nat \<Rightarrow> string list \<Rightarrow> string list \<times> bool" where
  "scan_pieces m [] = ([], False)"
| "scan_pieces m [w] =
     (if w = [] then ([], False) else if m \<le> length w then ([], True) else ([drop_cr w], False))"
| "scan_pieces m (w # v # ws) =
     (if m \<le> length w then ([], True)
      else (case scan_pieces m (v # ws) of (ts, e) \<Rightarrow> (drop_cr w # ts, e)))"

definition scan_lines :: "nat \<Rightarrow> string \<Rightarrow> string list \<times> bool" where
  "scan_lines m s = scan_pieces m (split_on newline s)"

text \<open>A 64-bit float as the code compares it: a finite value, or one of the specials.\<close>

datatype gofloat = Fin rat | PosInf | NegInf | NaN

fun ge_const :: "gofloat \<Rightarrow> rat \<Rightarrow> bool" where
  "ge_const (Fin r) c = (r \<ge> c)"
| "ge_const PosInf c = True"
| "ge_const NegInf c = False"
| "ge_const NaN c = False"

fun gt_const :: "gofloat \<Rightarrow> rat \<Rightarrow> bool" where
  "gt_const (Fin r) c = (r > c)"
| "gt_const PosInf c = True"
| "gt_const NegInf c = False"
| "gt_const NaN c = False"

section \<open>Tables\<close>

text \<open>A database table is the list of its rows.  \<open>update_where P f\<close> is an
  \<^verbatim>\<open>UPDATE ... SET f WHERE P\<close>, \<open>row_by key k\<close> the row with a primary key.\<close>

definition update_where :: "('a \<Rightarrow> bool) \<Rightarrow> ('a \<Rightarrow> 'a) \<Rightarrow> 'a list \<Rightarrow> 'a list" where
  "update_where P f rows = map (\<lambda>r. if P r then f r else r) rows"

definition row_by :: "('a \<Rightarrow> string) \<Rightarrow> string \<Rightarrow> 'a list \<Rightarrow> 'a option" where
  "row_by key k rows = find (\<lambda>r. key r = k) rows"

lemma length_update_where [simp]: "length (update_where P f rows) = length rows"
  by (simp add: update_where_def)

lemma update_where_Nil [simp]: "update_where P f [] = []"
  by (simp add: update_where_def)

lemma update_where_Cons [simp]:
  "update_where P f (r # rows) = (if P r then f r else r) # update_where P f rows"
  by (simp add: update_where_def)

lemma set_update_where: "set (update_where P f rows) = (\<lambda>r. if P r then f r else r) ` set rows"
  by (simp add: update_where_def)

lemma map_update_where: "(\<And>r. k (f r) = k r) \<Longrightarrow> map k (update_where P f rows) = map k rows"
  by (simp add: update_where_def)

lemma update_where_all:
  "(\<And>r. r \<in> set rows \<Longrightarrow> Q r) \<Longrightarrow> (\<And>r. Q r \<Longrightarrow> P r \<Longrightarrow> Q (f r)) \<Longrightarrow>
    r \<in> set (update_where P f rows) \<Longrightarrow> Q r"
  by (auto simp: set_update_where)

lemma update_where_none: "(\<And>r. r \<in> set rows \<Longrightarrow> \<not> P r) \<Longrightarrow> update_where P f rows = rows"
  by (induction rows) auto

lemma filter_update_where:
  "(\<And>r. P r \<Longrightarrow> Q (f r) = Q r) \<Longrightarrow>
    filter Q (update_where P f rows) = update_where P f (filter Q rows)"
  by (induction rows) auto

lemma row_by_Nil [simp]: "row_by key k [] = None"
  by (simp add: row_by_def)

lemma row_by_Cons [simp]: "row_by key k (r # rows) = (if key r = k then Some r else row_by key k rows)"
  by (simp add: row_by_def)

lemma row_by_SomeD: "row_by key k rows = Some r \<Longrightarrow> r \<in> set rows \<and> key r = k"
  by (induction rows) (auto split: if_splits)

lemma row_by_None: "row_by key k rows = None \<longleftrightarrow> k \<notin> key ` set rows"
  by (induction rows) auto

lemma row_by_distinct:
  "distinct (map key rows) \<Longrightarrow> row_by key k rows = Some r \<longleftrightarrow> r \<in> set rows \<and> key r = k"
  by (induction rows) (auto simp: image_iff)

lemma row_by_append: "row_by key k (xs @ ys) = (case row_by key k xs of Some r \<Rightarrow> Some r | None \<Rightarrow> row_by key k ys)"
  by (induction xs) auto

lemma row_by_update_where:
  "(\<And>r. key (f r) = key r) \<Longrightarrow>
    row_by key k (update_where P f rows) = map_option (\<lambda>r. if P r then f r else r) (row_by key k rows)"
  by (induction rows) auto

section \<open>Lemmas on the string functions\<close>

lemma has_prefix_iff: "has_prefix s p \<longleftrightarrow> (\<exists>r. s = p @ r)"
  unfolding has_prefix_def by (metis append_eq_conv_conj append_take_drop_id)

lemma has_prefix_append [simp]: "has_prefix (p @ s) p"
  by (auto simp: has_prefix_iff)

lemma has_prefix_Nil [simp]: "has_prefix s []"
  by (simp add: has_prefix_def)

lemma has_prefix_Nil_left [simp]: "has_prefix [] p \<longleftrightarrow> p = []"
  by (auto simp: has_prefix_iff)

lemma has_prefix_Cons [simp]: "has_prefix (c # s) (d # p) \<longleftrightarrow> c = d \<and> has_prefix s p"
  by (simp add: has_prefix_def)

lemma has_suffix_iff: "has_suffix s p \<longleftrightarrow> (\<exists>r. s = r @ p)"
proof
  assume "has_suffix s p"
  then show "\<exists>r. s = r @ p"
    unfolding has_suffix_def by (metis append_take_drop_id)
qed (auto simp: has_suffix_def)

lemma trim_prefix_append [simp]: "trim_prefix (p @ s) p = s"
  by (simp add: trim_prefix_def)

lemma trim_prefix_Nil_left [simp]: "trim_prefix [] p = []"
  by (simp add: trim_prefix_def)

lemma index_of_Some: "index_of s sub = Some i \<Longrightarrow> s = take i s @ sub @ drop (i + length sub) s"
proof (induction s sub arbitrary: i rule: index_of.induct)
  case (1 sub)
  then show ?case by (simp split: if_splits)
next
  case (2 c s sub)
  show ?case
  proof (cases "has_prefix (c # s) sub")
    case True
    with "2.prems" show ?thesis
      by (auto simp: has_prefix_def) (metis append_take_drop_id)
  next
    case False
    with "2.prems" obtain j where "index_of s sub = Some j" "i = Suc j" by auto
    with "2.IH" False show ?thesis by simp
  qed
qed

lemma index_of_None: "index_of s sub = None \<Longrightarrow> \<not> (\<exists>a b. s = a @ sub @ b)"
proof (induction s sub rule: index_of.induct)
  case (1 sub)
  then show ?case by (auto split: if_splits)
next
  case (2 c s sub)
  then show ?case
    by (auto simp: has_prefix_iff Cons_eq_append_conv split: if_splits)
qed

lemma contains_iff: "contains s sub \<longleftrightarrow> (\<exists>a b. s = a @ sub @ b)"
  unfolding contains_def using index_of_Some index_of_None by (metis not_Some_eq)

lemma cut_Some: "cut s sep = Some (a, b) \<Longrightarrow> s = a @ sep @ b"
  by (auto simp: cut_def split: option.splits dest: index_of_Some)

lemma split_on_nonempty [simp]: "split_on c s \<noteq> []"
  by (induction s) (auto split: list.splits)

lemma join_Cons: "ws \<noteq> [] \<Longrightarrow> join sep (w # ws) = w @ sep @ join sep ws"
  by (cases ws) simp_all

lemma join_split: "join [c] (split_on c s) = s"
proof (induction s)
  case Nil
  then show ?case by simp
next
  case (Cons x s)
  obtain w ws where "split_on c s = w # ws" by (cases "split_on c s") auto
  with Cons show ?case by (cases ws) auto
qed

lemma split_on_no_sep: "w \<in> set (split_on c s) \<Longrightarrow> c \<notin> set w"
proof (induction s arbitrary: w)
  case Nil
  then show ?case by simp
next
  case (Cons x s)
  then show ?case by (auto split: if_splits list.splits)
qed

lemma to_lower_char_idem [simp]: "to_lower_char (to_lower_char c) = to_lower_char c"
  by (simp add: to_lower_char_def Let_def)

lemma to_lower_idem [simp]: "to_lower (to_lower s) = to_lower s"
  by (simp add: to_lower_def)

lemma to_lower_append [simp]: "to_lower (s @ t) = to_lower s @ to_lower t"
  by (simp add: to_lower_def)

lemma to_lower_Nil_iff [simp]: "to_lower s = [] \<longleftrightarrow> s = []"
  by (simp add: to_lower_def)

lemma equal_fold_refl [simp]: "equal_fold s s"
  by (simp add: equal_fold_def)

subsection \<open>Trimming white space\<close>

lemma space_len_zero_iff:
  assumes "[] \<notin> set enc"
  shows "space_len enc s = 0 \<longleftrightarrow> s = [] \<or>
    (\<not> ascii_space (hd s) \<and>
      ((of_char (hd s) :: nat) < 128 \<or> (\<forall>w \<in> set enc. \<not> has_prefix s w)))"
proof (cases s)
  case (Cons c r)
  show ?thesis
  proof (cases "find (has_prefix s) enc")
    case None
    then have "\<forall>w \<in> set enc. \<not> has_prefix s w" by (simp add: find_None_iff)
    with Cons None show ?thesis by (auto simp: space_len_def)
  next
    case (Some w)
    then have "w \<in> set enc" and "has_prefix s w"
      by (auto simp: find_Some_iff)
    with assms Cons Some show ?thesis by (auto simp: space_len_def)
  qed
qed simp

lemma space_len_prefix:
  assumes "[] \<notin> set enc" and "space_len enc (p @ r) = 0"
  shows "space_len enc p = 0"
proof (cases p)
  case (Cons c q)
  have "has_prefix (p @ r) w" if "has_prefix p w" for w
    using that by (auto simp: has_prefix_iff)
  with assms Cons show ?thesis by (auto simp: space_len_zero_iff)
qed simp

lemma strip_space_suffix: "\<exists>p. s = p @ strip_space enc s"
proof (induction enc s rule: strip_space.induct)
  case (1 enc s)
  show ?case
  proof (cases "space_len enc s = 0")
    case True
    then show ?thesis by (simp add: strip_space.simps [of enc s])
  next
    case False
    with "1.IH" obtain p where "drop (space_len enc s) s = p @ strip_space enc s"
      by (auto simp: strip_space.simps [of enc s])
    then have "s = (take (space_len enc s) s @ p) @ strip_space enc s"
      by (metis append.assoc append_take_drop_id)
    then show ?thesis by blast
  qed
qed

lemma strip_space_stop [simp]: "space_len enc (strip_space enc s) = 0"
proof (induction enc s rule: strip_space.induct)
  case (1 enc s)
  then show ?case by (cases "space_len enc s = 0") (simp_all add: strip_space.simps [of enc s])
qed

lemma strip_space_id: "space_len enc s = 0 \<Longrightarrow> strip_space enc s = s"
  by (simp add: strip_space.simps)

lemma wide_spaces_nonempty [simp]: "[] \<notin> set wide_spaces" "[] \<notin> set (map rev wide_spaces)"
  by (simp_all add: wide_spaces_def)

lemma trim_right_prefix: "\<exists>r. s = trim_right s @ r"
proof -
  obtain p where "rev s = p @ strip_space (map rev wide_spaces) (rev s)"
    using strip_space_suffix by blast
  then have "s = trim_right s @ rev p"
    by (metis rev_append rev_rev_ident trim_right_def)
  then show ?thesis by blast
qed

lemma trim_space_left [simp]: "space_len wide_spaces (trim_space s) = 0"
proof -
  have "space_len wide_spaces (trim_left s) = 0" by (simp add: trim_left_def)
  then show ?thesis
    unfolding trim_space_def
    by (metis space_len_prefix trim_right_prefix wide_spaces_nonempty(1))
qed

lemma trim_space_right [simp]: "space_len (map rev wide_spaces) (rev (trim_space s)) = 0"
  by (simp add: trim_space_def trim_right_def)

lemma trim_space_fixed:
  "space_len wide_spaces s = 0 \<Longrightarrow> space_len (map rev wide_spaces) (rev s) = 0 \<Longrightarrow> trim_space s = s"
  by (simp add: trim_space_def trim_left_def trim_right_def strip_space_id)

text \<open>Trimming is idempotent, and what it returns is a contiguous part of its input.\<close>

lemma trim_space_idem [simp]: "trim_space (trim_space s) = trim_space s"
  by (rule trim_space_fixed) simp_all

lemma trim_space_Nil [simp]: "trim_space [] = []"
  by (rule trim_space_fixed) simp_all

lemma trim_space_infix: "\<exists>a b. s = a @ trim_space s @ b"
proof -
  obtain a where "s = a @ trim_left s" unfolding trim_left_def using strip_space_suffix by blast
  moreover obtain b where "trim_left s = trim_space s @ b"
    unfolding trim_space_def using trim_right_prefix by blast
  ultimately show ?thesis by metis
qed

lemma trim_space_subset: "set (trim_space s) \<subseteq> set s"
  by (metis Un_iff set_append subsetI trim_space_infix)

subsection \<open>Case mapping, splitting and line scanning\<close>

lemma of_char_less [simp]: "(of_char c :: nat) < 256"
  using of_char_mod_256 [of c, where ?'a = nat] by (metis mod_less_divisor zero_less_numeral)

lemma upper_lower_char [simp]:
  "to_upper_char (to_lower_char c) = to_upper_char c" "to_lower_char (to_upper_char c) = to_lower_char c"
  by (auto simp: to_upper_char_def to_lower_char_def Let_def)

lemma digit_upper [simp]: "is_digit (to_upper_char c) \<longleftrightarrow> is_digit c" "is_digit c \<Longrightarrow> to_upper_char c = c"
  by (auto simp: is_digit_def to_upper_char_def Let_def)

lemma lower_eq_iff_upper: "to_lower s = t \<Longrightarrow> to_upper s = to_upper t"
  by (auto simp: to_lower_def to_upper_def)
lemma upper_eq_iff_lower: "to_upper s = t \<Longrightarrow> to_lower s = to_lower t"
  by (auto simp: to_lower_def to_upper_def)

lemma to_upper_append [simp]: "to_upper (s @ t) = to_upper s @ to_upper t"
  by (simp add: to_upper_def)

lemma to_upper_digits [simp]: "list_all is_digit s \<Longrightarrow> to_upper s = s"
  by (induction s) (auto simp: to_upper_def)

lemma to_upper_Nil [simp]: "to_upper [] = []"
  by (simp add: to_upper_def)

lemma list_all_takeWhile: "list_all P (takeWhile P s)"
  by (induction s) auto

lemma to_upper_eq_append: "to_upper m = a @ b \<Longrightarrow> \<exists>x y. m = x @ y \<and> to_upper x = a \<and> to_upper y = b"
  unfolding to_upper_def by (auto simp: map_eq_append_conv)

lemma to_upper_all_digit: "list_all is_digit (to_upper s) = list_all is_digit s"
  by (simp add: to_upper_def list_all_iff)

lemma space_len_extend:
  "[] \<notin> set enc \<Longrightarrow> (\<And>w. w \<in> set enc \<Longrightarrow> \<not> has_prefix (x # q) w \<Longrightarrow> \<not> has_prefix (x # q @ r) w) \<Longrightarrow>
   space_len enc (x # q) = 0 \<Longrightarrow> space_len enc (x # q @ r) = 0"
  by (auto simp: space_len_zero_iff)

lemma trim_space_ascii_prefix:
  assumes "trim_space r = r" "r \<noteq> []" "of_char c < (128::nat)" "\<not> ascii_space c" "of_char d < (128::nat)"
  shows "trim_space (c # p @ d # r) = c # p @ d # r"
proof (rule trim_space_fixed)
  show "space_len wide_spaces (c # p @ d # r) = 0" using assms by (simp add: space_len_def)
  have z: "space_len (map rev wide_spaces) (rev r) = 0" using assms(1) trim_space_right by metis
  obtain x q where r: "rev r = x # q" using assms(2) by (cases "rev r") auto
  have "\<not> has_prefix (rev r @ d # rev p @ [c]) w" if w: "w \<in> set (map rev wide_spaces)" "\<not> has_prefix (rev r) w" for w
  proof
    assume "has_prefix (rev r @ d # rev p @ [c]) w"
    then obtain s where "rev r @ d # rev p @ [c] = w @ s" by (auto simp: has_prefix_iff)
    then have "(\<exists>us. rev r = w @ us) \<or> (\<exists>v. w = rev r @ d # v)"
      by (auto simp: append_eq_append_conv2 Cons_eq_append_conv)
    with w(2) obtain v where "w = rev r @ d # v" by (auto simp: has_prefix_iff)
    then have "d \<in> set w" by simp
    moreover have "\<forall>x \<in> set w. \<not> of_char x < (128::nat)" using w(1) by (auto simp: wide_spaces_def)
    ultimately show False using assms(5) by blast
  qed
  then have "space_len (map rev wide_spaces) (rev r @ d # rev p @ [c]) = 0"
    using z unfolding r append_Cons by (rule space_len_extend [OF wide_spaces_nonempty(2)])
  then show "space_len (map rev wide_spaces) (rev (c # p @ d # r)) = 0" by simp
qed

lemma contains_Cons: "contains (c # s) sub \<longleftrightarrow> has_prefix (c # s) sub \<or> contains s sub"
  by (simp add: contains_def)

lemma split_on_append: "split_on c (a @ c # b) = split_on c a @ split_on c b"
  by (induction a) (auto split: list.splits)

lemma split_on_hd: "c \<notin> set w \<Longrightarrow> \<exists>v vs. split_on c (w @ s) = (w @ v) # vs"
proof (induction w)
  case Nil
  then show ?case by (cases "split_on c s") auto
next
  case (Cons x w)
  then obtain v vs where "split_on c (w @ s) = (w @ v) # vs" by auto
  with Cons.prems show ?case by auto
qed

lemma scan_pieces_too_long:
  "0 < m \<Longrightarrow> m \<le> length y \<Longrightarrow> fst (scan_pieces m (xs @ y # ys)) = fst (scan_pieces m (xs @ [[]])) \<and>
     snd (scan_pieces m (xs @ y # ys))"
proof (induction xs)
  case Nil
  then show ?case by (cases ys) auto
next
  case (Cons x xs)
  from Cons obtain z zs where "xs @ y # ys = z # zs" by (cases "xs @ y # ys") auto
  moreover obtain u us where "xs @ [[]] = u # us" by (cases "xs @ [[]]") auto
  ultimately show ?case using Cons by (auto split: prod.splits)
qed

lemma scan_lines_too_long:
  assumes "newline \<notin> set w" "0 < m" "m \<le> length w"
  shows "fst (scan_lines m (p @ [newline] @ w @ rest)) = fst (scan_lines m (p @ [newline])) \<and>
    snd (scan_lines m (p @ [newline] @ w @ rest))"
proof -
  obtain v vs where "split_on newline (w @ rest) = (w @ v) # vs" using split_on_hd [OF assms(1)] by blast
  then show ?thesis
    using scan_pieces_too_long [of m "w @ v"] assms
    by (simp add: scan_lines_def split_on_append)
qed

lemma fields_from_nonempty: "w \<in> set (fields_from cur s) \<Longrightarrow> w \<noteq> []"
  by (induction cur s rule: fields_from.induct) (auto simp: Let_def split: if_splits)

definition plain_token :: "string \<Rightarrow> bool" where
  "plain_token w \<longleftrightarrow> w \<noteq> [] \<and> list_all (\<lambda>c. 33 \<le> (of_char c :: nat) \<and> of_char c < (127::nat)) w"

lemma token_char:
  "plain_token w \<Longrightarrow> c \<in> set w \<Longrightarrow> \<not> ascii_space c \<and> of_char c < (128::nat) \<and> c \<noteq> CHR '' '' \<and> c \<noteq> newline \<and> c \<noteq> CHR 0x0D"
  by (auto simp: plain_token_def list_all_iff ascii_space_def newline_def)

lemma trim_ascii:
  assumes "s \<noteq> []" "\<not> ascii_space (hd s)" "of_char (hd s) < (128::nat)" "\<not> ascii_space (last s)" "of_char (last s) < (128::nat)"
  shows "trim_space s = s"
proof (rule trim_space_fixed)
  show "space_len wide_spaces s = 0" using assms by (cases s) (auto simp: space_len_def)
  obtain q x where s: "s = q @ [x]" using assms(1) by (cases s rule: rev_cases) auto
  then show "space_len (map rev wide_spaces) (rev s) = 0" using assms by (auto simp: space_len_def)
qed

lemma trim_tab: "trim_space (CHR 0x09 # s) = trim_space s"
  by (simp add: trim_space_def trim_left_def strip_space.simps [of wide_spaces "CHR 0x09 # s"] space_len_def ascii_space_def)

lemma trim_requirement:
  assumes "plain_token n" "plain_token v"
  shows "trim_space (n @ '' '' @ v) = n @ '' '' @ v"
proof (rule trim_ascii)
  have "hd (n @ '' '' @ v) \<in> set n" "last (n @ '' '' @ v) \<in> set v" using assms by (auto simp: plain_token_def)
  then show "\<not> ascii_space (hd (n @ '' '' @ v))" "of_char (hd (n @ '' '' @ v)) < (128::nat)"
    "\<not> ascii_space (last (n @ '' '' @ v))" "of_char (last (n @ '' '' @ v)) < (128::nat)"
    using token_char assms by blast+
qed simp

lemma fields_from_token: "list_all (\<lambda>c. space_len wide_spaces [c] = 0 \<and> of_char c < (128::nat)) w \<Longrightarrow>
   fields_from cur (w @ s) = fields_from (cur @ w) s"
proof (induction w arbitrary: cur)
  case (Cons c w)
  then have "space_len wide_spaces (c # w @ s) = 0" by (auto simp: space_len_def split: if_splits)
  with Cons show ?case by simp
qed simp

lemma fields_requirement:
  assumes "plain_token n" "plain_token v"
  shows "go_fields (n @ '' '' @ v) = [n, v]"
proof -
  have t: "list_all (\<lambda>c. space_len wide_spaces [c] = 0 \<and> of_char c < (128::nat)) w" if "plain_token w" for w
    using token_char [OF that] by (auto simp: list_all_iff space_len_def)
  have "fields_from [] (n @ '' '' @ v) = fields_from n ('' '' @ v)"
    using fields_from_token [OF t [OF assms(1)]] by simp
  also have "\<dots> = n # fields_from [] v"
    using assms(1) by (simp add: plain_token_def space_len_def ascii_space_def)
  also have "\<dots> = [n, v]"
    using fields_from_token [OF t [OF assms(2)], of "[]" "[]"] assms(2) by (simp add: plain_token_def)
  finally show ?thesis by (simp add: go_fields_def)
qed

lemma split_on_lines:
  "list_all (\<lambda>l. newline \<notin> set l) ls \<Longrightarrow> split_on newline (concat (map (\<lambda>l. l @ [newline]) ls)) = ls @ [[]]"
proof (induction ls)
  case (Cons l ls)
  have "split_on newline l = [l]" if "newline \<notin> set l" for l
    using that by (induction l) auto
  with Cons show ?case using split_on_append [of newline l] by simp
qed simp

lemma scan_pieces_lines:
  "list_all (\<lambda>l. length l < m \<and> drop_cr l = l) ls \<Longrightarrow> scan_pieces m (ls @ [[]]) = (ls, False)"
proof (induction ls)
  case (Cons l ls)
  then show ?case by (cases ls) auto
qed simp

lemma scan_rendered:
  assumes "list_all (\<lambda>l. newline \<notin> set l \<and> length l < m \<and> drop_cr l = l) ls"
  shows "scan_lines m (concat (map (\<lambda>l. l @ [newline]) ls)) = (ls, False)"
  using assms split_on_lines [of ls] scan_pieces_lines [of m ls]
  by (simp add: scan_lines_def list_all_iff)

lemma trim_token: "plain_token w \<Longrightarrow> trim_space w = w"
  using token_char [of w "hd w"] token_char [of w "last w"] by (intro trim_ascii) (auto simp: plain_token_def)

lemma token_space: "plain_token w \<Longrightarrow> CHR '' '' \<notin> set w"
  using token_char by blast

lemma requirement_split:
  "plain_token n \<Longrightarrow> plain_token v \<Longrightarrow> n @ CHR '' '' # v = a @ CHR '' '' # r \<longleftrightarrow> n = a \<and> v = r"
  by (simp add: append_Cons_eq_iff token_space)

lemma drop_cr_id: "CHR 0x0D \<notin> set l \<Longrightarrow> drop_cr l = l"
  by (auto simp: drop_cr_def trim_suffix_def has_suffix_iff)

lemma strip_space_keeps:
  assumes "\<And>w x. w \<in> set enc \<Longrightarrow> x \<in> set w \<Longrightarrow> \<not> of_char x < (128::nat)"
    and "c \<in> set s" "\<not> ascii_space c" "of_char c < (128::nat)"
  shows "c \<in> set (strip_space enc s)"
  using assms
proof (induction enc s rule: strip_space.induct)
  case (1 enc s)
  show ?case
  proof (cases "space_len enc s = 0")
    case True
    with "1.prems" show ?thesis by (simp add: strip_space_id)
  next
    case False
    have "c \<notin> set (take (space_len enc s) s)"
    proof (cases s)
      case (Cons x r)
      show ?thesis
      proof (cases "ascii_space x")
        case True
        with Cons "1.prems"(3) show ?thesis by (auto simp: space_len_def)
      next
        case x: False
        with False Cons obtain w where w: "find (has_prefix s) enc = Some w" "space_len enc s = length w"
          by (auto simp: space_len_def split: if_splits option.splits)
        then have "w \<in> set enc" "take (length w) s = w"
          by (auto simp: find_Some_iff has_prefix_def)
        with "1.prems"(1,4) w(2) show ?thesis by auto
      qed
    qed simp
    then have "c \<in> set (drop (space_len enc s) s)"
      using "1.prems"(2) by (metis UnE append_take_drop_id set_append)
    with 1 False show ?thesis by (simp add: strip_space.simps [of enc s])
  qed
qed

lemma trim_space_keeps:
  assumes "c \<in> set s" "\<not> ascii_space c" "of_char c < (128::nat)"
  shows "c \<in> set (trim_space s)"
proof -
  have w: "\<And>w x. w \<in> set wide_spaces \<Longrightarrow> x \<in> set w \<Longrightarrow> \<not> of_char x < (128::nat)"
    by (auto simp: wide_spaces_def)
  then have wr: "\<And>w x. w \<in> set (map rev wide_spaces) \<Longrightarrow> x \<in> set w \<Longrightarrow> \<not> of_char x < (128::nat)"
    by auto
  have "c \<in> set (rev (trim_left s))"
    using strip_space_keeps [of wide_spaces c s] w assms by (simp add: trim_left_def)
  then show ?thesis
    using strip_space_keeps [of "map rev wide_spaces" c "rev (trim_left s)"] wr assms(2,3)
    unfolding trim_space_def trim_right_def by (metis set_rev)
qed

lemma token_line:
  assumes "plain_token n" "plain_token v"
  shows "newline \<notin> set (n @ '' '' @ v)" "CHR 0x0D \<notin> set (n @ '' '' @ v)"
  using token_char [OF assms(1)] token_char [OF assms(2)] by (auto simp: newline_def)

definition render_lines :: "string list \<Rightarrow> string" where
  "render_lines ls = concat (map (\<lambda>l. l @ [newline]) ls)"

lemma trim_blank: "trim_space (CHR '' '' # s) = trim_space s"
  by (simp add: trim_space_def trim_left_def strip_space.simps [of wide_spaces "CHR '' '' # s"] space_len_def ascii_space_def)

section \<open>Contracts shared by several components\<close>

subsection \<open>Keeping the first occurrence of each key\<close>

text \<open>The program filters lists through a set of seen keys in several places (vulnerability
  identifiers, advisories, query results).  The loops share this contract: an element
  with a blank or already seen key is skipped, any other is emitted and its key recorded.\<close>

locale first_occurrence =
  fixes run :: "'k set \<Rightarrow> 'a list \<Rightarrow> 'b list"
    and key :: "'a \<Rightarrow> 'k"
    and out :: "'a \<Rightarrow> 'b"
    and okey :: "'b \<Rightarrow> 'k"
    and blank :: "'k \<Rightarrow> bool"
  assumes run_Nil: "run seen [] = []"
    and run_Cons: "run seen (x # xs) =
      (if blank (key x) \<or> key x \<in> seen then run seen xs
       else out x # run (insert (key x) seen) xs)"
    and okey_out: "okey (out x) = key x"
begin

lemma keys_run: "okey ` set (run seen xs) = {k \<in> key ` set xs. \<not> blank k \<and> k \<notin> seen}"
  by (induction xs arbitrary: seen) (auto simp: run_Nil run_Cons okey_out)

lemma distinct_run: "distinct (map okey (run seen xs))"
proof (induction xs arbitrary: seen)
  case Nil
  then show ?case by (simp add: run_Nil)
next
  case (Cons x xs)
  have "key x \<notin> okey ` set (run (insert (key x) seen) xs)"
    by (simp add: keys_run)
  with Cons show ?case by (auto simp: run_Cons okey_out)
qed

lemma set_run: "set (run seen xs) \<subseteq> out ` set xs"
  by (induction xs arbitrary: seen) (auto simp: run_Nil run_Cons)

lemma length_run: "length (run seen xs) \<le> length xs"
  by (induction xs arbitrary: seen) (auto simp: run_Nil run_Cons le_SucI)

lemma subseq_run: "subseq (run seen xs) (map out xs)"
  by (induction xs arbitrary: seen) (auto simp: run_Nil run_Cons)

lemma run_no_new: "(\<And>x. x \<in> set xs \<Longrightarrow> blank (key x) \<or> key x \<in> seen) \<Longrightarrow> run seen xs = []"
  by (induction xs) (auto simp: run_Nil run_Cons)

end

subsection \<open>Machines with an invariant\<close>

text \<open>A component with state is a set of initial states and a step relation; what its
  operations keep holds in every state they reach.\<close>

locale invariant_machine =
  fixes start :: "'s \<Rightarrow> bool"
    and step :: "'s \<Rightarrow> 's \<Rightarrow> bool"
    and inv :: "'s \<Rightarrow> bool"
  assumes start_inv: "start s \<Longrightarrow> inv s"
    and step_inv: "inv s \<Longrightarrow> step s t \<Longrightarrow> inv t"
begin

lemma steps_inv: "step\<^sup>*\<^sup>* s t \<Longrightarrow> inv s \<Longrightarrow> inv t"
  by (induction rule: rtranclp_induct) (auto intro: step_inv)

lemma reachable_inv: "start s \<Longrightarrow> step\<^sup>*\<^sup>* s t \<Longrightarrow> inv t"
  by (blast intro: steps_inv start_inv)

end

subsection \<open>Three-way comparisons\<close>

text \<open>A comparison function with results -1, 0 and 1, used to bound ranges.\<close>

locale three_way =
  fixes cmp :: "'a \<Rightarrow> 'a \<Rightarrow> int"
  assumes cmp_range: "cmp a b \<in> {-1, 0, 1}"
    and cmp_swap: "cmp b a = - cmp a b"
begin

lemma cmp_refl: "cmp a a = 0"
  using cmp_swap [of a a] by simp

lemma cmp_ge_iff: "cmp a b \<ge> 0 \<longleftrightarrow> cmp b a \<le> 0"
  using cmp_swap [of a b] by simp

lemma cmp_lt_iff: "cmp a b < 0 \<longleftrightarrow> cmp b a = 1"
  using cmp_swap [of a b] cmp_range [of b a] by auto

lemma cmp_total: "cmp a b < 0 \<or> cmp a b = 0 \<or> cmp b a < 0"
  using cmp_swap [of a b] by arith

end

end
