(* ===== verification/Scanner_Registry.thy ===== *)
theory Scanner_Registry
  imports Prelude
begin

text \<open>
  The scanner registry, the scanner packs and the executor
  (\<^verbatim>\<open>src/internal/scanner/registry.go\<close> and \<^verbatim>\<open>executor.go\<close>).  Go's map \<^verbatim>\<open>Registry\<close> is
  an association list in the order of the source; operations that iterate over it return
  their results in that order, where Go's order is not fixed, so statements about them are
  about sets.  A scanner's parser is named by a constructor; \<open>Scanner_Parsers\<close> gives each
  name its function.  The processes the executor starts are an environment record.
\<close>

section \<open>Data\<close>

type_synonym category = string

abbreviation CategorySAST :: category where "CategorySAST \<equiv> ''sast''"
abbreviation CategorySCA :: category where "CategorySCA \<equiv> ''sca''"
abbreviation CategorySecrets :: category where "CategorySecrets \<equiv> ''secrets''"
abbreviation CategoryIaC :: category where "CategoryIaC \<equiv> ''iac''"
abbreviation CategoryContainers :: category where "CategoryContainers \<equiv> ''containers''"
abbreviation CategoryDAST :: category where "CategoryDAST \<equiv> ''dast''"

abbreviation TargetGit :: string where "TargetGit \<equiv> ''git''"
abbreviation TargetURL :: string where "TargetURL \<equiv> ''url''"

record finding_row =
  RuleID :: string
  Title :: string
  Description :: string
  Severity :: string
  FilePath :: string
  LineStart :: int
  LineEnd :: int
  CodeSnippet :: string
  Raw :: string
  CVEID :: string
  CWEID :: string
  SecretHash :: string
  PkgName :: string
  PkgVersion :: string

datatype parser_name = PSarif | PGrype | POsv | PTrufflehog | PGitleaks | PCheckov | PKics | PNuclei

record scanner =
  sc_Name :: string
  sc_Category :: category
  sc_Description :: string
  sc_BuildArgs :: "string \<Rightarrow> string list"
  sc_WorkDir :: string
  sc_Env :: "(string \<times> string) list"
  sc_ExecVia :: string
  sc_Format :: string
  sc_TargetType :: string
  sc_Parse :: parser_name

record scanner_info =
  info_Name :: string
  info_Category :: string
  info_Description :: string
  info_TargetType :: string

definition quote_chars :: "string \<Rightarrow> string" where
  "quote_chars s = map (\<lambda>c. if c = CHR 0x60 then CHR 0x22 else if c = CHR 0x5E then CHR 0x27 else c) s"

definition em_dash :: string where "em_dash = [CHR 0xE2, CHR 0x80, CHR 0x94]"
definition ellipsis_rune :: string where "ellipsis_rune = [CHR 0xE2, CHR 0x80, CHR 0xA6]"

section \<open>The registry\<close>

definition semgrep :: scanner where
  "semgrep = \<lparr>sc_Name = ''semgrep'', sc_Category = CategorySAST,
     sc_Description = ''Static analysis for 30+ languages'',
     sc_BuildArgs = (\<lambda>t. [''--sarif'', ''--config=auto'', ''--no-rewrite-rule-ids'', t]),
     sc_WorkDir = [], sc_Env = [], sc_ExecVia = [],
     sc_Format = ''sarif'', sc_TargetType = TargetGit, sc_Parse = PSarif\<rparr>"

definition gosec :: scanner where
  "gosec = \<lparr>sc_Name = ''gosec'', sc_Category = CategorySAST,
     sc_Description = ''Go security checker (Go projects only)'',
     sc_BuildArgs = (\<lambda>_. [''-fmt=sarif'', ''-stdout'', ''./...'']),
     sc_WorkDir = ''/src'', sc_Env = [], sc_ExecVia = [],
     sc_Format = ''sarif'', sc_TargetType = TargetGit, sc_Parse = PSarif\<rparr>"

definition trivy :: scanner where
  "trivy = \<lparr>sc_Name = ''trivy'', sc_Category = CategorySCA,
     sc_Description = ''Vulnerability scanner for packages and containers'',
     sc_BuildArgs = (\<lambda>t. [''fs'', ''--format'', ''sarif'', ''--exit-code'', ''0'', ''--no-progress'', t]),
     sc_WorkDir = [], sc_Env = [(''TRIVY_INSECURE'', ''true'')], sc_ExecVia = [],
     sc_Format = ''sarif'', sc_TargetType = TargetGit, sc_Parse = PSarif\<rparr>"

definition grype :: scanner where
  "grype = \<lparr>sc_Name = ''grype'', sc_Category = CategorySCA,
     sc_Description = ''Vulnerability scanner for filesystems (Anchore)'',
     sc_BuildArgs = (\<lambda>t. [''dir:'' @ t, ''-o'', ''json'']),
     sc_WorkDir = [],
     sc_Env = [(''GRYPE_DB_CACHE_DIR'', ''/tmp/grype-db''), (''GRYPE_DB_AUTO_UPDATE'', ''true'')],
     sc_ExecVia = [],
     sc_Format = ''json'', sc_TargetType = TargetGit, sc_Parse = PGrype\<rparr>"

definition osv_scanner :: scanner where
  "osv_scanner = \<lparr>sc_Name = ''osv-scanner'', sc_Category = CategorySCA,
     sc_Description = ''Open Source Vulnerabilities scanner (Google)'',
     sc_BuildArgs = (\<lambda>t. [''--format'', ''json'', ''-r'', t]),
     sc_WorkDir = [], sc_Env = [], sc_ExecVia = [],
     sc_Format = ''json'', sc_TargetType = TargetGit, sc_Parse = POsv\<rparr>"

definition trufflehog :: scanner where
  "trufflehog = \<lparr>sc_Name = ''trufflehog'', sc_Category = CategorySecrets,
     sc_Description = ''Detect secrets in git history'',
     sc_BuildArgs = (\<lambda>t. [''git'', ''--json'', ''--no-update'', ''file://'' @ t]),
     sc_WorkDir = [], sc_Env = [], sc_ExecVia = [],
     sc_Format = ''jsonlines'', sc_TargetType = TargetGit, sc_Parse = PTrufflehog\<rparr>"

definition gitleaks :: scanner where
  "gitleaks = \<lparr>sc_Name = ''gitleaks'', sc_Category = CategorySecrets,
     sc_Description = ''Detect hardcoded secrets in git repos'',
     sc_BuildArgs = (\<lambda>t. [''detect'', ''--source'', t, ''--report-format'', ''json'', ''--exit-code'', ''0'']),
     sc_WorkDir = [], sc_Env = [], sc_ExecVia = [],
     sc_Format = ''json'', sc_TargetType = TargetGit, sc_Parse = PGitleaks\<rparr>"

definition checkov :: scanner where
  "checkov = \<lparr>sc_Name = ''checkov'', sc_Category = CategoryIaC,
     sc_Description = ''IaC security analysis (Terraform, K8s, Dockerfile, ARM'' @ ellipsis_rune @ '')'',
     sc_BuildArgs = (\<lambda>t. [''-d'', t, ''-o'', ''json'', ''--compact'']),
     sc_WorkDir = [], sc_Env = [], sc_ExecVia = [],
     sc_Format = ''json'', sc_TargetType = TargetGit, sc_Parse = PCheckov\<rparr>"

definition tfsec :: scanner where
  "tfsec = \<lparr>sc_Name = ''tfsec'', sc_Category = CategoryIaC,
     sc_Description = ''Terraform security scanner'',
     sc_BuildArgs = (\<lambda>t. [''--format'', ''sarif'', ''--no-color'', t]),
     sc_WorkDir = [], sc_Env = [], sc_ExecVia = [],
     sc_Format = ''sarif'', sc_TargetType = TargetGit, sc_Parse = PSarif\<rparr>"

text \<open>The shell command of kics; \<open>quote_chars\<close> writes \<^verbatim>\<open>^\<close> for the single and \<^verbatim>\<open>`\<close> for
  the double quote.\<close>

definition kics :: scanner where
  "kics = \<lparr>sc_Name = ''kics'', sc_Category = CategoryIaC,
     sc_Description = ''IaC security analysis for 20+ platforms (Checkmarx)'',
     sc_BuildArgs = (\<lambda>t. [''-c'', ''kics scan -p '' @ t @
        '' --report-formats json --silent -o /tmp/kicsout; cat /tmp/kicsout/results.json 2>/dev/null || echo '' @
        quote_chars ''^{`queries`:[]}^'']),
     sc_WorkDir = [], sc_Env = [], sc_ExecVia = ''sh'',
     sc_Format = ''json'', sc_TargetType = TargetGit, sc_Parse = PKics\<rparr>"

definition trivy_image :: scanner where
  "trivy_image = \<lparr>sc_Name = ''trivy-image'', sc_Category = CategoryContainers,
     sc_Description = ''Container image vulnerability scanner '' @ em_dash @
        '' target: image ref (e.g. nginx:latest)'',
     sc_BuildArgs = (\<lambda>t. [''image'', ''--format'', ''sarif'', ''--exit-code'', ''0'', ''--no-progress'', t]),
     sc_WorkDir = [], sc_Env = [(''TRIVY_INSECURE'', ''true'')], sc_ExecVia = [],
     sc_Format = ''sarif'', sc_TargetType = TargetURL, sc_Parse = PSarif\<rparr>"

definition grype_image :: scanner where
  "grype_image = \<lparr>sc_Name = ''grype-image'', sc_Category = CategoryContainers,
     sc_Description = ''Container image vulnerability scanner (Anchore) '' @ em_dash @ '' target: image ref'',
     sc_BuildArgs = (\<lambda>t. [t, ''-o'', ''json'']),
     sc_WorkDir = [],
     sc_Env = [(''GRYPE_DB_CACHE_DIR'', ''/tmp/grype-db''), (''GRYPE_DB_AUTO_UPDATE'', ''true'')],
     sc_ExecVia = [],
     sc_Format = ''json'', sc_TargetType = TargetURL, sc_Parse = PGrype\<rparr>"

definition nuclei :: scanner where
  "nuclei = \<lparr>sc_Name = ''nuclei'', sc_Category = CategoryDAST,
     sc_Description = ''Template-based web vulnerability scanner '' @ em_dash @ '' target: web URL'',
     sc_BuildArgs = (\<lambda>t. [''-u'', t, ''-jsonl'', ''-silent'', ''-no-color'']),
     sc_WorkDir = [], sc_Env = [], sc_ExecVia = [],
     sc_Format = ''jsonlines'', sc_TargetType = TargetURL, sc_Parse = PNuclei\<rparr>"

definition Registry :: "(string \<times> scanner) list" where
  "Registry =
    [(''semgrep'', semgrep), (''gosec'', gosec), (''trivy'', trivy), (''grype'', grype),
     (''osv-scanner'', osv_scanner), (''trufflehog'', trufflehog), (''gitleaks'', gitleaks),
     (''checkov'', checkov), (''tfsec'', tfsec), (''kics'', kics),
     (''trivy-image'', trivy_image), (''grype-image'', grype_image), (''nuclei'', nuclei)]"

definition Get :: "string \<Rightarrow> scanner option" where
  "Get name = map_of Registry name"

definition CategoryFor :: "string \<Rightarrow> category option" where
  "CategoryFor name = (case map_of Registry name of
      None \<Rightarrow> None
    | Some s \<Rightarrow> Some (sc_Category s))"

definition SameCategory :: "string \<Rightarrow> string \<Rightarrow> bool" where
  "SameCategory a b = (case CategoryFor a of
      None \<Rightarrow> False
    | Some ac \<Rightarrow> (case CategoryFor b of
        None \<Rightarrow> False
      | Some bc \<Rightarrow> ac = bc))"

definition ListInfo :: "scanner_info list" where
  "ListInfo = map (\<lambda>(_, s). \<lparr>info_Name = sc_Name s, info_Category = sc_Category s,
     info_Description = sc_Description s, info_TargetType = sc_TargetType s\<rparr>) Registry"

section \<open>Packs\<close>

record pack =
  pack_ID :: string
  pack_Label :: string
  pack_Description :: string
  pack_Scanners :: "string list"

definition GitScannerNames :: "string list" where
  "GitScannerNames = map fst (filter (\<lambda>(name, s). sc_TargetType s = TargetGit) Registry)"

definition Packs :: "pack list" where
  "Packs =
    [\<lparr>pack_ID = ''all'', pack_Label = ''All Git Scanners'',
       pack_Description = ''Run every available git-based scanner'', pack_Scanners = GitScannerNames\<rparr>,
     \<lparr>pack_ID = ''sast'', pack_Label = ''SAST'',
       pack_Description = ''Static application security testing'', pack_Scanners = [''semgrep'', ''gosec'']\<rparr>,
     \<lparr>pack_ID = ''sca'', pack_Label = ''SCA'',
       pack_Description = ''Software composition analysis'',
       pack_Scanners = [''trivy'', ''grype'', ''osv-scanner'']\<rparr>,
     \<lparr>pack_ID = ''secrets'', pack_Label = ''Secrets'',
       pack_Description = ''Secret detection'', pack_Scanners = [''trufflehog'', ''gitleaks'']\<rparr>,
     \<lparr>pack_ID = ''iac'', pack_Label = ''IaC'',
       pack_Description = ''Infrastructure as Code scanning'',
       pack_Scanners = [''checkov'', ''tfsec'', ''kics'']\<rparr>,
     \<lparr>pack_ID = ''containers'', pack_Label = ''Containers'',
       pack_Description = ''Container image scanning'',
       pack_Scanners = [''trivy-image'', ''grype-image'']\<rparr>]"

fun resolve_in :: "pack list \<Rightarrow> string \<Rightarrow> string list option" where
  "resolve_in [] pid = None"
| "resolve_in (p # ps) pid = (if pack_ID p = pid then Some (pack_Scanners p) else resolve_in ps pid)"

definition ResolvePack :: "string \<Rightarrow> string list option" where
  "ResolvePack pid = resolve_in Packs pid"

section \<open>The executor\<close>

text \<open>The operating system as the executor uses it: \<open>look_path\<close> is \<^verbatim>\<open>exec.LookPath\<close>;
  \<open>run_cmd\<close> takes the program, its arguments, its working directory (\<open>None\<close> for the
  caller's) and its environment (\<open>None\<close> for the inherited one), and gives what it wrote,
  its error if it failed, and the elapsed time as text.\<close>

record os_env =
  look_path :: "string \<Rightarrow> string option"
  environ :: "string list"
  run_cmd :: "string \<Rightarrow> string list \<Rightarrow> string option \<Rightarrow> string list option
    \<Rightarrow> string \<times> string \<times> string option \<times> string"

record exec_result =
  er_Stdout :: string
  er_Log :: string
  er_Err :: "string option"

definition executor_binaries :: "(string \<times> string) list" where
  "executor_binaries =
    [(''semgrep'', ''semgrep''), (''gosec'', ''gosec''), (''trivy'', ''trivy''),
     (''trivy-image'', ''trivy''), (''grype'', ''grype''), (''grype-image'', ''grype''),
     (''osv-scanner'', ''osv-scanner''), (''trufflehog'', ''trufflehog''),
     (''gitleaks'', ''gitleaks''), (''checkov'', ''checkov''), (''tfsec'', ''tfsec''),
     (''kics'', ''kics''), (''nuclei'', ''nuclei'')]"

definition maxLogBytes :: nat where
  "maxLogBytes = 102400"

definition truncate_log :: "string \<Rightarrow> nat \<Rightarrow> string" where
  "truncate_log b m = (if length b \<le> m then b else take m b)"

definition box_line :: "nat \<Rightarrow> string" where
  "box_line n = concat (replicate n [CHR 0xE2, CHR 0x94, CHR 0x80])"

text \<open>One captured stream in the log; nothing for an empty stream.\<close>

definition log_stream :: "string \<Rightarrow> string \<Rightarrow> string" where
  "log_stream name b = (if b = [] then []
     else [newline] @ box_line 3 @ '' '' @ name @ '' '' @ box_line 32 @ [newline] @
       truncate_log b maxLogBytes @
       (if length b > maxLogBytes
        then [newline] @ ''[... truncated '' @ itoa (int (length b) - int maxLogBytes) @ '' bytes ...]''
        else []))"

definition buildLog :: "string \<Rightarrow> string \<Rightarrow> string \<Rightarrow> string option \<Rightarrow> string \<Rightarrow> string" where
  "buildLog cmdStr stdout stderr err elapsed =
     ''$ '' @ cmdStr @ [newline] @
     ''# elapsed: '' @ elapsed @ [newline] @
     (case err of Some e \<Rightarrow> ''# exit: '' @ e @ [newline] | None \<Rightarrow> ''# exit: 0'' @ [newline]) @
     log_stream ''STDOUT'' stdout @ log_stream ''STDERR'' stderr"

definition envMapToSlice :: "(string \<times> string) list \<Rightarrow> string list" where
  "envMapToSlice m = map (\<lambda>(k, v). k @ ''='' @ v) m"

text \<open>\<open>mountSrc\<close> is the clone directory, or the target URL.\<close>

definition RunScanner :: "os_env \<Rightarrow> scanner \<Rightarrow> string \<Rightarrow> exec_result" where
  "RunScanner os sc mountSrc =
     (case map_of executor_binaries (sc_Name sc) of
        None \<Rightarrow> \<lparr>er_Stdout = [], er_Log = [],
          er_Err = Some (''no binary mapping for scanner: '' @ sc_Name sc)\<rparr>
      | Some binary \<Rightarrow>
        (let args = sc_BuildArgs sc mountSrc;
             prog = (if sc_ExecVia sc \<noteq> []
                then (case look_path os (sc_ExecVia sc) of
                    None \<Rightarrow> Inl (''shell not found: '' @ sc_ExecVia sc)
                  | Some p \<Rightarrow> Inr p)
                else (case look_path os binary of
                    None \<Rightarrow> Inl (''scanner binary not found: '' @ sc_Name sc @ '' (looked for '' @
                      [CHR 0x27] @ binary @ [CHR 0x27] @ '')'')
                  | Some p \<Rightarrow> Inr p))
         in case prog of
              Inl e \<Rightarrow> \<lparr>er_Stdout = [], er_Log = [], er_Err = Some e\<rparr>
            | Inr path \<Rightarrow>
                (let dir = (if sc_WorkDir sc \<noteq> [] then Some mountSrc else None);
                     env = (if sc_Env sc \<noteq> [] then Some (environ os @ envMapToSlice (sc_Env sc)) else None)
                 in case run_cmd os path args dir env of
                      (out, errs, runErr, elapsed) \<Rightarrow>
                        \<lparr>er_Stdout = out,
                         er_Log = buildLog (binary @ '' '' @ join '' '' args) out errs runErr elapsed,
                         er_Err = runErr\<rparr>)))"

definition CheckBinaryAvailability :: "os_env \<Rightarrow> string \<Rightarrow> string + string" where
  "CheckBinaryAvailability os scannerName =
     (case map_of executor_binaries scannerName of
        None \<Rightarrow> Inl (''unknown scanner: '' @ scannerName)
      | Some binary \<Rightarrow> (case look_path os binary of
          None \<Rightarrow> Inl (''scanner '' @ scannerName @ '' not found in PATH'')
        | Some p \<Rightarrow> Inr p))"

section \<open>Lemmas\<close>

lemmas scanner_table_defs =
  semgrep_def gosec_def trivy_def grype_def osv_scanner_def trufflehog_def gitleaks_def
  checkov_def tfsec_def kics_def trivy_image_def grype_image_def nuclei_def

lemma registry_keys: "map fst Registry =
  [''semgrep'', ''gosec'', ''trivy'', ''grype'', ''osv-scanner'', ''trufflehog'', ''gitleaks'',
   ''checkov'', ''tfsec'', ''kics'', ''trivy-image'', ''grype-image'', ''nuclei'']"
  by (simp add: Registry_def)

lemma distinct_registry: "distinct (map fst Registry)"
  by (simp add: registry_keys)

lemma registry_rows:
  "(name, s) \<in> set Registry \<Longrightarrow> sc_Name s = name \<and> sc_TargetType s \<in> {TargetGit, TargetURL} \<and>
     sc_Category s \<in> {CategorySAST, CategorySCA, CategorySecrets, CategoryIaC, CategoryContainers, CategoryDAST}"
  by (auto simp: Registry_def scanner_table_defs)

lemma Get_Some_iff: "Get name = Some s \<longleftrightarrow> (name, s) \<in> set Registry"
  by (simp add: Get_def distinct_registry)

lemma Get_name: "Get name = Some s \<Longrightarrow> sc_Name s = name"
  by (simp add: Get_Some_iff registry_rows)

lemma CategoryFor_Get: "CategoryFor name = map_option sc_Category (Get name)"
  by (simp add: CategoryFor_def Get_def split: option.split)

lemma CategoryFor_table:
  "CategoryFor name = map_of [(''semgrep'', ''sast''), (''gosec'', ''sast''), (''trivy'', ''sca''),
     (''grype'', ''sca''), (''osv-scanner'', ''sca''), (''trufflehog'', ''secrets''),
     (''gitleaks'', ''secrets''), (''checkov'', ''iac''), (''tfsec'', ''iac''), (''kics'', ''iac''),
     (''trivy-image'', ''containers''), (''grype-image'', ''containers''), (''nuclei'', ''dast'')] name"
  by (simp add: CategoryFor_def Registry_def scanner_table_defs)

lemma SameCategory_iff:
  "SameCategory a b \<longleftrightarrow> (\<exists>c. CategoryFor a = Some c \<and> CategoryFor b = Some c)"
  by (auto simp: SameCategory_def split: option.splits)

lemma SameCategory_refl: "CategoryFor a \<noteq> None \<Longrightarrow> SameCategory a a"
  by (auto simp: SameCategory_iff)

lemma SameCategory_sym: "SameCategory a b \<Longrightarrow> SameCategory b a"
  by (auto simp: SameCategory_iff)

lemma SameCategory_trans: "SameCategory a b \<Longrightarrow> SameCategory b c \<Longrightarrow> SameCategory a c"
  by (auto simp: SameCategory_iff)

lemma GitScannerNames_eq: "GitScannerNames =
  [''semgrep'', ''gosec'', ''trivy'', ''grype'', ''osv-scanner'', ''trufflehog'', ''gitleaks'',
   ''checkov'', ''tfsec'', ''kics'']"
  by (simp add: GitScannerNames_def Registry_def scanner_table_defs)

lemma resolve_in_Some: "resolve_in ps pid = Some ns \<Longrightarrow> \<exists>p \<in> set ps. pack_ID p = pid \<and> pack_Scanners p = ns"
  by (induction ps) (auto split: if_splits)

lemma ResolvePack_table:
  "ResolvePack pid = map_of [(''all'', GitScannerNames), (''sast'', [''semgrep'', ''gosec'']),
     (''sca'', [''trivy'', ''grype'', ''osv-scanner'']), (''secrets'', [''trufflehog'', ''gitleaks'']),
     (''iac'', [''checkov'', ''tfsec'', ''kics'']), (''containers'', [''trivy-image'', ''grype-image''])] pid"
  by (auto simp: ResolvePack_def Packs_def)

lemma length_truncate_log [simp]: "length (truncate_log b m) \<le> m"
  by (simp add: truncate_log_def)

lemma binary_for_registered: "name \<in> set (map fst Registry) \<Longrightarrow> map_of executor_binaries name \<noteq> None"
  by (auto simp: registry_keys executor_binaries_def)

lemma category_rows:
  "{n. CategoryFor n = Some c} = set (map fst (filter (\<lambda>(n, s). sc_Category s = c) Registry))"
  by (force simp: CategoryFor_Get Get_Some_iff)

lemma category_members:
  "{n. CategoryFor n = Some ''sast''} = {''semgrep'', ''gosec''}"
  "{n. CategoryFor n = Some ''sca''} = {''trivy'', ''grype'', ''osv-scanner''}"
  "{n. CategoryFor n = Some ''secrets''} = {''trufflehog'', ''gitleaks''}"
  "{n. CategoryFor n = Some ''iac''} = {''checkov'', ''tfsec'', ''kics''}"
  "{n. CategoryFor n = Some ''containers''} = {''trivy-image'', ''grype-image''}"
  by (simp_all add: category_rows Registry_def scanner_table_defs)

lemma registered_Get: "n \<in> set (map fst Registry) \<Longrightarrow> \<exists>s. Get n = Some s \<and> sc_Name s = n"
  using registry_rows by (fastforce simp: Get_Some_iff)

lemma ExecVia_table: "Get name = Some sc \<Longrightarrow> sc_ExecVia sc = (if name = ''kics'' then ''sh'' else [])"
  by (auto simp: Get_Some_iff Registry_def scanner_table_defs)

lemma SameCategory_table: "CategoryFor a = Some c \<Longrightarrow> SameCategory a b \<longleftrightarrow> CategoryFor b = Some c"
  by (auto simp: SameCategory_iff)

section \<open>Properties\<close>

text \<open>A scan request names a pack, and \<^verbatim>\<open>ResolvePack\<close> turns it into the scanners to run.
  Every name it yields is a registered scanner on git targets or on images, no scanner is
  run twice, the pack \<^verbatim>\<open>all\<close> is exactly the scanners with a git target, and every other
  pack is exactly the scanners of the category it is named after: a scanner added to the
  registry and not to its pack would break the statement.\<close>

theorem ResolvePack_correct:
  assumes "ResolvePack pid = Some ns"
  shows "distinct ns \<and> (\<forall>n \<in> set ns. \<exists>s. Get n = Some s \<and> sc_Name s = n) \<and>
    set ns = (if pid = ''all'' then {n. \<exists>s. Get n = Some s \<and> sc_TargetType s = TargetGit}
              else {n. CategoryFor n = Some pid})"
proof (cases "pid = ''all''")
  case True
  with assms have ns: "ns = GitScannerNames" by (simp add: ResolvePack_table)
  have git: "set GitScannerNames = {n. \<exists>s. Get n = Some s \<and> sc_TargetType s = TargetGit}"
    by (force simp: GitScannerNames_def Get_Some_iff)
  have "\<forall>n \<in> set ns. \<exists>s. Get n = Some s \<and> sc_Name s = n"
    using ns by (simp add: GitScannerNames_eq registered_Get registry_keys)
  moreover have "distinct ns" using ns by (simp add: GitScannerNames_eq)
  ultimately show ?thesis using True ns git by simp
next
  case False
  with assms consider
      "pid = ''sast'' \<and> ns = [''semgrep'', ''gosec'']"
    | "pid = ''sca'' \<and> ns = [''trivy'', ''grype'', ''osv-scanner'']"
    | "pid = ''secrets'' \<and> ns = [''trufflehog'', ''gitleaks'']"
    | "pid = ''iac'' \<and> ns = [''checkov'', ''tfsec'', ''kics'']"
    | "pid = ''containers'' \<and> ns = [''trivy-image'', ''grype-image'']"
    unfolding ResolvePack_table by (simp split: if_splits)
  then show ?thesis
    by cases (simp_all add: category_members registered_Get registry_keys)
qed

theorem ResolvePack_correct_witness:
  "ResolvePack ''sca'' = Some [''trivy'', ''grype'', ''osv-scanner''] \<and>
   {n. CategoryFor n = Some ''sca''} = {''trivy'', ''grype'', ''osv-scanner''}"
proof -
  have a: "ResolvePack ''sca'' = Some [''trivy'', ''grype'', ''osv-scanner'']"
    by (simp add: ResolvePack_table)
  show ?thesis using ResolvePack_correct [OF a] a by simp
qed

text \<open>Every scanner of the registry can be executed: the executor knows a binary for it,
  so with a \<^verbatim>\<open>PATH\<close> that has every program the run happens, with the arguments of the
  scanner's \<^verbatim>\<open>BuildArgs\<close>, in the clone directory exactly when the scanner asks for a
  working directory, and its output and error come back unchanged, never an error of the
  lookup.\<close>

theorem RunScanner_registered:
  assumes "Get name = Some sc" and "\<And>b. look_path os b = Some (loc b)"
  shows "\<exists>binary. map_of executor_binaries name = Some binary \<and>
    RunScanner os sc target =
      (case run_cmd os (loc (if name = ''kics'' then ''sh'' else binary)) (sc_BuildArgs sc target)
          (if sc_WorkDir sc = [] then None else Some target)
          (if sc_Env sc = [] then None else Some (environ os @ envMapToSlice (sc_Env sc))) of
         (out, errs, err, elapsed) \<Rightarrow>
           \<lparr>er_Stdout = out,
            er_Log = buildLog (binary @ '' '' @ join '' '' (sc_BuildArgs sc target)) out errs err elapsed,
            er_Err = err\<rparr>)"
proof -
  have "name \<in> set (map fst Registry)" using assms(1) by (force simp: Get_Some_iff)
  then obtain b where "map_of executor_binaries name = Some b"
    using binary_for_registered by blast
  then show ?thesis
    using ExecVia_table [OF assms(1)] Get_name [OF assms(1)] assms(2)
    by (simp add: RunScanner_def Let_def)
qed

theorem RunScanner_registered_witness:
  "er_Stdout (RunScanner \<lparr>look_path = (\<lambda>b. Some (''/bin/'' @ b)), environ = [],
     run_cmd = (\<lambda>p args dir env. (p, [], None, ''1s''))\<rparr> gosec ''/clone'') = ''/bin/gosec''"
proof -
  have g: "Get ''gosec'' = Some gosec" by (simp add: Get_def Registry_def)
  show ?thesis
    using RunScanner_registered [OF g, where os = "\<lparr>look_path = (\<lambda>b. Some (''/bin/'' @ b)), environ = [],
      run_cmd = (\<lambda>p args dir env. (p, [], None, ''1s''))\<rparr>" and loc = "\<lambda>b. ''/bin/'' @ b" and target = "''/clone''"]
    by (auto simp: executor_binaries_def)
qed

end
