(* ===== verification/Scanner_Parsers.thy ===== *)
theory Scanner_Parsers
  imports Scanner_Registry
begin

text \<open>
  The parsers of \<^verbatim>\<open>src/internal/scanner/parsers.go\<close>: each turns the output of a scanner into
  normalised rows.  The JSON documents are records with the fields the Go structs declare;
  the codec record holds \<^verbatim>\<open>encoding/json\<close> (decoding to those records, encoding a decoded
  element back for the \<^verbatim>\<open>Raw\<close> column), \<^verbatim>\<open>strconv.ParseFloat\<close>, SHA-256 in hexadecimal and
  \<^verbatim>\<open>os.ReadFile\<close>.  Regular expressions, path rules, severity tables, line scanning and the
  row assembly are modelled in full.
\<close>

section \<open>Helpers\<close>

text \<open>The regular expressions \<^verbatim>\<open>(?i)CWE-(\d+)\<close> and \<^verbatim>\<open>(?i)CVE-\d{4}-\d+\<close> at a position, and
  their leftmost match.\<close>

definition match_cwe :: "string \<Rightarrow> string option" where
  "match_cwe s =
     (let ds = takeWhile is_digit (drop 4 s)
      in if to_lower (take 4 s) = ''cwe-'' \<and> ds \<noteq> [] then Some (take 4 s @ ds) else None)"

definition match_cve :: "string \<Rightarrow> string option" where
  "match_cve s =
     (let year = take 4 (drop 4 s); ds = takeWhile is_digit (drop 9 s)
      in if to_lower (take 4 s) = ''cve-'' \<and> length year = 4 \<and> list_all is_digit year
           \<and> take 1 (drop 8 s) = ''-'' \<and> ds \<noteq> []
         then Some (take 9 s @ ds) else None)"

fun find_string :: "(string \<Rightarrow> string option) \<Rightarrow> string \<Rightarrow> string" where
  "find_string m [] = (case m [] of Some r \<Rightarrow> r | None \<Rightarrow> [])"
| "find_string m (c # s) = (case m (c # s) of Some r \<Rightarrow> r | None \<Rightarrow> find_string m s)"

fun firstCWE :: "string list \<Rightarrow> string" where
  "firstCWE [] = []"
| "firstCWE (t # ts) =
     (let m = find_string match_cwe t in if m \<noteq> [] then to_upper m else firstCWE ts)"

fun firstCVE :: "string list \<Rightarrow> string" where
  "firstCVE [] = []"
| "firstCVE (s # ss) =
     (let m = find_string match_cve s in if m \<noteq> [] then to_upper m else firstCVE ss)"

definition normalizeFindingPath :: "string \<Rightarrow> string" where
  "normalizeFindingPath path0 =
     (let path = trim_space path0 in
      if path = [] then []
      else if contains path ''://'' \<and> \<not> has_prefix path ''file://'' then path
      else
        (let p1 = trim_prefix path ''file://'';
             p2 = (if has_prefix p1 ''/src/'' then trim_prefix p1 ''/src'' else p1);
             p3 = (if has_prefix p2 ''src/'' then ''/'' @ trim_prefix p2 ''src/'' else p2)
         in if p3 \<noteq> [] \<and> \<not> has_prefix p3 ''/'' then ''/'' @ p3 else p3))"

definition maxFileContentSize :: nat where
  "maxFileContentSize = 10240"

definition readFileContent :: "(string \<Rightarrow> string option) \<Rightarrow> string \<Rightarrow> string" where
  "readFileContent read_file path =
     (if path = [] then []
      else (case read_file path of
          None \<Rightarrow> []
        | Some d \<Rightarrow> if length d > maxFileContentSize
            then take maxFileContentSize d @ [newline] @ ''... [truncated]'' else d))"

definition cvssToSeverity :: "(string \<Rightarrow> gofloat option) \<Rightarrow> string \<Rightarrow> string" where
  "cvssToSeverity parse_float score = (case parse_float score of
      None \<Rightarrow> []
    | Some v \<Rightarrow>
        if ge_const v 9 then ''critical''
        else if ge_const v 7 then ''high''
        else if ge_const v 4 then ''medium''
        else if gt_const v 0 then ''low''
        else ''info'')"

record trivy_msg =
  tm_pkg :: string
  tm_installed :: string
  tm_fixed :: string
  tm_severity :: string

definition trivy_line :: "string \<Rightarrow> trivy_msg \<Rightarrow> trivy_msg" where
  "trivy_line line0 m =
     (let line = trim_space line0 in
      if has_prefix line ''Package: '' then m\<lparr>tm_pkg := trim_prefix line ''Package: ''\<rparr>
      else if has_prefix line ''Installed Version: '' then
        m\<lparr>tm_installed := trim_prefix line ''Installed Version: ''\<rparr>
      else if has_prefix line ''Fixed Version: '' then
        m\<lparr>tm_fixed := trim_prefix line ''Fixed Version: ''\<rparr>
      else if has_prefix line ''Severity: '' then
        m\<lparr>tm_severity := to_lower (trim_prefix line ''Severity: '')\<rparr>
      else m)"

definition parseTrivyMessage :: "string \<Rightarrow> trivy_msg" where
  "parseTrivyMessage msg =
     fold trivy_line (split_on newline msg)
       \<lparr>tm_pkg = [], tm_installed = [], tm_fixed = [], tm_severity = []\<rparr>"

section \<open>The decoded documents\<close>

record sarif_rule =
  sr_ID :: string
  sr_Short :: string
  sr_Full :: string
  sr_Tags :: "string list"
  sr_CWE :: "string list"
  sr_SecuritySeverity :: string

record sarif_location =
  sl_URI :: string
  sl_StartLine :: int
  sl_EndLine :: int
  sl_Snippet :: string

record sarif_result =
  sres_RuleID :: string
  sres_Message :: string
  sres_Level :: string
  sres_Locations :: "sarif_location list"

record sarif_run =
  srun_Rules :: "sarif_rule list"
  srun_Results :: "sarif_result list"

record grype_match =
  gm_ID :: string
  gm_Severity :: string
  gm_Description :: string
  gm_Related :: "string list"
  gm_ArtName :: string
  gm_ArtVersion :: string
  gm_Locations :: "string list"

record osv_vuln_doc =
  ov_ID :: string
  ov_Aliases :: "string list"
  ov_Summary :: string
  ov_Severity :: string
  ov_CWEIDs :: "string list"

record osv_package_doc =
  op_Name :: string
  op_Version :: string
  op_Vulns :: "osv_vuln_doc list"

record osv_result_doc =
  or_Path :: string
  or_Packages :: "osv_package_doc list"

record thog_line =
  th_File :: string
  th_Line :: int
  th_Raw :: string
  th_Detector :: string
  th_Verified :: bool

record gitleaks_item =
  gl_Description :: string
  gl_StartLine :: int
  gl_EndLine :: int
  gl_Match :: string
  gl_File :: string
  gl_RuleID :: string

record checkov_check =
  cc_ID :: string
  cc_FilePath :: string
  cc_LineFrom :: int
  cc_LineTo :: int
  cc_Severity :: string
  cc_Name :: string

record kics_file =
  kf_FileName :: string
  kf_Line :: int

record kics_query =
  kq_ID :: string
  kq_Name :: string
  kq_Severity :: string
  kq_Files :: "kics_file list"

record nuclei_line =
  nl_TemplateID :: string
  nl_Name :: string
  nl_Severity :: string
  nl_Description :: string
  nl_CVEIDs :: "string list"
  nl_CWEIDs :: "string list"
  nl_MatchedAt :: string

text \<open>Standard-library functions the parsers call.  A decoder returns the error text or the
  decoded document.\<close>

record codec =
  dec_sarif :: "string \<Rightarrow> string + sarif_run list"
  dec_grype :: "string \<Rightarrow> string + grype_match list"
  dec_osv :: "string \<Rightarrow> string + osv_result_doc list"
  dec_thog :: "string \<Rightarrow> string + thog_line"
  dec_gitleaks :: "string \<Rightarrow> string + gitleaks_item list"
  dec_checkov :: "string \<Rightarrow> string + checkov_check list"
  dec_checkov_list :: "string \<Rightarrow> string + checkov_check list list"
  dec_kics :: "string \<Rightarrow> string + kics_query list"
  dec_nuclei :: "string \<Rightarrow> string + nuclei_line"
  enc_sarif :: "sarif_result \<Rightarrow> string"
  enc_grype :: "grype_match \<Rightarrow> string"
  enc_osv :: "osv_vuln_doc \<Rightarrow> string"
  enc_thog :: "thog_line \<Rightarrow> string"
  enc_gitleaks :: "gitleaks_item \<Rightarrow> string"
  enc_checkov :: "checkov_check \<Rightarrow> string"
  enc_kics :: "kics_query \<Rightarrow> string"
  enc_nuclei :: "nuclei_line \<Rightarrow> string"
  parse_float :: "string \<Rightarrow> gofloat option"
  sha256_hex :: "string \<Rightarrow> string"
  read_file :: "string \<Rightarrow> string option"

definition empty_row :: finding_row where
  "empty_row = \<lparr>RuleID = [], Title = [], Description = [], Severity = [], FilePath = [],
     LineStart = 0, LineEnd = 0, CodeSnippet = [], Raw = [], CVEID = [], CWEID = [],
     SecretHash = [], PkgName = [], PkgVersion = []\<rparr>"

section \<open>SARIF\<close>

definition sarifLevel :: "string \<Rightarrow> string" where
  "sarifLevel l =
     (let k = to_lower l in
      if k = ''error'' then ''high''
      else if k = ''warning'' then ''medium''
      else if k = ''note'' \<or> k = ''info'' then ''low''
      else ''info'')"

record rule_info =
  ri_shortDesc :: string
  ri_fullDesc :: string
  ri_cwe :: string
  ri_cvss :: string

definition rule_map :: "sarif_rule list \<Rightarrow> string \<rightharpoonup> rule_info" where
  "rule_map rules = fold (\<lambda>rule m. m(sr_ID rule \<mapsto>
     \<lparr>ri_shortDesc = sr_Short rule, ri_fullDesc = sr_Full rule,
      ri_cwe = firstCWE (sr_Tags rule @ sr_CWE rule), ri_cvss = sr_SecuritySeverity rule\<rparr>))
     rules Map.empty"

definition rule_lookup :: "(string \<rightharpoonup> rule_info) \<Rightarrow> string \<Rightarrow> rule_info" where
  "rule_lookup m k = (case m k of Some i \<Rightarrow> i
     | None \<Rightarrow> \<lparr>ri_shortDesc = [], ri_fullDesc = [], ri_cwe = [], ri_cvss = []\<rparr>)"

text \<open>The CVE branch: title, description and package fields from the message text.\<close>

definition sarif_cve_row :: "sarif_result \<Rightarrow> finding_row \<Rightarrow> finding_row" where
  "sarif_cve_row r row =
     (let m = parseTrivyMessage (sres_Message r);
          title = (if tm_pkg m \<noteq> [] then
              (if tm_installed m \<noteq> [] then sres_RuleID r @ '' in '' @ tm_pkg m @ ''@'' @ tm_installed m
               else sres_RuleID r @ '' in '' @ tm_pkg m)
            else sres_RuleID r);
          desc = (if tm_fixed m \<noteq> [] \<and> tm_fixed m \<noteq> ''N/A''
            then ''Fixed in: '' @ tm_fixed m @ [newline] @ sres_Message r
            else sres_Message r)
      in row\<lparr>Severity := (if tm_severity m \<noteq> [] then tm_severity m else Severity row),
           CVEID := to_upper (sres_RuleID r), PkgName := tm_pkg m, PkgVersion := tm_installed m,
           Title := title, Description := desc\<rparr>)"

text \<open>The SAST and IaC branch: the rule's short description is the title.\<close>

definition sarif_rule_row :: "sarif_result \<Rightarrow> rule_info \<Rightarrow> finding_row \<Rightarrow> finding_row" where
  "sarif_rule_row r info row =
     (let title0 = trim_space (ri_shortDesc info);
          title = (if title0 = [] then sres_RuleID r else title0);
          msg0 = trim_space (sres_Message r);
          msg1 = (if msg0 = [] then trim_space (ri_fullDesc info) else msg0);
          msg = (if msg1 = [] \<or> msg1 = title then trim_space (ri_fullDesc info) else msg1)
      in row\<lparr>Title := title, Description := msg\<rparr>)"

definition sarif_row :: "codec \<Rightarrow> (string \<rightharpoonup> rule_info) \<Rightarrow> sarif_result \<Rightarrow> finding_row" where
  "sarif_row C rules r =
     (let info = rule_lookup rules (sres_RuleID r);
          s = cvssToSeverity (parse_float C) (ri_cvss info);
          sev = (if s \<noteq> [] then s else sarifLevel (sres_Level r));
          row0 = empty_row\<lparr>RuleID := sres_RuleID r, Severity := sev, CWEID := ri_cwe info\<rparr>;
          row1 = (if find_string match_cve (sres_RuleID r) \<noteq> []
            then sarif_cve_row r row0 else sarif_rule_row r info row0);
          row2 = (case sres_Locations r of [] \<Rightarrow> row1
            | loc # _ \<Rightarrow> row1\<lparr>FilePath := normalizeFindingPath (sl_URI loc),
                LineStart := sl_StartLine loc, LineEnd := sl_EndLine loc,
                CodeSnippet := sl_Snippet loc\<rparr>)
      in row2\<lparr>Raw := enc_sarif C r\<rparr>)"

definition ParseSARIF :: "codec \<Rightarrow> string \<Rightarrow> string + finding_row list" where
  "ParseSARIF C data = (case dec_sarif C data of
      Inl e \<Rightarrow> Inl (''sarif parse: '' @ e)
    | Inr runs \<Rightarrow> Inr (concat (map (\<lambda>run.
        map (sarif_row C (rule_map (srun_Rules run))) (srun_Results run)) runs)))"

section \<open>Grype and OSV-Scanner\<close>

definition normalizeGrype :: "string \<Rightarrow> string" where
  "normalizeGrype s =
     (let k = to_upper s in
      if k = ''CRITICAL'' then ''critical'' else if k = ''HIGH'' then ''high''
      else if k = ''MEDIUM'' then ''medium'' else if k = ''LOW'' then ''low'' else ''info'')"

text \<open>\<open>first_cve_of\<close> is the loop over related identifiers, each tried on its own.\<close>

fun first_cve_of :: "string list \<Rightarrow> string" where
  "first_cve_of [] = []"
| "first_cve_of (a # rest) = (let c = firstCVE [a] in if c \<noteq> [] then c else first_cve_of rest)"

definition grype_row :: "codec \<Rightarrow> grype_match \<Rightarrow> finding_row" where
  "grype_row C m =
     (let fp = (case gm_Locations m of [] \<Rightarrow> [] | l # _ \<Rightarrow> normalizeFindingPath l);
          title = (if gm_ArtName m \<noteq> [] then gm_ID m @ '' in '' @ gm_ArtName m @ ''@'' @ gm_ArtVersion m
            else gm_ID m);
          cve0 = firstCVE [gm_ID m];
          cve = (if cve0 = [] then first_cve_of (gm_Related m) else cve0)
      in empty_row\<lparr>RuleID := gm_ID m, Title := title, Description := gm_Description m,
           Severity := normalizeGrype (gm_Severity m), FilePath := fp, Raw := enc_grype C m,
           CVEID := cve, PkgName := gm_ArtName m, PkgVersion := gm_ArtVersion m\<rparr>)"

definition ParseGrype :: "codec \<Rightarrow> string \<Rightarrow> string + finding_row list" where
  "ParseGrype C data = (case dec_grype C data of
      Inl e \<Rightarrow> Inl (''grype parse: '' @ e)
    | Inr ms \<Rightarrow> Inr (map (grype_row C) ms))"

definition osv_row :: "codec \<Rightarrow> osv_result_doc \<Rightarrow> osv_package_doc \<Rightarrow> osv_vuln_doc \<Rightarrow> finding_row" where
  "osv_row C res pkg v =
     (let sev0 = to_lower (ov_Severity v);
          sev = (if sev0 = [] then ''medium'' else sev0);
          title = (if ov_Summary v = [] then ov_ID v else ov_Summary v);
          cve0 = firstCVE [ov_ID v];
          cve = (if cve0 = [] then first_cve_of (ov_Aliases v) else cve0)
      in empty_row\<lparr>RuleID := ov_ID v,
           Title := ov_ID v @ '' in '' @ op_Name pkg @ ''@'' @ op_Version pkg,
           Description := title, Severity := sev, FilePath := normalizeFindingPath (or_Path res),
           Raw := enc_osv C v, CVEID := cve, CWEID := firstCWE (ov_CWEIDs v),
           PkgName := op_Name pkg, PkgVersion := op_Version pkg\<rparr>)"

definition ParseOSV :: "codec \<Rightarrow> string \<Rightarrow> string + finding_row list" where
  "ParseOSV C data = (case dec_osv C data of
      Inl e \<Rightarrow> Inl (''osv parse: '' @ e)
    | Inr rs \<Rightarrow> Inr (concat (map (\<lambda>res. concat (map (\<lambda>pkg.
        map (osv_row C res pkg) (op_Vulns pkg)) (or_Packages res))) rs)))"

section \<open>Trufflehog and Gitleaks\<close>

text \<open>A line that does not decode is skipped.  \<open>scan_lines 65536\<close> is the scanner with its
  default buffer: it stops at a line that does not fit, and the code does not ask it why.\<close>

definition secret_hash :: "codec \<Rightarrow> string \<Rightarrow> string" where
  "secret_hash C s = (if s \<noteq> [] then sha256_hex C s else [])"

definition thog_row :: "codec \<Rightarrow> thog_line \<Rightarrow> finding_row" where
  "thog_row C r = empty_row\<lparr>RuleID := th_Detector r,
     Title := th_Detector r @ '' secret detected'',
     Description := ''Verified: '' @ (if th_Verified r then ''true'' else ''false''),
     Severity := (if th_Verified r then ''critical'' else ''high''),
     FilePath := normalizeFindingPath (th_File r), LineStart := th_Line r,
     Raw := enc_thog C r, SecretHash := secret_hash C (th_Raw r)\<rparr>"

fun decode_lines :: "(string \<Rightarrow> string + 'a) \<Rightarrow> string list \<Rightarrow> 'a list" where
  "decode_lines d [] = []"
| "decode_lines d (l # ls) = (case d l of Inl _ \<Rightarrow> decode_lines d ls | Inr x \<Rightarrow> x # decode_lines d ls)"

definition ParseTrufflehog :: "codec \<Rightarrow> string \<Rightarrow> string + finding_row list" where
  "ParseTrufflehog C data =
     Inr (map (thog_row C) (decode_lines (dec_thog C) (fst (scan_lines 65536 data))))"

definition gitleaks_row :: "codec \<Rightarrow> gitleaks_item \<Rightarrow> finding_row" where
  "gitleaks_row C l = empty_row\<lparr>RuleID := gl_RuleID l, Title := gl_Description l,
     Severity := ''high'', FilePath := normalizeFindingPath (gl_File l),
     LineStart := gl_StartLine l, LineEnd := gl_EndLine l, Raw := enc_gitleaks C l,
     SecretHash := secret_hash C (gl_Match l)\<rparr>"

definition ParseGitleaks :: "codec \<Rightarrow> string \<Rightarrow> string + finding_row list" where
  "ParseGitleaks C data = (case dec_gitleaks C data of
      Inl _ \<Rightarrow> Inr []
    | Inr items \<Rightarrow> Inr (map (gitleaks_row C) items))"

section \<open>Checkov, KICS and Nuclei\<close>

definition normalizeCheckov :: "string \<Rightarrow> string" where
  "normalizeCheckov s =
     (let k = to_upper s in
      if k = ''CRITICAL'' then ''critical'' else if k = ''HIGH'' then ''high''
      else if k = ''MEDIUM'' then ''medium'' else if k = ''LOW'' then ''low'' else ''medium'')"

definition checkov_row :: "codec \<Rightarrow> checkov_check \<Rightarrow> finding_row" where
  "checkov_row C c = empty_row\<lparr>RuleID := cc_ID c,
     Title := (if cc_Name c = [] then cc_ID c else cc_Name c),
     Severity := normalizeCheckov (cc_Severity c), FilePath := normalizeFindingPath (cc_FilePath c),
     LineStart := cc_LineFrom c, LineEnd := cc_LineTo c, Raw := enc_checkov C c\<rparr>"

definition ParseCheckov :: "codec \<Rightarrow> string \<Rightarrow> string + finding_row list" where
  "ParseCheckov C data =
     (let trimmed = trim_space data in
      if has_prefix trimmed ''['' then
        (case dec_checkov_list C trimmed of
            Inl _ \<Rightarrow> Inr []
          | Inr docs \<Rightarrow> Inr (map (checkov_row C) (concat docs)))
      else (case dec_checkov C trimmed of
            Inl e \<Rightarrow> Inl (''checkov parse: '' @ e)
          | Inr checks \<Rightarrow> Inr (map (checkov_row C) checks)))"

definition kics_row :: "codec \<Rightarrow> kics_query \<Rightarrow> kics_file \<Rightarrow> finding_row" where
  "kics_row C q f =
     (let path = normalizeFindingPath (kf_FileName f) in
      empty_row\<lparr>RuleID := kq_ID q, Title := kq_Name q, Description := [],
        Severity := to_lower (kq_Severity q), FilePath := path, LineStart := kf_Line f,
        CodeSnippet := readFileContent (read_file C) path, Raw := enc_kics C q\<rparr>)"

definition ParseKICS :: "codec \<Rightarrow> string \<Rightarrow> string + finding_row list" where
  "ParseKICS C data = (case dec_kics C data of
      Inl e \<Rightarrow> Inl (''kics parse: '' @ e)
    | Inr qs \<Rightarrow> Inr (concat (map (\<lambda>q. map (kics_row C q) (kq_Files q)) qs)))"

definition nuclei_row :: "codec \<Rightarrow> nuclei_line \<Rightarrow> finding_row" where
  "nuclei_row C r = empty_row\<lparr>RuleID := nl_TemplateID r, Title := nl_Name r,
     Description := nl_Description r, Severity := to_lower (nl_Severity r),
     FilePath := nl_MatchedAt r, Raw := enc_nuclei C r,
     CVEID := (case nl_CVEIDs r of [] \<Rightarrow> [] | c # _ \<Rightarrow> to_upper c),
     CWEID := firstCWE (nl_CWEIDs r)\<rparr>"

definition ParseNuclei :: "codec \<Rightarrow> string \<Rightarrow> string + finding_row list" where
  "ParseNuclei C data =
     Inr (map (nuclei_row C) (decode_lines (dec_nuclei C) (fst (scan_lines 65536 data))))"

text \<open>The registry's parser fields as functions.\<close>

fun run_parser :: "codec \<Rightarrow> parser_name \<Rightarrow> string \<Rightarrow> string + finding_row list" where
  "run_parser C PSarif = ParseSARIF C"
| "run_parser C PGrype = ParseGrype C"
| "run_parser C POsv = ParseOSV C"
| "run_parser C PTrufflehog = ParseTrufflehog C"
| "run_parser C PGitleaks = ParseGitleaks C"
| "run_parser C PCheckov = ParseCheckov C"
| "run_parser C PKics = ParseKICS C"
| "run_parser C PNuclei = ParseNuclei C"

section \<open>Specifications\<close>

text \<open>The five severities the rest of the program knows; a row is normal when its severity
  is one of them and its location is empty, absolute under the repository root, or a URL.\<close>

definition severity_levels :: "string list" where
  "severity_levels = [''critical'', ''high'', ''medium'', ''low'', ''info'']"

definition located :: "string \<Rightarrow> bool" where
  "located p \<longleftrightarrow> p = [] \<or> has_prefix p ''/'' \<or> contains p ''://''"

definition normal_row :: "finding_row \<Rightarrow> bool" where
  "normal_row row \<longleftrightarrow> Severity row \<in> set severity_levels \<and> located (FilePath row)"

text \<open>A path relative to the clone, as the scanners print it before any mount prefix.\<close>

definition mount_relative :: "string \<Rightarrow> bool" where
  "mount_relative r \<longleftrightarrow> r \<noteq> [] \<and> trim_space r = r \<and> \<not> contains r ''://'' \<and>
     \<not> has_prefix r ''/'' \<and> \<not> has_prefix r ''src/'' \<and> \<not> has_prefix r ''file://''"

text \<open>A CVE identifier in its canonical form.\<close>

definition is_cve_text :: "string \<Rightarrow> bool" where
  "is_cve_text s \<longleftrightarrow> (\<exists>year num. s = ''CVE-'' @ year @ ''-'' @ num \<and> length year = 4 \<and>
     list_all is_digit year \<and> num \<noteq> [] \<and> list_all is_digit num)"

text \<open>A codec whose decoders reject everything, for concrete instances.\<close>

definition null_codec :: codec where
  "null_codec = \<lparr>dec_sarif = (\<lambda>_. Inl []), dec_grype = (\<lambda>_. Inl []), dec_osv = (\<lambda>_. Inl []),
     dec_thog = (\<lambda>_. Inl []), dec_gitleaks = (\<lambda>_. Inl []), dec_checkov = (\<lambda>_. Inl []),
     dec_checkov_list = (\<lambda>_. Inl []), dec_kics = (\<lambda>_. Inl []), dec_nuclei = (\<lambda>_. Inl []),
     enc_sarif = (\<lambda>_. []), enc_grype = (\<lambda>_. []), enc_osv = (\<lambda>_. []), enc_thog = (\<lambda>_. []),
     enc_gitleaks = (\<lambda>_. []), enc_checkov = (\<lambda>_. []), enc_kics = (\<lambda>_. []), enc_nuclei = (\<lambda>_. []),
     parse_float = (\<lambda>_. None), sha256_hex = (\<lambda>_. []), read_file = (\<lambda>_. None)\<rparr>"

section \<open>Lemmas\<close>

lemma trim_space_src:
  assumes "trim_space r = r" "r \<noteq> []"
  shows "trim_space (''/src/'' @ r) = ''/src/'' @ r" "trim_space (''src/'' @ r) = ''src/'' @ r"
    "trim_space (''file:///src/'' @ r) = ''file:///src/'' @ r"
  using trim_space_ascii_prefix [OF assms, of "CHR ''/''" "CHR ''/''" "''src''"]
    trim_space_ascii_prefix [OF assms, of "CHR ''s''" "CHR ''/''" "''rc''"]
    trim_space_ascii_prefix [OF assms, of "CHR ''f''" "CHR ''/''" "''ile:///src''"]
  by (simp_all add: ascii_space_def)

lemma sev_grype: "normalizeGrype s \<in> set severity_levels"
  by (simp add: normalizeGrype_def severity_levels_def Let_def)

lemma sev_checkov: "normalizeCheckov s \<in> set severity_levels"
  by (simp add: normalizeCheckov_def severity_levels_def Let_def)

lemma sev_sarif: "sarifLevel s \<in> set severity_levels"
  by (simp add: sarifLevel_def severity_levels_def Let_def)

lemma sev_cvss: "cvssToSeverity p s \<in> insert [] (set severity_levels)"
  by (simp add: cvssToSeverity_def severity_levels_def split: option.split)

lemma to_upper_char_dash: "to_upper_char x = CHR ''-'' \<Longrightarrow> x = CHR ''-''"
proof -
  assume a: "to_upper_char x = CHR ''-''"
  show ?thesis
  proof (cases "97 \<le> (of_char x :: nat) \<and> of_char x \<le> (122::nat)")
    case True
    moreover from this have "(of_char x - 32 :: nat) < 256" by arith
    ultimately have "(of_char (to_upper_char x) :: nat) = of_char x - 32" by (simp add: to_upper_char_def)
    with a have "(of_char x - 32 :: nat) = 45" by simp
    with True show ?thesis by arith
  next
    case False
    then show ?thesis using a by (auto simp: to_upper_char_def Let_def split: if_splits)
  qed
qed

lemma cve_case: "to_upper ''cve-'' = ''CVE-''" "to_lower ''CVE-'' = ''cve-''" "to_upper ''-'' = ''-''"
  by code_simp+

lemma match_cve_sound:
  assumes "match_cve s = Some r"
  shows "is_cve_text (to_upper r) \<and> (\<exists>b. s = r @ b)"
proof -
  define year ds where "year = take 4 (drop 4 s)" and "ds = takeWhile is_digit (drop 9 s)"
  have h: "to_lower (take 4 s) = ''cve-''" "length year = 4" "list_all is_digit year"
      "take 1 (drop 8 s) = ''-''" "ds \<noteq> []" "r = take 9 s @ ds"
    using assms by (auto simp: match_cve_def Let_def year_def ds_def split: if_splits)
  have t9: "take 9 s = take 4 s @ year @ ''-''"
    using h(4) take_add [of 4 5 s] take_add [of 4 1 "drop 4 s"] unfolding year_def by simp
  have up: "to_upper (take 4 s) = ''CVE-''"
    using lower_eq_iff_upper [OF h(1)] by (simp only: cve_case)
  have "to_upper r = ''CVE-'' @ year @ ''-'' @ ds"
    unfolding h(6) t9 using up h(3) list_all_takeWhile [of is_digit "drop 9 s"]
    using to_upper_append [of "''-''" ds] by (simp add: ds_def cve_case)
  moreover have "s = take 9 s @ ds @ dropWhile is_digit (drop 9 s)"
    by (simp add: ds_def)
  ultimately show ?thesis
    using h list_all_takeWhile [of is_digit "drop 9 s"] unfolding is_cve_text_def ds_def by (metis append.assoc)
qed

lemma match_cve_complete:
  assumes "is_cve_text (to_upper m)"
  shows "match_cve (m @ b) \<noteq> None"
proof -
  obtain year num where u: "to_upper m = ''CVE-'' @ year @ ''-'' @ num" "length year = 4"
      "list_all is_digit year" "num \<noteq> []" "list_all is_digit num"
    using assms unfolding is_cve_text_def by blast
  obtain p y d n where m: "m = p @ y @ d @ n" "to_upper p = ''CVE-''" "to_upper y = year"
      "to_upper d = ''-''" "to_upper n = num"
    using to_upper_eq_append u(1) by metis
  have "length p = length (to_upper p)" "length y = length (to_upper y)" by (simp_all add: to_upper_def)
  then have len: "length p = 4" "length y = 4" using m u(2) by simp_all
  obtain x where d: "d = [x]" "to_upper_char x = CHR ''-''"
    using m(4) by (auto simp: to_upper_def)
  have low: "to_lower p = ''cve-''"
    using upper_eq_iff_lower [OF m(2)] by (simp only: cve_case)
  obtain n1 n2 where n: "n = n1 # n2" "is_digit n1"
    using m(5) u(4,5) to_upper_all_digit [of n] by (cases n) auto
  show ?thesis
    using len low n to_upper_char_dash [OF d(2)] u(3) m(3) to_upper_all_digit [of y]
    unfolding m(1) d(1) by (simp add: match_cve_def Let_def)
qed

lemma find_string_cve:
  "find_string match_cve t = [] \<Longrightarrow> \<not> (\<exists>a m b. t = a @ m @ b \<and> is_cve_text (to_upper m))"
proof (induction t)
  case Nil
  then show ?case by (simp add: is_cve_text_def)
next
  case (Cons c t)
  have nz: "r \<noteq> []" if "match_cve (c # t) = Some r" for r
    using match_cve_sound [OF that] by (auto simp: is_cve_text_def)
  then have none: "match_cve (c # t) = None" "find_string match_cve t = []"
    using Cons.prems by (auto split: option.splits)
  show ?case
  proof
    assume "\<exists>a m b. c # t = a @ m @ b \<and> is_cve_text (to_upper m)"
    then obtain a m b where e: "c # t = a @ m @ b" "is_cve_text (to_upper m)" by blast
    then show False
      using Cons.IH [OF none(2)] match_cve_complete [OF e(2), of b] none(1)
      by (cases a) auto
  qed
qed

lemma find_string_cve_found:
  "find_string match_cve t \<noteq> [] \<Longrightarrow> is_cve_text (to_upper (find_string match_cve t)) \<and>
     (\<exists>a b. t = a @ find_string match_cve t @ b)"
proof (induction t)
  case Nil
  then show ?case using match_cve_sound [of "[]"] by (auto split: option.splits)
next
  case (Cons c t)
  show ?case
  proof (cases "match_cve (c # t)")
    case None
    with Cons obtain a b where "t = a @ find_string match_cve t @ b" "is_cve_text (to_upper (find_string match_cve t))"
      by auto
    with None show ?thesis by simp (metis append_Cons)
  next
    case (Some r)
    with match_cve_sound [OF Some] show ?thesis by (auto intro: exI [of _ "[]"])
  qed
qed

lemma normalizeFindingPath_shape:
  "normalizeFindingPath p = [] \<or> has_prefix (normalizeFindingPath p) ''/'' \<or> contains (normalizeFindingPath p) ''://''"
  by (simp add: normalizeFindingPath_def Let_def)

lemma located_normal [simp]: "located (normalizeFindingPath p)" "located []"
  using normalizeFindingPath_shape by (auto simp: located_def)

lemma normal_grype: "normal_row (grype_row C m)"
  by (simp add: normal_row_def grype_row_def Let_def sev_grype empty_row_def split: list.split)

lemma normal_thog: "normal_row (thog_row C m)"
  by (simp add: normal_row_def thog_row_def severity_levels_def empty_row_def)

lemma normal_gitleaks: "normal_row (gitleaks_row C m)"
  by (simp add: normal_row_def gitleaks_row_def severity_levels_def empty_row_def)

lemma normal_checkov: "normal_row (checkov_row C m)"
  by (simp add: normal_row_def checkov_row_def sev_checkov empty_row_def)

lemma sarif_severity_base:
  "(let s = cvssToSeverity f x in if s \<noteq> [] then s else sarifLevel l) \<in> set severity_levels"
  using sev_cvss [of f x] sev_sarif [of l] by (auto simp: Let_def)

lemma sarif_RuleID: "RuleID (sarif_row C m r) = sres_RuleID r"
  by (simp add: sarif_row_def Let_def sarif_cve_row_def sarif_rule_row_def empty_row_def split: list.split)

lemma sarif_rule_row_fields [simp]:
  "Severity (sarif_rule_row r i row) = Severity row" "FilePath (sarif_rule_row r i row) = FilePath row"
  by (simp_all add: sarif_rule_row_def Let_def)

lemma normal_sarif: "find_string match_cve (RuleID (sarif_row C m r)) = [] \<Longrightarrow> normal_row (sarif_row C m r)"
  using sarif_severity_base [of "parse_float C" "ri_cvss (rule_lookup m (sres_RuleID r))" "sres_Level r"]
  by (simp add: sarif_RuleID normal_row_def)
    (simp add: sarif_row_def Let_def empty_row_def split: if_splits list.split)

section \<open>Properties\<close>

text \<open>The scanners see the same clone under different roots; the path of a finding does
  not depend on which.  A relative path, the path below the mount \<^verbatim>\<open>/src\<close>, the path below
  \<^verbatim>\<open>src\<close> and the file URL all normalise to the same absolute repository path, so findings
  of different scanners on one file can be correlated.\<close>

theorem normalizeFindingPath_mounts:
  assumes "mount_relative r"
  shows "normalizeFindingPath r = ''/'' @ r \<and> normalizeFindingPath (''/src/'' @ r) = ''/'' @ r \<and>
     normalizeFindingPath (''src/'' @ r) = ''/'' @ r \<and> normalizeFindingPath (''file:///src/'' @ r) = ''/'' @ r"
proof (intro conjI)
  note m = assms [unfolded mount_relative_def]
  have src: "\<not> has_prefix r ''/src/''" using m by (auto simp: has_prefix_iff)
  have ne: "trim_space r \<noteq> []" using m by auto
  show "normalizeFindingPath r = ''/'' @ r"
    using m src by (simp add: normalizeFindingPath_def trim_prefix_def)
  show "normalizeFindingPath (''/src/'' @ r) = ''/'' @ r"
    using m trim_space_src [of r]
    by (simp add: normalizeFindingPath_def trim_prefix_def contains_Cons)
  show "normalizeFindingPath (''src/'' @ r) = ''/'' @ r"
    using m trim_space_src [of r]
    by (simp add: normalizeFindingPath_def trim_prefix_def contains_Cons)
  show "normalizeFindingPath (''file:///src/'' @ r) = ''/'' @ r"
    using m trim_space_src [of r]
    by (simp add: normalizeFindingPath_def trim_prefix_def contains_Cons)
qed

theorem normalizeFindingPath_mounts_witness:
  "mount_relative ''app/main.go'' \<and> normalizeFindingPath ''/src/app/main.go'' = ''/app/main.go''"
proof -
  have "mount_relative ''app/main.go''"
    by (simp add: mount_relative_def trim_space_def trim_left_def trim_right_def strip_space.simps space_len_def
      ascii_space_def contains_def has_prefix_def)
  then show ?thesis using normalizeFindingPath_mounts [of "''app/main.go''"] by simp
qed

text \<open>\<^verbatim>\<open>firstCVE\<close> against its specification: it returns nothing exactly when no text holds
  a CVE identifier in any letter case, and otherwise a well-formed upper-case identifier
  whose letters stand somewhere in one of the texts.\<close>

theorem firstCVE_spec:
  "(firstCVE ts = [] \<and> \<not> (\<exists>t a m b. t \<in> set ts \<and> t = a @ m @ b \<and> is_cve_text (to_upper m))) \<or>
   (is_cve_text (firstCVE ts) \<and> (\<exists>t a m b. t \<in> set ts \<and> t = a @ m @ b \<and> to_upper m = firstCVE ts))"
proof (induction ts)
  case (Cons t ts)
  show ?case
  proof (cases "find_string match_cve t = []")
    case True
    with find_string_cve [OF True] Cons show ?thesis by fastforce
  next
    case False
    with find_string_cve_found [OF False] show ?thesis by (auto simp: Let_def)
  qed
qed simp

text \<open>Rows of Grype, Trufflehog, Gitleaks and Checkov always, and rows of SARIF whose rule
  is not a CVE, carry one of the five severities and a location that is empty, absolute or a
  URL, whatever the scanner printed.\<close>

theorem parsed_rows_normal:
  assumes "run_parser C p data = Inr rows" "row \<in> set rows"
    and "p \<in> {PGrype, PTrufflehog, PGitleaks, PCheckov} \<or> p = PSarif \<and> find_string match_cve (RuleID row) = []"
  shows "normal_row row"
  using assms
  by (auto simp: ParseGrype_def ParseTrufflehog_def ParseGitleaks_def ParseCheckov_def ParseSARIF_def Let_def
      normal_grype normal_thog normal_gitleaks normal_checkov normal_sarif split: sum.splits if_splits)

theorem parsed_rows_normal_witness:
  "normal_row (gitleaks_row null_codec \<lparr>gl_Description = ''d'', gl_StartLine = 1, gl_EndLine = 1,
     gl_Match = ''m'', gl_File = ''src/a'', gl_RuleID = ''r''\<rparr>)"
proof -
  let ?i = "\<lparr>gl_Description = ''d'', gl_StartLine = 1, gl_EndLine = 1, gl_Match = ''m'',
       gl_File = ''src/a'', gl_RuleID = ''r''\<rparr>"
  let ?C = "null_codec\<lparr>dec_gitleaks := (\<lambda>_. Inr [?i])\<rparr>"
  have "run_parser ?C PGitleaks [] = Inr [gitleaks_row ?C ?i]" by (simp add: ParseGitleaks_def)
  from parsed_rows_normal [OF this] have "normal_row (gitleaks_row ?C ?i)" by simp
  then show ?thesis by (simp add: gitleaks_row_def secret_hash_def null_codec_def)
qed

text \<open>The line parsers of Trufflehog and Nuclei lose findings without an error: a line of
  64 KiB or more makes the line scanner stop with \<^verbatim>\<open>ErrTooLong\<close>, which the code never asks
  for, so the result is that of the output before that line, whatever follows it.\<close>

theorem long_line_drops_rest:
  assumes "newline \<notin> set w" "65536 \<le> length w"
  shows "run_parser C PTrufflehog (p @ [newline] @ w @ rest) = run_parser C PTrufflehog (p @ [newline]) \<and>
    run_parser C PNuclei (p @ [newline] @ w @ rest) = run_parser C PNuclei (p @ [newline]) \<and>
    snd (scan_lines 65536 (p @ [newline] @ w @ rest))"
  using scan_lines_too_long [OF assms(1) _ assms(2), of p rest]
  by (simp add: ParseTrufflehog_def ParseNuclei_def)

theorem long_line_drops_rest_witness:
  "run_parser null_codec PTrufflehog (''a'' @ [newline] @ replicate 65536 CHR ''x'' @ [newline] @ ''secret'') =
   run_parser null_codec PTrufflehog (''a'' @ [newline])"
  using long_line_drops_rest [of "replicate 65536 CHR ''x''" null_codec "''a''" "[newline] @ ''secret''"]
  by (simp add: newline_def)

end
