(* ===== verification/Threat_Manifest.thy ===== *)
theory Threat_Manifest
  imports Prelude "HOL-Library.Product_Lexorder" "HOL-Library.Multiset"
begin

text \<open>
  Dependency manifests (\<^verbatim>\<open>src/internal/threats/manifest.go\<close>): package.json, go.mod,
  requirements.txt and Cargo.lock parsed into dependency rows.  The line parsers are
  modelled statement by statement as a step on the parser's variables.  Decoding
  package.json is a parameter that yields its two dependency maps as association lists,
  whose order stands for Go's unspecified map order.
\<close>

record dependency =
  dep_Ecosystem :: string
  dep_Name :: string
  dep_Version :: string
  dep_SourceFile :: string

datatype manifest_error =
    EmptyManifest string
  | UnsupportedManifest string
  | BadPackageJSON string
  | BadRequire string
  | UnclosedRequire
  | MissingModule
  | LineTooLong string
  | IncompletePackage string string
  | BadCargoValue string string
  | NoPackages

definition max_line :: nat where
  "max_line = 1048576"

section \<open>package.json\<close>

definition resolveNPMVersion :: "string \<Rightarrow> string option" where
  "resolveNPMVersion spec =
     (let s = trim_space spec in
      if s = [] \<or> s = ''*'' \<or> s = ''latest'' then None
      else if contains_any s '' ,|'' then None
      else if has_prefix s ''^'' \<or> has_prefix s ''~'' then None
      else (let s1 = trim_prefix s ''=''; s2 = trim_prefix s1 ''v''
            in case s2 of [] \<Rightarrow> None
               | c # _ \<Rightarrow> if is_digit c then Some s2 else None))"

type_synonym json_deps = "(string \<times> string) list"

fun npm_rows :: "string \<Rightarrow> json_deps \<Rightarrow> dependency list" where
  "npm_rows src [] = []"
| "npm_rows src ((name, spec) # rest) = (case resolveNPMVersion spec of
      None \<Rightarrow> npm_rows src rest
    | Some version \<Rightarrow>
        \<lparr>dep_Ecosystem = ''npm'', dep_Name = name, dep_Version = version, dep_SourceFile = src\<rparr>
        # npm_rows src rest)"

definition parsePackageJSON ::
  "(string \<Rightarrow> string + json_deps \<times> json_deps) \<Rightarrow> string \<Rightarrow> string \<Rightarrow> manifest_error + dependency list" where
  "parsePackageJSON decode src data = (case decode data of
      Inl e \<Rightarrow> Inl (BadPackageJSON e)
    | Inr (deps, dev) \<Rightarrow> Inr (npm_rows src deps @ npm_rows src dev))"

section \<open>go.mod\<close>

record gomod_state =
  gm_deps :: "dependency list"
  gm_inRequire :: bool
  gm_closedRequire :: bool
  gm_sawModule :: bool

definition go_dep :: "string \<Rightarrow> string \<Rightarrow> string \<Rightarrow> dependency" where
  "go_dep src name version =
     \<lparr>dep_Ecosystem = ''go'', dep_Name = name, dep_Version = version, dep_SourceFile = src\<rparr>"

text \<open>\<open>add_require\<close> splits a requirement into fields and appends its row.\<close>

definition add_require :: "string \<Rightarrow> string \<Rightarrow> string \<Rightarrow> gomod_state \<Rightarrow> manifest_error + gomod_state" where
  "add_require src line text st = (case go_fields text of
      name # version # _ \<Rightarrow> Inr (st\<lparr>gm_deps := gm_deps st @ [go_dep src name version]\<rparr>)
    | _ \<Rightarrow> Inl (BadRequire line))"

text \<open>The part of a line before a comment; \<open>None\<close> for an indirect requirement.\<close>

definition gomod_strip :: "string \<Rightarrow> string option" where
  "gomod_strip raw =
     (let line = trim_space raw in
      case index_of line ''//'' of
        None \<Rightarrow> Some line
      | Some i \<Rightarrow> if contains (drop i line) ''indirect'' then None
          else Some (trim_space (take i line)))"

definition gomod_stmt :: "string \<Rightarrow> string \<Rightarrow> gomod_state \<Rightarrow> manifest_error + gomod_state" where
  "gomod_stmt src line st =
     (if line = [] then Inr st
      else if has_prefix line ''module '' then Inr (st\<lparr>gm_sawModule := True\<rparr>)
      else if line = ''require ('' \<or> line = ''require('' then
        Inr (st\<lparr>gm_inRequire := True, gm_closedRequire := False\<rparr>)
      else if gm_inRequire st \<and> line = '')'' then
        Inr (st\<lparr>gm_inRequire := False, gm_closedRequire := True\<rparr>)
      else (case cut line ''require '' of
          Some (before, rest) \<Rightarrow>
            if trim_space before = [] then add_require src line rest st
            else if \<not> gm_inRequire st then Inr st
            else add_require src line line st
        | None \<Rightarrow>
            if \<not> gm_inRequire st then Inr st
            else add_require src line line st))"

fun gomod_lines :: "string \<Rightarrow> string list \<Rightarrow> gomod_state \<Rightarrow> manifest_error + gomod_state" where
  "gomod_lines src [] st = Inr st"
| "gomod_lines src (l # ls) st = (case gomod_strip l of
      None \<Rightarrow> gomod_lines src ls st
    | Some line \<Rightarrow> (case gomod_stmt src line st of
        Inl e \<Rightarrow> Inl e
      | Inr st' \<Rightarrow> gomod_lines src ls st'))"

definition gomod_init :: gomod_state where
  "gomod_init = \<lparr>gm_deps = [], gm_inRequire = False, gm_closedRequire = True, gm_sawModule = False\<rparr>"

definition parseGoMod :: "string \<Rightarrow> string \<Rightarrow> manifest_error + dependency list" where
  "parseGoMod src data = (case scan_lines max_line data of (ls, too_long) \<Rightarrow>
     (case gomod_lines src ls gomod_init of
        Inl e \<Rightarrow> Inl e
      | Inr st \<Rightarrow>
          if too_long then Inl (LineTooLong ''go.mod'')
          else if gm_inRequire st \<or> \<not> gm_closedRequire st then Inl UnclosedRequire
          else if \<not> gm_sawModule st then Inl MissingModule
          else Inr (gm_deps st)))"

section \<open>requirements.txt\<close>

definition before_mark :: "string \<Rightarrow> string \<Rightarrow> string" where
  "before_mark s mark = (case index_of s mark of None \<Rightarrow> s | Some i \<Rightarrow> trim_space (take i s))"

text \<open>The row of one line, if it pins a version.\<close>

definition requirement_line :: "string \<Rightarrow> string \<Rightarrow> dependency option" where
  "requirement_line src raw =
     (let line0 = trim_space raw in
      if line0 = [] \<or> has_prefix line0 ''#'' \<or> has_prefix line0 ''-'' then None
      else (let line = before_mark (before_mark line0 '';'') ''#''
        in case cut line ''=='' of
            None \<Rightarrow> None
          | Some (name0, version0) \<Rightarrow>
            (let name1 = trim_space name0;
                 version1 = trim_space version0;
                 version2 = (case index_any version1 ('', '' @ [CHR 0x09]) of
                     None \<Rightarrow> version1 | Some i \<Rightarrow> trim_space (take i version1));
                 version = trim_cutset [CHR 0x22, CHR 0x27] version2;
                 name = (case index_of name1 ''['' of
                     None \<Rightarrow> Some name1
                   | Some i \<Rightarrow> if contains (drop i name1) '']'' then Some (trim_space (take i name1)) else None)
             in case name of
                  None \<Rightarrow> None
                | Some n \<Rightarrow> if n = [] \<or> version = [] then None
                    else Some \<lparr>dep_Ecosystem = ''pip'', dep_Name = to_lower n,
                               dep_Version = version, dep_SourceFile = src\<rparr>)))"

definition parseRequirementsTxt :: "string \<Rightarrow> string \<Rightarrow> manifest_error + dependency list" where
  "parseRequirementsTxt src data = (case scan_lines max_line data of (ls, too_long) \<Rightarrow>
     if too_long then Inl (LineTooLong ''requirements.txt'')
     else Inr (List.map_filter (requirement_line src) ls))"

section \<open>Cargo.lock\<close>

definition unquoteTOML :: "string \<Rightarrow> string option" where
  "unquoteTOML v =
     (if length v \<ge> 2 \<and> has_prefix v [CHR 0x22] \<and> has_suffix v [CHR 0x22] then Some (butlast (tl v))
      else if length v \<ge> 2 \<and> has_prefix v [CHR 0x27] \<and> has_suffix v [CHR 0x27] then Some (butlast (tl v))
      else None)"

record cargo_state =
  cg_deps :: "dependency list"
  cg_inPackage :: bool
  cg_name :: string
  cg_version :: string

definition cargo_flush :: "string \<Rightarrow> cargo_state \<Rightarrow> manifest_error + cargo_state" where
  "cargo_flush src st =
     (if \<not> cg_inPackage st then Inr st
      else if cg_name st = [] \<or> cg_version st = [] then
        Inl (IncompletePackage (cg_name st) (cg_version st))
      else Inr (st\<lparr>cg_deps := cg_deps st @
          [\<lparr>dep_Ecosystem = ''cargo'', dep_Name = cg_name st, dep_Version = cg_version st,
            dep_SourceFile = src\<rparr>],
          cg_name := [], cg_version := []\<rparr>))"

definition cargo_stmt :: "string \<Rightarrow> string \<Rightarrow> cargo_state \<Rightarrow> manifest_error + cargo_state" where
  "cargo_stmt src raw st =
     (let line = trim_space raw in
      if line = [] \<or> has_prefix line ''#'' then Inr st
      else if line = ''[[package]]'' then
        (case cargo_flush src st of
            Inl e \<Rightarrow> Inl e
          | Inr st' \<Rightarrow> Inr (st'\<lparr>cg_inPackage := True, cg_name := [], cg_version := []\<rparr>))
      else if \<not> cg_inPackage st then Inr st
      else (case cut line ''='' of
          None \<Rightarrow> Inr st
        | Some (key0, value0) \<Rightarrow>
          (let key = trim_space key0; value = trim_space value0 in
           if key \<noteq> ''name'' \<and> key \<noteq> ''version'' then Inr st
           else (case unquoteTOML value of
               None \<Rightarrow> Inl (BadCargoValue key value)
             | Some u \<Rightarrow> if key = ''name'' then Inr (st\<lparr>cg_name := u\<rparr>) else Inr (st\<lparr>cg_version := u\<rparr>)))))"

fun cargo_lines :: "string \<Rightarrow> string list \<Rightarrow> cargo_state \<Rightarrow> manifest_error + cargo_state" where
  "cargo_lines src [] st = Inr st"
| "cargo_lines src (l # ls) st = (case cargo_stmt src l st of
      Inl e \<Rightarrow> Inl e
    | Inr st' \<Rightarrow> cargo_lines src ls st')"

definition parseCargoLock :: "string \<Rightarrow> string \<Rightarrow> manifest_error + dependency list" where
  "parseCargoLock src data = (case scan_lines max_line data of (ls, too_long) \<Rightarrow>
     (case cargo_lines src ls \<lparr>cg_deps = [], cg_inPackage = False, cg_name = [], cg_version = []\<rparr> of
        Inl e \<Rightarrow> Inl e
      | Inr st \<Rightarrow>
          if too_long then Inl (LineTooLong ''Cargo.lock'')
          else (case cargo_flush src st of
              Inl e \<Rightarrow> Inl e
            | Inr st' \<Rightarrow> if cg_deps st' = [] then Inl NoPackages else Inr (cg_deps st'))))"

section \<open>Dispatch\<close>

text \<open>\<^verbatim>\<open>path.Base\<close>.\<close>

definition path_base :: "string \<Rightarrow> string" where
  "path_base p =
     (if p = [] then ''.''
      else (let q = trim_right_cutset ''/'' p;
                b = (case last_index_byte q CHR ''/'' of None \<Rightarrow> q | Some i \<Rightarrow> drop (Suc i) q)
            in if b = [] then ''/'' else b))"

definition dep_key :: "dependency \<Rightarrow> string \<times> string" where
  "dep_key d = (dep_Name d, dep_Version d)"

definition ParseManifest ::
  "(string \<Rightarrow> string + json_deps \<times> json_deps) \<Rightarrow> string \<Rightarrow> string \<Rightarrow> manifest_error + dependency list" where
  "ParseManifest decode src data =
     (if trim_space data = [] then Inl (EmptyManifest src)
      else (let base = path_base src;
                res = (if base = ''package.json'' then parsePackageJSON decode src data
                  else if base = ''go.mod'' then parseGoMod src data
                  else if base = ''Cargo.lock'' then parseCargoLock src data
                  else if base = ''requirements.txt'' \<or>
                    (has_prefix base ''requirements'' \<and> has_suffix base ''.txt'')
                  then parseRequirementsTxt src data
                  else Inl (UnsupportedManifest src))
            in case res of Inl e \<Rightarrow> Inl e | Inr deps \<Rightarrow> Inr (sort_key dep_key deps)))"

section \<open>Specifications\<close>

text \<open>The ecosystem the dispatch gives a manifest, and what a row must be.\<close>

fun ecosystem_of :: "string \<Rightarrow> string" where
  "ecosystem_of base = (if base = ''package.json'' then ''npm'' else if base = ''go.mod'' then ''go''
     else if base = ''Cargo.lock'' then ''cargo'' else ''pip'')"

definition row_ok :: "string \<Rightarrow> string \<Rightarrow> dependency \<Rightarrow> bool" where
  "row_ok eco src d \<longleftrightarrow> dep_Ecosystem d = eco \<and> dep_SourceFile d = src \<and> dep_Version d \<noteq> []"

text \<open>A go.mod file as a tool writes it: the module line and one require block.\<close>

definition go_mod_line :: "string \<times> string \<Rightarrow> string" where
  "go_mod_line d = (case d of (n, v) \<Rightarrow> n @ '' '' @ v)"

definition render_go_mod :: "string \<Rightarrow> (string \<times> string) list \<Rightarrow> string" where
  "render_go_mod m ds = concat (map (\<lambda>l. l @ [newline])
     (((''module '' @ m) # [] # ''require ('' # map (\<lambda>d. CHR 0x09 # go_mod_line d) ds) @ ['')'']))"

definition clean_requirement :: "string \<times> string \<Rightarrow> bool" where
  "clean_requirement d \<longleftrightarrow> plain_token (fst d) \<and> plain_token (snd d) \<and> fst d \<noteq> ''require'' \<and> fst d \<noteq> ''module'' \<and>
     \<not> contains (go_mod_line d) ''//'' \<and> length (go_mod_line d) + 1 < max_line"

text \<open>A Cargo.lock file as cargo writes it: blocks of a header, a name and a version.\<close>

definition quoted :: "string \<Rightarrow> string" where
  "quoted s = [CHR 0x22] @ s @ [CHR 0x22]"

definition cargo_block :: "string \<Rightarrow> string \<times> string \<Rightarrow> string list" where
  "cargo_block header d = [header, ''name = '' @ quoted (fst d), ''version = '' @ quoted (snd d)]"

definition cargo_dep :: "string \<Rightarrow> string \<times> string \<Rightarrow> dependency" where
  "cargo_dep src d = \<lparr>dep_Ecosystem = ''cargo'', dep_Name = fst d, dep_Version = snd d, dep_SourceFile = src\<rparr>"

definition cargo_text :: "string \<Rightarrow> bool" where
  "cargo_text s \<longleftrightarrow> s \<noteq> [] \<and> newline \<notin> set s \<and> CHR 0x0D \<notin> set s \<and> length s + 12 < max_line"

definition clean_package :: "string \<times> string \<Rightarrow> bool" where
  "clean_package d \<longleftrightarrow> cargo_text (fst d) \<and> cargo_text (snd d)"

text \<open>The state after complete blocks: all rows but the last are flushed.\<close>

definition after_blocks :: "string \<Rightarrow> (string \<times> string) list \<Rightarrow> cargo_state" where
  "after_blocks src ds = \<lparr>cg_deps = map (cargo_dep src) (butlast ds), cg_inPackage = True,
     cg_name = fst (last ds), cg_version = snd (last ds)\<rparr>"

section \<open>Lemmas\<close>

lemma npm_rows_filter: "npm_rows src xs = List.map_filter
    (\<lambda>(name, spec). map_option (\<lambda>v. \<lparr>dep_Ecosystem = ''npm'', dep_Name = name, dep_Version = v, dep_SourceFile = src\<rparr>)
      (resolveNPMVersion spec)) xs"
  by (induction xs) (auto simp: List.map_filter_def split: option.split)

lemma resolve_nonempty: "resolveNPMVersion spec = Some v \<Longrightarrow> v \<noteq> []"
  by (auto simp: resolveNPMVersion_def Let_def split: if_splits list.splits)

lemma npm_rows_ok: "d \<in> set (npm_rows src xs) \<Longrightarrow> row_ok ''npm'' src d"
  by (induction xs rule: npm_rows.induct) (auto simp: row_ok_def resolve_nonempty split: option.splits)

lemma add_require_ok:
  "add_require src line text st = Inr st' \<Longrightarrow> list_all (row_ok ''go'' src) (gm_deps st) \<Longrightarrow>
   list_all (row_ok ''go'' src) (gm_deps st')"
  by (auto simp: add_require_def go_dep_def row_ok_def go_fields_def split: list.splits)
    (metis fields_from_nonempty list.set_intros)

lemma gomod_stmt_ok:
  "gomod_stmt src line st = Inr st' \<Longrightarrow> list_all (row_ok ''go'' src) (gm_deps st) \<Longrightarrow>
   list_all (row_ok ''go'' src) (gm_deps st')"
  by (auto simp: gomod_stmt_def split: if_splits option.splits dest: add_require_ok)

lemma gomod_lines_ok:
  "gomod_lines src ls st = Inr st' \<Longrightarrow> list_all (row_ok ''go'' src) (gm_deps st) \<Longrightarrow>
   list_all (row_ok ''go'' src) (gm_deps st')"
proof (induction ls arbitrary: st)
  case (Cons l ls)
  show ?case
  proof (cases "gomod_strip l")
    case None
    with Cons show ?thesis by simp
  next
    case (Some line)
    with Cons.prems obtain st1 where "gomod_stmt src line st = Inr st1" "gomod_lines src ls st1 = Inr st'"
      by (auto split: sum.splits)
    with Cons.IH [of st1] Cons.prems(2) show ?thesis by (meson gomod_stmt_ok)
  qed
qed simp

lemma requirement_ok: "requirement_line src l = Some d \<Longrightarrow> row_ok ''pip'' src d"
  by (auto simp: requirement_line_def row_ok_def Let_def split: if_splits option.splits prod.splits)

lemma cargo_flush_ok:
  "cargo_flush src st = Inr st' \<Longrightarrow> list_all (row_ok ''cargo'' src) (cg_deps st) \<Longrightarrow>
   list_all (row_ok ''cargo'' src) (cg_deps st')"
  by (auto simp: cargo_flush_def row_ok_def split: if_splits)

lemma cargo_stmt_ok:
  "cargo_stmt src line st = Inr st' \<Longrightarrow> list_all (row_ok ''cargo'' src) (cg_deps st) \<Longrightarrow>
   list_all (row_ok ''cargo'' src) (cg_deps st')"
  by (auto simp: cargo_stmt_def Let_def split: if_splits option.splits sum.splits dest: cargo_flush_ok)

lemma cargo_lines_ok:
  "cargo_lines src ls st = Inr st' \<Longrightarrow> list_all (row_ok ''cargo'' src) (cg_deps st) \<Longrightarrow>
   list_all (row_ok ''cargo'' src) (cg_deps st')"
proof (induction ls arbitrary: st)
  case (Cons l ls)
  then obtain st1 where "cargo_stmt src l st = Inr st1" "cargo_lines src ls st1 = Inr st'"
    by (auto split: sum.splits)
  with Cons.IH [of st1] Cons.prems(2) show ?case by (meson cargo_stmt_ok)
qed simp

lemma parsers_ok:
  "parsePackageJSON decode src data = Inr ds \<Longrightarrow> list_all (row_ok ''npm'' src) ds"
  "parseGoMod src data = Inr ds \<Longrightarrow> list_all (row_ok ''go'' src) ds"
  "parseRequirementsTxt src data = Inr ds \<Longrightarrow> list_all (row_ok ''pip'' src) ds"
  by (auto simp: parsePackageJSON_def npm_rows_ok parseGoMod_def gomod_init_def list_all_iff
      split: sum.splits prod.splits if_splits dest!: gomod_lines_ok)
    (auto simp: parseRequirementsTxt_def List.map_filter_def requirement_ok split: prod.splits if_splits)

lemma parseCargo_ok: "parseCargoLock src data = Inr ds \<Longrightarrow> list_all (row_ok ''cargo'' src) ds"
  by (auto simp: parseCargoLock_def split: sum.splits prod.splits if_splits dest!: cargo_flush_ok cargo_lines_ok)

lemma row_ok_key_inj:
  "(\<And>d. d \<in> A \<Longrightarrow> row_ok eco src d) \<Longrightarrow> inj_on dep_key A"
proof (rule inj_onI)
  fix x y
  assume "\<And>d. d \<in> A \<Longrightarrow> row_ok eco src d" "x \<in> A" "y \<in> A" "dep_key x = dep_key y"
  then have "row_ok eco src x" "row_ok eco src y" "dep_key x = dep_key y" by blast+
  then show "x = y" by (cases x; cases y) (simp add: row_ok_def dep_key_def)
qed

lemma mset_npm_rows: "mset xs = mset ys \<Longrightarrow> mset (npm_rows src xs) = mset (npm_rows src ys)"
  by (simp add: npm_rows_filter List.map_filter_def)

lemma gomod_stmt_requirement:
  assumes "plain_token n" "plain_token v" "n \<noteq> ''require''" "n \<noteq> ''module''" "gm_inRequire st"
  shows "gomod_stmt src (n @ '' '' @ v) st = Inr (st\<lparr>gm_deps := gm_deps st @ [go_dep src n v]\<rparr>)"
proof -
  let ?l = "n @ '' '' @ v"
  have add: "add_require src ?l ?l st = Inr (st\<lparr>gm_deps := gm_deps st @ [go_dep src n v]\<rparr>)"
    using fields_requirement [OF assms(1,2)] by (simp add: add_require_def)
  have "\<not> has_prefix ?l ''module ''"
    using requirement_split [OF assms(1,2), of "''module''"] assms(4) by (auto simp: has_prefix_iff)
  moreover have "?l \<noteq> ''require ('' \<and> ?l \<noteq> ''require('' \<and> ?l \<noteq> '')'' \<and> ?l \<noteq> []"
  proof (intro conjI notI)
    assume "?l = ''require (''"
    with requirement_split [OF assms(1,2), of "''require''" "''(''"] assms(3) show False by simp
  next
    have sp: "CHR '' '' \<in> set ?l" by simp
    { assume "?l = ''require(''" then have "CHR '' '' \<in> set ''require(''" using sp by metis then show False by simp }
    { assume "?l = '')''" then have "CHR '' '' \<in> set '')''" using sp by metis then show False by simp }
  qed simp
  moreover have "trim_space a \<noteq> []" if "cut ?l ''require '' = Some (a, r)" for a r
  proof -
    have "n = a @ ''require''"
      using cut_Some [OF that] requirement_split [OF assms(1,2), of "a @ ''require''" r] by simp
    with assms(1,3) have "a \<noteq> []" "plain_token a" by (auto simp: plain_token_def)
    then have "trim_space a = a" by (intro trim_ascii) (use token_char in auto)
    with \<open>a \<noteq> []\<close> show ?thesis by simp
  qed
  ultimately show ?thesis
    using add assms(5) by (auto simp: gomod_stmt_def split: option.split)
qed

lemma gomod_requirements:
  assumes "list_all clean_requirement ds" "gm_inRequire st"
  shows "gomod_lines src (map (\<lambda>d. CHR 0x09 # go_mod_line d) ds @ ls) st =
    gomod_lines src ls (st\<lparr>gm_deps := gm_deps st @ map (\<lambda>(n, v). go_dep src n v) ds\<rparr>)"
  using assms
proof (induction ds arbitrary: st)
  case (Cons d ds)
  obtain n v where d: "d = (n, v)" by (cases d)
  with Cons.prems have c: "plain_token n" "plain_token v" "n \<noteq> ''require''" "n \<noteq> ''module''"
      "\<not> contains (n @ '' '' @ v) ''//''"
    by (auto simp: clean_requirement_def go_mod_line_def)
  have "gomod_strip (CHR 0x09 # go_mod_line d) = Some (n @ '' '' @ v)"
    using c(5) trim_requirement [OF c(1,2)]
    by (simp add: gomod_strip_def go_mod_line_def d trim_tab contains_def)
  then show ?case
    using Cons gomod_stmt_requirement [OF c(1-4) Cons.prems(2), of src] d by simp
qed simp

lemma go_mod_frame:
  "gomod_strip [] = Some []" "gomod_strip ''require ('' = Some ''require (''" "gomod_strip '')'' = Some '')''"
  by (simp_all add: gomod_strip_def trim_ascii ascii_space_def has_prefix_def)

lemma gomod_module_line:
  assumes "plain_token m" "\<not> contains (''module '' @ m) ''//''"
  shows "gomod_strip (''module '' @ m) = Some (''module '' @ m)"
  using assms trim_requirement [of "''module''" m] by (simp add: plain_token_def gomod_strip_def contains_def)

lemma clean_line:
  assumes "clean_requirement d"
  shows "newline \<notin> set (CHR 0x09 # go_mod_line d) \<and> CHR 0x0D \<notin> set (CHR 0x09 # go_mod_line d) \<and>
    length (CHR 0x09 # go_mod_line d) < max_line"
proof -
  have t: "plain_token (fst d)" "plain_token (snd d)" "length (go_mod_line d) + 1 < max_line"
    using assms by (simp_all add: clean_requirement_def)
  have g: "go_mod_line d = fst d @ '' '' @ snd d" by (simp add: go_mod_line_def split: prod.split)
  show ?thesis using token_line [OF t(1,2)] t(3) by (simp add: g newline_def)
qed

lemma trim_quoted: "trim_space (quoted s) = quoted s" "trim_space (CHR '' '' # quoted s) = quoted s"
  by (simp_all add: trim_blank) (simp_all add: quoted_def trim_ascii ascii_space_def)

lemma unquote_quoted: "unquoteTOML (quoted s) = Some s"
  by (simp add: unquoteTOML_def quoted_def has_suffix_iff butlast_append)

lemma trim_keys: "trim_space ''name '' = ''name''" "trim_space ''version '' = ''version''"
  "trim_space ''[[package]]'' = ''[[package]]''" "trim_space ''[[patch.unused]]'' = ''[[patch.unused]]''"
  by code_simp+

lemma trim_key_value:
  "trim_space (''name = '' @ quoted s) = ''name = '' @ quoted s"
  "trim_space (''version = '' @ quoted s) = ''version = '' @ quoted s"
  by (rule trim_ascii; simp add: quoted_def ascii_space_def)+

lemma cut_key_value:
  "cut (''name = '' @ r) ''='' = Some (''name '', CHR '' '' # r)"
  "cut (''version = '' @ r) ''='' = Some (''version '', CHR '' '' # r)"
  by (simp_all add: cut_def)

lemma cargo_stmt_name:
  "cg_inPackage st \<Longrightarrow> cargo_stmt src (''name = '' @ quoted s) st = Inr (st\<lparr>cg_name := s\<rparr>)"
  using cut_key_value(1) [of "quoted s"] trim_key_value(1) [of s]
  by (simp add: cargo_stmt_def trim_keys trim_quoted unquote_quoted)

lemma cargo_stmt_version:
  "cg_inPackage st \<Longrightarrow> cargo_stmt src (''version = '' @ quoted s) st = Inr (st\<lparr>cg_version := s\<rparr>)"
  using cut_key_value(2) [of "quoted s"] trim_key_value(2) [of s]
  by (simp add: cargo_stmt_def trim_keys trim_quoted unquote_quoted)

lemma cargo_stmt_header:
  "cargo_stmt src ''[[package]]'' st = (case cargo_flush src st of Inl e \<Rightarrow> Inl e
     | Inr st' \<Rightarrow> Inr (st'\<lparr>cg_inPackage := True, cg_name := [], cg_version := []\<rparr>))"
  "cargo_stmt src ''[[patch.unused]]'' st = Inr st"
  by (simp_all add: cargo_stmt_def trim_keys cut_def)

lemma cargo_lines_append:
  "cargo_lines src (ls @ ms) st = (case cargo_lines src ls st of Inl e \<Rightarrow> Inl e | Inr st' \<Rightarrow> cargo_lines src ms st')"
  by (induction ls arbitrary: st) (auto split: sum.split)

lemma flush_after_blocks:
  assumes "ds \<noteq> []" "list_all clean_package ds"
  shows "cargo_flush src (after_blocks src ds) =
    Inr (after_blocks src ds\<lparr>cg_deps := map (cargo_dep src) ds, cg_name := [], cg_version := []\<rparr>)"
proof (cases ds rule: rev_cases)
  case (snoc es d)
  with assms(2) show ?thesis
    by (simp add: cargo_flush_def after_blocks_def clean_package_def cargo_text_def cargo_dep_def)
qed (use assms in simp)

lemma cargo_blocks:
  assumes "ds \<noteq> []" "list_all clean_package ds"
  shows "cargo_lines src (concat (map (cargo_block ''[[package]]'') ds))
      \<lparr>cg_deps = [], cg_inPackage = False, cg_name = [], cg_version = []\<rparr> = Inr (after_blocks src ds)"
  using assms
proof (induction ds rule: rev_induct)
  case (snoc d ds)
  show ?case
  proof (cases "ds = []")
    case True
    then show ?thesis
      by (simp add: cargo_block_def cargo_stmt_header cargo_flush_def cargo_stmt_name [unfolded append_Cons append_Nil]
          cargo_stmt_version [unfolded append_Cons append_Nil] after_blocks_def)
  next
    case False
    then have "clean_package (last ds)" using snoc.prems by (simp add: list_all_iff)
    then have fl: "cargo_flush src (after_blocks src ds) =
        Inr (after_blocks src ds\<lparr>cg_deps := map (cargo_dep src) ds, cg_name := [], cg_version := []\<rparr>)"
      using False snoc.prems by (intro flush_after_blocks) simp_all
    show ?thesis
      using False snoc fl
      by (simp add: cargo_lines_append cargo_block_def cargo_stmt_header
         cargo_stmt_name [unfolded append_Cons append_Nil] cargo_stmt_version [unfolded append_Cons append_Nil] after_blocks_def)
  qed
qed simp

lemma clean_block:
  assumes "clean_package d" "newline \<notin> set h" "CHR 0x0D \<notin> set h" "length h < max_line"
  shows "list_all (\<lambda>l. newline \<notin> set l \<and> length l < max_line \<and> drop_cr l = l) (cargo_block h d)"
  using assms by (simp add: cargo_block_def clean_package_def cargo_text_def quoted_def newline_def drop_cr_id)

lemma scan_cargo:
  assumes "list_all clean_package ds" "newline \<notin> set h" "CHR 0x0D \<notin> set h" "length h < max_line"
    "list_all clean_package es"
  shows "scan_lines max_line (render_lines (concat (map (cargo_block ''[[package]]'') ds) @ concat (map (cargo_block h) es)))
    = (concat (map (cargo_block ''[[package]]'') ds) @ concat (map (cargo_block h) es), False)"
proof -
  have "list_all (\<lambda>l. newline \<notin> set l \<and> length l < max_line \<and> drop_cr l = l)
     (concat (map (cargo_block g) xs))" if "list_all clean_package xs" "newline \<notin> set g" "CHR 0x0D \<notin> set g" "length g < max_line" for g xs
    using that clean_block by (induction xs) (auto simp: list_all_append)
  then have "list_all (\<lambda>l. newline \<notin> set l \<and> length l < max_line \<and> drop_cr l = l)
     (concat (map (cargo_block ''[[package]]'') ds) @ concat (map (cargo_block h) es))"
    using assms by (simp add: newline_def max_line_def)
  from scan_rendered [OF this] show ?thesis by (simp add: render_lines_def)
qed

lemma package_json_sample:
  "path_base ''package.json'' = ''package.json''" "trim_space ''{}'' = ''{}''"
  "resolveNPMVersion ''1.0.0'' = Some ''1.0.0''" "resolveNPMVersion ''2.0.0'' = Some ''2.0.0''"
  by code_simp+

section \<open>Properties\<close>

text \<open>What a manifest yields is sorted by name and version, and every row has a version, the
  ecosystem of the manifest's kind and the path it was read from.\<close>

theorem ParseManifest_rows:
  assumes "ParseManifest decode src data = Inr deps"
  shows "sorted (map dep_key deps) \<and> (\<forall>d \<in> set deps. row_ok (ecosystem_of (path_base src)) src d)"
  using assms
  by (auto simp: ParseManifest_def Let_def split: sum.splits if_splits
      dest!: parsers_ok parseCargo_ok simp: list_all_iff)

theorem ParseManifest_rows_witness:
  "sorted (map dep_key [\<lparr>dep_Ecosystem = ''npm'', dep_Name = ''a'', dep_Version = ''2.0.0'', dep_SourceFile = ''package.json''\<rparr>,
     \<lparr>dep_Ecosystem = ''npm'', dep_Name = ''b'', dep_Version = ''1.0.0'', dep_SourceFile = ''package.json''\<rparr>])"
proof -
  have "ParseManifest (\<lambda>_. Inr ([(''b'', ''1.0.0''), (''a'', ''2.0.0'')], [])) ''package.json'' ''{}'' =
    Inr [\<lparr>dep_Ecosystem = ''npm'', dep_Name = ''a'', dep_Version = ''2.0.0'', dep_SourceFile = ''package.json''\<rparr>,
     \<lparr>dep_Ecosystem = ''npm'', dep_Name = ''b'', dep_Version = ''1.0.0'', dep_SourceFile = ''package.json''\<rparr>]"
    by (simp add: ParseManifest_def parsePackageJSON_def package_json_sample dep_key_def Let_def)
  from ParseManifest_rows [OF this] show ?thesis by simp
qed

text \<open>Go iterates the dependency maps of package.json in an unspecified order; the result does
  not depend on it.  Two decodings that list the same entries in different orders give equal
  results.\<close>

theorem package_json_order:
  assumes "path_base src = ''package.json''"
    and "decode data = Inr (deps, dev)" "decode' data = Inr (deps', dev')"
    and "mset deps = mset deps'" "mset dev = mset dev'"
  shows "ParseManifest decode src data = ParseManifest decode' src data"
proof -
  let ?a = "npm_rows src deps @ npm_rows src dev" and ?b = "npm_rows src deps' @ npm_rows src dev'"
  have "mset ?a = mset ?b" using mset_npm_rows [OF assms(4)] mset_npm_rows [OF assms(5)] by simp
  moreover have "inj_on dep_key (set ?a)"
    by (rule row_ok_key_inj [of _ "''npm''" src]) (auto intro: npm_rows_ok)
  ultimately have "sort_key dep_key ?a = sort_key dep_key ?b"
    by (intro sort_key_inj_key_eq) (simp_all add: sorted_sort_key)
  then show ?thesis using assms(1-3) by (simp add: ParseManifest_def parsePackageJSON_def)
qed

theorem package_json_order_witness:
  "ParseManifest (\<lambda>_. Inr ([(''b'', ''1.0.0''), (''a'', ''2.0.0'')], [])) ''package.json'' ''{}'' =
   ParseManifest (\<lambda>_. Inr ([(''a'', ''2.0.0''), (''b'', ''1.0.0'')], [])) ''package.json'' ''{}''"
  by (rule package_json_order [where deps = "[(''b'', ''1.0.0''), (''a'', ''2.0.0'')]" and dev = "[]"
        and deps' = "[(''a'', ''2.0.0''), (''b'', ''1.0.0'')]" and dev' = "[]"])
    (simp_all add: package_json_sample add_mset_commute)

text \<open>A go.mod file with a module line and a require block parses back to exactly its
  requirements, sorted, whatever their number.\<close>

theorem go_mod_roundtrip:
  assumes "plain_token m" "\<not> contains (''module '' @ m) ''//''" "length m + 7 < max_line"
    and "list_all clean_requirement ds"
  shows "ParseManifest decode ''go.mod'' (render_go_mod m ds) =
    Inr (sort_key dep_key (map (\<lambda>(n, v). go_dep ''go.mod'' n v) ds))"
proof -
  let ?lines = "[''module '' @ m, [], ''require (''] @ map (\<lambda>d. CHR 0x09 # go_mod_line d) ds @ ['')'']"
  have "\<forall>d \<in> set ds. newline \<notin> set (CHR 0x09 # go_mod_line d) \<and> CHR 0x0D \<notin> set (CHR 0x09 # go_mod_line d) \<and>
      length (CHR 0x09 # go_mod_line d) < max_line"
    using assms(4) clean_line by (metis list_all_iff)
  moreover have "newline \<notin> set (''module '' @ m)" "CHR 0x0D \<notin> set (''module '' @ m)"
    using token_line [OF _ assms(1), of "''module''"] by (simp_all add: plain_token_def)
  ultimately have "list_all (\<lambda>l. newline \<notin> set l \<and> length l < max_line \<and> drop_cr l = l) ?lines"
    using assms(3) by (simp add: drop_cr_id list_all_iff newline_def max_line_def)
  from scan_rendered [OF this] have scan: "scan_lines max_line (render_go_mod m ds) = (?lines, False)"
    by (simp add: render_go_mod_def)
  have "CHR ''m'' \<in> set (render_go_mod m ds)" by (simp add: render_go_mod_def)
  then have ne: "trim_space (render_go_mod m ds) \<noteq> []"
    using trim_space_keeps [of "CHR ''m''"] by (force simp: ascii_space_def)
  have base: "path_base ''go.mod'' = ''go.mod''"
    by code_simp
  have run: "gomod_lines ''go.mod'' ?lines gomod_init =
    Inr \<lparr>gm_deps = map (\<lambda>(n, v). go_dep ''go.mod'' n v) ds, gm_inRequire = False,
         gm_closedRequire = True, gm_sawModule = True\<rparr>"
    using gomod_module_line [OF assms(1,2)] gomod_requirements [OF assms(4), where ls = "['')'']"]
    by (simp add: go_mod_frame gomod_stmt_def gomod_init_def)
  show ?thesis
    using scan run ne base by (simp add: ParseManifest_def parseGoMod_def)
qed

theorem go_mod_roundtrip_witness:
  "ParseManifest (\<lambda>_. Inl []) ''go.mod'' (render_go_mod ''a.b/c'' [(''x.y/z'', ''v1.2.0''), (''k.l/m'', ''v0.1.0'')]) =
   Inr [go_dep ''go.mod'' ''k.l/m'' ''v0.1.0'', go_dep ''go.mod'' ''x.y/z'' ''v1.2.0'']"
proof -
  have a: "plain_token ''a.b/c''" "\<not> contains (''module '' @ ''a.b/c'') ''//''" "length ''a.b/c'' + 7 < max_line"
    "list_all clean_requirement [(''x.y/z'', ''v1.2.0''), (''k.l/m'', ''v0.1.0'')]"
    by (simp_all add: plain_token_def contains_def has_prefix_def max_line_def clean_requirement_def go_mod_line_def)
  show ?thesis
    using go_mod_roundtrip [OF a, of "\<lambda>_. Inl []"] by (simp add: dep_key_def go_dep_def)
qed

text \<open>A Cargo.lock file of package blocks parses back to its packages.  When a
  \<^verbatim>\<open>[[patch.unused]]\<close> block follows, its name and version overwrite those of the last package,
  because the parser only leaves a package at the next \<^verbatim>\<open>[[package]]\<close>: the last locked
  package is lost, and a package that is not used is reported in its place.\<close>

theorem Cargo_lock_blocks:
  assumes "ds \<noteq> []" "list_all clean_package ds" "clean_package d"
  shows "parseCargoLock src (render_lines (concat (map (cargo_block ''[[package]]'') ds))) = Inr (map (cargo_dep src) ds) \<and>
    parseCargoLock src (render_lines (concat (map (cargo_block ''[[package]]'') ds) @ cargo_block ''[[patch.unused]]'' d))
      = Inr (map (cargo_dep src) (butlast ds @ [d]))"
proof
  show "parseCargoLock src (render_lines (concat (map (cargo_block ''[[package]]'') ds))) = Inr (map (cargo_dep src) ds)"
    using scan_cargo [OF assms(2), of "[]" "[]"] cargo_blocks [OF assms(1,2)] flush_after_blocks [OF assms(1,2)] assms(1)
    by (simp add: parseCargoLock_def max_line_def)
  have upd: "cargo_lines src (cargo_block ''[[patch.unused]]'' d) (after_blocks src ds) = Inr (after_blocks src (butlast ds @ [d]))"
    by (simp add: cargo_block_def cargo_stmt_header cargo_stmt_name [unfolded append_Cons append_Nil]
          cargo_stmt_version [unfolded append_Cons append_Nil] after_blocks_def)
  have "list_all clean_package (butlast ds @ [d])"
    using assms by (auto simp: list_all_iff dest: in_set_butlastD)
  then show "parseCargoLock src (render_lines (concat (map (cargo_block ''[[package]]'') ds) @ cargo_block ''[[patch.unused]]'' d))
      = Inr (map (cargo_dep src) (butlast ds @ [d]))"
    using scan_cargo [OF assms(2), of "''[[patch.unused]]''" "[d]"] cargo_blocks [OF assms(1,2)] flush_after_blocks [of "butlast ds @ [d]"] upd assms(3)
    by (simp add: parseCargoLock_def max_line_def newline_def cargo_lines_append)
qed

theorem Cargo_lock_blocks_witness:
  "parseCargoLock ''Cargo.lock'' (render_lines (concat (map (cargo_block ''[[package]]'')
       [(''serde'', ''1.0.1''), (''rand'', ''0.8.5'')]) @ cargo_block ''[[patch.unused]]'' (''foo'', ''9.9.9''))) =
   Inr [cargo_dep ''Cargo.lock'' (''serde'', ''1.0.1''), cargo_dep ''Cargo.lock'' (''foo'', ''9.9.9'')]"
proof -
  have a: "[(''serde'', ''1.0.1''), (''rand'', ''0.8.5'')] \<noteq> []"
     "list_all clean_package [(''serde'', ''1.0.1''), (''rand'', ''0.8.5'')]" "clean_package (''foo'', ''9.9.9'')"
    by (simp_all add: clean_package_def cargo_text_def newline_def max_line_def)
  show ?thesis using Cargo_lock_blocks [OF a, of "''Cargo.lock''"] by simp
qed

end
