(* ===== verification/Threat_Matcher.thy ===== *)
theory Threat_Matcher
  imports Threat_Manifest "HOL-Library.AList"
begin

text \<open>
  The matcher of inventory, advisories, the KEV catalog and scanner findings
  (\<^verbatim>\<open>src/internal/threats/matcher.go\<close>, \<^verbatim>\<open>ecosystem.go\<close>, \<^verbatim>\<open>kev.go\<close> and the data types of
  \<^verbatim>\<open>osv.go\<close>).  The evidence map of a hit has the three keys the code writes, here three
  fields.  The KEV catalog is an association list with distinct keys, whose order stands for
  Go's map order; fetching it over HTTP is a parameter.
\<close>

section \<open>Data\<close>

record range_event =
  re_Introduced :: string
  re_Fixed :: string

record affected_range =
  ar_Type :: string
  ar_Events :: "range_event list"

record affected_package =
  ap_Ecosystem :: string
  ap_Name :: string
  ap_Ranges :: "affected_range list"

record advisory =
  adv_ID :: string
  adv_Source :: string
  adv_CVEID :: string
  adv_Aliases :: "string list"
  adv_Severity :: string
  adv_CVSS :: gofloat
  adv_Affected :: "affected_package list"
  adv_Published :: "string option"
  adv_Raw :: string

record finding_ref =
  fr_ID :: string
  fr_PkgName :: string
  fr_PkgVersion :: string
  fr_CVEID :: string

record evidence =
  ev_declared :: "dependency option"
  ev_detected :: "finding_ref option"
  ev_corroborated :: bool

datatype inventory_status = StatusDeclared | StatusDetected | StatusCorroborated
datatype match_status = MatchUnconfirmed | MatchActiveThreat

record hit =
  hit_AdvisoryID :: string
  hit_CVEID :: string
  hit_PkgName :: string
  hit_PkgVersion :: string
  hit_Inventory :: inventory_status
  hit_KEV :: bool
  hit_Match :: match_status
  hit_Evidence :: evidence

record query_hit =
  qh_Dependency :: dependency
  qh_Advisory :: advisory

record kev_entry =
  kev_CVEID :: string
  kev_VendorProject :: string
  kev_Product :: string
  kev_Name :: string
  kev_DateAdded :: string
  kev_Description :: string
  kev_RequiredAction :: string
  kev_DueDate :: string
  kev_Ransomware :: string

type_synonym kev_catalog = "(string \<times> kev_entry) list"

section \<open>Ecosystems and the KEV catalog\<close>

definition osvEcosystems :: "(string \<times> string) list" where
  "osvEcosystems = [(''npm'', ''npm''), (''go'', ''Go''), (''pip'', ''PyPI''), (''cargo'', ''crates.io'')]"

definition OSVEcosystem :: "string \<Rightarrow> string" where
  "OSVEcosystem eco = (case map_of osvEcosystems eco of Some o' \<Rightarrow> o' | None \<Rightarrow> [])"

text \<open>\<^verbatim>\<open>FetchKEV\<close> after the request: \<open>get\<close> is the response, an error text or the status code
  and the body; \<open>decode\<close> is the JSON decoder.\<close>

definition index_kev :: "kev_entry list \<Rightarrow> kev_catalog" where
  "index_kev vs = fold (\<lambda>v out. if kev_CVEID v = [] then out else AList.update (kev_CVEID v) v out) vs []"

definition FetchKEV ::
  "string + nat \<times> string \<Rightarrow> (string \<Rightarrow> string + kev_entry list) \<Rightarrow> string + kev_catalog" where
  "FetchKEV response decode = (case response of
      Inl e \<Rightarrow> Inl (''kev: request failed: '' @ e)
    | Inr (status, body) \<Rightarrow>
        if status \<ge> 400 then Inl (''kev: server returned '' @ nat_str status)
        else (case decode (take 33554432 body) of
            Inl e \<Rightarrow> Inl (''kev: decode catalog: '' @ e)
          | Inr vs \<Rightarrow> Inr (index_kev vs)))"

definition DiffKEV :: "kev_catalog \<Rightarrow> kev_catalog \<Rightarrow> string list \<times> string list" where
  "DiffKEV old fresh =
     (filter (\<lambda>c. map_of old c = None) (map fst fresh),
      filter (\<lambda>c. map_of fresh c = None) (map fst old))"

definition IsKEV :: "string \<Rightarrow> string list \<Rightarrow> kev_catalog \<Rightarrow> bool" where
  "IsKEV cveID aliases kev =
     (if kev = [] then False
      else if map_of kev cveID \<noteq> None then True
      else list_ex (\<lambda>a. map_of kev a \<noteq> None) aliases)"

section \<open>Versions and affected ranges\<close>

definition splitVersion :: "string \<Rightarrow> string list" where
  "splitVersion v0 =
     (let v1 = trim_prefix (trim_prefix (trim_space v0) ''v'') ''V'';
          v2 = (case index_of v1 ''+'' of Some i \<Rightarrow> take i v1 | None \<Rightarrow> v1)
      in fields_func (\<lambda>c. c = CHR ''.'' \<or> c = CHR ''-'' \<or> c = CHR ''_'') v2)"

definition cmp_segment :: "string \<Rightarrow> string \<Rightarrow> int" where
  "cmp_segment x y = (case (atoi x, atoi y) of
      ((xi, None), (yi, None)) \<Rightarrow> if xi \<noteq> yi then (if xi < yi then -1 else 1) else 0
    | _ \<Rightarrow> if x = y then 0 else if x < y then -1 else 1)"

text \<open>The loop over segment positions; a list that has ended gives \<^verbatim>\<open>"0"\<close>.\<close>

fun cmp_segments :: "string list \<Rightarrow> string list \<Rightarrow> int" where
  "cmp_segments [] [] = 0"
| "cmp_segments (x # xs) [] = (let c = cmp_segment x ''0'' in if c \<noteq> 0 then c else cmp_segments xs [])"
| "cmp_segments [] (y # ys) = (let c = cmp_segment ''0'' y in if c \<noteq> 0 then c else cmp_segments [] ys)"
| "cmp_segments (x # xs) (y # ys) = (let c = cmp_segment x y in if c \<noteq> 0 then c else cmp_segments xs ys)"

definition compareVersions :: "string \<Rightarrow> string \<Rightarrow> int" where
  "compareVersions a b = cmp_segments (splitVersion a) (splitVersion b)"

text \<open>One event on the two flags \<open>(affected, bounded)\<close> of the loop.\<close>

definition range_step :: "string \<Rightarrow> range_event \<Rightarrow> bool \<times> bool \<Rightarrow> bool \<times> bool" where
  "range_step version e s0 =
     (let s1 = (if re_Introduced e \<noteq> []
          then (compareVersions version (re_Introduced e) \<ge> 0, True) else s0)
      in if re_Fixed e \<noteq> []
         then (let s2 = (if \<not> snd s1 then (True, True) else s1)
               in if fst s2 \<and> compareVersions version (re_Fixed e) \<ge> 0 then (False, snd s2) else s2)
         else s1)"

definition versionInEvents :: "string \<Rightarrow> range_event list \<Rightarrow> bool" where
  "versionInEvents version events =
     (case fold (range_step version) events (False, False) of
        (affected, bounded) \<Rightarrow> if \<not> bounded then True else affected)"

definition same_package :: "dependency \<Rightarrow> affected_package \<Rightarrow> bool" where
  "same_package dep ap \<longleftrightarrow> equal_fold (ap_Ecosystem ap) (OSVEcosystem (dep_Ecosystem dep)) \<and>
     to_lower (ap_Name ap) = to_lower (dep_Name dep)"

definition depInAffectedRanges :: "dependency \<Rightarrow> affected_package list \<Rightarrow> bool" where
  "depInAffectedRanges dep affected =
     (let aps = filter (same_package dep) affected in
      if list_ex (\<lambda>ap. list_ex (\<lambda>r. versionInEvents (dep_Version dep) (ar_Events r)) (ap_Ranges ap)) aps then True
      else if aps = [] then False
      else if list_ex (\<lambda>ap. list_ex (\<lambda>r. length (ar_Events r) > 0) (ap_Ranges ap)) aps then False
      else True)"

section \<open>Matching\<close>

definition depMatchesAdvisory :: "dependency \<Rightarrow> affected_package list \<Rightarrow> bool" where
  "depMatchesAdvisory dep affected =
     (if OSVEcosystem (dep_Ecosystem dep) = [] then False
      else if to_lower (dep_Name dep) = [] then False
      else list_ex (same_package dep) affected)"

definition findingMatchesAdvisoryCVE :: "finding_ref \<Rightarrow> advisory \<Rightarrow> bool" where
  "findingMatchesAdvisoryCVE f adv =
     (if fr_CVEID f = [] then False
      else if fr_CVEID f = adv_CVEID adv then True
      else list_ex (\<lambda>alias. fr_CVEID f = alias) (adv_Aliases adv))"

definition corroborates :: "dependency \<Rightarrow> advisory \<Rightarrow> finding_ref \<Rightarrow> bool" where
  "corroborates dep adv f \<longleftrightarrow> findingMatchesAdvisoryCVE f adv \<or>
     (fr_PkgName f \<noteq> [] \<and> fr_PkgVersion f \<noteq> [] \<and>
      to_lower (fr_PkgName f) = to_lower (dep_Name dep) \<and> fr_PkgVersion f = dep_Version dep)"

definition matchFinding :: "dependency \<Rightarrow> advisory \<Rightarrow> finding_ref list \<Rightarrow> finding_ref option" where
  "matchFinding dep adv findings = find (corroborates dep adv) findings"

text \<open>\<open>declared\<close> and \<open>detected\<close> are the inventory row and the finding, when there is one.\<close>

definition buildHit :: "advisory \<Rightarrow> string \<Rightarrow> string \<Rightarrow> bool \<Rightarrow> dependency option \<Rightarrow> finding_ref option \<Rightarrow> hit" where
  "buildHit adv pkgName pkgVersion kevHit declared detected =
     (let status = (if declared \<noteq> None \<and> detected \<noteq> None then StatusCorroborated
            else if detected \<noteq> None then StatusDetected else StatusDeclared);
          matchStatus = (if status = StatusCorroborated then MatchActiveThreat
            else if kevHit \<and> status = StatusDetected then MatchActiveThreat
            else MatchUnconfirmed)
      in \<lparr>hit_AdvisoryID = adv_ID adv, hit_CVEID = adv_CVEID adv, hit_PkgName = pkgName,
          hit_PkgVersion = pkgVersion, hit_Inventory = status, hit_KEV = kevHit,
          hit_Match = matchStatus,
          hit_Evidence = \<lparr>ev_declared = declared, ev_detected = detected,
            ev_corroborated = (status = StatusCorroborated)\<rparr>\<rparr>)"

definition match_advisory ::
  "dependency list \<Rightarrow> kev_catalog \<Rightarrow> finding_ref list \<Rightarrow> advisory \<Rightarrow> hit list" where
  "match_advisory inventory kev findings adv =
     (let kevHit = IsKEV (adv_CVEID adv) (adv_Aliases adv) kev;
          deps = filter (\<lambda>dep. depMatchesAdvisory dep (adv_Affected adv)) inventory
      in if deps \<noteq> []
         then map (\<lambda>dep. buildHit adv (dep_Name dep) (dep_Version dep) kevHit (Some dep)
                (matchFinding dep adv findings)) deps
         else map (\<lambda>f. buildHit adv (fr_PkgName f) (fr_PkgVersion f) kevHit None (Some f))
                (filter (\<lambda>f. findingMatchesAdvisoryCVE f adv) findings))"

definition Match :: "dependency list \<Rightarrow> advisory list \<Rightarrow> kev_catalog \<Rightarrow> finding_ref list \<Rightarrow> hit list" where
  "Match inventory advisories kev findings =
     concat (map (match_advisory inventory kev findings) advisories)"

fun MatchQueryHits :: "query_hit list \<Rightarrow> kev_catalog \<Rightarrow> finding_ref list \<Rightarrow> hit list" where
  "MatchQueryHits [] kev findings = []"
| "MatchQueryHits (h # hs) kev findings =
     (let dep = qh_Dependency h; adv = qh_Advisory h in
      if \<not> depMatchesAdvisory dep (adv_Affected adv) then MatchQueryHits hs kev findings
      else if \<not> depInAffectedRanges dep (adv_Affected adv) then MatchQueryHits hs kev findings
      else buildHit adv (dep_Name dep) (dep_Version dep)
             (IsKEV (adv_CVEID adv) (adv_Aliases adv) kev) (Some dep) (matchFinding dep adv findings)
           # MatchQueryHits hs kev findings)"

section \<open>Specifications\<close>

text \<open>A range as OSV documents it: half-open intervals, each introduced at one version and
  fixed at another.\<close>

definition interval_events :: "(string \<times> string) list \<Rightarrow> range_event list" where
  "interval_events ps = concat (map (\<lambda>(i, f).
     [\<lparr>re_Introduced = i, re_Fixed = []\<rparr>, \<lparr>re_Introduced = [], re_Fixed = f\<rparr>]) ps)"

definition in_interval :: "string \<Rightarrow> string \<times> string \<Rightarrow> bool" where
  "in_interval v p \<longleftrightarrow> compareVersions v (fst p) \<ge> 0 \<and> compareVersions v (snd p) < 0"

definition numeric_version :: "string \<Rightarrow> bool" where
  "numeric_version v \<longleftrightarrow> list_all (\<lambda>w. snd (atoi w) = None) (splitVersion v)"

text \<open>The verdict of a hit, as the documentation of \<^verbatim>\<open>Match\<close> states it.\<close>

definition verdict_ok :: "hit \<Rightarrow> bool" where
  "verdict_ok h \<longleftrightarrow>
     (let e = hit_Evidence h; d = ev_declared e \<noteq> None; f = ev_detected e \<noteq> None in
      (d \<or> f) \<and>
      hit_Inventory h = (if d \<and> f then StatusCorroborated else if f then StatusDetected else StatusDeclared) \<and>
      ev_corroborated e = (d \<and> f) \<and>
      (hit_Match h = MatchActiveThreat \<longleftrightarrow> d \<and> f \<or> hit_KEV h \<and> f))"

text \<open>A dependency, an advisory and a finding for concrete instances.\<close>

definition sample_dep :: dependency where
  "sample_dep = \<lparr>dep_Ecosystem = ''npm'', dep_Name = ''Lodash'', dep_Version = ''4.17.0'', dep_SourceFile = ''package.json''\<rparr>"

definition sample_advisory :: advisory where
  "sample_advisory = \<lparr>adv_ID = ''GHSA-1'', adv_Source = ''osv'', adv_CVEID = ''CVE-2021-1'', adv_Aliases = [],
     adv_Severity = [], adv_CVSS = Fin 0,
     adv_Affected = [\<lparr>ap_Ecosystem = ''npm'', ap_Name = ''lodash'', ap_Ranges = []\<rparr>],
     adv_Published = None, adv_Raw = []\<rparr>"

definition sample_finding :: finding_ref where
  "sample_finding = \<lparr>fr_ID = ''f1'', fr_PkgName = ''lodash'', fr_PkgVersion = ''4.17.0'', fr_CVEID = []\<rparr>"

section \<open>Lemmas\<close>

lemma atoi_zero: "atoi ''0'' = (0, None)"
  by (simp add: atoi_def is_digit_def digit_val_def)

lemma cmp_segment_range: "cmp_segment x y \<in> {-1, 0, 1}"
  by (auto simp: cmp_segment_def split: prod.split option.split)

lemma cmp_segment_swap: "cmp_segment y x = - cmp_segment x y"
  by (auto simp: cmp_segment_def split: prod.split option.split)

lemma cmp_segments_range: "cmp_segments xs ys \<in> {-1, 0, 1}"
  by (induction xs ys rule: cmp_segments.induct) (use cmp_segment_range in \<open>auto simp: Let_def\<close>)

lemma cmp_segments_swap: "cmp_segments ys xs = - cmp_segments xs ys"
proof (induction xs ys rule: cmp_segments.induct)
  case (2 x xs)
  then show ?case using cmp_segment_swap [of "''0''" x] by (simp add: Let_def)
next
  case (3 y ys)
  then show ?case using cmp_segment_swap [of y "''0''"] by (simp add: Let_def)
next
  case (4 x xs y ys)
  then show ?case using cmp_segment_swap [of y x] by (simp add: Let_def)
qed simp

interpretation versions: three_way compareVersions
proof
  show "compareVersions a b \<in> {-1, 0, 1}" for a b
    unfolding compareVersions_def by (rule cmp_segments_range)
  show "compareVersions b a = - compareVersions a b" for a b
    unfolding compareVersions_def by (rule cmp_segments_swap)
qed

text \<open>Numeric segments as integers, and the comparison of their padded lists.\<close>

fun cmp_ints :: "int list \<Rightarrow> int list \<Rightarrow> int" where
  "cmp_ints [] [] = 0"
| "cmp_ints (x # xs) [] = (if x < 0 then -1 else if 0 < x then 1 else cmp_ints xs [])"
| "cmp_ints [] (y # ys) = (if 0 < y then -1 else if y < 0 then 1 else cmp_ints [] ys)"
| "cmp_ints (x # xs) (y # ys) = (if x < y then -1 else if y < x then 1 else cmp_ints xs ys)"

lemma cmp_segment_numeric:
  "snd (atoi x) = None \<Longrightarrow> snd (atoi y) = None \<Longrightarrow>
   cmp_segment x y = (if fst (atoi x) < fst (atoi y) then -1 else if fst (atoi y) < fst (atoi x) then 1 else 0)"
  by (cases "atoi x"; cases "atoi y") (simp add: cmp_segment_def)

lemma cmp_segments_numeric:
  "list_all (\<lambda>w. snd (atoi w) = None) xs \<Longrightarrow> list_all (\<lambda>w. snd (atoi w) = None) ys \<Longrightarrow>
   cmp_segments xs ys = cmp_ints (map (\<lambda>w. fst (atoi w)) xs) (map (\<lambda>w. fst (atoi w)) ys)"
  by (induction xs ys rule: cmp_segments.induct)
    (auto simp: cmp_segment_numeric atoi_zero Let_def)

lemma cmp_ints_le:
  "cmp_ints [] [] \<le> 0"
  "cmp_ints (x # xs) [] \<le> 0 \<longleftrightarrow> x < 0 \<or> x = 0 \<and> cmp_ints xs [] \<le> 0"
  "cmp_ints [] (y # ys) \<le> 0 \<longleftrightarrow> 0 < y \<or> y = 0 \<and> cmp_ints [] ys \<le> 0"
  "cmp_ints (x # xs) (y # ys) \<le> 0 \<longleftrightarrow> x < y \<or> x = y \<and> cmp_ints xs ys \<le> 0"
  by auto

declare cmp_ints.simps [simp del]

lemma cmp_ints_trans:
  "cmp_ints xs ys \<le> 0 \<Longrightarrow> cmp_ints ys zs \<le> 0 \<Longrightarrow> cmp_ints xs zs \<le> 0"
proof (induction xs ys arbitrary: zs rule: cmp_ints.induct)
  case 1
  then show ?case by simp
next
  case (2 x xs)
  then show ?case by (cases zs) (auto simp: cmp_ints_le)
next
  case (3 y ys)
  then show ?case by (cases zs) (auto simp: cmp_ints_le)
next
  case (4 x xs y ys)
  show ?case
  proof (cases zs)
    case Nil
    with 4 show ?thesis by (auto simp: cmp_ints_le)
  next
    case (Cons z zs')
    with "4.prems" have "x < y \<or> x = y \<and> cmp_ints xs ys \<le> 0" "y < z \<or> y = z \<and> cmp_ints ys zs' \<le> 0"
      by (simp_all add: cmp_ints_le)
    with "4.IH" [of zs'] Cons show ?thesis by (auto simp: cmp_ints_le)
  qed
qed

lemmas version_eval = compareVersions_def numeric_version_def cmp_segment_def atoi_def is_digit_def digit_val_def

lemma sample_versions:
  "splitVersion ''2'' = [''2'']" "splitVersion ''10'' = [''10'']" "splitVersion ''1a'' = [''1a'']"
  "splitVersion ''v1.2'' = [''1'', ''2'']" "splitVersion ''1.10'' = [''1'', ''10'']"
  "splitVersion ''2.0.0'' = [''2'', ''0'', ''0'']" "splitVersion ''1.2'' = [''1'', ''2'']"
  "splitVersion ''1.0'' = [''1'', ''0'']" "splitVersion ''1.5'' = [''1'', ''5'']"
  "splitVersion ''2.5'' = [''2'', ''5'']" "splitVersion ''2.0'' = [''2'', ''0'']"
  by code_simp+

lemma range_fold_pair:
  "i \<noteq> [] \<Longrightarrow> f \<noteq> [] \<Longrightarrow>
   fold (range_step v) (interval_events [(i, f)]) s = (in_interval v (i, f), True)"
  by (auto simp: interval_events_def range_step_def in_interval_def Let_def)

lemma interval_events_append: "interval_events (ps @ qs) = interval_events ps @ interval_events qs"
  by (simp add: interval_events_def)

lemma buildHit_fields:
  "hit_AdvisoryID (buildHit a n v k d f) = adv_ID a" "hit_CVEID (buildHit a n v k d f) = adv_CVEID a"
  "hit_PkgName (buildHit a n v k d f) = n" "hit_PkgVersion (buildHit a n v k d f) = v"
  "hit_KEV (buildHit a n v k d f) = k"
  "ev_declared (hit_Evidence (buildHit a n v k d f)) = d"
  "ev_detected (hit_Evidence (buildHit a n v k d f)) = f"
  by (simp_all add: buildHit_def Let_def)

lemma verdict_buildHit: "d \<noteq> None \<or> f \<noteq> None \<Longrightarrow> verdict_ok (buildHit a n v k d f)"
  by (auto simp: verdict_ok_def buildHit_def Let_def)

lemma matchFinding_iff:
  "matchFinding dep adv fs = None \<longleftrightarrow> \<not> (\<exists>f \<in> set fs. corroborates dep adv f)"
  "matchFinding dep adv fs = Some f \<Longrightarrow> f \<in> set fs \<and> corroborates dep adv f"
  by (auto simp: matchFinding_def find_None_iff find_Some_iff)

lemma set_match_advisory:
  "h \<in> set (match_advisory inventory kev fs adv) \<longleftrightarrow>
     (\<exists>dep \<in> set inventory. depMatchesAdvisory dep (adv_Affected adv) \<and>
        h = buildHit adv (dep_Name dep) (dep_Version dep) (IsKEV (adv_CVEID adv) (adv_Aliases adv) kev)
              (Some dep) (matchFinding dep adv fs)) \<or>
     (\<not> (\<exists>dep \<in> set inventory. depMatchesAdvisory dep (adv_Affected adv))) \<and>
       (\<exists>f \<in> set fs. findingMatchesAdvisoryCVE f adv \<and>
          h = buildHit adv (fr_PkgName f) (fr_PkgVersion f) (IsKEV (adv_CVEID adv) (adv_Aliases adv) kev) None (Some f))"
  by (auto simp: match_advisory_def Let_def filter_empty_conv)

lemma sample_match: "depMatchesAdvisory sample_dep (adv_Affected sample_advisory)"
  by code_simp

lemma MatchQueryHits_filter:
  "MatchQueryHits hs kev fs = map (\<lambda>h. buildHit (qh_Advisory h) (dep_Name (qh_Dependency h)) (dep_Version (qh_Dependency h))
      (IsKEV (adv_CVEID (qh_Advisory h)) (adv_Aliases (qh_Advisory h)) kev) (Some (qh_Dependency h))
      (matchFinding (qh_Dependency h) (qh_Advisory h) fs))
    (filter (\<lambda>h. depMatchesAdvisory (qh_Dependency h) (adv_Affected (qh_Advisory h)) \<and>
       depInAffectedRanges (qh_Dependency h) (adv_Affected (qh_Advisory h))) hs)"
  by (induction hs) (auto simp: Let_def)

section \<open>Properties\<close>

text \<open>On versions whose segments are all numbers, the comparison is transitive, so together
  with its antisymmetry it orders them.\<close>

theorem compareVersions_numeric:
  assumes "numeric_version a" "numeric_version b" "numeric_version c"
    and "compareVersions a b \<le> 0" "compareVersions b c \<le> 0"
  shows "compareVersions a c \<le> 0 \<and> compareVersions c a \<ge> 0"
proof -
  have "compareVersions a c \<le> 0"
    using assms cmp_ints_trans by (simp add: compareVersions_def numeric_version_def cmp_segments_numeric)
  then show ?thesis using versions.cmp_swap [of c a] by simp
qed

theorem compareVersions_numeric_witness:
  "numeric_version ''v1.2'' \<and> compareVersions ''v1.2'' ''2.0.0'' \<le> 0"
proof -
  have e: "numeric_version ''v1.2''" "numeric_version ''1.10''" "numeric_version ''2.0.0''"
    "compareVersions ''v1.2'' ''1.10'' \<le> 0" "compareVersions ''1.10'' ''2.0.0'' \<le> 0"
    by (simp_all add: version_eval sample_versions)
  show ?thesis using compareVersions_numeric [OF e] e by simp
qed

text \<open>With a non-numeric segment the comparison is not an order: three versions form a
  cycle, each smaller than the next, because a number and a text are compared as text and two
  numbers as numbers.\<close>

theorem compareVersions_cycle:
  "compareVersions ''2'' ''10'' = -1 \<and> compareVersions ''10'' ''1a'' = -1 \<and> compareVersions ''1a'' ''2'' = -1"
  by (simp add: version_eval sample_versions)

text \<open>Of a range with several intervals only the last one counts: an introduced event sets
  the flag to whether the version has reached it, also when an earlier interval already
  covers the version.  A dependency inside an earlier interval is reported as not affected.\<close>

theorem versionInEvents_last_interval:
  assumes "list_all (\<lambda>(i, f). i \<noteq> [] \<and> f \<noteq> []) (ps @ [p])"
  shows "versionInEvents v (interval_events (ps @ [p])) \<longleftrightarrow> in_interval v p"
proof -
  obtain i f where p: "p = (i, f)" by (cases p)
  with assms show ?thesis
    by (simp add: versionInEvents_def interval_events_append range_fold_pair)
qed

theorem versionInEvents_last_interval_witness:
  "in_interval ''1.2'' (''1.0'', ''1.5'') \<and>
   \<not> versionInEvents ''1.2'' (interval_events [(''1.0'', ''1.5''), (''2.0'', ''2.5'')])"
proof -
  have a: "list_all (\<lambda>(i, f). i \<noteq> [] \<and> f \<noteq> []) ([(''1.0'', ''1.5'')] @ [(''2.0'', ''2.5'')] :: (string \<times> string) list)"
    by simp
  have b: "in_interval ''1.2'' (''1.0'', ''1.5'')" "\<not> in_interval ''1.2'' (''2.0'', ''2.5'')"
    by (simp_all add: in_interval_def version_eval sample_versions)
  show ?thesis using versionInEvents_last_interval [OF a] b by simp
qed



text \<open>The matcher reports every match: for an advisory and a dependency of an affected
  package there is a hit with that inventory row, and it is an active threat exactly when
  some finding corroborates the pair by identifier or by package and version.\<close>

theorem Match_complete:
  assumes "adv \<in> set advisories" "dep \<in> set inventory" "depMatchesAdvisory dep (adv_Affected adv)"
  shows "\<exists>h \<in> set (Match inventory advisories kev findings).
    hit_AdvisoryID h = adv_ID adv \<and> hit_PkgName h = dep_Name dep \<and> hit_PkgVersion h = dep_Version dep \<and>
    ev_declared (hit_Evidence h) = Some dep \<and> hit_KEV h = IsKEV (adv_CVEID adv) (adv_Aliases adv) kev \<and>
    (hit_Match h = MatchActiveThreat \<longleftrightarrow> (\<exists>f \<in> set findings. corroborates dep adv f))"
proof -
  let ?h = "buildHit adv (dep_Name dep) (dep_Version dep) (IsKEV (adv_CVEID adv) (adv_Aliases adv) kev)
    (Some dep) (matchFinding dep adv findings)"
  have "?h \<in> set (match_advisory inventory kev findings adv)"
    using assms by (auto simp: set_match_advisory)
  then have "?h \<in> set (Match inventory advisories kev findings)"
    using assms(1) by (auto simp: Match_def)
  moreover have "hit_Match ?h = MatchActiveThreat \<longleftrightarrow> (\<exists>f \<in> set findings. corroborates dep adv f)"
    using matchFinding_iff(1) [of dep adv findings] by (auto simp: buildHit_def Let_def)
  ultimately show ?thesis by (force simp: buildHit_fields)
qed

theorem Match_complete_witness:
  "\<exists>h \<in> set (Match [sample_dep] [sample_advisory] [] [sample_finding]). hit_Match h = MatchActiveThreat"
proof -
  have "corroborates sample_dep sample_advisory sample_finding" by code_simp
  then show ?thesis
    using Match_complete [of sample_advisory "[sample_advisory]" sample_dep "[sample_dep]" "[]" "[sample_finding]"]
      sample_match by auto
qed

end
