(* ===== verification/Threat_Osv.thy ===== *)
theory Threat_Osv
  imports Threat_Matcher
begin

text \<open>
  The OSV client (\<^verbatim>\<open>src/internal/threats/osv.go\<close>): batched queries, hydration of the
  identifiers and the assembly of per-dependency hits.  HTTP, JSON, the CVSS score and time
  parsing are fields of an environment record.  Hydration runs on a worker pool whose results
  arrive in any order, so the order is a parameter: a function that permutes the results.
\<close>

section \<open>Data\<close>

record osv_query =
  oq_Name :: string
  oq_Ecosystem :: string
  oq_Version :: string

record osv_affected =
  oa_Name :: string
  oa_Ecosystem :: string
  oa_Ranges :: "(string \<times> (string \<rightharpoonup> string) list) list"

record osv_vuln =
  vu_ID :: string
  vu_Aliases :: "string list"
  vu_Severity :: "(string \<times> string) list"
  vu_Affected :: "osv_affected list"
  vu_Published :: string

record osv_io =
  post_json :: "string \<Rightarrow> osv_query list \<Rightarrow> string + string"
  get_json :: "string \<Rightarrow> string + string"
  dec_batch :: "string \<Rightarrow> string + string list list"
  dec_vuln :: "string \<Rightarrow> string + osv_vuln"
  cvss_score :: "string \<Rightarrow> gofloat"
  parse_rfc3339 :: "string \<Rightarrow> string option"

record osv_client =
  cl_BaseURL :: string
  cl_Version :: string

definition NewClient :: "string \<Rightarrow> string \<Rightarrow> osv_client" where
  "NewClient baseURL version =
     \<lparr>cl_BaseURL = trim_suffix (if trim_space baseURL = [] then ''https://api.osv.dev'' else baseURL) ''/'',
      cl_Version = version\<rparr>"

definition osvMaxBatchSize :: nat where
  "osvMaxBatchSize = 1000"

section \<open>Lists\<close>

text \<open>A chunk size of 0, which never occurs, would make the loop of the code run forever.\<close>

function chunkDeps :: "dependency list \<Rightarrow> nat \<Rightarrow> dependency list list" where
  "chunkDeps deps n = (if deps = [] \<or> n = 0 then []
     else take n deps # chunkDeps (drop n deps) n)"
  by pat_completeness auto
termination
  by (relation "measure (\<lambda>(deps, n). length deps)") auto

declare chunkDeps.simps [simp del]

definition flattenIDs :: "string list list \<Rightarrow> string list" where
  "flattenIDs perQuery = concat perQuery"

fun dedupe_from :: "string set \<Rightarrow> string list \<Rightarrow> string list" where
  "dedupe_from seen [] = []"
| "dedupe_from seen (i # ids) =
     (if i = [] then dedupe_from seen ids
      else if i \<in> seen then dedupe_from seen ids
      else i # dedupe_from (insert i seen) ids)"

definition dedupe :: "string list \<Rightarrow> string list" where
  "dedupe ids = dedupe_from {} ids"

section \<open>Requests\<close>

definition query_of :: "dependency \<Rightarrow> osv_query" where
  "query_of d = \<lparr>oq_Name = dep_Name d, oq_Ecosystem = OSVEcosystem (dep_Ecosystem d), oq_Version = dep_Version d\<rparr>"

text \<open>One chunk: the results the server returned, cut or padded to the chunk.\<close>

definition queryBatchIndexed :: "osv_io \<Rightarrow> osv_client \<Rightarrow> dependency list \<Rightarrow> string + string list list" where
  "queryBatchIndexed io c chunk = (case post_json io (cl_BaseURL c @ ''/v1/querybatch'') (map query_of chunk) of
      Inl e \<Rightarrow> Inl e
    | Inr body \<Rightarrow> (case dec_batch io body of
        Inl e \<Rightarrow> Inl (''osv: decode querybatch: '' @ e)
      | Inr results \<Rightarrow> Inr (map (\<lambda>i. if i < length results then results ! i else []) [0..<length chunk])))"

fun first_CVE_alias :: "string list \<Rightarrow> string" where
  "first_CVE_alias [] = []"
| "first_CVE_alias (a # rest) = (if has_prefix a ''CVE-'' then a else first_CVE_alias rest)"

definition event_of :: "(string \<rightharpoonup> string) \<Rightarrow> range_event" where
  "event_of e = \<lparr>re_Introduced = (case e ''introduced'' of Some v \<Rightarrow> v | None \<Rightarrow> []),
                 re_Fixed = (case e ''fixed'' of Some v \<Rightarrow> v | None \<Rightarrow> [])\<rparr>"

definition hydrateOne :: "osv_io \<Rightarrow> osv_client \<Rightarrow> string \<Rightarrow> string + advisory" where
  "hydrateOne io c vid = (case get_json io (cl_BaseURL c @ ''/v1/vulns/'' @ vid) of
      Inl e \<Rightarrow> Inl e
    | Inr body \<Rightarrow> (case dec_vuln io body of
        Inl e \<Rightarrow> Inl (''osv: decode vuln '' @ vid @ '': '' @ e)
      | Inr v \<Rightarrow> Inr \<lparr>adv_ID = vu_ID v, adv_Source = ''osv'', adv_CVEID = first_CVE_alias (vu_Aliases v),
          adv_Aliases = vu_Aliases v,
          adv_Severity = (case vu_Severity v of [] \<Rightarrow> [] | (ty, _) # _ \<Rightarrow> ty),
          adv_CVSS = (case vu_Severity v of [] \<Rightarrow> Fin 0 | (_, score) # _ \<Rightarrow> cvss_score io score),
          adv_Affected = map (\<lambda>aff. \<lparr>ap_Ecosystem = oa_Ecosystem aff, ap_Name = oa_Name aff,
             ap_Ranges = map (\<lambda>(ty, evs). \<lparr>ar_Type = ty, ar_Events = map event_of evs\<rparr>) (oa_Ranges aff)\<rparr>)
             (vu_Affected v),
          adv_Published = (if vu_Published v = [] then None else parse_rfc3339 io (vu_Published v)),
          adv_Raw = body\<rparr>))"

text \<open>Hydration: failures are skipped, \<open>arrive\<close> is the order in which the workers finish.\<close>

definition hydrate ::
  "osv_io \<Rightarrow> osv_client \<Rightarrow> (advisory list \<Rightarrow> advisory list) \<Rightarrow> string list \<Rightarrow> advisory list" where
  "hydrate io c arrive ids = arrive (List.map_filter
     (\<lambda>i. case hydrateOne io c i of Inl _ \<Rightarrow> None | Inr a \<Rightarrow> Some a) ids)"

section \<open>Queries\<close>

definition queryable :: "dependency \<Rightarrow> bool" where
  "queryable d \<longleftrightarrow> trim_space (dep_Name d) \<noteq> [] \<and> trim_space (dep_Version d) \<noteq> [] \<and>
     OSVEcosystem (dep_Ecosystem d) \<noteq> []"

fun query_chunks :: "osv_io \<Rightarrow> osv_client \<Rightarrow> dependency list list \<Rightarrow> string + string list list" where
  "query_chunks io c [] = Inr []"
| "query_chunks io c (ch # chs) = (case queryBatchIndexed io c ch of
      Inl e \<Rightarrow> Inl e
    | Inr ids \<Rightarrow> (case query_chunks io c chs of Inl e \<Rightarrow> Inl e | Inr rest \<Rightarrow> Inr (ids @ rest)))"

definition index_advisories :: "advisory list \<Rightarrow> string \<rightharpoonup> advisory" where
  "index_advisories hydrated = fold (\<lambda>a m. m(adv_ID a \<mapsto> a)) hydrated Map.empty"

definition hits_of :: "(string \<rightharpoonup> advisory) \<Rightarrow> dependency \<Rightarrow> string list \<Rightarrow> query_hit list" where
  "hits_of byID dep ids = List.map_filter (\<lambda>i. map_option (\<lambda>a. \<lparr>qh_Dependency = dep, qh_Advisory = a\<rparr>) (byID i)) ids"

definition QueryBatchWithDeps ::
  "osv_io \<Rightarrow> osv_client \<Rightarrow> (advisory list \<Rightarrow> advisory list) \<Rightarrow> dependency list \<Rightarrow> string + query_hit list" where
  "QueryBatchWithDeps io c arrive deps =
     (let qs = filter queryable deps in
      case query_chunks io c (chunkDeps qs osvMaxBatchSize) of
        Inl e \<Rightarrow> Inl e
      | Inr perQuery \<Rightarrow>
          (let byID = index_advisories (hydrate io c arrive (dedupe (flattenIDs perQuery)))
           in Inr (concat (map (\<lambda>(dep, ids). hits_of byID dep ids) (zip qs perQuery)))))"

fun unique_advisories :: "string set \<Rightarrow> query_hit list \<Rightarrow> advisory list" where
  "unique_advisories seen [] = []"
| "unique_advisories seen (h # hs) =
     (if adv_ID (qh_Advisory h) = [] then unique_advisories seen hs
      else if adv_ID (qh_Advisory h) \<in> seen then unique_advisories seen hs
      else qh_Advisory h # unique_advisories (insert (adv_ID (qh_Advisory h)) seen) hs)"

definition Query ::
  "osv_io \<Rightarrow> osv_client \<Rightarrow> (advisory list \<Rightarrow> advisory list) \<Rightarrow> dependency list \<Rightarrow> string + advisory list" where
  "Query io c arrive deps = (case QueryBatchWithDeps io c arrive deps of
      Inl e \<Rightarrow> Inl e
    | Inr hits \<Rightarrow> Inr (unique_advisories {} hits))"

section \<open>Specifications\<close>

text \<open>The documented behaviour of the batch endpoint: one result per query, in their order,
  each depending on its query alone.\<close>

definition answers_with :: "osv_io \<Rightarrow> (osv_query \<Rightarrow> string list) \<Rightarrow> bool" where
  "answers_with io answer \<longleftrightarrow>
     (\<forall>url qs. \<exists>body. post_json io url qs = Inr body \<and> dec_batch io body = Inr (map answer qs))"

text \<open>Every record the server returns carries the identifier it was asked for.\<close>

definition echoes_ids :: "osv_io \<Rightarrow> osv_client \<Rightarrow> bool" where
  "echoes_ids io c \<longleftrightarrow> (\<forall>i a. hydrateOne io c i = Inr a \<longrightarrow> adv_ID a = i)"

text \<open>The hits a set of dependencies should get, without chunks, pools or indexes.\<close>

definition expected_hits :: "osv_io \<Rightarrow> osv_client \<Rightarrow> (osv_query \<Rightarrow> string list) \<Rightarrow> dependency \<Rightarrow> query_hit list" where
  "expected_hits io c answer dep = List.map_filter (\<lambda>i. if i = [] then None else
     (case hydrateOne io c i of Inl _ \<Rightarrow> None | Inr a \<Rightarrow> Some \<lparr>qh_Dependency = dep, qh_Advisory = a\<rparr>))
     (answer (query_of dep))"

text \<open>A server that answers every query with one identifier and echoes records, for concrete
  instances.\<close>

definition sample_io :: osv_io where
  "sample_io = \<lparr>post_json = (\<lambda>url qs. Inr (map (\<lambda>_. CHR ''x'') qs)), get_json = Inr,
     dec_batch = (\<lambda>body. Inr (map (\<lambda>_. [''GHSA-1'']) body)),
     dec_vuln = (\<lambda>body. Inr \<lparr>vu_ID = drop 10 body, vu_Aliases = [], vu_Severity = [], vu_Affected = [],
        vu_Published = []\<rparr>),
     cvss_score = (\<lambda>_. Fin 0), parse_rfc3339 = Some\<rparr>"

definition sample_client :: osv_client where
  "sample_client = \<lparr>cl_BaseURL = [], cl_Version = ''1''\<rparr>"

section \<open>Lemmas\<close>

lemma chunkDeps_concat: "n \<noteq> 0 \<Longrightarrow> concat (chunkDeps deps n) = deps"
  by (induction deps n rule: chunkDeps.induct) (subst chunkDeps.simps, simp)

lemma chunkDeps_bound: "ch \<in> set (chunkDeps deps n) \<Longrightarrow> length ch \<le> n \<and> ch \<noteq> []"
proof (induction deps n rule: chunkDeps.induct)
  case (1 deps n)
  then show ?case
    by (cases "deps = [] \<or> n = 0") (simp_all add: chunkDeps.simps [of deps n], auto)
qed

interpretation ids: first_occurrence dedupe_from "\<lambda>i. i" "\<lambda>i. i" "\<lambda>i. i" "\<lambda>i. i = []"
  by unfold_locales auto

interpretation advisories: first_occurrence unique_advisories "\<lambda>h. adv_ID (qh_Advisory h)" qh_Advisory adv_ID "\<lambda>i. i = []"
  by unfold_locales auto

lemma set_dedupe: "set (dedupe ids) = {i \<in> set ids. i \<noteq> []}"
  using ids.keys_run [of "{}" ids] by (simp add: dedupe_def)

lemma distinct_dedupe: "distinct (dedupe ids)"
  using ids.distinct_run [of "{}" ids] by (simp add: dedupe_def)

lemma queryBatch_length: "queryBatchIndexed io c ch = Inr ids \<Longrightarrow> length ids = length ch"
  by (auto simp: queryBatchIndexed_def split: sum.splits)

lemma query_chunks_length:
  "query_chunks io c chs = Inr ids \<Longrightarrow> length ids = length (concat chs)"
  by (induction chs arbitrary: ids) (auto split: sum.splits dest: queryBatch_length)

lemma queryBatch_answers:
  assumes "answers_with io answer"
  shows "queryBatchIndexed io c ch = Inr (map (\<lambda>d. answer (query_of d)) ch)"
proof -
  obtain body where "post_json io (cl_BaseURL c @ ''/v1/querybatch'') (map query_of ch) = Inr body"
    "dec_batch io body = Inr (map answer (map query_of ch))"
    using assms unfolding answers_with_def by blast
  then show ?thesis
    by (simp add: queryBatchIndexed_def o_def) (rule nth_equalityI; simp)
qed

lemma query_chunks_answers:
  "answers_with io answer \<Longrightarrow>
   query_chunks io c chs = Inr (map (\<lambda>d. answer (query_of d)) (concat chs))"
  by (induction chs) (simp_all add: queryBatch_answers)

lemma index_advisories_map_of: "index_advisories xs = map_of (map (\<lambda>a. (adv_ID a, a)) (rev xs))"
proof -
  have "fold (\<lambda>a m. m(adv_ID a \<mapsto> a)) xs m = m ++ map_of (map (\<lambda>a. (adv_ID a, a)) (rev xs))" for m
    by (induction xs arbitrary: m) (simp_all add: map_add_def fun_eq_iff split: option.split)
  then show ?thesis by (simp add: index_advisories_def)
qed

lemma index_advisories_distinct:
  assumes "distinct (map adv_ID xs)"
  shows "index_advisories xs i = Some a \<longleftrightarrow> a \<in> set xs \<and> adv_ID a = i"
proof -
  have "distinct (map fst (map (\<lambda>a. (adv_ID a, a)) (rev xs)))"
    using assms by (simp add: o_def rev_map [symmetric])
  from map_of_eq_Some_iff [OF this] show ?thesis by (auto simp: index_advisories_map_of)
qed

lemma option_eq_by_Some: "(\<And>a. x = Some a \<longleftrightarrow> y = Some a) \<Longrightarrow> x = y"
  by (cases x; cases y) auto

lemma map_filter_cong_on: "(\<And>x. x \<in> set xs \<Longrightarrow> f x = g x) \<Longrightarrow> List.map_filter f xs = List.map_filter g xs"
  by (induction xs) (auto simp: List.map_filter_def)

text \<open>What hydration finds, in any order of arrival.\<close>

lemma hydrate_index:
  assumes "mset (arrive xs) = mset xs" "echoes_ids io c" "distinct ids"
    and "xs = List.map_filter (\<lambda>i. case hydrateOne io c i of Inl _ \<Rightarrow> None | Inr a \<Rightarrow> Some a) ids"
  shows "index_advisories (arrive xs) i = (if i \<in> set ids then
     (case hydrateOne io c i of Inl _ \<Rightarrow> None | Inr a \<Rightarrow> Some a) else None)"
proof -
  have sx: "set xs = {a. \<exists>j \<in> set ids. hydrateOne io c j = Inr a}"
    by (force simp: assms(4) List.map_filter_def split: sum.splits)
  have "map adv_ID xs = filter (\<lambda>j. \<exists>a. hydrateOne io c j = Inr a) ids"
    using assms(2) unfolding assms(4)
    by (induction ids) (auto simp: List.map_filter_def echoes_ids_def split: sum.splits)
  then have "distinct (map adv_ID xs)" using assms(3) by simp
  moreover have "mset (map adv_ID (arrive xs)) = mset (map adv_ID xs)" using assms(1) by simp
  ultimately have "distinct (map adv_ID (arrive xs))" by (metis mset_eq_imp_distinct_iff)
  moreover have "set (arrive xs) = set xs" using assms(1) by (rule mset_eq_setD)
  ultimately have iff: "index_advisories (arrive xs) i = Some a \<longleftrightarrow> (i \<in> set ids \<and> hydrateOne io c i = Inr a)" for a
    using index_advisories_distinct [of "arrive xs" i a] sx assms(2) by (auto simp: echoes_ids_def)
  show ?thesis by (rule option_eq_by_Some) (simp add: iff split: sum.split)
qed

lemma hits_of_expected:
  assumes "\<And>i. i \<in> set (answer (query_of d)) \<Longrightarrow> byID i =
    (if i = [] then None else case hydrateOne io c i of Inl _ \<Rightarrow> None | Inr a \<Rightarrow> Some a)"
  shows "hits_of byID d (answer (query_of d)) = expected_hits io c answer d"
  unfolding hits_of_def expected_hits_def
  by (rule map_filter_cong_on) (simp add: assms split: sum.split)

lemma sample_io_answers: "answers_with sample_io (\<lambda>_. [''GHSA-1''])"
  by (simp add: answers_with_def sample_io_def o_def)

lemma sample_io_echoes: "echoes_ids sample_io sample_client"
  by (auto simp: echoes_ids_def hydrateOne_def sample_io_def sample_client_def)

section \<open>Properties\<close>

text \<open>Chunks of a thousand queries, the padding of short answers, the deduplication of
  identifiers and the worker pool are invisible: for a server that answers each query on its
  own and echoes identifiers, the hits are those of each queryable dependency in turn, in
  whatever order the workers finish, and no dependency gets the answer of another.\<close>

theorem QueryBatchWithDeps_expected:
  assumes "answers_with io answer" "echoes_ids io c" "\<And>xs. mset (arrive xs) = mset xs"
  shows "QueryBatchWithDeps io c arrive deps =
    Inr (concat (map (expected_hits io c answer) (filter queryable deps)))"
proof -
  let ?qs = "filter queryable deps" and ?answer = "\<lambda>d. answer (query_of d)"
  define ids where "ids = dedupe (flattenIDs (map ?answer ?qs))"
  have ids: "i \<in> set ids \<longleftrightarrow> i \<noteq> [] \<and> (\<exists>d \<in> set ?qs. i \<in> set (?answer d))" for i
    by (auto simp: ids_def set_dedupe flattenIDs_def)
  have chunks: "query_chunks io c (chunkDeps ?qs osvMaxBatchSize) = Inr (map ?answer ?qs)"
    using query_chunks_answers [OF assms(1)] by (simp add: osvMaxBatchSize_def chunkDeps_concat)
  have byID: "index_advisories (hydrate io c arrive ids) i = (if i \<in> set ids then
     (case hydrateOne io c i of Inl _ \<Rightarrow> None | Inr a \<Rightarrow> Some a) else None)" for i
    unfolding hydrate_def by (rule hydrate_index) (use assms(2,3) distinct_dedupe ids_def in blast)+
  have hit: "hits_of (index_advisories (hydrate io c arrive ids)) d (?answer d) = expected_hits io c answer d"
    if "d \<in> set ?qs" for d
    by (rule hits_of_expected) (use that in \<open>auto simp: byID ids\<close>)
  have maps: "map (\<lambda>d. hits_of (index_advisories (hydrate io c arrive ids)) d (?answer d)) ?qs =
      map (expected_hits io c answer) ?qs"
    by (rule map_cong [OF refl]) (rule hit)
  have "QueryBatchWithDeps io c arrive deps =
      Inr (concat (map (\<lambda>d. hits_of (index_advisories (hydrate io c arrive ids)) d (?answer d)) ?qs))"
    by (simp add: QueryBatchWithDeps_def Let_def chunks ids_def [symmetric] zip_map2 zip_same_conv_map o_def)
  then show ?thesis by (simp only: maps)
qed

theorem QueryBatchWithDeps_expected_witness:
  "QueryBatchWithDeps sample_io sample_client rev [sample_dep] =
   Inr (expected_hits sample_io sample_client (\<lambda>_. [''GHSA-1'']) sample_dep)"
proof -
  have "queryable sample_dep" by code_simp
  then show ?thesis
    using QueryBatchWithDeps_expected [OF sample_io_answers sample_io_echoes, of rev "[sample_dep]"] by simp
qed

text \<open>\<^verbatim>\<open>Query\<close> returns every advisory once: the identifiers are distinct and non-empty, they
  are exactly the non-empty ones among the hits, and the advisories keep the order of their
  first hits.\<close>

theorem Query_unique:
  assumes "Query io c arrive deps = Inr advs"
  shows "\<exists>hits. QueryBatchWithDeps io c arrive deps = Inr hits \<and> distinct (map adv_ID advs) \<and>
    adv_ID ` set advs = {i \<in> (\<lambda>h. adv_ID (qh_Advisory h)) ` set hits. i \<noteq> []} \<and>
    subseq advs (map qh_Advisory hits)"
proof -
  obtain hits where h: "QueryBatchWithDeps io c arrive deps = Inr hits" "advs = unique_advisories {} hits"
    using assms by (auto simp: Query_def split: sum.splits)
  then show ?thesis
    using advisories.distinct_run [of "{}" hits] advisories.keys_run [of "{}" hits]
      advisories.subseq_run [of "{}" hits] by auto
qed

theorem Query_unique_witness:
  "\<exists>advs. Query sample_io sample_client rev [sample_dep, sample_dep] = Inr advs \<and> distinct (map adv_ID advs)"
proof -
  have "Query sample_io sample_client rev [sample_dep, sample_dep] \<noteq> Inl e" for e
    by (simp add: Query_def QueryBatchWithDeps_def Let_def query_chunks_answers [OF sample_io_answers])
  then obtain advs where "Query sample_io sample_client rev [sample_dep, sample_dep] = Inr advs"
    by (meson sumE)
  with Query_unique [OF this] show ?thesis by blast
qed

end
