(* ===== verification/Threat_Store.thy ===== *)
theory Threat_Store
  imports Threat_Osv
begin

text \<open>
  Persistence of threat intelligence (\<^verbatim>\<open>src/internal/repository/threats.go\<close>) and the runtime
  status it promotes (\<^verbatim>\<open>src/internal/threats/track2.go\<close>).  A table is the list of its rows in
  insertion order; a text column that may be NULL is an option.  Whether the database accepts
  a row (foreign keys, checks, the connection) is a parameter; a refused statement ends the
  operation with the rows written so far, as the code has no transaction around them.
\<close>

section \<open>Runtime status\<close>

definition runtimeRank :: "string \<Rightarrow> nat option" where
  "runtimeRank s =
     (if s = ''L0'' then Some 0 else if s = ''L1'' then Some 1 else if s = ''L2'' then Some 2
      else if s = ''L3'' then Some 3 else if s = ''L4'' then Some 4 else None)"

definition DefaultRuntimeStatus :: string where
  "DefaultRuntimeStatus = ''L0''"

definition quote_text :: "string \<Rightarrow> string" where
  "quote_text s = [CHR 0x22] @ s @ [CHR 0x22]"

definition PromoteRuntime :: "string \<Rightarrow> string \<Rightarrow> string + string" where
  "PromoteRuntime old new = (case runtimeRank old of
      None \<Rightarrow> Inl (''invalid source runtime status '' @ quote_text old)
    | Some r \<Rightarrow> (case runtimeRank new of
        None \<Rightarrow> Inl (''invalid target runtime status '' @ quote_text new)
      | Some r' \<Rightarrow>
          if r' < r then Inl (''runtime status downgrade forbidden: '' @ quote_text old @ '' -> '' @ quote_text new)
          else Inr new))"

section \<open>Rows\<close>

definition nullif_empty :: "string \<Rightarrow> string option" where
  "nullif_empty s = (if s = [] then None else Some s)"

definition coalesce :: "string option \<Rightarrow> string" where
  "coalesce x = (case x of None \<Rightarrow> [] | Some s \<Rightarrow> s)"

definition non_blank :: "string \<Rightarrow> string option" where
  "non_blank s = (let t = trim_space s in if t \<noteq> [] then Some t else None)"

record dependency_row =
  dr_Ecosystem :: string
  dr_Name :: string
  dr_Version :: string
  dr_SourceFile :: "string option"

record advisory_row =
  arow_ID :: string
  arow_Source :: string
  arow_CVEID :: "string option"
  arow_Ecosystem :: "string option"
  arow_PkgName :: "string option"
  arow_Ranges :: "affected_package list option"
  arow_Severity :: "string option"
  arow_KEV :: bool
  arow_Published :: "string option"
  arow_Raw :: "string option"

record threat_hit =
  tht_AdvisoryID :: string
  tht_PkgName :: string
  tht_PkgVersion :: string
  tht_Inventory :: string
  tht_Runtime :: string
  tht_Match :: string
  tht_Evidence :: string

record hit_row =
  hr_AdvisoryID :: string
  hr_PkgName :: "string option"
  hr_PkgVersion :: "string option"
  hr_Inventory :: string
  hr_Runtime :: string
  hr_Match :: string
  hr_Evidence :: "string option"

section \<open>The dependency snapshot and the advisories\<close>

definition dependency_row_of :: "dependency \<Rightarrow> dependency_row" where
  "dependency_row_of d = \<lparr>dr_Ecosystem = dep_Ecosystem d, dr_Name = dep_Name d, dr_Version = dep_Version d,
     dr_SourceFile = (if trim_space (dep_SourceFile d) \<noteq> [] then Some (dep_SourceFile d) else None)\<rparr>"

text \<open>One transaction: the old snapshot stays when a statement is refused.\<close>

definition UpsertDependencies ::
  "(dependency_row \<Rightarrow> bool) \<Rightarrow> dependency list \<Rightarrow> dependency_row list \<Rightarrow> (string + unit) \<times> dependency_row list" where
  "UpsertDependencies ok deps old =
     (let rows = map dependency_row_of
        (filter (\<lambda>d. trim_space (dep_Name d) \<noteq> [] \<and> trim_space (dep_Version d) \<noteq> []) deps)
      in if list_all ok rows then (Inr (), rows) else (Inl ''upsert dependencies insert'', old))"

definition normalizeThreatSeverity :: "string \<Rightarrow> gofloat \<Rightarrow> string" where
  "normalizeThreatSeverity sev cvss =
     (if ge_const cvss 9 then ''critical''
      else if ge_const cvss 7 then ''high''
      else if ge_const cvss 4 then ''medium''
      else if gt_const cvss 0 then ''low''
      else (let s = to_lower (trim_space sev) in
        if s \<in> {''critical'', ''high'', ''medium'', ''low'', ''info''} then s else ''info''))"

definition advisory_row_of :: "(string \<Rightarrow> string list \<Rightarrow> bool) option \<Rightarrow> advisory \<Rightarrow> advisory_row" where
  "advisory_row_of isKEV a =
     \<lparr>arow_ID = adv_ID a, arow_Source = adv_Source a, arow_CVEID = nullif_empty (adv_CVEID a),
      arow_Ecosystem = (case adv_Affected a of [] \<Rightarrow> None | ap # _ \<Rightarrow> non_blank (ap_Ecosystem ap)),
      arow_PkgName = (case adv_Affected a of [] \<Rightarrow> None | ap # _ \<Rightarrow> non_blank (ap_Name ap)),
      arow_Ranges = (if adv_Affected a \<noteq> [] then Some (adv_Affected a) else None),
      arow_Severity = nullif_empty (normalizeThreatSeverity (adv_Severity a) (adv_CVSS a)),
      arow_KEV = (case isKEV of None \<Rightarrow> False | Some f \<Rightarrow> f (adv_CVEID a) (adv_Aliases a)),
      arow_Published = adv_Published a,
      arow_Raw = nullif_empty (adv_Raw a)\<rparr>"

text \<open>The advisory table by primary key.  An insert on an existing key overwrites every
  column.\<close>

fun UpsertAdvisories ::
  "(advisory_row \<Rightarrow> bool) \<Rightarrow> (string \<Rightarrow> string list \<Rightarrow> bool) option \<Rightarrow> advisory list \<Rightarrow>
   (string \<rightharpoonup> advisory_row) \<Rightarrow> (string + unit) \<times> (string \<rightharpoonup> advisory_row)" where
  "UpsertAdvisories ok isKEV [] tbl = (Inr (), tbl)"
| "UpsertAdvisories ok isKEV (a # rest) tbl =
     (if trim_space (adv_ID a) = [] then UpsertAdvisories ok isKEV rest tbl
      else (let row = advisory_row_of isKEV a in
        if ok row then UpsertAdvisories ok isKEV rest (tbl(arow_ID row \<mapsto> row))
        else (Inl (''upsert advisory '' @ adv_ID a), tbl)))"

section \<open>Reconciling hits\<close>

record prior_row =
  pr_inventory :: string
  pr_runtime :: string
  pr_match :: string

definition reconcileKey :: "string \<Rightarrow> string \<Rightarrow> string \<Rightarrow> string" where
  "reconcileKey advisoryID pkgName pkgVersion = advisoryID @ [CHR 0x00] @ pkgName @ [CHR 0x00] @ pkgVersion"

definition row_key :: "hit_row \<Rightarrow> string" where
  "row_key r = reconcileKey (hr_AdvisoryID r) (coalesce (hr_PkgName r)) (coalesce (hr_PkgVersion r))"

definition hit_key :: "threat_hit \<Rightarrow> string" where
  "hit_key h = reconcileKey (tht_AdvisoryID h) (tht_PkgName h) (tht_PkgVersion h)"

definition prior_of :: "hit_row \<Rightarrow> prior_row" where
  "prior_of r = \<lparr>pr_inventory = hr_Inventory r, pr_runtime = hr_Runtime r, pr_match = hr_Match r\<rparr>"

definition load_prior :: "hit_row list \<Rightarrow> string \<rightharpoonup> prior_row" where
  "load_prior tbl = fold (\<lambda>r m. m(row_key r \<mapsto> prior_of r)) tbl Map.empty"

text \<open>The unique index \<^verbatim>\<open>uq_threat_hit\<close>: NULL differs from everything, also from NULL.\<close>

definition conflicts :: "hit_row \<Rightarrow> hit_row \<Rightarrow> bool" where
  "conflicts r new \<longleftrightarrow> hr_AdvisoryID r = hr_AdvisoryID new \<and>
     hr_PkgName r \<noteq> None \<and> hr_PkgName r = hr_PkgName new \<and>
     hr_PkgVersion r \<noteq> None \<and> hr_PkgVersion r = hr_PkgVersion new"

definition upsert_hit :: "hit_row \<Rightarrow> hit_row list \<Rightarrow> hit_row list" where
  "upsert_hit new tbl =
     (if list_ex (\<lambda>r. conflicts r new) tbl
      then map (\<lambda>r. if conflicts r new
             then r\<lparr>hr_Inventory := hr_Inventory new, hr_Runtime := hr_Runtime new, hr_Match := hr_Match new,
                    hr_Evidence := (case hr_Evidence new of Some e \<Rightarrow> Some e | None \<Rightarrow> hr_Evidence r)\<rparr>
             else r) tbl
      else tbl @ [new])"

definition with_defaults :: "threat_hit \<Rightarrow> threat_hit" where
  "with_defaults h = h\<lparr>
     tht_Inventory := (if tht_Inventory h = [] then ''declared'' else tht_Inventory h),
     tht_Runtime := (if tht_Runtime h = [] then ''L0'' else tht_Runtime h),
     tht_Match := (if tht_Match h = [] then ''unconfirmed'' else tht_Match h)\<rparr>"

definition final_runtime :: "prior_row option \<Rightarrow> string \<Rightarrow> string" where
  "final_runtime prev runtime = (case prev of
      None \<Rightarrow> runtime
    | Some p \<Rightarrow> (case PromoteRuntime (pr_runtime p) runtime of Inr promoted \<Rightarrow> promoted | Inl _ \<Rightarrow> pr_runtime p))"

definition hit_row_of :: "threat_hit \<Rightarrow> hit_row" where
  "hit_row_of h = \<lparr>hr_AdvisoryID = tht_AdvisoryID h, hr_PkgName = nullif_empty (tht_PkgName h),
     hr_PkgVersion = nullif_empty (tht_PkgVersion h), hr_Inventory = tht_Inventory h,
     hr_Runtime = tht_Runtime h, hr_Match = tht_Match h, hr_Evidence = nullif_empty (tht_Evidence h)\<rparr>"

fun reconcile_loop ::
  "(hit_row \<Rightarrow> bool) \<Rightarrow> threat_hit list \<Rightarrow> (string \<rightharpoonup> prior_row) \<Rightarrow> hit_row list \<Rightarrow> threat_hit list \<Rightarrow>
   (string + threat_hit list) \<times> hit_row list" where
  "reconcile_loop ok [] prior tbl fresh = (Inr fresh, tbl)"
| "reconcile_loop ok (h0 # hs) prior tbl fresh =
     (if trim_space (tht_AdvisoryID h0) = [] then reconcile_loop ok hs prior tbl fresh
      else (let h1 = with_defaults h0;
                prev = prior (hit_key h1);
                h = h1\<lparr>tht_Runtime := final_runtime prev (tht_Runtime h1)\<rparr>;
                row = hit_row_of h
            in if \<not> ok row then (Inl (''reconcile inventory hit '' @ tht_AdvisoryID h0), tbl)
               else reconcile_loop ok hs (prior(hit_key h \<mapsto> prior_of row)) (upsert_hit row tbl)
                 (case prev of
                    None \<Rightarrow> fresh @ [h]
                  | Some p \<Rightarrow> if pr_inventory p \<noteq> tht_Inventory h \<or> pr_match p \<noteq> tht_Match h
                      then fresh @ [h] else fresh)))"

definition ReconcileHits ::
  "(hit_row \<Rightarrow> bool) \<Rightarrow> threat_hit list \<Rightarrow> hit_row list \<Rightarrow> (string + threat_hit list) \<times> hit_row list" where
  "ReconcileHits ok hits tbl = reconcile_loop ok hits (load_prior tbl) tbl []"

definition InsertHits ::
  "(hit_row \<Rightarrow> bool) \<Rightarrow> threat_hit list \<Rightarrow> hit_row list \<Rightarrow> (string + unit) \<times> hit_row list" where
  "InsertHits ok hits tbl = (case ReconcileHits ok hits tbl of
      (Inl e, t) \<Rightarrow> (Inl e, t)
    | (Inr _, t) \<Rightarrow> (Inr (), t))"

section \<open>Specifications\<close>

text \<open>Texts of the database hold no NUL byte, and an empty package field is stored as NULL.\<close>

definition clean_text :: "string \<Rightarrow> bool" where
  "clean_text s \<longleftrightarrow> CHR 0x00 \<notin> set s"

definition clean_row :: "hit_row \<Rightarrow> bool" where
  "clean_row r \<longleftrightarrow> clean_text (hr_AdvisoryID r) \<and>
     clean_text (coalesce (hr_PkgName r)) \<and> clean_text (coalesce (hr_PkgVersion r)) \<and>
     hr_PkgName r \<noteq> Some [] \<and> hr_PkgVersion r \<noteq> Some []"

definition clean_table :: "hit_row list \<Rightarrow> bool" where
  "clean_table tbl \<longleftrightarrow> list_all clean_row tbl"

definition clean_hit :: "threat_hit \<Rightarrow> bool" where
  "clean_hit h \<longleftrightarrow> clean_text (tht_AdvisoryID h) \<and> clean_text (tht_PkgName h) \<and> clean_text (tht_PkgVersion h)"

definition rank_le :: "string \<Rightarrow> string \<Rightarrow> bool" where
  "rank_le a b \<longleftrightarrow> (case (runtimeRank a, runtimeRank b) of (Some x, Some y) \<Rightarrow> x \<le> y | _ \<Rightarrow> a = b)"

text \<open>Hits with one key agree on their verdicts.\<close>

definition consistent_hits :: "threat_hit list \<Rightarrow> bool" where
  "consistent_hits hits \<longleftrightarrow> (\<forall>g \<in> set hits. \<forall>h \<in> set hits. hit_key g = hit_key h \<longrightarrow>
     tht_Inventory (with_defaults g) = tht_Inventory (with_defaults h) \<and>
     tht_Match (with_defaults g) = tht_Match (with_defaults h))"

text \<open>What the loop leaves behind: the verdicts of the hits, and everything else as it was.\<close>

definition settled :: "(string \<rightharpoonup> prior_row) \<Rightarrow> threat_hit \<Rightarrow> bool" where
  "settled prior h \<longleftrightarrow> trim_space (tht_AdvisoryID h) = [] \<or>
     (\<exists>p. prior (hit_key h) = Some p \<and> pr_inventory p = tht_Inventory (with_defaults h) \<and>
          pr_match p = tht_Match (with_defaults h))"

text \<open>The table as a machine: it starts empty, and every reconciliation is a step.\<close>

definition hits_step :: "hit_row list \<Rightarrow> hit_row list \<Rightarrow> bool" where
  "hits_step tbl tbl' \<longleftrightarrow> (\<exists>ok hits. list_all clean_hit hits \<and> tbl' = snd (ReconcileHits ok hits tbl))"

definition sample_hit :: threat_hit where
  "sample_hit = \<lparr>tht_AdvisoryID = ''GHSA-1'', tht_PkgName = ''lodash'', tht_PkgVersion = ''4.17.0'',
     tht_Inventory = ''declared'', tht_Runtime = ''L2'', tht_Match = [], tht_Evidence = []\<rparr>"

section \<open>Lemmas\<close>

lemma nul_split:
  "clean_text a \<Longrightarrow> clean_text b \<Longrightarrow> a @ CHR 0x00 # x = b @ CHR 0x00 # y \<longleftrightarrow> a = b \<and> x = y"
proof (induction a arbitrary: b)
  case Nil
  then show ?case by (cases b) (auto simp: clean_text_def)
next
  case (Cons c a)
  then show ?case by (cases b) (auto simp: clean_text_def)
qed

lemma reconcileKey_inj:
  assumes "clean_text a" "clean_text n" "clean_text a'" "clean_text n'"
  shows "reconcileKey a n v = reconcileKey a' n' v' \<longleftrightarrow> a = a' \<and> n = n' \<and> v = v'"
  using assms by (auto simp: reconcileKey_def nul_split)

lemma coalesce_nullif [simp]: "coalesce (nullif_empty s) = s"
  by (simp add: coalesce_def nullif_empty_def)

lemma row_key_hit [simp]: "row_key (hit_row_of h) = hit_key h"
  by (simp add: row_key_def hit_row_of_def hit_key_def)

lemma hit_key_fields [simp]:
  "hit_key (with_defaults h) = hit_key h" "hit_key (h\<lparr>tht_Runtime := r\<rparr>) = hit_key h"
  by (simp_all add: hit_key_def with_defaults_def)

lemma clean_hit_row: "clean_hit h \<Longrightarrow> clean_row (hit_row_of h)"
  by (simp add: clean_hit_def clean_row_def hit_row_of_def) (simp add: nullif_empty_def)

lemma clean_hit_fields [simp]:
  "clean_hit (with_defaults h) = clean_hit h" "clean_hit (h\<lparr>tht_Runtime := r\<rparr>) = clean_hit h"
  by (simp_all add: clean_hit_def with_defaults_def)

lemma conflicts_key: "conflicts r new \<Longrightarrow> row_key r = row_key new"
  by (auto simp: conflicts_def row_key_def)

lemma key_conflicts:
  assumes "clean_row r" "clean_row new" "row_key r = row_key new"
  shows "hr_AdvisoryID r = hr_AdvisoryID new \<and> hr_PkgName r = hr_PkgName new \<and> hr_PkgVersion r = hr_PkgVersion new"
proof -
  have "hr_AdvisoryID r = hr_AdvisoryID new" "coalesce (hr_PkgName r) = coalesce (hr_PkgName new)"
    "coalesce (hr_PkgVersion r) = coalesce (hr_PkgVersion new)"
    using assms by (auto simp: row_key_def clean_row_def reconcileKey_inj)
  moreover have "x = y" if "coalesce x = coalesce y" "x \<noteq> Some []" "y \<noteq> Some []" for x y
    using that by (cases x; cases y) (auto simp: coalesce_def)
  ultimately show ?thesis using assms(1,2) by (auto simp: clean_row_def)
qed

lemma load_prior_append: "load_prior (tbl @ [r]) = (load_prior tbl)(row_key r \<mapsto> prior_of r)"
  by (simp add: load_prior_def)

lemma load_prior_update:
  assumes "\<And>r. r \<in> set tbl \<Longrightarrow> row_key r = k \<longleftrightarrow> P r"
    and "\<And>r. r \<in> set tbl \<Longrightarrow> P r \<Longrightarrow> row_key (f r) = k \<and> prior_of (f r) = p"
    and "list_ex P tbl"
  shows "load_prior (map (\<lambda>r. if P r then f r else r) tbl) = (load_prior tbl)(k \<mapsto> p)"
  using assms
proof (induction tbl rule: rev_induct)
  case (snoc r tbl)
  show ?case
  proof (cases "list_ex P tbl")
    case True
    have "load_prior (map (\<lambda>r. if P r then f r else r) tbl) = (load_prior tbl)(k \<mapsto> p)"
      by (rule snoc.IH) (use snoc.prems True in auto)
    moreover have "row_key r = k \<longleftrightarrow> P r" using snoc.prems(1) by simp
    moreover have "P r \<Longrightarrow> row_key (f r) = k \<and> prior_of (f r) = p" using snoc.prems(2) by simp
    ultimately show ?thesis
      by (cases "P r") (auto simp: load_prior_append fun_upd_twist [of k "row_key r"])
  next
    case False
    then have "map (\<lambda>r. if P r then f r else r) tbl = tbl"
      by (auto simp: list_ex_iff intro: map_idI)
    moreover have "P r" using False snoc.prems(3) by simp
    ultimately show ?thesis using snoc.prems(1,2) [of r] by (auto simp: load_prior_append fun_eq_iff)
  qed
qed simp

lemma load_prior_upsert:
  assumes "clean_table tbl" "clean_row row"
  shows "load_prior (upsert_hit row tbl) = (load_prior tbl)(row_key row \<mapsto> prior_of row)"
proof (cases "list_ex (\<lambda>r. conflicts r row) tbl")
  case True
  then obtain r0 where r0: "r0 \<in> set tbl" "conflicts r0 row" by (auto simp: list_ex_iff)
  have "row_key r = row_key row \<longleftrightarrow> conflicts r row" if "r \<in> set tbl" for r
  proof
    assume "row_key r = row_key row"
    moreover have "clean_row r" using that assms(1) by (simp add: clean_table_def list_all_iff)
    ultimately show "conflicts r row"
      using key_conflicts [of r row] assms(2) r0(2) unfolding conflicts_def by metis
  qed (rule conflicts_key)
  then show ?thesis
    using True conflicts_key unfolding upsert_hit_def
    by (simp) (rule load_prior_update; force simp: row_key_def prior_of_def conflicts_def)
qed (simp add: upsert_hit_def load_prior_append)

lemma clean_upsert: "clean_table tbl \<Longrightarrow> clean_row row \<Longrightarrow> clean_table (upsert_hit row tbl)"
  by (auto simp: clean_table_def upsert_hit_def list_all_iff clean_row_def)

lemma PromoteRuntime_iff:
  "PromoteRuntime old new = Inr s \<longleftrightarrow> s = new \<and>
     (\<exists>x y. runtimeRank old = Some x \<and> runtimeRank new = Some y \<and> x \<le> y)"
  by (auto simp: PromoteRuntime_def split: option.split)

lemma rank_le_refl [simp]: "rank_le a a"
  by (simp add: rank_le_def split: option.split)

lemma rank_le_trans: "rank_le a b \<Longrightarrow> rank_le b c \<Longrightarrow> rank_le a c"
  by (auto simp: rank_le_def split: option.splits)

lemma final_runtime_le: "rank_le (pr_runtime p) (final_runtime (Some p) r)"
  by (auto simp: final_runtime_def PromoteRuntime_iff rank_le_def split: sum.split option.split)

text \<open>One round of the loop, in the form the induction needs: the map in memory is the one a
  fresh load would give.\<close>

lemma reconcile_invariant:
  assumes "reconcile_loop ok hits (load_prior tbl) tbl fresh = (res, tbl')"
    and "clean_table tbl" "list_all clean_hit hits"
  shows "clean_table tbl' \<and>
    (\<forall>k p. load_prior tbl k = Some p \<longrightarrow>
       (\<exists>p'. load_prior tbl' k = Some p' \<and> rank_le (pr_runtime p) (pr_runtime p')))"
  using assms
proof (induction hits arbitrary: tbl fresh)
  case Nil
  then show ?case by auto
next
  case (Cons h0 hs)
  define prev where "prev = load_prior tbl (hit_key h0)"
  define h where "h = (with_defaults h0)\<lparr>tht_Runtime := final_runtime prev (tht_Runtime (with_defaults h0))\<rparr>"
  have key: "hit_key h = hit_key h0" by (simp add: h_def)
  have clean: "clean_row (hit_row_of h)" using Cons.prems(3) by (simp add: h_def clean_hit_row)
  show ?case
  proof (cases "trim_space (tht_AdvisoryID h0) = [] \<or> \<not> ok (hit_row_of h)")
    case True
    with Cons show ?thesis by (auto simp: Let_def h_def prev_def split: if_splits)
  next
    case False
    let ?tbl = "upsert_hit (hit_row_of h) tbl"
    have lp: "load_prior ?tbl = (load_prior tbl)(hit_key h \<mapsto> prior_of (hit_row_of h))"
      using load_prior_upsert [OF Cons.prems(2) clean] by simp
    obtain fresh1 where run: "reconcile_loop ok hs (load_prior ?tbl) ?tbl fresh1 = (res, tbl')"
      using Cons.prems(1) False unfolding lp by (auto simp: Let_def h_def prev_def)
    have "clean_table ?tbl" using Cons.prems(2) clean by (rule clean_upsert)
    note IH = Cons.IH [OF run this] 
    have step: "\<exists>p'. load_prior ?tbl k = Some p' \<and> rank_le (pr_runtime p) (pr_runtime p')"
      if "load_prior tbl k = Some p" for k p
    proof (cases "k = hit_key h0")
      case True
      have "pr_runtime (prior_of (hit_row_of h)) = final_runtime (Some p) (tht_Runtime (with_defaults h0))"
        using that True by (simp add: prior_of_def hit_row_of_def h_def prev_def)
      with True final_runtime_le [of p] show ?thesis by (simp add: lp key)
    next
      case False
      with that show ?thesis by (simp add: lp key)
    qed
    show ?thesis using IH step Cons.prems(3) by (simp) (meson rank_le_trans)
  qed
qed

lemma settled_update:
  "hit_key g = hit_key h \<longrightarrow> tht_Inventory (with_defaults g) = tht_Inventory (with_defaults h) \<and>
     tht_Match (with_defaults g) = tht_Match (with_defaults h) \<Longrightarrow>
   g = h \<or> settled prior g \<Longrightarrow>
   settled (prior(hit_key h \<mapsto> prior_of (hit_row_of ((with_defaults h)\<lparr>tht_Runtime := r\<rparr>)))) g"
  by (auto simp: settled_def prior_of_def hit_row_of_def)

lemma reconcile_settles:
  assumes "reconcile_loop ok hits (load_prior tbl) tbl fresh = (Inr out, tbl')"
    and "clean_table tbl" "list_all clean_hit hits"
    and "consistent_hits (done @ hits)" "\<forall>g \<in> set done. settled (load_prior tbl) g"
  shows "\<forall>g \<in> set (done @ hits). settled (load_prior tbl') g"
  using assms
proof (induction hits arbitrary: tbl fresh "done")
  case Nil
  then show ?case by simp
next
  case (Cons h0 hs)
  define h where "h = (with_defaults h0)\<lparr>tht_Runtime :=
    final_runtime (load_prior tbl (hit_key h0)) (tht_Runtime (with_defaults h0))\<rparr>"
  have key: "hit_key h = hit_key h0" by (simp add: h_def)
  have clean: "clean_row (hit_row_of h)" using Cons.prems(3) by (simp add: h_def clean_hit_row)
  have cons: "consistent_hits ((done @ [h0]) @ hs)" using Cons.prems(4) by simp
  show ?case
  proof (cases "trim_space (tht_AdvisoryID h0) = []")
    case True
    then have "\<forall>g \<in> set (done @ [h0]). settled (load_prior tbl) g"
      using Cons.prems(5) by (auto simp: settled_def)
    moreover have "reconcile_loop ok hs (load_prior tbl) tbl fresh = (Inr out, tbl')"
      using Cons.prems(1) True by simp
    ultimately show ?thesis
      using Cons.IH [of tbl fresh "done @ [h0]"] Cons.prems(2,3) cons by simp
  next
    case False
    let ?tbl = "upsert_hit (hit_row_of h) tbl"
    have lp: "load_prior ?tbl = (load_prior tbl)(hit_key h0 \<mapsto> prior_of (hit_row_of h))"
      using load_prior_upsert [OF Cons.prems(2) clean] by (simp add: key)
    have ok: "ok (hit_row_of h)"
      using Cons.prems(1) False by (auto simp: Let_def h_def split: if_splits)
    obtain fresh1 where run: "reconcile_loop ok hs (load_prior ?tbl) ?tbl fresh1 = (Inr out, tbl')"
      using Cons.prems(1) False ok unfolding lp by (auto simp: Let_def h_def)
    have "settled (load_prior ?tbl) g" if "g \<in> set (done @ [h0])" for g
      unfolding lp unfolding h_def
    proof (rule settled_update)
      show "hit_key g = hit_key h0 \<longrightarrow> tht_Inventory (with_defaults g) = tht_Inventory (with_defaults h0) \<and>
          tht_Match (with_defaults g) = tht_Match (with_defaults h0)"
        using Cons.prems(4) that unfolding consistent_hits_def by auto
      show "g = h0 \<or> settled (load_prior tbl) g" using that Cons.prems(5) by auto
    qed
    with Cons.IH [OF run clean_upsert [OF Cons.prems(2) clean], of "done @ [h0]"] Cons.prems(3) cons
    show ?thesis by simp
  qed
qed

lemma consistentD:
  "consistent_hits hits \<Longrightarrow> g \<in> set hits \<Longrightarrow> h \<in> set hits \<Longrightarrow>
   hit_key g = hit_key h \<longrightarrow> tht_Inventory (with_defaults g) = tht_Inventory (with_defaults h) \<and>
     tht_Match (with_defaults g) = tht_Match (with_defaults h)"
  unfolding consistent_hits_def by blast

lemma consistent_tl: "consistent_hits (h # hs) \<Longrightarrow> consistent_hits hs"
  unfolding consistent_hits_def by (meson list.set_intros(2))

lemma reconcile_quiet:
  assumes "\<forall>g \<in> set hits. settled prior g" "consistent_hits hits"
  shows "fst (reconcile_loop ok hits prior tbl fresh) \<in> range Inl \<union> {Inr fresh}"
  using assms
proof (induction hits arbitrary: prior tbl)
  case (Cons h0 hs)
  have cons: "consistent_hits hs" using Cons.prems(2) by (rule consistent_tl)
  have head: "settled prior h0" and tail: "\<forall>g \<in> set hs. settled prior g" using Cons.prems(1) by simp_all
  show ?case
  proof (cases "trim_space (tht_AdvisoryID h0) = []")
    case True
    with Cons.IH [OF tail cons] show ?thesis by simp
  next
    case False
    with head obtain p where p: "prior (hit_key h0) = Some p"
      "pr_inventory p = tht_Inventory (with_defaults h0)" "pr_match p = tht_Match (with_defaults h0)"
      unfolding settled_def by blast
    let ?h = "(with_defaults h0)\<lparr>tht_Runtime := final_runtime (Some p) (tht_Runtime (with_defaults h0))\<rparr>"
    have "settled (prior(hit_key h0 \<mapsto> prior_of (hit_row_of ?h))) g" if g: "g \<in> set hs" for g
      using tail g by (intro settled_update [OF consistentD [OF Cons.prems(2)]]) simp_all
    then have "fst (reconcile_loop ok hs (prior(hit_key h0 \<mapsto> prior_of (hit_row_of ?h)))
        (upsert_hit (hit_row_of ?h) tbl) fresh) \<in> range Inl \<union> {Inr fresh}"
      by (intro Cons.IH cons ballI)
    then show ?thesis using False p(1) by (simp add: Let_def p(2,3))
  qed
qed simp

interpretation hit_table: invariant_machine "\<lambda>tbl. tbl = []" hits_step clean_table
proof
  show "clean_table s" if "s = []" for s using that by (simp add: clean_table_def)
  show "clean_table t" if a: "clean_table s" and b: "hits_step s t" for s t
  proof -
    obtain ok hits where "list_all clean_hit hits" "t = snd (ReconcileHits ok hits s)"
      using b unfolding hits_step_def by blast
    then show ?thesis
      using reconcile_invariant [of ok hits s "[]" "fst (ReconcileHits ok hits s)" t] a
      by (simp add: ReconcileHits_def)
  qed
qed

lemma sample_hit_clean: "list_all clean_hit [sample_hit]"
  by (simp add: sample_hit_def clean_hit_def clean_text_def)

lemma sample_hit_run:
  "ReconcileHits (\<lambda>_. True) [sample_hit] [] =
    (Inr [(with_defaults sample_hit)], [hit_row_of (with_defaults sample_hit)])"
  by code_simp

section \<open>Properties\<close>

text \<open>C11: Repeating a sync is silent.  After a reconciliation that succeeded, reconciling the
  same hits again reports nothing new, so nobody is notified twice; it may only fail when the
  database refuses a row.\<close>

theorem ReconcileHits_idempotent:
  assumes "ReconcileHits ok hits tbl = (Inr fresh, tbl')"
    and "clean_table tbl" "list_all clean_hit hits" "consistent_hits hits"
  shows "fst (ReconcileHits ok' hits tbl') = Inr [] \<or> (\<exists>e. fst (ReconcileHits ok' hits tbl') = Inl e)"
proof -
  have "\<forall>g \<in> set ([] @ hits). settled (load_prior tbl') g"
    using assms by (intro reconcile_settles [of ok hits tbl "[]" fresh tbl']) (simp_all add: ReconcileHits_def)
  then have "fst (ReconcileHits ok' hits tbl') \<in> range Inl \<union> {Inr []}"
    unfolding ReconcileHits_def using assms(4) by (intro reconcile_quiet) simp_all
  then show ?thesis by auto
qed

theorem ReconcileHits_idempotent_witness:
  "fst (ReconcileHits (\<lambda>_. True) [sample_hit] [hit_row_of (with_defaults sample_hit)]) = Inr []"
proof -
  have "clean_table []" "consistent_hits [sample_hit]" by (simp_all add: clean_table_def consistent_hits_def)
  from ReconcileHits_idempotent [OF sample_hit_run this(1) sample_hit_clean this(2), of "\<lambda>_. True"]
  show ?thesis by (auto simp: ReconcileHits_def Let_def)
qed

text \<open>The runtime status of a hit never goes down.  In every table the program can reach,
  a key that has a status keeps one, and its rank is at least what it was, whatever the hits
  say and also when the reconciliation stops at a refused row.\<close>

theorem runtime_never_decreases:
  assumes "hits_step\<^sup>*\<^sup>* [] tbl" "list_all clean_hit hits"
    and "load_prior tbl k = Some p"
  shows "\<exists>p'. load_prior (snd (ReconcileHits ok hits tbl)) k = Some p' \<and>
    rank_le (pr_runtime p) (pr_runtime p')"
proof -
  have "clean_table tbl" using hit_table.reachable_inv [of "[]" tbl] assms(1) by simp
  moreover have "reconcile_loop ok hits (load_prior tbl) tbl [] =
      (fst (ReconcileHits ok hits tbl), snd (ReconcileHits ok hits tbl))" by (simp add: ReconcileHits_def)
  ultimately show ?thesis using reconcile_invariant assms(2,3) by blast
qed

theorem runtime_never_decreases_witness:
  "\<exists>p'. load_prior (snd (ReconcileHits (\<lambda>_. True) [sample_hit\<lparr>tht_Runtime := ''L0''\<rparr>]
       [hit_row_of (with_defaults sample_hit)])) (hit_key sample_hit) = Some p' \<and> rank_le ''L2'' (pr_runtime p')"
proof -
  let ?t = "[hit_row_of (with_defaults sample_hit)]"
  have "hits_step [] ?t"
    unfolding hits_step_def using sample_hit_run sample_hit_clean
    by (metis snd_conv)
  then have reach: "hits_step\<^sup>*\<^sup>* [] ?t" by (rule r_into_rtranclp)
  have clean: "list_all clean_hit [sample_hit\<lparr>tht_Runtime := ''L0''\<rparr>]"
    by (simp add: sample_hit_def clean_hit_def clean_text_def)
  have prior: "load_prior ?t (hit_key sample_hit) = Some (prior_of (hit_row_of (with_defaults sample_hit)))"
    by (simp add: load_prior_def)
  have "pr_runtime (prior_of (hit_row_of (with_defaults sample_hit))) = ''L2''"
    by (simp add: prior_of_def hit_row_of_def with_defaults_def sample_hit_def)
  with runtime_never_decreases [OF reach clean prior, of "\<lambda>_. True"] show ?thesis by simp
qed

end
