(* ===== verification/Task_Queue.thy ===== *)
theory Task_Queue
  imports Prelude
begin

text \<open>
  The task queue and the e-mail task (\<^verbatim>\<open>src/internal/tasks/queue_types.go\<close>, \<^verbatim>\<open>email.go\<close>).
  A task is a constructor with its payload, instead of its JSON text; the queue is the list
  of what was enqueued, with the retry and timeout options, and may refuse a task.  SMTP is a
  parameter.
\<close>

section \<open>Tasks\<close>

record scan_payload =
  spl_ScanID :: string
  spl_ProjectID :: string
  spl_Target :: string
  spl_Scanner :: string

datatype task =
    ScanRun scan_payload
  | FindingValidate string
  | FindingSummarize string
  | ReportSend string
  | ThreatSync string
  | WebhookSend string string string
  | EmailSend string string "string list"
  | SnippetEnrich string
  | DigestSend "string list"

record webhook =
  wh_ID :: string
  wh_Events :: "string list"

record queued =
  q_task :: task
  q_retry :: nat
  q_timeout :: nat

definition enqueue :: "(queued \<Rightarrow> bool) \<Rightarrow> task \<Rightarrow> nat \<Rightarrow> nat \<Rightarrow> queued list \<Rightarrow> queued list" where
  "enqueue accept t retry timeout q =
     (let x = \<lparr>q_task = t, q_retry = retry, q_timeout = timeout\<rparr> in if accept x then q @ [x] else q)"

fun is_scan :: "task \<Rightarrow> bool" where
  "is_scan (ScanRun _) = True"
| "is_scan _ = False"

section \<open>E-mail\<close>

record email_config =
  ec_Host :: string
  ec_Port :: string
  ec_Username :: string
  ec_Password :: string
  ec_From :: string
  ec_Enabled :: bool

definition crlf :: string where
  "crlf = [CHR 0x0D, CHR 0x0A]"

definition sanitizeEmailHeader :: "string \<Rightarrow> string" where
  "sanitizeEmailHeader value =
     trim_space (map (\<lambda>c. if c = newline then CHR '' '' else c)
       (map (\<lambda>c. if c = CHR 0x0D then CHR '' '' else c) value))"

definition email_headers :: "string \<Rightarrow> string list \<Rightarrow> string \<Rightarrow> string list" where
  "email_headers from' to subject =
     [''From: '' @ from', ''To: '' @ join '', '' to, ''Subject: '' @ sanitizeEmailHeader subject,
      ''MIME-Version: 1.0'', ''Content-Type: text/plain; charset=UTF-8'']"

definition buildEmailMessage :: "string \<Rightarrow> string list \<Rightarrow> string \<Rightarrow> string \<Rightarrow> string" where
  "buildEmailMessage from' to subject body =
     join crlf (email_headers from' to subject) @ crlf @ crlf @ trim_space body @ crlf"

text \<open>What reaches the SMTP server: its address, the credentials when one is set, the sender,
  the recipients and the message.  The result is the error, if any.\<close>

type_synonym smtp = "string \<Rightarrow> (string \<times> string) option \<Rightarrow> string \<Rightarrow> string list \<Rightarrow> string \<Rightarrow> string option"

definition Send :: "smtp \<Rightarrow> email_config \<Rightarrow> string list \<Rightarrow> string \<Rightarrow> string \<Rightarrow> string option" where
  "Send smtp cfg to subject body =
     (if \<not> ec_Enabled cfg then None
      else (let auth = (if trim_space (ec_Username cfg) \<noteq> [] \<or> trim_space (ec_Password cfg) \<noteq> []
                 then Some (ec_Username cfg, ec_Password cfg) else None)
            in case smtp (ec_Host cfg @ '':'' @ ec_Port cfg) auth (ec_From cfg) to
                  (buildEmailMessage (ec_From cfg) to subject body) of
                 None \<Rightarrow> None | Some e \<Rightarrow> Some (''send email: '' @ e)))"

definition HandleEmailSend :: "smtp \<Rightarrow> email_config \<Rightarrow> string \<times> string \<times> string list \<Rightarrow> string option" where
  "HandleEmailSend smtp cfg payload = (case payload of (subject, body, to) \<Rightarrow>
     if \<not> ec_Enabled cfg then None
     else if trim_space subject = [] \<or> trim_space body = [] \<or> to = [] then Some ''email payload incomplete''
     else Send smtp cfg to subject body)"

section \<open>Specifications\<close>

text \<open>The line breaks in a text.\<close>

definition breaks :: "string \<Rightarrow> nat" where
  "breaks s = length (filter (\<lambda>c. c = newline) s)"

section \<open>Lemmas\<close>

lemma enqueue_extends: "\<exists>new. enqueue accept t r to q = q @ new \<and> length new \<le> 1 \<and> q_task ` set new \<subseteq> {t}"
  by (auto simp: enqueue_def Let_def)

lemma sanitize_no_break: "newline \<notin> set (sanitizeEmailHeader v) \<and> CHR 0x0D \<notin> set (sanitizeEmailHeader v)"
  unfolding sanitizeEmailHeader_def using trim_space_subset
  by (fastforce simp: newline_def split: if_splits)

lemma breaks_append [simp]: "breaks (s @ t) = breaks s + breaks t"
  by (simp add: breaks_def)

lemma breaks_zero: "newline \<notin> set s \<Longrightarrow> breaks s = 0"
  by (auto simp: breaks_def filter_empty_conv)

lemma breaks_join: "ws \<noteq> [] \<Longrightarrow> breaks (join sep ws) = sum_list (map breaks ws) + (length ws - 1) * breaks sep"
proof (induction sep ws rule: join.induct)
  case (3 sep w v ws)
  then show ?case by (simp add: algebra_simps)
qed simp_all

section \<open>Properties\<close>

text \<open>A subject cannot add header lines.  When the configured addresses hold no line
  break, the header block of a message is its five headers separated by four line breaks,
  whatever the subject holds, so what follows the blank line is the body.\<close>

theorem email_headers_fixed:
  assumes "newline \<notin> set from'" "newline \<notin> set (join '', '' to)"
  shows "\<exists>headers. buildEmailMessage from' to subject body = headers @ crlf @ crlf @ trim_space body @ crlf \<and>
    headers = join crlf (email_headers from' to subject) \<and> breaks headers = 4"
proof -
  have "breaks ''From: '' = 0" "breaks ''To: '' = 0" "breaks ''Subject: '' = 0" "breaks ''MIME-Version: 1.0'' = 0"
    "breaks ''Content-Type: text/plain; charset=UTF-8'' = 0" "breaks crlf = 1"
    by (simp_all add: breaks_def newline_def crlf_def)
  moreover have "breaks from' = 0" "breaks (join '', '' to) = 0" "breaks (sanitizeEmailHeader subject) = 0"
    using assms sanitize_no_break by (simp_all add: breaks_zero)
  ultimately have "breaks (join crlf (email_headers from' to subject)) = 4"
    unfolding email_headers_def by (simp add: breaks_join breaks_append [unfolded append_Cons append_Nil] del: append_Cons)
  then show ?thesis by (simp add: buildEmailMessage_def)
qed

theorem email_headers_fixed_witness:
  "breaks (join crlf (email_headers ''a@b.c'' [''d@e.f''] (''hi'' @ crlf @ ''Bcc: x@y.z''))) = 4"
  using email_headers_fixed [of "''a@b.c''" "[''d@e.f'']" "''hi'' @ crlf @ ''Bcc: x@y.z''" "''b''"]
  by (simp add: newline_def)

end
