(* ===== verification/Threat_Sync.thy ===== *)
theory Threat_Sync
  imports Threat_Store Task_Queue
begin

text \<open>
  The periodic threat-intelligence job (\<^verbatim>\<open>src/internal/tasks/threatintel.go\<close>,
  \<^verbatim>\<open>threat_notify.go\<close>, \<^verbatim>\<open>threat_fetch.go\<close>): it fetches the manifest of each project from
  GitHub, resolves it against OSV, stores advisories and hits and notifies.  The job is a
  function on a record of the stores and the queue; the network, the databases' answers and
  the JSON encoders are fields of environment records.
\<close>

section \<open>Finding the repository of a project\<close>

record project =
  pj_ID :: string
  pj_RepoURL :: "string option"
  pj_Provider :: string
  pj_DefaultBranch :: string

definition component_char :: "char \<Rightarrow> bool" where
  "component_char c \<longleftrightarrow> (let n = (of_char c :: nat) in
     97 \<le> n \<and> n \<le> 122 \<or> 65 \<le> n \<and> n \<le> 90 \<or> 48 \<le> n \<and> n \<le> 57 \<or>
     c = CHR ''.'' \<or> c = CHR ''_'' \<or> c = CHR ''-'')"

definition isRepoPathComponent :: "string \<Rightarrow> bool" where
  "isRepoPathComponent s = (if s = [] \<or> s = ''.'' \<or> s = ''..'' then False else list_all component_char s)"

definition isBareRepoRef :: "string \<Rightarrow> bool" where
  "isBareRepoRef s =
     (if contains s ''://'' \<or> contains s ''@'' \<or> contains_any s ([CHR '' '', CHR 0x09, newline] @ ''?'') then False
      else (case split_on CHR ''/'' s of
          [a, b] \<Rightarrow> isRepoPathComponent (trim_suffix a ''.git'') \<and> isRepoPathComponent (trim_suffix b ''.git'')
        | _ \<Rightarrow> False))"

text \<open>The path of a reference, \<open>None\<close> when it is not on GitHub; \<open>parse_url\<close> is
  \<^verbatim>\<open>url.Parse\<close>, giving the host and the escaped path.\<close>

definition github_path :: "(string \<Rightarrow> (string \<times> string) option) \<Rightarrow> string \<Rightarrow> string option" where
  "github_path parse_url raw =
     (if has_prefix raw ''git@github.com:'' then Some (trim_prefix raw ''git@github.com:'')
      else if has_prefix raw ''https://github.com/'' \<or> has_prefix raw ''http://github.com/''
           \<or> has_prefix raw ''github.com/''
      then (case index_of raw ''github.com/'' of None \<Rightarrow> Some raw | Some i \<Rightarrow> Some (drop (i + 11) raw))
      else if isBareRepoRef raw then Some raw
      else if contains raw ''://'' then None
      else (case parse_url raw of
          None \<Rightarrow> None
        | Some (host, path) \<Rightarrow>
            if host = [] then None
            else if \<not> equal_fold host ''github.com'' \<and> \<not> equal_fold host ''www.github.com'' then None
            else Some (trim_prefix path ''/'')))"

definition owner_repo :: "string \<Rightarrow> (string \<times> string) option" where
  "owner_repo path =
     (case split_on CHR ''/'' (trim_cutset ''/'' path) of
        owner # repo0 # _ \<Rightarrow>
          if owner = [] \<or> repo0 = [] then None
          else (let repo = trim_suffix repo0 ''.git'' in
            if \<not> isRepoPathComponent owner \<or> \<not> isRepoPathComponent repo then None
            else Some (owner, repo))
      | _ \<Rightarrow> None)"

definition parseGitHubRepo ::
  "(string \<Rightarrow> (string \<times> string) option) \<Rightarrow> project \<Rightarrow> (string \<times> string \<times> string) option" where
  "parseGitHubRepo parse_url project =
     (if pj_Provider project \<noteq> [] \<and> \<not> equal_fold (trim_space (pj_Provider project)) ''github'' then None
      else (case pj_RepoURL project of
          None \<Rightarrow> None
        | Some url \<Rightarrow>
            (let raw0 = trim_space url in
             if raw0 = [] then None
             else (let raw = (case index_of raw0 ''#'' of None \<Rightarrow> raw0 | Some i \<Rightarrow> trim_space (take i raw0))
               in case github_path parse_url raw of
                    None \<Rightarrow> None
                  | Some path \<Rightarrow> (case owner_repo path of
                      None \<Rightarrow> None
                    | Some (owner, repo) \<Rightarrow>
                        (let branch = trim_space (pj_DefaultBranch project)
                         in Some (owner, repo, if branch = [] then ''main'' else branch)))))))"

section \<open>Fetching the manifest\<close>

datatype fetch_error = NoManifestSource string | FetchFailed string

definition threatManifestPaths :: "string list" where
  "threatManifestPaths = [''package.json'', ''package-lock.json'', ''go.mod'', ''requirements.txt'',
     ''Cargo.lock'', ''poetry.lock'', ''pom.xml'']"

definition manifestMaxBytes :: nat where
  "manifestMaxBytes = 8388608"

text \<open>The GitHub API: the endpoint and the token give an error or a status and a body.\<close>

record github_io =
  gh_get :: "string \<Rightarrow> string \<Rightarrow> string + nat \<times> string"
  gh_parse_url :: "string \<Rightarrow> (string \<times> string) option"
  gh_query_escape :: "string \<Rightarrow> string"

fun probe_manifests ::
  "(string \<Rightarrow> string + nat \<times> string) \<Rightarrow> string list \<Rightarrow> fetch_error + (string \<times> string) option" where
  "probe_manifests get [] = Inr None"
| "probe_manifests get (mf # rest) =
     (case get mf of
        Inl e \<Rightarrow> Inl (FetchFailed (''threatintel: fetch '' @ mf @ '': '' @ e))
      | Inr (status, body) \<Rightarrow>
          if length body > manifestMaxBytes then Inl (FetchFailed (''threatintel: manifest exceeds '' @ nat_str manifestMaxBytes @ '' bytes''))
          else if status = 404 then probe_manifests get rest
          else if status \<ge> 400 then Inl (FetchFailed (''threatintel: fetch '' @ mf @ '': github api http '' @ nat_str status))
          else if trim_space body = [] then probe_manifests get rest
          else Inr (Some (mf, body)))"

definition resolveManifestToken :: "(string \<Rightarrow> string option) \<Rightarrow> string \<Rightarrow> project \<Rightarrow> string" where
  "resolveManifestToken stored env_token project =
     (if pj_ID project \<noteq> [] then
        (case stored (pj_ID project) of Some tok \<Rightarrow> if tok \<noteq> [] then tok else env_token | None \<Rightarrow> env_token)
      else env_token)"

definition fetchProjectManifest :: "github_io \<Rightarrow> string \<Rightarrow> project \<Rightarrow> string \<Rightarrow> fetch_error + string \<times> string" where
  "fetchProjectManifest io apiBase project token =
     (case parseGitHubRepo (gh_parse_url io) project of
        None \<Rightarrow> Inl (NoManifestSource (''threatintel: project '' @ pj_ID project @ '' has no github repo source''))
      | Some (owner, repo, branch) \<Rightarrow>
          (let base = trim_suffix (if apiBase = [] then ''https://api.github.com'' else apiBase) ''/'';
               get = (\<lambda>mf. gh_get io (base @ ''/repos/'' @ owner @ ''/'' @ repo @ ''/contents/'' @ mf @
                  ''?ref='' @ gh_query_escape io branch) token)
           in case probe_manifests get threatManifestPaths of
                Inl e \<Rightarrow> Inl e
              | Inr None \<Rightarrow> Inl (NoManifestSource (''threatintel: no manifest found for project '' @ pj_ID project))
              | Inr (Some (mf, body)) \<Rightarrow> Inr (mf, body)))"

definition FetchManifestForProject ::
  "github_io \<Rightarrow> (string \<Rightarrow> string option) \<Rightarrow> string \<Rightarrow> project \<Rightarrow> fetch_error + string \<times> string" where
  "FetchManifestForProject io stored env_token project =
     fetchProjectManifest io [] project (resolveManifestToken stored env_token project)"

section \<open>Notification\<close>

record advisory_meta =
  am_AdvisoryID :: string
  am_CVEID :: string
  am_Severity :: string
  am_KEV :: bool
  am_URL :: string

record kev_payload =
  kp_ProjectID :: string
  kp_AdvisoryID :: string
  kp_CVEID :: string
  kp_Severity :: string
  kp_PkgName :: string
  kp_PkgVersion :: string
  kp_URL :: string

text \<open>The interfaces the fan-out is wired with; \<open>None\<close> is a nil interface.\<close>

record notify_deps =
  nd_Webhooks :: "(string + webhook list) option"
  nd_Settings :: "(string + string list) option"
  nd_Scans :: "(string \<Rightarrow> string \<Rightarrow> string \<Rightarrow> string \<Rightarrow> string + string) option"
  nd_EmailEnabled :: bool
  nd_Enabled :: bool
  nd_RescanScanner :: string
  nd_ProjectTarget :: "(string \<Rightarrow> string option) option"
  nd_marshal :: "string \<Rightarrow> kev_payload \<Rightarrow> string + string"
  nd_accept :: "queued \<Rightarrow> bool"

definition ThreatAdvisoryURL :: "string \<Rightarrow> string" where
  "ThreatAdvisoryURL advisoryID = ''https://osv.dev/vulnerability/'' @ advisoryID"

definition threatKEVEmailSubject :: "kev_payload \<Rightarrow> string" where
  "threatKEVEmailSubject p =
     ''KEV threat confirmed: '' @ (if trim_space (kp_CVEID p) = [] then kp_AdvisoryID p else kp_CVEID p) @
     '' in '' @ kp_PkgName p"

definition buildThreatKEVEmailBody :: "kev_payload \<Rightarrow> string" where
  "buildThreatKEVEmailBody p = join [newline]
     [''HenKaiPan threat-intel notification'', [], ''Event: threat.kev'', ''Project ID: '' @ kp_ProjectID p,
      ''Advisory: '' @ kp_AdvisoryID p, ''CVE: '' @ kp_CVEID p, ''Severity: '' @ to_upper (kp_Severity p),
      ''Package: '' @ trim_space (kp_PkgName p @ '' '' @ kp_PkgVersion p), ''Advisory: '' @ kp_URL p]"

fun enqueue_webhooks :: "notify_deps \<Rightarrow> string \<Rightarrow> string \<Rightarrow> webhook list \<Rightarrow> queued list \<Rightarrow> queued list" where
  "enqueue_webhooks nd eventType payload [] q = q"
| "enqueue_webhooks nd eventType payload (w # ws) q =
     (if \<not> list_ex (\<lambda>e. e = eventType) (wh_Events w) then enqueue_webhooks nd eventType payload ws q
      else enqueue_webhooks nd eventType payload ws
        (enqueue (nd_accept nd) (WebhookSend (wh_ID w) eventType payload) 5 30 q))"

definition enqueueThreatWebhook :: "notify_deps \<Rightarrow> string + webhook list \<Rightarrow> string \<Rightarrow> kev_payload \<Rightarrow> queued list \<Rightarrow> queued list" where
  "enqueueThreatWebhook nd webhooks eventType payload q = (case webhooks of
      Inl _ \<Rightarrow> q
    | Inr ws \<Rightarrow> (case nd_marshal nd eventType payload of
        Inl _ \<Rightarrow> q
      | Inr bytes \<Rightarrow> enqueue_webhooks nd eventType bytes ws q))"

definition enqueueThreatEmail :: "notify_deps \<Rightarrow> string list \<Rightarrow> string \<Rightarrow> string \<Rightarrow> queued list \<Rightarrow> queued list" where
  "enqueueThreatEmail nd recipients subject body q =
     (if \<not> nd_EmailEnabled nd \<or> recipients = [] then q
      else enqueue (nd_accept nd) (EmailSend subject body recipients) 5 30 q)"

definition notifyKEVHit :: "notify_deps \<Rightarrow> string \<Rightarrow> threat_hit \<Rightarrow> advisory_meta \<Rightarrow> queued list \<Rightarrow> queued list" where
  "notifyKEVHit nd projectID h meta q =
     (let payload = \<lparr>kp_ProjectID = projectID, kp_AdvisoryID = tht_AdvisoryID h, kp_CVEID = am_CVEID meta,
            kp_Severity = am_Severity meta, kp_PkgName = tht_PkgName h, kp_PkgVersion = tht_PkgVersion h,
            kp_URL = am_URL meta\<rparr>;
          q1 = (case nd_Webhooks nd of None \<Rightarrow> q
            | Some ws \<Rightarrow> enqueueThreatWebhook nd ws ''threat.kev'' payload q)
      in case nd_Settings nd of
           None \<Rightarrow> q1
         | Some (Inl _) \<Rightarrow> q1
         | Some (Inr recipients) \<Rightarrow>
             enqueueThreatEmail nd recipients (threatKEVEmailSubject payload) (buildThreatKEVEmailBody payload) q1)"

definition rescanUnconfirmed :: "notify_deps \<Rightarrow> string \<Rightarrow> string \<Rightarrow> queued list \<Rightarrow> queued list" where
  "rescanUnconfirmed nd projectID scanner q = (case (nd_Scans nd, nd_ProjectTarget nd) of
      (Some insert_scan, Some target_of) \<Rightarrow> (case target_of projectID of
          None \<Rightarrow> q
        | Some target \<Rightarrow>
            if trim_space target = [] then q
            else (case insert_scan target scanner ''threat-rescan'' projectID of
                Inl _ \<Rightarrow> q
              | Inr scanID \<Rightarrow> enqueue (nd_accept nd)
                  (ScanRun \<lparr>spl_ScanID = scanID, spl_ProjectID = projectID, spl_Target = target, spl_Scanner = scanner\<rparr>)
                  3 1800 q))
    | _ \<Rightarrow> q)"

definition no_meta :: advisory_meta where
  "no_meta = \<lparr>am_AdvisoryID = [], am_CVEID = [], am_Severity = [], am_KEV = False, am_URL = []\<rparr>"

text \<open>The loop of \<^verbatim>\<open>NotifyForHits\<close> on the flag \<open>rescanScheduled\<close> and the queue.\<close>

fun notify_loop ::
  "notify_deps \<Rightarrow> string \<Rightarrow> string \<Rightarrow> (string \<rightharpoonup> advisory_meta) \<Rightarrow> threat_hit list \<Rightarrow> bool \<Rightarrow> queued list \<Rightarrow> queued list" where
  "notify_loop nd projectID scanner metas [] rescanned q = q"
| "notify_loop nd projectID scanner metas (h # hs) rescanned q =
     (let meta = (case metas (tht_AdvisoryID h) of Some m \<Rightarrow> m | None \<Rightarrow> no_meta) in
      if tht_Match h = ''active_threat'' then
        (if \<not> am_KEV meta \<or> \<not> nd_Enabled nd then notify_loop nd projectID scanner metas hs rescanned q
         else notify_loop nd projectID scanner metas hs rescanned (notifyKEVHit nd projectID h meta q))
      else if tht_Match h = ''unconfirmed'' \<or> tht_Match h = [] then
        (if rescanned then notify_loop nd projectID scanner metas hs rescanned q
         else notify_loop nd projectID scanner metas hs True (rescanUnconfirmed nd projectID scanner q))
      else notify_loop nd projectID scanner metas hs rescanned q)"

definition NotifyForHits ::
  "notify_deps \<Rightarrow> string \<Rightarrow> threat_hit list \<Rightarrow> (string \<rightharpoonup> advisory_meta) \<Rightarrow> queued list \<Rightarrow> queued list" where
  "NotifyForHits nd projectID hits metas q =
     notify_loop nd projectID
       (if trim_space (nd_RescanScanner nd) = [] then ''osv-scanner'' else nd_RescanScanner nd) metas hits False q"

section \<open>The sync\<close>

record sync_state =
  sy_deps :: "string \<Rightarrow> dependency_row list"
  sy_advisories :: "string \<rightharpoonup> advisory_row"
  sy_hits :: "string \<Rightarrow> hit_row list"
  sy_queue :: "queued list"

record sync_env =
  se_ListProjects :: "string + project list"
  se_FetchManifest :: "project \<Rightarrow> fetch_error + string \<times> string"
  se_decode_json :: "string \<Rightarrow> string + json_deps \<times> json_deps"
  se_QueryOSV :: "dependency list \<Rightarrow> string + query_hit list"
  se_FetchKEV :: "string + kev_catalog"
  se_marshal_evidence :: "evidence \<Rightarrow> string option"
  se_dep_ok :: "dependency_row \<Rightarrow> bool"
  se_adv_ok :: "advisory_row \<Rightarrow> bool"
  se_hit_ok :: "hit_row \<Rightarrow> bool"
  se_Notify :: "notify_deps option"

datatype sync_error =
  SyncFetch fetch_error | SyncParse manifest_error | SyncDeps string | SyncOSV string
  | SyncAdvisories string | SyncReconcile string

fun dedupeQueryAdvisories :: "string set \<Rightarrow> query_hit list \<Rightarrow> advisory list" where
  "dedupeQueryAdvisories seen [] = []"
| "dedupeQueryAdvisories seen (h # hs) =
     (if adv_ID (qh_Advisory h) = [] then dedupeQueryAdvisories seen hs
      else if adv_ID (qh_Advisory h) \<in> seen then dedupeQueryAdvisories seen hs
      else qh_Advisory h # dedupeQueryAdvisories (insert (adv_ID (qh_Advisory h)) seen) hs)"

definition threatAdvisoryMeta :: "advisory list \<Rightarrow> kev_catalog \<Rightarrow> string \<rightharpoonup> advisory_meta" where
  "threatAdvisoryMeta advisories kev = fold (\<lambda>a m. m(adv_ID a \<mapsto>
     \<lparr>am_AdvisoryID = adv_ID a, am_CVEID = adv_CVEID a, am_Severity = adv_Severity a,
      am_KEV = IsKEV (adv_CVEID a) (adv_Aliases a) kev, am_URL = ThreatAdvisoryURL (adv_ID a)\<rparr>))
     advisories Map.empty"

fun inventory_text :: "inventory_status \<Rightarrow> string" where
  "inventory_text StatusDeclared = ''declared''"
| "inventory_text StatusDetected = ''detected''"
| "inventory_text StatusCorroborated = ''corroborated''"

fun match_text :: "match_status \<Rightarrow> string" where
  "match_text MatchUnconfirmed = ''unconfirmed''"
| "match_text MatchActiveThreat = ''active_threat''"

definition threatHitFromMatch :: "(evidence \<Rightarrow> string option) \<Rightarrow> hit \<Rightarrow> threat_hit" where
  "threatHitFromMatch marshal h =
     \<lparr>tht_AdvisoryID = hit_AdvisoryID h, tht_PkgName = hit_PkgName h, tht_PkgVersion = hit_PkgVersion h,
      tht_Inventory = inventory_text (hit_Inventory h), tht_Runtime = ''L0'',
      tht_Match = match_text (hit_Match h),
      tht_Evidence = (case marshal (hit_Evidence h) of None \<Rightarrow> [] | Some b \<Rightarrow> b)\<rparr>"

definition syncProject :: "sync_env \<Rightarrow> project \<Rightarrow> kev_catalog \<Rightarrow> sync_state \<Rightarrow> (sync_error + unit) \<times> sync_state" where
  "syncProject env project kev st = (case se_FetchManifest env project of
      Inl e \<Rightarrow> (Inl (SyncFetch e), st)
    | Inr (sourceFile, data) \<Rightarrow> (case ParseManifest (se_decode_json env) sourceFile data of
        Inl e \<Rightarrow> (Inl (SyncParse e), st)
      | Inr inventory \<Rightarrow> (case UpsertDependencies (se_dep_ok env) inventory (sy_deps st (pj_ID project)) of
          (Inl e, rows) \<Rightarrow> (Inl (SyncDeps e), st\<lparr>sy_deps := (sy_deps st)(pj_ID project := rows)\<rparr>)
        | (Inr _, rows) \<Rightarrow>
          (let st1 = st\<lparr>sy_deps := (sy_deps st)(pj_ID project := rows)\<rparr> in
           case se_QueryOSV env inventory of
             Inl e \<Rightarrow> (Inl (SyncOSV e), st1)
           | Inr queryHits \<Rightarrow>
             (let advisories = dedupeQueryAdvisories {} queryHits in
              case UpsertAdvisories (se_adv_ok env) (Some (\<lambda>c aliases. IsKEV c aliases kev)) advisories (sy_advisories st1) of
                (Inl e, tbl) \<Rightarrow> (Inl (SyncAdvisories e), st1\<lparr>sy_advisories := tbl\<rparr>)
              | (Inr _, tbl) \<Rightarrow>
                (let st2 = st1\<lparr>sy_advisories := tbl\<rparr>;
                     hits = MatchQueryHits queryHits kev [];
                     threatHits = map (threatHitFromMatch (se_marshal_evidence env)) hits
                 in case ReconcileHits (se_hit_ok env) threatHits (sy_hits st2 (pj_ID project)) of
                      (Inl e, rows2) \<Rightarrow> (Inl (SyncReconcile e), st2\<lparr>sy_hits := (sy_hits st2)(pj_ID project := rows2)\<rparr>)
                    | (Inr newOrChanged, rows2) \<Rightarrow>
                      (let st3 = st2\<lparr>sy_hits := (sy_hits st2)(pj_ID project := rows2)\<rparr>
                       in case se_Notify env of
                            None \<Rightarrow> (Inr (), st3)
                          | Some nd \<Rightarrow> (Inr (), st3\<lparr>sy_queue := NotifyForHits nd (pj_ID project) newOrChanged
                              (threatAdvisoryMeta advisories kev) (sy_queue st3)\<rparr>))))))))"

fun sync_projects :: "sync_env \<Rightarrow> kev_catalog \<Rightarrow> project list \<Rightarrow> sync_state \<Rightarrow> sync_state" where
  "sync_projects env kev [] st = st"
| "sync_projects env kev (p # ps) st = sync_projects env kev ps (snd (syncProject env p kev st))"

definition SyncThreatIntel :: "sync_env \<Rightarrow> string \<Rightarrow> sync_state \<Rightarrow> (string + unit) \<times> sync_state" where
  "SyncThreatIntel env projectID st =
     (case (if projectID \<noteq> []
            then Inr [\<lparr>pj_ID = projectID, pj_RepoURL = None, pj_Provider = [], pj_DefaultBranch = []\<rparr>]
            else se_ListProjects env) of
        Inl e \<Rightarrow> (Inl (''list projects for threat sync: '' @ e), st)
      | Inr projects \<Rightarrow>
          (let kev = (case se_FetchKEV env of Inl _ \<Rightarrow> [] | Inr k \<Rightarrow> k)
           in (Inr (), sync_projects env kev projects st)))"

section \<open>Specifications\<close>

text \<open>The spellings of one GitHub repository the fetcher should understand.\<close>

definition repo_urls :: "string \<Rightarrow> string \<Rightarrow> string list" where
  "repo_urls owner repo =
     [owner @ ''/'' @ repo, ''github.com/'' @ owner @ ''/'' @ repo,
      ''https://github.com/'' @ owner @ ''/'' @ repo, ''https://github.com/'' @ owner @ ''/'' @ repo @ ''.git'',
      ''git@github.com:'' @ owner @ ''/'' @ repo @ ''.git'']"

definition repo_project :: "string \<Rightarrow> project" where
  "repo_project url = \<lparr>pj_ID = ''p'', pj_RepoURL = Some url, pj_Provider = ''GitHub'', pj_DefaultBranch = []\<rparr>"

text \<open>What a fan-out may append: alerts only for KEV threats, and at most one rescan.\<close>

definition fan_out :: "notify_deps \<Rightarrow> (string \<rightharpoonup> advisory_meta) \<Rightarrow> threat_hit list \<Rightarrow> nat \<Rightarrow> queued list \<Rightarrow> bool" where
  "fan_out nd metas hits scans new \<longleftrightarrow> length (filter (\<lambda>x. is_scan (q_task x)) new) \<le> scans \<and>
     (\<exists>x \<in> set new. \<not> is_scan (q_task x)) \<le> (nd_Enabled nd \<and>
        (\<exists>h \<in> set hits. tht_Match h = ''active_threat'' \<and> (\<exists>m. metas (tht_AdvisoryID h) = Some m \<and> am_KEV m)))"

text \<open>An environment in which GitHub answers nothing, for concrete instances.\<close>

definition sample_github :: github_io where
  "sample_github = \<lparr>gh_get = (\<lambda>_ _. Inl ''down''), gh_parse_url = (\<lambda>_. None), gh_query_escape = (\<lambda>s. s)\<rparr>"

definition sample_env :: sync_env where
  "sample_env = \<lparr>se_ListProjects = Inr [],
     se_FetchManifest = FetchManifestForProject sample_github (\<lambda>_. None) [],
     se_decode_json = (\<lambda>_. Inl []), se_QueryOSV = (\<lambda>_. Inr []), se_FetchKEV = Inr [],
     se_marshal_evidence = (\<lambda>_. None), se_dep_ok = (\<lambda>_. True), se_adv_ok = (\<lambda>_. True),
     se_hit_ok = (\<lambda>_. True), se_Notify = None\<rparr>"

definition sample_state :: sync_state where
  "sample_state = \<lparr>sy_deps = (\<lambda>_. []), sy_advisories = Map.empty, sy_hits = (\<lambda>_. []), sy_queue = []\<rparr>"

section \<open>Lemmas\<close>

interpretation query_advisories:
  first_occurrence dedupeQueryAdvisories "\<lambda>h. adv_ID (qh_Advisory h)" qh_Advisory adv_ID "\<lambda>i. i = []"
  by unfold_locales auto

subsection \<open>Notifications\<close>

lemma enqueue_webhooks_extends:
  "\<exists>new. enqueue_webhooks nd ev payload ws q = q @ new \<and> (\<forall>x \<in> set new. \<not> is_scan (q_task x))"
proof (induction ws arbitrary: q)
  case (Cons w ws)
  obtain a where a: "enqueue (nd_accept nd) (WebhookSend (wh_ID w) ev payload) 5 30 q = q @ a"
    "q_task ` set a \<subseteq> {WebhookSend (wh_ID w) ev payload}"
    using enqueue_extends by metis
  obtain b where "enqueue_webhooks nd ev payload ws (q @ a) = (q @ a) @ b" "\<forall>x \<in> set b. \<not> is_scan (q_task x)"
    using Cons by blast
  moreover obtain d where "enqueue_webhooks nd ev payload ws q = q @ d" "\<forall>x \<in> set d. \<not> is_scan (q_task x)"
    using Cons by blast
  moreover have "\<forall>x \<in> set a. \<not> is_scan (q_task x)" using a(2) by auto
  ultimately show ?case
    using a(1) by (cases "list_ex (\<lambda>e. e = ev) (wh_Events w)") (auto intro: exI [of _ "a @ b"])
qed simp

lemma notifyKEVHit_extends:
  "\<exists>new. notifyKEVHit nd pid h meta q = q @ new \<and> (\<forall>x \<in> set new. \<not> is_scan (q_task x))"
proof -
  have w: "\<exists>new. enqueueThreatWebhook nd ws ev payload q = q @ new \<and> (\<forall>x \<in> set new. \<not> is_scan (q_task x))"
    for ws ev payload q
    using enqueue_webhooks_extends by (auto simp: enqueueThreatWebhook_def split: sum.split)
  have e: "\<exists>new. enqueueThreatEmail nd rs s b q = q @ new \<and> (\<forall>x \<in> set new. \<not> is_scan (q_task x))" for rs s b q
    by (auto simp: enqueueThreatEmail_def enqueue_def Let_def)
  have both: "\<exists>new. f (g q) = q @ new \<and> (\<forall>x \<in> set new. \<not> is_scan (q_task x))"
    if "\<And>q. \<exists>new. f q = q @ new \<and> (\<forall>x \<in> set new. \<not> is_scan (q_task x))"
       "\<And>q. \<exists>new. g q = q @ new \<and> (\<forall>x \<in> set new. \<not> is_scan (q_task x))" for f g :: "queued list \<Rightarrow> queued list"
    using that by (metis Un_iff append.assoc set_append)
  show ?thesis
    using w e both [OF e w]
    by (auto simp: notifyKEVHit_def Let_def split: option.split sum.split)
qed

lemma rescan_extends:
  "\<exists>new. rescanUnconfirmed nd pid sc q = q @ new \<and> length new \<le> 1 \<and> (\<forall>x \<in> set new. is_scan (q_task x))"
  by (auto simp: rescanUnconfirmed_def enqueue_def Let_def split: option.split sum.split)

lemma fan_out_Cons: "fan_out nd metas hs n new \<Longrightarrow> fan_out nd metas (h # hs) n new"
  by (auto simp: fan_out_def)

lemma filter_none: "\<forall>x \<in> set new. \<not> P x \<Longrightarrow> filter P new = []"
  by (simp add: filter_empty_conv)

lemma notify_loop_extends:
  "\<exists>new. notify_loop nd pid sc metas hs rescanned q = q @ new \<and>
     fan_out nd metas hs (if rescanned then 0 else 1) new"
proof (induction hs arbitrary: rescanned q)
  case Nil
  then show ?case by (simp add: fan_out_def)
next
  case (Cons h hs)
  let ?m = "case metas (tht_AdvisoryID h) of Some m \<Rightarrow> m | None \<Rightarrow> no_meta"
  consider (alert) "tht_Match h = ''active_threat''" "am_KEV ?m" "nd_Enabled nd"
    | (rescan) "tht_Match h \<noteq> ''active_threat''" "tht_Match h = ''unconfirmed'' \<or> tht_Match h = []" "\<not> rescanned"
    | (skip) "notify_loop nd pid sc metas (h # hs) rescanned q = notify_loop nd pid sc metas hs rescanned q"
    by (cases "tht_Match h = ''active_threat''"; cases "am_KEV ?m"; cases "nd_Enabled nd"; cases rescanned;
        cases "tht_Match h = ''unconfirmed'' \<or> tht_Match h = []"; auto simp: Let_def)
  then show ?case
  proof cases
    case alert
    obtain a where a: "notifyKEVHit nd pid h ?m q = q @ a" "\<forall>x \<in> set a. \<not> is_scan (q_task x)"
      using notifyKEVHit_extends by blast
    obtain b where b: "notify_loop nd pid sc metas hs rescanned (q @ a) = (q @ a) @ b"
      "fan_out nd metas hs (if rescanned then 0 else 1) b" using Cons by blast
    have "\<exists>m. metas (tht_AdvisoryID h) = Some m \<and> am_KEV m"
      using alert(2) by (auto simp: no_meta_def split: option.splits)
    then have "fan_out nd metas (h # hs) (if rescanned then 0 else 1) (a @ b)"
      using b(2) alert by (simp add: fan_out_def filter_none [OF a(2)])
    then show ?thesis using alert a(1) b(1) by (intro exI [of _ "a @ b"]) simp
  next
    case rescan
    obtain a where a: "rescanUnconfirmed nd pid sc q = q @ a" "length a \<le> 1" "\<forall>x \<in> set a. is_scan (q_task x)"
      using rescan_extends by blast
    obtain b where b: "notify_loop nd pid sc metas hs True (q @ a) = (q @ a) @ b" "fan_out nd metas hs 0 b"
      using Cons [of True "q @ a"] by auto
    have "length (filter (\<lambda>x. is_scan (q_task x)) a) \<le> 1"
      by (rule order_trans [OF length_filter_le a(2)])
    then have "fan_out nd metas (h # hs) 1 (a @ b)" using b(2) a(3) by (auto simp: fan_out_def)
    then show ?thesis using rescan a(1) b(1) by (intro exI [of _ "a @ b"]) (auto simp: Let_def)
  next
    case skip
    then show ?thesis using Cons [of rescanned q] fan_out_Cons by auto
  qed
qed

lemma fresh_match:
  "reconcile_loop ok hits prior tbl fresh = (Inr out, tbl') \<Longrightarrow> h \<in> set out \<Longrightarrow>
   h \<in> set fresh \<or> (\<exists>g \<in> set hits. tht_Match h = tht_Match (with_defaults g))"
proof (induction hits arbitrary: prior tbl fresh)
  case (Cons h0 hs)
  show ?case
  proof (cases "trim_space (tht_AdvisoryID h0) = []")
    case True
    with Cons.prems Cons.IH [of prior tbl fresh] show ?thesis by auto
  next
    case False
    define g where "g = (with_defaults h0)\<lparr>tht_Runtime := final_runtime (prior (hit_key h0)) (tht_Runtime (with_defaults h0))\<rparr>"
    define fresh1 where "fresh1 = (case prior (hit_key h0) of None \<Rightarrow> fresh @ [g]
      | Some p \<Rightarrow> if pr_inventory p \<noteq> tht_Inventory g \<or> pr_match p \<noteq> tht_Match g then fresh @ [g] else fresh)"
    have "reconcile_loop ok hs (prior(hit_key g \<mapsto> prior_of (hit_row_of g))) (upsert_hit (hit_row_of g) tbl) fresh1
        = (Inr out, tbl')"
    proof -
      have "reconcile_loop ok (h0 # hs) prior tbl fresh = (if \<not> ok (hit_row_of g)
          then (Inl (''reconcile inventory hit '' @ tht_AdvisoryID h0), tbl)
          else reconcile_loop ok hs (prior(hit_key g \<mapsto> prior_of (hit_row_of g))) (upsert_hit (hit_row_of g) tbl) fresh1)"
        unfolding fresh1_def g_def using False by (simp add: Let_def cong: option.case_cong if_cong)
      then show ?thesis using Cons.prems(1) by (simp split: if_splits)
    qed
    from Cons.IH [OF this Cons.prems(2)]
    have "h \<in> set fresh1 \<or> (\<exists>g \<in> set hs. tht_Match h = tht_Match (with_defaults g))" .
    moreover have "set fresh1 \<subseteq> insert g (set fresh)" by (auto simp: fresh1_def split: option.split)
    moreover have "tht_Match g = tht_Match (with_defaults h0)" by (simp add: g_def)
    ultimately show ?thesis by auto
  qed
qed simp

lemma no_findings_unconfirmed: "h \<in> set (MatchQueryHits hits kev []) \<Longrightarrow> hit_Match h = MatchUnconfirmed"
  by (auto simp: MatchQueryHits_filter matchFinding_def buildHit_def Let_def)

subsection \<open>Repositories\<close>

lemma component_char_plain:
  assumes "isRepoPathComponent s" "c \<in> set s"
  shows "\<not> ascii_space c" "of_char c < (128::nat)" "c \<noteq> CHR ''/''" "c \<noteq> CHR ''#''" "c \<noteq> CHR '':''" "c \<noteq> CHR ''@''"
    "c \<noteq> CHR ''?''" "c \<noteq> CHR '' ''" "c \<noteq> newline" "c \<noteq> CHR 0x09"
proof -
  have "component_char c" using assms by (auto simp: isRepoPathComponent_def list_all_iff split: if_splits)
  then show "\<not> ascii_space c" "of_char c < (128::nat)" "c \<noteq> CHR ''/''" "c \<noteq> CHR ''#''" "c \<noteq> CHR '':''" "c \<noteq> CHR ''@''"
    "c \<noteq> CHR ''?''" "c \<noteq> CHR '' ''" "c \<noteq> newline" "c \<noteq> CHR 0x09"
    by (auto simp: component_char_def ascii_space_def newline_def Let_def)
qed

lemma component_absent:
  assumes "isRepoPathComponent s"
  shows "CHR ''/'' \<notin> set s" "CHR ''#'' \<notin> set s" "CHR '':'' \<notin> set s" "CHR ''@'' \<notin> set s"
    "CHR ''?'' \<notin> set s" "CHR '' '' \<notin> set s" "newline \<notin> set s" "CHR 0x09 \<notin> set s"
  using component_char_plain [OF assms] by blast+

lemma component_ne: "isRepoPathComponent s \<Longrightarrow> s \<noteq> []"
  by (auto simp: isRepoPathComponent_def)

lemma index_of_absent: "c \<notin> set s \<Longrightarrow> c \<in> set sub \<Longrightarrow> index_of s sub = None"
  by (cases "index_of s sub") (auto dest!: index_of_Some, metis Un_iff set_append)

lemma not_contains_absent: "c \<notin> set s \<Longrightarrow> c \<in> set sub \<Longrightarrow> \<not> contains s sub"
  by (simp add: contains_def index_of_absent)

lemma split_on_absent: "c \<notin> set s \<Longrightarrow> split_on c s = [s]"
  by (induction s) auto

lemma split_two: "c \<notin> set a \<Longrightarrow> c \<notin> set b \<Longrightarrow> split_on c (a @ c # b) = [a, b]"
  by (simp add: split_on_append split_on_absent)

lemma trim_cutset_id: "s \<noteq> [] \<Longrightarrow> hd s \<notin> set cs \<Longrightarrow> last s \<notin> set cs \<Longrightarrow> trim_cutset cs s = s"
proof -
  assume s: "s \<noteq> []" "hd s \<notin> set cs" "last s \<notin> set cs"
  then have "dropWhile (\<lambda>c. c \<in> set cs) s = s" by (cases s) auto
  moreover have "dropWhile (\<lambda>c. c \<in> set cs) (rev s) = rev s"
    using s by (cases s rule: rev_cases) auto
  ultimately show ?thesis by (simp add: trim_cutset_def)
qed

lemma owner_repo_two:
  assumes "isRepoPathComponent o'" "isRepoPathComponent r" "\<not> has_suffix r ''.git''"
  shows "owner_repo (o' @ ''/'' @ r) = Some (o', r)" "owner_repo (o' @ ''/'' @ r @ ''.git'') = Some (o', r)"
proof -
  have ne: "o' \<noteq> []" "r \<noteq> []" using assms component_ne by auto
  have ch: "CHR ''/'' \<notin> set o'" "CHR ''/'' \<notin> set r"
    using component_char_plain(3) assms by blast+
  have "hd o' \<noteq> CHR ''/''" "last r \<noteq> CHR ''/''" using ne ch by (metis hd_in_set, metis last_in_set)
  then have t: "trim_cutset ''/'' (o' @ ''/'' @ r) = o' @ ''/'' @ r"
    "trim_cutset ''/'' (o' @ ''/'' @ r @ ''.git'') = o' @ ''/'' @ r @ ''.git''"
    using ne by (auto intro!: trim_cutset_id)
  have "split_on CHR ''/'' (o' @ CHR ''/'' # r) = [o', r]"
    "split_on CHR ''/'' (o' @ CHR ''/'' # (r @ ''.git'')) = [o', r @ ''.git'']"
    using ch by (intro split_two; simp)+
  moreover have "trim_suffix r ''.git'' = r" "trim_suffix (r @ ''.git'') ''.git'' = r"
    using assms(3) by (simp_all add: trim_suffix_def has_suffix_iff)
  ultimately show "owner_repo (o' @ ''/'' @ r) = Some (o', r)" "owner_repo (o' @ ''/'' @ r @ ''.git'') = Some (o', r)"
    using t ne assms(1,2) by (simp_all add: owner_repo_def)
qed

lemma not_prefix_absent: "c \<notin> set s \<Longrightarrow> c \<in> set p \<Longrightarrow> \<not> has_prefix s p"
  by (auto simp: has_prefix_iff)

text \<open>A spelling without the scheme: no character of it needs care.\<close>

lemma bare_ref:
  assumes "isRepoPathComponent o'" "isRepoPathComponent r" "\<not> has_suffix o' ''.git''" "\<not> has_suffix r ''.git''"
    "o' \<noteq> ''github.com''"
  shows "github_path parse_url (o' @ ''/'' @ r) = Some (o' @ ''/'' @ r)"
proof -
  let ?u = "o' @ ''/'' @ r"
  note p = component_absent [OF assms(1)] component_absent [OF assms(2)]
  have colon: "CHR '':'' \<notin> set ?u" and at: "CHR ''@'' \<notin> set ?u" using p by simp_all
  have "\<not> contains_any ?u ([CHR '' '', CHR 0x09, newline] @ ''?'')"
    using p by (auto simp: contains_any_def newline_def)
  moreover have "split_on CHR ''/'' ?u = [o', r]" using p split_two [of "CHR ''/''" o' r] by simp
  ultimately have bare: "isBareRepoRef ?u"
    using assms not_contains_absent [OF colon] not_contains_absent [OF at]
    by (simp add: isBareRepoRef_def trim_suffix_def)
  have "\<not> has_prefix ?u ''github.com/''"
  proof
    assume "has_prefix ?u ''github.com/''"
    then obtain x where "o' @ CHR ''/'' # r = ''github.com'' @ CHR ''/'' # x" by (auto simp: has_prefix_iff)
    moreover have "CHR ''/'' \<notin> set o'" "CHR ''/'' \<notin> set r" using p by simp_all
    ultimately have "o' = ''github.com''" using append_Cons_eq_iff [of "CHR ''/''" o' r "''github.com''" x] by blast
    with assms(5) show False ..
  qed
  moreover have "\<not> has_prefix ?u ''git@github.com:''" "\<not> has_prefix ?u ''https://github.com/''"
    "\<not> has_prefix ?u ''http://github.com/''"
    using not_prefix_absent [OF colon] by simp_all
  ultimately show ?thesis using bare by (simp add: github_path_def)
qed

lemma prefixed_refs:
  "github_path parse_url (''github.com/'' @ x) = Some x"
  "github_path parse_url (''https://github.com/'' @ x) = Some x"
  "github_path parse_url (''git@github.com:'' @ x) = Some x"
  by (simp_all add: github_path_def trim_prefix_def)

lemma repo_url_trim:
  assumes "isRepoPathComponent o'" "isRepoPathComponent r" "u \<in> set (repo_urls o' r)"
  shows "trim_space u = u" "CHR ''#'' \<notin> set u" "u \<noteq> []"
proof -
  have ne: "o' \<noteq> []" "r \<noteq> []" using assms component_ne by auto
  have "hd o' \<in> set o'" "last r \<in> set r" using ne by auto
  note h = component_char_plain [OF assms(1) this(1)] component_char_plain [OF assms(2) this(2)]
  show "trim_space u = u"
    using assms(3) ne h by (auto simp: repo_urls_def ascii_space_def intro!: trim_ascii)
  show "CHR ''#'' \<notin> set u"
    using assms(3) component_absent(2) [OF assms(1)] component_absent(2) [OF assms(2)]
    by (auto simp: repo_urls_def)
  show "u \<noteq> []" using assms(3) ne by (auto simp: repo_urls_def)
qed

section \<open>Properties\<close>

text \<open>The spellings of a repository agree: \<^verbatim>\<open>owner/repo\<close>, the web address with and
  without \<^verbatim>\<open>.git\<close> and scheme, and the ssh form name the same owner, repository and default
  branch.\<close>

theorem parseGitHubRepo_spellings:
  assumes "isRepoPathComponent owner" "isRepoPathComponent repo"
    and "\<not> has_suffix owner ''.git''" "\<not> has_suffix repo ''.git''" "owner \<noteq> ''github.com''"
    and "url \<in> set (repo_urls owner repo)"
  shows "parseGitHubRepo parse_url (repo_project url) = Some (owner, repo, ''main'')"
proof -
  note u = repo_url_trim [OF assms(1,2,6)]
  have "github_path parse_url url \<in> {Some (owner @ ''/'' @ repo), Some (owner @ ''/'' @ repo @ ''.git'')}"
    using assms(6) bare_ref [OF assms(1-5), of parse_url] prefixed_refs [of parse_url]
    unfolding repo_urls_def by auto
  moreover have "equal_fold (trim_space ''GitHub'') ''github''" by code_simp
  ultimately show ?thesis
    using u owner_repo_two [OF assms(1,2,4)] index_of_absent [of "CHR ''#''" url "''#''"]
    by (auto simp: parseGitHubRepo_def repo_project_def Let_def)
qed

theorem parseGitHubRepo_spellings_witness:
  "parseGitHubRepo (\<lambda>_. None) (repo_project ''git@github.com:acme/app.git'') = Some (''acme'', ''app'', ''main'')"
proof -
  have c: "isRepoPathComponent ''acme''" "isRepoPathComponent ''app''" "\<not> has_suffix ''acme'' ''.git''"
    "\<not> has_suffix ''app'' ''.git''" by code_simp+
  have "''git@github.com:acme/app.git'' \<in> set (repo_urls ''acme'' ''app'')" by (simp add: repo_urls_def)
  from parseGitHubRepo_spellings [OF c _ this] show ?thesis by simp
qed

text \<open>What a fan-out enqueues: at most one rescan per call, and an alert only when alerts
  are enabled and some hit is an active threat of a KEV advisory.\<close>

theorem NotifyForHits_bounds:
  "\<exists>new. NotifyForHits nd projectID hits metas q = q @ new \<and> fan_out nd metas hits 1 new"
  using notify_loop_extends [of nd projectID _ metas hits False q] by (simp add: NotifyForHits_def)

text \<open>The sync of a project never raises a KEV alert, whatever OSV, the KEV catalog and the
  stores answer: it matches with no findings, so no hit is an active threat, and all that a
  sync can enqueue is one rescan.\<close>

theorem syncProject_never_alerts:
  "\<exists>new. sy_queue (snd (syncProject env project kev st)) = sy_queue st @ new \<and>
     length new \<le> 1 \<and> list_all (\<lambda>x. is_scan (q_task x)) new"
proof -
  have quiet: "\<exists>new. NotifyForHits nd pid fresh metas q = q @ new \<and> length new \<le> Suc 0 \<and> (\<forall>x \<in> set new. is_scan (q_task x))"
    if "ReconcileHits ok (map (threatHitFromMatch m) (MatchQueryHits qhs kev [])) rows = (Inr fresh, rows')"
    for nd pid fresh metas q ok m qhs rows rows'
  proof -
    have "tht_Match h = ''unconfirmed''" if "h \<in> set fresh" for h
      using fresh_match [OF \<open>ReconcileHits ok _ rows = _\<close> [unfolded ReconcileHits_def] that] no_findings_unconfirmed
      by (fastforce simp: threatHitFromMatch_def with_defaults_def)
    then have no: "\<not> (\<exists>h \<in> set fresh. tht_Match h = ''active_threat'' \<and> P h)" for P by fastforce
    obtain new where new: "NotifyForHits nd pid fresh metas q = q @ new" "fan_out nd metas fresh 1 new"
      using notify_loop_extends [of nd pid _ metas fresh False q] by (auto simp: NotifyForHits_def)
    then have "\<forall>x \<in> set new. is_scan (q_task x)" using no by (auto simp: fan_out_def)
    moreover from this have "filter (\<lambda>x. is_scan (q_task x)) new = new" by (simp add: filter_id_conv)
    ultimately show ?thesis using new by (auto simp: fan_out_def)
  qed
  show ?thesis
    by (auto simp: syncProject_def Let_def list_all_iff split: sum.split prod.split option.split intro: quiet)
qed

text \<open>A sync of one project by its identifier does nothing: the job builds a project that has
  only the identifier, so the production fetcher finds no repository and the project is
  skipped, with a result that says success.\<close>

theorem SyncThreatIntel_single_noop:
  assumes "projectID \<noteq> []" and "se_FetchManifest env = FetchManifestForProject io stored env_token"
  shows "SyncThreatIntel env projectID st = (Inr (), st)"
  using assms
  by (simp add: SyncThreatIntel_def syncProject_def FetchManifestForProject_def fetchProjectManifest_def
      parseGitHubRepo_def)

theorem SyncThreatIntel_single_noop_witness:
  "SyncThreatIntel sample_env ''p1'' sample_state = (Inr (), sample_state)"
  by (rule SyncThreatIntel_single_noop [of _ _ sample_github "\<lambda>_. None" "[]"]) (simp_all add: sample_env_def)

end
