(* ===== verification/Finding_Store.thy ===== *)
theory Finding_Store
  imports Scanner_Registry
begin

text \<open>
  The tables of scans and findings (\<^verbatim>\<open>src/internal/repository/scan.go\<close>, \<^verbatim>\<open>finding.go\<close>):
  a table is a list of rows, an operation a function on it that follows the SQL statement.
  Times are seconds; \<^verbatim>\<open>NOW()\<close> and the generated identifier of an inserted row are
  arguments.  Refusals of the database are arguments too, given as the error they produce.
\<close>

section \<open>Scans\<close>

record scan_row =
  sn_ID :: string
  sn_Target :: string
  sn_Scanner :: string
  sn_Status :: string
  sn_Batch :: string
  sn_Project :: "string option"
  sn_Error :: "string option"
  sn_Log :: "string option"
  sn_Started :: "int option"
  sn_Completed :: "int option"

definition Scan_Insert :: "string \<Rightarrow> string \<Rightarrow> string \<Rightarrow> string \<Rightarrow> string option \<Rightarrow> scan_row list \<Rightarrow> scan_row list" where
  "Scan_Insert new_id target scanner batchID projectID scans = scans @
     [\<lparr>sn_ID = new_id, sn_Target = target, sn_Scanner = scanner, sn_Status = ''pending'',
       sn_Batch = batchID, sn_Project = projectID, sn_Error = None, sn_Log = None,
       sn_Started = None, sn_Completed = None\<rparr>]"

definition Scan_Get :: "string \<Rightarrow> scan_row list \<Rightarrow> scan_row option" where
  "Scan_Get scanID scans = row_by sn_ID scanID scans"

definition MarkRunning :: "int \<Rightarrow> string \<Rightarrow> scan_row list \<Rightarrow> scan_row list" where
  "MarkRunning now scanID scans = update_where (\<lambda>s. sn_ID s = scanID)
     (\<lambda>s. s\<lparr>sn_Status := ''running'', sn_Started := Some now\<rparr>) scans"

definition MarkCompleted :: "int \<Rightarrow> string \<Rightarrow> string \<Rightarrow> string option \<Rightarrow> scan_row list \<Rightarrow> scan_row list" where
  "MarkCompleted now scanID logtext exitErr scans =
     (let scans1 = update_where (\<lambda>s. sn_ID s = scanID)
        (\<lambda>s. s\<lparr>sn_Status := ''completed'', sn_Completed := Some now, sn_Log := Some logtext\<rparr>) scans
      in case exitErr of
           None \<Rightarrow> scans1
         | Some e \<Rightarrow> if e = [] then scans1
             else update_where (\<lambda>s. sn_ID s = scanID) (\<lambda>s. s\<lparr>sn_Error := Some e\<rparr>) scans1)"

definition MarkFailed :: "int \<Rightarrow> string \<Rightarrow> string \<Rightarrow> string \<Rightarrow> scan_row list \<Rightarrow> scan_row list" where
  "MarkFailed now scanID errMsg logtext scans = update_where (\<lambda>s. sn_ID s = scanID)
     (\<lambda>s. s\<lparr>sn_Status := ''failed'', sn_Completed := Some now, sn_Error := Some errMsg, sn_Log := Some logtext\<rparr>) scans"

text \<open>The table, and the number of rows affected.\<close>

definition RecoverStuck :: "int \<Rightarrow> scan_row list \<Rightarrow> nat \<times> scan_row list" where
  "RecoverStuck now scans =
     (length (filter (\<lambda>s. sn_Status s = ''running'') scans),
      update_where (\<lambda>s. sn_Status s = ''running'')
        (\<lambda>s. s\<lparr>sn_Status := ''failed'', sn_Error := Some ''worker restarted'', sn_Completed := Some now\<rparr>) scans)"

section \<open>Findings\<close>

record finding =
  fd_ID :: string
  fd_ScanID :: string
  fd_Scanner :: string
  fd_RuleID :: string
  fd_Title :: string
  fd_Description :: string
  fd_Severity :: string
  fd_FilePath :: string
  fd_LineStart :: int
  fd_LineEnd :: int
  fd_CodeSnippet :: string
  fd_Raw :: string
  fd_SLADeadline :: "int option"
  fd_CVEID :: "string option"
  fd_CWEID :: "string option"
  fd_Suppressed :: bool
  fd_SecretHash :: string
  fd_ProjectID :: "string option"
  fd_Fingerprint :: string
  fd_PkgName :: string
  fd_PkgVersion :: string
  fd_CreatedAt :: int
  fd_Status :: string
  fd_AssignedTo :: "string option"
  fd_FalsePositive :: bool
  fd_Notes :: "string option"
  fd_ResolvedAt :: "int option"
  fd_SLAAttempted :: "int option"
  fd_Confidence :: "rat option"
  fd_VulnID :: "string option"
  fd_AISummary :: "string option"
  fd_SummaryFP :: "string option"
  fd_SummaryState :: string
  fd_RemediationSlug :: "string option"

record finding_insert =
  fi_ScanID :: string
  fi_Scanner :: string
  fi_RuleID :: string
  fi_Title :: string
  fi_Description :: string
  fi_Severity :: string
  fi_FilePath :: string
  fi_LineStart :: int
  fi_LineEnd :: int
  fi_CodeSnippet :: string
  fi_Raw :: string
  fi_SLADeadline :: "int option"
  fi_CVEID :: "string option"
  fi_CWEID :: "string option"
  fi_Suppressed :: bool
  fi_SecretHash :: string
  fi_ProjectID :: string
  fi_Fingerprint :: string
  fi_PkgName :: string
  fi_PkgVersion :: string

definition new_finding :: "string \<Rightarrow> int \<Rightarrow> finding_insert \<Rightarrow> finding" where
  "new_finding new_id now f =
     \<lparr>fd_ID = new_id, fd_ScanID = fi_ScanID f, fd_Scanner = fi_Scanner f, fd_RuleID = fi_RuleID f,
      fd_Title = fi_Title f, fd_Description = fi_Description f, fd_Severity = fi_Severity f,
      fd_FilePath = fi_FilePath f, fd_LineStart = fi_LineStart f, fd_LineEnd = fi_LineEnd f,
      fd_CodeSnippet = fi_CodeSnippet f, fd_Raw = fi_Raw f, fd_SLADeadline = fi_SLADeadline f,
      fd_CVEID = fi_CVEID f, fd_CWEID = fi_CWEID f, fd_Suppressed = fi_Suppressed f,
      fd_SecretHash = fi_SecretHash f, fd_ProjectID = Some (fi_ProjectID f),
      fd_Fingerprint = fi_Fingerprint f, fd_PkgName = fi_PkgName f, fd_PkgVersion = fi_PkgVersion f,
      fd_CreatedAt = now, fd_Status = ''open'', fd_AssignedTo = None, fd_FalsePositive = False,
      fd_Notes = None, fd_ResolvedAt = None, fd_SLAAttempted = None, fd_Confidence = None,
      fd_VulnID = None, fd_AISummary = None, fd_SummaryFP = None, fd_SummaryState = ''none'',
      fd_RemediationSlug = None\<rparr>"

text \<open>The unique index \<^verbatim>\<open>(project_id, fingerprint)\<close> of migration 029; \<^verbatim>\<open>project_id\<close> is a
  \<^verbatim>\<open>UUID\<close> column, which refuses the empty text.  The result is the error, or the new
  identifier, which is empty when the row was a duplicate.\<close>

definition same_fingerprint :: "finding_insert \<Rightarrow> finding \<Rightarrow> bool" where
  "same_fingerprint f r \<longleftrightarrow> fd_ProjectID r = Some (fi_ProjectID f) \<and> fd_Fingerprint r = fi_Fingerprint f"

definition Insert ::
  "(finding_insert \<Rightarrow> string option) \<Rightarrow> string \<Rightarrow> int \<Rightarrow> finding_insert \<Rightarrow> finding list \<Rightarrow> (string + string) \<times> finding list" where
  "Insert refuse new_id now f rows =
     (if fi_ProjectID f = [] then (Inl ''insert finding: invalid input syntax for type uuid'', rows)
      else (case refuse f of
          Some e \<Rightarrow> (Inl (''insert finding: '' @ e), rows)
        | None \<Rightarrow> if list_ex (same_fingerprint f) rows then (Inr [], rows)
            else (Inr new_id, rows @ [new_finding new_id now f])))"

record finding_update =
  fu_Status :: "string option"
  fu_AssignedTo :: "string option"
  fu_FalsePositive :: "bool option"
  fu_Notes :: "string option"

definition coalesce_col :: "'a option \<Rightarrow> 'a \<Rightarrow> 'a" where
  "coalesce_col x y = (case x of Some v \<Rightarrow> v | None \<Rightarrow> y)"

definition apply_update :: "int \<Rightarrow> finding_update \<Rightarrow> finding \<Rightarrow> finding" where
  "apply_update now upd r = r\<lparr>
     fd_Status := coalesce_col (fu_Status upd) (fd_Status r),
     fd_AssignedTo := (if fu_AssignedTo upd = Some [] then None
        else (case fu_AssignedTo upd of Some a \<Rightarrow> Some a | None \<Rightarrow> fd_AssignedTo r)),
     fd_FalsePositive := coalesce_col (fu_FalsePositive upd) (fd_FalsePositive r),
     fd_Notes := (case fu_Notes upd of Some n \<Rightarrow> Some n | None \<Rightarrow> fd_Notes r),
     fd_ResolvedAt := (case fu_Status upd of
        Some s \<Rightarrow> if s = ''fixed'' \<or> s = ''verified'' then Some now else None
      | None \<Rightarrow> fd_ResolvedAt r)\<rparr>"

definition GetByID :: "string \<Rightarrow> finding list \<Rightarrow> finding option" where
  "GetByID findingID rows = row_by fd_ID findingID rows"

definition Update :: "int \<Rightarrow> string \<Rightarrow> finding_update \<Rightarrow> finding list \<Rightarrow> finding option \<times> finding list" where
  "Update now findingID upd rows =
     (let rows' = update_where (\<lambda>r. fd_ID r = findingID) (apply_update now upd) rows
      in (GetByID findingID rows', rows'))"

definition UpdateRemediationSlug :: "string \<Rightarrow> string \<Rightarrow> finding list \<Rightarrow> finding list" where
  "UpdateRemediationSlug findingID slug rows =
     update_where (\<lambda>r. fd_ID r = findingID \<and> fd_RemediationSlug r = None) (\<lambda>r. r\<lparr>fd_RemediationSlug := Some slug\<rparr>) rows"

definition UpdateSnippet :: "string \<Rightarrow> string \<Rightarrow> finding list \<Rightarrow> finding list" where
  "UpdateSnippet findingID snippet rows =
     update_where (\<lambda>r. fd_ID r = findingID) (\<lambda>r. r\<lparr>fd_CodeSnippet := snippet\<rparr>) rows"

subsection \<open>Deadlines\<close>

definition closed_statuses :: "string list" where
  "closed_statuses = [''fixed'', ''verified'', ''accepted_risk'']"

record sla_breach =
  sb_FindingID :: string
  sb_ScanID :: string
  sb_Repository :: string
  sb_Severity :: string
  sb_Title :: string
  sb_RuleID :: string
  sb_FilePath :: string
  sb_Line :: int
  sb_Scanner :: string
  sb_SLADeadline :: int
  sb_CreatedAt :: int

definition pending_breach :: "int \<Rightarrow> finding \<Rightarrow> bool" where
  "pending_breach now r \<longleftrightarrow> (case fd_SLADeadline r of None \<Rightarrow> False | Some d \<Rightarrow> d < now) \<and>
     fd_SLAAttempted r = None \<and> \<not> fd_Suppressed r \<and> fd_Status r \<notin> set closed_statuses"

definition breach_of :: "scan_row \<Rightarrow> finding \<Rightarrow> sla_breach" where
  "breach_of s r = \<lparr>sb_FindingID = fd_ID r, sb_ScanID = fd_ScanID r, sb_Repository = sn_Target s,
     sb_Severity = fd_Severity r, sb_Title = fd_Title r, sb_RuleID = fd_RuleID r,
     sb_FilePath = fd_FilePath r, sb_Line = fd_LineStart r, sb_Scanner = fd_Scanner r,
     sb_SLADeadline = (case fd_SLADeadline r of Some d \<Rightarrow> d | None \<Rightarrow> 0), sb_CreatedAt = fd_CreatedAt r\<rparr>"

text \<open>The join with the scan of each finding, in table order.\<close>

fun breach_rows :: "int \<Rightarrow> scan_row list \<Rightarrow> finding list \<Rightarrow> sla_breach list" where
  "breach_rows now scans [] = []"
| "breach_rows now scans (r # rows) = (case Scan_Get (fd_ScanID r) scans of
      None \<Rightarrow> breach_rows now scans rows
    | Some s \<Rightarrow> if pending_breach now r then breach_of s r # breach_rows now scans rows
        else breach_rows now scans rows)"

definition ListPendingSLABreaches :: "int \<Rightarrow> int \<Rightarrow> scan_row list \<Rightarrow> finding list \<Rightarrow> sla_breach list" where
  "ListPendingSLABreaches now limit scans rows =
     (let n = (if limit < 1 \<or> limit > 500 then 100 else nat limit)
      in take n (sort_key sb_SLADeadline (breach_rows now scans rows)))"

definition MarkSLABreachAttempted :: "int \<Rightarrow> string list \<Rightarrow> finding list \<Rightarrow> finding list" where
  "MarkSLABreachAttempted now findingIDs rows =
     (if findingIDs = [] then rows
      else update_where (\<lambda>r. fd_ID r \<in> set findingIDs) (\<lambda>r. r\<lparr>fd_SLAAttempted := Some now\<rparr>) rows)"

text \<open>\<^verbatim>\<open>GetSLASummary\<close> without a scope: overdue, due today, on track, no deadline.\<close>

definition GetSLASummary :: "int \<Rightarrow> finding list \<Rightarrow> nat \<times> nat \<times> nat \<times> nat" where
  "GetSLASummary now rows =
     (let live = filter (\<lambda>r. fd_Status r \<notin> set closed_statuses) rows;
          cnt = (\<lambda>P. length (filter (\<lambda>r. case fd_SLADeadline r of None \<Rightarrow> False | Some d \<Rightarrow> P d) live))
      in (cnt (\<lambda>d. d < now), cnt (\<lambda>d. d \<ge> now \<and> d < now + 86400), cnt (\<lambda>d. d \<ge> now + 86400),
          length (filter (\<lambda>r. fd_SLADeadline r = None) live)))"

section \<open>Specifications\<close>

text \<open>The life of the scan table: what the handlers and the worker do to it.\<close>

inductive scan_step :: "scan_row list \<Rightarrow> scan_row list \<Rightarrow> bool" where
  insert: "new_id \<notin> sn_ID ` set scans \<Longrightarrow> scan_step scans (Scan_Insert new_id target scanner batch project scans)"
| running: "scan_step scans (MarkRunning now scanID scans)"
| completed: "scan_step scans (MarkCompleted now scanID logtext exitErr scans)"
| failed: "scan_step scans (MarkFailed now scanID errMsg logtext scans)"
| recover: "scan_step scans (snd (RecoverStuck now scans))"

definition scan_ok :: "scan_row \<Rightarrow> bool" where
  "scan_ok s \<longleftrightarrow> sn_Status s \<in> {''pending'', ''running'', ''completed'', ''failed''} \<and>
     (sn_Status s \<in> {''completed'', ''failed''} \<longrightarrow> sn_Completed s \<noteq> None) \<and>
     (sn_Status s = ''failed'' \<longrightarrow> sn_Error s \<noteq> None) \<and>
     (sn_Status s = ''running'' \<longrightarrow> sn_Started s \<noteq> None) \<and>
     (sn_Status s = ''pending'' \<longrightarrow> sn_Completed s = None \<and> sn_Error s = None)"

definition scans_ok :: "scan_row list \<Rightarrow> bool" where
  "scans_ok scans \<longleftrightarrow> distinct (map sn_ID scans) \<and> list_all scan_ok scans"

text \<open>The life of the findings table.\<close>

definition resolved_ok :: "finding \<Rightarrow> bool" where
  "resolved_ok r \<longleftrightarrow> (fd_ResolvedAt r \<noteq> None \<longleftrightarrow> fd_Status r \<in> {''fixed'', ''verified''})"

definition findings_ok :: "finding list \<Rightarrow> bool" where
  "findings_ok rows \<longleftrightarrow> distinct (map fd_ID rows) \<and>
     distinct (map (\<lambda>r. (fd_ProjectID r, fd_Fingerprint r)) (filter (\<lambda>r. fd_ProjectID r \<noteq> None) rows)) \<and>
     list_all resolved_ok rows"

inductive finding_step :: "finding list \<Rightarrow> finding list \<Rightarrow> bool" where
  insert: "new_id \<notin> fd_ID ` set rows \<Longrightarrow> finding_step rows (snd (Insert refuse new_id now f rows))"
| update: "finding_step rows (snd (Update now findingID upd rows))"
| slug: "finding_step rows (UpdateRemediationSlug findingID slug rows)"
| snippet: "finding_step rows (UpdateSnippet findingID snippet rows)"
| attempted: "finding_step rows (MarkSLABreachAttempted now findingIDs rows)"

text \<open>A finding to write concrete instances with.\<close>

definition sample_insert :: finding_insert where
  "sample_insert = \<lparr>fi_ScanID = ''s1'', fi_Scanner = ''grype'', fi_RuleID = ''CVE-2024-1'', fi_Title = ''t'',
     fi_Description = [], fi_Severity = ''high'', fi_FilePath = ''/go.mod'', fi_LineStart = 0, fi_LineEnd = 0,
     fi_CodeSnippet = [], fi_Raw = [], fi_SLADeadline = Some 100, fi_CVEID = Some ''CVE-2024-1'', fi_CWEID = None,
     fi_Suppressed = False, fi_SecretHash = [], fi_ProjectID = ''p1'', fi_Fingerprint = ''fp'',
     fi_PkgName = ''a'', fi_PkgVersion = ''1''\<rparr>"

section \<open>Lemmas\<close>

lemmas scan_table_defs = Scan_Insert_def MarkRunning_def MarkCompleted_def MarkFailed_def RecoverStuck_def

lemma scan_update_ok:
  "scans_ok scans \<Longrightarrow> (\<And>s. sn_ID (f s) = sn_ID s) \<Longrightarrow> (\<And>s. scan_ok s \<Longrightarrow> P s \<Longrightarrow> scan_ok (f s)) \<Longrightarrow>
    scans_ok (update_where P f scans)"
  by (auto simp: scans_ok_def map_update_where list_all_iff set_update_where)

lemma update_where_compose:
  "(\<And>r. P (f r) = P r) \<Longrightarrow> update_where P g (update_where P f rows) = update_where P (\<lambda>r. g (f r)) rows"
  by (induction rows) auto

lemma MarkCompleted_eq: "MarkCompleted now scanID logtext exitErr scans =
  update_where (\<lambda>s. sn_ID s = scanID)
    (\<lambda>s. s\<lparr>sn_Status := ''completed'', sn_Completed := Some now, sn_Log := Some logtext,
      sn_Error := (if exitErr = None \<or> exitErr = Some [] then sn_Error s else exitErr)\<rparr>) scans"
  by (cases exitErr) (auto simp: MarkCompleted_def Let_def update_where_compose intro!: arg_cong2 [of _ _ _ _ "\<lambda>f. update_where _ f"])

interpretation scan_table: invariant_machine "\<lambda>scans. scans = []" scan_step scans_ok
proof
  show "scans_ok s" if "s = []" for s using that by (simp add: scans_ok_def)
  show "scans_ok t" if "scans_ok s" and "scan_step s t" for s t
    using that(2,1)
  proof cases
    case (insert new_id target scanner batch project)
    with that(1) show ?thesis
      by (auto simp: scans_ok_def Scan_Insert_def scan_ok_def)
  next
    case (running now scanID)
    with that(1) show ?thesis
      by (auto simp: MarkRunning_def scan_ok_def intro!: scan_update_ok)
  next
    case (completed now scanID logtext exitErr)
    with that(1) show ?thesis
      by (auto simp: MarkCompleted_eq scan_ok_def intro!: scan_update_ok)
  next
    case (failed now scanID errMsg logtext)
    with that(1) show ?thesis
      by (auto simp: MarkFailed_def scan_ok_def intro!: scan_update_ok)
  next
    case (recover now)
    with that(1) show ?thesis
      by (auto simp: RecoverStuck_def scan_ok_def intro!: scan_update_ok)
  qed
qed


subsection \<open>Findings\<close>

lemma Insert_rows:
  "snd (Insert refuse new_id now f rows) =
    (if fst (Insert refuse new_id now f rows) = Inr new_id \<and> fi_ProjectID f \<noteq> [] \<and> refuse f = None \<and>
        \<not> list_ex (same_fingerprint f) rows
     then rows @ [new_finding new_id now f] else rows)"
  by (simp add: Insert_def split: option.split)

lemma new_finding_sel [simp]:
  "fd_ID (new_finding i now f) = i" "fd_ProjectID (new_finding i now f) = Some (fi_ProjectID f)"
  "fd_Fingerprint (new_finding i now f) = fi_Fingerprint f" "fd_Status (new_finding i now f) = ''open''"
  "fd_ResolvedAt (new_finding i now f) = None" "fd_Suppressed (new_finding i now f) = fi_Suppressed f"
  "fd_Scanner (new_finding i now f) = fi_Scanner f" "fd_ScanID (new_finding i now f) = fi_ScanID f"
  "fd_SLADeadline (new_finding i now f) = fi_SLADeadline f" "fd_Severity (new_finding i now f) = fi_Severity f"
  "fd_VulnID (new_finding i now f) = None" "fd_SLAAttempted (new_finding i now f) = None"
  "fd_Confidence (new_finding i now f) = None"
  by (simp_all add: new_finding_def)

lemma apply_update_sel [simp]:
  "fd_ID (apply_update now upd r) = fd_ID r" "fd_ProjectID (apply_update now upd r) = fd_ProjectID r"
  "fd_Fingerprint (apply_update now upd r) = fd_Fingerprint r"
  "fd_Suppressed (apply_update now upd r) = fd_Suppressed r"
  by (simp_all add: apply_update_def)

lemma resolved_update: "resolved_ok r \<Longrightarrow> resolved_ok (apply_update now upd r)"
  by (cases "fu_Status upd") (simp_all add: apply_update_def coalesce_col_def resolved_ok_def)

lemma findings_ok_update:
  assumes "findings_ok rows"
    and "\<And>r. fd_ID (f r) = fd_ID r" "\<And>r. fd_ProjectID (f r) = fd_ProjectID r" "\<And>r. fd_Fingerprint (f r) = fd_Fingerprint r"
    and "\<And>r. resolved_ok r \<Longrightarrow> resolved_ok (f r)"
  shows "findings_ok (update_where P f rows)"
proof -
  have "list_all resolved_ok (update_where P f rows)"
    using assms(1,5) by (auto simp: findings_ok_def list_all_iff set_update_where)
  with assms(1-4) show ?thesis
    by (simp add: findings_ok_def map_update_where filter_update_where)
qed

lemma findings_ok_append:
  assumes "findings_ok rows" "fd_ID r \<notin> fd_ID ` set rows" "resolved_ok r"
    and "\<And>q. q \<in> set rows \<Longrightarrow> fd_ProjectID r \<noteq> None \<Longrightarrow> \<not> (fd_ProjectID q = fd_ProjectID r \<and> fd_Fingerprint q = fd_Fingerprint r)"
  shows "findings_ok (rows @ [r])"
proof -
  have "(fd_ProjectID r, fd_Fingerprint r) \<notin> (\<lambda>r. (fd_ProjectID r, fd_Fingerprint r)) ` {q \<in> set rows. fd_ProjectID q \<noteq> None}"
    if "fd_ProjectID r \<noteq> None"
  proof
    assume "(fd_ProjectID r, fd_Fingerprint r) \<in> (\<lambda>r. (fd_ProjectID r, fd_Fingerprint r)) ` {q \<in> set rows. fd_ProjectID q \<noteq> None}"
    then obtain q where "q \<in> set rows" "fd_ProjectID q = fd_ProjectID r" "fd_Fingerprint q = fd_Fingerprint r" by auto
    with assms(4) [of q] that show False by simp
  qed
  with assms(1-3) show ?thesis by (simp add: findings_ok_def)
qed

lemma findings_ok_insert:
  assumes "findings_ok rows" "new_id \<notin> fd_ID ` set rows"
  shows "findings_ok (snd (Insert refuse new_id now f rows))"
proof (cases "list_ex (same_fingerprint f) rows \<or> fi_ProjectID f = [] \<or> refuse f \<noteq> None")
  case True
  with assms(1) show ?thesis by (auto simp: Insert_def split: option.split)
next
  case False
  then have "findings_ok (rows @ [new_finding new_id now f])"
    using assms by (intro findings_ok_append) (auto simp: list_ex_iff same_fingerprint_def resolved_ok_def)
  with False show ?thesis by (auto simp: Insert_def)
qed

interpretation finding_table: invariant_machine "\<lambda>rows. rows = []" finding_step findings_ok
proof
  show "findings_ok s" if "s = []" for s using that by (simp add: findings_ok_def)
  show "findings_ok t" if "findings_ok s" and "finding_step s t" for s t
    using that(2,1)
  proof cases
    case (insert new_id refuse now f)
    with that(1) show ?thesis by (simp add: findings_ok_insert)
  next
    case (update now findingID upd)
    have "findings_ok (update_where (\<lambda>r. fd_ID r = findingID) (apply_update now upd) s)"
      by (rule findings_ok_update [OF that(1)]) (simp_all add: resolved_update)
    with update show ?thesis by (simp add: Update_def Let_def)
  next
    case (slug findingID slug)
    with that(1) show ?thesis by (auto simp: UpdateRemediationSlug_def resolved_ok_def intro!: findings_ok_update)
  next
    case (snippet findingID snippet)
    with that(1) show ?thesis by (auto simp: UpdateSnippet_def resolved_ok_def intro!: findings_ok_update)
  next
    case (attempted now findingIDs)
    with that(1) show ?thesis by (auto simp: MarkSLABreachAttempted_def resolved_ok_def intro!: findings_ok_update)
  qed
qed

subsection \<open>Deadlines\<close>

lemma breach_rows_iff:
  "b \<in> set (breach_rows now scans rows) \<longleftrightarrow>
    (\<exists>r s. r \<in> set rows \<and> Scan_Get (fd_ScanID r) scans = Some s \<and> pending_breach now r \<and> b = breach_of s r)"
  by (induction rows) (auto split: option.splits)

lemma sb_FindingID_breach [simp]: "sb_FindingID (breach_of s r) = fd_ID r"
  by (simp add: breach_of_def)

lemma pending_attempted: "\<not> pending_breach now (r\<lparr>fd_SLAAttempted := Some t\<rparr>)"
  by (simp add: pending_breach_def)

lemma breach_rows_marked:
  "breach_rows now scans (MarkSLABreachAttempted t ids rows) =
    filter (\<lambda>b. sb_FindingID b \<notin> set ids) (breach_rows now scans rows)"
proof (cases "ids = []")
  case True
  then show ?thesis by (simp add: MarkSLABreachAttempted_def)
next
  case False
  then show ?thesis
    by (induction rows) (auto simp: MarkSLABreachAttempted_def pending_attempted split: option.splits)
qed

lemma set_ListPending: "set (ListPendingSLABreaches now limit scans rows) \<subseteq> set (breach_rows now scans rows)"
  unfolding ListPendingSLABreaches_def Let_def by (metis set_sort set_take_subset)

lemma length_ListPending: "length (ListPendingSLABreaches now limit scans rows) \<le> 500"
  by (auto simp: ListPendingSLABreaches_def Let_def)

lemma sorted_ListPending: "sorted (map sb_SLADeadline (ListPendingSLABreaches now limit scans rows))"
  unfolding ListPendingSLABreaches_def Let_def
  by (metis sorted_sort_key sorted_wrt_take take_map)

lemma ListPending_complete:
  "length (breach_rows now scans rows) \<le> 100 \<Longrightarrow>
    set (ListPendingSLABreaches now 100 scans rows) = set (breach_rows now scans rows)"
  by (simp add: ListPendingSLABreaches_def)

lemma SLASummary_partition:
  "GetSLASummary now rows = (a, b, c, d) \<Longrightarrow>
    a + b + c + d = length (filter (\<lambda>r. fd_Status r \<notin> set closed_statuses) rows)"
proof (induction rows arbitrary: a b c d)
  case Nil
  then show ?case by (simp add: GetSLASummary_def)
next
  case (Cons r rows)
  obtain a' b' c' d' where e: "GetSLASummary now rows = (a', b', c', d')" by (metis prod_cases4)
  show ?case
  proof (cases "fd_Status r \<in> set closed_statuses")
    case True
    then show ?thesis using Cons e by (simp add: GetSLASummary_def Let_def)
  next
    case False
    then show ?thesis using Cons.prems Cons.IH [OF e] e
      by (cases "fd_SLADeadline r") (auto simp: GetSLASummary_def Let_def)
  qed
qed

section \<open>Properties\<close>

text \<open>C22: Through any sequence of insertions, starts, completions, failures and recoveries
  the scan table stays well formed: identifiers are unique, the status is one of the four,
  a finished scan has its completion time, a failed one its error and a pending one
  neither; and after the recovery at worker start no scan is left running.\<close>

theorem scan_lifecycle:
  assumes "scan_step\<^sup>*\<^sup>* [] scans"
  shows "scans_ok scans \<and> \<not> (\<exists>s \<in> set (snd (RecoverStuck now scans)). sn_Status s = ''running'') \<and>
    fst (RecoverStuck now scans) = length (filter (\<lambda>s. sn_Status s = ''running'') scans)"
proof -
  have "scans_ok scans" using scan_table.reachable_inv [OF refl assms] .
  then show ?thesis by (auto simp: RecoverStuck_def set_update_where)
qed

theorem scan_lifecycle_witness:
  "scans_ok (MarkRunning 5 ''s1'' (Scan_Insert ''s1'' ''t'' ''grype'' ''b'' None []))"
proof -
  let ?a = "Scan_Insert ''s1'' ''t'' ''grype'' ''b'' None []"
  have "scan_step [] ?a" by (rule scan_step.insert) simp
  moreover have "scan_step ?a (MarkRunning 5 ''s1'' ?a)" by (rule scan_step.running)
  ultimately have "scan_step\<^sup>*\<^sup>* [] (MarkRunning 5 ''s1'' ?a)" by auto
  then show ?thesis using scan_lifecycle by blast
qed

text \<open>A scan that failed once, was started again by a retry and then completed without an
  error is shown as completed with the error of the failed attempt: neither the start nor
  the completion clears the column.\<close>

theorem retry_keeps_error:
  assumes "Scan_Get scanID scans = Some s"
  shows "\<exists>s'. Scan_Get scanID (MarkCompleted t3 scanID l2 None (MarkRunning t2 scanID (MarkFailed t1 scanID e l1 scans))) = Some s' \<and>
    sn_Status s' = ''completed'' \<and> sn_Error s' = Some e"
  using assms row_by_SomeD [of sn_ID scanID scans s]
  by (auto simp: Scan_Get_def MarkCompleted_eq MarkRunning_def MarkFailed_def row_by_update_where)

theorem retry_keeps_error_witness:
  "map_option sn_Error (Scan_Get ''s1'' (MarkCompleted 9 ''s1'' [] None (MarkRunning 8 ''s1''
     (MarkFailed 7 ''s1'' ''git clone: timeout'' [] (Scan_Insert ''s1'' ''t'' ''grype'' ''b'' None [])))))
   = Some (Some ''git clone: timeout'')"
proof -
  obtain s where "Scan_Get ''s1'' (Scan_Insert ''s1'' ''t'' ''grype'' ''b'' None []) = Some s"
    by (simp add: Scan_Get_def Scan_Insert_def)
  from retry_keeps_error [OF this, of 9 "[]" 8 7 "''git clone: timeout''" "[]"] show ?thesis by auto
qed

text \<open>In every reachable table a project holds at most one finding per fingerprint and a
  resolution time is set exactly on fixed and verified findings; inserting the same finding
  again, from any later scan, is refused and changes nothing.\<close>

theorem finding_table_unique:
  assumes "finding_step\<^sup>*\<^sup>* [] rows" "fi_ProjectID f \<noteq> []" "refuse f = None"
  shows "findings_ok rows \<and>
    (let rows1 = snd (Insert refuse i1 t1 f rows)
     in \<forall>i2 t2 f2. fi_ProjectID f2 = fi_ProjectID f \<and> fi_Fingerprint f2 = fi_Fingerprint f \<and> refuse f2 = None \<longrightarrow>
        Insert refuse i2 t2 f2 rows1 = (Inr [], rows1))"
  using finding_table.reachable_inv [OF refl assms(1)] assms(2,3)
  by (auto simp: Insert_def same_fingerprint_def list_ex_iff)

theorem finding_table_unique_witness:
  "Insert (\<lambda>_. None) ''f2'' 9 (sample_insert\<lparr>fi_ScanID := ''s2''\<rparr>) (snd (Insert (\<lambda>_. None) ''f1'' 5 sample_insert []))
   = (Inr [], [new_finding ''f1'' 5 sample_insert])"
proof -
  have "fi_ProjectID sample_insert \<noteq> []" by (simp add: sample_insert_def)
  from finding_table_unique [OF _ this, of "[]" "\<lambda>_. None" "''f1''" 5]
  have "Insert (\<lambda>_. None) ''f2'' 9 (sample_insert\<lparr>fi_ScanID := ''s2''\<rparr>) (snd (Insert (\<lambda>_. None) ''f1'' 5 sample_insert []))
      = (Inr [], snd (Insert (\<lambda>_. None) ''f1'' 5 sample_insert []))"
    by (simp add: Let_def)
  then show ?thesis by (simp add: Insert_def sample_insert_def)
qed

end
