(* ===== verification/Correlation.thy ===== *)
theory Correlation
  imports Finding_Store
begin

text \<open>
  Corroboration of findings within a scan batch (\<^verbatim>\<open>src/internal/repository/finding.go\<close>,
  \<^verbatim>\<open>RefreshBatchCorrelation\<close> and what it calls): which findings of the batch match a new
  one, the correlation rows stored for the pairs, and the confidence computed from them.
  Go's \<^verbatim>\<open>float64\<close> score is a rational number here; a Go map used as a set is a list
  without duplicates, of which only the length is used.
\<close>

section \<open>Operations\<close>

record correlation_context =
  cc_FindingID :: string
  cc_ScanID :: string
  cc_BatchID :: string
  cc_Scanner :: string
  cc_RuleID :: string
  cc_FilePath :: string
  cc_LineStart :: int
  cc_CVEID :: "string option"
  cc_SecretHash :: string
  cc_Suppressed :: bool
  cc_ScannerClass :: string
  cc_PkgName :: string

definition getCorrelationContext :: "scan_row list \<Rightarrow> finding list \<Rightarrow> string \<Rightarrow> string + correlation_context" where
  "getCorrelationContext scans rows findingID =
     (case GetByID findingID rows of
        None \<Rightarrow> Inl ''get correlation context: no rows in result set''
      | Some f \<Rightarrow> (case Scan_Get (fd_ScanID f) scans of
          None \<Rightarrow> Inl ''get correlation context: no rows in result set''
        | Some s \<Rightarrow> (case CategoryFor (fd_Scanner f) of
            None \<Rightarrow> Inl (''unknown scanner category: '' @ fd_Scanner f)
          | Some c \<Rightarrow> Inr \<lparr>cc_FindingID = fd_ID f, cc_ScanID = fd_ScanID f, cc_BatchID = sn_Batch s,
              cc_Scanner = fd_Scanner f, cc_RuleID = fd_RuleID f, cc_FilePath = fd_FilePath f,
              cc_LineStart = fd_LineStart f, cc_CVEID = fd_CVEID f, cc_SecretHash = fd_SecretHash f,
              cc_Suppressed = fd_Suppressed f, cc_ScannerClass = c, cc_PkgName = fd_PkgName f\<rparr>)))"

definition batch_of :: "scan_row list \<Rightarrow> finding \<Rightarrow> string option" where
  "batch_of scans f = map_option sn_Batch (Scan_Get (fd_ScanID f) scans)"

text \<open>The \<^verbatim>\<open>WHERE\<close> clause of \<^verbatim>\<open>findBatchMatches\<close>.\<close>

definition shared_signal :: "correlation_context \<Rightarrow> int \<Rightarrow> finding \<Rightarrow> bool" where
  "shared_signal cc threshold f \<longleftrightarrow>
     (cc_SecretHash cc \<noteq> [] \<and> fd_SecretHash f = cc_SecretHash cc) \<or>
     (cc_RuleID cc \<noteq> [] \<and> fd_RuleID f = cc_RuleID cc) \<or>
     (cc_CVEID cc \<noteq> None \<and> fd_CVEID f = cc_CVEID cc) \<or>
     (cc_FilePath cc \<noteq> [] \<and> fd_FilePath f = cc_FilePath cc \<and> \<bar>fd_LineStart f - cc_LineStart cc\<bar> \<le> threshold) \<or>
     (cc_PkgName cc \<noteq> [] \<and> fd_PkgName f = cc_PkgName cc)"

definition batch_row :: "scan_row list \<Rightarrow> correlation_context \<Rightarrow> bool \<Rightarrow> int \<Rightarrow> finding \<Rightarrow> bool" where
  "batch_row scans cc sameScannerOK threshold f \<longleftrightarrow>
     batch_of scans f = Some (cc_BatchID cc) \<and> fd_ID f \<noteq> cc_FindingID cc \<and> \<not> fd_Suppressed f \<and>
     (sameScannerOK \<or> fd_Scanner f \<noteq> cc_Scanner cc) \<and> shared_signal cc threshold f"

definition uniqueStrings :: "string list \<Rightarrow> string list" where
  "uniqueStrings values = (if length values < 2 then values else sort (remdups values))"

definition findBatchMatches :: "scan_row list \<Rightarrow> finding list \<Rightarrow> correlation_context \<Rightarrow> string list" where
  "findBatchMatches scans rows cc =
     (if cc_Suppressed cc then []
      else (let isIaC = (cc_ScannerClass cc = ''iac'');
                threshold = (if \<not> isIaC then 5 else 15)
            in uniqueStrings (map fd_ID (filter (\<lambda>f. SameCategory (cc_Scanner cc) (fd_Scanner f))
                 (filter (batch_row scans cc isIaC threshold) rows)))))"

record correlation_row =
  cr_A :: string
  cr_B :: string
  cr_Type :: string

definition same_family_batch :: string where
  "same_family_batch = ''same_family_batch''"

definition canonicalPair :: "string \<Rightarrow> string \<Rightarrow> string \<times> string" where
  "canonicalPair a b = (if a > b then (b, a) else (a, b))"

definition involves :: "string \<Rightarrow> correlation_row \<Rightarrow> bool" where
  "involves i c \<longleftrightarrow> cr_A c = i \<or> cr_B c = i"

definition upsert_correlation :: "string \<Rightarrow> string \<Rightarrow> correlation_row list \<Rightarrow> correlation_row list" where
  "upsert_correlation a b corr =
     (if list_ex (\<lambda>c. cr_A c = a \<and> cr_B c = b) corr
      then update_where (\<lambda>c. cr_A c = a \<and> cr_B c = b) (\<lambda>c. c\<lparr>cr_Type := same_family_batch\<rparr>) corr
      else corr @ [\<lparr>cr_A = a, cr_B = b, cr_Type = same_family_batch\<rparr>])"

fun insert_correlations :: "string \<Rightarrow> string list \<Rightarrow> correlation_row list \<Rightarrow> correlation_row list" where
  "insert_correlations findingID [] corr = corr"
| "insert_correlations findingID (m # ms) corr =
     (case canonicalPair findingID m of (a, b) \<Rightarrow> insert_correlations findingID ms (upsert_correlation a b corr))"

definition replaceCorrelationSet :: "string \<Rightarrow> string list \<Rightarrow> correlation_row list \<Rightarrow> correlation_row list" where
  "replaceCorrelationSet findingID matchedIDs corr =
     insert_correlations findingID matchedIDs
       (filter (\<lambda>c. \<not> (cr_Type c = same_family_batch \<and> involves findingID c)) corr)"

definition other_end :: "string \<Rightarrow> correlation_row \<Rightarrow> string" where
  "other_end i c = (if cr_A c = i then cr_B c else cr_A c)"

definition peer_scanners :: "scan_row list \<Rightarrow> string \<Rightarrow> string \<Rightarrow> string list" where
  "peer_scanners scans batch scanner = remdups (filter (\<lambda>n. n \<noteq> scanner \<and> SameCategory scanner n)
     (map sn_Scanner (filter (\<lambda>s. sn_Batch s = batch) scans)))"

fun scanners_of :: "finding list \<Rightarrow> string list \<Rightarrow> string list" where
  "scanners_of rows [] = []"
| "scanners_of rows (i # is) = (case GetByID i rows of
      None \<Rightarrow> scanners_of rows is | Some f \<Rightarrow> fd_Scanner f # scanners_of rows is)"

definition corroborating :: "finding list \<Rightarrow> correlation_row list \<Rightarrow> string \<Rightarrow> string list" where
  "corroborating rows corr findingID = remdups (scanners_of rows (map (other_end findingID)
     (filter (\<lambda>c. cr_Type c = same_family_batch \<and> involves findingID c) corr)))"

definition confidence_score :: "nat \<Rightarrow> nat \<Rightarrow> rat option" where
  "confidence_score corroborated peers =
     (if peers > 0 \<and> corroborated > 0
      then (let calculated = 1/2 + 1/2 * (of_nat corroborated / of_nat peers)
            in Some (if calculated > 1 then 1 else calculated))
      else None)"

definition recalculateConfidence ::
  "scan_row list \<Rightarrow> correlation_row list \<Rightarrow> string \<Rightarrow> finding list \<Rightarrow> string option \<times> finding list" where
  "recalculateConfidence scans corr findingID rows =
     (case getCorrelationContext scans rows findingID of
        Inl e \<Rightarrow> (Some e, rows)
      | Inr cc \<Rightarrow>
          (let score = confidence_score (length (corroborating rows corr findingID))
                 (length (peer_scanners scans (cc_BatchID cc) (cc_Scanner cc)))
           in (None, update_where (\<lambda>f. fd_ID f = findingID) (\<lambda>f. f\<lparr>fd_Confidence := score\<rparr>) rows)))"

fun recalculate_all ::
  "scan_row list \<Rightarrow> correlation_row list \<Rightarrow> string list \<Rightarrow> finding list \<Rightarrow> string option \<times> finding list" where
  "recalculate_all scans corr [] rows = (None, rows)"
| "recalculate_all scans corr (i # is) rows =
     (case recalculateConfidence scans corr i rows of
        (Some e, rows') \<Rightarrow> (Some e, rows')
      | (None, rows') \<Rightarrow> recalculate_all scans corr is rows')"

text \<open>The error, the findings and the correlation rows.\<close>

definition RefreshBatchCorrelation ::
  "scan_row list \<Rightarrow> string \<Rightarrow> finding list \<Rightarrow> correlation_row list \<Rightarrow> string option \<times> finding list \<times> correlation_row list" where
  "RefreshBatchCorrelation scans findingID rows corr =
     (case getCorrelationContext scans rows findingID of
        Inl e \<Rightarrow> (Some e, rows, corr)
      | Inr cc \<Rightarrow>
          (let matched = findBatchMatches scans rows cc;
               corr' = replaceCorrelationSet findingID matched corr
           in case recalculate_all scans corr' (uniqueStrings (findingID # matched)) rows of
                (e, rows') \<Rightarrow> (e, rows', corr')))"

section \<open>Specifications\<close>

text \<open>The batch pairs of a finding, and the score its stored pairs give it.\<close>

definition partners :: "string \<Rightarrow> correlation_row list \<Rightarrow> string set" where
  "partners i corr = {other_end i c |c. c \<in> set corr \<and> cr_Type c = same_family_batch \<and> involves i c}"

definition pairs :: "correlation_row list \<Rightarrow> (string \<times> string) set" where
  "pairs corr = {(cr_A c, cr_B c) |c. c \<in> set corr \<and> cr_Type c = same_family_batch}"

definition stored_score :: "scan_row list \<Rightarrow> correlation_row list \<Rightarrow> finding list \<Rightarrow> string \<Rightarrow> rat option" where
  "stored_score scans corr rows i = (case getCorrelationContext scans rows i of
      Inl _ \<Rightarrow> None
    | Inr cc \<Rightarrow> confidence_score (length (corroborating rows corr i))
        (length (peer_scanners scans (cc_BatchID cc) (cc_Scanner cc))))"

definition batch_finding :: "string \<Rightarrow> string \<Rightarrow> string \<Rightarrow> finding" where
  "batch_finding i scanID scanner =
     (new_finding i 0 sample_insert)\<lparr>fd_ScanID := scanID, fd_Scanner := scanner\<rparr>"

definition batch_scans :: "scan_row list" where
  "batch_scans = Scan_Insert ''s1'' ''t'' ''grype'' ''b'' None
     (Scan_Insert ''s2'' ''t'' ''trivy'' ''b'' None (Scan_Insert ''s3'' ''t'' ''osv-scanner'' ''b'' None []))"

definition batch_findings :: "finding list" where
  "batch_findings = [batch_finding ''f1'' ''s1'' ''grype'', batch_finding ''f2'' ''s2'' ''trivy'']"

section \<open>Lemmas\<close>

lemma set_uniqueStrings [simp]: "set (uniqueStrings xs) = set xs"
  by (simp add: uniqueStrings_def)

lemma canonicalPair_cases: "canonicalPair a b = (a, b) \<or> canonicalPair a b = (b, a)"
  by (simp add: canonicalPair_def)

lemma canonicalPair_sym: "canonicalPair a b = canonicalPair b a"
  by (auto simp: canonicalPair_def)

lemma shared_signal_sym:
  "cc_SecretHash cg = fd_SecretHash g \<Longrightarrow> cc_RuleID cg = fd_RuleID g \<Longrightarrow> cc_CVEID cg = fd_CVEID g \<Longrightarrow>
   cc_FilePath cg = fd_FilePath g \<Longrightarrow> cc_LineStart cg = fd_LineStart g \<Longrightarrow> cc_PkgName cg = fd_PkgName g \<Longrightarrow>
   cc_SecretHash cf = fd_SecretHash f \<Longrightarrow> cc_RuleID cf = fd_RuleID f \<Longrightarrow> cc_CVEID cf = fd_CVEID f \<Longrightarrow>
   cc_FilePath cf = fd_FilePath f \<Longrightarrow> cc_LineStart cf = fd_LineStart f \<Longrightarrow> cc_PkgName cf = fd_PkgName f \<Longrightarrow>
   shared_signal cg n f = shared_signal cf n g"
  unfolding shared_signal_def by (simp add: abs_minus_commute) (metis abs_minus_commute)

lemma context_Inr:
  assumes "getCorrelationContext scans rows i = Inr cc"
  obtains f s where "GetByID i rows = Some f" "Scan_Get (fd_ScanID f) scans = Some s"
    "CategoryFor (fd_Scanner f) = Some (cc_ScannerClass cc)" "cc_FindingID cc = i" "fd_ID f = i"
    "cc_BatchID cc = sn_Batch s" "cc_Scanner cc = fd_Scanner f" "cc_Suppressed cc = fd_Suppressed f"
    "cc_SecretHash cc = fd_SecretHash f" "cc_RuleID cc = fd_RuleID f" "cc_CVEID cc = fd_CVEID f"
    "cc_FilePath cc = fd_FilePath f" "cc_LineStart cc = fd_LineStart f" "cc_PkgName cc = fd_PkgName f"
    "f \<in> set rows"
proof -
  from assms obtain f s c where 1: "GetByID i rows = Some f" "Scan_Get (fd_ScanID f) scans = Some s"
    "CategoryFor (fd_Scanner f) = Some c"
    by (auto simp: getCorrelationContext_def split: option.splits)
  moreover have "fd_ID f = i \<and> f \<in> set rows" using 1(1) row_by_SomeD unfolding GetByID_def by metis
  ultimately show thesis using that [of f s] assms
    by (auto simp: getCorrelationContext_def)
qed

lemma match_iff:
  assumes "distinct (map fd_ID rows)" "g \<in> set rows"
  shows "fd_ID g \<in> set (findBatchMatches scans rows cc) \<longleftrightarrow>
    \<not> cc_Suppressed cc \<and> SameCategory (cc_Scanner cc) (fd_Scanner g) \<and>
    batch_row scans cc (cc_ScannerClass cc = ''iac'') (if cc_ScannerClass cc = ''iac'' then 15 else 5) g"
proof -
  have "f = g" if "f \<in> set rows" "fd_ID f = fd_ID g" for f
    using assms that by (metis distinct_map inj_onD)
  then show ?thesis using assms(2) by (auto simp: findBatchMatches_def Let_def)
qed

lemma matches_other: "i \<in> set (findBatchMatches scans rows cc) \<Longrightarrow> i \<noteq> cc_FindingID cc \<and> i \<in> fd_ID ` set rows"
  by (auto simp: findBatchMatches_def Let_def batch_row_def split: if_splits)

subsection \<open>The stored pairs\<close>

lemma pairs_Nil [simp]: "pairs [] = {}"
  by (simp add: pairs_def)

lemma pairs_Cons [simp]:
  "pairs (c # corr) = (if cr_Type c = same_family_batch then insert (cr_A c, cr_B c) (pairs corr) else pairs corr)"
  by (auto simp: pairs_def)

lemma pairs_append [simp]: "pairs (corr @ corr') = pairs corr \<union> pairs corr'"
  by (induction corr) auto

lemma pairs_upsert: "pairs (upsert_correlation a b corr) = insert (a, b) (pairs corr)"
proof -
  have "pairs (update_where (\<lambda>c. cr_A c = a \<and> cr_B c = b) (\<lambda>c. c\<lparr>cr_Type := same_family_batch\<rparr>) corr) =
      (if list_ex (\<lambda>c. cr_A c = a \<and> cr_B c = b) corr then insert (a, b) (pairs corr) else pairs corr)"
    by (induction corr) auto
  then show ?thesis by (simp add: upsert_correlation_def)
qed

lemma pairs_insert: "pairs (insert_correlations i ms corr) = canonicalPair i ` set ms \<union> pairs corr"
  by (induction ms arbitrary: corr) (auto simp: pairs_upsert split: prod.splits)

lemma upsert_frame:
  "i = a \<or> i = b \<Longrightarrow> filter (\<lambda>c. \<not> involves i c) (upsert_correlation a b corr) = filter (\<lambda>c. \<not> involves i c) corr"
proof (cases "list_ex (\<lambda>c. cr_A c = a \<and> cr_B c = b) corr")
  case True
  assume "i = a \<or> i = b"
  then have "filter (\<lambda>c. \<not> involves i c) (update_where (\<lambda>c. cr_A c = a \<and> cr_B c = b) (\<lambda>c. c\<lparr>cr_Type := same_family_batch\<rparr>) corr)
      = filter (\<lambda>c. \<not> involves i c) corr"
    by (induction corr) (auto simp: involves_def)
  with True show ?thesis by (simp add: upsert_correlation_def)
qed (auto simp: upsert_correlation_def involves_def)

lemma insert_frame:
  "filter (\<lambda>c. \<not> involves i c) (insert_correlations i ms corr) = filter (\<lambda>c. \<not> involves i c) corr"
proof (induction ms arbitrary: corr)
  case (Cons m ms)
  obtain a b where p: "canonicalPair i m = (a, b)" by fastforce
  then have "i = a \<or> i = b" using canonicalPair_cases [of i m] by auto
  with Cons p show ?case by (simp add: upsert_frame)
qed simp

lemma partners_pairs: "partners i corr = {j. (i, j) \<in> pairs corr \<or> (j, i) \<in> pairs corr}"
  by (auto simp: partners_def pairs_def other_end_def involves_def)

lemma pairs_cleared:
  "pairs (filter (\<lambda>c. \<not> (cr_Type c = same_family_batch \<and> involves i c)) corr) = {(a, b) \<in> pairs corr. a \<noteq> i \<and> b \<noteq> i}"
  by (auto simp: pairs_def involves_def)

lemma partners_replace: "i \<notin> set ms \<Longrightarrow> partners i (replaceCorrelationSet i ms corr) = set ms"
  unfolding partners_pairs replaceCorrelationSet_def pairs_insert pairs_cleared
  using canonicalPair_cases [of i] by (auto simp: canonicalPair_def split: if_splits)

lemma replace_frame:
  "filter (\<lambda>c. \<not> involves i c) (replaceCorrelationSet i ms corr) = filter (\<lambda>c. \<not> involves i c) corr"
  unfolding replaceCorrelationSet_def insert_frame by (induction corr) auto

subsection \<open>The confidence\<close>

lemma confidence_bounds: "confidence_score c p = Some s \<Longrightarrow> 1/2 < s \<and> s \<le> 1"
  by (auto simp: confidence_score_def Let_def split: if_splits)

lemma confidence_full:
  assumes "c \<ge> p" "p > 0"
  shows "confidence_score c p = Some 1"
proof -
  define q :: rat where "q = of_nat c / of_nat p"
  have "q \<ge> 1" using assms by (simp add: q_def)
  then show ?thesis using assms unfolding confidence_score_def Let_def q_def [symmetric] by auto
qed

lemma GetByID_confidence:
  "GetByID i (update_where P (fd_Confidence_update g) rows) =
    map_option (\<lambda>f. if P f then fd_Confidence_update g f else f) (GetByID i rows)"
  by (simp add: GetByID_def row_by_update_where)

lemma context_confidence:
  "getCorrelationContext scans (update_where P (fd_Confidence_update g) rows) i = getCorrelationContext scans rows i"
  by (auto simp: getCorrelationContext_def GetByID_confidence split: option.split)

lemma scanners_of_confidence:
  "scanners_of (update_where P (fd_Confidence_update g) rows) ids = scanners_of rows ids"
  by (induction ids) (auto simp: GetByID_confidence split: option.split)

lemma corroborating_confidence:
  "corroborating (update_where P (fd_Confidence_update g) rows) corr i = corroborating rows corr i"
  by (simp only: corroborating_def scanners_of_confidence)

lemma score_confidence:
  "stored_score scans corr (update_where P (fd_Confidence_update g) rows) i = stored_score scans corr rows i"
  by (simp add: stored_score_def context_confidence corroborating_confidence split: sum.split)

lemma forget_confidence:
  "map (fd_Confidence_update (\<lambda>_. None)) (update_where P (fd_Confidence_update g) rows) =
    map (fd_Confidence_update (\<lambda>_. None)) rows"
  by (induction rows) auto

lemma recalculate_one:
  assumes "recalculateConfidence scans corr i rows = (None, rows')"
  shows "rows' = update_where (\<lambda>f. fd_ID f = i) (fd_Confidence_update (\<lambda>_. stored_score scans corr rows i)) rows"
    and "GetByID i rows \<noteq> None"
  using assms by (auto simp: recalculateConfidence_def stored_score_def Let_def getCorrelationContext_def
    split: sum.splits option.splits)

lemma recalculate_spec:
  assumes "recalculate_all scans corr ids rows = (None, rows')"
  shows "map_option fd_Confidence (GetByID i rows') =
      (if i \<in> set ids then Some (stored_score scans corr rows i) else map_option fd_Confidence (GetByID i rows))
    \<and> map (fd_Confidence_update (\<lambda>_. None)) rows' = map (fd_Confidence_update (\<lambda>_. None)) rows"
  using assms
proof (induction ids arbitrary: rows)
  case (Cons j ids)
  then obtain rows1 where r: "recalculateConfidence scans corr j rows = (None, rows1)"
    "recalculate_all scans corr ids rows1 = (None, rows')"
    by (auto split: prod.splits option.splits)
  note one = recalculate_one [OF r(1)]
  have id: "fd_ID f = i" if "GetByID i rows = Some f" for f
    using that row_by_SomeD unfolding GetByID_def by metis
  have conf: "map_option fd_Confidence (GetByID i rows1) =
      (if i = j then Some (stored_score scans corr rows j) else map_option fd_Confidence (GetByID i rows))"
    using id one by (cases "GetByID i rows") (auto simp: one(1) GetByID_confidence)
  have same: "stored_score scans corr rows1 i = stored_score scans corr rows i"
    unfolding one(1) by (rule score_confidence)
  have IH: "map_option fd_Confidence (GetByID i rows') = (if i \<in> set ids then Some (stored_score scans corr rows1 i)
      else map_option fd_Confidence (GetByID i rows1))"
    using Cons.IH [OF r(2)] by blast
  have "map_option fd_Confidence (GetByID i rows') = (if i \<in> set (j # ids) then Some (stored_score scans corr rows i)
      else map_option fd_Confidence (GetByID i rows))"
    unfolding IH conf same by auto
  moreover have "map (fd_Confidence_update (\<lambda>_. None)) rows' = map (fd_Confidence_update (\<lambda>_. None)) rows"
    using Cons.IH [OF r(2)] one(1) forget_confidence by metis
  ultimately show ?case by blast
qed simp

section \<open>Properties\<close>

text \<open>Correlation within a batch is symmetric: for two findings of the table, the second is a
  match of the first exactly when the first is a match of the second, with the same line
  threshold and the same rule for findings of one scanner.\<close>

theorem findBatchMatches_symmetric:
  assumes "distinct (map fd_ID rows)"
    and "getCorrelationContext scans rows i = Inr ci" "getCorrelationContext scans rows j = Inr cj"
  shows "j \<in> set (findBatchMatches scans rows ci) \<longleftrightarrow> i \<in> set (findBatchMatches scans rows cj)"
proof -
  obtain f s where f: "GetByID i rows = Some f" "Scan_Get (fd_ScanID f) scans = Some s"
    "CategoryFor (fd_Scanner f) = Some (cc_ScannerClass ci)" "cc_FindingID ci = i" "fd_ID f = i"
    "cc_BatchID ci = sn_Batch s" "cc_Scanner ci = fd_Scanner f" "cc_Suppressed ci = fd_Suppressed f"
    "cc_SecretHash ci = fd_SecretHash f" "cc_RuleID ci = fd_RuleID f" "cc_CVEID ci = fd_CVEID f"
    "cc_FilePath ci = fd_FilePath f" "cc_LineStart ci = fd_LineStart f" "cc_PkgName ci = fd_PkgName f" "f \<in> set rows"
    using assms(2) by (rule context_Inr)
  obtain g u where g: "GetByID j rows = Some g" "Scan_Get (fd_ScanID g) scans = Some u"
    "CategoryFor (fd_Scanner g) = Some (cc_ScannerClass cj)" "cc_FindingID cj = j" "fd_ID g = j"
    "cc_BatchID cj = sn_Batch u" "cc_Scanner cj = fd_Scanner g" "cc_Suppressed cj = fd_Suppressed g"
    "cc_SecretHash cj = fd_SecretHash g" "cc_RuleID cj = fd_RuleID g" "cc_CVEID cj = fd_CVEID g"
    "cc_FilePath cj = fd_FilePath g" "cc_LineStart cj = fd_LineStart g" "cc_PkgName cj = fd_PkgName g" "g \<in> set rows"
    using assms(3) by (rule context_Inr)
  have sig: "shared_signal ci n g = shared_signal cj n f" for n
    by (rule shared_signal_sym) (use f g in auto)
  have cat: "SameCategory (fd_Scanner f) (fd_Scanner g) \<longleftrightarrow> cc_ScannerClass ci = cc_ScannerClass cj"
    "SameCategory (fd_Scanner g) (fd_Scanner f) \<longleftrightarrow> cc_ScannerClass ci = cc_ScannerClass cj"
    using SameCategory_table [OF f(3)] SameCategory_table [OF g(3)] by (auto simp: f(3) g(3))
  have fg: "batch_row scans ci ok n g \<longleftrightarrow> sn_Batch u = sn_Batch s \<and> j \<noteq> i \<and> \<not> fd_Suppressed g \<and>
      (ok \<or> fd_Scanner g \<noteq> fd_Scanner f) \<and> shared_signal ci n g" for ok n
    by (simp add: batch_row_def batch_of_def f(4,6,7) g(2,5))
  have gf: "batch_row scans cj ok n f \<longleftrightarrow> sn_Batch s = sn_Batch u \<and> i \<noteq> j \<and> \<not> fd_Suppressed f \<and>
      (ok \<or> fd_Scanner f \<noteq> fd_Scanner g) \<and> shared_signal cj n f" for ok n
    by (simp add: batch_row_def batch_of_def g(4,6,7) f(2,5))
  have "j \<in> set (findBatchMatches scans rows ci) \<longleftrightarrow> \<not> fd_Suppressed f \<and>
      cc_ScannerClass ci = cc_ScannerClass cj \<and>
      batch_row scans ci (cc_ScannerClass ci = ''iac'') (if cc_ScannerClass ci = ''iac'' then 15 else 5) g"
    using match_iff [OF assms(1) g(15), of scans ci] unfolding g(5) f(7,8) cat .
  moreover have "i \<in> set (findBatchMatches scans rows cj) \<longleftrightarrow> \<not> fd_Suppressed g \<and>
      cc_ScannerClass ci = cc_ScannerClass cj \<and>
      batch_row scans cj (cc_ScannerClass cj = ''iac'') (if cc_ScannerClass cj = ''iac'' then 15 else 5) f"
    using match_iff [OF assms(1) f(15), of scans cj] unfolding f(5) g(7,8) cat .
  ultimately show ?thesis
    unfolding fg gf sig by (cases "cc_ScannerClass ci = cc_ScannerClass cj") auto
qed

theorem findBatchMatches_symmetric_witness:
  "\<exists>ci cj. getCorrelationContext batch_scans batch_findings ''f1'' = Inr ci \<and>
    getCorrelationContext batch_scans batch_findings ''f2'' = Inr cj \<and>
    (''f2'' \<in> set (findBatchMatches batch_scans batch_findings ci) \<longleftrightarrow>
     ''f1'' \<in> set (findBatchMatches batch_scans batch_findings cj))"
proof -
  have d: "distinct (map fd_ID batch_findings)" by (simp add: batch_findings_def batch_finding_def)
  obtain ci where 1: "getCorrelationContext batch_scans batch_findings ''f1'' = Inr ci"
    by (simp add: getCorrelationContext_def batch_findings_def batch_finding_def batch_scans_def Scan_Insert_def
        Scan_Get_def GetByID_def CategoryFor_table)
  obtain cj where 2: "getCorrelationContext batch_scans batch_findings ''f2'' = Inr cj"
    by (simp add: getCorrelationContext_def batch_findings_def batch_finding_def batch_scans_def Scan_Insert_def
        Scan_Get_def GetByID_def CategoryFor_table)
  show ?thesis using 1 2 findBatchMatches_symmetric [OF d 1 2] by blast
qed

text \<open>C9: After a successful refresh the stored batch pairs of the finding are exactly its
  matches, pairs between other findings are untouched, its confidence is the score of the
  stored pairs, which is above one half and at most one, and of the findings only
  confidences changed, those of the finding and of its matches.\<close>

theorem RefreshBatchCorrelation_exact:
  assumes "RefreshBatchCorrelation scans i rows corr = (None, rows', corr')"
  shows "\<exists>cc. getCorrelationContext scans rows i = Inr cc \<and>
    partners i corr' = set (findBatchMatches scans rows cc) \<and>
    filter (\<lambda>c. \<not> involves i c) corr' = filter (\<lambda>c. \<not> involves i c) corr \<and>
    map (fd_Confidence_update (\<lambda>_. None)) rows' = map (fd_Confidence_update (\<lambda>_. None)) rows \<and>
    (\<forall>j. map_option fd_Confidence (GetByID j rows') =
      (if j = i \<or> j \<in> partners i corr' then Some (stored_score scans corr' rows j)
       else map_option fd_Confidence (GetByID j rows))) \<and>
    (\<forall>j s. stored_score scans corr' rows j = Some s \<longrightarrow> 1/2 < s \<and> s \<le> 1)"
proof -
  obtain cc where c: "getCorrelationContext scans rows i = Inr cc"
    and corr': "corr' = replaceCorrelationSet i (findBatchMatches scans rows cc) corr"
    and r: "recalculate_all scans corr' (uniqueStrings (i # findBatchMatches scans rows cc)) rows = (None, rows')"
    using assms by (auto simp: RefreshBatchCorrelation_def Let_def split: sum.splits prod.splits)
  have "cc_FindingID cc = i" using c by (rule context_Inr)
  then have "partners i corr' = set (findBatchMatches scans rows cc)"
    unfolding corr' using matches_other [of i scans rows cc] by (intro partners_replace) auto
  moreover have "filter (\<lambda>c. \<not> involves i c) corr' = filter (\<lambda>c. \<not> involves i c) corr"
    unfolding corr' by (rule replace_frame)
  ultimately show ?thesis
    using c recalculate_spec [OF r] confidence_bounds
    by (auto simp: stored_score_def split: sum.splits)
qed

theorem RefreshBatchCorrelation_exact_witness:
  "partners ''f1'' (snd (snd (RefreshBatchCorrelation batch_scans ''f1'' batch_findings []))) = {''f2''}"
proof -
  have "fst (RefreshBatchCorrelation batch_scans ''f1'' batch_findings []) = None" by code_simp
  then obtain rows' corr' where r: "RefreshBatchCorrelation batch_scans ''f1'' batch_findings [] = (None, rows', corr')"
    by (metis prod.collapse)
  have m: "findBatchMatches batch_scans batch_findings cc = [''f2'']"
    if "getCorrelationContext batch_scans batch_findings ''f1'' = Inr cc" for cc
  proof -
    have "(case getCorrelationContext batch_scans batch_findings ''f1'' of
       Inl _ \<Rightarrow> False | Inr cc \<Rightarrow> findBatchMatches batch_scans batch_findings cc = [''f2''])" by code_simp
    with that show ?thesis by simp
  qed
  show ?thesis using RefreshBatchCorrelation_exact [OF r] m r by auto
qed

end
