(* ===== verification/Policy_Engine.thy ===== *)
theory Policy_Engine
  imports Finding_Store
begin

text \<open>
  Policies and suppressions (\<^verbatim>\<open>src/internal/tasks/policy_engine.go\<close>,
  \<^verbatim>\<open>src/internal/repository/policy.go\<close>).  The JSON columns of a policy are its lists of
  conditions and actions.  \<^verbatim>\<open>LIKE\<close> is PostgreSQL's, on single-byte text.
\<close>

section \<open>Policies\<close>

record policy_condition =
  pc_Field :: string
  pc_Op :: string
  pc_Value :: string

record policy_action =
  pa_Type :: string
  pa_Value :: string

record policy =
  pl_ID :: string
  pl_Name :: string
  pl_Description :: string
  pl_Conditions :: "policy_condition list"
  pl_Actions :: "policy_action list"
  pl_Enabled :: bool
  pl_PackType :: string
  pl_Controls :: "string list"
  pl_CreatedAt :: int

record policy_create =
  pcr_Name :: string
  pcr_Description :: string
  pcr_Conditions :: "policy_condition list"
  pcr_Actions :: "policy_action list"
  pcr_PackType :: string
  pcr_Controls :: "string list"

definition Policy_List :: "policy list \<Rightarrow> policy list" where
  "Policy_List policies = sort_key (\<lambda>p. - pl_CreatedAt p) policies"

definition Policy_Create :: "string \<Rightarrow> int \<Rightarrow> policy_create \<Rightarrow> policy list \<Rightarrow> policy \<times> policy list" where
  "Policy_Create new_id now pc policies =
     (let p = \<lparr>pl_ID = new_id, pl_Name = pcr_Name pc, pl_Description = pcr_Description pc,
            pl_Conditions = pcr_Conditions pc, pl_Actions = pcr_Actions pc, pl_Enabled = True,
            pl_PackType = (if pcr_PackType pc = [] then ''custom'' else pcr_PackType pc),
            pl_Controls = pcr_Controls pc, pl_CreatedAt = now\<rparr>
      in (p, policies @ [p]))"

definition Policy_GetByID :: "string \<Rightarrow> policy list \<Rightarrow> policy option" where
  "Policy_GetByID policyID policies = row_by pl_ID policyID policies"

definition SetEnabled :: "string \<Rightarrow> bool \<Rightarrow> policy list \<Rightarrow> policy list" where
  "SetEnabled policyID enabled policies =
     update_where (\<lambda>p. pl_ID p = policyID) (\<lambda>p. p\<lparr>pl_Enabled := enabled\<rparr>) policies"

definition Policy_Delete :: "string \<Rightarrow> policy list \<Rightarrow> policy list" where
  "Policy_Delete policyID policies = filter (\<lambda>p. pl_ID p \<noteq> policyID) policies"

definition ListActive :: "policy list \<Rightarrow> policy list" where
  "ListActive policies = filter pl_Enabled policies"

text \<open>One condition; \<open>None\<close> for a field the engine does not know.\<close>

definition condition_actual :: "string \<Rightarrow> string \<Rightarrow> string \<Rightarrow> string \<Rightarrow> policy_condition \<Rightarrow> string option" where
  "condition_actual scanner severity ruleID filePath c =
     (if pc_Field c = ''severity'' then Some severity
      else if pc_Field c = ''scanner'' then Some scanner
      else if pc_Field c = ''rule_id'' then Some ruleID
      else if pc_Field c = ''file_path'' then Some filePath
      else None)"

fun conditions_loop :: "string \<Rightarrow> string \<Rightarrow> string \<Rightarrow> string \<Rightarrow> policy_condition list \<Rightarrow> bool" where
  "conditions_loop scanner severity ruleID filePath [] = True"
| "conditions_loop scanner severity ruleID filePath (c # cs) =
     (case condition_actual scanner severity ruleID filePath c of
        None \<Rightarrow> False
      | Some actual \<Rightarrow>
          if pc_Op c = ''eq'' then (if actual \<noteq> pc_Value c then False else conditions_loop scanner severity ruleID filePath cs)
          else if pc_Op c = ''contains''
            then (if \<not> contains actual (pc_Value c) then False else conditions_loop scanner severity ruleID filePath cs)
          else False)"

definition conditionsMatch :: "policy_condition list \<Rightarrow> string \<Rightarrow> string \<Rightarrow> string \<Rightarrow> string \<Rightarrow> bool" where
  "conditionsMatch conds scanner severity ruleID filePath =
     (if conditions_loop scanner severity ruleID filePath conds then conds \<noteq> [] else False)"

definition run_action :: "string \<Rightarrow> policy_action \<Rightarrow> finding list \<Rightarrow> finding list" where
  "run_action findingID a rows =
     (if pa_Type a = ''set_status''
      then update_where (\<lambda>r. fd_ID r = findingID) (\<lambda>r. r\<lparr>fd_Status := pa_Value a\<rparr>) rows
      else if pa_Type a = ''assign''
      then update_where (\<lambda>r. fd_ID r = findingID) (\<lambda>r. r\<lparr>fd_AssignedTo := Some (pa_Value a)\<rparr>) rows
      else rows)"

fun ExecuteActions :: "string \<Rightarrow> policy_action list \<Rightarrow> finding list \<Rightarrow> finding list" where
  "ExecuteActions findingID [] rows = rows"
| "ExecuteActions findingID (a # as') rows = ExecuteActions findingID as' (run_action findingID a rows)"

fun policy_loop ::
  "policy list \<Rightarrow> string \<Rightarrow> string \<Rightarrow> string \<Rightarrow> string \<Rightarrow> string \<Rightarrow> finding list \<Rightarrow> finding list" where
  "policy_loop [] findingID scanner severity ruleID filePath rows = rows"
| "policy_loop (p # ps) findingID scanner severity ruleID filePath rows =
     (if conditionsMatch (pl_Conditions p) scanner severity ruleID filePath
      then policy_loop ps findingID scanner severity ruleID filePath (ExecuteActions findingID (pl_Actions p) rows)
      else policy_loop ps findingID scanner severity ruleID filePath rows)"

definition applyPolicies ::
  "policy list \<Rightarrow> string \<Rightarrow> string \<Rightarrow> string \<Rightarrow> string \<Rightarrow> string \<Rightarrow> finding list \<Rightarrow> finding list" where
  "applyPolicies policies findingID scanner severity ruleID filePath rows =
     policy_loop (ListActive policies) findingID scanner severity ruleID filePath rows"

section \<open>Suppressions\<close>

record suppression =
  su_ID :: string
  su_Name :: string
  su_RuleID :: "string option"
  su_FilePattern :: "string option"
  su_Scanner :: "string option"
  su_Reason :: "string option"
  su_CreatedAt :: int

definition percent :: char where "percent = CHR 0x25"
definition underscore :: char where "underscore = CHR 0x5F"
definition backslash :: char where "backslash = CHR 0x5C"

text \<open>\<open>like s pattern\<close> is \<^verbatim>\<open>s LIKE pattern\<close>.\<close>

fun like :: "string \<Rightarrow> string \<Rightarrow> bool" where
  "like s [] = (s = [])"
| "like s (p # ps) =
     (if p = percent then like s ps \<or> (case s of [] \<Rightarrow> False | _ # s' \<Rightarrow> like s' (p # ps))
      else if p = underscore then (case s of [] \<Rightarrow> False | _ # s' \<Rightarrow> like s' ps)
      else if p = backslash then (case ps of [] \<Rightarrow> False
        | q # qs \<Rightarrow> (case s of [] \<Rightarrow> False | c # s' \<Rightarrow> c = q \<and> like s' qs))
      else (case s of [] \<Rightarrow> False | c # s' \<Rightarrow> c = p \<and> like s' ps))"

definition suppression_applies :: "string \<Rightarrow> string \<Rightarrow> string \<Rightarrow> suppression \<Rightarrow> bool" where
  "suppression_applies scanner ruleID filePath s \<longleftrightarrow>
     (case su_RuleID s of None \<Rightarrow> True | Some r \<Rightarrow> r = ruleID) \<and>
     (case su_Scanner s of None \<Rightarrow> True | Some n \<Rightarrow> n = scanner) \<and>
     (case su_FilePattern s of None \<Rightarrow> True | Some p \<Rightarrow> like filePath ([percent] @ p @ [percent])) \<and>
     (su_RuleID s \<noteq> None \<or> su_Scanner s \<noteq> None \<or> su_FilePattern s \<noteq> None)"

definition IsSuppressed :: "suppression list \<Rightarrow> string \<Rightarrow> string \<Rightarrow> string \<Rightarrow> bool" where
  "IsSuppressed suppressions scanner ruleID filePath =
     (length (filter (suppression_applies scanner ruleID filePath) suppressions) > 0)"

definition CreateSuppression ::
  "string \<Rightarrow> int \<Rightarrow> string \<Rightarrow> string option \<Rightarrow> string option \<Rightarrow> string option \<Rightarrow> string option
    \<Rightarrow> suppression list \<Rightarrow> suppression list" where
  "CreateSuppression new_id now name rule pattern scanner reason suppressions = suppressions @
     [\<lparr>su_ID = new_id, su_Name = name, su_RuleID = rule, su_FilePattern = pattern, su_Scanner = scanner,
       su_Reason = reason, su_CreatedAt = now\<rparr>]"

definition DeleteSuppression :: "string \<Rightarrow> suppression list \<Rightarrow> suppression list" where
  "DeleteSuppression suppressionID suppressions = filter (\<lambda>s. su_ID s \<noteq> suppressionID) suppressions"

section \<open>Specifications\<close>

text \<open>A condition holds; a policy fires; the actions a set of policies runs, in order.\<close>

definition holds :: "string \<Rightarrow> string \<Rightarrow> string \<Rightarrow> string \<Rightarrow> policy_condition \<Rightarrow> bool" where
  "holds scanner severity ruleID filePath c \<longleftrightarrow>
     (\<exists>v. (pc_Field c, v) \<in> {(''severity'', severity), (''scanner'', scanner), (''rule_id'', ruleID), (''file_path'', filePath)} \<and>
       (pc_Op c = ''eq'' \<and> v = pc_Value c \<or> pc_Op c = ''contains'' \<and> (\<exists>a b. v = a @ pc_Value c @ b)))"

definition fired_actions :: "policy list \<Rightarrow> string \<Rightarrow> string \<Rightarrow> string \<Rightarrow> string \<Rightarrow> policy_action list" where
  "fired_actions policies scanner severity ruleID filePath = concat (map pl_Actions
     (filter (\<lambda>p. pl_Enabled p \<and> pl_Conditions p \<noteq> [] \<and>
        list_all (holds scanner severity ruleID filePath) (pl_Conditions p)) policies))"

text \<open>The value of the last action of a type, if there is one.\<close>

definition last_of :: "string \<Rightarrow> policy_action list \<Rightarrow> string option" where
  "last_of ty acts = (case filter (\<lambda>a. pa_Type a = ty) acts of [] \<Rightarrow> None | xs \<Rightarrow> Some (pa_Value (last xs)))"

definition plain_pattern :: "string \<Rightarrow> bool" where
  "plain_pattern p \<longleftrightarrow> list_all (\<lambda>c. c \<notin> {percent, underscore, backslash}) p"

definition fix_policy :: policy where
  "fix_policy = \<lparr>pl_ID = ''p'', pl_Name = ''low'', pl_Description = [],
     pl_Conditions = [\<lparr>pc_Field = ''severity'', pc_Op = ''eq'', pc_Value = ''high''\<rparr>],
     pl_Actions = [\<lparr>pa_Type = ''set_status'', pa_Value = ''fixed''\<rparr>], pl_Enabled = True,
     pl_PackType = ''custom'', pl_Controls = [], pl_CreatedAt = 0\<rparr>"

section \<open>Lemmas\<close>

lemma conditions_loop_iff: "conditions_loop scanner severity ruleID filePath cs \<longleftrightarrow>
  list_all (holds scanner severity ruleID filePath) cs"
proof (induction cs)
  case (Cons c cs)
  have "(case condition_actual scanner severity ruleID filePath c of None \<Rightarrow> False
      | Some v \<Rightarrow> pc_Op c = ''eq'' \<and> v = pc_Value c \<or> pc_Op c = ''contains'' \<and> contains v (pc_Value c))
    \<longleftrightarrow> holds scanner severity ruleID filePath c"
    by (auto simp: condition_actual_def holds_def contains_iff)
  with Cons show ?case by (auto split: option.splits)
qed simp

lemma conditionsMatch_iff:
  "conditionsMatch cs scanner severity ruleID filePath \<longleftrightarrow>
    cs \<noteq> [] \<and> list_all (holds scanner severity ruleID filePath) cs"
  by (simp add: conditionsMatch_def conditions_loop_iff)

lemma ExecuteActions_append:
  "ExecuteActions i (xs @ ys) rows = ExecuteActions i ys (ExecuteActions i xs rows)"
  by (induction xs arbitrary: rows) auto

lemma applyPolicies_actions:
  "applyPolicies policies i scanner severity ruleID filePath rows =
    ExecuteActions i (fired_actions policies scanner severity ruleID filePath) rows"
  unfolding applyPolicies_def ListActive_def fired_actions_def
  by (induction policies arbitrary: rows) (auto simp: conditionsMatch_iff ExecuteActions_append)

lemma last_of_Cons:
  "last_of ty (a # acts) = (case last_of ty acts of Some v \<Rightarrow> Some v
    | None \<Rightarrow> if pa_Type a = ty then Some (pa_Value a) else None)"
  by (auto simp: last_of_def split: list.split)

lemma run_action_eq: "run_action i a rows = update_where (\<lambda>r. fd_ID r = i) (\<lambda>r. r\<lparr>
    fd_Status := (if pa_Type a = ''set_status'' then pa_Value a else fd_Status r),
    fd_AssignedTo := (if pa_Type a = ''assign'' then Some (pa_Value a) else fd_AssignedTo r)\<rparr>) rows"
  by (cases "pa_Type a = ''set_status''"; cases "pa_Type a = ''assign''") (simp_all add: run_action_def update_where_def)

lemma ExecuteActions_eq: "ExecuteActions i acts rows = update_where (\<lambda>r. fd_ID r = i) (\<lambda>r. r\<lparr>
    fd_Status := coalesce_col (last_of ''set_status'' acts) (fd_Status r),
    fd_AssignedTo := (case last_of ''assign'' acts of Some v \<Rightarrow> Some v | None \<Rightarrow> fd_AssignedTo r)\<rparr>) rows"
proof (induction acts arbitrary: rows)
  case Nil
  then show ?case by (auto simp: last_of_def coalesce_col_def update_where_def)
next
  case (Cons a acts)
  show ?case
    by (simp add: Cons run_action_eq update_where_compose)
      (auto simp: last_of_Cons coalesce_col_def update_where_def split: option.split)
qed

subsection \<open>Patterns\<close>

lemma like_percent: "like s (percent # ps) \<longleftrightarrow> (\<exists>a b. s = a @ b \<and> like b ps)"
proof (induction s)
  case (Cons c s)
  then show ?case by (auto simp: Cons_eq_append_conv)
qed simp

lemma like_plain_append: "plain_pattern p \<Longrightarrow> like s (p @ ps) \<longleftrightarrow> (\<exists>r. s = p @ r \<and> like r ps)"
proof (induction p arbitrary: s)
  case (Cons c p)
  then show ?case by (cases s) (auto simp: plain_pattern_def)
qed simp

lemma like_contains: "plain_pattern p \<Longrightarrow> like s ([percent] @ p @ [percent]) \<longleftrightarrow> contains s p"
  by (auto simp: like_percent like_plain_append contains_iff simp del: like.simps(2))

section \<open>Properties\<close>

text \<open>C24: The policy engine sets the status and the assignee of the finding to the values of
  the last such actions among the enabled policies that have conditions, all of which hold;
  every other column of it, and every other finding, is unchanged.\<close>

theorem applyPolicies_effect:
  "applyPolicies policies i scanner severity ruleID filePath rows =
    (let acts = fired_actions policies scanner severity ruleID filePath
     in map (\<lambda>r. if fd_ID r = i
          then r\<lparr>fd_Status := coalesce_col (last_of ''set_status'' acts) (fd_Status r),
                 fd_AssignedTo := (if last_of ''assign'' acts = None then fd_AssignedTo r else last_of ''assign'' acts)\<rparr>
          else r) rows)"
  unfolding applyPolicies_actions ExecuteActions_eq update_where_def Let_def
  by (auto split: option.split)

text \<open>A policy that sets a finding to fixed leaves its resolution time empty, so it breaks
  the relation between the two columns that every repository operation keeps.\<close>

theorem policy_fix_unresolved:
  assumes "findings_ok rows" "GetByID i rows = Some r" "fd_Status r = ''open''" "fd_Severity r = ''high''"
  shows "\<exists>r'. GetByID i (applyPolicies [fix_policy] i (fd_Scanner r) ''high'' (fd_RuleID r) (fd_FilePath r) rows) = Some r' \<and>
    fd_Status r' = ''fixed'' \<and> fd_ResolvedAt r' = None \<and>
    \<not> findings_ok (applyPolicies [fix_policy] i (fd_Scanner r) ''high'' (fd_RuleID r) (fd_FilePath r) rows)"
proof -
  have "r \<in> set rows" "fd_ID r = i" using assms(2) row_by_SomeD unfolding GetByID_def by metis+
  then have "fd_ResolvedAt r = None"
    using assms(1,3) by (auto simp: findings_ok_def list_all_iff resolved_ok_def)
  define rows' where "rows' = applyPolicies [fix_policy] i (fd_Scanner r) ''high'' (fd_RuleID r) (fd_FilePath r) rows"
  have "rows' = update_where (\<lambda>r. fd_ID r = i) (\<lambda>r. r\<lparr>fd_Status := ''fixed''\<rparr>) rows"
    unfolding rows'_def applyPolicies_actions
    by (simp add: fired_actions_def fix_policy_def holds_def run_action_def)
  then have g: "GetByID i rows' = Some (r\<lparr>fd_Status := ''fixed''\<rparr>)"
    using assms(2) \<open>fd_ID r = i\<close> by (simp add: GetByID_def row_by_update_where)
  then have "r\<lparr>fd_Status := ''fixed''\<rparr> \<in> set rows'" using row_by_SomeD unfolding GetByID_def by metis
  then have "\<not> findings_ok rows'"
    using \<open>fd_ResolvedAt r = None\<close> by (force simp: findings_ok_def list_all_iff resolved_ok_def)
  with g \<open>fd_ResolvedAt r = None\<close> show ?thesis unfolding rows'_def by simp
qed

theorem policy_fix_unresolved_witness:
  "\<not> findings_ok (applyPolicies [fix_policy] ''f1'' ''grype'' ''high'' ''CVE-2024-1'' ''/go.mod'' [new_finding ''f1'' 0 sample_insert])"
proof -
  let ?r = "new_finding ''f1'' 0 sample_insert"
  have "findings_ok [?r]" by (simp add: findings_ok_def resolved_ok_def)
  moreover have "GetByID ''f1'' [?r] = Some ?r" by (simp add: GetByID_def)
  moreover have "fd_Severity ?r = ''high''" "fd_Scanner ?r = ''grype''" "fd_RuleID ?r = ''CVE-2024-1''" "fd_FilePath ?r = ''/go.mod''"
    by (simp_all add: sample_insert_def new_finding_def)
  ultimately show ?thesis using policy_fix_unresolved [of "[?r]" "''f1''" ?r] by auto
qed

text \<open>A finding is suppressed exactly when some suppression that sets at least one criterion
  has every criterion it sets satisfied, where a file pattern without wildcards asks for a
  substring of the path.\<close>

theorem IsSuppressed_iff:
  assumes "list_all (\<lambda>s. su_FilePattern s = None \<or> plain_pattern (the (su_FilePattern s))) supps"
  shows "IsSuppressed supps scanner ruleID filePath \<longleftrightarrow>
      (\<exists>s \<in> set supps. su_RuleID s \<in> {None, Some ruleID} \<and> su_Scanner s \<in> {None, Some scanner} \<and>
        (su_FilePattern s = None \<or> contains filePath (the (su_FilePattern s))) \<and>
        \<not> (su_RuleID s = None \<and> su_Scanner s = None \<and> su_FilePattern s = None))"
proof -
  have "suppression_applies scanner ruleID filePath s \<longleftrightarrow>
      su_RuleID s \<in> {None, Some ruleID} \<and> su_Scanner s \<in> {None, Some scanner} \<and>
        (su_FilePattern s = None \<or> contains filePath (the (su_FilePattern s))) \<and>
        \<not> (su_RuleID s = None \<and> su_Scanner s = None \<and> su_FilePattern s = None)" if "s \<in> set supps" for s
    using assms that like_contains
    by (auto simp: suppression_applies_def list_all_iff simp del: like.simps append.simps split: option.splits)
  then show ?thesis unfolding IsSuppressed_def by (auto simp: filter_empty_conv)
qed

theorem IsSuppressed_iff_witness:
  "IsSuppressed (CreateSuppression ''s'' 0 ''vendored'' None (Some ''/vendor/'') None None []) ''semgrep'' ''r'' ''/vendor/a.go''
   \<and> \<not> IsSuppressed (CreateSuppression ''s'' 0 ''all'' None None None None []) ''semgrep'' ''r'' ''/vendor/a.go''"
proof -
  have p: "plain_pattern ''/vendor/''" "contains ''/vendor/a.go'' ''/vendor/''" by code_simp+
  show ?thesis
    using IsSuppressed_iff [of "CreateSuppression ''s'' 0 ''vendored'' None (Some ''/vendor/'') None None []" "''semgrep''" "''r''" "''/vendor/a.go''"]
      IsSuppressed_iff [of "CreateSuppression ''s'' 0 ''all'' None None None None []" "''semgrep''" "''r''" "''/vendor/a.go''"] p
    by (simp add: CreateSuppression_def)
qed

end
