(* ===== verification/Vuln_Store.thy ===== *)
theory Vuln_Store
  imports Finding_Store
begin

text \<open>
  Vulnerabilities (\<^verbatim>\<open>src/internal/vulnerability/uid.go\<close>,
  \<^verbatim>\<open>src/internal/repository/vulnerability_new.go\<close>): the identity of a vulnerability, the
  upsert that aggregates findings under it, its confidence, and the backfill that links old
  findings.  SHA-256 is a parameter.
\<close>

section \<open>Identity\<close>

definition NormalizePath :: "string \<Rightarrow> string" where
  "NormalizePath path =
     (let p1 = trim_prefix (trim_space path) ''/tmp/aspm-scan-'';
          p2 = (if has_prefix p1 ''/src/'' then ''/'' @ trim_prefix p1 ''/src/'' else p1);
          p3 = (if has_prefix p2 ''src/'' then ''/'' @ trim_prefix p2 ''src/'' else p2)
      in if p3 \<noteq> [] \<and> \<not> has_prefix p3 ''/'' \<and> \<not> contains p3 ''://'' then ''/'' @ p3 else p3)"

definition NormalizeVersion :: "string \<Rightarrow> string" where
  "NormalizeVersion v = trim_prefix (trim_space v) ''v''"

definition located_uid :: "string \<Rightarrow> string \<Rightarrow> string \<Rightarrow> string option" where
  "located_uid engine ruleID fp =
     (if ruleID \<noteq> [] \<and> fp \<noteq> [] then Some (engine @ '':'' @ ruleID @ '':'' @ fp)
      else if ruleID \<noteq> [] then Some (engine @ '':'' @ ruleID)
      else None)"

text \<open>What is hashed; \<open>None\<close> where the function returns the empty string.\<close>

definition uid_text ::
  "category \<Rightarrow> string \<Rightarrow> string \<Rightarrow> string \<Rightarrow> string \<Rightarrow> string \<Rightarrow> string option" where
  "uid_text cat ruleID pkgName cveID secretHash filePath =
     (let fp = NormalizePath filePath in
      if cat = CategorySCA \<or> cat = CategoryContainers then
        (if ruleID \<noteq> [] then Some (''sca:'' @ ruleID)
         else if cveID \<noteq> [] \<and> pkgName \<noteq> [] then Some (''sca:'' @ pkgName @ '':'' @ cveID)
         else None)
      else if cat = CategorySecrets then
        (if secretHash \<noteq> [] then Some (''secret:'' @ secretHash)
         else if ruleID \<noteq> [] \<and> fp \<noteq> [] then Some (''secret:'' @ ruleID @ '':'' @ fp)
         else None)
      else if cat = CategorySAST then located_uid ''sast'' ruleID fp
      else if cat = CategoryIaC then located_uid ''iac'' ruleID fp
      else if cat = CategoryDAST then (if ruleID \<noteq> [] then Some (''dast:'' @ ruleID) else None)
      else None)"

definition ComputeVulnUID ::
  "(string \<Rightarrow> string) \<Rightarrow> category \<Rightarrow> string \<Rightarrow> string \<Rightarrow> string \<Rightarrow> string \<Rightarrow> string \<Rightarrow> string \<Rightarrow> string" where
  "ComputeVulnUID hash cat ruleID pkgName pkgVersion cveID secretHash filePath =
     (case uid_text cat ruleID pkgName cveID secretHash filePath of None \<Rightarrow> [] | Some t \<Rightarrow> hash t)"

definition EngineTypeFromCategory :: "category \<Rightarrow> string" where
  "EngineTypeFromCategory cat =
     (if cat = CategorySCA then ''sca'' else if cat = CategorySAST then ''sast''
      else if cat = CategorySecrets then ''secrets'' else if cat = CategoryIaC then ''iac''
      else if cat = CategoryContainers then ''containers'' else if cat = CategoryDAST then ''dast'' else [])"

section \<open>The table\<close>

record vuln_row =
  vr_ID :: string
  vr_UID :: string
  vr_ProjectID :: string
  vr_Title :: string
  vr_Description :: string
  vr_Severity :: string
  vr_Status :: string
  vr_EngineType :: string
  vr_PkgName :: string
  vr_PkgVersion :: string
  vr_CVEID :: string
  vr_CWEID :: string
  vr_RuleID :: string
  vr_SecretHash :: string
  vr_FilePath :: string
  vr_FirstSeenAt :: int
  vr_LastSeenAt :: int
  vr_FindingCount :: nat
  vr_Coverage :: "string list"
  vr_Confidence :: "rat option"
  vr_UpdatedAt :: int

record vuln_upsert =
  vi_UID :: string
  vi_ProjectID :: string
  vi_Title :: string
  vi_Description :: string
  vi_Severity :: string
  vi_EngineType :: string
  vi_PkgName :: string
  vi_PkgVersion :: string
  vi_CVEID :: string
  vi_CWEID :: string
  vi_RuleID :: string
  vi_SecretHash :: string
  vi_FilePath :: string
  vi_ScannerName :: string

definition new_vuln :: "string \<Rightarrow> int \<Rightarrow> vuln_upsert \<Rightarrow> vuln_row" where
  "new_vuln new_id now v =
     \<lparr>vr_ID = new_id, vr_UID = vi_UID v, vr_ProjectID = vi_ProjectID v, vr_Title = vi_Title v,
      vr_Description = vi_Description v, vr_Severity = vi_Severity v, vr_Status = ''open'',
      vr_EngineType = vi_EngineType v, vr_PkgName = vi_PkgName v, vr_PkgVersion = vi_PkgVersion v,
      vr_CVEID = vi_CVEID v, vr_CWEID = vi_CWEID v, vr_RuleID = vi_RuleID v,
      vr_SecretHash = vi_SecretHash v, vr_FilePath = vi_FilePath v, vr_FirstSeenAt = now,
      vr_LastSeenAt = now, vr_FindingCount = 1, vr_Coverage = [vi_ScannerName v],
      vr_Confidence = None, vr_UpdatedAt = now\<rparr>"

text \<open>The \<^verbatim>\<open>DO UPDATE\<close> branch: the severities are \<^verbatim>\<open>TEXT\<close> and compared as such.\<close>

definition merge_vuln :: "int \<Rightarrow> vuln_upsert \<Rightarrow> vuln_row \<Rightarrow> vuln_row" where
  "merge_vuln now v r = r\<lparr>
     vr_Title := vi_Title v,
     vr_Severity := (if vi_Severity v < vr_Severity r then vi_Severity v else vr_Severity r),
     vr_LastSeenAt := now,
     vr_FindingCount := vr_FindingCount r + 1,
     vr_Coverage := sort (remdups (vr_Coverage r @ [vi_ScannerName v])),
     vr_UpdatedAt := now\<rparr>"

definition same_vuln :: "vuln_upsert \<Rightarrow> vuln_row \<Rightarrow> bool" where
  "same_vuln v r \<longleftrightarrow> vr_ProjectID r = vi_ProjectID v \<and> vr_UID r = vi_UID v"

definition Upsert ::
  "(vuln_upsert \<Rightarrow> string option) \<Rightarrow> string \<Rightarrow> int \<Rightarrow> vuln_upsert \<Rightarrow> vuln_row list \<Rightarrow> (string + vuln_row) \<times> vuln_row list" where
  "Upsert refuse new_id now v vulns =
     (if vi_ProjectID v = [] then (Inl ''upsert vulnerability: invalid input syntax for type uuid'', vulns)
      else (case refuse v of
        Some e \<Rightarrow> (Inl (''upsert vulnerability: '' @ e), vulns)
      | None \<Rightarrow> (case find (same_vuln v) vulns of
          None \<Rightarrow> (Inr (new_vuln new_id now v), vulns @ [new_vuln new_id now v])
        | Some r \<Rightarrow> (Inr (merge_vuln now v r), update_where (same_vuln v) (merge_vuln now v) vulns))))"

definition Vuln_GetByID :: "string \<Rightarrow> vuln_row list \<Rightarrow> vuln_row option" where
  "Vuln_GetByID vulnID vulns = row_by vr_ID vulnID vulns"

definition Vuln_GetByUID :: "string \<Rightarrow> string \<Rightarrow> vuln_row list \<Rightarrow> vuln_row option" where
  "Vuln_GetByUID projectID uid vulns = find (\<lambda>r. vr_ProjectID r = projectID \<and> vr_UID r = uid) vulns"

definition UpdateFindingVulnID :: "string \<Rightarrow> string \<Rightarrow> finding list \<Rightarrow> finding list" where
  "UpdateFindingVulnID findingID vulnID rows =
     update_where (\<lambda>f. fd_ID f = findingID) (\<lambda>f. f\<lparr>fd_VulnID := Some vulnID\<rparr>) rows"

definition Vuln_UpdateStatus :: "int \<Rightarrow> string \<Rightarrow> string \<Rightarrow> vuln_row list \<Rightarrow> vuln_row list" where
  "Vuln_UpdateStatus now vulnID status vulns =
     update_where (\<lambda>r. vr_ID r = vulnID) (\<lambda>r. r\<lparr>vr_Status := status, vr_UpdatedAt := now\<rparr>) vulns"

fun affected_scanners :: "scan_row list \<Rightarrow> string \<Rightarrow> finding list \<Rightarrow> string list" where
  "affected_scanners scans vulnID [] = []"
| "affected_scanners scans vulnID (f # fs) =
     (case Scan_Get (fd_ScanID f) scans of
        None \<Rightarrow> affected_scanners scans vulnID fs
      | Some s \<Rightarrow> if fd_VulnID f = Some vulnID then sn_Scanner s # affected_scanners scans vulnID fs
          else affected_scanners scans vulnID fs)"

definition vuln_score :: "nat \<Rightarrow> rat" where
  "vuln_score n =
     (let score = (if n \<ge> 2 then 1/2 + 1/2 * of_nat (n - 1) / of_nat n else 1/2)
      in if score > 1 then 1 else score)"

definition RecalcConfidence ::
  "int \<Rightarrow> string \<Rightarrow> scan_row list \<Rightarrow> finding list \<Rightarrow> vuln_row list \<Rightarrow> string option \<times> vuln_row list" where
  "RecalcConfidence now vulnID scans rows vulns =
     (case Vuln_GetByID vulnID vulns of
        None \<Rightarrow> (Some ''recalc confidence: get vulnerability by id: no rows in result set'', vulns)
      | Some v \<Rightarrow>
          if vr_Coverage v = [] then (None, vulns)
          else (let n = length (remdups (affected_scanners scans vulnID rows)) in
            if n = 0 then (None, vulns)
            else (None, update_where (\<lambda>r. vr_ID r = vulnID)
              (\<lambda>r. r\<lparr>vr_Confidence := Some (vuln_score n), vr_UpdatedAt := now\<rparr>) vulns)))"

section \<open>Backfill\<close>

text \<open>What the backfill uses of its surroundings: the hash, the clock, the identifier of a
  new row and the refusals of the database.\<close>

record vuln_env =
  ve_hash :: "string \<Rightarrow> string"
  ve_now :: int
  ve_new_id :: "vuln_row list \<Rightarrow> string"
  ve_refuse :: "vuln_upsert \<Rightarrow> string option"

definition unlinked :: "scan_row list \<Rightarrow> finding \<Rightarrow> bool" where
  "unlinked scans f \<longleftrightarrow> fd_VulnID f = None \<and> Scan_Get (fd_ScanID f) scans \<noteq> None"

definition backfill_query :: "nat \<Rightarrow> scan_row list \<Rightarrow> finding list \<Rightarrow> finding list" where
  "backfill_query batchSize scans rows = take batchSize (sort_key fd_CreatedAt (filter (unlinked scans) rows))"

definition scan_project :: "scan_row list \<Rightarrow> finding \<Rightarrow> string option" where
  "scan_project scans f = (case Scan_Get (fd_ScanID f) scans of None \<Rightarrow> None | Some s \<Rightarrow> sn_Project s)"

definition text_of :: "string option \<Rightarrow> string" where
  "text_of x = (case x of None \<Rightarrow> [] | Some s \<Rightarrow> s)"

text \<open>The upsert of one finding, \<open>None\<close> where the loop skips it.\<close>

definition backfill_upsert :: "vuln_env \<Rightarrow> scan_row list \<Rightarrow> finding \<Rightarrow> vuln_upsert option" where
  "backfill_upsert env scans f =
     (case CategoryFor (fd_Scanner f) of
        None \<Rightarrow> None
      | Some cat \<Rightarrow>
          (let uid = ComputeVulnUID (ve_hash env) cat (fd_RuleID f) (fd_PkgName f) (fd_PkgVersion f)
                 (text_of (fd_CVEID f)) (fd_SecretHash f) (fd_FilePath f);
               engine = EngineTypeFromCategory cat
           in if uid = [] then None
              else if engine = [] then None
              else Some \<lparr>vi_UID = uid, vi_ProjectID = text_of (scan_project scans f), vi_Title = fd_Title f,
                vi_Description = fd_Description f, vi_Severity = fd_Severity f, vi_EngineType = engine,
                vi_PkgName = fd_PkgName f, vi_PkgVersion = NormalizeVersion (fd_PkgVersion f),
                vi_CVEID = text_of (fd_CVEID f), vi_CWEID = text_of (fd_CWEID f), vi_RuleID = fd_RuleID f,
                vi_SecretHash = fd_SecretHash f, vi_FilePath = NormalizePath (fd_FilePath f),
                vi_ScannerName = fd_Scanner f\<rparr>))"

text \<open>One pass over a batch: the findings, the vulnerabilities, the touched identifiers and
  the number of links made.\<close>

fun backfill_batch ::
  "vuln_env \<Rightarrow> scan_row list \<Rightarrow> finding list \<Rightarrow> finding list \<times> vuln_row list \<times> string list \<times> nat
    \<Rightarrow> finding list \<times> vuln_row list \<times> string list \<times> nat" where
  "backfill_batch env scans [] st = st"
| "backfill_batch env scans (f # fs) (rows, vulns, touched, linked) =
     (case backfill_upsert env scans f of
        None \<Rightarrow> backfill_batch env scans fs (rows, vulns, touched, linked)
      | Some v \<Rightarrow> (case Upsert (ve_refuse env) (ve_new_id env vulns) (ve_now env) v vulns of
          (Inl _, vulns') \<Rightarrow> backfill_batch env scans fs (rows, vulns', touched, linked)
        | (Inr vuln, vulns') \<Rightarrow> backfill_batch env scans fs
            (UpdateFindingVulnID (fd_ID f) (vr_ID vuln) rows, vulns', List.insert (vr_ID vuln) touched, linked + 1)))"

text \<open>Each round links at least one finding or is the last one, so the unlinked findings are
  the measure of the loop; what it needs of a batch is proved here.\<close>

definition set_vuln :: "string \<Rightarrow> finding \<Rightarrow> finding" where
  "set_vuln v f = f\<lparr>fd_VulnID := Some v\<rparr>"

definition linked_from :: "finding \<Rightarrow> finding \<Rightarrow> bool" where
  "linked_from r r' \<longleftrightarrow> r' = r \<or> (\<exists>v. r' = set_vuln v r)"

definition is_linked :: "finding list \<Rightarrow> string \<Rightarrow> bool" where
  "is_linked rows i \<longleftrightarrow> (\<forall>r \<in> set rows. fd_ID r = i \<longrightarrow> fd_VulnID r \<noteq> None)"

lemma set_vuln_sel [simp]:
  "fd_ID (set_vuln v f) = fd_ID f" "fd_ScanID (set_vuln v f) = fd_ScanID f" "fd_VulnID (set_vuln v f) = Some v"
  "set_vuln w (set_vuln v f) = set_vuln w f"
  by (simp_all add: set_vuln_def)

lemma linked_from_refl: "linked_from r r"
  by (simp add: linked_from_def)

lemma linked_from_trans: "linked_from a b \<Longrightarrow> linked_from b c \<Longrightarrow> linked_from a c"
  by (auto simp: linked_from_def)

lemma linked_fromD:
  "linked_from r r' \<Longrightarrow> fd_ID r' = fd_ID r \<and> fd_ScanID r' = fd_ScanID r \<and> (fd_VulnID r \<noteq> None \<longrightarrow> fd_VulnID r' \<noteq> None)"
  by (auto simp: linked_from_def)

lemma linked_from_link: "linked_from r (set_vuln v r)"
  unfolding linked_from_def by blast

lemma UpdateFindingVulnID_eq: "UpdateFindingVulnID i v rows = update_where (\<lambda>f. fd_ID f = i) (set_vuln v) rows"
  by (simp add: UpdateFindingVulnID_def set_vuln_def [abs_def])

lemma UpdateFindingVulnID_linked:
  shows "list_all2 linked_from rows (UpdateFindingVulnID i v rows)"
    and "is_linked (UpdateFindingVulnID i v rows) i"
proof -
  show "list_all2 linked_from rows (UpdateFindingVulnID i v rows)"
    unfolding UpdateFindingVulnID_eq by (induction rows) (simp_all add: linked_from_refl linked_from_link)
  show "is_linked (UpdateFindingVulnID i v rows) i"
    unfolding UpdateFindingVulnID_eq is_linked_def by (induction rows) simp_all
qed

lemma is_linked_mono: "list_all2 linked_from rows rows' \<Longrightarrow> is_linked rows i \<Longrightarrow> is_linked rows' i"
  by (induction rule: list_all2_induct) (auto simp: is_linked_def dest: linked_fromD)

lemma list_all2_linked_trans:
  "list_all2 linked_from a b \<Longrightarrow> list_all2 linked_from b c \<Longrightarrow> list_all2 linked_from a c"
  by (rule list_all2_trans [OF linked_from_trans])

lemma list_all2_linked_refl: "list_all2 linked_from a a"
  by (simp add: list_all2_refl linked_from_refl)

lemma backfill_batch_links:
  assumes "backfill_batch env scans batch (rows, vulns, touched, linked) = (rows', vulns', touched', linked')"
  shows "list_all2 linked_from rows rows' \<and> linked \<le> linked' \<and>
    (linked < linked' \<longrightarrow> (\<exists>f \<in> set batch. is_linked rows' (fd_ID f)))"
  using assms
proof (induction batch arbitrary: rows vulns touched linked)
  case Nil
  then show ?case by (simp add: list_all2_linked_refl)
next
  case (Cons f fs)
  show ?case
  proof (cases "backfill_upsert env scans f")
    case None
    with Cons.prems have "backfill_batch env scans fs (rows, vulns, touched, linked) = (rows', vulns', touched', linked')" by simp
    from Cons.IH [OF this] show ?thesis by (meson list.set_intros(2))
  next
    case (Some v)
    obtain u vulns1 where u: "Upsert (ve_refuse env) (ve_new_id env vulns) (ve_now env) v vulns = (u, vulns1)" by fastforce
    show ?thesis
    proof (cases u)
      case (Inl e)
      with Cons.prems Some u have "backfill_batch env scans fs (rows, vulns1, touched, linked) = (rows', vulns', touched', linked')" by simp
      from Cons.IH [OF this] show ?thesis by (meson list.set_intros(2))
    next
      case (Inr vuln)
      with Cons.prems Some u have "backfill_batch env scans fs
          (UpdateFindingVulnID (fd_ID f) (vr_ID vuln) rows, vulns1, List.insert (vr_ID vuln) touched, linked + 1)
            = (rows', vulns', touched', linked')" by simp
      note IH = Cons.IH [OF this]
      then have "list_all2 linked_from rows rows'" "is_linked rows' (fd_ID f)"
        using UpdateFindingVulnID_linked [where rows = rows and i = "fd_ID f" and v = "vr_ID vuln"] is_linked_mono list_all2_linked_trans by blast+
      with IH show ?thesis by (metis Suc_eq_plus1 Suc_leD list.set_intros(1))
    qed
  qed
qed

lemma unlinked_mono: "linked_from r r' \<Longrightarrow> unlinked scans r' \<Longrightarrow> unlinked scans r"
  using linked_fromD unfolding unlinked_def by metis

lemma unlinked_count_le:
  "list_all2 linked_from rows rows' \<Longrightarrow> length (filter (unlinked scans) rows') \<le> length (filter (unlinked scans) rows)"
  by (induction rule: list_all2_induct) (auto dest: unlinked_mono simp: le_Suc_eq)

lemma unlinked_count_less:
  assumes "list_all2 linked_from rows rows'" "f \<in> set rows" "unlinked scans f" "is_linked rows' (fd_ID f)"
  shows "length (filter (unlinked scans) rows') < length (filter (unlinked scans) rows)"
  using assms
proof (induction rule: list_all2_induct)
  case (Cons r rows r' rows')
  show ?case
  proof (cases "r = f")
    case True
    then have "\<not> unlinked scans r'" using Cons.hyps(1) Cons.prems linked_fromD by (auto simp: is_linked_def unlinked_def)
    with True Cons.hyps(2) Cons.prems unlinked_count_le [of rows rows' scans] show ?thesis by simp
  next
    case False
    with Cons have "length (filter (unlinked scans) rows') < length (filter (unlinked scans) rows)" by (simp add: is_linked_def)
    then show ?thesis using unlinked_mono [OF Cons.hyps(1)] by auto
  qed
qed simp

lemma backfill_query_set: "f \<in> set (backfill_query n scans rows) \<Longrightarrow> f \<in> set rows \<and> unlinked scans f"
  unfolding backfill_query_def by (auto dest!: in_set_takeD)

text \<open>The loop: the error, the tables, the touched identifiers and the links made.\<close>

function backfill_loop ::
  "vuln_env \<Rightarrow> scan_row list \<Rightarrow> nat \<Rightarrow> finding list \<Rightarrow> vuln_row list \<Rightarrow> string list \<Rightarrow> nat
    \<Rightarrow> string option \<times> finding list \<times> vuln_row list \<times> string list \<times> nat" where
  "backfill_loop env scans batchSize rows vulns touched done_links =
     (let batch = backfill_query batchSize scans rows in
      if list_ex (\<lambda>f. scan_project scans f = None) batch
      then (Some ''backfill scan row: cannot scan NULL into *string'', rows, vulns, touched, done_links)
      else if batch = [] then (None, rows, vulns, touched, done_links)
      else (case backfill_batch env scans batch (rows, vulns, touched, 0) of
          (rows', vulns', touched', linked) \<Rightarrow>
            if length batch < batchSize then (None, rows', vulns', touched', done_links + linked)
            else if linked = 0 then (None, rows', vulns', touched', done_links + linked)
            else backfill_loop env scans batchSize rows' vulns' touched' (done_links + linked)))"
  by pat_completeness auto
termination
proof (relation "measure (\<lambda>(env, scans, n, rows, _). length (filter (unlinked scans) rows))")
  fix env scans n rows vulns touched done_links batch rows' y vulns' z touched' linked
  assume b: "batch = backfill_query n scans rows"
    and r: "(rows', y) = backfill_batch env scans batch (rows, vulns, touched, 0)" "(vulns', z) = y" "(touched', linked) = z"
    and l: "linked \<noteq> 0"
  from r have e: "backfill_batch env scans batch (rows, vulns, touched, 0) = (rows', vulns', touched', linked)" by simp
  with l obtain f where "f \<in> set batch" "is_linked rows' (fd_ID f)" "list_all2 linked_from rows rows'"
    using backfill_batch_links [OF e] by blast
  then have "length (filter (unlinked scans) rows') < length (filter (unlinked scans) rows)"
    using unlinked_count_less backfill_query_set b by metis
  then show "((env, scans, n, rows', vulns', touched', done_links + linked), env, scans, n, rows, vulns, touched, done_links)
      \<in> measure (\<lambda>(env, scans, n, rows, _). length (filter (unlinked scans) rows))" by simp
qed simp

declare backfill_loop.simps [simp del]

fun recalc_touched :: "int \<Rightarrow> string list \<Rightarrow> scan_row list \<Rightarrow> finding list \<Rightarrow> vuln_row list \<Rightarrow> vuln_row list" where
  "recalc_touched now [] scans rows vulns = vulns"
| "recalc_touched now (i # ids) scans rows vulns =
     recalc_touched now ids scans rows (snd (RecalcConfidence now i scans rows vulns))"

text \<open>The number of links or the error, and the tables.\<close>

definition BackfillVulnerabilities ::
  "vuln_env \<Rightarrow> scan_row list \<Rightarrow> finding list \<Rightarrow> vuln_row list \<Rightarrow> (nat \<times> string option) \<times> finding list \<times> vuln_row list" where
  "BackfillVulnerabilities env scans rows vulns =
     (case backfill_loop env scans 500 rows vulns [] 0 of
        (Some e, rows', vulns', touched, done_links) \<Rightarrow> ((done_links, Some e), rows', vulns')
      | (None, rows', vulns', touched, done_links) \<Rightarrow>
          ((done_links, None), rows', recalc_touched (ve_now env) touched scans rows' vulns'))"

section \<open>Specifications\<close>

definition severity_rank :: "string \<Rightarrow> nat" where
  "severity_rank s = (if s = ''critical'' then 5 else if s = ''high'' then 4 else if s = ''medium'' then 3
     else if s = ''low'' then 2 else if s = ''info'' then 1 else 0)"

definition severities :: "string list" where
  "severities = [''critical'', ''high'', ''medium'', ''low'', ''info'']"

text \<open>The vulnerability a sequence of upserts leaves under one key.\<close>

fun upserts :: "(vuln_row list \<Rightarrow> string) \<Rightarrow> int \<Rightarrow> vuln_upsert list \<Rightarrow> vuln_row list \<Rightarrow> vuln_row list" where
  "upserts gen now [] vulns = vulns"
| "upserts gen now (v # vs) vulns = upserts gen now vs (snd (Upsert (\<lambda>_. None) (gen vulns) now v vulns))"

definition vulns_ok :: "vuln_row list \<Rightarrow> bool" where
  "vulns_ok vulns \<longleftrightarrow> distinct (map (\<lambda>r. (vr_ProjectID r, vr_UID r)) vulns)"

definition sample_upsert :: "string \<Rightarrow> vuln_upsert" where
  "sample_upsert severity = \<lparr>vi_UID = ''u'', vi_ProjectID = ''p1'', vi_Title = ''t'', vi_Description = [],
     vi_Severity = severity, vi_EngineType = ''sca'', vi_PkgName = ''a'', vi_PkgVersion = ''1'', vi_CVEID = [],
     vi_CWEID = [], vi_RuleID = ''r'', vi_SecretHash = [], vi_FilePath = [], vi_ScannerName = ''grype''\<rparr>"

definition sample_vuln_env :: vuln_env where
  "sample_vuln_env = \<lparr>ve_hash = (\<lambda>t. CHR ''h'' # t), ve_now = 0, ve_new_id = (\<lambda>vs. nat_str (length vs)),
     ve_refuse = (\<lambda>_. None)\<rparr>"

text \<open>The end of a backfill: what is still unlinked cannot be linked, or a full batch of
  findings that cannot be linked is in the way.\<close>

definition has_project :: "scan_row list \<Rightarrow> finding \<Rightarrow> bool" where
  "has_project scans f \<longleftrightarrow> (\<exists>p. scan_project scans f = Some p \<and> p \<noteq> [])"

definition backfill_done :: "vuln_env \<Rightarrow> scan_row list \<Rightarrow> nat \<Rightarrow> finding list \<Rightarrow> bool" where
  "backfill_done env scans n rows \<longleftrightarrow>
     (\<forall>r \<in> set rows. unlinked scans r \<longrightarrow> backfill_upsert env scans r = None) \<or>
     n \<le> length (filter (\<lambda>r. unlinked scans r \<and> backfill_upsert env scans r = None) rows)"

section \<open>Lemmas\<close>

subsection \<open>The backfill\<close>

lemma backfill_upsert_link: "backfill_upsert env scans (set_vuln v f) = backfill_upsert env scans f"
  by (simp add: backfill_upsert_def scan_project_def set_vuln_def Let_def cong: option.case_cong if_cong)

lemma backfill_upsert_from: "linked_from r r' \<Longrightarrow> backfill_upsert env scans r' = backfill_upsert env scans r"
  unfolding linked_from_def using backfill_upsert_link by metis

lemma backfill_upsert_project: "backfill_upsert env scans f = Some v \<Longrightarrow> vi_ProjectID v = text_of (scan_project scans f)"
  by (auto simp: backfill_upsert_def Let_def split: option.splits if_splits)

lemma Upsert_accepts:
  "refuse v = None \<Longrightarrow> vi_ProjectID v \<noteq> [] \<Longrightarrow> \<exists>r vulns'. Upsert refuse i now v vulns = (Inr r, vulns')"
  by (simp add: Upsert_def split: option.split)

lemma backfill_upsert_project_ok:
  assumes "backfill_upsert env scans f = Some v" "has_project scans f"
  shows "vi_ProjectID v \<noteq> []"
proof -
  obtain p where "scan_project scans f = Some p" "p \<noteq> []" using assms(2) unfolding has_project_def by blast
  then show ?thesis unfolding backfill_upsert_project [OF assms(1)] by (simp add: text_of_def)
qed

lemma backfill_batch_complete:
  assumes "backfill_batch env scans batch (rows, vulns, touched, linked) = (rows', vulns', touched', linked')"
    and "\<And>v. ve_refuse env v = None" "list_all (has_project scans) batch"
  shows "list_all (\<lambda>f. backfill_upsert env scans f \<noteq> None \<longrightarrow> is_linked rows' (fd_ID f)) batch \<and>
    (linked' = linked \<longrightarrow> rows' = rows \<and> list_all (\<lambda>f. backfill_upsert env scans f = None) batch)"
  using assms(1,3)
proof (induction batch arbitrary: rows vulns touched linked)
  case (Cons f fs)
  have fs: "list_all (has_project scans) fs" and "has_project scans f" using Cons.prems(2) by simp_all
  show ?case
  proof (cases "backfill_upsert env scans f")
    case None
    with Cons.prems have "backfill_batch env scans fs (rows, vulns, touched, linked) = (rows', vulns', touched', linked')" by simp
    from Cons.IH [OF this fs] None show ?thesis by simp
  next
    case (Some v)
    have "vi_ProjectID v \<noteq> []" by (rule backfill_upsert_project_ok [OF Some \<open>has_project scans f\<close>])
    then have "\<exists>vuln vulns1. Upsert (ve_refuse env) (ve_new_id env vulns) (ve_now env) v vulns = (Inr vuln, vulns1)"
      by (rule Upsert_accepts [OF assms(2)])
    then obtain vuln vulns1 where u: "Upsert (ve_refuse env) (ve_new_id env vulns) (ve_now env) v vulns = (Inr vuln, vulns1)"
      by blast
    with Cons.prems(1) Some have b: "backfill_batch env scans fs
        (UpdateFindingVulnID (fd_ID f) (vr_ID vuln) rows, vulns1, List.insert (vr_ID vuln) touched, linked + 1)
          = (rows', vulns', touched', linked')" by simp
    have links: "list_all2 linked_from (UpdateFindingVulnID (fd_ID f) (vr_ID vuln) rows) rows'" "linked + 1 \<le> linked'"
      using backfill_batch_links [OF b] by blast+
    then have l: "is_linked rows' (fd_ID f)" using UpdateFindingVulnID_linked(2) is_linked_mono by blast
    have n: "linked' \<noteq> linked" using links(2) by simp
    from Cons.IH [OF b fs] l n show ?thesis by simp
  qed
qed simp

lemma batch_filter:
  "length (filter P (backfill_query n scans rows)) \<le> length (filter (\<lambda>r. unlinked scans r \<and> P r) rows)"
proof -
  have a: "length (filter P (take n xs)) \<le> length (filter P xs)" for xs :: "finding list"
    by (metis append_take_drop_id filter_append le_add1 length_append)
  have "length (filter P (backfill_query n scans rows)) \<le> length (filter P (sort_key fd_CreatedAt (filter (unlinked scans) rows)))"
    unfolding backfill_query_def by (rule a)
  also have "\<dots> = length (filter (\<lambda>r. unlinked scans r \<and> P r) rows)"
    unfolding filter_sort length_sort filter_filter by (simp add: conj_commute)
  finally show ?thesis .
qed

lemma short_batch:
  "length (backfill_query n scans rows) < n \<Longrightarrow> set (backfill_query n scans rows) = {r \<in> set rows. unlinked scans r}"
  by (simp add: backfill_query_def)

lemma linked_origin: "list_all2 linked_from rows rows' \<Longrightarrow> r' \<in> set rows' \<Longrightarrow> \<exists>r \<in> set rows. linked_from r r'"
  by (metis in_set_conv_nth list_all2_conv_all_nth)

lemma backfill_last_batch:
  assumes "backfill_batch env scans (backfill_query n scans rows) (rows, vulns, touched, 0) = (rows', vulns', touched', linked)"
    and "\<And>v. ve_refuse env v = None" "list_all (has_project scans) (backfill_query n scans rows)"
    and "length (backfill_query n scans rows) < n \<or> linked = 0"
  shows "backfill_done env scans n rows'"
proof (cases "length (backfill_query n scans rows) < n")
  case True
  have "backfill_upsert env scans r' = None" if r': "r' \<in> set rows'" "unlinked scans r'" for r'
  proof -
    obtain r where r: "r \<in> set rows" "linked_from r r'"
      using linked_origin backfill_batch_links [OF assms(1)] r' by blast
    then have "r \<in> set (backfill_query n scans rows)" using short_batch [OF True] unlinked_mono r'(2) by blast
    moreover have "\<not> is_linked rows' (fd_ID r)"
      using r' linked_fromD [OF r(2)] by (simp add: is_linked_def unlinked_def) blast
    ultimately have "backfill_upsert env scans r = None"
      using backfill_batch_complete [OF assms(1-3)] unfolding list_all_iff by blast
    with backfill_upsert_from [OF r(2)] show ?thesis by simp
  qed
  then show ?thesis by (simp add: backfill_done_def)
next
  case False
  then have same: "rows' = rows" and skip: "\<forall>f \<in> set (backfill_query n scans rows). backfill_upsert env scans f = None"
    using backfill_batch_complete [OF assms(1-3)] assms(4) unfolding list_all_iff by blast+
  have "length (filter (\<lambda>f. backfill_upsert env scans f = None) (backfill_query n scans rows)) \<ge> n"
    using skip False by (simp add: filter_True)
  then show ?thesis
    unfolding backfill_done_def same using batch_filter order_trans by fastforce
qed

lemma backfill_loop_done:
  assumes "\<And>v. ve_refuse env v = None" "list_all (\<lambda>f. unlinked scans f \<longrightarrow> has_project scans f) rows" "n > 0"
  shows "\<exists>rows' vulns' touched' m. backfill_loop env scans n rows vulns touched done_links = (None, rows', vulns', touched', m) \<and>
    list_all2 linked_from rows rows' \<and> backfill_done env scans n rows'"
  using assms
proof (induction env scans n rows vulns touched done_links rule: backfill_loop.induct)
  case (1 env scans n rows vulns touched done_links)
  let ?batch = "backfill_query n scans rows"
  have proj: "list_all (has_project scans) ?batch"
    using "1.prems"(2) backfill_query_set unfolding list_all_iff by blast
  then have np: "\<not> list_ex (\<lambda>f. scan_project scans f = None) ?batch"
    unfolding list_ex_iff list_all_iff has_project_def by (metis option.distinct(1))
  obtain rows' vulns' touched' linked where b:
    "backfill_batch env scans ?batch (rows, vulns, touched, 0) = (rows', vulns', touched', linked)"
    by (metis prod_cases4)
  have links: "list_all2 linked_from rows rows'" using backfill_batch_links [OF b] by blast
  show ?case
  proof (cases "?batch = []")
    case True
    then have "{r \<in> set rows. unlinked scans r} = {}" using short_batch [of n scans rows] "1.prems"(3) by simp
    then have "backfill_done env scans n rows" unfolding backfill_done_def by blast
    with True np show ?thesis by (subst backfill_loop.simps) (simp add: list_all2_linked_refl)
  next
    case False
    show ?thesis
    proof (cases "length ?batch < n \<or> linked = 0")
      case True
      have "backfill_done env scans n rows'" by (rule backfill_last_batch [OF b "1.prems"(1) proj True])
      moreover have "backfill_loop env scans n rows vulns touched done_links = (None, rows', vulns', touched', done_links + linked)"
        using True False np b by (subst backfill_loop.simps) (auto simp: Let_def)
      ultimately show ?thesis using links by blast
    next
      case more: False
      have step: "backfill_loop env scans n rows vulns touched done_links = backfill_loop env scans n rows' vulns' touched' (done_links + linked)"
        using more False np b by (subst backfill_loop.simps) (simp add: Let_def)
      have "unlinked scans r' \<longrightarrow> has_project scans r'" if r': "r' \<in> set rows'" for r'
      proof
        assume u: "unlinked scans r'"
        obtain r where r: "r \<in> set rows" "linked_from r r'" using linked_origin [OF links] r' by blast
        then have "has_project scans r" using "1.prems"(2) unlinked_mono u unfolding list_all_iff by blast
        with linked_fromD [OF r(2)] show "has_project scans r'" by (simp add: has_project_def scan_project_def)
      qed
      then have "list_all (\<lambda>f. unlinked scans f \<longrightarrow> has_project scans f) rows'" by (simp add: list_all_iff)
      from "1.IH" [OF refl np False b [symmetric] refl refl _ _ "1.prems"(1) this "1.prems"(3)] more
      show ?thesis unfolding step using list_all2_linked_trans [OF links] by blast
    qed
  qed
qed

subsection \<open>The upsert\<close>

lemma same_vuln_merge [simp]: "same_vuln w (merge_vuln now v r) = same_vuln w r"
  by (simp add: same_vuln_def merge_vuln_def)

lemma same_vuln_new [simp]: "same_vuln w (new_vuln i now v) \<longleftrightarrow> vi_ProjectID v = vi_ProjectID w \<and> vi_UID v = vi_UID w"
  by (simp add: same_vuln_def new_vuln_def)

lemma vulns_ok_Upsert:
  assumes "vulns_ok vulns"
  shows "vulns_ok (snd (Upsert refuse i now v vulns))"
proof (cases "find (same_vuln v) vulns")
  case None
  then have "(vi_ProjectID v, vi_UID v) \<notin> (\<lambda>r. (vr_ProjectID r, vr_UID r)) ` set vulns"
    unfolding find_None_iff same_vuln_def image_iff by (metis prod.inject)
  with assms None show ?thesis
    by (simp add: Upsert_def vulns_ok_def new_vuln_def split: option.split)
next
  case (Some r)
  have "map (\<lambda>r. (vr_ProjectID r, vr_UID r)) (update_where (same_vuln v) (merge_vuln now v) vulns)
      = map (\<lambda>r. (vr_ProjectID r, vr_UID r)) vulns"
    by (rule map_update_where) (simp add: merge_vuln_def)
  with assms Some show ?thesis by (simp add: Upsert_def vulns_ok_def split: option.split)
qed

lemma find_update_same:
  "find (same_vuln w) (update_where (same_vuln v) (merge_vuln now v) vulns) =
    map_option (\<lambda>r. if same_vuln v r then merge_vuln now v r else r) (find (same_vuln w) vulns)"
  by (induction vulns) simp_all

lemma find_append: "find P (xs @ ys) = (case find P xs of Some x \<Rightarrow> Some x | None \<Rightarrow> find P ys)"
  by (induction xs) simp_all

lemma half_bounds: "0 \<le> x \<Longrightarrow> x < y \<Longrightarrow> 1/2 \<le> 1/2 + 1/2 * x / y \<and> 1/2 + 1/2 * x / y < (1 :: rat)"
  by (simp add: field_simps)

lemma vuln_score_bounds:
  assumes "n > 0"
  shows "1/2 \<le> vuln_score n \<and> vuln_score n < 1"
proof -
  have "(1/2 :: rat) \<le> 1/2 + 1/2 * of_nat (n - 1) / of_nat n \<and> 1/2 + 1/2 * of_nat (n - 1) / of_nat n < (1 :: rat)"
    by (rule half_bounds) (use assms in \<open>simp_all del: of_nat_diff\<close>)
  then show ?thesis unfolding vuln_score_def Let_def by (simp del: of_nat_diff)
qed

lemma colon_split:
  "CHR '':'' \<notin> set a \<Longrightarrow> CHR '':'' \<notin> set b \<Longrightarrow> a @ CHR '':'' # x = b @ CHR '':'' # y \<longleftrightarrow> a = b \<and> x = y"
proof (induction a arbitrary: b)
  case Nil
  then show ?case by (cases b) auto
next
  case (Cons c a)
  then show ?case by (cases b) auto
qed

lemma located_uid_inj:
  assumes "CHR '':'' \<notin> set r1" "CHR '':'' \<notin> set r2"
  shows "located_uid e r1 p1 = located_uid e r2 p2 \<and> located_uid e r1 p1 \<noteq> None \<longleftrightarrow> r1 \<noteq> [] \<and> r1 = r2 \<and> p1 = p2"
proof -
  have "r1 \<noteq> r2 @ CHR '':'' # p" "r2 \<noteq> r1 @ CHR '':'' # p" for p using assms by auto
  with colon_split [OF assms] show ?thesis
    by (auto simp: located_uid_def)
qed

section \<open>Properties\<close>

text \<open>C23: An upsert keeps at most one vulnerability per project and identity.  A first sighting is
  appended as an open row with count one; a repeated one changes only that row, by one more
  finding, the scanner added to its coverage and the textually smaller severity; every
  other identity keeps its row.\<close>

theorem Upsert_effect:
  assumes "vulns_ok vulns" "vi_ProjectID v \<noteq> []" "refuse v = None"
    and "Upsert refuse i now v vulns = (res, vulns')"
  shows "vulns_ok vulns' \<and>
    (\<exists>r'. res = Inr r' \<and> find (same_vuln v) vulns' = Some r' \<and>
      (case find (same_vuln v) vulns of
         None \<Rightarrow> vr_FindingCount r' = 1 \<and> vr_Status r' = ''open'' \<and> vr_Severity r' = vi_Severity v
       | Some r \<Rightarrow> vr_FindingCount r' = vr_FindingCount r + 1 \<and> vr_Status r' = vr_Status r \<and> vr_ID r' = vr_ID r \<and>
           vr_Severity r' = min (vi_Severity v) (vr_Severity r) \<and>
           set (vr_Coverage r') = insert (vi_ScannerName v) (set (vr_Coverage r)))) \<and>
    (\<forall>w. (vi_ProjectID w, vi_UID w) \<noteq> (vi_ProjectID v, vi_UID v) \<longrightarrow> find (same_vuln w) vulns' = find (same_vuln w) vulns)"
proof (intro conjI)
  show "vulns_ok vulns'" using vulns_ok_Upsert [OF assms(1), of refuse i now v] assms(4) by simp
next
  show "\<exists>r'. res = Inr r' \<and> find (same_vuln v) vulns' = Some r' \<and>
      (case find (same_vuln v) vulns of
         None \<Rightarrow> vr_FindingCount r' = 1 \<and> vr_Status r' = ''open'' \<and> vr_Severity r' = vi_Severity v
       | Some r \<Rightarrow> vr_FindingCount r' = vr_FindingCount r + 1 \<and> vr_Status r' = vr_Status r \<and> vr_ID r' = vr_ID r \<and>
           vr_Severity r' = min (vi_Severity v) (vr_Severity r) \<and>
           set (vr_Coverage r') = insert (vi_ScannerName v) (set (vr_Coverage r)))"
  proof (cases "find (same_vuln v) vulns")
    case None
    with assms(2-4) show ?thesis by (auto simp: Upsert_def find_append new_vuln_def same_vuln_def)
  next
    case (Some r)
    then have "same_vuln v r" by (auto simp: find_Some_iff)
    with assms(2-4) Some show ?thesis
      by (auto simp: Upsert_def find_update_same merge_vuln_def min_def)
  qed
next
  show "\<forall>w. (vi_ProjectID w, vi_UID w) \<noteq> (vi_ProjectID v, vi_UID v) \<longrightarrow> find (same_vuln w) vulns' = find (same_vuln w) vulns"
  proof (intro allI impI)
    fix w :: vuln_upsert
    assume d: "(vi_ProjectID w, vi_UID w) \<noteq> (vi_ProjectID v, vi_UID v)"
    show "find (same_vuln w) vulns' = find (same_vuln w) vulns"
    proof (cases "find (same_vuln v) vulns")
      case None
      with assms(2-4) d show ?thesis by (auto simp: Upsert_def find_append split: option.split)
    next
      case (Some r)
      have "\<not> same_vuln v q" if "find (same_vuln w) vulns = Some q" for q
        using that d by (auto simp: find_Some_iff same_vuln_def)
      with assms(2-4) Some show ?thesis
        by (cases "find (same_vuln w) vulns") (auto simp: Upsert_def find_update_same)
    qed
  qed
qed

theorem Upsert_effect_witness:
  "map (\<lambda>r. (vr_FindingCount r, vr_Severity r)) (snd (Upsert (\<lambda>_. None) ''v2'' 5 (sample_upsert ''critical'')
     [new_vuln ''v1'' 0 (sample_upsert ''high'')])) = [(2, ''critical'')]"
proof -
  let ?t = "[new_vuln ''v1'' 0 (sample_upsert ''high'')]"
  obtain res vulns' where u: "Upsert (\<lambda>_. None) ''v2'' 5 (sample_upsert ''critical'') ?t = (res, vulns')" by fastforce
  have "vulns_ok ?t" by (simp add: vulns_ok_def)
  moreover have "vi_ProjectID (sample_upsert ''critical'') \<noteq> []" by (simp add: sample_upsert_def)
  ultimately obtain r' where "find (same_vuln (sample_upsert ''critical'')) vulns' = Some r'"
    "vr_FindingCount r' = 2" "vr_Severity r' = ''critical''"
    using Upsert_effect [OF _ _ _ u] by (auto simp: sample_upsert_def new_vuln_def same_vuln_def)
  moreover have "length vulns' = 1"
    using u by (auto simp: Upsert_def sample_upsert_def new_vuln_def same_vuln_def)
  ultimately show ?thesis unfolding u by (cases vulns') (auto split: if_splits)
qed

text \<open>The severity a vulnerability ends with after two sightings is the more severe of the two
  except for the pairs of medium with low or info and of low with info, in either order,
  which the textual comparison of the column turns into the less severe one.\<close>

theorem Upsert_severity_order:
  "filter (\<lambda>(a, b). map (\<lambda>r. severity_rank (vr_Severity r)) (upserts (\<lambda>_. ''v'') 0 [sample_upsert a, sample_upsert b] [])
       \<noteq> [max (severity_rank a) (severity_rank b)]) (List.product severities severities) =
   [(''medium'', ''low''), (''medium'', ''info''), (''low'', ''medium''), (''low'', ''info''),
    (''info'', ''medium''), (''info'', ''low'')]"
  by code_simp

text \<open>Two code findings are one vulnerability exactly when they have the same rule and the same
  normalised path, whatever their package, version, CVE and secret, if SHA-256 does not
  collide and rule names have no colon.\<close>

theorem ComputeVulnUID_identity:
  assumes "inj hash" "[] \<notin> range hash" "CHR '':'' \<notin> set r1" "CHR '':'' \<notin> set r2" "cat \<in> {CategorySAST, CategoryIaC}"
  shows "ComputeVulnUID hash cat r1 n1 v1 c1 s1 p1 = ComputeVulnUID hash cat r2 n2 v2 c2 s2 p2 \<and>
      ComputeVulnUID hash cat r1 n1 v1 c1 s1 p1 \<noteq> [] \<longleftrightarrow>
    r1 \<noteq> [] \<and> r1 = r2 \<and> NormalizePath p1 = NormalizePath p2"
proof -
  obtain e where e: "uid_text cat r n c s p = located_uid e r (NormalizePath p)" for r n c s p
  proof (cases "cat = CategorySAST")
    case True
    then show thesis by (intro that [of "''sast''"]) (simp add: uid_text_def Let_def)
  next
    case False
    with assms(5) show thesis by (intro that [of "''iac''"]) (simp add: uid_text_def Let_def)
  qed
  have h: "hash t \<noteq> []" for t using assms(2) by (metis rangeI)
  note key = located_uid_inj [OF assms(3,4), of e "NormalizePath p1" "NormalizePath p2"]
  show ?thesis
  proof (cases "located_uid e r1 (NormalizePath p1)")
    case None
    with key show ?thesis by (simp add: ComputeVulnUID_def e)
  next
    case (Some t1)
    with key h show ?thesis
      by (cases "located_uid e r2 (NormalizePath p2)") (simp_all add: ComputeVulnUID_def e inj_eq [OF assms(1)])
  qed
qed

theorem ComputeVulnUID_identity_witness:
  "ComputeVulnUID (\<lambda>t. CHR ''h'' # t) CategorySAST ''go.lang.xss'' ''a'' ''1'' [] [] ''/src/a.go'' =
   ComputeVulnUID (\<lambda>t. CHR ''h'' # t) CategorySAST ''go.lang.xss'' ''b'' ''2'' [] [] ''a.go''"
proof -
  have "NormalizePath ''/src/a.go'' = NormalizePath ''a.go''" by code_simp
  moreover have "inj (\<lambda>t. CHR ''h'' # t)" "[] \<notin> range (\<lambda>t. CHR ''h'' # t)" by (auto simp: inj_on_def)
  ultimately show ?thesis
    using ComputeVulnUID_identity [of "\<lambda>t. CHR ''h'' # t" "''go.lang.xss''" "''go.lang.xss''" CategorySAST
        "''a''" "''1''" "[]" "[]" "''/src/a.go''" "''b''" "''2''" "[]" "[]" "''a.go''"]
    by simp
qed



text \<open>If the oldest full batch of unlinked findings holds none with an identity the backfill
  stops there: no finding is linked, however many newer ones could be.\<close>

theorem backfill_starves:
  assumes "length (backfill_query 500 scans rows) = 500"
    and "list_all (\<lambda>f. has_project scans f \<and> backfill_upsert env scans f = None) (backfill_query 500 scans rows)"
  shows "BackfillVulnerabilities env scans rows vulns = ((0, None), rows, vulns)"
proof -
  have skip: "backfill_batch env scans batch (rows, vulns, touched, k) = (rows, vulns, touched, k)"
    if "list_all (\<lambda>f. has_project scans f \<and> backfill_upsert env scans f = None) batch" for batch touched k
    using that by (induction batch) simp_all
  have "\<not> list_ex (\<lambda>f. scan_project scans f = None) (backfill_query 500 scans rows)"
    using assms(2) unfolding list_ex_iff list_all_iff has_project_def by (metis option.distinct(1))
  moreover have "backfill_query 500 scans rows \<noteq> []" using assms(1) by auto
  ultimately have "backfill_loop env scans 500 rows vulns [] 0 = (None, rows, vulns, [], 0)"
    using assms(1) skip [OF assms(2)] by (subst backfill_loop.simps) (simp add: Let_def)
  then show ?thesis by (simp add: BackfillVulnerabilities_def)
qed

theorem backfill_starves_witness:
  "\<exists>env scans rows. fst (BackfillVulnerabilities env scans rows []) = (0, None) \<and>
     (\<exists>f \<in> set rows. unlinked scans f \<and> backfill_upsert env scans f \<noteq> None)"
proof -
  let ?s = "Scan_Insert ''s1'' ''t'' ''grype'' ''b'' (Some ''p1'') []"
  let ?old = "(new_finding ''f0'' 0 sample_insert)\<lparr>fd_Scanner := ''semgrep'', fd_RuleID := []\<rparr>"
  let ?new = "new_finding ''f1'' 1 sample_insert"
  let ?rows = "replicate 500 ?old @ [?new]"
  have u: "unlinked ?s ?old" "unlinked ?s ?new"
    by (simp_all add: unlinked_def Scan_Get_def Scan_Insert_def sample_insert_def new_finding_def)
  have "filter (unlinked ?s) ?rows = ?rows" using u by (simp add: filter_replicate)
  moreover have "sort_key fd_CreatedAt ?rows = ?rows"
    by (rule sort_key_id_if_sorted) (simp add: sorted_append new_finding_def)
  ultimately have q: "backfill_query 500 ?s ?rows = replicate 500 ?old" by (simp add: backfill_query_def)
  have skip: "has_project ?s ?old \<and> backfill_upsert sample_vuln_env ?s ?old = None"
  proof
    show "has_project ?s ?old"
      by (simp add: has_project_def scan_project_def Scan_Get_def Scan_Insert_def sample_insert_def new_finding_def)
    show "backfill_upsert sample_vuln_env ?s ?old = None" by code_simp
  qed
  have "length (backfill_query 500 ?s ?rows) = 500" unfolding q by simp
  moreover have "list_all (\<lambda>f. has_project ?s f \<and> backfill_upsert sample_vuln_env ?s f = None) (backfill_query 500 ?s ?rows)"
    unfolding q using skip by (simp add: list_all_iff)
  ultimately have "BackfillVulnerabilities sample_vuln_env ?s ?rows [] = ((0, None), ?rows, [])"
    by (rule backfill_starves)
  moreover have "backfill_upsert sample_vuln_env ?s ?new \<noteq> None" by code_simp
  ultimately show ?thesis using u(2)
    by (intro exI [of _ sample_vuln_env] exI [of _ ?s] exI [of _ ?rows]) auto
qed

end
