(* ===== verification/Scan_Clone.thy ===== *)
theory Scan_Clone
  imports Scanner_Registry
begin

text \<open>
  Fetching the repository of a scan (\<^verbatim>\<open>src/internal/validation/git.go\<close>, the clone helpers of
  \<^verbatim>\<open>src/internal/tasks/scan_run.go\<close> and of \<^verbatim>\<open>snippet_enrich.go\<close>).  Git, URL and address
  parsing and the token store are fields of an environment; the file system is the set of
  directories that exist, which a clone extends and \<^verbatim>\<open>os.RemoveAll\<close> shrinks.
\<close>

section \<open>Scan targets\<close>

definition DefaultAllowedGitHosts :: "string list" where
  "DefaultAllowedGitHosts = [''github.com'', ''gitlab.com'', ''bitbucket.org'']"

record ip_class =
  ip_Loopback :: bool
  ip_Private :: bool
  ip_LinkLocal :: bool
  ip_Unspecified :: bool

text \<open>\<open>url.Parse\<close> gives the scheme, the host with its port, and the host name.\<close>

record clone_io =
  ci_parse_url :: "string \<Rightarrow> (string \<times> string \<times> string) option"
  ci_parse_ip :: "string \<Rightarrow> ip_class option"
  ci_token :: "string \<Rightarrow> string + string"
  ci_git_path :: "string option"
  ci_git :: "string list \<Rightarrow> string \<times> string option"
  ci_tmp :: string
  ci_elapsed :: string

definition ValidateGitTarget :: "clone_io \<Rightarrow> string \<Rightarrow> string option" where
  "ValidateGitTarget io raw =
     (if raw = [] then Some ''target is required''
      else (case ci_parse_url io raw of
          None \<Rightarrow> Some ''invalid target URL''
        | Some (scheme, hostport, hostname) \<Rightarrow>
            if scheme = [] \<or> hostport = [] then Some ''invalid target URL''
            else if scheme \<noteq> ''https'' then Some ''target must use https scheme''
            else (let host = to_lower hostname in
              if host = [] then Some ''invalid target URL: no host''
              else if host \<in> set DefaultAllowedGitHosts then None
              else if host = ''localhost'' \<or> has_suffix host ''.localhost'' then Some ''target must not be localhost''
              else (case ci_parse_ip io host of
                  Some ip \<Rightarrow>
                    if ip_Loopback ip \<or> ip_Private ip \<or> ip_LinkLocal ip \<or> ip_Unspecified ip
                    then Some ''target must be a public address''
                    else Some ''target host IP is not in the allowed git providers list''
                | None \<Rightarrow> Some (''target host '' @ [CHR 0x27] @ host @ [CHR 0x27] @
                    '' is not in the allowed git providers list (github.com, gitlab.com, bitbucket.org)'')))))"

section \<open>Cloning\<close>

definition branchStr :: "string \<Rightarrow> string" where
  "branchStr b = (if b \<noteq> [] then ''--branch '' @ b else [])"

definition buildSimpleLog :: "string \<Rightarrow> string \<Rightarrow> string \<Rightarrow> string option \<Rightarrow> string \<Rightarrow> string" where
  "buildSimpleLog cmdStr stdout stderr err elapsed =
     ''$ '' @ cmdStr @ [newline] @ ''# elapsed: '' @ elapsed @ [newline] @
     (case err of Some e \<Rightarrow> ''# exit: '' @ e @ [newline] | None \<Rightarrow> ''# exit: 0'' @ [newline]) @
     log_stream ''STDOUT'' stdout @ log_stream ''STDERR'' stderr"

text \<open>The outcome of a clone; \<open>ClonePanic\<close> is a run-time panic.\<close>

datatype clone_result =
    Cloned string string
  | CloneFailed string string
  | ClonePanic string

definition clone_auth_url :: "string \<Rightarrow> string \<Rightarrow> string" where
  "clone_auth_url token cloneURL =
     (if token \<noteq> []
      then ''https://'' @ token @ ''@'' @ trim_prefix (trim_prefix cloneURL ''https://'') ''http://''
      else cloneURL)"

definition git_error :: "string \<Rightarrow> string \<Rightarrow> string \<Rightarrow> string" where
  "git_error what e out = what @ '': '' @ e @ [newline] @ out"

definition cloneWithPullRef ::
  "clone_io \<Rightarrow> string \<Rightarrow> string \<Rightarrow> string \<Rightarrow> string \<Rightarrow> string set \<Rightarrow> clone_result \<times> string set" where
  "cloneWithPullRef io cloneURL branch token dir fs =
     (case ci_git_path io of
        None \<Rightarrow> (CloneFailed ''git binary not found'' [], fs)
      | Some _ \<Rightarrow>
        (case ci_git io [''clone'', ''--depth=50'', clone_auth_url token cloneURL, dir] of
          (out, Some e) \<Rightarrow> (CloneFailed (git_error ''git clone'' e out)
             (buildSimpleLog (''git clone --depth=50 '' @ cloneURL) out [] (Some e) (ci_elapsed io)), fs - {dir})
        | (out, None) \<Rightarrow>
          (case ci_git io [''-C'', dir, ''fetch'', ''origin'', branch @ '':hkp-pr-ref'', ''--depth=1''] of
            (fetchOut, Some e) \<Rightarrow> (CloneFailed (git_error (''git fetch '' @ branch) e fetchOut)
               (buildSimpleLog (''git fetch origin '' @ branch) fetchOut [] (Some e) (ci_elapsed io)), fs - {dir})
          | (fetchOut, None) \<Rightarrow>
            (case ci_git io [''-C'', dir, ''checkout'', ''hkp-pr-ref''] of
              (checkoutOut, Some e) \<Rightarrow> (CloneFailed (git_error ''git checkout hkp-pr-ref'' e checkoutOut)
                 (buildSimpleLog ''git checkout hkp-pr-ref'' checkoutOut [] (Some e) (ci_elapsed io)), fs - {dir})
            | (checkoutOut, None) \<Rightarrow>
                (Cloned dir (buildSimpleLog (''git clone + fetch '' @ branch) [] [] None (ci_elapsed io)), insert dir fs)))))"

text \<open>The token, empty when there is none or it cannot be read.\<close>

definition project_token :: "clone_io \<Rightarrow> string \<Rightarrow> string" where
  "project_token io projectID =
     (if projectID = [] then [] else (case ci_token io projectID of Inl _ \<Rightarrow> [] | Inr t \<Rightarrow> t))"

definition split_ref :: "string \<Rightarrow> string \<times> string" where
  "split_ref url = (case index_of url ''#'' of
      None \<Rightarrow> (url, [])
    | Some i \<Rightarrow> (take i url, drop (i + 1) url))"

definition cloneRepo ::
  "clone_io \<Rightarrow> string \<Rightarrow> string \<Rightarrow> string \<Rightarrow> string set \<Rightarrow> clone_result \<times> string set" where
  "cloneRepo io projectID url scanID fs =
     (case ValidateGitTarget io url of
        Some e \<Rightarrow> (CloneFailed (''target validation failed: '' @ e) [], fs)
      | None \<Rightarrow>
        (let dir = ci_tmp io @ ''/aspm-scan-'' @ scanID;
             fs1 = fs - {dir};
             token = project_token io projectID;
             (cloneURL, branch) = split_ref url
         in if has_prefix branch ''refs/pull/'' then cloneWithPullRef io cloneURL branch token dir fs1
            else (let authURL = clone_auth_url token cloneURL in
              if token \<noteq> [] \<and> length authURL < 30 then (ClonePanic ''slice bounds out of range'', fs1)
              else (case ci_git_path io of
                  None \<Rightarrow> (CloneFailed ''git binary not found'' [], fs1)
                | Some _ \<Rightarrow>
                  (case ci_git io ([''clone'', ''--depth=50''] @ (if branch \<noteq> [] then [''--branch'', branch] else []) @ [authURL, dir]) of
                    (out, e) \<Rightarrow>
                      (let execLog = buildSimpleLog (''git clone --depth=50 '' @ branchStr branch @ '' '' @ cloneURL) out [] e (ci_elapsed io)
                       in case e of
                            Some e' \<Rightarrow> (CloneFailed (git_error ''git clone'' e' out) execLog, fs1 - {dir})
                          | None \<Rightarrow> (Cloned dir execLog, insert dir fs1)))))))"

definition cloneRepoForSnippet ::
  "clone_io \<Rightarrow> string option \<Rightarrow> string \<Rightarrow> string \<Rightarrow> string set \<Rightarrow> (string + string) \<times> string set" where
  "cloneRepoForSnippet io projectID url scanID fs =
     (case ValidateGitTarget io url of
        Some e \<Rightarrow> (Inl (''target validation failed: '' @ e), fs)
      | None \<Rightarrow>
        (let dir = ci_tmp io @ ''/aspm-snippet-'' @ scanID;
             fs1 = fs - {dir};
             token = (case projectID of None \<Rightarrow> [] | Some p \<Rightarrow> project_token io p);
             (cloneURL, branch) = split_ref url
         in case ci_git_path io of
              None \<Rightarrow> (Inl ''git binary not found'', fs1)
            | Some _ \<Rightarrow>
              (case ci_git io ([''clone'', ''--depth=1''] @ (if branch \<noteq> [] then [''--branch'', branch] else []) @
                  [clone_auth_url token cloneURL, dir]) of
                (out, Some e) \<Rightarrow> (Inl (git_error ''git clone --depth=1'' e out), fs1 - {dir})
              | (out, None) \<Rightarrow> (Inr dir, insert dir fs1))))"

section \<open>Specifications\<close>

text \<open>The host that a token reaches: what follows the credentials in the address.\<close>

definition allowed_target :: "clone_io \<Rightarrow> string \<Rightarrow> bool" where
  "allowed_target io url \<longleftrightarrow> (\<exists>hostport hostname. ci_parse_url io url = Some (''https'', hostport, hostname) \<and>
     hostport \<noteq> [] \<and> to_lower hostname \<in> {''github.com'', ''gitlab.com'', ''bitbucket.org''})"

definition sample_clone_io :: clone_io where
  "sample_clone_io = \<lparr>ci_parse_url = (\<lambda>u. if has_prefix u ''https://github.com/'' then Some (''https'', ''github.com'', ''GitHub.com'') else None),
     ci_parse_ip = (\<lambda>_. None), ci_token = (\<lambda>_. Inl ''no token''), ci_git_path = Some ''/usr/bin/git'',
     ci_git = (\<lambda>_. ([], None)), ci_tmp = ''/tmp'', ci_elapsed = ''1s''\<rparr>"

section \<open>Lemmas\<close>

lemma ValidateGitTarget_iff: "ValidateGitTarget io url = None \<longleftrightarrow> url \<noteq> [] \<and> allowed_target io url"
proof (cases "ci_parse_url io url")
  case None
  then show ?thesis by (simp add: ValidateGitTarget_def allowed_target_def)
next
  case (Some t)
  then obtain scheme hostport hostname where "ci_parse_url io url = Some (scheme, hostport, hostname)" by (cases t) auto
  then have "ValidateGitTarget io url = None \<longleftrightarrow> url \<noteq> [] \<and> scheme \<noteq> [] \<and> hostport \<noteq> [] \<and> scheme = ''https'' \<and>
      to_lower hostname \<noteq> [] \<and> to_lower hostname \<in> set DefaultAllowedGitHosts"
    by (simp add: ValidateGitTarget_def Let_def del: to_lower_Nil_iff split: option.split)
  moreover have "to_lower hostname \<noteq> []" if "to_lower hostname \<in> set DefaultAllowedGitHosts"
    using that unfolding DefaultAllowedGitHosts_def list.set insert_iff by (elim disjE) (simp_all del: to_lower_Nil_iff)
  moreover have "allowed_target io url \<longleftrightarrow> scheme = ''https'' \<and> hostport \<noteq> [] \<and> to_lower hostname \<in> set DefaultAllowedGitHosts"
    unfolding allowed_target_def \<open>ci_parse_url io url = Some (scheme, hostport, hostname)\<close> DefaultAllowedGitHosts_def list.set by blast
  ultimately show ?thesis by (metis list.distinct(1))
qed

definition clone_dir :: "clone_io \<Rightarrow> string \<Rightarrow> string" where
  "clone_dir io scanID = ci_tmp io @ ''/aspm-scan-'' @ scanID"

lemma cloneWithPullRef_fs:
  "dir \<notin> fs \<Longrightarrow> cloneWithPullRef io url branch token dir fs = (r, fs') \<Longrightarrow>
    (case r of Cloned d l \<Rightarrow> d = dir \<and> fs' = insert dir fs | CloneFailed e l \<Rightarrow> fs' = fs | ClonePanic e \<Rightarrow> False)"
  by (auto simp: cloneWithPullRef_def split: option.splits prod.splits)

lemma cloneRepo_fs:
  assumes "clone_dir io scanID \<notin> fs" "cloneRepo io projectID url scanID fs = (r, fs')"
  shows "(case r of Cloned d l \<Rightarrow> d = clone_dir io scanID \<and> fs' = insert d fs \<and> allowed_target io url
    | CloneFailed e l \<Rightarrow> fs' = fs | ClonePanic e \<Rightarrow> fs' = fs)"
proof (cases "ValidateGitTarget io url")
  case None
  then have ok: "allowed_target io url" by (simp add: ValidateGitTarget_iff)
  have fs: "fs - {ci_tmp io @ ''/aspm-scan-'' @ scanID} = fs" using assms(1) by (auto simp: clone_dir_def)
  obtain u b where ub: "split_ref url = (u, b)" by fastforce
  show ?thesis
  proof (cases "has_prefix b ''refs/pull/''")
    case True
    then have "cloneWithPullRef io u b (project_token io projectID) (clone_dir io scanID) fs = (r, fs')"
      using assms(2) None ub fs by (simp add: cloneRepo_def Let_def clone_dir_def)
    from cloneWithPullRef_fs [OF assms(1) this] ok show ?thesis by (cases r) simp_all
  next
    case False
    note c = cloneRepo_def [of io projectID url scanID fs, unfolded None option.case Let_def fs ub prod.case if_not_P [OF False]]
    let ?auth = "clone_auth_url (project_token io projectID) u"
    show ?thesis
    proof (cases "(project_token io projectID \<noteq> [] \<and> length ?auth < 30) \<or> ci_git_path io = None")
      case True
      then show ?thesis using assms(2) unfolding c by (auto split: if_splits option.splits)
    next
      case run: False
      obtain out e where "ci_git io ([''clone'', ''--depth=50''] @ (if b \<noteq> [] then [''--branch'', b] else []) @
          [?auth, ci_tmp io @ ''/aspm-scan-'' @ scanID]) = (out, e)" by fastforce
      then show ?thesis
        using run assms ok unfolding c by (cases e) (auto simp: clone_dir_def split: option.splits)
    qed
  qed
next
  case (Some e)
  with assms show ?thesis by (auto simp: cloneRepo_def)
qed

section \<open>Properties\<close>



end
