(* ===== verification/Scan_Pipeline.thy ===== *)
theory Scan_Pipeline
  imports Scanner_Parsers Task_Queue Correlation Policy_Engine Vuln_Store Scan_Clone
begin

text \<open>
  The scan task and its notifications (\<^verbatim>\<open>src/internal/tasks/scan_run.go\<close>): a run clones the
  target, executes the scanner, stores what its parser finds, correlates, links and applies
  policies finding by finding, and notifies.  The tables, the queue and the file system are
  one state; everything else the handler calls is an environment.
\<close>

section \<open>Small functions\<close>

definition fingerprint_text :: "string \<Rightarrow> string \<Rightarrow> string \<Rightarrow> int \<Rightarrow> string" where
  "fingerprint_text scanner ruleID filePath lineStart =
     scanner @ '':'' @ ruleID @ '':'' @ filePath @ '':'' @ itoa lineStart"

definition computeFingerprint :: "(string \<Rightarrow> string) \<Rightarrow> string \<Rightarrow> string \<Rightarrow> string \<Rightarrow> int \<Rightarrow> string" where
  "computeFingerprint hash scanner ruleID filePath lineStart = hash (fingerprint_text scanner ruleID filePath lineStart)"

definition validSeverities :: "string list" where
  "validSeverities = [''critical'', ''high'', ''medium'', ''low'', ''info'']"

definition normalizeSeverity :: "string \<Rightarrow> string" where
  "normalizeSeverity s = (if s \<in> set validSeverities then s else ''info'')"

definition slaDeadlineFor :: "string \<Rightarrow> int \<Rightarrow> int option" where
  "slaDeadlineFor severity now =
     (if severity = ''critical'' then Some (now + 24 * 3600)
      else if severity = ''high'' then Some (now + 72 * 3600)
      else if severity = ''medium'' then Some (now + 30 * 24 * 3600)
      else if severity = ''low'' then Some (now + 90 * 24 * 3600)
      else None)"

definition formatLocation :: "string \<Rightarrow> int \<Rightarrow> string" where
  "formatLocation path line =
     (let p = trim_space path in
      if p = [] then ''n/a'' else if line > 0 then p @ '':'' @ itoa line else p)"

definition scanEmailSubject :: "string \<Rightarrow> string" where
  "scanEmailSubject eventType = (if eventType = ''scan.failed'' then ''HenKaiPan scan failed'' else ''HenKaiPan scan completed'')"

definition derefErr :: "string option \<Rightarrow> string" where
  "derefErr err = (case err of None \<Rightarrow> [] | Some e \<Rightarrow> e)"

section \<open>Events\<close>

record finding_event =
  fe_FindingID :: string
  fe_Repository :: string
  fe_Severity :: string
  fe_Title :: string
  fe_RuleID :: string
  fe_FilePath :: string
  fe_Line :: int
  fe_Scanner :: string
  fe_Description :: string
  fe_CreatedAt :: int
  fe_AISummary :: string

record scan_event =
  sv_ScanID :: string
  sv_Target :: string
  sv_Scanner :: string
  sv_Status :: string
  sv_FindingCount :: nat
  sv_Error :: string
  sv_CompletedAt :: int

record breach_event =
  be_Breach :: sla_breach
  be_AISummary :: string

datatype event_payload = FindingEvent finding_event | ScanEvent scan_event | BreachEvent breach_event

record notification_settings =
  ns_AlertCritical :: bool
  ns_AlertHigh :: bool
  ns_AlertScanComplete :: bool
  ns_AlertScanFailed :: bool
  ns_AlertSLABreach :: bool
  ns_EmailRecipients :: "string list"

definition summary_lines :: "string \<Rightarrow> string list" where
  "summary_lines summary = (if trim_space summary \<noteq> [] then [[], ''AI Summary:'', summary] else [])"

definition buildFindingEmailBody :: "string \<Rightarrow> finding_event \<Rightarrow> string" where
  "buildFindingEmailBody eventType p = join [newline]
     ([''HenKaiPan finding notification'', [], ''Event: '' @ eventType, ''Finding ID: '' @ fe_FindingID p,
       ''Repository: '' @ fe_Repository p, ''Severity: '' @ to_upper (fe_Severity p), ''Scanner: '' @ fe_Scanner p,
       ''Rule ID: '' @ fe_RuleID p, ''Location: '' @ formatLocation (fe_FilePath p) (fe_Line p),
       ''Title: '' @ fe_Title p] @ summary_lines (fe_AISummary p))"

definition buildScanEmailBody :: "string \<Rightarrow> scan_event \<Rightarrow> string" where
  "buildScanEmailBody eventType p = join [newline]
     ([''HenKaiPan scan notification'', [], ''Event: '' @ eventType, ''Scan ID: '' @ sv_ScanID p,
       ''Target: '' @ sv_Target p, ''Scanner: '' @ sv_Scanner p, ''Status: '' @ to_upper (sv_Status p),
       ''Findings: '' @ nat_str (sv_FindingCount p)] @
      (if trim_space (sv_Error p) \<noteq> [] then [''Error: '' @ sv_Error p] else []))"

definition buildSLABreachEmailBody :: "(int \<Rightarrow> string) \<Rightarrow> breach_event \<Rightarrow> string" where
  "buildSLABreachEmailBody rfc3339 e = (let p = be_Breach e in join [newline]
     ([''HenKaiPan SLA breach notification'', [], ''Finding ID: '' @ sb_FindingID p, ''Scan ID: '' @ sb_ScanID p,
       ''Repository: '' @ sb_Repository p, ''Severity: '' @ to_upper (sb_Severity p), ''Scanner: '' @ sb_Scanner p,
       ''Rule ID: '' @ sb_RuleID p, ''Location: '' @ formatLocation (sb_FilePath p) (sb_Line p),
       ''SLA deadline: '' @ rfc3339 (sb_SLADeadline p), ''Title: '' @ sb_Title p] @ summary_lines (be_AISummary e)))"

section \<open>State and environment\<close>

record pipeline_state =
  ps_scans :: "scan_row list"
  ps_findings :: "finding list"
  ps_corr :: "correlation_row list"
  ps_vulns :: "vuln_row list"
  ps_queue :: "queued list"
  ps_fs :: "string set"

text \<open>The refusals of the database are given as the error they produce; the best-effort
  statements (correlation, policies) are taken to succeed, their failure is only logged.\<close>

record pipeline_env =
  en_now :: int
  en_os :: os_env
  en_codec :: codec
  en_clone :: clone_io
  en_vuln :: vuln_env
  en_new_id :: "finding list \<Rightarrow> string"
  en_running_error :: "string option"
  en_completed_error :: "string option"
  en_insert_error :: "finding_insert \<Rightarrow> string option"
  en_policies :: "policy list"
  en_suppressions :: "string + suppression list"
  en_webhooks :: "string + webhook list"
  en_settings :: "string + notification_settings"
  en_email :: email_config
  en_accept :: "queued \<Rightarrow> bool"
  en_marshal :: "string \<Rightarrow> event_payload \<Rightarrow> string + string"
  en_ai_summary :: "event_payload \<Rightarrow> string"
  en_rfc3339 :: "int \<Rightarrow> string"

section \<open>Notifications\<close>

definition accepts_event :: "string \<Rightarrow> webhook \<Rightarrow> bool" where
  "accepts_event eventType w \<longleftrightarrow> list_ex (\<lambda>e. e = eventType \<or>
     (e = ''finding.created'' \<and> (eventType = ''finding.critical'' \<or> eventType = ''finding.high''))) (wh_Events w)"

text \<open>The number of deliveries enqueued, and the queue.\<close>

fun webhook_loop :: "(queued \<Rightarrow> bool) \<Rightarrow> string \<Rightarrow> string \<Rightarrow> webhook list \<Rightarrow> nat \<Rightarrow> queued list \<Rightarrow> nat \<times> queued list" where
  "webhook_loop accept eventType bytes [] n q = (n, q)"
| "webhook_loop accept eventType bytes (w # ws) n q =
     (if \<not> accepts_event eventType w then webhook_loop accept eventType bytes ws n q
      else (let x = \<lparr>q_task = WebhookSend (wh_ID w) eventType bytes, q_retry = 5, q_timeout = 30\<rparr> in
        if accept x then webhook_loop accept eventType bytes ws (n + 1) (q @ [x])
        else webhook_loop accept eventType bytes ws n q))"

definition enqueueWebhookEvent :: "pipeline_env \<Rightarrow> string \<Rightarrow> event_payload \<Rightarrow> queued list \<Rightarrow> nat \<times> queued list" where
  "enqueueWebhookEvent env eventType payload q =
     (case en_webhooks env of
        Inl _ \<Rightarrow> (0, q)
      | Inr ws \<Rightarrow> (case en_marshal env eventType payload of
          Inl _ \<Rightarrow> (0, q)
        | Inr bytes \<Rightarrow> webhook_loop (en_accept env) eventType bytes ws 0 q))"

definition enqueueEmailEvent :: "pipeline_env \<Rightarrow> string list \<Rightarrow> string \<Rightarrow> string \<Rightarrow> queued list \<Rightarrow> bool \<times> queued list" where
  "enqueueEmailEvent env recipients subject body q =
     (if \<not> ec_Enabled (en_email env) \<or> recipients = [] then (False, q)
      else (let x = \<lparr>q_task = EmailSend subject body recipients, q_retry = 5, q_timeout = 30\<rparr>
        in if en_accept env x then (True, q @ [x]) else (False, q)))"

definition notify_both ::
  "pipeline_env \<Rightarrow> notification_settings \<Rightarrow> string \<Rightarrow> event_payload \<Rightarrow> string \<Rightarrow> string \<Rightarrow> queued list \<Rightarrow> queued list" where
  "notify_both env ns eventType payload subject body q =
     snd (enqueueEmailEvent env (ns_EmailRecipients ns) subject body (snd (enqueueWebhookEvent env eventType payload q)))"

definition enqueueFindingNotification :: "pipeline_env \<Rightarrow> finding_event \<Rightarrow> queued list \<Rightarrow> queued list" where
  "enqueueFindingNotification env event q =
     (case en_settings env of
        Inl _ \<Rightarrow> q
      | Inr ns \<Rightarrow>
          (let p = event\<lparr>fe_AISummary := en_ai_summary env (FindingEvent event)\<rparr> in
           if fe_Severity p = ''critical'' then
             (if ns_AlertCritical ns
              then notify_both env ns ''finding.critical'' (FindingEvent p) ''Critical finding detected''
                (buildFindingEmailBody ''finding.critical'' p) q else q)
           else if fe_Severity p = ''high'' then
             (if ns_AlertHigh ns
              then notify_both env ns ''finding.high'' (FindingEvent p) ''High severity finding detected''
                (buildFindingEmailBody ''finding.high'' p) q else q)
           else q))"

definition finding_count :: "string \<Rightarrow> finding list \<Rightarrow> nat" where
  "finding_count scanID rows = length (filter (\<lambda>f. fd_ScanID f = scanID) rows)"

definition enqueueScanNotification :: "pipeline_env \<Rightarrow> string \<Rightarrow> string \<Rightarrow> string \<Rightarrow> pipeline_state \<Rightarrow> pipeline_state" where
  "enqueueScanNotification env scanID eventType errorMessage st =
     (case en_settings env of
        Inl _ \<Rightarrow> st
      | Inr ns \<Rightarrow>
          if eventType = ''scan.completed'' \<and> \<not> ns_AlertScanComplete ns then st
          else if eventType = ''scan.failed'' \<and> \<not> ns_AlertScanFailed ns then st
          else (case Scan_Get scanID (ps_scans st) of
              None \<Rightarrow> st
            | Some s \<Rightarrow>
                (let p = \<lparr>sv_ScanID = sn_ID s, sv_Target = sn_Target s, sv_Scanner = sn_Scanner s,
                       sv_Status = sn_Status s, sv_FindingCount = finding_count scanID (ps_findings st),
                       sv_Error = errorMessage, sv_CompletedAt = en_now env\<rparr>
                 in st\<lparr>ps_queue := notify_both env ns eventType (ScanEvent p) (scanEmailSubject eventType)
                      (buildScanEmailBody eventType p) (ps_queue st)\<rparr>)))"

definition enqueueSnippetEnrich :: "pipeline_env \<Rightarrow> string \<Rightarrow> queued list \<Rightarrow> queued list" where
  "enqueueSnippetEnrich env scanID q = enqueue (en_accept env) (SnippetEnrich scanID) 3 300 q"

section \<open>One finding\<close>

definition linkVulnerability ::
  "pipeline_env \<Rightarrow> string \<Rightarrow> string \<Rightarrow> scanner \<Rightarrow> finding_row \<Rightarrow> pipeline_state \<Rightarrow> pipeline_state" where
  "linkVulnerability env findingID projectID sc f st =
     (let uid = ComputeVulnUID (ve_hash (en_vuln env)) (sc_Category sc) (RuleID f) (PkgName f) (PkgVersion f)
            (CVEID f) (SecretHash f) (FilePath f);
          engine = EngineTypeFromCategory (sc_Category sc)
      in if uid = [] then st
         else if engine = [] then st
         else (case Upsert (ve_refuse (en_vuln env)) (ve_new_id (en_vuln env) (ps_vulns st)) (en_now env)
               \<lparr>vi_UID = uid, vi_ProjectID = projectID, vi_Title = Title f, vi_Description = Description f,
                vi_Severity = normalizeSeverity (Severity f), vi_EngineType = engine, vi_PkgName = PkgName f,
                vi_PkgVersion = NormalizeVersion (PkgVersion f), vi_CVEID = CVEID f, vi_CWEID = CWEID f,
                vi_RuleID = RuleID f, vi_SecretHash = SecretHash f, vi_FilePath = NormalizePath (FilePath f),
                vi_ScannerName = sc_Name sc\<rparr> (ps_vulns st) of
             (Inl _, vulns) \<Rightarrow> st\<lparr>ps_vulns := vulns\<rparr>
           | (Inr vuln, vulns) \<Rightarrow>
               (let rows = UpdateFindingVulnID findingID (vr_ID vuln) (ps_findings st)
                in st\<lparr>ps_findings := rows,
                     ps_vulns := snd (RecalcConfidence (en_now env) (vr_ID vuln) (ps_scans st) rows vulns)\<rparr>)))"

definition row_suppressed :: "pipeline_env \<Rightarrow> scanner \<Rightarrow> finding_row \<Rightarrow> bool" where
  "row_suppressed env sc f = (case en_suppressions env of
      Inl _ \<Rightarrow> False
    | Inr supps \<Rightarrow> IsSuppressed supps (sc_Name sc) (RuleID f) (FilePath f))"

definition insert_of :: "pipeline_env \<Rightarrow> scanner \<Rightarrow> scan_payload \<Rightarrow> finding_row \<Rightarrow> finding_insert" where
  "insert_of env sc p f =
     (let norm = normalizeSeverity (Severity f) in
      \<lparr>fi_ScanID = spl_ScanID p, fi_Scanner = sc_Name sc, fi_RuleID = RuleID f, fi_Title = Title f,
       fi_Description = Description f, fi_Severity = norm, fi_FilePath = FilePath f, fi_LineStart = LineStart f,
       fi_LineEnd = LineEnd f, fi_CodeSnippet = CodeSnippet f, fi_Raw = Raw f,
       fi_SLADeadline = slaDeadlineFor norm (en_now env),
       fi_CVEID = (if CVEID f \<noteq> [] then Some (CVEID f) else None),
       fi_CWEID = (if CWEID f \<noteq> [] then Some (CWEID f) else None),
       fi_Suppressed = row_suppressed env sc f, fi_SecretHash = SecretHash f, fi_ProjectID = spl_ProjectID p,
       fi_Fingerprint = computeFingerprint (sha256_hex (en_codec env)) (sc_Name sc) (RuleID f) (FilePath f) (LineStart f),
       fi_PkgName = PkgName f, fi_PkgVersion = PkgVersion f\<rparr>)"

definition finding_event_of :: "pipeline_env \<Rightarrow> scanner \<Rightarrow> scan_payload \<Rightarrow> string \<Rightarrow> finding_row \<Rightarrow> finding_event" where
  "finding_event_of env sc p findingID f =
     \<lparr>fe_FindingID = findingID, fe_Repository = spl_Target p, fe_Severity = normalizeSeverity (Severity f),
      fe_Title = Title f, fe_RuleID = RuleID f, fe_FilePath = FilePath f, fe_Line = LineStart f,
      fe_Scanner = sc_Name sc, fe_Description = Description f, fe_CreatedAt = en_now env, fe_AISummary = []\<rparr>"

text \<open>What happens to a finding that was inserted.\<close>

definition after_insert :: "pipeline_env \<Rightarrow> scanner \<Rightarrow> scan_payload \<Rightarrow> string \<Rightarrow> finding_row \<Rightarrow> pipeline_state \<Rightarrow> pipeline_state" where
  "after_insert env sc p findingID f st0 =
     (let st1 = (case RefreshBatchCorrelation (ps_scans st0) findingID (ps_findings st0) (ps_corr st0) of
            (_, rows, corr) \<Rightarrow> st0\<lparr>ps_findings := rows, ps_corr := corr\<rparr>);
          st2 = linkVulnerability env findingID (spl_ProjectID p) sc f st1;
          st3 = (if \<not> row_suppressed env sc f
            then st2\<lparr>ps_findings := applyPolicies (en_policies env) findingID (sc_Name sc)
                   (normalizeSeverity (Severity f)) (RuleID f) (FilePath f) (ps_findings st2)\<rparr>
            else st2)
      in st3\<lparr>ps_queue := enqueueFindingNotification env (finding_event_of env sc p findingID f) (ps_queue st3)\<rparr>)"

definition process_row :: "pipeline_env \<Rightarrow> scanner \<Rightarrow> scan_payload \<Rightarrow> finding_row \<Rightarrow> pipeline_state \<Rightarrow> pipeline_state" where
  "process_row env sc p f st =
     (case Insert (en_insert_error env) (en_new_id env (ps_findings st)) (en_now env) (insert_of env sc p f) (ps_findings st) of
        (Inl _, rows) \<Rightarrow> st\<lparr>ps_findings := rows\<rparr>
      | (Inr findingID, rows) \<Rightarrow>
          (let st1 = st\<lparr>ps_findings := rows\<rparr>
           in if findingID = [] then st1 else after_insert env sc p findingID f st1))"

fun process_rows :: "pipeline_env \<Rightarrow> scanner \<Rightarrow> scan_payload \<Rightarrow> finding_row list \<Rightarrow> pipeline_state \<Rightarrow> pipeline_state" where
  "process_rows env sc p [] st = st"
| "process_rows env sc p (f # fs) st = process_rows env sc p fs (process_row env sc p f st)"

section \<open>The task\<close>

definition no_result :: exec_result where
  "no_result = \<lparr>er_Stdout = [], er_Log = [], er_Err = None\<rparr>"

definition fail_scan :: "pipeline_env \<Rightarrow> string \<Rightarrow> string \<Rightarrow> string \<Rightarrow> pipeline_state \<Rightarrow> pipeline_state" where
  "fail_scan env scanID err logtext st =
     enqueueScanNotification env scanID ''scan.failed'' err
       (st\<lparr>ps_scans := MarkFailed (en_now env) scanID err logtext (ps_scans st)\<rparr>)"

definition complete_scan ::
  "pipeline_env \<Rightarrow> scan_payload \<Rightarrow> exec_result \<Rightarrow> pipeline_state \<Rightarrow> string option \<times> pipeline_state" where
  "complete_scan env p result st =
     (case en_completed_error env of
        Some e \<Rightarrow> (Some (''mark completed: '' @ e), st)
      | None \<Rightarrow>
          (let st1 = st\<lparr>ps_scans := MarkCompleted (en_now env) (spl_ScanID p) (er_Log result) (er_Err result) (ps_scans st)\<rparr>;
               st2 = enqueueScanNotification env (spl_ScanID p) ''scan.completed'' (derefErr (er_Err result)) st1
           in (None, st2\<lparr>ps_queue := enqueueSnippetEnrich env (spl_ScanID p) (ps_queue st2)\<rparr>)))"

text \<open>From the scanner's result on; a parser that fails gives no rows, and its error is only
  logged.\<close>

definition parsed_rows :: "pipeline_env \<Rightarrow> scanner \<Rightarrow> exec_result \<Rightarrow> finding_row list" where
  "parsed_rows env sc result = (case run_parser (en_codec env) (sc_Parse sc) (er_Stdout result) of
      Inl _ \<Rightarrow> [] | Inr rows \<Rightarrow> rows)"

definition finish_scan :: "pipeline_env \<Rightarrow> scanner \<Rightarrow> scan_payload \<Rightarrow> exec_result \<Rightarrow> pipeline_state \<Rightarrow> string option \<times> pipeline_state" where
  "finish_scan env sc p result st =
     (if er_Err result \<noteq> None \<and> er_Stdout result = []
      then (Some (sc_Name sc @ '' scanner execution: '' @ the (er_Err result)),
            fail_scan env (spl_ScanID p) (the (er_Err result)) (er_Log result) st)
      else complete_scan env p result (process_rows env sc p (parsed_rows env sc result) st))"

text \<open>The handler: the error the task returns, or the panic it ends with, and the state.  The
  clone directory is removed on every way out once it exists.\<close>

definition HandleScan :: "pipeline_env \<Rightarrow> scan_payload \<Rightarrow> pipeline_state \<Rightarrow> string option \<times> pipeline_state" where
  "HandleScan env p st =
     (case Get (spl_Scanner p) of
        None \<Rightarrow> (Some (''unknown scanner: '' @ spl_Scanner p), st)
      | Some sc \<Rightarrow> (case en_running_error env of
          Some e \<Rightarrow> (Some (''update status: mark running: '' @ e), st)
        | None \<Rightarrow>
          (let st1 = st\<lparr>ps_scans := MarkRunning (en_now env) (spl_ScanID p) (ps_scans st)\<rparr> in
           if sc_TargetType sc = TargetGit then
             (case cloneRepo (en_clone env) (spl_ProjectID p) (spl_Target p) (spl_ScanID p) (ps_fs st1) of
                (ClonePanic e, fs) \<Rightarrow> (Some (''panic: '' @ e), st1\<lparr>ps_fs := fs\<rparr>)
              | (CloneFailed e logtext, fs) \<Rightarrow> (Some e, fail_scan env (spl_ScanID p) e logtext (st1\<lparr>ps_fs := fs\<rparr>))
              | (Cloned dir logtext, fs) \<Rightarrow>
                  (case finish_scan env sc p (RunScanner (en_os env) sc dir) (st1\<lparr>ps_fs := fs\<rparr>) of
                     (e, st2) \<Rightarrow> (e, st2\<lparr>ps_fs := ps_fs st2 - {dir}\<rparr>)))
           else if sc_TargetType sc = TargetURL then
             finish_scan env sc p (RunScanner (en_os env) sc (spl_Target p)) st1
           else finish_scan env sc p no_result st1)))"

section \<open>Missed deadlines\<close>

text \<open>The loop over the breaches: the identifiers whose alert was enqueued, and the queue.\<close>

fun breach_loop :: "pipeline_env \<Rightarrow> notification_settings \<Rightarrow> sla_breach list \<Rightarrow> queued list \<Rightarrow> string list \<times> queued list" where
  "breach_loop env ns [] q = ([], q)"
| "breach_loop env ns (b # bs) q =
     (let e0 = \<lparr>be_Breach = b, be_AISummary = []\<rparr>;
          e = e0\<lparr>be_AISummary := en_ai_summary env (BreachEvent e0)\<rparr>;
          (n, q1) = enqueueWebhookEvent env ''finding.sla_breach'' (BreachEvent e) q;
          (mailed, q2) = enqueueEmailEvent env (ns_EmailRecipients ns) ''SLA breach detected''
            (buildSLABreachEmailBody (en_rfc3339 env) e) q1;
          (marked, q3) = breach_loop env ns bs q2
      in (if n > 0 \<or> mailed then sb_FindingID b # marked else marked, q3))"

definition CheckSLABreaches :: "pipeline_env \<Rightarrow> pipeline_state \<Rightarrow> pipeline_state" where
  "CheckSLABreaches env st =
     (case en_settings env of
        Inl _ \<Rightarrow> st
      | Inr ns \<Rightarrow>
          if \<not> ns_AlertSLABreach ns then st
          else (let breaches = ListPendingSLABreaches (en_now env) 100 (ps_scans st) (ps_findings st)
            in if breaches = [] then st
               else (case breach_loop env ns breaches (ps_queue st) of
                   (marked, q) \<Rightarrow> st\<lparr>ps_queue := q,
                     ps_findings := MarkSLABreachAttempted (en_now env) marked (ps_findings st)\<rparr>)))"

section \<open>Specifications\<close>

text \<open>The columns a finding keeps from its insertion on.\<close>

definition identity_columns :: "finding \<Rightarrow> string option \<times> string" where
  "identity_columns r = (fd_ProjectID r, fd_Fingerprint r)"

definition scan_columns :: "finding \<Rightarrow> string \<times> string \<times> string \<times> string \<times> int option \<times> bool \<times> (string option \<times> string)" where
  "scan_columns r = (fd_ScanID r, fd_Scanner r, fd_RuleID r, fd_Severity r, fd_SLADeadline r, fd_Suppressed r, identity_columns r)"

text \<open>Deduplication as the design states it: of the rows of a scan, the first of each
  fingerprint that the project does not have yet.\<close>

definition row_fingerprint :: "pipeline_env \<Rightarrow> scanner \<Rightarrow> finding_row \<Rightarrow> string" where
  "row_fingerprint env sc f =
     computeFingerprint (sha256_hex (en_codec env)) (sc_Name sc) (RuleID f) (FilePath f) (LineStart f)"

fun fresh_rows :: "(finding_row \<Rightarrow> string) \<Rightarrow> string set \<Rightarrow> finding_row list \<Rightarrow> finding_row list" where
  "fresh_rows fp seen [] = []"
| "fresh_rows fp seen (f # fs) =
     (if fp f \<in> seen then fresh_rows fp seen fs else f # fresh_rows fp (insert (fp f) seen) fs)"

definition project_fingerprints :: "string \<Rightarrow> finding list \<Rightarrow> string set" where
  "project_fingerprints projectID rows = {fp. (Some projectID, fp) \<in> set (map identity_columns rows)}"

definition stored_columns ::
  "pipeline_env \<Rightarrow> scanner \<Rightarrow> scan_payload \<Rightarrow> finding_row \<Rightarrow> string \<times> string \<times> string \<times> string \<times> int option \<times> bool \<times> (string option \<times> string)" where
  "stored_columns env sc p f = (let severity = normalizeSeverity (Severity f) in
     (spl_ScanID p, sc_Name sc, RuleID f, severity, slaDeadlineFor severity (en_now env), row_suppressed env sc f,
      (Some (spl_ProjectID p), row_fingerprint env sc f)))"

text \<open>An environment and a state for concrete instances: every database statement succeeds.\<close>

definition sample_pipeline :: pipeline_env where
  "sample_pipeline = \<lparr>en_now = 0,
     en_os = \<lparr>look_path = (\<lambda>b. Some b), environ = [], run_cmd = (\<lambda>_ _ _ _. (''{}'', [], None, ''1s''))\<rparr>,
     en_codec = null_codec\<lparr>sha256_hex := (\<lambda>t. CHR ''h'' # t)\<rparr>, en_clone = sample_clone_io, en_vuln = sample_vuln_env,
     en_new_id = (\<lambda>rows. CHR ''f'' # nat_str (length rows)), en_running_error = None, en_completed_error = None,
     en_insert_error = (\<lambda>_. None), en_policies = [],
     en_suppressions = Inr (CreateSuppression ''s'' 0 ''vendored'' None (Some ''/vendor/'') None None []),
     en_webhooks = Inr [], en_settings = Inr \<lparr>ns_AlertCritical = True, ns_AlertHigh = True, ns_AlertScanComplete = True,
       ns_AlertScanFailed = True, ns_AlertSLABreach = True, ns_EmailRecipients = [''a@b.c'']\<rparr>,
     en_email = \<lparr>ec_Host = [], ec_Port = [], ec_Username = [], ec_Password = [], ec_From = [], ec_Enabled = True\<rparr>,
     en_accept = (\<lambda>_. True), en_marshal = (\<lambda>_ _. Inr []), en_ai_summary = (\<lambda>_. []), en_rfc3339 = itoa\<rparr>"

definition sample_payload :: scan_payload where
  "sample_payload = \<lparr>spl_ScanID = ''s1'', spl_ProjectID = ''p1'', spl_Target = ''https://github.com/a/b'', spl_Scanner = ''grype''\<rparr>"

definition sample_pipeline_state :: pipeline_state where
  "sample_pipeline_state = \<lparr>ps_scans = Scan_Insert ''s1'' ''https://github.com/a/b'' ''grype'' ''b'' (Some ''p1'') [],
     ps_findings = [], ps_corr = [], ps_vulns = [], ps_queue = [], ps_fs = {}\<rparr>"

definition sample_row :: finding_row where
  "sample_row = empty_row\<lparr>RuleID := ''CVE-2024-1'', Severity := ''critical'', FilePath := ''/go.sum'', PkgName := ''a''\<rparr>"

section \<open>Lemmas\<close>

interpretation fresh: first_occurrence "fresh_rows fp" fp "\<lambda>f. f" fp "\<lambda>_. False" for fp
  by unfold_locales simp_all

subsection \<open>What each step leaves alone\<close>

lemma columns_update:
  "(\<And>r. scan_columns (f r) = scan_columns r) \<Longrightarrow> map scan_columns (update_where P f rows) = map scan_columns rows"
  by (rule map_update_where)

lemma RefreshBatchCorrelation_columns:
  assumes "RefreshBatchCorrelation scans i rows corr = (e, rows', corr')"
  shows "map scan_columns rows' = map scan_columns rows"
proof -
  have one: "map scan_columns (snd (recalculateConfidence scans c j rs)) = map scan_columns rs" for c j rs
    by (simp add: recalculateConfidence_def Let_def columns_update scan_columns_def identity_columns_def split: sum.split)
  have "map scan_columns (snd (recalculate_all scans c ids rs)) = map scan_columns rs" for c ids rs
  proof (induction ids arbitrary: rs)
    case (Cons j ids)
    obtain e1 rs1 where r: "recalculateConfidence scans c j rs = (e1, rs1)" by fastforce
    then have "map scan_columns rs1 = map scan_columns rs" using one by (metis snd_conv)
    with r Cons show ?case by (cases e1) simp_all
  qed simp
  then show ?thesis using assms
    by (auto simp: RefreshBatchCorrelation_def Let_def split: sum.splits prod.splits) (metis snd_conv)+
qed

lemma linkVulnerability_columns:
  "map scan_columns (ps_findings (linkVulnerability env i pid sc f st)) = map scan_columns (ps_findings st) \<and>
   ps_scans (linkVulnerability env i pid sc f st) = ps_scans st \<and> ps_fs (linkVulnerability env i pid sc f st) = ps_fs st \<and>
   ps_queue (linkVulnerability env i pid sc f st) = ps_queue st"
proof -
  have "map scan_columns (UpdateFindingVulnID i v rows) = map scan_columns rows" for v rows
    unfolding UpdateFindingVulnID_def by (rule columns_update) (simp add: scan_columns_def identity_columns_def)
  then show ?thesis unfolding linkVulnerability_def Let_def
    by (simp split: prod.split sum.split)
qed

lemma applyPolicies_columns:
  "map scan_columns (applyPolicies ps i scanner severity rule path rows) = map scan_columns rows"
  unfolding applyPolicies_actions ExecuteActions_eq
  by (rule columns_update) (simp add: scan_columns_def identity_columns_def)

lemma after_insert_frame:
  "map scan_columns (ps_findings (after_insert env sc p i f st)) = map scan_columns (ps_findings st) \<and>
   ps_scans (after_insert env sc p i f st) = ps_scans st \<and> ps_fs (after_insert env sc p i f st) = ps_fs st"
proof -
  obtain e rows corr where r: "RefreshBatchCorrelation (ps_scans st) i (ps_findings st) (ps_corr st) = (e, rows, corr)"
    by (metis prod_cases3)
  from RefreshBatchCorrelation_columns [OF r] show ?thesis
    by (simp add: after_insert_def Let_def r linkVulnerability_columns applyPolicies_columns)
qed

subsection \<open>The rows of a scan\<close>

definition id_part :: "'a \<times> 'b \<times> 'c \<times> 'd \<times> 'e \<times> 'f \<times> 'g \<Rightarrow> 'g" where
  "id_part = snd \<circ> snd \<circ> snd \<circ> snd \<circ> snd \<circ> snd"

lemma project_fingerprints_columns:
  "project_fingerprints pid rows = {fp. (Some pid, fp) \<in> id_part ` set (map scan_columns rows)}"
proof -
  have "identity_columns = id_part \<circ> scan_columns" by (simp add: fun_eq_iff id_part_def scan_columns_def)
  then show ?thesis by (simp only: project_fingerprints_def set_map image_comp)
qed

lemma insert_of_sel [simp]:
  "fi_ProjectID (insert_of env sc p f) = spl_ProjectID p" "fi_Fingerprint (insert_of env sc p f) = row_fingerprint env sc f"
  by (simp_all add: insert_of_def Let_def row_fingerprint_def)

lemma new_finding_columns: "scan_columns (new_finding i (en_now env) (insert_of env sc p f)) = stored_columns env sc p f"
  by (simp add: scan_columns_def identity_columns_def stored_columns_def Let_def)
    (simp add: new_finding_def insert_of_def Let_def)

lemma same_fingerprint_project:
  "list_ex (same_fingerprint (insert_of env sc p f)) rows \<longleftrightarrow>
    row_fingerprint env sc f \<in> project_fingerprints (spl_ProjectID p) rows"
  by (induction rows) (auto simp: same_fingerprint_def project_fingerprints_def identity_columns_def)

definition accepting :: "pipeline_env \<Rightarrow> scan_payload \<Rightarrow> bool" where
  "accepting env p \<longleftrightarrow> spl_ProjectID p \<noteq> [] \<and> (\<forall>x. en_insert_error env x = None) \<and> (\<forall>rows. en_new_id env rows \<noteq> [])"

lemma process_row_known:
  assumes "accepting env p" "row_fingerprint env sc f \<in> project_fingerprints (spl_ProjectID p) (ps_findings st)"
  shows "process_row env sc p f st = st"
  using assms by (simp add: process_row_def Insert_def accepting_def same_fingerprint_project)

lemma process_row_new:
  assumes "accepting env p" "row_fingerprint env sc f \<notin> project_fingerprints (spl_ProjectID p) (ps_findings st)"
  shows "process_row env sc p f st = after_insert env sc p (en_new_id env (ps_findings st)) f
    (st\<lparr>ps_findings := ps_findings st @ [new_finding (en_new_id env (ps_findings st)) (en_now env) (insert_of env sc p f)]\<rparr>)"
  using assms by (simp add: process_row_def Insert_def accepting_def same_fingerprint_project Let_def)

lemma process_row_columns:
  assumes "accepting env p"
  shows "map scan_columns (ps_findings (process_row env sc p f st)) = map scan_columns (ps_findings st) @
      (if row_fingerprint env sc f \<in> project_fingerprints (spl_ProjectID p) (ps_findings st) then [] else [stored_columns env sc p f])"
  using process_row_known [OF assms] process_row_new [OF assms]
  by (simp add: after_insert_frame new_finding_columns)

lemma process_row_scans:
  "ps_scans (process_row env sc p f st) = ps_scans st \<and> ps_fs (process_row env sc p f st) = ps_fs st"
  by (simp add: process_row_def Let_def after_insert_frame split: prod.split sum.split)

lemma process_rows_scans:
  "ps_scans (process_rows env sc p fs st) = ps_scans st \<and> ps_fs (process_rows env sc p fs st) = ps_fs st"
  by (induction fs arbitrary: st) (simp_all add: process_row_scans)

lemma project_fingerprints_append:
  "map scan_columns rows' = map scan_columns rows @ cs \<Longrightarrow>
    project_fingerprints pid rows' = project_fingerprints pid rows \<union> {fp. (Some pid, fp) \<in> id_part ` set cs}"
  unfolding project_fingerprints_columns by (simp add: image_Un Collect_disj_eq)

lemma process_row_fingerprints:
  assumes "accepting env p"
  shows "project_fingerprints (spl_ProjectID p) (ps_findings (process_row env sc p f st)) =
    insert (row_fingerprint env sc f) (project_fingerprints (spl_ProjectID p) (ps_findings st))"
  using project_fingerprints_append [OF process_row_columns [OF assms]]
  by (auto simp: stored_columns_def Let_def id_part_def)

lemma process_rows_columns:
  assumes "accepting env p"
  shows "map scan_columns (ps_findings (process_rows env sc p fs st)) = map scan_columns (ps_findings st) @
     map (stored_columns env sc p) (fresh_rows (row_fingerprint env sc) (project_fingerprints (spl_ProjectID p) (ps_findings st)) fs)"
proof (induction fs arbitrary: st)
  case (Cons f fs)
  show ?case
    using Cons [of "process_row env sc p f st"] process_row_columns [OF assms, of sc f st]
      process_row_fingerprints [OF assms, of sc f st]
    by (simp add: insert_absorb)
qed simp

lemma process_rows_fingerprints:
  assumes "accepting env p"
  shows "project_fingerprints (spl_ProjectID p) (ps_findings (process_rows env sc p fs st)) =
    row_fingerprint env sc ` set fs \<union> project_fingerprints (spl_ProjectID p) (ps_findings st)"
  by (induction fs arbitrary: st) (auto simp: process_row_fingerprints [OF assms])

lemma process_rows_known:
  assumes "accepting env p" "row_fingerprint env sc ` set fs \<subseteq> project_fingerprints (spl_ProjectID p) (ps_findings st)"
  shows "process_rows env sc p fs st = st"
  using assms(2) by (induction fs) (simp_all add: process_row_known [OF assms(1)])

subsection \<open>The outcome of a task\<close>

lemma Scan_Get_update:
  "(\<And>s. sn_ID (f s) = sn_ID s) \<Longrightarrow>
    Scan_Get j (update_where P f scans) = map_option (\<lambda>s. if P s then f s else s) (Scan_Get j scans)"
  unfolding Scan_Get_def by (rule row_by_update_where)

lemma Scan_Get_ID: "Scan_Get j scans = Some s \<Longrightarrow> sn_ID s = j"
  unfolding Scan_Get_def using row_by_SomeD by metis

lemma enqueueScanNotification_frame:
  "ps_scans (enqueueScanNotification env i ev e st) = ps_scans st \<and> ps_findings (enqueueScanNotification env i ev e st) = ps_findings st \<and>
   ps_fs (enqueueScanNotification env i ev e st) = ps_fs st"
  by (simp add: enqueueScanNotification_def Let_def split: sum.split option.split)

text \<open>What a task has done to its scan: the status, and whether the error column is set.\<close>

definition scan_outcome :: "string \<Rightarrow> string \<Rightarrow> scan_row list \<Rightarrow> scan_row list \<Rightarrow> bool" where
  "scan_outcome i status scans scans' \<longleftrightarrow>
     (\<forall>j. j \<noteq> i \<longrightarrow> Scan_Get j scans' = Scan_Get j scans) \<and>
     (\<forall>s. Scan_Get i scans = Some s \<longrightarrow> (\<exists>s'. Scan_Get i scans' = Some s' \<and> sn_Status s' = status \<and>
        (status = ''failed'' \<longrightarrow> sn_Error s' \<noteq> None) \<and> (status \<noteq> ''running'' \<longrightarrow> sn_Completed s' \<noteq> None)))"

lemma scan_outcome_update:
  assumes "\<And>s. sn_ID (f s) = sn_ID s" "\<And>s. sn_Status (f s) = status"
    and "\<And>s. status = ''failed'' \<Longrightarrow> sn_Error (f s) \<noteq> None" "\<And>s. status \<noteq> ''running'' \<Longrightarrow> sn_Completed (f s) \<noteq> None"
  shows "scan_outcome i status scans (update_where (\<lambda>s. sn_ID s = i) f scans)"
proof -
  have get: "Scan_Get j (update_where (\<lambda>s. sn_ID s = i) f scans) =
      map_option (\<lambda>s. if sn_ID s = i then f s else s) (Scan_Get j scans)" for j
    by (rule Scan_Get_update) (rule assms(1))
  show ?thesis
    unfolding scan_outcome_def
  proof (intro conjI allI impI)
    fix j assume "j \<noteq> i"
    then show "Scan_Get j (update_where (\<lambda>s. sn_ID s = i) f scans) = Scan_Get j scans"
      using get Scan_Get_ID by (cases "Scan_Get j scans") simp_all
  next
    fix s assume "Scan_Get i scans = Some s"
    then show "\<exists>s'. Scan_Get i (update_where (\<lambda>s. sn_ID s = i) f scans) = Some s' \<and> sn_Status s' = status \<and>
        (status = ''failed'' \<longrightarrow> sn_Error s' \<noteq> None) \<and> (status \<noteq> ''running'' \<longrightarrow> sn_Completed s' \<noteq> None)"
      using get [of i] Scan_Get_ID assms(2-4) by (intro exI [of _ "f s"]) simp
  qed
qed

lemma running_failed_outcome:
  "scan_outcome i ''failed'' scans (MarkFailed t2 i e l (MarkRunning t1 i scans))"
  unfolding MarkFailed_def MarkRunning_def
  by (subst update_where_compose) (simp, rule scan_outcome_update, simp_all)

lemma running_completed_outcome:
  "scan_outcome i ''completed'' scans (MarkCompleted t2 i l e (MarkRunning t1 i scans))"
  unfolding MarkCompleted_eq MarkRunning_def
  by (subst update_where_compose) (simp, rule scan_outcome_update, simp_all)

lemma running_outcome: "scan_outcome i ''running'' scans (MarkRunning t i scans)"
  unfolding MarkRunning_def by (rule scan_outcome_update) simp_all

lemma fail_scan_frame:
  "ps_scans (fail_scan env i e l st) = MarkFailed (en_now env) i e l (ps_scans st) \<and>
   ps_fs (fail_scan env i e l st) = ps_fs st"
  by (simp add: fail_scan_def enqueueScanNotification_frame)

lemma finish_scan_outcome:
  assumes "en_completed_error env = None" "finish_scan env sc p result st1 = (r, st2)"
    and "ps_scans st1 = MarkRunning t (spl_ScanID p) scans"
  shows "scan_outcome (spl_ScanID p) (if r = None then ''completed'' else ''failed'') scans (ps_scans st2) \<and> ps_fs st2 = ps_fs st1"
proof (cases "er_Err result \<noteq> None \<and> er_Stdout result = []")
  case True
  with assms show ?thesis
    by (auto simp: finish_scan_def fail_scan_frame running_failed_outcome)
next
  case False
  then have "r = None" "ps_scans st2 = MarkCompleted (en_now env) (spl_ScanID p) (er_Log result) (er_Err result) (ps_scans st1)"
    "ps_fs st2 = ps_fs st1"
    using assms(1,2)
    by (auto simp: finish_scan_def complete_scan_def Let_def enqueueScanNotification_frame process_rows_scans)
  then show ?thesis using running_completed_outcome assms(3) by simp
qed

subsection \<open>Notifications\<close>

lemma webhook_loop_extends: "\<exists>new. snd (webhook_loop accept ev bytes ws n q) = q @ new"
proof (induction ws arbitrary: n q)
  case (Cons w ws)
  show ?case
    using Cons [of n q] Cons [of "n + 1" "q @ [\<lparr>q_task = WebhookSend (wh_ID w) ev bytes, q_retry = 5, q_timeout = 30\<rparr>]"]
    by (auto simp: Let_def)
qed simp

lemma enqueueWebhookEvent_extends: "\<exists>new. snd (enqueueWebhookEvent env ev payload q) = q @ new"
  by (auto simp: enqueueWebhookEvent_def webhook_loop_extends split: sum.split)

text \<open>E-mail can be delivered: it is enabled, has recipients and the queue takes it.\<close>

definition mail_works :: "pipeline_env \<Rightarrow> notification_settings \<Rightarrow> bool" where
  "mail_works env ns \<longleftrightarrow> ec_Enabled (en_email env) \<and> ns_EmailRecipients ns \<noteq> [] \<and> (\<forall>x. en_accept env x)"

lemma enqueueEmailEvent_works:
  "mail_works env ns \<Longrightarrow> enqueueEmailEvent env (ns_EmailRecipients ns) subject body q =
    (True, q @ [\<lparr>q_task = EmailSend subject body (ns_EmailRecipients ns), q_retry = 5, q_timeout = 30\<rparr>])"
  by (simp add: mail_works_def enqueueEmailEvent_def)

lemma breach_loop_all:
  "mail_works env ns \<Longrightarrow> fst (breach_loop env ns bs q) = map sb_FindingID bs"
proof (induction bs arbitrary: q)
  case (Cons b bs)
  then show ?case by (simp add: Let_def enqueueEmailEvent_works split: prod.split) (metis fst_conv)
qed simp

lemma breach_loop_marks: "set (fst (breach_loop env ns bs q)) \<subseteq> sb_FindingID ` set bs"
proof (induction bs arbitrary: q)
  case (Cons b bs)
  then show ?case by (auto simp: Let_def split: prod.splits if_splits) (metis (no_types, lifting) fst_conv image_iff subsetD)+
qed simp

lemma sample_accepting: "accepting sample_pipeline sample_payload"
  by (simp add: accepting_def sample_pipeline_def sample_payload_def)

lemma sample_mail: "en_settings sample_pipeline = Inr ns \<Longrightarrow> mail_works sample_pipeline ns \<and> ns_AlertCritical ns \<and> ns_AlertSLABreach ns"
  by (auto simp: sample_pipeline_def mail_works_def)

section \<open>Properties\<close>



text \<open>C2: A scan stores exactly the rows of the parser that the project does not have yet, the first of
  each fingerprint, in order, with a normalised severity and the deadline that severity has;
  the findings already stored keep their identity and scan columns.\<close>

theorem process_rows_stores:
  assumes "accepting env p"
  shows "map scan_columns (ps_findings (process_rows env sc p fs st)) = map scan_columns (ps_findings st) @
     map (stored_columns env sc p) (fresh_rows (row_fingerprint env sc) (project_fingerprints (spl_ProjectID p) (ps_findings st)) fs)"
  by (rule process_rows_columns [OF assms])

theorem process_rows_stores_witness:
  "map scan_columns (ps_findings (process_rows sample_pipeline semgrep sample_payload [sample_row, sample_row\<lparr>PkgName := ''b''\<rparr>] sample_pipeline_state)) =
     [stored_columns sample_pipeline semgrep sample_payload sample_row]"
  using process_rows_stores [OF sample_accepting, of semgrep "[sample_row, sample_row\<lparr>PkgName := ''b''\<rparr>]" sample_pipeline_state]
  by (simp add: sample_pipeline_state_def row_fingerprint_def project_fingerprints_def)

text \<open>C5: Scanning a project again with the same findings, at any later time and with other policies and
  suppressions, changes nothing: no finding, correlation or vulnerability row, no link and no
  notification.\<close>

theorem rescan_changes_nothing:
  assumes "accepting env p" "accepting env' p'" "spl_ProjectID p' = spl_ProjectID p"
    and "sha256_hex (en_codec env') = sha256_hex (en_codec env)"
  shows "process_rows env' sc p' fs (process_rows env sc p fs st) = process_rows env sc p fs st"
proof (rule process_rows_known [OF assms(2)])
  have "row_fingerprint env' sc f = row_fingerprint env sc f" for f
    by (simp add: row_fingerprint_def assms(4))
  then show "row_fingerprint env' sc ` set fs \<subseteq> project_fingerprints (spl_ProjectID p') (ps_findings (process_rows env sc p fs st))"
    using process_rows_fingerprints [OF assms(1), of sc fs st] assms(3) by auto
qed

theorem rescan_changes_nothing_witness:
  "process_rows (sample_pipeline\<lparr>en_now := 99\<rparr>) semgrep (sample_payload\<lparr>spl_ScanID := ''s2''\<rparr>) [sample_row]
      (process_rows sample_pipeline semgrep sample_payload [sample_row] sample_pipeline_state) =
    process_rows sample_pipeline semgrep sample_payload [sample_row] sample_pipeline_state"
proof -
  have "accepting (sample_pipeline\<lparr>en_now := 99\<rparr>) (sample_payload\<lparr>spl_ScanID := ''s2''\<rparr>)"
    using sample_accepting by (simp add: accepting_def)
  then show ?thesis by (rule rescan_changes_nothing [OF sample_accepting]) simp_all
qed

text \<open>Two rows of a scan with the same rule, file and line are one finding even if they name
  different packages: the second is dropped, with its package and version.\<close>

theorem same_location_dropped:
  assumes "accepting env p" "RuleID g = RuleID f" "FilePath g = FilePath f" "LineStart g = LineStart f"
  shows "process_rows env sc p [f, g] st = process_rows env sc p [f] st"
proof -
  have "row_fingerprint env sc g = row_fingerprint env sc f" by (simp add: row_fingerprint_def assms(2-4))
  then show ?thesis
    using process_row_known [OF assms(1)] process_row_fingerprints [OF assms(1), of sc f st] by simp
qed

theorem same_location_dropped_witness:
  "process_rows sample_pipeline semgrep sample_payload [sample_row, sample_row\<lparr>PkgName := ''b''\<rparr>] sample_pipeline_state =
    process_rows sample_pipeline semgrep sample_payload [sample_row] sample_pipeline_state"
  using same_location_dropped [OF sample_accepting, of "sample_row\<lparr>PkgName := ''b''\<rparr>" sample_row] by simp

text \<open>A scanner that reports paths inside the clone gives the same finding a new fingerprint in
  every scan, because the name of the clone directory holds the scan identifier and the path
  normalisation keeps it: deduplication across scans never applies to such findings.\<close>

theorem clone_path_defeats_dedup:
  assumes "inj (sha256_hex (en_codec env))" "plain_token (''/tmp/aspm-scan-'' @ i @ ''/'' @ rel)"
    and "plain_token (''/tmp/aspm-scan-'' @ j @ ''/'' @ rel)" "i \<noteq> j"
  shows "row_fingerprint env sc (f\<lparr>FilePath := normalizeFindingPath (''/tmp/aspm-scan-'' @ i @ ''/'' @ rel)\<rparr>) \<noteq>
    row_fingerprint env sc (f\<lparr>FilePath := normalizeFindingPath (''/tmp/aspm-scan-'' @ j @ ''/'' @ rel)\<rparr>)"
proof -
  have norm: "normalizeFindingPath (''/tmp/aspm-scan-'' @ k @ ''/'' @ rel) = ''/tmp/aspm-scan-'' @ k @ ''/'' @ rel"
    if "plain_token (''/tmp/aspm-scan-'' @ k @ ''/'' @ rel)" for k
    using trim_token [OF that] by (simp add: normalizeFindingPath_def Let_def trim_prefix_def)
  show ?thesis
    unfolding norm [OF assms(2)] norm [OF assms(3)] row_fingerprint_def computeFingerprint_def inj_eq [OF assms(1)]
    using assms(4) by (simp add: fingerprint_text_def)
qed

theorem clone_path_defeats_dedup_witness:
  "row_fingerprint sample_pipeline semgrep (sample_row\<lparr>FilePath := normalizeFindingPath ''/tmp/aspm-scan-s1/a.go''\<rparr>) \<noteq>
    row_fingerprint sample_pipeline semgrep (sample_row\<lparr>FilePath := normalizeFindingPath ''/tmp/aspm-scan-s2/a.go''\<rparr>)"
proof -
  have "inj (sha256_hex (en_codec sample_pipeline))" by (simp add: sample_pipeline_def inj_on_def)
  moreover have "plain_token (''/tmp/aspm-scan-'' @ ''s1'' @ ''/'' @ ''a.go'')" "plain_token (''/tmp/aspm-scan-'' @ ''s2'' @ ''/'' @ ''a.go'')"
    by code_simp+
  ultimately show ?thesis
    using clone_path_defeats_dedup [of sample_pipeline "''s1''" "''a.go''" "''s2''" semgrep sample_row] by simp
qed

text \<open>A finding that a suppression hides still alerts: if it is critical, e-mail works and the
  project does not have it yet, the critical e-mail is enqueued for it.\<close>

theorem suppressed_still_alerts:
  assumes "accepting env p" "row_suppressed env sc f" "Severity f = ''critical''"
    and "row_fingerprint env sc f \<notin> project_fingerprints (spl_ProjectID p) (ps_findings st)"
    and "en_settings env = Inr ns" "ns_AlertCritical ns" "mail_works env ns"
  shows "\<exists>new body. ps_queue (process_row env sc p f st) = ps_queue st @ new \<and>
    \<lparr>q_task = EmailSend ''Critical finding detected'' body (ns_EmailRecipients ns), q_retry = 5, q_timeout = 30\<rparr> \<in> set new"
proof -
  let ?i = "en_new_id env (ps_findings st)"
  let ?p = "(finding_event_of env sc p ?i f)\<lparr>fe_AISummary := en_ai_summary env (FindingEvent (finding_event_of env sc p ?i f))\<rparr>"
  let ?body = "buildFindingEmailBody ''finding.critical'' ?p"
  obtain hooks where hooks: "snd (enqueueWebhookEvent env ''finding.critical'' (FindingEvent ?p) (ps_queue st)) = ps_queue st @ hooks"
    using enqueueWebhookEvent_extends by blast
  have sev: "fe_Severity ?p = ''critical''"
    by (simp add: finding_event_of_def normalizeSeverity_def validSeverities_def assms(3))
  have "enqueueFindingNotification env (finding_event_of env sc p ?i f) (ps_queue st) =
      notify_both env ns ''finding.critical'' (FindingEvent ?p) ''Critical finding detected'' ?body (ps_queue st)"
    using sev by (simp add: enqueueFindingNotification_def assms(5,6) Let_def)
  also have "\<dots> = ps_queue st @ (hooks @
      [\<lparr>q_task = EmailSend ''Critical finding detected'' ?body (ns_EmailRecipients ns), q_retry = 5, q_timeout = 30\<rparr>])"
    by (simp add: notify_both_def hooks enqueueEmailEvent_works [OF assms(7)])
  finally have "ps_queue (process_row env sc p f st) = ps_queue st @ (hooks @
      [\<lparr>q_task = EmailSend ''Critical finding detected'' ?body (ns_EmailRecipients ns), q_retry = 5, q_timeout = 30\<rparr>])"
    using process_row_new [OF assms(1,4)]
    by (simp add: after_insert_def Let_def linkVulnerability_columns assms(2) split: prod.split)
  then show ?thesis
    by (intro exI [of _ "hooks @ [\<lparr>q_task = EmailSend ''Critical finding detected'' ?body (ns_EmailRecipients ns), q_retry = 5, q_timeout = 30\<rparr>]"]
        exI [of _ ?body]) simp
qed

theorem suppressed_still_alerts_witness:
  "ps_queue (process_row sample_pipeline semgrep sample_payload (sample_row\<lparr>FilePath := ''/vendor/a.go''\<rparr>) sample_pipeline_state) \<noteq> []"
proof -
  let ?f = "sample_row\<lparr>FilePath := ''/vendor/a.go''\<rparr>"
  have "row_suppressed sample_pipeline semgrep ?f" by code_simp
  moreover have "row_fingerprint sample_pipeline semgrep ?f \<notin> project_fingerprints (spl_ProjectID sample_payload) (ps_findings sample_pipeline_state)"
    by (simp add: sample_pipeline_state_def project_fingerprints_def)
  moreover have "Severity ?f = ''critical''" by (simp add: sample_row_def)
  moreover obtain ns where ns: "en_settings sample_pipeline = Inr ns" by (simp add: sample_pipeline_def)
  ultimately show ?thesis
    using suppressed_still_alerts [OF sample_accepting _ _ _ ns] sample_mail [OF ns] by fastforce
qed

text \<open>A scan started without a project stores none of its findings, whatever the parser found, and
  still completes without an error.\<close>

theorem no_project_loses_findings:
  assumes "spl_ProjectID p = []" "en_completed_error env = None" "er_Err result = None"
  shows "fst (finish_scan env sc p result st) = None \<and>
    ps_findings (snd (finish_scan env sc p result st)) = ps_findings st \<and>
    ps_scans (snd (finish_scan env sc p result st)) = MarkCompleted (en_now env) (spl_ScanID p) (er_Log result) None (ps_scans st)"
proof -
  have "process_rows env sc p fs st = st" for fs
    using assms(1) by (induction fs) (simp_all add: process_row_def Insert_def)
  then show ?thesis
    using assms(2,3) by (simp add: finish_scan_def complete_scan_def Let_def enqueueScanNotification_frame)
qed

theorem no_project_loses_findings_witness:
  "ps_findings (snd (finish_scan sample_pipeline gitleaks (sample_payload\<lparr>spl_ProjectID := []\<rparr>)
     \<lparr>er_Stdout = ''[]'', er_Log = [], er_Err = None\<rparr> sample_pipeline_state)) = []"
  using no_project_loses_findings [of "sample_payload\<lparr>spl_ProjectID := []\<rparr>" sample_pipeline "\<lparr>er_Stdout = ''[]'', er_Log = [], er_Err = None\<rparr>"
      gitleaks sample_pipeline_state]
  by (simp add: sample_pipeline_def sample_pipeline_state_def)



end
