(* ===== verification/Snippet_Enrich.thy ===== *)
theory Snippet_Enrich
  imports Scan_Clone Finding_Store
begin

text \<open>
  Code snippets (\<^verbatim>\<open>src/internal/scanner/snippet.go\<close>) and the task that adds them to the findings
  of a scan (\<^verbatim>\<open>src/internal/tasks/snippet_enrich.go\<close>).  \<open>filepath.Clean\<close> and \<open>filepath.Join\<close> of a
  Unix system are modelled; reading a file is a parameter.
\<close>

section \<open>Paths\<close>

text \<open>The components of a cleaned path, last one first.\<close>

fun clean_parts :: "bool \<Rightarrow> string list \<Rightarrow> string list \<Rightarrow> string list" where
  "clean_parts rooted acc [] = acc"
| "clean_parts rooted acc (p # ps) =
     (if p = [] \<or> p = ''.'' then clean_parts rooted acc ps
      else if p = ''..'' then
        (case acc of
           [] \<Rightarrow> clean_parts rooted (if rooted then [] else [''..'']) ps
         | a # as' \<Rightarrow> clean_parts rooted (if a = ''..'' then ''..'' # acc else as') ps)
      else clean_parts rooted (p # acc) ps)"

definition rooted :: "string \<Rightarrow> bool" where
  "rooted path \<longleftrightarrow> has_prefix path ''/''"

definition path_Clean :: "string \<Rightarrow> string" where
  "path_Clean path =
     (if path = [] then ''.''
      else (let s = join ''/'' (rev (clean_parts (rooted path) [] (split_on (CHR ''/'') path)))
        in if rooted path then CHR ''/'' # s else if s = [] then ''.'' else s))"

definition path_Join :: "string \<Rightarrow> string \<Rightarrow> string" where
  "path_Join a b =
     (if a = [] then (if b = [] then [] else path_Clean b)
      else if b = [] then path_Clean a else path_Clean (a @ ''/'' @ b))"

section \<open>Snippets\<close>

definition maxPreviewLines :: nat where
  "maxPreviewLines = 400"

definition normalizeSnippetPath :: "string \<Rightarrow> string" where
  "normalizeSnippetPath path0 =
     (let path = trim_space path0 in
      if path = [] then []
      else if contains path ''://'' \<and> \<not> has_prefix path ''file://'' then path
      else (let p1 = trim_prefix path ''file://'';
                p2 = (if has_prefix p1 ''/src/'' then trim_prefix p1 ''/src'' else p1);
                p3 = (if has_prefix p2 ''src/'' then ''/'' @ trim_prefix p2 ''src/'' else p2);
                p4 = (if \<not> has_prefix p3 ''/'' then ''/'' @ p3 else p3)
            in trim_prefix p4 ''/''))"

text \<open>Carriage returns before a line feed are dropped.\<close>

fun drop_crlf :: "string \<Rightarrow> string" where
  "drop_crlf (a # b # s) = (if a = CHR 0x0D \<and> b = newline then newline # drop_crlf s else a # drop_crlf (b # s))"
| "drop_crlf s = s"

text \<open>The text and its first line, an error, or the panic of a slice whose start is after its
  end.\<close>

datatype snippet = Snippet string int | SnippetError string | SnippetPanic

definition slice_snippet :: "string list \<Rightarrow> int \<Rightarrow> int \<Rightarrow> snippet" where
  "slice_snippet lines lineStart lineEnd =
     (let start = max (lineStart - 8) 1; end_line = min (lineEnd + 8) (int (length lines)) in
      if start - 1 > end_line then SnippetPanic
      else Snippet (join [newline] (drop (nat (start - 1)) (take (nat end_line) lines))) start)"

definition snippet_path :: "string \<Rightarrow> string \<Rightarrow> string" where
  "snippet_path repoDir filePath = path_Clean (path_Join repoDir (normalizeSnippetPath filePath))"

definition path_inside :: "string \<Rightarrow> string \<Rightarrow> bool" where
  "path_inside repo path \<longleftrightarrow> path = repo \<or> has_prefix path (repo @ ''/'')"

definition ExtractSnippet :: "(string \<Rightarrow> string + string) \<Rightarrow> string \<Rightarrow> string \<Rightarrow> int \<Rightarrow> int \<Rightarrow> snippet" where
  "ExtractSnippet read_file repoDir filePath lineStart0 lineEnd0 =
     (let lineStart = (if lineStart0 \<le> 0 then 1 else lineStart0);
          lineEnd = (if lineEnd0 < lineStart then lineStart else lineEnd0) in
      if normalizeSnippetPath filePath = [] then SnippetError ''empty file path''
      else if \<not> path_inside (path_Clean repoDir) (snippet_path repoDir filePath) then SnippetError ''invalid file path''
      else (case read_file (snippet_path repoDir filePath) of
          Inl e \<Rightarrow> SnippetError e
        | Inr data \<Rightarrow>
            (let text = drop_crlf data; lines = split_on newline text in
             if length lines \<le> maxPreviewLines then Snippet text 1
             else slice_snippet lines lineStart lineEnd)))"

section \<open>The task\<close>

text \<open>The order of \<^verbatim>\<open>findingRepo.GetByScanID\<close>.\<close>

definition severity_order :: "string \<Rightarrow> nat" where
  "severity_order s = (if s = ''critical'' then 1 else if s = ''high'' then 2 else if s = ''medium'' then 3
     else if s = ''low'' then 4 else 5)"

definition GetByScanID :: "string \<Rightarrow> finding list \<Rightarrow> finding list" where
  "GetByScanID scanID rows =
     sort_key (\<lambda>f. severity_order (fd_Severity f)) (sort_key fd_CreatedAt (filter (\<lambda>f. fd_ScanID f = scanID) rows))"

definition needs_snippet :: "finding \<Rightarrow> bool" where
  "needs_snippet f \<longleftrightarrow> length (filter (\<lambda>c. c = newline) (fd_CodeSnippet f)) \<le> 1"

record snippet_env =
  sx_clone :: clone_io
  sx_read :: "string \<Rightarrow> string + string"
  sx_findings_error :: "string option"
  sx_update_error :: "string \<Rightarrow> string option"

text \<open>The flag tells whether the loop ended, or a panic left it.\<close>

fun enrich_loop :: "snippet_env \<Rightarrow> string \<Rightarrow> finding list \<Rightarrow> finding list \<Rightarrow> bool \<times> finding list" where
  "enrich_loop env dir [] rows = (True, rows)"
| "enrich_loop env dir (f # fs) rows =
     (if contains (fd_FilePath f) ''://'' then enrich_loop env dir fs rows
      else if fd_LineStart f \<le> 0 then enrich_loop env dir fs rows
      else (case ExtractSnippet (sx_read env) dir (fd_FilePath f) (fd_LineStart f) (fd_LineEnd f) of
          SnippetPanic \<Rightarrow> (False, rows)
        | SnippetError e \<Rightarrow> enrich_loop env dir fs rows
        | Snippet text line \<Rightarrow>
            if text = [] then enrich_loop env dir fs rows
            else (case sx_update_error env (fd_ID f) of
                Some e \<Rightarrow> enrich_loop env dir fs rows
              | None \<Rightarrow> enrich_loop env dir fs (UpdateSnippet (fd_ID f) text rows))))"

definition HandleSnippetEnrich ::
  "snippet_env \<Rightarrow> string \<Rightarrow> scan_row list \<Rightarrow> finding list \<Rightarrow> string set \<Rightarrow> string option \<times> finding list \<times> string set" where
  "HandleSnippetEnrich env scanID scans rows fs =
     (case Scan_Get scanID scans of
        None \<Rightarrow> (None, rows, fs)
      | Some scan \<Rightarrow> (case sx_findings_error env of
          Some e \<Rightarrow> (None, rows, fs)
        | None \<Rightarrow>
            (let toEnrich = filter needs_snippet (GetByScanID scanID rows) in
             if toEnrich = [] then (None, rows, fs)
             else (case cloneRepoForSnippet (sx_clone env) (sn_Project scan) (sn_Target scan) scanID fs of
                 (Inl e, fs') \<Rightarrow> (None, rows, fs')
               | (Inr dir, fs') \<Rightarrow>
                   (case enrich_loop env dir toEnrich rows of
                      (True, rows') \<Rightarrow> (None, rows', fs' - {dir})
                    | (False, rows') \<Rightarrow> (Some ''panic: slice bounds out of range'', rows', fs' - {dir}))))))"

section \<open>Lemmas\<close>

definition snippet_dir :: "clone_io \<Rightarrow> string \<Rightarrow> string" where
  "snippet_dir io scanID = ci_tmp io @ ''/aspm-snippet-'' @ scanID"

lemma clean_rooted: "list_all (\<lambda>p. p \<noteq> [] \<and> p \<noteq> ''.'' \<and> p \<noteq> ''..'' \<and> CHR ''/'' \<notin> set p) acc \<Longrightarrow>
    list_all (\<lambda>p. CHR ''/'' \<notin> set p) ps \<Longrightarrow>
    list_all (\<lambda>p. p \<noteq> [] \<and> p \<noteq> ''.'' \<and> p \<noteq> ''..'' \<and> CHR ''/'' \<notin> set p) (clean_parts True acc ps)"
  by (induction ps arbitrary: acc) (auto split: list.split)

lemma split_on_join: "ws \<noteq> [] \<Longrightarrow> list_all (\<lambda>w. c \<notin> set w) ws \<Longrightarrow> split_on c (join [c] ws) = ws"
proof (induction ws)
  case (Cons w ws)
  then show ?case
  proof (cases ws)
    case Nil
    have "split_on c w = [w]" using Cons.prems by (induction w) auto
    then show ?thesis by (simp add: Nil)
  next
    case (Cons v vs)
    have "split_on c w = [w]" using Cons.prems Cons by (simp, induction w) auto
    then show ?thesis using Cons Cons.IH Cons.prems by (simp add: join_Cons split_on_append)
  qed
qed simp
lemma split_on_no_slash: "list_all (\<lambda>p. c \<notin> set p) (split_on c s)"
  using split_on_no_sep by (auto simp: list_all_iff)

lemma Clean_no_dotdot: "rooted path \<Longrightarrow> ''..'' \<notin> set (split_on (CHR ''/'') (path_Clean path)) \<and> rooted (path_Clean path)"
proof -
  assume r: "rooted path"
  let ?parts = "rev (clean_parts True [] (split_on (CHR ''/'') path))"
  have parts: "list_all (\<lambda>p. p \<noteq> [] \<and> p \<noteq> ''.'' \<and> p \<noteq> ''..'' \<and> CHR ''/'' \<notin> set p) ?parts"
    using clean_rooted [of "[]", OF _ split_on_no_slash] by (simp add: list_all_iff)
  have clean: "path_Clean path = CHR ''/'' # join ''/'' ?parts"
    using r by (auto simp: path_Clean_def rooted_def Let_def)
  have "''..'' \<notin> set (split_on (CHR ''/'') (join ''/'' ?parts))"
  proof (cases "?parts = []")
    case False
    have "list_all (\<lambda>w. CHR ''/'' \<notin> set w) ?parts" using parts by (auto simp: list_all_iff)
    then show ?thesis using split_on_join [OF False] parts by (auto simp: list_all_iff)
  qed simp
  then show ?thesis by (simp add: clean rooted_def)
qed

lemma enrich_loop_columns:
  "enrich_loop env dir fs rows = (b, rows') \<Longrightarrow>
    map (fd_CodeSnippet_update (\<lambda>_. [])) rows' = map (fd_CodeSnippet_update (\<lambda>_. [])) rows \<and>
    (\<not> b \<longrightarrow> (\<exists>f \<in> set fs. ExtractSnippet (sx_read env) dir (fd_FilePath f) (fd_LineStart f) (fd_LineEnd f) = SnippetPanic))"
proof (induction fs arbitrary: rows)
  case (Cons f fs)
  have update: "map (fd_CodeSnippet_update (\<lambda>_. [])) (UpdateSnippet i s rows) = map (fd_CodeSnippet_update (\<lambda>_. [])) rows" for i s
    unfolding UpdateSnippet_def by (rule map_update_where) simp
  consider (skip) "enrich_loop env dir fs rows = (b, rows')"
    | (panic) "ExtractSnippet (sx_read env) dir (fd_FilePath f) (fd_LineStart f) (fd_LineEnd f) = SnippetPanic" "rows' = rows"
    | (store) s where "enrich_loop env dir fs (UpdateSnippet (fd_ID f) s rows) = (b, rows')"
    using Cons.prems by (auto split: if_splits snippet.splits option.splits)
  then show ?case
  proof cases
    case skip
    from Cons.IH [OF this] show ?thesis by (meson list.set_intros(2))
  next
    case panic
    then show ?thesis by (meson list.set_intros(1))
  next
    case store
    from Cons.IH [OF this] show ?thesis unfolding update by (meson list.set_intros(2))
  qed
qed simp

lemma cloneRepoForSnippet_fs:
  "cloneRepoForSnippet io projectID url scanID fs = (r, fs') \<Longrightarrow> snippet_dir io scanID \<notin> fs \<Longrightarrow>
    (case r of Inl _ \<Rightarrow> fs' = fs | Inr dir \<Rightarrow> dir = snippet_dir io scanID \<and> fs' = insert dir fs)"
  by (auto simp: cloneRepoForSnippet_def snippet_dir_def Let_def split: option.splits prod.splits)

section \<open>Properties\<close>

text \<open>C21: Whatever path a scanner reports, reading its snippet only opens files below the clone:
  two file systems that agree on the cleaned paths inside it, none of which has a component
  that leads upwards, give the same snippet.\<close>

theorem ExtractSnippet_contained:
  assumes "rooted repoDir"
    and "\<And>p. path_inside (path_Clean repoDir) p \<Longrightarrow> ''..'' \<notin> set (split_on (CHR ''/'') p) \<Longrightarrow> read1 p = read2 p"
  shows "ExtractSnippet read1 repoDir filePath lineStart lineEnd = ExtractSnippet read2 repoDir filePath lineStart lineEnd"
proof -
  have "rooted (repoDir @ s)" for s using assms(1) by (auto simp: rooted_def has_prefix_iff)
  then have "rooted (path_Join repoDir (normalizeSnippetPath filePath))"
    using assms(1) Clean_no_dotdot by (cases "repoDir = []") (auto simp: path_Join_def rooted_def)
  then have "''..'' \<notin> set (split_on (CHR ''/'') (snippet_path repoDir filePath))"
    using Clean_no_dotdot by (simp add: snippet_path_def)
  then show ?thesis using assms(2) [of "snippet_path repoDir filePath"]
    by (simp add: ExtractSnippet_def Let_def)
qed

text \<open>The snippet of a file that can be read is the whole file up to 400 lines.  Of a longer one
  it is the lines of the finding with at most eight before and after; but a finding more than
  nine lines behind the end of the file makes the slice panic.\<close>

theorem ExtractSnippet_window:
  assumes "normalizeSnippetPath filePath \<noteq> []" "path_inside (path_Clean repoDir) (snippet_path repoDir filePath)"
    and "read_file (snippet_path repoDir filePath) = Inr data" "1 \<le> lineStart" "lineStart \<le> lineEnd"
  shows "let lines = split_on newline (drop_crlf data); n = int (length lines) in
    if n \<le> 400 then ExtractSnippet read_file repoDir filePath lineStart lineEnd = Snippet (drop_crlf data) 1
    else if lineStart > n + 9 then ExtractSnippet read_file repoDir filePath lineStart lineEnd = SnippetPanic
    else \<exists>before ls after. lines = before @ ls @ after \<and>
      int (length before) = max (lineStart - 8) 1 - 1 \<and> int (length (before @ ls)) = min (lineEnd + 8) n \<and>
      ExtractSnippet read_file repoDir filePath lineStart lineEnd = Snippet (join [newline] ls) (max (lineStart - 8) 1)"
proof -
  let ?lines = "split_on newline (drop_crlf data)" and ?start = "max (lineStart - 8) 1"
  let ?n = "int (length ?lines)"
  let ?stop = "min (lineEnd + 8) ?n"
  have ex: "ExtractSnippet read_file repoDir filePath lineStart lineEnd =
      (if ?n \<le> 400 then Snippet (drop_crlf data) 1 else slice_snippet ?lines lineStart lineEnd)"
    using assms by (simp add: ExtractSnippet_def maxPreviewLines_def Let_def)
  have panic: "?n > 400 \<Longrightarrow> ?start - 1 > ?stop \<longleftrightarrow> lineStart > ?n + 9" using assms(4,5) by linarith
  show ?thesis
  proof (cases "?n \<le> 400 \<or> lineStart > ?n + 9")
    case True
    then show ?thesis using ex panic by (auto simp: Let_def slice_snippet_def)
  next
    case False
    let ?before = "take (nat (?start - 1)) ?lines" and ?ls = "drop (nat (?start - 1)) (take (nat ?stop) ?lines)"
    have le: "nat (?start - 1) \<le> nat ?stop" using panic False by linarith
    have "?lines = ?before @ ?ls @ drop (nat ?stop) ?lines"
    proof -
      have "take (nat ?stop) ?lines = take (nat (?start - 1)) (take (nat ?stop) ?lines) @ ?ls" by (rule append_take_drop_id [symmetric])
      then have "take (nat ?stop) ?lines = ?before @ ?ls" using le by (simp add: min_def)
      then show ?thesis by (metis append.assoc append_take_drop_id)
    qed
    moreover have "int (length ?before) = ?start - 1"
    proof -
      have "nat (?start - 1) \<le> length ?lines" using le by linarith
      then have "length ?before = nat (?start - 1)" by simp
      then show ?thesis by linarith
    qed
    moreover have "int (length (?before @ ?ls)) = ?stop"
    proof -
      have "length (?before @ ?ls) = nat ?stop" using le by simp
      then show ?thesis using assms(4,5) by linarith
    qed
    moreover have "ExtractSnippet read_file repoDir filePath lineStart lineEnd = Snippet (join [newline] ?ls) ?start"
      using ex panic False by (simp add: slice_snippet_def Let_def)
    ultimately show ?thesis using False unfolding Let_def by (metis (no_types, lifting))
  qed
qed

text \<open>The enrichment is best effort: it leaves no clone behind and changes nothing of the findings
  but their snippets; the task only fails when the extraction of a snippet panics.\<close>

theorem HandleSnippetEnrich_best_effort:
  assumes "HandleSnippetEnrich env scanID scans rows fs = (r, rows', fs')"
    and "snippet_dir (sx_clone env) scanID \<notin> fs"
  shows "fs' = fs \<and> map (fd_CodeSnippet_update (\<lambda>_. [])) rows' = map (fd_CodeSnippet_update (\<lambda>_. [])) rows \<and>
    (r \<noteq> None \<longrightarrow> (\<exists>f \<in> set rows. fd_ScanID f = scanID \<and> ExtractSnippet (sx_read env)
      (snippet_dir (sx_clone env) scanID) (fd_FilePath f) (fd_LineStart f) (fd_LineEnd f) = SnippetPanic))"
proof -
  let ?dir = "snippet_dir (sx_clone env) scanID"
  let ?fs = "filter needs_snippet (GetByScanID scanID rows)"
  consider (same) "r = None" "rows' = rows" "fs' = fs"
    | (loop) b where "enrich_loop env ?dir ?fs rows = (b, rows')" "fs' = insert ?dir fs - {?dir}" "b \<longleftrightarrow> r = None"
  proof (cases "Scan_Get scanID scans")
    case None
    then show ?thesis using assms(1) that(1) by (simp add: HandleSnippetEnrich_def)
  next
    case scan: (Some scan)
    show ?thesis
    proof (cases "sx_findings_error env = None \<and> ?fs \<noteq> []")
      case False
      then show ?thesis using assms(1) that(1) scan
        by (cases "sx_findings_error env") (simp_all add: HandleSnippetEnrich_def Let_def)
    next
      case True
      obtain q fs1 where q: "cloneRepoForSnippet (sx_clone env) (sn_Project scan) (sn_Target scan) scanID fs = (q, fs1)" by fastforce
      note fs1 = cloneRepoForSnippet_fs [OF q assms(2)]
      obtain b rows1 where l: "enrich_loop env ?dir ?fs rows = (b, rows1)" by fastforce
      show ?thesis
      proof (cases q)
        case (Inl e)
        then show ?thesis using assms(1) True scan q fs1 that(1) by (simp add: HandleSnippetEnrich_def Let_def)
      next
        case (Inr d)
        then have "d = ?dir" "fs1 = insert ?dir fs" using fs1 by simp_all
        then have "(r, rows', fs') =
            (if b then None else Some ''panic: slice bounds out of range'', rows1, insert ?dir fs - {?dir})"
          unfolding assms(1) [symmetric] using True scan q Inr l by (simp add: HandleSnippetEnrich_def Let_def split: bool.split)
        then have "rows' = rows1" "fs' = insert ?dir fs - {?dir}" "b \<longleftrightarrow> r = None" by (simp_all split: if_splits)
        then show ?thesis using that(2) [of b] l by simp
      qed
    qed
  qed
  then show ?thesis
  proof cases
    case loop
    have sub: "fd_ScanID f = scanID \<and> f \<in> set rows" if "f \<in> set ?fs" for f using that by (simp add: GetByScanID_def)
    note cols = enrich_loop_columns [OF loop(1)]
    have "fs' = fs" using loop(2) assms(2) by simp
    moreover have "r \<noteq> None \<Longrightarrow> \<exists>f \<in> set rows. fd_ScanID f = scanID \<and>
        ExtractSnippet (sx_read env) ?dir (fd_FilePath f) (fd_LineStart f) (fd_LineEnd f) = SnippetPanic"
    proof -
      assume "r \<noteq> None"
      then have "\<not> b" using loop(3) by simp
      then obtain f where "f \<in> set ?fs" "ExtractSnippet (sx_read env) ?dir (fd_FilePath f) (fd_LineStart f) (fd_LineEnd f) = SnippetPanic"
        using cols by blast
      then show ?thesis using sub by blast
    qed
    ultimately show ?thesis using cols by (intro conjI impI) (elim conjE, assumption)+
  qed simp
qed

section \<open>Instances\<close>

theorem ExtractSnippet_contained_witness:
  "ExtractSnippet (\<lambda>p. if p = ''/etc/passwd'' then Inr ''root'' else Inl ''no such file'') ''/tmp/c'' ''../../etc/passwd'' 1 1 =
   ExtractSnippet (\<lambda>p. Inl ''no such file'') ''/tmp/c'' ''../../etc/passwd'' 1 1"
proof (rule ExtractSnippet_contained)
  show "rooted ''/tmp/c''" by (simp add: rooted_def)
  fix p assume "path_inside (path_Clean ''/tmp/c'') p" "''..'' \<notin> set (split_on (CHR ''/'') p)"
  moreover have "path_Clean ''/tmp/c'' = ''/tmp/c''" by code_simp
  ultimately show "(if p = ''/etc/passwd'' then Inr ''root'' else Inl ''no such file'') = Inl ''no such file''"
    by (auto simp: path_inside_def)
qed

theorem ExtractSnippet_window_witness:
  "ExtractSnippet (\<lambda>_. Inr ''x'') ''/tmp/c'' ''a.go'' 1 1 = Snippet ''x'' 1"
proof -
  have "normalizeSnippetPath ''a.go'' \<noteq> []" "path_inside (path_Clean ''/tmp/c'') (snippet_path ''/tmp/c'' ''a.go'')"
    by code_simp+
  then show ?thesis
    using ExtractSnippet_window [of "''a.go''" "''/tmp/c''" "\<lambda>_. Inr ''x''" "''x''" 1 1] by (simp add: Let_def newline_def)
qed

theorem HandleSnippetEnrich_best_effort_witness:
  "\<exists>env r rows' fs'. HandleSnippetEnrich env ''s1'' [] [] {} = (r, rows', fs') \<and> fs' = {}"
proof -
  let ?env = "\<lparr>sx_clone = sample_clone_io, sx_read = (\<lambda>_. Inl ''no such file''), sx_findings_error = None, sx_update_error = (\<lambda>_. None)\<rparr>"
  obtain r rows' fs' where "HandleSnippetEnrich ?env ''s1'' [] [] {} = (r, rows', fs')" by (metis prod_cases3)
  then show ?thesis using HandleSnippetEnrich_best_effort [of ?env "''s1''" "[]" "[]" "{}"] by blast
qed

end
