(* ===== verification/Project_Store.thy ===== *)
theory Project_Store
  imports Finding_Store Policy_Engine "HOL-Library.Product_Lexorder"
begin

text \<open>
  Projects, applications and who may see them
  (\<^verbatim>\<open>src/internal/repository/projects.go\<close>, \<^verbatim>\<open>applications.go\<close>, \<^verbatim>\<open>ownership.go\<close>, \<^verbatim>\<open>helpers.go\<close>,
  \<^verbatim>\<open>src/internal/datascope\<close>, \<^verbatim>\<open>src/internal/secrets\<close> and the middleware
  \<^verbatim>\<open>src/internal/middleware/ownership.go\<close>).  The two unique indexes of the table are the
  predicate \<open>names_unique\<close>; a statement whose result breaks it fails and changes nothing.
  Names are ordered as lists of bytes.  Cryptography is a parameter.
\<close>

section \<open>Tables\<close>

record project_row =
  pw_ID :: string
  pw_Name :: string
  pw_Description :: string
  pw_AppID :: "string option"
  pw_RepoURL :: "string option"
  pw_Provider :: string
  pw_DefaultBranch :: string
  pw_ExternalRepoID :: "string option"
  pw_Token :: "string option"
  pw_TokenExpiresAt :: "int option"
  pw_Tags :: "string list"

record app_row =
  aw_ID :: string
  aw_Name :: string
  aw_Description :: string
  aw_TeamID :: "string option"

record project_create =
  pc_Name :: string
  pc_Description :: string
  pc_RepoURL :: string
  pc_Provider :: string
  pc_DefaultBranch :: string
  pc_Tags :: "string list option"

record project_update =
  pd_Name :: "string option"
  pd_Description :: "string option"
  pd_RepoURL :: "string option"
  pd_Provider :: "string option"
  pd_DefaultBranch :: "string option"
  pd_ExternalRepoID :: "string option"
  pd_AppID :: "string option"
  pd_Tags :: "string list option"

record bulk_result =
  bu_Name :: string
  bu_RepoURL :: string
  bu_ProjectID :: string
  bu_Created :: bool

text \<open>The rows of \<^verbatim>\<open>team_members\<close> are pairs of a team and a user.\<close>

type_synonym members = "(string \<times> string) list"

text \<open>What a list query may return: \<open>None\<close> for an administrator, otherwise what the teams of
  the user own.\<close>

type_synonym scope = "string option"

definition Admin :: scope where
  "Admin = None"

definition ForUser :: "string \<Rightarrow> scope" where
  "ForUser userID = Some userID"

section \<open>Reading\<close>

text \<open>The condition \<open>EXISTS (SELECT 1 FROM team_members tm JOIN apps a ...)\<close> of the queries.\<close>

definition team_app :: "app_row list \<Rightarrow> members \<Rightarrow> string \<Rightarrow> string option \<Rightarrow> bool" where
  "team_app apps members user appID \<longleftrightarrow>
     list_ex (\<lambda>(team, u). u = user \<and>
       list_ex (\<lambda>a. aw_TeamID a = Some team \<and> appID = Some (aw_ID a)) apps) members"

definition scope_allows :: "app_row list \<Rightarrow> members \<Rightarrow> scope \<Rightarrow> string option \<Rightarrow> bool" where
  "scope_allows apps members sco appID \<longleftrightarrow> (case sco of None \<Rightarrow> True | Some u \<Rightarrow> team_app apps members u appID)"

definition ListProjects :: "app_row list \<Rightarrow> members \<Rightarrow> scope \<Rightarrow> string \<Rightarrow> project_row list \<Rightarrow> project_row list" where
  "ListProjects apps members sco appID rows =
     sort_key pw_Name (filter (\<lambda>p. pw_AppID p = Some appID \<and> scope_allows apps members sco (pw_AppID p)) rows)"

definition ListAllProjects :: "app_row list \<Rightarrow> members \<Rightarrow> scope \<Rightarrow> string \<Rightarrow> project_row list \<Rightarrow> project_row list" where
  "ListAllProjects apps members sco appFilter rows =
     (let with_app = (\<lambda>p. pw_AppID p \<noteq> None \<and> scope_allows apps members sco (pw_AppID p));
          standalone = (\<lambda>p. pw_AppID p = None \<and> sco = None)
      in sort_key pw_Name (filter
           (if appFilter = ''with_app'' then with_app
            else if appFilter = ''without_app'' then standalone
            else (\<lambda>p. standalone p \<or> with_app p)) rows))"

definition globToLike :: "string \<Rightarrow> string" where
  "globToLike pattern = concat (map (\<lambda>ch.
     if ch = CHR ''*'' then [percent]
     else if ch = CHR ''?'' then [underscore]
     else if ch = percent \<or> ch = underscore then [backslash, ch]
     else [ch]) pattern)"

definition like_pattern :: "string \<Rightarrow> string" where
  "like_pattern pattern =
     (let p = trim_prefix pattern ''@'' in
      if has_prefix p ''https://'' then globToLike p
      else if contains p ''/'' then ''https://github.com/'' @ globToLike p
      else percent # globToLike p)"

text \<open>\<^verbatim>\<open>ILIKE\<close> ignores letter case; a \<^verbatim>\<open>NULL\<close> address does not match.\<close>

definition ilike :: "string \<Rightarrow> string \<Rightarrow> bool" where
  "ilike s p = like (to_lower s) (to_lower p)"

definition ListStandaloneByPattern ::
  "app_row list \<Rightarrow> members \<Rightarrow> scope \<Rightarrow> string \<Rightarrow> project_row list \<Rightarrow> project_row list" where
  "ListStandaloneByPattern apps members sco pattern rows =
     (if pattern = [] then ListAllProjects apps members sco ''without_app'' rows
      else sort_key pw_Name (filter (\<lambda>p. pw_AppID p = None \<and> sco = None \<and>
        ((case pw_RepoURL p of None \<Rightarrow> False | Some u \<Rightarrow> ilike u (like_pattern pattern)) \<or>
         ilike (pw_Name p) (like_pattern pattern))) rows))"

definition GetProjectByID :: "string \<Rightarrow> project_row list \<Rightarrow> string + project_row" where
  "GetProjectByID pid rows =
     (case row_by pw_ID pid rows of Some p \<Rightarrow> Inr p | None \<Rightarrow> Inl ''get project: no rows in result set'')"

definition GetProjectByName :: "string \<Rightarrow> project_row list \<Rightarrow> project_row option" where
  "GetProjectByName name rows = find (\<lambda>p. pw_Name p = name \<and> pw_AppID p = None) rows"

definition projectsByAppIDs :: "string list \<Rightarrow> project_row list \<Rightarrow> project_row list" where
  "projectsByAppIDs appIDs rows =
     (if appIDs = [] then []
      else sort_key (\<lambda>p. (case pw_AppID p of Some a \<Rightarrow> a | None \<Rightarrow> [], pw_Name p))
        (filter (\<lambda>p. case pw_AppID p of Some a \<Rightarrow> a \<in> set appIDs | None \<Rightarrow> False) rows))"

text \<open>\<^verbatim>\<open>appRepo.List\<close>: the applications of the scope, each with its projects.\<close>

definition App_List :: "app_row list \<Rightarrow> members \<Rightarrow> scope \<Rightarrow> project_row list \<Rightarrow> (app_row \<times> project_row list) list" where
  "App_List apps members sco rows =
     (let visible = filter (\<lambda>a. case sco of None \<Rightarrow> True
            | Some u \<Rightarrow> list_ex (\<lambda>(team, x). aw_TeamID a = Some team \<and> x = u) members) apps;
          projects = projectsByAppIDs (map aw_ID visible) rows
      in map (\<lambda>a. (a, filter (\<lambda>p. pw_AppID p = Some (aw_ID a)) projects)) visible)"

definition App_Get :: "app_row list \<Rightarrow> members \<Rightarrow> string \<Rightarrow> project_row list \<Rightarrow> (app_row \<times> project_row list) option" where
  "App_Get apps members appID rows =
     (case row_by aw_ID appID apps of None \<Rightarrow> None
      | Some a \<Rightarrow> Some (a, ListProjects apps members Admin appID rows))"

section \<open>Writing\<close>

text \<open>The unique indexes: names are unique within an application, and among the projects that
  have none.\<close>

definition project_key :: "project_row \<Rightarrow> string option \<times> string" where
  "project_key p = (pw_AppID p, pw_Name p)"

definition names_unique :: "project_row list \<Rightarrow> bool" where
  "names_unique rows = distinct (map project_key rows)"

definition nilOrUUID :: "string \<Rightarrow> string option" where
  "nilOrUUID s = (if s = [] then None else Some s)"

definition defaultTags :: "string list option \<Rightarrow> string list" where
  "defaultTags tags = (case tags of None \<Rightarrow> [] | Some t \<Rightarrow> t)"

definition new_project :: "string \<Rightarrow> string option \<Rightarrow> project_create \<Rightarrow> project_row" where
  "new_project i appID pc = \<lparr>pw_ID = i, pw_Name = pc_Name pc, pw_Description = pc_Description pc,
     pw_AppID = appID, pw_RepoURL = Some (pc_RepoURL pc), pw_Provider = pc_Provider pc,
     pw_DefaultBranch = pc_DefaultBranch pc, pw_ExternalRepoID = None, pw_Token = None,
     pw_TokenExpiresAt = None, pw_Tags = defaultTags (pc_Tags pc)\<rparr>"

definition insert_project ::
  "string \<Rightarrow> string \<Rightarrow> string option \<Rightarrow> project_create \<Rightarrow> project_row list \<Rightarrow> (string + project_row) \<times> project_row list" where
  "insert_project what i appID pc rows =
     (let p = new_project i appID pc in
      if names_unique (rows @ [p]) then (Inr p, rows @ [p])
      else (Inl (what @ '': duplicate key value violates unique constraint''), rows))"

definition CreateProject ::
  "string \<Rightarrow> string \<Rightarrow> project_create \<Rightarrow> project_row list \<Rightarrow> (string + project_row) \<times> project_row list" where
  "CreateProject i appID pc rows = insert_project ''create project'' i (nilOrUUID appID) pc rows"

definition CreateStandaloneProject ::
  "string \<Rightarrow> project_create \<Rightarrow> project_row list \<Rightarrow> (string + project_row) \<times> project_row list" where
  "CreateStandaloneProject i pc rows = insert_project ''create standalone project'' i None pc rows"

text \<open>One \<^verbatim>\<open>INSERT\<close> of many rows with \<^verbatim>\<open>ON CONFLICT DO NOTHING\<close>: a row whose name is taken, also by
  an earlier row of the statement, is skipped.  The rows it returns are those it inserted.\<close>

fun insert_new :: "(project_row list \<Rightarrow> string) \<Rightarrow> string option \<Rightarrow> project_create list \<Rightarrow> project_row list
    \<Rightarrow> project_row list \<times> project_row list" where
  "insert_new new_id appID [] rows = ([], rows)"
| "insert_new new_id appID (pc # pcs) rows =
     (if (appID, pc_Name pc) \<in> project_key ` set rows then insert_new new_id appID pcs rows
      else (let p = new_project (new_id rows) appID pc; (ps, rows') = insert_new new_id appID pcs (rows @ [p])
        in (p # ps, rows')))"

definition BulkCreateProjects ::
  "(project_row list \<Rightarrow> string) \<Rightarrow> string \<Rightarrow> project_create list \<Rightarrow> project_row list \<Rightarrow> bulk_result list \<times> project_row list" where
  "BulkCreateProjects new_id appID pcs rows =
     (if pcs = [] then ([], rows)
      else (case insert_new new_id (nilOrUUID appID) pcs rows of (ps, rows') \<Rightarrow>
        (let created = map_of (rev (map (\<lambda>p. (pw_Name p, pw_ID p)) ps))
         in (map (\<lambda>pc. case created (pc_Name pc) of
               Some i \<Rightarrow> \<lparr>bu_Name = pc_Name pc, bu_RepoURL = pc_RepoURL pc, bu_ProjectID = i, bu_Created = True\<rparr>
             | None \<Rightarrow> \<lparr>bu_Name = pc_Name pc, bu_RepoURL = pc_RepoURL pc, bu_ProjectID = [], bu_Created = False\<rparr>) pcs,
             rows'))))"

definition tagList :: "string list option \<Rightarrow> string" where
  "tagList tags = (case tags of None \<Rightarrow> [] | Some ts \<Rightarrow> ''{'' @ join '','' ts @ ''}'')"

definition nilOrEmpty :: "string option \<Rightarrow> string" where
  "nilOrEmpty s = (case s of None \<Rightarrow> [] | Some t \<Rightarrow> t)"

text \<open>\<open>parse_array\<close> is the cast of the database from text to an array of texts.\<close>

definition update_project :: "(string \<Rightarrow> string list) \<Rightarrow> project_update \<Rightarrow> project_row \<Rightarrow> project_row" where
  "update_project parse_array upd p = p\<lparr>
     pw_Name := coalesce_col (pd_Name upd) (pw_Name p),
     pw_Description := coalesce_col (pd_Description upd) (pw_Description p),
     pw_RepoURL := (case pd_RepoURL upd of Some u \<Rightarrow> Some u | None \<Rightarrow> pw_RepoURL p),
     pw_Provider := coalesce_col (pd_Provider upd) (pw_Provider p),
     pw_DefaultBranch := coalesce_col (pd_DefaultBranch upd) (pw_DefaultBranch p),
     pw_ExternalRepoID := (case pd_ExternalRepoID upd of Some u \<Rightarrow> Some u | None \<Rightarrow> pw_ExternalRepoID p),
     pw_AppID := (if nilOrEmpty (pd_AppID upd) = [] then pw_AppID p else Some (nilOrEmpty (pd_AppID upd))),
     pw_Tags := (if tagList (pd_Tags upd) = [] then pw_Tags p else parse_array (tagList (pd_Tags upd)))\<rparr>"

definition UpdateProject ::
  "(string \<Rightarrow> string list) \<Rightarrow> string \<Rightarrow> project_update \<Rightarrow> project_row list \<Rightarrow> string option \<times> project_row list" where
  "UpdateProject parse_array pid upd rows =
     (let rows' = update_where (\<lambda>p. pw_ID p = pid) (update_project parse_array upd) rows in
      if names_unique rows' then (None, rows')
      else (Some ''duplicate key value violates unique constraint'', rows))"

definition AssignProjectsToApp ::
  "string \<Rightarrow> string list \<Rightarrow> project_row list \<Rightarrow> (string + nat) \<times> project_row list" where
  "AssignProjectsToApp appID projectIDs rows =
     (if projectIDs = [] then (Inr 0, rows)
      else (let chosen = (\<lambda>p. pw_ID p \<in> set projectIDs \<and> pw_AppID p = None);
                rows' = update_where chosen (\<lambda>p. p\<lparr>pw_AppID := nilOrUUID appID\<rparr>) rows in
        if names_unique rows' then (Inr (length (filter chosen rows)), rows')
        else (Inl ''assign projects to app: duplicate key value violates unique constraint'', rows)))"

text \<open>Deleting a row by its identifier, from the tables of a fixed list.\<close>

definition allowedDeleteTables :: "string list" where
  "allowedDeleteTables = [''apps'', ''projects'', ''scan_schedules'', ''teams'', ''users'', ''webhooks'']"

definition DeleteByID :: "('r \<Rightarrow> string) \<Rightarrow> string \<Rightarrow> string \<Rightarrow> 'r list \<Rightarrow> string option \<times> 'r list" where
  "DeleteByID key table i rows =
     (if table \<notin> set allowedDeleteTables then (Some (''delete '' @ table @ '': table not allowed''), rows)
      else if list_ex (\<lambda>r. key r = i) rows then (None, filter (\<lambda>r. key r \<noteq> i) rows)
      else (Some ''no rows in result set'', rows))"

definition DeleteProject :: "string \<Rightarrow> project_row list \<Rightarrow> string option \<times> project_row list" where
  "DeleteProject pid rows = DeleteByID pw_ID ''projects'' pid rows"

section \<open>Secrets\<close>

text \<open>AES-GCM, base64 and hexadecimal, as the library provides them: \<open>kc_open\<close> fails on a text
  that was not sealed with the key and the nonce.\<close>

record crypto =
  kc_hex :: "string \<Rightarrow> string option"
  kc_seal :: "string \<Rightarrow> string \<Rightarrow> string \<Rightarrow> string"
  kc_open :: "string \<Rightarrow> string \<Rightarrow> string \<Rightarrow> string option"
  kc_b64 :: "string \<Rightarrow> string"
  kc_unb64 :: "string \<Rightarrow> string option"

definition secret_prefix :: string where
  "secret_prefix = ''enc:v1:''"

definition nonce_size :: nat where
  "nonce_size = 12"

definition SetKey :: "string \<Rightarrow> string" where
  "SetKey key = trim_space key"

definition newGCM :: "crypto \<Rightarrow> string \<Rightarrow> string + string" where
  "newGCM kc secretKey =
     (if secretKey = [] then Inl ''secret encryption key not configured''
      else (case kc_hex kc secretKey of
          None \<Rightarrow> Inl ''invalid hex key''
        | Some key \<Rightarrow> if length key \<noteq> 32 then Inl ''key must be 32 bytes (64 hex chars)'' else Inr key))"

definition Encrypt :: "crypto \<Rightarrow> string \<Rightarrow> string \<Rightarrow> string \<Rightarrow> string + string" where
  "Encrypt kc secretKey nonce plaintext =
     (let plaintext = trim_space plaintext in
      if plaintext = [] then Inr []
      else (case newGCM kc secretKey of
          Inl e \<Rightarrow> Inl e
        | Inr key \<Rightarrow> Inr (secret_prefix @ kc_b64 kc (nonce @ kc_seal kc key nonce plaintext))))"

definition Decrypt :: "crypto \<Rightarrow> string \<Rightarrow> string \<Rightarrow> string + string" where
  "Decrypt kc secretKey val =
     (let val = trim_space val in
      if val = [] then Inr []
      else if \<not> has_prefix val secret_prefix then Inr val
      else (case newGCM kc secretKey of
          Inl e \<Rightarrow> Inl e
        | Inr key \<Rightarrow> (case kc_unb64 kc (trim_prefix val secret_prefix) of
            None \<Rightarrow> Inl ''illegal base64 data''
          | Some raw \<Rightarrow> if length raw < nonce_size then Inl ''ciphertext too short''
              else (case kc_open kc key (take nonce_size raw) (drop nonce_size raw) of
                  None \<Rightarrow> Inl ''cipher: message authentication failed''
                | Some p \<Rightarrow> Inr p))))"

definition UpdateProjectGitHubToken ::
  "crypto \<Rightarrow> string \<Rightarrow> string \<Rightarrow> string \<Rightarrow> string \<Rightarrow> int option \<Rightarrow> project_row list \<Rightarrow> string option \<times> project_row list" where
  "UpdateProjectGitHubToken kc secretKey nonce pid tok expiresAt rows =
     (if tok = [] then (None, update_where (\<lambda>p. pw_ID p = pid) (\<lambda>p. p\<lparr>pw_Token := None, pw_TokenExpiresAt := None\<rparr>) rows)
      else (case Encrypt kc secretKey nonce tok of
          Inl e \<Rightarrow> (Some (''encrypt token: '' @ e), rows)
        | Inr enc \<Rightarrow> (None, update_where (\<lambda>p. pw_ID p = pid)
            (\<lambda>p. p\<lparr>pw_Token := Some enc, pw_TokenExpiresAt := expiresAt\<rparr>) rows)))"

definition GetProjectGitHubToken :: "crypto \<Rightarrow> string \<Rightarrow> string \<Rightarrow> project_row list \<Rightarrow> string + string" where
  "GetProjectGitHubToken kc secretKey pid rows =
     (case row_by pw_ID pid rows of
        None \<Rightarrow> Inr []
      | Some p \<Rightarrow> (case pw_Token p of
          None \<Rightarrow> Inr []
        | Some t \<Rightarrow> if t = [] then Inr []
            else (case Decrypt kc secretKey t of
                Inl e \<Rightarrow> Inl (''decrypt token: '' @ e)
              | Inr s \<Rightarrow> Inr s)))"

section \<open>Ownership\<close>

text \<open>The tables the checks join; \<open>tn_error\<close> is the error of a query that fails.  A risk
  acceptance is its identifier with that of its finding.\<close>

record tenant_db =
  tn_apps :: "app_row list"
  tn_members :: members
  tn_projects :: "project_row list"
  tn_scans :: "scan_row list"
  tn_findings :: "finding list"
  tn_risks :: "(string \<times> string) list"
  tn_error :: "string option"

text \<open>The rows of \<^verbatim>\<open>projects p JOIN apps a JOIN team_members tm\<close> for a project and a user.\<close>

definition project_join :: "tenant_db \<Rightarrow> string \<Rightarrow> string option \<Rightarrow> unit list" where
  "project_join db userID pid =
     concat (map (\<lambda>p. concat (map (\<lambda>a. concat (map (\<lambda>(team, u).
       if pid = Some (pw_ID p) \<and> pw_AppID p = Some (aw_ID a) \<and> aw_TeamID a = Some team \<and> u = userID then [()] else [])
       (tn_members db))) (tn_apps db))) (tn_projects db))"

definition app_join :: "tenant_db \<Rightarrow> string \<Rightarrow> string \<Rightarrow> unit list" where
  "app_join db userID appID =
     concat (map (\<lambda>a. concat (map (\<lambda>(team, u).
       if aw_ID a = appID \<and> aw_TeamID a = Some team \<and> u = userID then [()] else [])
       (tn_members db))) (tn_apps db))"

definition scan_join :: "tenant_db \<Rightarrow> string \<Rightarrow> string \<Rightarrow> unit list" where
  "scan_join db userID scanID =
     concat (map (\<lambda>s. if sn_ID s = scanID then project_join db userID (sn_Project s) else []) (tn_scans db))"

definition finding_join :: "tenant_db \<Rightarrow> string \<Rightarrow> string \<Rightarrow> unit list" where
  "finding_join db userID findingID =
     concat (map (\<lambda>f. if fd_ID f = findingID then scan_join db userID (fd_ScanID f) else []) (tn_findings db))"

definition risk_join :: "tenant_db \<Rightarrow> string \<Rightarrow> string \<Rightarrow> unit list" where
  "risk_join db userID riskID =
     concat (map (\<lambda>(i, f). if i = riskID then finding_join db userID f else []) (tn_risks db))"

definition count_check :: "tenant_db \<Rightarrow> string \<Rightarrow> unit list \<Rightarrow> string + bool" where
  "count_check db what rows =
     (case tn_error db of Some e \<Rightarrow> Inl (what @ '': '' @ e) | None \<Rightarrow> Inr (length rows > 0))"

definition CheckProjectOwnership :: "tenant_db \<Rightarrow> string \<Rightarrow> string \<Rightarrow> string + bool" where
  "CheckProjectOwnership db userID projectID =
     count_check db ''check project ownership'' (project_join db userID (Some projectID))"

definition CheckAppOwnership :: "tenant_db \<Rightarrow> string \<Rightarrow> string \<Rightarrow> string + bool" where
  "CheckAppOwnership db userID appID = count_check db ''check app ownership'' (app_join db userID appID)"

definition CheckScanOwnership :: "tenant_db \<Rightarrow> string \<Rightarrow> string \<Rightarrow> string + bool" where
  "CheckScanOwnership db userID scanID = count_check db ''check scan ownership'' (scan_join db userID scanID)"

definition CheckFindingOwnership :: "tenant_db \<Rightarrow> string \<Rightarrow> string \<Rightarrow> string + bool" where
  "CheckFindingOwnership db userID findingID =
     count_check db ''check finding ownership'' (finding_join db userID findingID)"

definition CheckRiskAcceptanceOwnership :: "tenant_db \<Rightarrow> string \<Rightarrow> string \<Rightarrow> string + bool" where
  "CheckRiskAcceptanceOwnership db userID riskID =
     count_check db ''check risk acceptance ownership'' (risk_join db userID riskID)"

text \<open>The scope condition of \<^verbatim>\<open>scanRepo.List\<close>, and the total it counts.\<close>

definition scan_visible :: "tenant_db \<Rightarrow> scope \<Rightarrow> scan_row \<Rightarrow> bool" where
  "scan_visible db sco s \<longleftrightarrow> (case sco of None \<Rightarrow> True
    | Some u \<Rightarrow> list_ex (\<lambda>(team, x). x = u \<and> list_ex (\<lambda>a. aw_TeamID a = Some team \<and>
        list_ex (\<lambda>p. pw_AppID p = Some (aw_ID a) \<and> sn_Project s = Some (pw_ID p)) (tn_projects db)) (tn_apps db))
      (tn_members db))"

definition scans_total :: "tenant_db \<Rightarrow> scope \<Rightarrow> nat" where
  "scans_total db sco = length (filter (scan_visible db sco) (tn_scans db))"

section \<open>The ownership middleware\<close>

record claims =
  cm_Sub :: string
  cm_Role :: string
  cm_UserID :: string
  cm_TokenVersion :: int

text \<open>A middleware calls the next handler or answers with a status and a message.\<close>

datatype gate = Next | Refuse nat string

definition roleCapabilities :: "string \<Rightarrow> (bool \<times> bool) option" where
  "roleCapabilities role = map_of [(''admin'', (True, True)), (''viewer'', (True, False))] role"

definition hasCapability :: "string \<Rightarrow> string \<Rightarrow> bool" where
  "hasCapability role cap =
     (case roleCapabilities role of None \<Rightarrow> False | Some (r, w) \<Rightarrow> if cap = ''read'' then r else w)"

fun resource_loop :: "string list \<Rightarrow> string list \<Rightarrow> string" where
  "resource_loop names [] = []"
| "resource_loop names (part # parts) =
     (if part \<in> set names then (case parts of i # _ \<Rightarrow> i | [] \<Rightarrow> []) else resource_loop names parts)"

definition resource_names :: "string \<Rightarrow> string list" where
  "resource_names resourceType =
     (let noHyphen = filter (\<lambda>c. c \<noteq> CHR ''-'') resourceType
      in [resourceType, resourceType @ ''s'', noHyphen, noHyphen @ ''s''])"

definition extractResourceID :: "string \<Rightarrow> string \<Rightarrow> string" where
  "extractResourceID path resourceType = resource_loop (resource_names resourceType) (split_on (CHR ''/'') path)"

definition ownership_of :: "tenant_db \<Rightarrow> string \<Rightarrow> string \<Rightarrow> string \<Rightarrow> (string + bool) option" where
  "ownership_of db resourceType userID i =
     (if resourceType = ''project'' then Some (CheckProjectOwnership db userID i)
      else if resourceType = ''app'' then Some (CheckAppOwnership db userID i)
      else if resourceType = ''scan'' then Some (CheckScanOwnership db userID i)
      else if resourceType = ''finding'' then Some (CheckFindingOwnership db userID i)
      else if resourceType = ''risk-acceptance'' then Some (CheckRiskAcceptanceOwnership db userID i)
      else None)"

definition RequireOwnership :: "tenant_db \<Rightarrow> string \<Rightarrow> claims option \<Rightarrow> string \<Rightarrow> gate" where
  "RequireOwnership db resourceType who path =
     (case who of
        None \<Rightarrow> Refuse 401 ''unauthorized''
      | Some c \<Rightarrow>
          if hasCapability (cm_Role c) ''write'' then Next
          else (let i = extractResourceID path resourceType in
            if i = [] then Refuse 400 ''Resource ID required''
            else (case ownership_of db resourceType (cm_UserID c) i of
                None \<Rightarrow> Refuse 400 ''Unknown resource type''
              | Some (Inl e) \<Rightarrow> Refuse 500 ''Ownership check failed''
              | Some (Inr owned) \<Rightarrow> if \<not> owned then Refuse 403 ''forbidden'' else Next)))"

section \<open>Specifications\<close>

text \<open>A user owns an application if a team of the user owns it, and through it its projects,
  their scans and the findings of these.\<close>

definition owns_app :: "tenant_db \<Rightarrow> string \<Rightarrow> string \<Rightarrow> bool" where
  "owns_app db u appID \<longleftrightarrow> (\<exists>a \<in> set (tn_apps db). \<exists>team. aw_ID a = appID \<and> aw_TeamID a = Some team \<and>
     (team, u) \<in> set (tn_members db))"

definition owns_project :: "tenant_db \<Rightarrow> string \<Rightarrow> string \<Rightarrow> bool" where
  "owns_project db u pid \<longleftrightarrow> (\<exists>p \<in> set (tn_projects db). \<exists>appID. pw_ID p = pid \<and> pw_AppID p = Some appID \<and> owns_app db u appID)"

definition owns_scan :: "tenant_db \<Rightarrow> string \<Rightarrow> string \<Rightarrow> bool" where
  "owns_scan db u scanID \<longleftrightarrow> (\<exists>s \<in> set (tn_scans db). \<exists>pid. sn_ID s = scanID \<and> sn_Project s = Some pid \<and> owns_project db u pid)"

definition owns_finding :: "tenant_db \<Rightarrow> string \<Rightarrow> string \<Rightarrow> bool" where
  "owns_finding db u findingID \<longleftrightarrow> (\<exists>f \<in> set (tn_findings db). fd_ID f = findingID \<and> owns_scan db u (fd_ScanID f))"

text \<open>A glob pattern, with its two wildcards.\<close>

fun glob_match :: "string \<Rightarrow> string \<Rightarrow> bool" where
  "glob_match s [] = (s = [])"
| "glob_match s (p # ps) =
     (if p = CHR ''*'' then glob_match s ps \<or> (case s of [] \<Rightarrow> False | _ # s' \<Rightarrow> glob_match s' (p # ps))
      else if p = CHR ''?'' then (case s of [] \<Rightarrow> False | _ # s' \<Rightarrow> glob_match s' ps)
      else (case s of [] \<Rightarrow> False | c # s' \<Rightarrow> c = p \<and> glob_match s' ps))"

definition crypto_ok :: "crypto \<Rightarrow> bool" where
  "crypto_ok kc \<longleftrightarrow> (\<forall>key nonce p. kc_open kc key nonce (kc_seal kc key nonce p) = Some p) \<and>
     (\<forall>x. kc_unb64 kc (kc_b64 kc x) = Some x) \<and> (\<forall>x. x \<noteq> [] \<longrightarrow> plain_token (kc_b64 kc x))"

section \<open>Lemmas\<close>

lemma app_join_owns: "app_join db u appID \<noteq> [] \<longleftrightarrow> owns_app db u appID"
  by (fastforce simp: app_join_def owns_app_def split: if_splits)

lemma project_join_owns: "project_join db u (Some pid) \<noteq> [] \<longleftrightarrow> owns_project db u pid"
  by (fastforce simp: project_join_def owns_project_def owns_app_def split: if_splits)

lemma scan_join_owns: "scan_join db u scanID \<noteq> [] \<longleftrightarrow> owns_scan db u scanID"
proof -
  have "scan_join db u scanID \<noteq> [] \<longleftrightarrow> (\<exists>s \<in> set (tn_scans db). sn_ID s = scanID \<and> project_join db u (sn_Project s) \<noteq> [])"
    by (auto simp: scan_join_def)
  moreover have "project_join db u None = []" by (auto simp: project_join_def)
  ultimately show ?thesis unfolding owns_scan_def
    by (metis (no_types, opaque_lifting) not_None_eq project_join_owns)
qed

lemma finding_join_owns: "finding_join db u findingID \<noteq> [] \<longleftrightarrow> owns_finding db u findingID"
  unfolding owns_finding_def scan_join_owns [symmetric] by (auto simp: finding_join_def)

lemma count_check_ok: "tn_error db = None \<Longrightarrow> count_check db what rows = Inr (rows \<noteq> [])"
  by (simp add: count_check_def)

lemmas check_owns = CheckProjectOwnership_def CheckAppOwnership_def CheckScanOwnership_def
  CheckFindingOwnership_def project_join_owns app_join_owns scan_join_owns finding_join_owns

lemma team_app_owns: "team_app (tn_apps db) (tn_members db) u appID \<longleftrightarrow> (\<exists>a. appID = Some a \<and> owns_app db u a)"
  by (auto simp: team_app_def owns_app_def list_ex_iff)

lemma owns_project_row:
  assumes "distinct (map pw_ID (tn_projects db))" "p \<in> set (tn_projects db)"
  shows "owns_project db u (pw_ID p) \<longleftrightarrow> (\<exists>a. pw_AppID p = Some a \<and> owns_app db u a)"
  using assms unfolding owns_project_def by (metis distinct_map inj_onD)

lemma scan_visible_owns: "scan_visible db (Some u) s \<longleftrightarrow> (\<exists>pid. sn_Project s = Some pid \<and> owns_project db u pid)"
  unfolding scan_visible_def owns_project_def owns_app_def by (fastforce simp: list_ex_iff)

lemma owns_scan_row:
  assumes "distinct (map sn_ID (tn_scans db))" "s \<in> set (tn_scans db)"
  shows "owns_scan db u (sn_ID s) \<longleftrightarrow> (\<exists>pid. sn_Project s = Some pid \<and> owns_project db u pid)"
  using assms unfolding owns_scan_def by (metis distinct_map inj_onD)

lemma resource_loop_skip: "part \<notin> set names \<Longrightarrow> resource_loop names (part # parts) = resource_loop names parts"
  by simp

lemma split_on_single: "c \<notin> set w \<Longrightarrow> split_on c w = [w]"
  by (induction w) auto

lemma split_on_segment:
  assumes "CHR ''/'' \<notin> set i" "rest = [] \<or> hd rest = CHR ''/''"
  shows "\<exists>parts. split_on (CHR ''/'') (i @ rest) = i # parts"
proof (cases rest)
  case Nil
  then show ?thesis using split_on_single [OF assms(1)] by simp
next
  case (Cons c r)
  then show ?thesis using assms split_on_append [of "CHR ''/''" i r] split_on_single [OF assms(1)] by simp
qed

lemma extract_route:
  assumes "rt \<in> {''project'', ''app'', ''scan'', ''finding''}" "CHR ''/'' \<notin> set i" "rest = [] \<or> hd rest = CHR ''/''"
  shows "extractResourceID (''/api/'' @ rt @ ''s/'' @ i @ rest) rt = i"
proof -
  obtain parts where parts: "split_on (CHR ''/'') (i @ rest) = i # parts" using split_on_segment [OF assms(2,3)] by blast
  have "split_on (CHR ''/'') (''/api/'' @ rt @ ''s/'' @ i @ rest) = [] # ''api'' # (rt @ ''s'') # i # parts"
    using assms(1) by (elim insertE) (simp_all add: parts)
  then show ?thesis using assms(1)
    by (elim insertE) (simp_all add: extractResourceID_def resource_names_def Let_def)
qed

lemma like_glob: "backslash \<notin> set p \<Longrightarrow> like s (globToLike p) = glob_match s p"
proof (induction s p rule: glob_match.induct)
  case (1 s)
  then show ?case by (simp add: globToLike_def)
next
  case (2 s c ps)
  note special = percent_def underscore_def backslash_def
  have step: "globToLike (d # ds) = (if d = CHR ''*'' then [percent] else if d = CHR ''?'' then [underscore]
      else if d = percent \<or> d = underscore then [backslash, d] else [d]) @ globToLike ds" for d ds
    by (simp add: globToLike_def)
  have ps: "backslash \<notin> set ps" "c \<noteq> backslash" using 2(5) by auto
  consider (star) "c = CHR ''*''" | (one) "c = CHR ''?''" | (lit) "c \<noteq> CHR ''*''" "c \<noteq> CHR ''?''" by blast
  then show ?case
  proof cases
    case star
    have "like s (percent # globToLike ps) \<longleftrightarrow>
        like s (globToLike ps) \<or> (case s of [] \<Rightarrow> False | _ # s' \<Rightarrow> like s' (percent # globToLike ps))"
      by (subst like.simps) simp
    moreover have "glob_match s (CHR ''*'' # ps) \<longleftrightarrow>
        glob_match s ps \<or> (case s of [] \<Rightarrow> False | _ # s' \<Rightarrow> glob_match s' (CHR ''*'' # ps))"
      by (subst glob_match.simps) simp
    moreover have "like s (globToLike ps) = glob_match s ps" using 2(1) star ps by simp
    moreover have "like s' (percent # globToLike ps) = glob_match s' (CHR ''*'' # ps)" if "s = x # s'" for x s'
      using 2(2) [OF star that] 2(5) star by (simp add: step del: like.simps glob_match.simps)
    ultimately show ?thesis using star by (simp add: step del: like.simps glob_match.simps split: list.split)
  next
    case one
    have "like s' (globToLike ps) = glob_match s' ps" if "s = x # s'" for x s'
      using 2(3) [OF _ one that] one ps by simp
    then show ?thesis using one by (cases s) (simp_all add: step special)
  next
    case lit
    have "like s' (globToLike ps) = glob_match s' ps" if "s = x # s'" for x s'
      using 2(4) [OF lit that] ps by simp
    then show ?thesis using lit ps(2) by (cases s) (auto simp: step special)
  qed
qed

subsection \<open>Names\<close>

lemma insert_new_keys:
  "names_unique rows \<Longrightarrow> insert_new new_id appID pcs rows = (ps, rows') \<Longrightarrow>
    names_unique rows' \<and> rows' = rows @ ps \<and>
    project_key ` set rows' = project_key ` set rows \<union> (\<lambda>pc. (appID, pc_Name pc)) ` set pcs \<and>
    pw_Name ` set ps = {n \<in> pc_Name ` set pcs. (appID, n) \<notin> project_key ` set rows}"
proof (induction new_id appID pcs rows arbitrary: ps rows' rule: insert_new.induct)
  case (1 new_id appID rows)
  then show ?case by simp
next
  case (2 new_id appID pc pcs rows)
  show ?case
  proof (cases "(appID, pc_Name pc) \<in> project_key ` set rows")
    case True
    then have "insert_new new_id appID pcs rows = (ps, rows')" using "2.prems"(2) by simp
    note IH = "2.IH"(1) [OF True "2.prems"(1) this]
    have e1: "{n \<in> pc_Name ` set (pc # pcs). (appID, n) \<notin> project_key ` set rows} =
        {n \<in> pc_Name ` set pcs. (appID, n) \<notin> project_key ` set rows}" using True by auto
    have e2: "project_key ` set rows \<union> (\<lambda>pc. (appID, pc_Name pc)) ` set (pc # pcs) =
        project_key ` set rows \<union> (\<lambda>pc. (appID, pc_Name pc)) ` set pcs" using True by auto
    show ?thesis unfolding e1 e2 by (rule IH)
  next
    case False
    define p where "p = new_project (new_id rows) appID pc"
    have key: "project_key p = (appID, pc_Name pc)" "pw_Name p = pc_Name pc"
      by (simp_all add: p_def new_project_def project_key_def)
    obtain qs where qs: "insert_new new_id appID pcs (rows @ [p]) = (qs, rows')" and ps: "ps = p # qs"
      using "2.prems"(2) False by (auto simp: Let_def p_def split: prod.splits)
    have "names_unique (rows @ [p])" using "2.prems"(1) False key by (simp add: names_unique_def)
    note IH = "2.IH"(2) [OF False p_def this qs]
    have "pw_Name ` set ps = insert (pc_Name pc) {n \<in> pc_Name ` set pcs. (appID, n) \<notin> insert (appID, pc_Name pc) (project_key ` set rows)}"
      using IH key by (simp add: ps)
    also have "\<dots> = {n \<in> pc_Name ` set (pc # pcs). (appID, n) \<notin> project_key ` set rows}" using False by auto
    finally have names: "pw_Name ` set ps = \<dots>" .
    have "project_key ` set rows' = project_key ` set (rows @ [p]) \<union> (\<lambda>pc. (appID, pc_Name pc)) ` set pcs"
      using IH by (elim conjE)
    then have keys: "project_key ` set rows' = project_key ` set rows \<union> (\<lambda>pc. (appID, pc_Name pc)) ` set (pc # pcs)"
      by (simp add: key)
    have "rows' = rows @ ps" "names_unique rows'" using IH by (simp add: ps, elim conjE)
    then show ?thesis using names keys by (intro conjI)
  qed
qed

lemma map_of_rev_Some: "map_of (rev (map (\<lambda>p. (f p, g p)) ps)) k \<noteq> None \<longleftrightarrow> k \<in> f ` set ps"
  by (auto simp: map_of_eq_None_iff image_image)

lemma names_unique_DeleteProject: "names_unique rows \<Longrightarrow> names_unique (snd (DeleteProject i rows))"
  by (simp add: names_unique_def DeleteProject_def DeleteByID_def distinct_map_filter)

inductive project_step :: "project_row list \<Rightarrow> project_row list \<Rightarrow> bool" where
  create: "project_step rows (snd (CreateProject i appID pc rows))"
| standalone: "project_step rows (snd (CreateStandaloneProject i pc rows))"
| bulk: "project_step rows (snd (BulkCreateProjects new_id appID pcs rows))"
| update: "project_step rows (snd (UpdateProject parse_array i upd rows))"
| assign: "project_step rows (snd (AssignProjectsToApp appID is rows))"
| set_token: "project_step rows (snd (UpdateProjectGitHubToken kc key nonce i tok expires rows))"
| delete: "project_step rows (snd (DeleteProject i rows))"

lemma bulk_rows: "snd (BulkCreateProjects new_id appID pcs rows) = snd (insert_new new_id (nilOrUUID appID) pcs rows)"
  by (simp add: BulkCreateProjects_def Let_def split: prod.split)

lemma names_unique_token: "names_unique rows \<Longrightarrow> names_unique (snd (UpdateProjectGitHubToken kc key nonce i tok expires rows))"
proof -
  have "map project_key (snd (UpdateProjectGitHubToken kc key nonce i tok expires rows)) = map project_key rows"
    by (auto simp: UpdateProjectGitHubToken_def project_key_def map_update_where split: sum.split)
  then show "names_unique rows \<Longrightarrow> ?thesis" by (simp add: names_unique_def)
qed

interpretation projects: invariant_machine "\<lambda>rows. rows = []" project_step names_unique
proof unfold_locales
  fix rows rows' :: "project_row list"
  assume "names_unique rows" "project_step rows rows'"
  from this(2,1) show "names_unique rows'"
  proof cases
    case (bulk new_id appID pcs)
    obtain ps rows1 where "insert_new new_id (nilOrUUID appID) pcs rows = (ps, rows1)" by fastforce
    then show ?thesis using insert_new_keys [OF \<open>names_unique rows\<close>] bulk by (simp add: bulk_rows)
  qed (simp_all add: CreateProject_def CreateStandaloneProject_def insert_project_def UpdateProject_def
      AssignProjectsToApp_def Let_def names_unique_token names_unique_DeleteProject)
qed (simp add: names_unique_def)

subsection \<open>Secrets\<close>

lemma Decrypt_Encrypt:
  assumes "crypto_ok kc" "newGCM kc secretKey = Inr key" "length nonce = nonce_size"
    and "Encrypt kc secretKey nonce tok = Inr enc"
  shows "Decrypt kc secretKey enc = Inr (trim_space tok) \<and> (enc = [] \<longleftrightarrow> trim_space tok = [])"
proof (cases "trim_space tok = []")
  case True
  then show ?thesis using assms(4) by (simp add: Encrypt_def Decrypt_def)
next
  case False
  let ?raw = "nonce @ kc_seal kc key nonce (trim_space tok)"
  have enc: "enc = secret_prefix @ kc_b64 kc ?raw" using assms(2,4) False by (simp add: Encrypt_def)
  have "?raw \<noteq> []" using assms(3) by (auto simp: nonce_size_def)
  then have "plain_token (kc_b64 kc ?raw)" using assms(1) unfolding crypto_ok_def by blast
  then have "plain_token enc" by (simp add: enc plain_token_def secret_prefix_def)
  then have "trim_space enc = enc" by (rule trim_token)
  moreover have "enc \<noteq> []" by (simp add: enc secret_prefix_def)
  ultimately show ?thesis using assms(1-3) False by (simp add: Decrypt_def enc crypto_ok_def Let_def)
qed

section \<open>Properties\<close>

text \<open>C13: The list queries and the ownership checks agree: what a user without the
  administrator's scope is shown, of applications, projects and scans, is exactly what the
  checks of single resources let that user open.\<close>

theorem scope_matches_ownership:
  assumes "tn_error db = None" "distinct (map aw_ID (tn_apps db))"
    and "distinct (map pw_ID (tn_projects db))" "distinct (map sn_ID (tn_scans db))"
  shows "set (map fst (App_List (tn_apps db) (tn_members db) (ForUser u) (tn_projects db))) =
      {a \<in> set (tn_apps db). CheckAppOwnership db u (aw_ID a) = Inr True} \<and>
    set (ListAllProjects (tn_apps db) (tn_members db) (ForUser u) [] (tn_projects db)) =
      {p \<in> set (tn_projects db). CheckProjectOwnership db u (pw_ID p) = Inr True} \<and>
    {s \<in> set (tn_scans db). scan_visible db (ForUser u) s} =
      {s \<in> set (tn_scans db). CheckScanOwnership db u (sn_ID s) = Inr True}"
proof (intro conjI)
  have app: "list_ex (\<lambda>(team, x). aw_TeamID a = Some team \<and> x = u) (tn_members db) \<longleftrightarrow> owns_app db u (aw_ID a)"
    if "a \<in> set (tn_apps db)" for a
  proof -
    have "b = a" if "b \<in> set (tn_apps db)" "aw_ID b = aw_ID a" for b
      using assms(2) that \<open>a \<in> set (tn_apps db)\<close> by (metis distinct_map inj_onD)
    then show ?thesis using that unfolding owns_app_def list_ex_iff by fastforce
  qed
  have "set (map fst (App_List (tn_apps db) (tn_members db) (ForUser u) (tn_projects db))) =
      {a \<in> set (tn_apps db). list_ex (\<lambda>(team, x). aw_TeamID a = Some team \<and> x = u) (tn_members db)}"
    by (simp add: App_List_def ForUser_def Let_def image_image)
  then show "set (map fst (App_List (tn_apps db) (tn_members db) (ForUser u) (tn_projects db))) =
      {a \<in> set (tn_apps db). CheckAppOwnership db u (aw_ID a) = Inr True}"
    using app by (auto simp: check_owns count_check_ok [OF assms(1)])
  show "set (ListAllProjects (tn_apps db) (tn_members db) (ForUser u) [] (tn_projects db)) =
      {p \<in> set (tn_projects db). CheckProjectOwnership db u (pw_ID p) = Inr True}"
    using owns_project_row [OF assms(3)]
    by (auto simp: ListAllProjects_def ForUser_def scope_allows_def check_owns count_check_ok [OF assms(1)] team_app_owns)
  show "{s \<in> set (tn_scans db). scan_visible db (ForUser u) s} =
      {s \<in> set (tn_scans db). CheckScanOwnership db u (sn_ID s) = Inr True}"
    using owns_scan_row [OF assms(4)] by (auto simp: ForUser_def check_owns count_check_ok [OF assms(1)] scan_visible_owns)
qed


text \<open>The route of the risk acceptance of a finding asks the middleware for an identifier
  that follows \<^verbatim>\<open>risk-acceptance\<close> in the path; there is none, so every user who is not an
  administrator is refused, also the owner of the finding.\<close>

theorem risk_route_refused:
  assumes "cm_Role c = ''viewer''" "CHR ''/'' \<notin> set i" "i \<notin> set (resource_names ''risk-acceptance'')"
  shows "RequireOwnership db ''risk-acceptance'' (Some c) (''/api/findings/'' @ i @ ''/risk-acceptance'') =
    Refuse 400 ''Resource ID required''"
proof -
  have "split_on (CHR ''/'') (i @ ''/risk-acceptance'') = [i, ''risk-acceptance'']"
    using split_on_append [of "CHR ''/''" i "''risk-acceptance''"] split_on_single [OF assms(2)] by simp
  then have "split_on (CHR ''/'') (''/api/findings/'' @ i @ ''/risk-acceptance'') = [[], ''api'', ''findings'', i, ''risk-acceptance'']"
    by simp
  then have "extractResourceID (''/api/findings/'' @ i @ ''/risk-acceptance'') ''risk-acceptance'' = []"
    using assms(3) by (simp add: extractResourceID_def resource_names_def Let_def)
  then show ?thesis by (simp add: RequireOwnership_def hasCapability_def roleCapabilities_def assms(1))
qed

text \<open>In every reachable table a name is used once among the projects of an application, and
  once among those of none; after a bulk creation every requested name is in the table, and
  the results call created exactly the names that were not there before.\<close>

theorem BulkCreateProjects_names:
  assumes "project_step\<^sup>*\<^sup>* [] rows" "pcs \<noteq> []"
  shows "names_unique rows \<and>
    (case BulkCreateProjects new_id appID pcs rows of (results, rows') \<Rightarrow>
      names_unique rows' \<and>
      project_key ` set rows' = project_key ` set rows \<union> (\<lambda>pc. (nilOrUUID appID, pc_Name pc)) ` set pcs \<and>
      map (\<lambda>r. (bu_Name r, bu_Created r)) results =
        map (\<lambda>pc. (pc_Name pc, (nilOrUUID appID, pc_Name pc) \<notin> project_key ` set rows)) pcs)"
proof -
  have u: "names_unique rows" using projects.reachable_inv [OF refl assms(1)] .
  obtain ps rows' where ins: "insert_new new_id (nilOrUUID appID) pcs rows = (ps, rows')" by fastforce
  note keys = insert_new_keys [OF u ins]
  let ?created = "map_of (rev (map (\<lambda>p. (pw_Name p, pw_ID p)) ps))"
  have created: "?created (pc_Name pc) \<noteq> None \<longleftrightarrow> (nilOrUUID appID, pc_Name pc) \<notin> project_key ` set rows"
    if "pc \<in> set pcs" for pc
    unfolding map_of_rev_Some using keys that by blast
  obtain results where res: "BulkCreateProjects new_id appID pcs rows = (results, rows')"
    and r: "map (\<lambda>r. (bu_Name r, bu_Created r)) results = map (\<lambda>pc. (pc_Name pc, ?created (pc_Name pc) \<noteq> None)) pcs"
    using assms(2) by (auto simp: BulkCreateProjects_def ins Let_def split: option.split)
  have "map (\<lambda>pc. (pc_Name pc, ?created (pc_Name pc) \<noteq> None)) pcs =
      map (\<lambda>pc. (pc_Name pc, (nilOrUUID appID, pc_Name pc) \<notin> project_key ` set rows)) pcs"
    using created by (intro map_cong) auto
  then show ?thesis unfolding res prod.case using u keys r by (intro conjI) (elim conjE, simp only:)+
qed

text \<open>A glob pattern without a backslash, translated for SQL, matches the texts the pattern
  means: a percent sign or an underscore of the pattern stands for itself.\<close>

theorem globToLike_glob:
  assumes "backslash \<notin> set p"
  shows "like s (globToLike p) \<longleftrightarrow> glob_match s p"
  by (rule like_glob [OF assms])

text \<open>A repository token that was stored can be read back, without the white space around
  it, for every project that exists, with the key it was stored with; a token that is only
  white space reads back as none.\<close>

theorem GitHubToken_roundtrip:
  assumes "crypto_ok kc" "newGCM kc secretKey = Inr key" "length nonce = nonce_size"
    and "row_by pw_ID pid rows = Some p" "tok \<noteq> []"
  shows "\<exists>rows'. UpdateProjectGitHubToken kc secretKey nonce pid tok expiresAt rows = (None, rows') \<and>
    GetProjectGitHubToken kc secretKey pid rows' = Inr (trim_space tok)"
proof -
  obtain enc where enc: "Encrypt kc secretKey nonce tok = Inr enc"
    using assms(2) by (cases "trim_space tok = []") (simp_all add: Encrypt_def)
  note dec = Decrypt_Encrypt [OF assms(1-3) enc]
  let ?f = "\<lambda>p. p\<lparr>pw_Token := Some enc, pw_TokenExpiresAt := expiresAt\<rparr>"
  have "row_by pw_ID pid (update_where (\<lambda>p. pw_ID p = pid) ?f rows) = Some (?f p)"
    using assms(4) row_by_SomeD [OF assms(4)] by (simp add: row_by_update_where)
  then show ?thesis using dec assms(5)
    by (auto simp: UpdateProjectGitHubToken_def enc GetProjectGitHubToken_def)
qed

section \<open>Instances\<close>

definition sample_project :: project_row where
  "sample_project = new_project ''p1'' (Some ''a1'') \<lparr>pc_Name = ''web'', pc_Description = [],
     pc_RepoURL = ''https://github.com/o/web'', pc_Provider = ''github'', pc_DefaultBranch = ''main'', pc_Tags = None\<rparr>"

definition sample_tenant :: tenant_db where
  "sample_tenant = \<lparr>tn_apps = [\<lparr>aw_ID = ''a1'', aw_Name = ''shop'', aw_Description = [], aw_TeamID = Some ''t1''\<rparr>],
     tn_members = [(''t1'', ''u1'')], tn_projects = [sample_project],
     tn_scans = Scan_Insert ''s1'' ''https://github.com/o/web'' ''semgrep'' ''b1'' (Some ''p1'') [],
     tn_findings = [], tn_risks = [], tn_error = None\<rparr>"

definition sample_viewer :: claims where
  "sample_viewer = \<lparr>cm_Sub = ''ann'', cm_Role = ''viewer'', cm_UserID = ''u1'', cm_TokenVersion = 1\<rparr>"

text \<open>Every byte as two letters.\<close>

fun letters :: "string \<Rightarrow> string" where
  "letters [] = []"
| "letters (c # s) = char_of (65 + of_char c div 16 :: nat) # char_of (65 + of_char c mod 16 :: nat) # letters s"

fun unletters :: "string \<Rightarrow> string option" where
  "unletters [] = Some []"
| "unletters [_] = None"
| "unletters (a # b # s) = map_option ((#) (char_of ((of_char a - 65) * 16 + (of_char b - 65) :: nat))) (unletters s)"

definition sample_crypto :: crypto where
  "sample_crypto = \<lparr>kc_hex = (\<lambda>s. Some (take 32 s)), kc_seal = (\<lambda>key nonce p. p), kc_open = (\<lambda>key nonce c. Some c),
     kc_b64 = letters, kc_unb64 = unletters\<rparr>"

lemma letter_range: "n < 16 \<Longrightarrow> of_char (char_of (65 + n :: nat)) = 65 + n"
  by simp

lemma unletters_letters: "unletters (letters s) = Some s"
proof (induction s)
  case (Cons c s)
  have "of_char c div 16 < (16::nat)" using of_char_less [of c] by (simp add: less_mult_imp_div_less)
  moreover have "of_char c mod 16 < (16::nat)" by simp
  ultimately show ?case using Cons by (simp add: letter_range del: char_of_mod_256)
qed simp

lemma letters_plain: "s \<noteq> [] \<Longrightarrow> plain_token (letters s)"
proof (induction s)
  case (Cons c s)
  have "of_char c div 16 < (16::nat)" using of_char_less [of c] by (simp add: less_mult_imp_div_less)
  moreover have "of_char c mod 16 < (16::nat)" by simp
  ultimately show ?case using Cons by (cases s) (simp_all add: plain_token_def letter_range)
qed simp

lemma sample_crypto_ok: "crypto_ok sample_crypto"
  by (simp add: crypto_ok_def sample_crypto_def unletters_letters letters_plain)

theorem scope_matches_ownership_witness:
  "set (ListAllProjects (tn_apps sample_tenant) (tn_members sample_tenant) (ForUser ''u1'') [] (tn_projects sample_tenant)) =
     {p \<in> {sample_project}. CheckProjectOwnership sample_tenant ''u1'' (pw_ID p) = Inr True}"
  using scope_matches_ownership [of sample_tenant "''u1''"]
  by (simp add: sample_tenant_def Scan_Insert_def)


theorem risk_route_refused_witness:
  "RequireOwnership sample_tenant ''risk-acceptance'' (Some sample_viewer) ''/api/findings/f1/risk-acceptance'' =
     Refuse 400 ''Resource ID required''"
  using risk_route_refused [of sample_viewer "''f1''" sample_tenant]
  by (simp add: sample_viewer_def resource_names_def Let_def)

theorem globToLike_glob_witness: "like ''my_repo'' (globToLike ''my_*'') \<longleftrightarrow> glob_match ''my_repo'' ''my_*''"
  using globToLike_glob [of "''my_*''" "''my_repo''"] by (simp add: backslash_def)

theorem BulkCreateProjects_names_witness:
  "case BulkCreateProjects (\<lambda>_. ''p2'') [] [\<lparr>pc_Name = ''web'', pc_Description = [], pc_RepoURL = [], pc_Provider = [],
      pc_DefaultBranch = [], pc_Tags = None\<rparr>] [] of (results, rows') \<Rightarrow>
    map (\<lambda>r. (bu_Name r, bu_Created r)) results = [(''web'', True)]"
  using BulkCreateProjects_names [OF rtranclp.rtrancl_refl, where pcs = "[\<lparr>pc_Name = ''web'', pc_Description = [],
      pc_RepoURL = [], pc_Provider = [], pc_DefaultBranch = [], pc_Tags = None\<rparr>]" and new_id = "\<lambda>_. ''p2''" and appID = "[]"]
  by (auto split: prod.splits)

theorem GitHubToken_roundtrip_witness:
  "\<exists>rows'. UpdateProjectGitHubToken sample_crypto (replicate 64 (CHR ''a'')) (replicate 12 (CHR ''n'')) ''p1'' '' ghp_x '' None [sample_project]
      = (None, rows') \<and>
    GetProjectGitHubToken sample_crypto (replicate 64 (CHR ''a'')) ''p1'' rows' = Inr (trim_space '' ghp_x '')"
proof -
  have "newGCM sample_crypto (replicate 64 (CHR ''a'')) = Inr (replicate 32 (CHR ''a''))"
    by (simp add: newGCM_def sample_crypto_def)
  moreover have "row_by pw_ID ''p1'' [sample_project] = Some sample_project"
    by (simp add: sample_project_def new_project_def)
  ultimately show ?thesis
    using GitHubToken_roundtrip [OF sample_crypto_ok, of "replicate 64 (CHR ''a'')" "replicate 32 (CHR ''a'')"
        "replicate 12 (CHR ''n'')" "''p1''" "[sample_project]" sample_project "'' ghp_x ''" None]
    by (simp add: nonce_size_def)
qed

end
