(* ===== verification/Scan_Intake.thy ===== *)
theory Scan_Intake
  imports Project_Store Scan_Clone Task_Queue
begin

text \<open>
  How scans come to be: the scan requests of the API (\<^verbatim>\<open>src/internal/handlers/scans.go\<close>), the
  schedules with their handlers (\<^verbatim>\<open>src/internal/repository/schedules.go\<close>,
  \<^verbatim>\<open>src/internal/handlers/schedules.go\<close>) and the scheduler of the worker
  (\<^verbatim>\<open>src/internal/tasks/scan_scheduler.go\<close>).  A handler maps a request and the state to a reply
  and the state; a reply is a status with a message, or the body of a success.  A body that
  does not decode is \<open>None\<close>.  Cron expressions and what the database takes for a UUID are
  parameters.
\<close>

section \<open>State and environment\<close>

record audit_row =
  au_UserID :: string
  au_UserEmail :: string
  au_Action :: string
  au_EntityType :: string
  au_EntityID :: string

record schedule =
  sh_ID :: string
  sh_ProjectID :: string
  sh_AppID :: "string option"
  sh_Scanner :: string
  sh_ScannerType :: "string option"
  sh_CronExpr :: string
  sh_Enabled :: bool
  sh_LastRun :: "int option"
  sh_NextRun :: "int option"
  sh_CreatedAt :: int

record intake_state =
  it_scans :: "scan_row list"
  it_queue :: "queued list"
  it_audit :: "audit_row list"
  it_projects :: "project_row list"
  it_schedules :: "schedule list"

record intake_env =
  ik_now :: int
  ik_clone :: clone_io
  ik_uuid_ok :: "string \<Rightarrow> bool"
  ik_scan_id :: "scan_row list \<Rightarrow> string"
  ik_insert_error :: "scan_row list \<Rightarrow> string option"
  ik_batch :: string
  ik_accept :: "queued \<Rightarrow> bool"
  ik_apps :: "app_row list"
  ik_members :: members
  ik_cron :: "string \<Rightarrow> string + (int \<Rightarrow> int)"

type_synonym 'a reply = "(nat \<times> string) + 'a"

definition auditLog :: "claims option \<Rightarrow> string \<Rightarrow> string \<Rightarrow> string \<Rightarrow> intake_state \<Rightarrow> intake_state" where
  "auditLog who action entityType entityID st =
     (case who of None \<Rightarrow> st
      | Some c \<Rightarrow> st\<lparr>it_audit := it_audit st @ [\<lparr>au_UserID = cm_UserID c, au_UserEmail = cm_Sub c,
          au_Action = action, au_EntityType = entityType, au_EntityID = entityID\<rparr>]\<rparr>)"

section \<open>Creating scans\<close>

fun resolveScanners :: "string list \<Rightarrow> string + string list" where
  "resolveScanners [] = Inr []"
| "resolveScanners (s # ss) =
     (case ResolvePack s of
        Some packNames \<Rightarrow> (case resolveScanners ss of Inl e \<Rightarrow> Inl e | Inr r \<Rightarrow> Inr (packNames @ r))
      | None \<Rightarrow> (case Get s of
          Some _ \<Rightarrow> (case resolveScanners ss of Inl e \<Rightarrow> Inl e | Inr r \<Rightarrow> Inr (s # r))
        | None \<Rightarrow> Inl (''unknown scanner: '' @ s)))"

text \<open>The insertion of a scan, with the types of its columns: the batch and the project are UUIDs.\<close>

definition insert_scan ::
  "intake_env \<Rightarrow> string \<Rightarrow> string \<Rightarrow> string \<Rightarrow> string option \<Rightarrow> scan_row list \<Rightarrow> (string + string) \<times> scan_row list" where
  "insert_scan env target scanner batchID projectID scans =
     (if \<not> ik_uuid_ok env batchID \<or> (case projectID of None \<Rightarrow> False | Some p \<Rightarrow> \<not> ik_uuid_ok env p)
      then (Inl ''insert scan: invalid input syntax for type uuid'', scans)
      else (case ik_insert_error env scans of
          Some e \<Rightarrow> (Inl (''insert scan: '' @ e), scans)
        | None \<Rightarrow> (let i = ik_scan_id env scans in (Inr i, Scan_Insert i target scanner batchID projectID scans))))"

definition scan_task :: "string \<Rightarrow> string option \<Rightarrow> string \<Rightarrow> string \<Rightarrow> task" where
  "scan_task scanID projectID target scanner = ScanRun \<lparr>spl_ScanID = scanID,
     spl_ProjectID = (case projectID of None \<Rightarrow> [] | Some p \<Rightarrow> p), spl_Target = target, spl_Scanner = scanner\<rparr>"

fun create_loop ::
  "intake_env \<Rightarrow> string \<Rightarrow> string list \<Rightarrow> string option \<Rightarrow> string \<Rightarrow> string list \<Rightarrow> intake_state
    \<Rightarrow> (string + string list) \<times> intake_state" where
  "create_loop env target [] projectID batchID ids st = (Inr ids, st)"
| "create_loop env target (name # names) projectID batchID ids st =
     (case insert_scan env target name batchID projectID (it_scans st) of
        (Inl e, scans) \<Rightarrow> (Inl (''insert scan: '' @ e), st\<lparr>it_scans := scans\<rparr>)
      | (Inr scanID, scans) \<Rightarrow>
          create_loop env target names projectID batchID (ids @ [scanID])
            (st\<lparr>it_scans := scans,
                it_queue := enqueue (ik_accept env) (scan_task scanID projectID target name) 3 1800 (it_queue st)\<rparr>))"

definition createScanRecords ::
  "intake_env \<Rightarrow> string \<Rightarrow> string list \<Rightarrow> string option \<Rightarrow> string \<Rightarrow> intake_state
    \<Rightarrow> (string + string list \<times> string) \<times> intake_state" where
  "createScanRecords env target scannerNames projectID batchID st =
     (let batchID = (if batchID = [] then ik_batch env else batchID) in
      case create_loop env target scannerNames projectID batchID [] st of
        (Inl e, st') \<Rightarrow> (Inl e, st')
      | (Inr ids, st') \<Rightarrow> (Inr (ids, batchID), st'))"

record scan_request =
  rq_Target :: string
  rq_Scanner :: string
  rq_ProjectID :: string
  rq_AppID :: string

fun app_scans_loop ::
  "intake_env \<Rightarrow> string list \<Rightarrow> string \<Rightarrow> project_row list \<Rightarrow> string list \<Rightarrow> intake_state \<Rightarrow> string list \<times> intake_state" where
  "app_scans_loop env names batchID [] allIDs st = (allIDs, st)"
| "app_scans_loop env names batchID (p # ps) allIDs st =
     (case pw_RepoURL p of
        None \<Rightarrow> app_scans_loop env names batchID ps allIDs st
      | Some url \<Rightarrow>
          if url = [] then app_scans_loop env names batchID ps allIDs st
          else (case createScanRecords env url names (Some (pw_ID p)) batchID st of
              (Inl _, st') \<Rightarrow> app_scans_loop env names batchID ps allIDs st'
            | (Inr (ids, _), st') \<Rightarrow> app_scans_loop env names batchID ps (allIDs @ ids) st'))"

definition createAppScans ::
  "intake_env \<Rightarrow> claims option \<Rightarrow> string \<Rightarrow> string \<Rightarrow> intake_state \<Rightarrow> string list reply \<times> intake_state" where
  "createAppScans env who appID scannerName st =
     (case App_Get (ik_apps env) (ik_members env) appID (it_projects st) of
        None \<Rightarrow> (Inl (404, ''app not found''), st)
      | Some (app, projects) \<Rightarrow>
          (case resolveScanners [scannerName] of
             Inl e \<Rightarrow> (Inl (400, e), st)
           | Inr names \<Rightarrow>
               (case app_scans_loop env names (ik_batch env) projects [] st of
                  (allIDs, st') \<Rightarrow>
                    if allIDs = [] then (Inl (500, ''no scans created - projects may be missing repo URLs''), st')
                    else (Inr allIDs, auditLog who ''scan.create'' ''scan'' (ik_batch env) st'))))"

definition CreateScan ::
  "intake_env \<Rightarrow> claims option \<Rightarrow> scan_request option \<Rightarrow> intake_state \<Rightarrow> string list reply \<times> intake_state" where
  "CreateScan env who body st =
     (case body of
        None \<Rightarrow> (Inl (400, ''invalid body''), st)
      | Some req \<Rightarrow>
          if rq_AppID req \<noteq> [] then createAppScans env who (rq_AppID req) (rq_Scanner req) st
          else if rq_Target req = [] then (Inl (400, ''target or app_id required''), st)
          else (case ValidateGitTarget (ik_clone env) (rq_Target req) of
              Some e \<Rightarrow> (Inl (400, e), st)
            | None \<Rightarrow>
                (let scanner = (if rq_Scanner req = [] then ''semgrep'' else rq_Scanner req) in
                 case resolveScanners [scanner] of
                   Inl e \<Rightarrow> (Inl (400, e), st)
                 | Inr names \<Rightarrow>
                     (case createScanRecords env (rq_Target req) names
                          (if rq_ProjectID req \<noteq> [] then Some (rq_ProjectID req) else None) [] st of
                        (Inl _, st') \<Rightarrow> (Inl (500, ''failed to create scans''), st')
                      | (Inr (ids, batchID), st') \<Rightarrow> (Inr ids, auditLog who ''scan.create'' ''scan'' batchID st')))))"

section \<open>Schedules\<close>

datatype db_error = NoRows | DbError string

record schedule_create =
  sk_ProjectID :: string
  sk_AppID :: "string option"
  sk_Scanner :: string
  sk_ScannerType :: "string option"
  sk_CronExpr :: string

record schedule_update =
  sp_Scanner :: "string option"
  sp_ScannerType :: "string option"
  sp_CronExpr :: "string option"
  sp_Enabled :: "bool option"

definition next_run_key :: "schedule \<Rightarrow> nat \<times> int" where
  "next_run_key s = (case sh_NextRun s of None \<Rightarrow> (0, 0) | Some t \<Rightarrow> (1, t))"

definition schedule_visible :: "tenant_db \<Rightarrow> scope \<Rightarrow> bool \<Rightarrow> schedule \<Rightarrow> bool" where
  "schedule_visible db sco by_app s \<longleftrightarrow> (case sco of None \<Rightarrow> True
    | Some u \<Rightarrow> list_ex (\<lambda>(team, x). x = u \<and> list_ex (\<lambda>a. aw_TeamID a = Some team \<and>
        list_ex (\<lambda>p. pw_AppID p = Some (aw_ID a) \<and>
          (pw_ID p = sh_ProjectID s \<or> by_app \<and> sh_AppID s = Some (aw_ID a))) (tn_projects db)) (tn_apps db))
      (tn_members db))"

definition ListByProject :: "tenant_db \<Rightarrow> scope \<Rightarrow> string \<Rightarrow> schedule list \<Rightarrow> schedule list" where
  "ListByProject db sco projectID rows =
     sort_key (\<lambda>s. - sh_CreatedAt s) (filter (\<lambda>s. schedule_visible db sco False s \<and> sh_ProjectID s = projectID) rows)"

definition ListEnabled :: "tenant_db \<Rightarrow> scope \<Rightarrow> schedule list \<Rightarrow> schedule list" where
  "ListEnabled db sco rows =
     sort_key next_run_key (filter (\<lambda>s. schedule_visible db sco True s \<and> sh_Enabled s) rows)"

definition Schedule_GetByID :: "string \<Rightarrow> schedule list \<Rightarrow> db_error + schedule" where
  "Schedule_GetByID i rows = (case row_by sh_ID i rows of None \<Rightarrow> Inl NoRows | Some s \<Rightarrow> Inr s)"

definition Schedule_Create ::
  "intake_env \<Rightarrow> string \<Rightarrow> schedule_create \<Rightarrow> schedule list \<Rightarrow> (db_error + schedule) \<times> schedule list" where
  "Schedule_Create env i s rows =
     (if (sk_ProjectID s \<noteq> [] \<and> \<not> ik_uuid_ok env (sk_ProjectID s)) \<or>
         (case sk_AppID s of None \<Rightarrow> False | Some a \<Rightarrow> \<not> ik_uuid_ok env a)
      then (Inl (DbError ''create schedule: invalid input syntax for type uuid''), rows)
      else (let r = \<lparr>sh_ID = i, sh_ProjectID = sk_ProjectID s, sh_AppID = sk_AppID s, sh_Scanner = sk_Scanner s,
              sh_ScannerType = sk_ScannerType s, sh_CronExpr = sk_CronExpr s, sh_Enabled = True,
              sh_LastRun = None, sh_NextRun = None, sh_CreatedAt = ik_now env\<rparr>
            in (Inr r, rows @ [r])))"

definition apply_schedule_update :: "schedule_update \<Rightarrow> schedule \<Rightarrow> schedule" where
  "apply_schedule_update upd s = s\<lparr>
     sh_Scanner := coalesce_col (sp_Scanner upd) (sh_Scanner s),
     sh_ScannerType := (case sp_ScannerType upd of Some t \<Rightarrow> Some t | None \<Rightarrow> sh_ScannerType s),
     sh_CronExpr := coalesce_col (sp_CronExpr upd) (sh_CronExpr s),
     sh_Enabled := coalesce_col (sp_Enabled upd) (sh_Enabled s)\<rparr>"

definition no_schedule_update :: "schedule_update \<Rightarrow> bool" where
  "no_schedule_update upd \<longleftrightarrow> sp_Scanner upd = None \<and> sp_ScannerType upd = None \<and> sp_CronExpr upd = None \<and> sp_Enabled upd = None"

text \<open>The statement returns the ten columns of \<^verbatim>\<open>scheduleCols\<close> and the result is read into nine
  variables, which the driver refuses after the statement has run.\<close>

definition Schedule_Update :: "string \<Rightarrow> schedule_update \<Rightarrow> schedule list \<Rightarrow> (db_error + schedule) \<times> schedule list" where
  "Schedule_Update i upd rows =
     (if no_schedule_update upd then (Schedule_GetByID i rows, rows)
      else (case row_by sh_ID i rows of
          None \<Rightarrow> (Inl NoRows, rows)
        | Some _ \<Rightarrow> (Inl (DbError ''update schedule: number of field descriptions must equal number of destinations, got 10 and 9''),
            update_where (\<lambda>s. sh_ID s = i) (apply_schedule_update upd) rows)))"

definition Schedule_Delete :: "string \<Rightarrow> schedule list \<Rightarrow> string option \<times> schedule list" where
  "Schedule_Delete i rows = DeleteByID sh_ID ''scan_schedules'' i rows"

definition is_due :: "int \<Rightarrow> schedule \<Rightarrow> bool" where
  "is_due now s \<longleftrightarrow> sh_Enabled s \<and> (case sh_NextRun s of None \<Rightarrow> True | Some t \<Rightarrow> t \<le> now)"

definition ListDue :: "int \<Rightarrow> schedule list \<Rightarrow> schedule list" where
  "ListDue now rows = take 50 (sort_key next_run_key (filter (is_due now) rows))"

definition MarkRun :: "int \<Rightarrow> string \<Rightarrow> int option \<Rightarrow> schedule list \<Rightarrow> schedule list" where
  "MarkRun now i nextRun rows =
     update_where (\<lambda>s. sh_ID s = i) (\<lambda>s. s\<lparr>sh_LastRun := Some now, sh_NextRun := nextRun\<rparr>) rows"

section \<open>The scheduler\<close>

definition schedule_scanners :: "schedule \<Rightarrow> string list" where
  "schedule_scanners s =
     (case sh_ScannerType s of
        None \<Rightarrow> [sh_Scanner s]
      | Some t \<Rightarrow> if t = [] then [sh_Scanner s]
          else (case ResolvePack t of Some packScanners \<Rightarrow> packScanners | None \<Rightarrow> [sh_Scanner s]))"

fun enqueueScansForProject ::
  "intake_env \<Rightarrow> string \<Rightarrow> string \<Rightarrow> string list \<Rightarrow> intake_state \<Rightarrow> intake_state" where
  "enqueueScansForProject env target projectID [] st = st"
| "enqueueScansForProject env target projectID (name # names) st =
     (case insert_scan env target name ''scheduled'' (Some projectID) (it_scans st) of
        (Inl e, scans) \<Rightarrow> enqueueScansForProject env target projectID names (st\<lparr>it_scans := scans\<rparr>)
      | (Inr scanID, scans) \<Rightarrow>
          enqueueScansForProject env target projectID names
            (st\<lparr>it_scans := scans,
                it_queue := enqueue (ik_accept env) (scan_task scanID (Some projectID) target name) 3 1800 (it_queue st)\<rparr>))"

definition processProjectSchedule :: "intake_env \<Rightarrow> schedule \<Rightarrow> string list \<Rightarrow> intake_state \<Rightarrow> intake_state" where
  "processProjectSchedule env s scanners st =
     (case GetProjectByID (sh_ProjectID s) (it_projects st) of
        Inl _ \<Rightarrow> st
      | Inr p \<Rightarrow> (case pw_RepoURL p of
          None \<Rightarrow> st
        | Some url \<Rightarrow> if url = [] then st else enqueueScansForProject env url (sh_ProjectID s) scanners st))"

fun schedule_projects :: "intake_env \<Rightarrow> string list \<Rightarrow> project_row list \<Rightarrow> intake_state \<Rightarrow> intake_state" where
  "schedule_projects env scanners [] st = st"
| "schedule_projects env scanners (p # ps) st =
     schedule_projects env scanners ps
       (case pw_RepoURL p of
          None \<Rightarrow> st
        | Some url \<Rightarrow> if url = [] then st else enqueueScansForProject env url (pw_ID p) scanners st)"

definition processAppSchedule :: "intake_env \<Rightarrow> string \<Rightarrow> string list \<Rightarrow> intake_state \<Rightarrow> intake_state" where
  "processAppSchedule env appID scanners st =
     (case App_Get (ik_apps env) (ik_members env) appID (it_projects st) of
        None \<Rightarrow> st
      | Some (_, projects) \<Rightarrow> schedule_projects env scanners projects st)"

definition updateScheduleNextRun :: "intake_env \<Rightarrow> schedule \<Rightarrow> intake_state \<Rightarrow> intake_state" where
  "updateScheduleNextRun env s st =
     (let nextRun = (case ik_cron env (sh_CronExpr s) of Inr next_time \<Rightarrow> Some (next_time (ik_now env)) | Inl _ \<Rightarrow> None)
      in st\<lparr>it_schedules := MarkRun (ik_now env) (sh_ID s) nextRun (it_schedules st)\<rparr>)"

fun due_loop :: "intake_env \<Rightarrow> schedule list \<Rightarrow> intake_state \<Rightarrow> intake_state" where
  "due_loop env [] st = st"
| "due_loop env (s # ss) st =
     (let scanners = schedule_scanners s in
      if scanners = [] then due_loop env ss st
      else (let st1 = (case sh_AppID s of
              None \<Rightarrow> processProjectSchedule env s scanners st
            | Some a \<Rightarrow> if a \<noteq> [] then processAppSchedule env a scanners st
                else processProjectSchedule env s scanners st)
        in due_loop env ss (updateScheduleNextRun env s st1)))"

definition runDueSchedules :: "intake_env \<Rightarrow> intake_state \<Rightarrow> intake_state" where
  "runDueSchedules env st = due_loop env (ListDue (ik_now env) (it_schedules st)) st"

section \<open>The handlers of schedules\<close>

record schedule_request =
  sj_ProjectID :: string
  sj_AppID :: string
  sj_Scanner :: string
  sj_ScannerType :: "string option"
  sj_CronExpr :: string

definition validateCronExpr :: "intake_env \<Rightarrow> string \<Rightarrow> string option" where
  "validateCronExpr env expr = (case ik_cron env expr of Inl e \<Rightarrow> Some e | Inr _ \<Rightarrow> None)"

definition ListSchedules :: "tenant_db \<Rightarrow> claims option \<Rightarrow> string \<Rightarrow> schedule list \<Rightarrow> schedule list" where
  "ListSchedules db who projectID rows =
     (let sco = (case who of None \<Rightarrow> Admin | Some c \<Rightarrow> if cm_Role c \<noteq> ''admin'' then ForUser (cm_UserID c) else Admin)
      in if projectID \<noteq> [] then ListByProject db sco projectID rows else ListEnabled db sco rows)"

definition GetSchedule :: "string \<Rightarrow> schedule list \<Rightarrow> schedule reply" where
  "GetSchedule i rows = (case Schedule_GetByID i rows of
      Inl NoRows \<Rightarrow> Inl (404, ''schedule not found'')
    | Inl (DbError _) \<Rightarrow> Inl (500, ''failed to get schedule'')
    | Inr s \<Rightarrow> Inr s)"

definition CreateSchedule ::
  "intake_env \<Rightarrow> string \<Rightarrow> claims option \<Rightarrow> schedule_request option \<Rightarrow> intake_state \<Rightarrow> schedule reply \<times> intake_state" where
  "CreateSchedule env new_id who body st =
     (case body of
        None \<Rightarrow> (Inl (400, ''invalid JSON''), st)
      | Some req \<Rightarrow>
          if sj_ProjectID req = [] \<and> sj_AppID req = [] then (Inl (400, ''project_id or app_id is required''), st)
          else if sj_CronExpr req = [] then (Inl (400, ''cron_expr is required''), st)
          else if sj_Scanner req = [] \<and> sj_ScannerType req = None then (Inl (400, ''scanner or scanner_type is required''), st)
          else (case validateCronExpr env (sj_CronExpr req) of
              Some e \<Rightarrow> (Inl (400, ''invalid cron expression: '' @ e), st)
            | None \<Rightarrow>
                (case Schedule_Create env new_id \<lparr>sk_ProjectID = sj_ProjectID req,
                    sk_AppID = (if sj_AppID req \<noteq> [] then Some (sj_AppID req) else None),
                    sk_Scanner = sj_Scanner req, sk_ScannerType = sj_ScannerType req,
                    sk_CronExpr = sj_CronExpr req\<rparr> (it_schedules st) of
                   (Inl _, rows) \<Rightarrow> (Inl (500, ''failed to create schedule''), st\<lparr>it_schedules := rows\<rparr>)
                 | (Inr s, rows) \<Rightarrow> (Inr s, auditLog who ''schedule.create'' ''schedule'' (sh_ID s) (st\<lparr>it_schedules := rows\<rparr>)))))"

definition UpdateSchedule ::
  "intake_env \<Rightarrow> string \<Rightarrow> claims option \<Rightarrow> schedule_update option \<Rightarrow> intake_state \<Rightarrow> schedule reply \<times> intake_state" where
  "UpdateSchedule env i who body st =
     (case body of
        None \<Rightarrow> (Inl (400, ''invalid JSON''), st)
      | Some req \<Rightarrow>
          (case (case sp_CronExpr req of None \<Rightarrow> None | Some e \<Rightarrow> validateCronExpr env e) of
             Some e \<Rightarrow> (Inl (400, ''invalid cron expression: '' @ e), st)
           | None \<Rightarrow>
               (case Schedule_Update i req (it_schedules st) of
                  (Inl NoRows, rows) \<Rightarrow> (Inl (404, ''schedule not found''), st\<lparr>it_schedules := rows\<rparr>)
                | (Inl (DbError _), rows) \<Rightarrow> (Inl (500, ''failed to update schedule''), st\<lparr>it_schedules := rows\<rparr>)
                | (Inr s, rows) \<Rightarrow> (Inr s, auditLog who ''schedule.update'' ''schedule'' i (st\<lparr>it_schedules := rows\<rparr>)))))"

definition DeleteSchedule :: "string \<Rightarrow> claims option \<Rightarrow> intake_state \<Rightarrow> unit reply \<times> intake_state" where
  "DeleteSchedule i who st =
     (case Schedule_Delete i (it_schedules st) of
        (None, rows) \<Rightarrow> (Inr (), auditLog who ''schedule.delete'' ''schedule'' i (st\<lparr>it_schedules := rows\<rparr>))
      | (Some e, rows) \<Rightarrow> (Inl (if e = ''no rows in result set'' then (404, ''schedule not found'')
            else (500, ''failed to delete schedule'')), st\<lparr>it_schedules := rows\<rparr>))"

section \<open>Specifications\<close>

text \<open>The scans of a batch, one for each scanner: identifiers are taken from the table as it
  grows.\<close>

fun batch_rows :: "intake_env \<Rightarrow> string \<Rightarrow> string option \<Rightarrow> string \<Rightarrow> string list \<Rightarrow> scan_row list \<Rightarrow> scan_row list" where
  "batch_rows env target projectID batchID [] scans = []"
| "batch_rows env target projectID batchID (name # names) scans =
     (let scans' = Scan_Insert (ik_scan_id env scans) target name batchID projectID scans
      in last scans' # batch_rows env target projectID batchID names scans')"

definition row_task :: "scan_row \<Rightarrow> task" where
  "row_task s = scan_task (sn_ID s) (sn_Project s) (sn_Target s) (sn_Scanner s)"

definition enqueue_all :: "(queued \<Rightarrow> bool) \<Rightarrow> task list \<Rightarrow> queued list \<Rightarrow> queued list" where
  "enqueue_all accept ts q = q @ filter accept (map (\<lambda>t. \<lparr>q_task = t, q_retry = 3, q_timeout = 1800\<rparr>) ts)"

text \<open>What a scheduler tick does to the schedules it handles.\<close>

definition next_of :: "intake_env \<Rightarrow> schedule \<Rightarrow> int option" where
  "next_of env s = (case ik_cron env (sh_CronExpr s) of Inr next_time \<Rightarrow> Some (next_time (ik_now env)) | Inl _ \<Rightarrow> None)"

section \<open>Lemmas\<close>

lemma pack_registered: "ResolvePack pid = Some ns \<Longrightarrow> ns \<noteq> [] \<and> list_all (\<lambda>n. Get n \<noteq> None) ns"
proof -
  assume "ResolvePack pid = Some ns"
  then have "ns \<noteq> [] \<and> list_all (\<lambda>n. n \<in> set (map fst Registry)) ns"
    unfolding ResolvePack_table by (simp add: registry_keys GitScannerNames_eq split: if_splits) auto
  moreover have "Get n \<noteq> None" if "n \<in> set (map fst Registry)" for n using registered_Get [OF that] by auto
  ultimately show ?thesis by (auto simp only: list_all_iff)
qed

lemma resolve_registered: "resolveScanners names = Inr ns \<Longrightarrow> list_all (\<lambda>n. Get n \<noteq> None) ns"
proof (induction names arbitrary: ns)
  case (Cons s ss)
  then show ?case
    by (cases "ResolvePack s"; cases "Get s"; cases "resolveScanners ss") (auto dest: pack_registered)
qed simp

lemma schedule_scanners_nonempty [simp]: "schedule_scanners s \<noteq> []"
  using pack_registered by (auto simp: schedule_scanners_def split: option.splits)

subsection \<open>Batches\<close>

lemma enqueue_all_Cons: "enqueue_all accept ts (enqueue accept t 3 1800 q) = enqueue_all accept (t # ts) q"
  by (simp add: enqueue_all_def enqueue_def Let_def)

lemma insert_scan_cases:
  "insert_scan env target name batchID projectID scans = (r, scans') \<Longrightarrow>
    (case r of Inl _ \<Rightarrow> scans' = scans
     | Inr i \<Rightarrow> i = ik_scan_id env scans \<and> scans' = Scan_Insert i target name batchID projectID scans)"
  by (auto simp: insert_scan_def Let_def split: if_splits option.splits)

lemma last_batch_row: "last (Scan_Insert i target name batchID projectID scans) =
    \<lparr>sn_ID = i, sn_Target = target, sn_Scanner = name, sn_Status = ''pending'', sn_Batch = batchID, sn_Project = projectID,
     sn_Error = None, sn_Log = None, sn_Started = None, sn_Completed = None\<rparr>"
  by (simp add: Scan_Insert_def)

lemma batch_rows_columns:
  "map sn_Scanner (batch_rows env target projectID batchID names scans) = names"
  "list_all (\<lambda>s. sn_Status s = ''pending'' \<and> sn_Target s = target \<and> sn_Batch s = batchID \<and> sn_Project s = projectID)
     (batch_rows env target projectID batchID names scans)"
  by (induction names arbitrary: scans) (simp_all add: Let_def last_batch_row)

lemma create_loop_batch:
  "create_loop env target names projectID batchID ids st = (r, st') \<Longrightarrow>
    \<exists>done_names. prefix done_names names \<and>
      (let rows = batch_rows env target projectID batchID done_names (it_scans st) in
       st' = st\<lparr>it_scans := it_scans st @ rows, it_queue := enqueue_all (ik_accept env) (map row_task rows) (it_queue st)\<rparr> \<and>
       (case r of Inl _ \<Rightarrow> done_names \<noteq> names | Inr ids' \<Rightarrow> done_names = names \<and> ids' = ids @ map sn_ID rows))"
proof (induction names arbitrary: ids st)
  case Nil
  then show ?case by (intro exI [of _ "[]"]) (auto simp: enqueue_all_def)
next
  case (Cons name names)
  obtain i scans where ins: "insert_scan env target name batchID projectID (it_scans st) = (i, scans)" by fastforce
  note ins_cases = insert_scan_cases [OF ins]
  show ?case
  proof (cases i)
    case (Inl e)
    then show ?thesis using Cons.prems ins ins_cases by (intro exI [of _ "[]"]) (auto simp: enqueue_all_def)
  next
    case (Inr scanID)
    let ?st = "st\<lparr>it_scans := scans, it_queue := enqueue (ik_accept env) (scan_task scanID projectID target name) 3 1800 (it_queue st)\<rparr>"
    have "create_loop env target names projectID batchID (ids @ [scanID]) ?st = (r, st')"
      using Cons.prems ins Inr by simp
    from Cons.IH [OF this] obtain ns where ns: "prefix ns names"
      "let rows = batch_rows env target projectID batchID ns scans in
       st' = ?st\<lparr>it_scans := scans @ rows, it_queue := enqueue_all (ik_accept env) (map row_task rows) (it_queue ?st)\<rparr> \<and>
       (case r of Inl _ \<Rightarrow> ns \<noteq> names | Inr ids' \<Rightarrow> ns = names \<and> ids' = (ids @ [scanID]) @ map sn_ID rows)" by auto
    have scans: "scans = it_scans st @ [last scans]" "scans = Scan_Insert scanID target name batchID projectID (it_scans st)"
      "scanID = ik_scan_id env (it_scans st)"
      using ins_cases Inr by (auto simp: Scan_Insert_def)
    have row: "row_task (last scans) = scan_task scanID projectID target name" "sn_ID (last scans) = scanID"
      by (simp_all add: row_task_def scans(2) last_batch_row)
    have rows: "batch_rows env target projectID batchID (name # ns) (it_scans st) =
        last scans # batch_rows env target projectID batchID ns scans"
      by (simp add: Let_def scans(2,3))
    show ?thesis
    proof (intro exI [of _ "name # ns"] conjI)
      show "let rows = batch_rows env target projectID batchID (name # ns) (it_scans st) in
         st' = st\<lparr>it_scans := it_scans st @ rows, it_queue := enqueue_all (ik_accept env) (map row_task rows) (it_queue st)\<rparr> \<and>
         (case r of Inl _ \<Rightarrow> name # ns \<noteq> name # names | Inr ids' \<Rightarrow> name # ns = name # names \<and> ids' = ids @ map sn_ID rows)"
        unfolding rows Let_def using ns(2) scans(1)
        by (cases r) (simp_all add: Let_def row enqueue_all_Cons)
    qed (simp add: ns(1))
  qed
qed

lemma resolveScanners_nonempty: "resolveScanners [s] = Inr ns \<Longrightarrow> ns \<noteq> []"
  by (auto dest: pack_registered split: option.splits)

lemma createScanRecords_cases:
  assumes "createScanRecords env target names projectID batchID st = (r, st')"
  shows "\<exists>new. st' = st\<lparr>it_scans := it_scans st @ new,
        it_queue := enqueue_all (ik_accept env) (map row_task new) (it_queue st)\<rparr> \<and>
    list_all (\<lambda>s. sn_Status s = ''pending'' \<and> sn_Target s = target \<and> sn_Project s = projectID \<and>
      sn_Batch s = (if batchID = [] then ik_batch env else batchID)) new \<and>
    (case r of Inl _ \<Rightarrow> strict_prefix (map sn_Scanner new) names
     | Inr (ids, b) \<Rightarrow> map sn_Scanner new = names \<and> ids = map sn_ID new \<and> b = (if batchID = [] then ik_batch env else batchID))"
proof -
  let ?b = "if batchID = [] then ik_batch env else batchID"
  obtain q st1 where loop: "create_loop env target names projectID ?b [] st = (q, st1)" by fastforce
  from create_loop_batch [OF this] obtain ns where ns: "prefix ns names"
    "let rows = batch_rows env target projectID ?b ns (it_scans st) in
     st1 = st\<lparr>it_scans := it_scans st @ rows, it_queue := enqueue_all (ik_accept env) (map row_task rows) (it_queue st)\<rparr> \<and>
     (case q of Inl _ \<Rightarrow> ns \<noteq> names | Inr ids' \<Rightarrow> ns = names \<and> ids' = [] @ map sn_ID rows)" by blast
  have r: "st' = st1 \<and> r = (case q of Inl e \<Rightarrow> Inl e | Inr ids \<Rightarrow> Inr (ids, ?b))"
    using assms loop by (cases q) (simp_all add: createScanRecords_def Let_def)
  note cols = batch_rows_columns [where env = env and target = target and projectID = projectID and batchID = ?b
      and names = ns and scans = "it_scans st"]
  show ?thesis
    using ns r cols by (intro exI [of _ "batch_rows env target projectID ?b ns (it_scans st)"], cases q)
      (simp_all add: Let_def list_all_iff strict_prefix_def)
qed

lemma app_scans_loop_rows:
  assumes "list_all (\<lambda>n. Get n \<noteq> None) names" "app_scans_loop env names batchID ps allIDs st = (ids, st')"
  shows "\<exists>new more. it_scans st' = it_scans st @ new \<and> ids = allIDs @ more \<and> set more \<subseteq> sn_ID ` set new \<and>
    list_all (\<lambda>s. Get (sn_Scanner s) \<noteq> None \<and> sn_Status s = ''pending'') new"
  using assms(2)
proof (induction ps arbitrary: allIDs st)
  case Nil
  then show ?case by simp
next
  case (Cons p ps)
  show ?case
  proof (cases "pw_RepoURL p = None \<or> pw_RepoURL p = Some []")
    case True
    then have "app_scans_loop env names batchID ps allIDs st = (ids, st')" using Cons.prems by auto
    then show ?thesis by (rule Cons.IH)
  next
    case False
    then obtain url where url: "pw_RepoURL p = Some url" "url \<noteq> []" by auto
    obtain r st1 where r: "createScanRecords env url names (Some (pw_ID p)) batchID st = (r, st1)" by fastforce
    from createScanRecords_cases [OF r] obtain new1 where
      new1: "it_scans st1 = it_scans st @ new1" "list_all (\<lambda>s. sn_Status s = ''pending'') new1"
      "prefix (map sn_Scanner new1) names" "case r of Inl _ \<Rightarrow> True | Inr (is, _) \<Rightarrow> is = map sn_ID new1"
      by (fastforce simp: list_all_iff strict_prefix_def split: sum.splits)
    have reg: "list_all (\<lambda>s. Get (sn_Scanner s) \<noteq> None) new1"
      using set_mono_prefix [OF new1(3)] assms(1) by (simp add: list_all_iff image_subset_iff)
    let ?ids = "case r of Inl _ \<Rightarrow> [] | Inr (is, _) \<Rightarrow> is"
    have "app_scans_loop env names batchID ps (allIDs @ ?ids) st1 = (ids, st')"
      using Cons.prems url r by (auto split: sum.splits)
    from Cons.IH [OF this] obtain new2 more where
      "it_scans st' = it_scans st1 @ new2" "ids = (allIDs @ ?ids) @ more" "set more \<subseteq> sn_ID ` set new2"
      "list_all (\<lambda>s. Get (sn_Scanner s) \<noteq> None \<and> sn_Status s = ''pending'') new2" by blast
    then show ?thesis using new1 reg
      by (intro exI [of _ "new1 @ new2"] exI [of _ "?ids @ more"]) (auto simp: list_all_iff split: sum.splits)
  qed
qed

subsection \<open>Schedules\<close>

lemma enqueueScans_refused:
  assumes "\<not> ik_uuid_ok env ''scheduled''"
  shows "enqueueScansForProject env target projectID names st = st"
  by (induction names arbitrary: st) (simp_all add: insert_scan_def assms)

lemma schedule_projects_refused: "\<not> ik_uuid_ok env ''scheduled'' \<Longrightarrow> schedule_projects env scanners ps st = st"
  by (induction ps arbitrary: st) (simp_all add: enqueueScans_refused split: option.split)

lemma process_refused:
  assumes "\<not> ik_uuid_ok env ''scheduled''"
  shows "processProjectSchedule env s scanners st = st" "processAppSchedule env a scanners st = st"
  using enqueueScans_refused [OF assms] schedule_projects_refused [OF assms]
  by (simp_all add: processProjectSchedule_def processAppSchedule_def split: sum.split option.split prod.split)

lemma enqueueScans_schedules: "it_schedules (enqueueScansForProject env target projectID names st) = it_schedules st"
  by (induction names arbitrary: st) (simp_all split: prod.split sum.split)

lemma schedule_projects_schedules: "it_schedules (schedule_projects env scanners ps st) = it_schedules st"
  by (induction ps arbitrary: st) (simp_all add: enqueueScans_schedules split: option.split)

lemma process_schedules:
  "it_schedules (processProjectSchedule env s scanners st) = it_schedules st"
  "it_schedules (processAppSchedule env a scanners st) = it_schedules st"
  by (simp_all add: processProjectSchedule_def processAppSchedule_def enqueueScans_schedules
      schedule_projects_schedules split: sum.split option.split prod.split)

definition mark :: "intake_env \<Rightarrow> schedule \<Rightarrow> schedule list \<Rightarrow> schedule list" where
  "mark env s rows = MarkRun (ik_now env) (sh_ID s) (next_of env s) rows"

lemma updateSchedule_mark: "it_schedules (updateScheduleNextRun env s st) = mark env s (it_schedules st)"
  by (simp add: updateScheduleNextRun_def mark_def next_of_def Let_def)

lemma due_loop_schedules: "it_schedules (due_loop env ss st) = fold (mark env) ss (it_schedules st)"
  by (induction ss arbitrary: st) (simp_all add: Let_def updateSchedule_mark process_schedules split: option.split)

lemma fold_mark:
  "distinct (map sh_ID ss) \<Longrightarrow> fold (mark env) ss rows =
    map (\<lambda>r. case row_by sh_ID (sh_ID r) ss of None \<Rightarrow> r
      | Some s \<Rightarrow> r\<lparr>sh_LastRun := Some (ik_now env), sh_NextRun := next_of env s\<rparr>) rows"
proof (induction ss arbitrary: rows)
  case (Cons s ss)
  have "row_by sh_ID (sh_ID s) ss = None" using Cons.prems by (simp add: row_by_None)
  then show ?case using Cons
    by (auto simp: mark_def MarkRun_def update_where_def)
qed simp

lemma ListDue_rows: "set (ListDue now rows) \<subseteq> {s \<in> set rows. is_due now s}"
  by (auto simp: ListDue_def dest: in_set_takeD)

lemma ListDue_distinct:
  assumes "distinct (map sh_ID rows)"
  shows "distinct (map sh_ID (ListDue now rows))"
proof -
  have "distinct (map sh_ID (filter (is_due now) rows))" by (rule distinct_map_filter [OF assms])
  then have "distinct (map sh_ID (sort_key next_run_key (filter (is_due now) rows)))"
    by (simp add: distinct_map)
  then show ?thesis unfolding ListDue_def by (simp add: take_map [symmetric])
qed

lemma tick_schedules:
  assumes "distinct (map sh_ID (it_schedules st))"
  shows "it_schedules (runDueSchedules env st) =
    map (\<lambda>r. if r \<in> set (ListDue (ik_now env) (it_schedules st))
      then r\<lparr>sh_LastRun := Some (ik_now env), sh_NextRun := next_of env r\<rparr> else r) (it_schedules st)"
proof -
  let ?due = "ListDue (ik_now env) (it_schedules st)"
  have d: "distinct (map sh_ID ?due)" by (rule ListDue_distinct [OF assms])
  have "row_by sh_ID (sh_ID r) ?due = (if r \<in> set ?due then Some r else None)" if r: "r \<in> set (it_schedules st)" for r
  proof (cases "r \<in> set ?due")
    case True
    then show ?thesis using row_by_distinct [OF d] by simp
  next
    case False
    have "r' = r" if "r' \<in> set ?due" "sh_ID r' = sh_ID r" for r'
      using that r assms ListDue_rows [of "ik_now env" "it_schedules st"] by (metis (no_types, lifting) distinct_map inj_onD mem_Collect_eq subsetD)
    then show ?thesis using False by (auto simp: row_by_None)
  qed
  then show ?thesis
    by (auto simp: runDueSchedules_def due_loop_schedules fold_mark [OF d] intro!: map_cong)
qed

section \<open>Properties\<close>

text \<open>C12: A batch is one pending scan for each scanner, in order, with the target, the project and
  the batch of the request, and one task for each that the queue accepts; a refused insertion
  ends the batch, and what was created before it stays and runs.\<close>

theorem createScanRecords_batch:
  assumes "createScanRecords env target names projectID batchID st = (r, st')"
  shows "\<exists>new. st' = st\<lparr>it_scans := it_scans st @ new,
        it_queue := enqueue_all (ik_accept env) (map row_task new) (it_queue st)\<rparr> \<and>
    list_all (\<lambda>s. sn_Status s = ''pending'' \<and> sn_Target s = target \<and> sn_Project s = projectID \<and>
      sn_Batch s = (if batchID = [] then ik_batch env else batchID)) new \<and>
    (case r of Inl _ \<Rightarrow> strict_prefix (map sn_Scanner new) names
     | Inr (ids, b) \<Rightarrow> map sn_Scanner new = names \<and> ids = map sn_ID new \<and> b = (if batchID = [] then ik_batch env else batchID))"
  by (rule createScanRecords_cases [OF assms])


text \<open>A scheduled scan never runs: the scheduler inserts scans with the batch \<^verbatim>\<open>scheduled\<close>, which
  is not a UUID, so no scan and no task is created, for any schedules; the schedules are still
  marked as run.\<close>

theorem scheduled_scans_never_created:
  assumes "\<not> ik_uuid_ok env ''scheduled''" "distinct (map sh_ID (it_schedules st))"
  shows "it_scans (runDueSchedules env st) = it_scans st \<and> it_queue (runDueSchedules env st) = it_queue st \<and>
    it_schedules (runDueSchedules env st) =
      map (\<lambda>s. if s \<in> set (ListDue (ik_now env) (it_schedules st))
        then s\<lparr>sh_LastRun := Some (ik_now env), sh_NextRun := next_of env s\<rparr> else s) (it_schedules st)"
proof -
  have same: "it_scans (due_loop env ss st1) = it_scans st1 \<and> it_queue (due_loop env ss st1) = it_queue st1" for ss st1
    by (induction ss arbitrary: st1)
      (simp_all add: Let_def process_refused [OF assms(1)] updateScheduleNextRun_def split: option.split)
  show ?thesis using same tick_schedules [OF assms(2)] by (simp add: runDueSchedules_def)
qed

text \<open>A tick makes progress: when at most fifty schedules are due, those that are due after it at
  the same time are exactly the due ones whose expression does not parse or has no later time
  (the thirtieth of February has none); every other due schedule waits for its next time, and
  no schedule that was not due becomes due.\<close>

theorem scheduler_tick_progress:
  assumes "distinct (map sh_ID (it_schedules st))"
    and "length (filter (is_due (ik_now env)) (it_schedules st)) \<le> 50"
  shows "map sh_ID (filter (is_due (ik_now env)) (it_schedules (runDueSchedules env st))) =
    map sh_ID (filter (\<lambda>s. is_due (ik_now env) s \<and>
      (case ik_cron env (sh_CronExpr s) of Inl e \<Rightarrow> True | Inr next_time \<Rightarrow> next_time (ik_now env) \<le> ik_now env)) (it_schedules st))"
proof -
  have due: "set (ListDue (ik_now env) (it_schedules st)) = {s \<in> set (it_schedules st). is_due (ik_now env) s}"
    using assms(2) by (simp add: ListDue_def)
  let ?f = "\<lambda>r. if r \<in> set (ListDue (ik_now env) (it_schedules st))
      then r\<lparr>sh_LastRun := Some (ik_now env), sh_NextRun := next_of env r\<rparr> else r"
  let ?again = "\<lambda>s. case ik_cron env (sh_CronExpr s) of Inl e \<Rightarrow> True | Inr next_time \<Rightarrow> next_time (ik_now env) \<le> ik_now env"
  have "is_due (ik_now env) (?f r) \<longleftrightarrow> is_due (ik_now env) r \<and> ?again r" if "r \<in> set (it_schedules st)" for r
    using that unfolding due by (cases "ik_cron env (sh_CronExpr r)") (auto simp: is_due_def next_of_def)
  then have "filter (\<lambda>r. is_due (ik_now env) (?f r)) (it_schedules st) =
      filter (\<lambda>s. is_due (ik_now env) s \<and> ?again s) (it_schedules st)"
    by (intro filter_cong) auto
  moreover have "sh_ID (?f r) = sh_ID r" for r by simp
  ultimately show ?thesis
    by (simp add: tick_schedules [OF assms(1)] filter_map comp_def)
qed

text \<open>Changing a schedule that exists always answers with an internal error, and changes it all
  the same, without an entry in the audit log.\<close>

theorem UpdateSchedule_fails:
  assumes "row_by sh_ID i (it_schedules st) = Some s" "\<not> no_schedule_update req"
    and "case sp_CronExpr req of None \<Rightarrow> True | Some e \<Rightarrow> validateCronExpr env e = None"
  shows "UpdateSchedule env i who (Some req) st = (Inl (500, ''failed to update schedule''),
    st\<lparr>it_schedules := update_where (\<lambda>s. sh_ID s = i) (apply_schedule_update req) (it_schedules st)\<rparr>)"
  using assms by (simp add: UpdateSchedule_def Schedule_Update_def split: option.splits)

section \<open>Instances\<close>

definition sample_intake :: intake_env where
  "sample_intake = \<lparr>ik_now = 100, ik_clone = sample_clone_io, ik_uuid_ok = (\<lambda>s. list_all (\<lambda>c. c \<in> set ''0123456789abcdef-'') s),
     ik_scan_id = (\<lambda>scans. nat_str (length scans)), ik_insert_error = (\<lambda>scans. if length scans < 3 then None else Some ''full''),
     ik_batch = ''b0'', ik_accept = (\<lambda>_. True), ik_apps = [], ik_members = [],
     ik_cron = (\<lambda>e. if e = [] then Inl ''empty spec string'' else Inr (\<lambda>t. t + 60))\<rparr>"

definition sample_schedule :: schedule where
  "sample_schedule = \<lparr>sh_ID = ''c1'', sh_ProjectID = ''p1'', sh_AppID = None, sh_Scanner = ''semgrep'', sh_ScannerType = None,
     sh_CronExpr = ''0 9 * * 1'', sh_Enabled = True, sh_LastRun = None, sh_NextRun = None, sh_CreatedAt = 0\<rparr>"

definition sample_intake_state :: intake_state where
  "sample_intake_state = \<lparr>it_scans = [], it_queue = [], it_audit = [], it_projects = [sample_project],
     it_schedules = [sample_schedule]\<rparr>"

definition sample_request :: scan_request where
  "sample_request = \<lparr>rq_Target = ''https://github.com/o/web'', rq_Scanner = ''sca'', rq_ProjectID = [], rq_AppID = []\<rparr>"

theorem createScanRecords_batch_witness:
  "\<exists>st'. createScanRecords sample_intake ''t'' [''semgrep'', ''trivy''] None [] sample_intake_state = (Inr ([''0'', ''1''], ''b0''), st') \<and>
    map (\<lambda>s. (sn_ID s, sn_Scanner s, sn_Target s)) (it_scans st') = [(''0'', ''semgrep'', ''t''), (''1'', ''trivy'', ''t'')] \<and>
    it_queue st' = enqueue_all (\<lambda>_. True) (map row_task (it_scans st')) []"
proof -
  let ?r = "createScanRecords sample_intake ''t'' [''semgrep'', ''trivy''] None [] sample_intake_state"
  have "fst ?r = Inr ([''0'', ''1''], ''b0'') \<and>
    map (\<lambda>s. (sn_ID s, sn_Scanner s, sn_Target s)) (it_scans (snd ?r)) = [(''0'', ''semgrep'', ''t''), (''1'', ''trivy'', ''t'')]" by code_simp
  moreover have "ik_accept sample_intake = (\<lambda>_. True)" by (simp add: sample_intake_def)
  ultimately show ?thesis
    using createScanRecords_batch [OF surjective_pairing, of sample_intake "''t''" "[''semgrep'', ''trivy'']" None "[]" sample_intake_state]
    by (intro exI [of _ "snd ?r"]) (auto simp: prod_eq_iff sample_intake_state_def)
qed


theorem scheduled_scans_never_created_witness:
  "it_scans (runDueSchedules sample_intake sample_intake_state) = [] \<and>
   map sh_LastRun (it_schedules (runDueSchedules sample_intake sample_intake_state)) = [Some 100]"
  using scheduled_scans_never_created [of sample_intake sample_intake_state]
  by (simp add: sample_intake_def sample_intake_state_def sample_schedule_def ListDue_def is_due_def)

theorem scheduler_tick_progress_witness:
  "map sh_ID (filter (is_due 100) (it_schedules (runDueSchedules sample_intake sample_intake_state))) = []"
  using scheduler_tick_progress [of sample_intake_state sample_intake]
  by (simp add: sample_intake_def sample_intake_state_def sample_schedule_def is_due_def)

theorem UpdateSchedule_fails_witness:
  "fst (UpdateSchedule sample_intake ''c1'' None (Some \<lparr>sp_Scanner = Some ''trivy'', sp_ScannerType = None, sp_CronExpr = None,
      sp_Enabled = None\<rparr>) sample_intake_state) = Inl (500, ''failed to update schedule'')"
  using UpdateSchedule_fails [of "''c1''" sample_intake_state sample_schedule "\<lparr>sp_Scanner = Some ''trivy'', sp_ScannerType = None,
      sp_CronExpr = None, sp_Enabled = None\<rparr>" sample_intake None]
  by (simp add: sample_intake_state_def sample_schedule_def no_schedule_update_def)

end
