(* ===== verification/Access_Users.thy ===== *)
theory Access_Users
  imports Scan_Intake
begin

text \<open>
  The user table (\<^verbatim>\<open>src/internal/repository/user.go\<close>) and single sign-on
  (\<^verbatim>\<open>src/internal/sso/provider.go\<close>, \<^verbatim>\<open>src/internal/handlers/sso.go\<close>).  The constraints of the
  table are the predicate \<open>users_ok\<close>; a statement whose result breaks it, or whose query fails
  (\<open>ux_fail\<close>, by the name of the operation), changes nothing.  The OpenID Connect exchange is a
  parameter.
\<close>

section \<open>The table\<close>

record user_row =
  us_ID :: string
  us_Username :: string
  us_Email :: string
  us_PasswordHash :: string
  us_Role :: string
  us_IsActive :: bool
  us_TokenVersion :: int
  us_CreatedAt :: int
  us_LastLogin :: "int option"
  us_SSO :: "(string \<times> string) option"

record user_create =
  uc_Username :: string
  uc_Email :: string
  uc_PasswordHash :: string
  uc_Role :: string

record user_update =
  uu_Email :: "string option"
  uu_Role :: "string option"
  uu_PasswordHash :: "string option"
  uu_IsActive :: "bool option"

record credentials =
  cd_ID :: string
  cd_PasswordHash :: string
  cd_Role :: string
  cd_TokenVersion :: int
  cd_IsActive :: bool

record user_env =
  ux_now :: int
  ux_new_id :: "user_row list \<Rightarrow> string"
  ux_fail :: "string \<Rightarrow> string option"

definition user_roles :: "string list" where
  "user_roles = [''admin'', ''viewer'']"

definition users_ok :: "user_row list \<Rightarrow> bool" where
  "users_ok rows \<longleftrightarrow> distinct (map us_ID rows) \<and> distinct (map us_Username rows) \<and> distinct (map us_Email rows) \<and>
     distinct (map us_SSO (filter (\<lambda>u. us_SSO u \<noteq> None) rows)) \<and>
     list_all (\<lambda>u. us_Role u \<in> set user_roles \<and> us_TokenVersion u \<le> 2147483647) rows"

text \<open>A statement that writes the table.\<close>

definition write_users :: "user_env \<Rightarrow> string \<Rightarrow> user_row list \<Rightarrow> user_row list \<Rightarrow> string option \<times> user_row list" where
  "write_users env op rows' rows =
     (case ux_fail env op of Some e \<Rightarrow> (Some e, rows)
      | None \<Rightarrow> if users_ok rows' then (None, rows') else (Some ''violates constraint'', rows))"

definition query_user :: "user_env \<Rightarrow> string \<Rightarrow> (user_row \<Rightarrow> bool) \<Rightarrow> user_row list \<Rightarrow> db_error + user_row" where
  "query_user env op P rows =
     (case ux_fail env op of Some e \<Rightarrow> Inl (DbError e)
      | None \<Rightarrow> (case find P rows of None \<Rightarrow> Inl NoRows | Some u \<Rightarrow> Inr u))"

definition User_List :: "user_env \<Rightarrow> user_row list \<Rightarrow> string + user_row list" where
  "User_List env rows = (case ux_fail env ''users.List'' of Some e \<Rightarrow> Inl (''users list: '' @ e)
     | None \<Rightarrow> Inr (sort_key us_CreatedAt rows))"

definition User_GetByID :: "user_env \<Rightarrow> string \<Rightarrow> user_row list \<Rightarrow> db_error + user_row" where
  "User_GetByID env i rows = query_user env ''users.GetByID'' (\<lambda>u. us_ID u = i) rows"

definition GetByUsername :: "user_env \<Rightarrow> string \<Rightarrow> user_row list \<Rightarrow> db_error + user_row" where
  "GetByUsername env name rows = query_user env ''users.GetByUsername'' (\<lambda>u. us_Username u = name) rows"

definition GetUserByEmail :: "user_env \<Rightarrow> string \<Rightarrow> user_row list \<Rightarrow> db_error + user_row" where
  "GetUserByEmail env email rows = query_user env ''users.GetUserByEmail'' (\<lambda>u. us_Email u = email) rows"

definition GetUserBySSOIdentity :: "user_env \<Rightarrow> string \<Rightarrow> string \<Rightarrow> user_row list \<Rightarrow> db_error + user_row" where
  "GetUserBySSOIdentity env provider subject rows =
     query_user env ''users.GetUserBySSOIdentity'' (\<lambda>u. us_SSO u = Some (provider, subject)) rows"

definition User_Create :: "user_env \<Rightarrow> user_create \<Rightarrow> user_row list \<Rightarrow> (string + user_row) \<times> user_row list" where
  "User_Create env c rows =
     (let u = \<lparr>us_ID = ux_new_id env rows, us_Username = uc_Username c, us_Email = uc_Email c,
         us_PasswordHash = uc_PasswordHash c, us_Role = uc_Role c, us_IsActive = True, us_TokenVersion = 0,
         us_CreatedAt = ux_now env, us_LastLogin = None, us_SSO = None\<rparr>
      in case write_users env ''users.Create'' (rows @ [u]) rows of
           (Some e, rows') \<Rightarrow> (Inl (''create user: '' @ e), rows')
         | (None, rows') \<Rightarrow> (Inr u, rows'))"

definition coalesce_user :: "user_update \<Rightarrow> user_row \<Rightarrow> user_row" where
  "coalesce_user upd u = u\<lparr>
     us_Email := (case uu_Email upd of Some x \<Rightarrow> x | None \<Rightarrow> us_Email u),
     us_Role := (case uu_Role upd of Some x \<Rightarrow> x | None \<Rightarrow> us_Role u),
     us_PasswordHash := (case uu_PasswordHash upd of Some x \<Rightarrow> x | None \<Rightarrow> us_PasswordHash u),
     us_IsActive := (case uu_IsActive upd of Some x \<Rightarrow> x | None \<Rightarrow> us_IsActive u)\<rparr>"

definition User_Update ::
  "user_env \<Rightarrow> string \<Rightarrow> user_update \<Rightarrow> user_row list \<Rightarrow> (db_error + user_row) \<times> user_row list" where
  "User_Update env i upd rows =
     (case write_users env ''users.Update'' (update_where (\<lambda>u. us_ID u = i) (coalesce_user upd) rows) rows of
        (Some e, rows') \<Rightarrow> (Inl (DbError (''update user: '' @ e)), rows')
      | (None, rows') \<Rightarrow> (User_GetByID env i rows', rows'))"

definition User_Delete :: "user_env \<Rightarrow> string \<Rightarrow> user_row list \<Rightarrow> string option \<times> user_row list" where
  "User_Delete env i rows =
     (case ux_fail env ''users.Delete'' of Some e \<Rightarrow> (Some e, rows) | None \<Rightarrow> DeleteByID us_ID ''users'' i rows)"

definition User_Count :: "user_env \<Rightarrow> user_row list \<Rightarrow> string + nat" where
  "User_Count env rows = (case ux_fail env ''users.Count'' of Some e \<Rightarrow> Inl e | None \<Rightarrow> Inr (length rows))"

definition GetCredentials :: "user_env \<Rightarrow> string \<Rightarrow> user_row list \<Rightarrow> db_error + credentials" where
  "GetCredentials env name rows =
     (case query_user env ''users.GetCredentials'' (\<lambda>u. us_Username u = name) rows of
        Inl e \<Rightarrow> Inl e
      | Inr u \<Rightarrow> Inr \<lparr>cd_ID = us_ID u, cd_PasswordHash = us_PasswordHash u, cd_Role = us_Role u,
          cd_TokenVersion = us_TokenVersion u, cd_IsActive = us_IsActive u\<rparr>)"

definition UpdateLastLogin :: "user_env \<Rightarrow> string \<Rightarrow> user_row list \<Rightarrow> string option \<times> user_row list" where
  "UpdateLastLogin env i rows = write_users env ''users.UpdateLastLogin''
     (update_where (\<lambda>u. us_ID u = i) (us_LastLogin_update (\<lambda>_. Some (ux_now env))) rows) rows"

definition GetTokenVersion :: "user_env \<Rightarrow> string \<Rightarrow> user_row list \<Rightarrow> db_error + int" where
  "GetTokenVersion env i rows =
     (case query_user env ''users.GetTokenVersion'' (\<lambda>u. us_ID u = i) rows of Inl e \<Rightarrow> Inl e | Inr u \<Rightarrow> Inr (us_TokenVersion u))"

definition BumpTokenVersion :: "user_env \<Rightarrow> string \<Rightarrow> user_row list \<Rightarrow> string option \<times> user_row list" where
  "BumpTokenVersion env i rows = write_users env ''users.BumpTokenVersion''
     (update_where (\<lambda>u. us_ID u = i) (us_TokenVersion_update (\<lambda>v. v + 1)) rows) rows"

definition GetPasswordHashByID :: "user_env \<Rightarrow> string \<Rightarrow> user_row list \<Rightarrow> db_error + string" where
  "GetPasswordHashByID env i rows =
     (case query_user env ''users.GetPasswordHashByID'' (\<lambda>u. us_ID u = i) rows of
        Inl e \<Rightarrow> Inl e | Inr u \<Rightarrow> Inr (us_PasswordHash u))"

definition LinkSSOIdentity :: "user_env \<Rightarrow> string \<Rightarrow> string \<Rightarrow> string \<Rightarrow> user_row list \<Rightarrow> string option \<times> user_row list" where
  "LinkSSOIdentity env i provider subject rows = write_users env ''users.LinkSSOIdentity''
     (update_where (\<lambda>u. us_ID u = i) (us_SSO_update (\<lambda>_. Some (provider, subject))) rows) rows"

definition IsActive :: "user_env \<Rightarrow> string \<Rightarrow> user_row list \<Rightarrow> db_error + bool" where
  "IsActive env i rows =
     (case query_user env ''users.IsActive'' (\<lambda>u. us_ID u = i) rows of Inl e \<Rightarrow> Inl e | Inr u \<Rightarrow> Inr (us_IsActive u))"

section \<open>Single sign-on\<close>

record sso_claims =
  so_Subject :: string
  so_Email :: string
  so_EmailVerified :: bool
  so_PreferredUsername :: string
  so_Groups :: "string list"

text \<open>The provider: the token endpoint with the verification of the ID token, which gives the
  claims and, for a claim of any name, the groups it lists.\<close>

record sso_provider =
  sv_issuer :: string
  sv_groupClaim :: string
  sv_adminGroup :: string
  sv_exchange :: "string \<Rightarrow> string + (sso_claims \<times> (string \<Rightarrow> string list option))"

definition ExchangeAndVerify :: "sso_provider \<Rightarrow> string \<Rightarrow> string + sso_claims" where
  "ExchangeAndVerify p code =
     (case sv_exchange p code of
        Inl e \<Rightarrow> Inl e
      | Inr (c, custom) \<Rightarrow>
          if so_Email c \<noteq> [] \<and> \<not> so_EmailVerified c then Inl ''ID token missing or unverified email_verified claim''
          else if sv_groupClaim p \<noteq> ''groups'' \<and> so_Groups c = [] then
            (case custom (sv_groupClaim p) of Some gs \<Rightarrow> Inr (c\<lparr>so_Groups := gs\<rparr>) | None \<Rightarrow> Inr c)
          else Inr c)"

definition ResolveRole :: "sso_provider \<Rightarrow> sso_claims \<Rightarrow> string" where
  "ResolveRole p c =
     (if sv_adminGroup p \<noteq> [] \<and> list_ex (\<lambda>g. g = sv_adminGroup p) (so_Groups c) then ''admin'' else ''viewer'')"

definition syncSSORole ::
  "user_env \<Rightarrow> sso_provider \<Rightarrow> sso_claims \<Rightarrow> user_row \<Rightarrow> user_row list \<Rightarrow> (string + user_row) \<times> user_row list" where
  "syncSSORole env p c u rows =
     (let want = ResolveRole p c in
      if us_Role u \<noteq> want then
        (case User_Update env (us_ID u) \<lparr>uu_Email = None, uu_Role = Some want, uu_PasswordHash = None, uu_IsActive = None\<rparr> rows of
           (Inl e, rows') \<Rightarrow> (Inl (''sync sso role''), rows')
         | (Inr updated, rows') \<Rightarrow> (Inr updated, rows'))
      else (Inr u, rows))"

definition resolveSSOUser ::
  "user_env \<Rightarrow> sso_provider \<Rightarrow> sso_claims \<Rightarrow> user_row list \<Rightarrow> (string + user_row) \<times> user_row list" where
  "resolveSSOUser env p c rows =
     (case GetUserBySSOIdentity env (sv_issuer p) (so_Subject c) rows of
        Inr u \<Rightarrow> syncSSORole env p c u rows
      | Inl (DbError e) \<Rightarrow> (Inl (''get user by sso identity: '' @ e), rows)
      | Inl NoRows \<Rightarrow>
          (case GetUserByEmail env (so_Email c) rows of
             Inr u \<Rightarrow>
               (case LinkSSOIdentity env (us_ID u) (sv_issuer p) (so_Subject c) rows of
                  (Some e, rows') \<Rightarrow> (Inl (''link sso identity: '' @ e), rows')
                | (None, rows') \<Rightarrow> syncSSORole env p c (u\<lparr>us_SSO := Some (sv_issuer p, so_Subject c)\<rparr>) rows')
           | Inl (DbError e) \<Rightarrow> (Inl (''get user by email: '' @ e), rows)
           | Inl NoRows \<Rightarrow>
               (let name = (if so_PreferredUsername c = [] then so_Email c else so_PreferredUsername c) in
                case User_Create env \<lparr>uc_Username = name, uc_Email = so_Email c, uc_PasswordHash = [], uc_Role = ResolveRole p c\<rparr> rows of
                  (Inl e, rows') \<Rightarrow> (Inl (''create sso user: '' @ e), rows')
                | (Inr u, rows') \<Rightarrow>
                    (case LinkSSOIdentity env (us_ID u) (sv_issuer p) (so_Subject c) rows' of
                       (Some e, rows'') \<Rightarrow> (Inl (''link sso identity (new user): '' @ e), rows'')
                     | (None, rows'') \<Rightarrow> (Inr (u\<lparr>us_SSO := Some (sv_issuer p, so_Subject c)\<rparr>), rows'')))))"

section \<open>Lemmas\<close>

text \<open>What every statement on the table keeps: the constraints, and the token version of a user,
  which never falls.\<close>

definition users_next :: "string \<Rightarrow> user_row list \<Rightarrow> user_row list \<Rightarrow> bool" where
  "users_next i rows rows' \<longleftrightarrow> (users_ok rows \<longrightarrow> users_ok rows') \<and>
     (\<forall>u' \<in> set rows'. us_ID u' = i \<longrightarrow> (\<exists>u \<in> set rows. us_ID u = i \<and> us_TokenVersion u \<le> us_TokenVersion u'))"

named_theorems next_intros \<open>steps that keep the constraints and never lower a version\<close>

lemma users_next_refl [next_intros, simp]: "users_next i rows rows"
  by (auto simp: users_next_def)

lemma users_next_trans: "users_next i a b \<Longrightarrow> users_next i b c \<Longrightarrow> users_next i a c"
  unfolding users_next_def by (meson order_trans)

lemma users_next_write:
  assumes "\<And>u'. u' \<in> set rows' \<Longrightarrow> us_ID u' = i \<Longrightarrow> \<exists>u \<in> set rows. us_ID u = i \<and> us_TokenVersion u \<le> us_TokenVersion u'"
  shows "users_next i rows (snd (write_users env op rows' rows))"
  using assms by (auto simp: users_next_def write_users_def split: option.split)

lemma users_next_update:
  assumes "\<And>u. us_ID (f u) = us_ID u" "\<And>u. us_TokenVersion u \<le> us_TokenVersion (f u)"
  shows "users_next i rows (snd (write_users env op (update_where P f rows) rows))"
proof (rule users_next_write)
  fix u' assume "u' \<in> set (update_where P f rows)" "us_ID u' = i"
  then obtain u where "u \<in> set rows" "u' = (if P u then f u else u)" by (auto simp: set_update_where)
  then show "\<exists>u \<in> set rows. us_ID u = i \<and> us_TokenVersion u \<le> us_TokenVersion u'"
    using \<open>us_ID u' = i\<close> assms by (intro bexI [of _ u]) (auto split: if_splits)
qed

lemma User_Update_next [next_intros]: "users_next i rows (snd (User_Update env j upd rows))"
proof -
  have "users_next i rows (snd (write_users env ''users.Update'' (update_where (\<lambda>u. us_ID u = j) (coalesce_user upd) rows) rows))"
    by (rule users_next_update) (simp_all add: coalesce_user_def)
  then show ?thesis by (auto simp: User_Update_def split: prod.split option.split)
qed

lemma UpdateLastLogin_next [next_intros]: "users_next i rows (snd (UpdateLastLogin env j rows))"
  unfolding UpdateLastLogin_def by (rule users_next_update) simp_all

lemma BumpTokenVersion_next [next_intros]: "users_next i rows (snd (BumpTokenVersion env j rows))"
  unfolding BumpTokenVersion_def by (rule users_next_update) simp_all

lemma LinkSSOIdentity_next [next_intros]: "users_next i rows (snd (LinkSSOIdentity env j p s rows))"
  unfolding LinkSSOIdentity_def by (rule users_next_update) simp_all

lemma User_Create_next [next_intros]:
  assumes "ux_new_id env rows \<noteq> i"
  shows "users_next i rows (snd (User_Create env c rows))"
proof -
  have w: "users_next i rows (snd (write_users env op (rows @ [u]) rows))" if "us_ID u \<noteq> i" for op u
    using that by (intro users_next_write) auto
  show ?thesis unfolding User_Create_def Let_def
    using w [of "\<lparr>us_ID = ux_new_id env rows, us_Username = uc_Username c, us_Email = uc_Email c,
         us_PasswordHash = uc_PasswordHash c, us_Role = uc_Role c, us_IsActive = True, us_TokenVersion = 0,
         us_CreatedAt = ux_now env, us_LastLogin = None, us_SSO = None\<rparr>" "''users.Create''"] assms
    by (simp split: prod.split option.split) (metis snd_conv)
qed

lemma users_ok_filter: "users_ok rows \<Longrightarrow> users_ok (filter P rows)"
proof -
  assume u: "users_ok rows"
  have "filter (\<lambda>u. us_SSO u \<noteq> None) (filter P rows) = filter P (filter (\<lambda>u. us_SSO u \<noteq> None) rows)"
    unfolding filter_filter by (rule filter_cong) auto
  then have "distinct (map us_SSO (filter (\<lambda>u. us_SSO u \<noteq> None) (filter P rows)))"
    using u distinct_map_filter unfolding users_ok_def by metis
  then show ?thesis using u unfolding users_ok_def by (auto simp: distinct_map_filter list_all_iff)
qed

lemma User_Delete_next [next_intros]: "users_next i rows (snd (User_Delete env j rows))"
  by (auto simp: users_next_def User_Delete_def DeleteByID_def users_ok_filter split: option.split)

lemma syncSSORole_next [next_intros]: "users_next i rows (snd (syncSSORole env p c u rows))"
  using User_Update_next [of i rows env "us_ID u"]
  by (auto simp: syncSSORole_def Let_def split: prod.split sum.split) (metis snd_conv)+

lemma resolveSSOUser_next [next_intros]:
  assumes "ux_new_id env rows \<noteq> i"
  shows "users_next i rows (snd (resolveSSOUser env p c rows))"
proof -
  have link: "users_next i rows rows'" if "LinkSSOIdentity env j x y rows = (r, rows')" for j x y r rows'
    using LinkSSOIdentity_next [of i rows env j x y] that by simp
  have create: "users_next i rows rows'" if "User_Create env uc rows = (r, rows')" for uc r rows'
    using User_Create_next [OF assms, of uc] that by simp
  have create_link: "users_next i rows rows''"
    if "User_Create env uc rows = (r, rows')" "LinkSSOIdentity env j x y rows' = (r', rows'')" for uc r rows' j x y r' rows''
    using create [OF that(1)] LinkSSOIdentity_next [of i rows' env j x y] that(2) by (metis snd_conv users_next_trans)
  show ?thesis unfolding resolveSSOUser_def Let_def
    by (auto split: sum.split db_error.split prod.split option.split simp: link create create_link syncSSORole_next
        intro: users_next_trans [OF link syncSSORole_next])
qed

lemma write_users_done: "write_users env op rows' rows = (None, x) \<Longrightarrow> x = rows' \<and> users_ok rows'"
  by (auto simp: write_users_def split: option.splits if_splits)

lemma query_user_Inr: "query_user env op P rows = Inr u \<Longrightarrow> u \<in> set rows \<and> P u"
  by (auto simp: query_user_def find_Some_iff split: option.splits)

lemma users_ok_ID: "users_ok rows \<Longrightarrow> u \<in> set rows \<Longrightarrow> w \<in> set rows \<Longrightarrow> us_ID u = us_ID w \<Longrightarrow> u = w"
  by (auto simp: users_ok_def distinct_map inj_on_def)

lemma users_ok_SSO:
  assumes "users_ok rows" "u \<in> set rows" "w \<in> set rows" "us_SSO u = us_SSO w" "us_SSO u \<noteq> None"
  shows "u = w"
proof -
  have "inj_on us_SSO (set (filter (\<lambda>u. us_SSO u \<noteq> None) rows))"
    using assms(1) unfolding users_ok_def distinct_map by blast
  then show ?thesis by (rule inj_onD) (use assms in auto)
qed

text \<open>An update of one user by its identifier leaves the others alone.\<close>

lemma update_one:
  "u \<in> set rows \<Longrightarrow> us_ID u = i \<Longrightarrow> f u \<in> set (update_where (\<lambda>u. us_ID u = i) f rows)"
  "us_ID w \<noteq> i \<Longrightarrow> (\<And>u. us_ID (f u) = us_ID u) \<Longrightarrow> w \<in> set (update_where (\<lambda>u. us_ID u = i) f rows) \<longleftrightarrow> w \<in> set rows"
  by (auto simp: set_update_where image_iff)

definition resolved_user :: "sso_provider \<Rightarrow> sso_claims \<Rightarrow> user_row \<Rightarrow> user_row list \<Rightarrow> user_row list \<Rightarrow> bool" where
  "resolved_user p c u rows rows' \<longleftrightarrow>
     u \<in> set rows' \<and> us_SSO u = Some (sv_issuer p, so_Subject c) \<and> us_Role u = ResolveRole p c \<and>
     (\<forall>w. us_ID w \<noteq> us_ID u \<longrightarrow> (w \<in> set rows' \<longleftrightarrow> w \<in> set rows))"

lemma syncSSORole_resolved:
  assumes "users_ok rows" "u \<in> set rows" "us_SSO u = Some (sv_issuer p, so_Subject c)"
    and "syncSSORole env p c u rows = (Inr v, rows')"
  shows "resolved_user p c v rows rows' \<and> us_ID v = us_ID u \<and> us_TokenVersion v = us_TokenVersion u"
proof (cases "us_Role u = ResolveRole p c")
  case True
  then show ?thesis using assms by (simp add: syncSSORole_def resolved_user_def Let_def)
next
  case False
  define upd where "upd = \<lparr>uu_Email = None, uu_Role = Some (ResolveRole p c), uu_PasswordHash = None, uu_IsActive = None\<rparr>"
  have "User_Update env (us_ID u) upd rows = (Inr v, rows')"
    using assms(4) False by (auto simp: syncSSORole_def upd_def Let_def split: prod.splits sum.splits)
  then obtain x where w: "write_users env ''users.Update'' (update_where (\<lambda>w. us_ID w = us_ID u) (coalesce_user upd) rows) rows = (None, x)"
    and v: "User_GetByID env (us_ID u) x = Inr v" "x = rows'"
    by (auto simp: User_Update_def split: prod.splits option.splits)
  have rows': "rows' = update_where (\<lambda>w. us_ID w = us_ID u) (coalesce_user upd) rows" "users_ok rows'"
    using write_users_done [OF w] v(2) by simp_all
  have in_rows: "coalesce_user upd u \<in> set rows'" unfolding rows'(1) by (rule update_one(1) [OF assms(2) refl])
  have v': "v \<in> set rows'" "us_ID v = us_ID u" using query_user_Inr v unfolding User_GetByID_def by blast+
  have "v = coalesce_user upd u" by (rule users_ok_ID [OF rows'(2) v'(1) in_rows]) (simp add: v'(2) coalesce_user_def)
  moreover have "w \<in> set rows' \<longleftrightarrow> w \<in> set rows" if "us_ID w \<noteq> us_ID u" for w
    unfolding rows'(1) by (rule update_one(2) [OF that]) (simp add: coalesce_user_def)
  ultimately show ?thesis using in_rows assms(3) by (simp add: resolved_user_def coalesce_user_def upd_def)
qed

lemma LinkSSOIdentity_done:
  assumes "LinkSSOIdentity env (us_ID u) provider subject rows = (None, rows')" "u \<in> set rows"
  shows "u\<lparr>us_SSO := Some (provider, subject)\<rparr> \<in> set rows' \<and> users_ok rows' \<and>
    (\<forall>w. us_ID w \<noteq> us_ID u \<longrightarrow> (w \<in> set rows' \<longleftrightarrow> w \<in> set rows))"
proof -
  let ?f = "us_SSO_update (\<lambda>_. Some (provider, subject))"
  have rows': "rows' = update_where (\<lambda>w. us_ID w = us_ID u) ?f rows" "users_ok rows'"
    using write_users_done [OF assms(1) [unfolded LinkSSOIdentity_def]] by simp_all
  have "?f u \<in> set rows'" unfolding rows'(1) by (rule update_one(1) [OF assms(2) refl])
  moreover have "w \<in> set rows' \<longleftrightarrow> w \<in> set rows" if "us_ID w \<noteq> us_ID u" for w
    unfolding rows'(1) by (rule update_one(2) [OF that]) simp
  ultimately show ?thesis using rows'(2) by blast
qed

lemma User_Create_done:
  assumes "User_Create env c rows = (Inr u, rows')"
  shows "rows' = rows @ [u] \<and> users_ok rows' \<and> us_ID u = ux_new_id env rows \<and> us_Role u = uc_Role c \<and> us_Email u = uc_Email c \<and>
    us_Username u = uc_Username c \<and> us_PasswordHash u = uc_PasswordHash c \<and> us_IsActive u \<and> us_TokenVersion u = 0"
  using assms by (auto simp: User_Create_def Let_def dest: write_users_done split: prod.splits option.splits)

text \<open>The account a login over the identity provider belongs to.\<close>

definition sso_account :: "user_env \<Rightarrow> sso_provider \<Rightarrow> sso_claims \<Rightarrow> user_row list \<Rightarrow> string" where
  "sso_account env p c rows =
     (case find (\<lambda>u. us_SSO u = Some (sv_issuer p, so_Subject c)) rows of
        Some u \<Rightarrow> us_ID u
      | None \<Rightarrow> (case find (\<lambda>u. us_Email u = so_Email c) rows of Some u \<Rightarrow> us_ID u | None \<Rightarrow> ux_new_id env rows))"

lemma query_user_NoRows: "query_user env op P rows = Inl NoRows \<Longrightarrow> find P rows = None"
  by (auto simp: query_user_def split: option.splits)

lemma query_user_find: "query_user env op P rows = Inr u \<Longrightarrow> find P rows = Some u"
  by (auto simp: query_user_def split: option.splits)

text \<open>A login over the identity provider ends at one account: the one linked to the identity,
  else the one with the verified e-mail address, else a new one.  Afterwards that account, and
  no other, carries the identity, its role is the one the groups give, and no other account
  has changed.\<close>

theorem sso_user_resolved:
  assumes "users_ok rows" "resolveSSOUser env p c rows = (Inr u, rows')"
  shows "resolved_user p c u rows rows' \<and> us_ID u = sso_account env p c rows \<and>
    (\<forall>w \<in> set rows'. us_SSO w = us_SSO u \<longrightarrow> w = u)"
proof -
  have next1: "users_next (ux_new_id env rows @ ''+'') rows rows'"
    using resolveSSOUser_next [of env rows "ux_new_id env rows @ ''+''" p c] assms(2) by simp
  have main: "resolved_user p c u rows rows' \<and> us_ID u = sso_account env p c rows"
  proof (cases "GetUserBySSOIdentity env (sv_issuer p) (so_Subject c) rows")
    case (Inr v)
    note f = query_user_find [OF Inr [unfolded GetUserBySSOIdentity_def]] query_user_Inr [OF Inr [unfolded GetUserBySSOIdentity_def]]
    have sync: "syncSSORole env p c v rows = (Inr u, rows')" using assms(2) Inr by (simp add: resolveSSOUser_def)
    have "resolved_user p c u rows rows' \<and> us_ID u = us_ID v"
      using syncSSORole_resolved [OF assms(1) _ _ sync] f(2) by simp
    then show ?thesis using f(1) by (simp add: sso_account_def)
  next
    case (Inl e)
    then have "e = NoRows" using assms(2) by (cases e) (simp_all add: resolveSSOUser_def)
    with Inl have none: "find (\<lambda>u. us_SSO u = Some (sv_issuer p, so_Subject c)) rows = None"
      using query_user_NoRows unfolding GetUserBySSOIdentity_def by blast
    show ?thesis
    proof (cases "GetUserByEmail env (so_Email c) rows")
      case (Inr v)
      note f = query_user_find [OF Inr [unfolded GetUserByEmail_def]] query_user_Inr [OF Inr [unfolded GetUserByEmail_def]]
      let ?v = "v\<lparr>us_SSO := Some (sv_issuer p, so_Subject c)\<rparr>"
      obtain rows1 where link: "LinkSSOIdentity env (us_ID v) (sv_issuer p) (so_Subject c) rows = (None, rows1)"
        and sync: "syncSSORole env p c ?v rows1 = (Inr u, rows')"
        using assms(2) Inl \<open>e = NoRows\<close> Inr by (auto simp: resolveSSOUser_def split: prod.splits option.splits)
      note l = LinkSSOIdentity_done [OF link] f(2)
      have "resolved_user p c u rows1 rows' \<and> us_ID u = us_ID ?v"
        using syncSSORole_resolved [OF _ _ _ sync] l by simp
      then show ?thesis using l none f(1) by (simp add: resolved_user_def sso_account_def)
    next
      case (Inl e')
      then have "e' = NoRows" using assms(2) \<open>e = NoRows\<close> \<open>GetUserBySSOIdentity _ _ _ _ = Inl e\<close>
        by (cases e') (simp_all add: resolveSSOUser_def)
      with Inl have none': "find (\<lambda>u. us_Email u = so_Email c) rows = None"
        using query_user_NoRows unfolding GetUserByEmail_def by blast
      obtain v rows1 uc where create: "User_Create env uc rows = (Inr v, rows1)" "uc_Role uc = ResolveRole p c"
        and link: "LinkSSOIdentity env (us_ID v) (sv_issuer p) (so_Subject c) rows1 = (None, rows')"
        and u: "u = v\<lparr>us_SSO := Some (sv_issuer p, so_Subject c)\<rparr>"
        using assms(2) Inl \<open>e' = NoRows\<close> \<open>e = NoRows\<close> \<open>GetUserBySSOIdentity _ _ _ _ = Inl e\<close>
        by (auto simp: resolveSSOUser_def Let_def split: prod.splits option.splits sum.splits)
      note d = User_Create_done [OF create(1)]
      have "v \<in> set rows1" using d by simp
      then have "u \<in> set rows' \<and> (\<forall>w. us_ID w \<noteq> us_ID v \<longrightarrow> (w \<in> set rows' \<longleftrightarrow> w \<in> set rows1))"
        using LinkSSOIdentity_done [OF link] u by simp
      then show ?thesis using d create(2) none none' by (auto simp: resolved_user_def sso_account_def u)
    qed
  qed
  moreover have "users_ok rows'" using next1 assms(1) by (simp add: users_next_def)
  ultimately show ?thesis using users_ok_SSO [of rows'] unfolding resolved_user_def by (metis option.distinct(1))
qed

definition sample_user :: user_row where
  "sample_user = \<lparr>us_ID = ''u1'', us_Username = ''ana'', us_Email = ''ana@corp'', us_PasswordHash = ''$secret'',
     us_Role = ''admin'', us_IsActive = True, us_TokenVersion = 3, us_CreatedAt = 0, us_LastLogin = None, us_SSO = None\<rparr>"

definition sample_user_env :: user_env where
  "sample_user_env = \<lparr>ux_now = 1000, ux_new_id = (\<lambda>rows. CHR ''n'' # nat_str (length rows)), ux_fail = (\<lambda>_. None)\<rparr>"

definition sample_provider :: sso_provider where
  "sample_provider = \<lparr>sv_issuer = ''idp'', sv_groupClaim = ''groups'', sv_adminGroup = ''ops'',
     sv_exchange = (\<lambda>code. Inr (\<lparr>so_Subject = ''s1'', so_Email = ''ana@corp'', so_EmailVerified = True,
       so_PreferredUsername = ''ana'', so_Groups = []\<rparr>, \<lambda>_. None))\<rparr>"

definition sample_sso_claims :: sso_claims where
  "sample_sso_claims = \<lparr>so_Subject = ''s1'', so_Email = ''ana@corp'', so_EmailVerified = True,
     so_PreferredUsername = ''ana'', so_Groups = []\<rparr>"

theorem sso_user_resolved_witness:
  "resolved_user sample_provider sample_sso_claims (sample_user\<lparr>us_SSO := Some (''idp'', ''s1''), us_Role := ''viewer''\<rparr>)
     [sample_user] [sample_user\<lparr>us_SSO := Some (''idp'', ''s1''), us_Role := ''viewer''\<rparr>]"
proof -
  have "users_ok [sample_user]" by (simp add: users_ok_def sample_user_def user_roles_def)
  moreover have "resolveSSOUser sample_user_env sample_provider sample_sso_claims [sample_user] =
      (Inr (sample_user\<lparr>us_SSO := Some (''idp'', ''s1''), us_Role := ''viewer''\<rparr>),
       [sample_user\<lparr>us_SSO := Some (''idp'', ''s1''), us_Role := ''viewer''\<rparr>])"
    by code_simp
  ultimately show ?thesis using sso_user_resolved by blast
qed

end
