(* ===== verification/Rate_Limit.thy ===== *)
theory Rate_Limit
  imports Project_Store
begin

text \<open>
  Rate limiting: the token bucket of the API keys (\<^verbatim>\<open>src/internal/ratelimit/bucket.go\<close>) and the
  fixed windows in front of every route (\<^verbatim>\<open>src/internal/middleware/ratelimit.go\<close>).  Redis is
  a map from keys to values with the second at which they expire; a key that has expired is
  absent.  A call that fails leaves it unchanged.  The numbers of the Lua script are rationals
  instead of floats; parsing an IP address is a parameter.
\<close>

section \<open>Redis\<close>

type_synonym 'v redis = "string \<Rightarrow> ('v \<times> int) option"

definition redis_get :: "int \<Rightarrow> string \<Rightarrow> 'v redis \<Rightarrow> 'v option" where
  "redis_get now k r = (case r k of None \<Rightarrow> None | Some (v, e) \<Rightarrow> if now < e then Some v else None)"

text \<open>The pipeline of \<^verbatim>\<open>INCR\<close> and \<^verbatim>\<open>EXPIRE\<close>.\<close>

definition incr_expire :: "int \<Rightarrow> int \<Rightarrow> string \<Rightarrow> int redis \<Rightarrow> int \<times> int redis" where
  "incr_expire now ttl k r =
     (let v = (case redis_get now k r of None \<Rightarrow> 1 | Some v \<Rightarrow> v + 1) in (v, r(k \<mapsto> (v, now + ttl))))"

section \<open>The token bucket\<close>

record bucket =
  tb_capacity :: rat
  tb_refillRate :: rat

definition NewTokenBucket :: "int \<Rightarrow> rat \<Rightarrow> bucket" where
  "NewTokenBucket capacity rate = \<lparr>tb_capacity = of_int capacity, tb_refillRate = rate\<rparr>"

definition Capacity :: "bucket \<Rightarrow> int" where
  "Capacity b = floor (tb_capacity b)"

text \<open>The script: the value of a key is the number of tokens and the time of the last refill.
  A key lives for twice the time an empty bucket takes to fill.\<close>

definition refill :: "bucket \<Rightarrow> int \<Rightarrow> rat \<times> int \<Rightarrow> rat" where
  "refill b now v =
     (let elapsed = now - snd v in
      if elapsed > 0 then min (fst v + of_int elapsed * tb_refillRate b) (tb_capacity b) else fst v)"

definition bucket_ttl :: "bucket \<Rightarrow> int" where
  "bucket_ttl b = ceiling (tb_capacity b / tb_refillRate b) * 2"

definition allowScript :: "bucket \<Rightarrow> int \<Rightarrow> rat \<Rightarrow> string \<Rightarrow> (rat \<times> int) redis \<Rightarrow> (bool \<times> rat) \<times> (rat \<times> int) redis" where
  "allowScript b now cost k r =
     (case redis_get now k r of
        None \<Rightarrow> (let tokens = tb_capacity b - cost in ((True, tokens), r(k \<mapsto> ((tokens, now), now + bucket_ttl b))))
      | Some v \<Rightarrow> (let tokens = refill b now v in
          if tokens \<ge> cost then ((True, tokens - cost), r(k \<mapsto> ((tokens - cost, now), now + bucket_ttl b)))
          else ((False, tokens), r)))"

text \<open>The conversion of a Lua number to a Redis integer drops the fraction.  \<open>None\<close> is a panic;
  \<open>up\<close> tells whether Redis answers.\<close>

definition trunc :: "rat \<Rightarrow> int" where
  "trunc x = (if x \<ge> 0 then floor x else ceiling x)"

definition AllowN :: "bucket \<Rightarrow> bool \<Rightarrow> int \<Rightarrow> string \<Rightarrow> int \<Rightarrow> (rat \<times> int) redis \<Rightarrow> ((bool \<times> int) \<times> (rat \<times> int) redis) option" where
  "AllowN b up now k n r =
     (if n < 0 then None
      else if n = 0 then Some ((True, 0), r)
      else if \<not> up then Some ((False, 0), r)
      else (case allowScript b now (of_int n) k r of ((ok, tokens), r') \<Rightarrow> Some ((ok, trunc tokens), r')))"

definition Allow :: "bucket \<Rightarrow> bool \<Rightarrow> int \<Rightarrow> string \<Rightarrow> (rat \<times> int) redis \<Rightarrow> ((bool \<times> int) \<times> (rat \<times> int) redis) option" where
  "Allow b up now k r = AllowN b up now k 1 r"

section \<open>Fixed windows\<close>

definition RateLimitWindow :: int where
  "RateLimitWindow = 60"

definition windowKey :: "string \<Rightarrow> int \<Rightarrow> string" where
  "windowKey k now = k @ '':'' @ itoa (now div RateLimitWindow)"

definition CheckRateLimit :: "bool \<Rightarrow> bool \<Rightarrow> int \<Rightarrow> string \<Rightarrow> int \<Rightarrow> int redis \<Rightarrow> (bool \<times> int \<times> int) \<times> int redis" where
  "CheckRateLimit failClosed up now k limit r =
     (if \<not> up then ((if failClosed then (False, 0, now + RateLimitWindow) else (True, limit, now + RateLimitWindow)), r)
      else (case incr_expire now RateLimitWindow (windowKey k now) r of (count, r') \<Rightarrow>
        (let resetTime = (now div RateLimitWindow + 1) * RateLimitWindow in
         ((if count > limit then (False, 0, resetTime) else (True, limit - count, resetTime)), r'))))"

section \<open>The address of a client\<close>

record proxy_config =
  px_cidrs :: "(string \<Rightarrow> bool) list"
  px_parse :: "string \<Rightarrow> string option"

record http_request =
  hq_Path :: string
  hq_RemoteAddr :: string
  hq_ForwardedFor :: string
  hq_RealIP :: string

definition isTrustedProxy :: "proxy_config \<Rightarrow> string \<Rightarrow> bool" where
  "isTrustedProxy px ip = list_ex (\<lambda>cidr. cidr ip) (px_cidrs px)"

definition extractRemoteAddr :: "string \<Rightarrow> string" where
  "extractRemoteAddr addr = (case last_index_byte addr (CHR '':'') of Some i \<Rightarrow> take i addr | None \<Rightarrow> addr)"

definition ClientIP :: "proxy_config \<Rightarrow> http_request \<Rightarrow> string" where
  "ClientIP px req =
     (let directIP = px_parse px (extractRemoteAddr (hq_RemoteAddr req));
          direct = (case directIP of Some ip \<Rightarrow> ip | None \<Rightarrow> hq_RemoteAddr req);
          xff = hq_ForwardedFor req
      in if px_cidrs px \<noteq> [] \<and> (case directIP of None \<Rightarrow> False | Some ip \<Rightarrow> \<not> isTrustedProxy px ip) then direct
         else if xff \<noteq> [] then
           trim_space (case cut xff '','' of Some (before, _) \<Rightarrow> before | None \<Rightarrow> xff)
         else if hq_RealIP req \<noteq> [] then trim_space (hq_RealIP req)
         else direct)"

section \<open>The middleware\<close>

definition isAuthEndpoint :: "string \<Rightarrow> bool" where
  "isAuthEndpoint path \<longleftrightarrow> path = ''/api/auth/login'' \<or> path = ''/api/auth/logout''"

definition isHeavyEndpoint :: "string \<Rightarrow> bool" where
  "isHeavyEndpoint path \<longleftrightarrow>
     path = ''/api/findings/export'' \<or> path = ''/api/metrics/trends'' \<or> path = ''/api/metrics/risk''"

definition getUserID :: "claims option \<Rightarrow> string" where
  "getUserID who = (case who of Some c \<Rightarrow> cm_UserID c | None \<Rightarrow> [])"

definition rate_key :: "proxy_config \<Rightarrow> claims option \<Rightarrow> http_request \<Rightarrow> string \<times> int" where
  "rate_key px who req =
     (let ip = (if ClientIP px req = [] then ''unknown'' else ClientIP px req) in
      if isAuthEndpoint (hq_Path req) then (''ratelimit:auth:'' @ ip, 20)
      else if isHeavyEndpoint (hq_Path req) then
        (''ratelimit:heavy:'' @ (if getUserID who \<noteq> [] then getUserID who else ip), 120)
      else (''ratelimit:general:'' @ ip, 300))"

definition RateLimiter ::
  "proxy_config \<Rightarrow> bool \<Rightarrow> int \<Rightarrow> claims option \<Rightarrow> http_request \<Rightarrow> int redis \<Rightarrow> gate \<times> int redis" where
  "RateLimiter px up now who req r =
     (if hq_Path req = ''/api/health'' \<or> hq_Path req = ''/api/version'' \<or> hq_Path req = ''/metrics'' then (Next, r)
      else (case CheckRateLimit True up now (fst (rate_key px who req)) (snd (rate_key px who req)) r of
          ((allowed, _, _), r') \<Rightarrow>
            (if \<not> allowed then Refuse 429 ''Too many requests. Please try again later.'' else Next, r')))"

section \<open>Decimal numbers\<close>

definition digits_value :: "string \<Rightarrow> nat" where
  "digits_value s = foldl (\<lambda>n c. 10 * n + (of_char c - 48)) 0 s"

lemma nat_str_value: "digits_value (nat_str n) = n"
proof (induction n rule: nat_str.induct)
  case (1 n)
  then show ?case by (subst nat_str.simps) (simp add: digits_value_def)
qed

lemma nat_str_digits: "c \<in> set (nat_str n) \<Longrightarrow> 48 \<le> (of_char c :: nat) \<and> of_char c < (58 :: nat)"
proof (induction n rule: nat_str.induct)
  case (1 n)
  then show ?case by (subst (asm) (2) nat_str.simps) (auto split: if_splits)
qed

lemma nat_str_nonempty: "nat_str n \<noteq> []"
  by (subst nat_str.simps) simp

lemma nat_str_inject: "nat_str m = nat_str n \<longleftrightarrow> m = n"
  by (metis nat_str_value)

lemma itoa_inject: "0 \<le> i \<Longrightarrow> 0 \<le> j \<Longrightarrow> itoa i = itoa j \<longleftrightarrow> i = j"
  by (simp add: itoa_def nat_str_inject eq_nat_nat_iff)

lemma nat_str_no_colon: "CHR '':'' \<notin> set (nat_str n)"
proof
  assume "CHR '':'' \<in> set (nat_str n)"
  then have "of_char CHR '':'' < (58 :: nat)" using nat_str_digits by blast
  then show False by simp
qed

lemma itoa_no_colon: "CHR '':'' \<notin> set (itoa i)"
  by (simp add: itoa_def nat_str_no_colon)

lemma last_colon:
  assumes "c \<notin> set x" "c \<notin> set y"
  shows "a @ c # x = b @ c # y \<longleftrightarrow> a = b \<and> x = y"
proof
  assume "a @ c # x = b @ c # y"
  then consider us where "a = b @ us" "us @ c # x = c # y" | us where "a @ us = b" "c # x = us @ c # y"
    unfolding append_eq_append_conv2 by blast
  then show "a = b \<and> x = y"
  proof cases
    case (1 us)
    then show ?thesis using assms(2) by (cases us) auto
  next
    case (2 us)
    then show ?thesis using assms(1) by (cases us) auto
  qed
qed simp

lemma windowKey_inject:
  "0 \<le> s \<Longrightarrow> 0 \<le> t \<Longrightarrow> windowKey k s = windowKey l t \<longleftrightarrow> k = l \<and> s div 60 = t div 60"
  using last_colon [OF itoa_no_colon itoa_no_colon] itoa_inject [of "s div 60" "t div 60"]
  by (simp add: windowKey_def RateLimitWindow_def pos_imp_zdiv_nonneg_iff)

section \<open>The token bucket as a level that fills\<close>

text \<open>What the script implements: every key has a level of tokens, at first the capacity, that
  rises with time up to the capacity; a request passes when the level is at least one, and
  lowers it by one.\<close>

definition bucket_level :: "bucket \<Rightarrow> int \<Rightarrow> string \<Rightarrow> (rat \<times> int) redis \<Rightarrow> rat" where
  "bucket_level b now k r =
     (case r k of None \<Rightarrow> tb_capacity b
      | Some ((tokens, stamp), _) \<Rightarrow> min (tokens + of_int (now - stamp) * tb_refillRate b) (tb_capacity b))"

definition bucket_ok :: "bucket \<Rightarrow> int \<Rightarrow> (rat \<times> int) redis \<Rightarrow> bool" where
  "bucket_ok b now r \<longleftrightarrow> (\<forall>k tokens stamp e. r k = Some ((tokens, stamp), e) \<longrightarrow>
     0 \<le> tokens \<and> tokens \<le> tb_capacity b \<and> stamp \<le> now \<and> e = stamp + bucket_ttl b)"

definition bucket_valid :: "bucket \<Rightarrow> bool" where
  "bucket_valid b \<longleftrightarrow> 1 \<le> tb_capacity b \<and> 0 < tb_refillRate b"

lemma bucket_ok_empty: "bucket_ok b now (\<lambda>_. None)"
  by (simp add: bucket_ok_def)

lemma bucket_ok_later: "bucket_ok b s r \<Longrightarrow> s \<le> t \<Longrightarrow> bucket_ok b t r"
  unfolding bucket_ok_def by (meson order_trans)

lemma expired_full:
  assumes "bucket_valid b" "0 \<le> tokens" "stamp + bucket_ttl b \<le> now"
  shows "tb_capacity b \<le> tokens + of_int (now - stamp) * tb_refillRate b"
proof -
  let ?q = "tb_capacity b / tb_refillRate b"
  have pos: "0 < tb_refillRate b" "0 \<le> ?q" using assms(1) by (simp_all add: bucket_valid_def)
  have "0 \<le> ceiling ?q" using ceiling_mono [OF pos(2)] by simp
  then have "ceiling ?q \<le> now - stamp" using assms(3) unfolding bucket_ttl_def by linarith
  then have "of_int (ceiling ?q) \<le> (of_int (now - stamp) :: rat)" by (simp only: of_int_le_iff)
  then have "?q \<le> of_int (now - stamp)" by (meson le_of_int_ceiling order_trans)
  then have "tb_capacity b \<le> of_int (now - stamp) * tb_refillRate b" using pos(1) by (simp add: pos_divide_le_eq)
  then show ?thesis using assms(2) by linarith
qed

lemma bucket_level_le: "bucket_level b now k r \<le> tb_capacity b"
  by (auto simp: bucket_level_def split: option.split)

lemma bucket_level_growth:
  assumes "bucket_valid b" "s \<le> t"
  shows "bucket_level b t k r \<le> bucket_level b s k r + of_int (t - s) * tb_refillRate b"
proof -
  have "0 \<le> of_int (t - s) * tb_refillRate b" using assms by (simp add: bucket_valid_def)
  then show ?thesis by (auto simp: bucket_level_def algebra_simps split: option.split)
qed

lemma bucket_level_nonneg:
  assumes "bucket_valid b" "bucket_ok b t r"
  shows "0 \<le> bucket_level b t k r"
proof (cases "r k")
  case None
  then show ?thesis using assms(1) by (simp add: bucket_level_def bucket_valid_def)
next
  case (Some x)
  obtain tokens stamp e where x: "x = ((tokens, stamp), e)" by (metis prod.exhaust)
  then have "0 \<le> tokens" "stamp \<le> t" using assms(2) Some unfolding bucket_ok_def by blast+
  then have "0 \<le> tokens + of_int (t - stamp) * tb_refillRate b" using assms(1) by (simp add: bucket_valid_def)
  then show ?thesis using assms(1) Some x by (simp add: bucket_level_def bucket_valid_def)
qed

lemma Allow_level:
  assumes v: "bucket_valid b" and ok: "bucket_ok b now r"
  shows "\<exists>r'. Allow b True now k r =
      Some ((1 \<le> bucket_level b now k r, trunc (bucket_level b now k r - of_bool (1 \<le> bucket_level b now k r))), r') \<and>
    bucket_ok b now r' \<and>
    (\<forall>t \<ge> now. bucket_level b t k r' =
       (if 1 \<le> bucket_level b now k r
        then min (bucket_level b now k r - 1 + of_int (t - now) * tb_refillRate b) (tb_capacity b)
        else bucket_level b t k r)) \<and>
    (\<forall>l. l \<noteq> k \<longrightarrow> r' l = r l)"
proof -
  define L where "L = bucket_level b now k r"
  have script: "allowScript b now 1 k r =
      (if 1 \<le> L then ((True, L - 1), r(k \<mapsto> ((L - 1, now), now + bucket_ttl b))) else ((False, L), r))"
  proof (cases "r k")
    case None
    then show ?thesis using v
      by (simp add: L_def allowScript_def redis_get_def bucket_level_def bucket_valid_def Let_def)
  next
    case (Some x)
    obtain tokens stamp e where x: "x = ((tokens, stamp), e)" by (metis prod.exhaust)
    have b: "0 \<le> tokens" "tokens \<le> tb_capacity b" "stamp \<le> now" "e = stamp + bucket_ttl b"
      using ok Some x unfolding bucket_ok_def by blast+
    show ?thesis
    proof (cases "now < e")
      case True
      have "refill b now (tokens, stamp) = L"
        using b by (auto simp: L_def refill_def bucket_level_def Some x Let_def)
      then show ?thesis using True Some x by (simp add: allowScript_def redis_get_def)
    next
      case False
      then have "L = tb_capacity b"
        using expired_full [OF v b(1), of stamp now] b(4) by (simp add: L_def bucket_level_def Some x)
      then show ?thesis using False Some x v by (simp add: allowScript_def redis_get_def bucket_valid_def Let_def)
    qed
  qed
  have L: "L \<le> tb_capacity b" by (simp add: L_def bucket_level_le)
  let ?r = "if 1 \<le> L then r(k \<mapsto> ((L - 1, now), now + bucket_ttl b)) else r"
  have "Allow b True now k r = Some ((1 \<le> L, trunc (L - of_bool (1 \<le> L))), ?r)"
    by (simp add: Allow_def AllowN_def script)
  moreover have "bucket_ok b now ?r" using ok L by (auto simp: bucket_ok_def)
  moreover have "\<forall>t \<ge> now. bucket_level b t k ?r = (if 1 \<le> L
      then min (L - 1 + of_int (t - now) * tb_refillRate b) (tb_capacity b) else bucket_level b t k r)"
    by (simp add: bucket_level_def [of b _ k "r(k \<mapsto> ((L - 1, now), now + bucket_ttl b))"])
  moreover have "\<forall>l. l \<noteq> k \<longrightarrow> ?r l = r l" by simp
  ultimately show ?thesis unfolding L_def [symmetric] by blast
qed

subsection \<open>Sequences of requests\<close>

fun allow_run :: "bucket \<Rightarrow> (string \<times> int) list \<Rightarrow> (rat \<times> int) redis \<Rightarrow> bool list \<times> (rat \<times> int) redis" where
  "allow_run b [] r = ([], r)"
| "allow_run b ((k, t) # evs) r =
     (case Allow b True t k r of
        None \<Rightarrow> ([], r)
      | Some ((ok, _), r') \<Rightarrow> (case allow_run b evs r' of (oks, r'') \<Rightarrow> (ok # oks, r'')))"

text \<open>The requests with a key that passed.\<close>

definition admitted :: "string \<Rightarrow> (string \<times> int) list \<Rightarrow> bool list \<Rightarrow> nat" where
  "admitted k evs oks = length (filter (\<lambda>((l, _), ok). l = k \<and> ok) (zip evs oks))"

lemma admitted_Nil [simp]: "admitted k [] oks = 0"
  by (simp add: admitted_def)

lemma admitted_Cons [simp]:
  "admitted k ((l, t) # evs) (ok # oks) = of_bool (l = k \<and> ok) + admitted k evs oks"
  by (simp add: admitted_def)

lemma bucket_level_cong: "r k = r' k \<Longrightarrow> bucket_level b t k r = bucket_level b t k r'"
  by (simp add: bucket_level_def)

lemma allow_run_bound:
  assumes v: "bucket_valid b"
  shows "sorted (map snd evs) \<Longrightarrow> \<forall>e \<in> set evs. s \<le> snd e \<and> snd e \<le> u \<Longrightarrow> s \<le> u \<Longrightarrow> bucket_ok b s r \<Longrightarrow>
    allow_run b evs r = (oks, r') \<Longrightarrow>
    bucket_ok b u r' \<and> length oks = length evs \<and>
    of_nat (admitted k evs oks) + bucket_level b u k r' \<le> bucket_level b s k r + of_int (u - s) * tb_refillRate b"
proof (induction evs arbitrary: s r oks)
  case Nil
  then show ?case using bucket_level_growth [OF v, of s u k r] bucket_ok_later [of b s r u] by simp
next
  case (Cons e evs)
  obtain l t where e: "e = (l, t)" by fastforce
  have st: "s \<le> t" "t \<le> u" using Cons.prems(2) e by simp_all
  have ok: "bucket_ok b t r" by (rule bucket_ok_later [OF Cons.prems(4) st(1)])
  let ?L = "bucket_level b t l r"
  obtain r1 where step: "Allow b True t l r = Some ((1 \<le> ?L, trunc (?L - of_bool (1 \<le> ?L))), r1)"
    and ok1: "bucket_ok b t r1"
    and lev: "\<forall>w \<ge> t. bucket_level b w l r1 =
      (if 1 \<le> ?L then min (?L - 1 + of_int (w - t) * tb_refillRate b) (tb_capacity b) else bucket_level b w l r)"
    and other: "\<forall>m. m \<noteq> l \<longrightarrow> r1 m = r m"
    using Allow_level [OF v ok, of l] by blast
  obtain oks1 where run: "allow_run b evs r1 = (oks1, r')" "oks = (1 \<le> ?L) # oks1"
    using Cons.prems(5) step by (auto simp: e split: prod.splits)
  have IH: "bucket_ok b u r' \<and> length oks1 = length evs \<and>
      of_nat (admitted k evs oks1) + bucket_level b u k r' \<le> bucket_level b t k r1 + of_int (u - t) * tb_refillRate b"
    using Cons.prems(1,2) e by (intro Cons.IH [OF _ _ st(2) ok1 run(1)]) auto
  have lev_t: "bucket_level b t l r1 = ?L - of_bool (1 \<le> ?L)"
    using lev [rule_format, of t] bucket_level_le [of b t l r] by auto
  have now: "of_bool (l = k \<and> 1 \<le> ?L) + bucket_level b t k r1 = bucket_level b t k r"
  proof (cases "l = k")
    case True
    then show ?thesis using lev_t by simp
  next
    case False
    then have "r1 k = r k" using other by simp
    then show ?thesis using False bucket_level_cong [of r1 k r b t] by simp
  qed
  have grow: "bucket_level b t k r \<le> bucket_level b s k r + of_int (t - s) * tb_refillRate b"
    by (rule bucket_level_growth [OF v st(1)])
  have "(of_nat (admitted k (e # evs) oks) :: rat) = of_bool (l = k \<and> 1 \<le> ?L) + of_nat (admitted k evs oks1)"
    by (simp add: e run(2))
  moreover have "(of_int (u - s) :: rat) * tb_refillRate b = of_int (u - t) * tb_refillRate b + of_int (t - s) * tb_refillRate b"
    by (simp add: algebra_simps)
  ultimately have "of_nat (admitted k (e # evs) oks) + bucket_level b u k r' \<le> bucket_level b s k r + of_int (u - s) * tb_refillRate b"
    using IH now grow by linarith
  then show ?case using IH run(2) by simp
qed

lemma allow_run_append:
  assumes "bucket_valid b" "sorted (map snd (xs @ ys))" "\<forall>e \<in> set (xs @ ys). s \<le> snd e" "bucket_ok b s r"
    and "allow_run b (xs @ ys) r = (oks, r'')"
  shows "\<exists>oks1 r' oks2. allow_run b xs r = (oks1, r') \<and> allow_run b ys r' = (oks2, r'') \<and> oks = oks1 @ oks2 \<and>
    length oks1 = length xs"
  using assms(2-)
proof (induction xs arbitrary: s r oks)
  case Nil
  then show ?case by simp
next
  case (Cons e xs)
  obtain l t where e: "e = (l, t)" by fastforce
  have "bucket_ok b t r" using bucket_ok_later [OF Cons.prems(3)] Cons.prems(2) e by simp
  then obtain ok m r1 where step: "Allow b True t l r = Some ((ok, m), r1)" and ok1: "bucket_ok b t r1"
    using Allow_level [OF assms(1)] by blast
  obtain oks0 where run: "allow_run b (xs @ ys) r1 = (oks0, r'')" "oks = ok # oks0"
    using Cons.prems(4) step by (auto simp: e split: prod.splits)
  have s1: "sorted (map snd (xs @ ys))" using Cons.prems(1) by simp
  have s2: "\<forall>e \<in> set (xs @ ys). t \<le> snd e" using Cons.prems(1) e by auto
  from Cons.IH [OF s1 s2 ok1 run(1)] show ?case using step run(2) by (auto simp: e)
qed

text \<open>The stamp of a key is the time of one of its requests.\<close>

lemma allow_run_stamp:
  assumes v: "bucket_valid b"
  shows "sorted (map snd evs) \<Longrightarrow> \<forall>e \<in> set evs. s \<le> snd e \<Longrightarrow> bucket_ok b s r \<Longrightarrow> allow_run b evs r = (oks, r') \<Longrightarrow>
    r' k = r k \<or> (\<exists>tokens stamp e. r' k = Some ((tokens, stamp), e) \<and> (k, stamp) \<in> set evs)"
proof (induction evs arbitrary: s r oks)
  case Nil
  then show ?case by simp
next
  case (Cons ev evs)
  obtain l t where ev: "ev = (l, t)" by fastforce
  have "bucket_ok b t r" using bucket_ok_later [OF Cons.prems(3)] Cons.prems(2) ev by simp
  then obtain ok m r1 where step: "Allow b True t l r = Some ((ok, m), r1)" and ok1: "bucket_ok b t r1"
    using Allow_level [OF v] by blast
  have r1: "r1 k = r k \<or> (\<exists>tokens e. r1 k = Some ((tokens, t), e) \<and> k = l)"
    using step by (auto simp: Allow_def AllowN_def allowScript_def Let_def split: option.splits if_splits)
  obtain oks0 where run: "allow_run b evs r1 = (oks0, r')"
    using Cons.prems(4) step by (auto simp: ev split: prod.splits)
  have s1: "sorted (map snd evs)" using Cons.prems(1) by simp
  have s2: "\<forall>e \<in> set evs. t \<le> snd e" using Cons.prems(1) ev by auto
  from Cons.IH [OF s1 s2 ok1 run] r1 show ?case by (auto simp: ev)
qed

text \<open>C14: Whatever the requests of all the clients were before, the requests of one API key that
  the bucket lets pass between two moments are at most its capacity and what it refills in the
  time between.\<close>

theorem token_bucket_rate:
  assumes "bucket_valid b" "sorted (map snd (before @ win))" "win \<noteq> []"
    and "allow_run b (before @ win) (\<lambda>_. None) = (oks, r)"
  shows "of_nat (admitted k win (drop (length before) oks))
    \<le> tb_capacity b + of_int (snd (last win) - snd (hd win)) * tb_refillRate b"
proof -
  let ?s = "Min (snd ` set (before @ win))"
  have ge: "\<forall>e \<in> set (before @ win). ?s \<le> snd e" by simp
  obtain oks1 r' oks2 where runs: "allow_run b before (\<lambda>_. None) = (oks1, r')" "allow_run b win r' = (oks2, r)"
    and oks: "oks = oks1 @ oks2" "length oks1 = length before"
    using allow_run_append [OF assms(1,2) ge bucket_ok_empty assms(4)] by blast
  have le: "\<forall>e \<in> set before. snd e \<le> snd (hd win)" using assms(2,3) by (cases win) (auto simp: sorted_append)
  have hd: "?s \<le> snd (hd win)" using assms(3) by simp
  have s: "sorted (map snd before)" "sorted (map snd win)" using assms(2) by (simp_all add: sorted_append)
  have "\<forall>e \<in> set before. ?s \<le> snd e \<and> snd e \<le> snd (hd win)" using ge le by simp
  then have ok: "bucket_ok b (snd (hd win)) r'"
    using allow_run_bound [OF assms(1) s(1) _ hd bucket_ok_empty runs(1)] by blast
  have "\<forall>e \<in> set win. snd (hd win) \<le> snd e \<and> snd e \<le> snd (last win)"
  proof
    fix e assume "e \<in> set win"
    then obtain i where i: "i < length win" "e = win ! i" by (metis in_set_conv_nth)
    have "map snd win ! 0 \<le> map snd win ! i" "map snd win ! i \<le> map snd win ! (length win - 1)"
      using i(1) by (intro sorted_nth_mono [OF s(2)]; simp)+
    then show "snd (hd win) \<le> snd e \<and> snd e \<le> snd (last win)" using i assms(3) by (simp add: hd_conv_nth last_conv_nth)
  qed
  moreover from this have "snd (hd win) \<le> snd (last win)" using assms(3) by simp
  ultimately have bound: "bucket_ok b (snd (last win)) r \<and> length oks2 = length win \<and>
    of_nat (admitted k win oks2) + bucket_level b (snd (last win)) k r
      \<le> bucket_level b (snd (hd win)) k r' + of_int (snd (last win) - snd (hd win)) * tb_refillRate b"
    by (intro allow_run_bound [OF assms(1) s(2) _ _ ok runs(2)])
  moreover have "0 \<le> bucket_level b (snd (last win)) k r" using bucket_level_nonneg [OF assms(1)] bound by blast
  moreover have "bucket_level b (snd (hd win)) k r' \<le> tb_capacity b" by (rule bucket_level_le)
  ultimately show ?thesis unfolding oks by (simp add: oks(2))
qed

text \<open>A key that waits for the time one token takes is served: when its last request is at
  least that long ago, the next one passes, however many were refused before.\<close>

theorem token_bucket_patient:
  assumes "bucket_valid b" "sorted (map snd evs)" "allow_run b evs (\<lambda>_. None) = (oks, r)"
    and "\<forall>e \<in> set evs. snd e \<le> now" "1 \<le> of_int d * tb_refillRate b"
    and "\<forall>stamp. (k, stamp) \<in> set evs \<longrightarrow> stamp + d \<le> now"
  shows "\<exists>n r'. Allow b True now k r = Some ((True, n), r')"
proof -
  let ?s = "Min (insert now (snd ` set evs))"
  have b: "\<forall>e \<in> set evs. ?s \<le> snd e \<and> snd e \<le> now" "?s \<le> now" using assms(4) by simp_all
  have ok: "bucket_ok b now r" using allow_run_bound [OF assms(1,2) b bucket_ok_empty assms(3)] by blast
  have b': "\<forall>e \<in> set evs. ?s \<le> snd e" using b(1) by simp
  have "1 \<le> bucket_level b now k r"
  proof (cases "r k")
    case None
    then show ?thesis using assms(1) by (simp add: bucket_level_def bucket_valid_def)
  next
    case (Some x)
    then obtain tokens stamp e where x: "x = ((tokens, stamp), e)" "(k, stamp) \<in> set evs"
      using allow_run_stamp [OF assms(1,2) b' bucket_ok_empty assms(3), of k] by auto
    then have "0 \<le> tokens" using ok Some unfolding bucket_ok_def by blast
    have "of_int d \<le> (of_int (now - stamp) :: rat)" using assms(6) x(2) by (simp only: of_int_le_iff) fastforce
    then have "of_int d * tb_refillRate b \<le> of_int (now - stamp) * tb_refillRate b"
      using assms(1) by (intro mult_right_mono) (simp_all add: bucket_valid_def)
    then have "1 \<le> tokens + of_int (now - stamp) * tb_refillRate b" using assms(5) \<open>0 \<le> tokens\<close> by linarith
    then show ?thesis using assms(1) Some x(1) by (simp add: bucket_level_def bucket_valid_def)
  qed
  then show ?thesis using Allow_level [OF assms(1) ok, of k] by fastforce
qed

section \<open>The fixed windows\<close>

fun check_run :: "(string \<Rightarrow> int) \<Rightarrow> (string \<times> int) list \<Rightarrow> int redis \<Rightarrow> bool list \<times> int redis" where
  "check_run limit [] r = ([], r)"
| "check_run limit ((k, t) # evs) r =
     (case CheckRateLimit True True t k (limit k) r of
        ((ok, _, _), r') \<Rightarrow> (case check_run limit evs r' of (oks, r'') \<Rightarrow> (ok # oks, r'')))"

definition in_window :: "string \<Rightarrow> int \<Rightarrow> string \<times> int \<Rightarrow> bool" where
  "in_window k w ev \<longleftrightarrow> fst ev = k \<and> snd ev div 60 = w"

definition passed :: "string \<Rightarrow> int \<Rightarrow> (string \<times> int) list \<Rightarrow> bool list \<Rightarrow> nat" where
  "passed k w evs oks = length (filter (\<lambda>(ev, ok). in_window k w ev \<and> ok) (zip evs oks))"

lemma passed_Cons [simp]: "passed k w (ev # evs) (ok # oks) = of_bool (in_window k w ev \<and> ok) + passed k w evs oks"
  by (simp add: passed_def)

definition window_counter :: "string \<Rightarrow> int \<Rightarrow> nat \<Rightarrow> int redis \<Rightarrow> bool" where
  "window_counter k w c r \<longleftrightarrow>
     (if c = 0 then r (windowKey k (60 * w)) = None
      else \<exists>e. r (windowKey k (60 * w)) = Some (int c, e) \<and> 60 * w + 60 \<le> e)"

lemma CheckRateLimit_window:
  assumes "0 \<le> t" "0 \<le> w" "window_counter k w c r"
  shows "\<exists>ok m reset r'. CheckRateLimit True True t l limit r = ((ok, m, reset), r') \<and>
    window_counter k w (c + of_bool (in_window k w (l, t))) r' \<and>
    (in_window k w (l, t) \<longrightarrow> (ok \<longleftrightarrow> int c < limit))"
proof (cases "in_window k w (l, t)")
  case True
  then have wk: "windowKey l t = windowKey k (60 * w)" "60 * w \<le> t" "t < 60 * w + 60"
    using windowKey_inject [of t "60 * w" l k] assms(1,2) by (auto simp: in_window_def)
  have "redis_get t (windowKey k (60 * w)) r = (if c = 0 then None else Some (int c))"
    using assms(3) wk(3) by (auto simp: window_counter_def redis_get_def split: if_splits)
  then have "incr_expire t 60 (windowKey l t) r = (int c + 1, r(windowKey k (60 * w) \<mapsto> (int c + 1, t + 60)))"
    by (simp add: incr_expire_def wk(1) Let_def)
  then show ?thesis using True wk(2) by (auto simp: CheckRateLimit_def RateLimitWindow_def window_counter_def Let_def)
next
  case False
  then have "windowKey l t \<noteq> windowKey k (60 * w)"
    using windowKey_inject [of t "60 * w" l k] assms(1,2) by (auto simp: in_window_def)
  then have "window_counter k w c (snd (incr_expire t 60 (windowKey l t) r))"
    using assms(3) by (auto simp: incr_expire_def window_counter_def Let_def)
  then show ?thesis using False
    by (auto simp: CheckRateLimit_def RateLimitWindow_def Let_def split: prod.split)
qed

lemma check_run_window:
  assumes "0 \<le> w"
  shows "\<forall>ev \<in> set evs. 0 \<le> snd ev \<Longrightarrow> window_counter k w c r \<Longrightarrow> 0 \<le> limit k \<Longrightarrow> check_run limit evs r = (oks, r') \<Longrightarrow>
    int (passed k w evs oks) = min (limit k) (int (c + length (filter (in_window k w) evs))) - min (limit k) (int c)"
proof (induction evs arbitrary: c r oks)
  case Nil
  then show ?case by (simp add: passed_def)
next
  case (Cons ev evs)
  obtain l t where ev: "ev = (l, t)" by fastforce
  have t: "0 \<le> t" using Cons.prems(1) ev by simp
  let ?c = "c + of_bool (in_window k w (l, t))"
  obtain ok m reset r1 where step: "CheckRateLimit True True t l (limit l) r = ((ok, m, reset), r1)"
    and c1: "window_counter k w ?c r1" and ok: "in_window k w (l, t) \<longrightarrow> (ok \<longleftrightarrow> int c < limit l)"
    using CheckRateLimit_window [OF t assms Cons.prems(2), of l "limit l"] by blast
  obtain oks1 where run: "check_run limit evs r1 = (oks1, r')" "oks = ok # oks1"
    using Cons.prems(4) step by (auto simp: ev split: prod.splits)
  have nonneg: "\<forall>ev \<in> set evs. 0 \<le> snd ev" using Cons.prems(1) by simp
  have IH: "int (passed k w evs oks1) =
      min (limit k) (int (?c + length (filter (in_window k w) evs))) - min (limit k) (int ?c)"
    by (rule Cons.IH [OF nonneg c1 Cons.prems(3) run(1)])
  show ?case
  proof (cases "in_window k w (l, t)")
    case True
    then have "ok \<longleftrightarrow> int c < limit k" using ok by (simp add: in_window_def)
    then show ?thesis using IH True Cons.prems(3) by (simp add: ev run(2))
  next
    case False
    then show ?thesis using IH by (simp add: ev run(2))
  qed
qed

text \<open>The limiter in front of the routes counts exactly: of the requests with one key in one
  minute of the clock the first ones pass, as many as the limit allows, and the rest are
  refused, whatever other keys and other minutes hold.\<close>

theorem fixed_window_exact:
  assumes "\<forall>ev \<in> set evs. 0 \<le> snd ev" "0 \<le> w" "0 \<le> limit k" "check_run limit evs (\<lambda>_. None) = (oks, r)"
  shows "int (passed k w evs oks) = min (limit k) (int (length (filter (in_window k w) evs)))"
  using check_run_window [OF assms(2,1) _ assms(3,4), of 0] assms(3) by (simp add: window_counter_def)

section \<open>Trusted proxies\<close>

lemma last_index_append: "c \<notin> set v \<Longrightarrow> last_index_byte (u @ c # v) c = Some (length u)"
proof (induction u)
  case Nil
  have "last_index_byte v c = None" using Nil by (induction v) auto
  then show ?case by simp
qed simp

text \<open>With proxies configured, the headers of a client that connects directly over IPv4 are
  ignored.  Over IPv6 they are believed: the address keeps its brackets, does not parse, and
  the test of the proxy is skipped, so any such client chooses the key it is limited by.\<close>

theorem ClientIP_headers:
  assumes "px_cidrs px \<noteq> []" "\<forall>s. px_parse px (CHR ''['' # s) = None"
    and "CHR '':'' \<notin> set port" "plain_token claimed" "CHR '','' \<notin> set claimed" "hq_ForwardedFor req = claimed"
  shows "(px_parse px host = Some ip \<and> \<not> isTrustedProxy px ip \<and> hq_RemoteAddr req = host @ '':'' @ port \<longrightarrow>
      ClientIP px req = ip) \<and>
    (hq_RemoteAddr req = ''['' @ host @ '']:'' @ port \<longrightarrow> ClientIP px req = claimed)"
proof (intro conjI impI)
  have addr: "extractRemoteAddr (u @ CHR '':'' # port) = u" for u
    using last_index_append [OF assms(3), of u] by (simp add: extractRemoteAddr_def)
  {
    assume "px_parse px host = Some ip \<and> \<not> isTrustedProxy px ip \<and> hq_RemoteAddr req = host @ '':'' @ port"
    then show "ClientIP px req = ip" using assms(1) by (simp add: ClientIP_def addr Let_def)
  next
    assume "hq_RemoteAddr req = ''['' @ host @ '']:'' @ port"
    then have "extractRemoteAddr (hq_RemoteAddr req) = CHR ''['' # host @ [CHR '']'']"
      using addr [of "CHR ''['' # host @ [CHR '']'']"] by simp
    moreover have "cut claimed '','' = None"
      using assms(5) by (cases "cut claimed '',''") (auto dest!: cut_Some)
    ultimately show "ClientIP px req = claimed" using assms(2,4,6) trim_token [OF assms(4)]
      by (auto simp: ClientIP_def Let_def plain_token_def)
  }
qed

section \<open>Instances\<close>

definition sample_proxy :: proxy_config where
  "sample_proxy = \<lparr>px_cidrs = [has_prefix ''10.''], px_parse = (\<lambda>s. if has_prefix s ''['' then None else Some s)\<rparr>"

theorem ClientIP_headers_witness:
  "ClientIP sample_proxy \<lparr>hq_Path = ''/'', hq_RemoteAddr = ''1.2.3.4:80'', hq_ForwardedFor = ''9.9.9.9'', hq_RealIP = []\<rparr> = ''1.2.3.4'' \<and>
   ClientIP sample_proxy \<lparr>hq_Path = ''/'', hq_RemoteAddr = ''[::1]:80'', hq_ForwardedFor = ''9.9.9.9'', hq_RealIP = []\<rparr> = ''9.9.9.9''"
  using ClientIP_headers [of sample_proxy "''80''" "''9.9.9.9''"
      "\<lparr>hq_Path = ''/'', hq_RemoteAddr = ''1.2.3.4:80'', hq_ForwardedFor = ''9.9.9.9'', hq_RealIP = []\<rparr>" "''1.2.3.4''" "''1.2.3.4''"]
    ClientIP_headers [of sample_proxy "''80''" "''9.9.9.9''"
      "\<lparr>hq_Path = ''/'', hq_RemoteAddr = ''[::1]:80'', hq_ForwardedFor = ''9.9.9.9'', hq_RealIP = []\<rparr>" "''::1''"]
  by (simp add: sample_proxy_def isTrustedProxy_def has_prefix_iff plain_token_def)

theorem token_bucket_rate_witness:
  "admitted ''k'' [(''k'', 10), (''k'', 10), (''k'', 11)] (drop 1 (fst (allow_run (NewTokenBucket 1 1)
     [(''j'', 5), (''k'', 10), (''k'', 10), (''k'', 11)] (\<lambda>_. None)))) \<le> 2"
  using token_bucket_rate [of "NewTokenBucket 1 1" "[(''j'', 5)]" "[(''k'', 10), (''k'', 10), (''k'', 11)]", OF _ _ _ surjective_pairing, of "''k''"]
  by (simp add: NewTokenBucket_def bucket_valid_def)

theorem token_bucket_patient_witness:
  "\<exists>n r'. Allow (NewTokenBucket 1 1) True 12 ''k''
     (snd (allow_run (NewTokenBucket 1 1) [(''k'', 10), (''k'', 10), (''k'', 11)] (\<lambda>_. None))) = Some ((True, n), r')"
  by (rule token_bucket_patient [OF _ _ surjective_pairing, where d = 1]) (simp_all add: NewTokenBucket_def bucket_valid_def)

theorem fixed_window_exact_witness:
  "passed ''k'' 0 [(''k'', 5), (''j'', 6), (''k'', 7), (''k'', 59), (''k'', 60)]
     (fst (check_run (\<lambda>_. 2) [(''k'', 5), (''j'', 6), (''k'', 7), (''k'', 59), (''k'', 60)] (\<lambda>_. None))) = 2"
  using fixed_window_exact [of "[(''k'', 5), (''j'', 6), (''k'', 7), (''k'', 59), (''k'', 60)]" 0 "\<lambda>_. 2" "''k''", OF _ _ _ surjective_pairing]
  by (simp add: in_window_def)

end
