(* ===== verification/Event_Hub.thy ===== *)
theory Event_Hub
  imports Project_Store
begin

text \<open>
  Server-sent events (\<^verbatim>\<open>src/internal/events\<close>, \<^verbatim>\<open>src/internal/handlers/sse.go\<close>).  The hub runs in one
  goroutine that takes one message at a time from its four channels; a step of the model is
  one such message, one send to a channel, or one read by a client.  A channel is a list of
  at most its capacity; closing a closed channel and sending on one are panics, which are
  \<open>None\<close>.  Every subscription makes a channel of its own, named by a number.
\<close>

section \<open>Events\<close>

definition EventTypes :: "string list" where
  "EventTypes = [''finding_summary_completed'', ''finding_validation_completed'', ''scan_completed'', ''scan_failed'',
     ''webhook_delivered'', ''webhook_failed'', ''risk_acceptance_approved'', ''risk_acceptance_rejected'',
     ''policy_violation'', ''scheduled_task_completed'', ''notification_created'']"

definition IsValid :: "string \<Rightarrow> bool" where
  "IsValid t \<longleftrightarrow> list_ex (\<lambda>v. t = v) EventTypes"

record event_metadata =
  em_UserID :: string
  em_ProjectID :: string
  em_ScanID :: string
  em_FindingID :: string

definition no_metadata :: event_metadata where
  "no_metadata = \<lparr>em_UserID = [], em_ProjectID = [], em_ScanID = [], em_FindingID = []\<rparr>"

text \<open>The payloads, with their fields in the order of the structs.\<close>

datatype event_data =
    FindingSummaryData string string
  | FindingValidationData string rat string string
  | ScanData string string string int string
  | WebhookData string string string bool int string
  | RiskAcceptanceData string string string string string
  | PolicyViolationData string string string string string
  | ScheduledTaskData string string string bool string
  | NotificationCreatedData string string string string string string string

record event =
  et_Type :: string
  et_Data :: event_data
  et_Metadata :: event_metadata
  et_CreatedAt :: int

text \<open>A new event has no time yet; the zero time is 0.\<close>

definition new_event :: "string \<Rightarrow> event_data \<Rightarrow> event_metadata \<Rightarrow> event" where
  "new_event t d m = \<lparr>et_Type = t, et_Data = d, et_Metadata = m, et_CreatedAt = 0\<rparr>"

definition NewFindingSummaryCompleted :: "string \<Rightarrow> string \<Rightarrow> event" where
  "NewFindingSummaryCompleted findingID summary = new_event ''finding_summary_completed''
     (FindingSummaryData findingID summary) (no_metadata\<lparr>em_FindingID := findingID\<rparr>)"

definition NewFindingValidationCompleted :: "string \<Rightarrow> rat \<Rightarrow> string \<Rightarrow> string \<Rightarrow> event" where
  "NewFindingValidationCompleted findingID confidence reasoning fpLikelihood = new_event ''finding_validation_completed''
     (FindingValidationData findingID confidence reasoning fpLikelihood) (no_metadata\<lparr>em_FindingID := findingID\<rparr>)"

definition NewScanCompleted :: "string \<Rightarrow> string \<Rightarrow> string \<Rightarrow> int \<Rightarrow> event" where
  "NewScanCompleted scanID projectID scanner findingCount = new_event ''scan_completed''
     (ScanData scanID projectID scanner findingCount []) (no_metadata\<lparr>em_ProjectID := projectID\<rparr>)"

definition NewScanFailed :: "string \<Rightarrow> string \<Rightarrow> string \<Rightarrow> string \<Rightarrow> event" where
  "NewScanFailed scanID projectID scanner errorMsg = new_event ''scan_failed''
     (ScanData scanID projectID scanner 0 errorMsg) (no_metadata\<lparr>em_ProjectID := projectID\<rparr>)"

definition NewWebhookDelivered :: "string \<Rightarrow> string \<Rightarrow> string \<Rightarrow> int \<Rightarrow> event" where
  "NewWebhookDelivered webhookID deliveryID eventType statusCode = new_event ''webhook_delivered''
     (WebhookData webhookID deliveryID eventType True statusCode []) no_metadata"

definition NewWebhookFailed :: "string \<Rightarrow> string \<Rightarrow> string \<Rightarrow> string \<Rightarrow> event" where
  "NewWebhookFailed webhookID deliveryID eventType errorMsg = new_event ''webhook_failed''
     (WebhookData webhookID deliveryID eventType False 0 errorMsg) no_metadata"

definition NewRiskAcceptanceApproved :: "string \<Rightarrow> string \<Rightarrow> string \<Rightarrow> string \<Rightarrow> event" where
  "NewRiskAcceptanceApproved riskID findingID userID reviewNotes = new_event ''risk_acceptance_approved''
     (RiskAcceptanceData riskID findingID userID ''approved'' reviewNotes) no_metadata"

definition NewRiskAcceptanceRejected :: "string \<Rightarrow> string \<Rightarrow> string \<Rightarrow> string \<Rightarrow> event" where
  "NewRiskAcceptanceRejected riskID findingID userID reviewNotes = new_event ''risk_acceptance_rejected''
     (RiskAcceptanceData riskID findingID userID ''rejected'' reviewNotes) no_metadata"

definition NewPolicyViolation :: "string \<Rightarrow> string \<Rightarrow> string \<Rightarrow> string \<Rightarrow> string \<Rightarrow> event" where
  "NewPolicyViolation policyID policyName findingID userID action = new_event ''policy_violation''
     (PolicyViolationData policyID policyName findingID userID action) no_metadata"

definition NewScheduledTaskCompleted :: "string \<Rightarrow> string \<Rightarrow> string \<Rightarrow> event" where
  "NewScheduledTaskCompleted scheduleID taskType projectID = new_event ''scheduled_task_completed''
     (ScheduledTaskData scheduleID taskType projectID True []) (no_metadata\<lparr>em_ProjectID := projectID\<rparr>)"

definition NewNotificationCreated ::
  "string \<Rightarrow> string \<Rightarrow> string \<Rightarrow> string \<Rightarrow> string \<Rightarrow> string \<Rightarrow> string \<Rightarrow> event" where
  "NewNotificationCreated notificationID userID title notifType entityType entityID aiSummary = new_event ''notification_created''
     (NotificationCreatedData notificationID userID title notifType entityType entityID aiSummary)
     (no_metadata\<lparr>em_UserID := userID\<rparr>)"

section \<open>The hub\<close>

record client =
  hc_ID :: string
  hc_Chan :: nat
  hc_Buffer :: "event list"
  hc_Filters :: "string list"
  hc_UserID :: string
  hc_ProjectID :: string

record hub =
  hb_clients :: "client list"
  hb_register :: "client list"
  hb_unregister :: "string list"
  hb_events :: "event list"
  hb_broadcast :: "event list"
  hb_closed :: "nat list"

definition maxConnectionsPerUser :: nat where
  "maxConnectionsPerUser = 5"

definition new_hub :: hub where
  "new_hub = \<lparr>hb_clients = [], hb_register = [], hb_unregister = [], hb_events = [], hb_broadcast = [], hb_closed = []\<rparr>"

definition close_chan :: "nat \<Rightarrow> hub \<Rightarrow> hub option" where
  "close_chan c h = (if c \<in> set (hb_closed h) then None else Some (h\<lparr>hb_closed := c # hb_closed h\<rparr>))"

definition connections :: "string \<Rightarrow> client list \<Rightarrow> nat" where
  "connections userID cs = length (filter (\<lambda>c. hc_UserID c = userID) cs)"

text \<open>Setting an entry of the map: an entry with the same key is replaced.\<close>

definition put_client :: "client \<Rightarrow> client list \<Rightarrow> client list" where
  "put_client c cs = filter (\<lambda>x. hc_ID x \<noteq> hc_ID c) cs @ [c]"

definition run_register :: "client \<Rightarrow> hub \<Rightarrow> hub option" where
  "run_register c h =
     (if hc_UserID c \<noteq> [] \<and> connections (hc_UserID c) (hb_clients h) \<ge> maxConnectionsPerUser
      then close_chan (hc_Chan c) h
      else Some (h\<lparr>hb_clients := put_client c (hb_clients h)\<rparr>))"

definition run_unregister :: "string \<Rightarrow> hub \<Rightarrow> hub option" where
  "run_unregister clientID h =
     (case row_by hc_ID clientID (hb_clients h) of
        None \<Rightarrow> Some h
      | Some c \<Rightarrow> map_option (\<lambda>h'. h'\<lparr>hb_clients := filter (\<lambda>x. hc_ID x \<noteq> clientID) (hb_clients h')\<rparr>) (close_chan (hc_Chan c) h))"

definition matchesFilters :: "client \<Rightarrow> event \<Rightarrow> bool" where
  "matchesFilters c e \<longleftrightarrow> hc_Filters c = [] \<or> et_Type e \<in> set (hc_Filters c)"

definition matchesScope :: "client \<Rightarrow> event \<Rightarrow> bool" where
  "matchesScope c e \<longleftrightarrow>
     \<not> (hc_UserID c \<noteq> [] \<and> em_UserID (et_Metadata e) \<noteq> [] \<and> hc_UserID c \<noteq> em_UserID (et_Metadata e)) \<and>
     \<not> (hc_ProjectID c \<noteq> [] \<and> em_ProjectID (et_Metadata e) \<noteq> [] \<and> hc_ProjectID c \<noteq> em_ProjectID (et_Metadata e))"

text \<open>A full buffer drops the event.\<close>

definition offer :: "event \<Rightarrow> client \<Rightarrow> client" where
  "offer e c = (if length (hc_Buffer c) < 50 then c\<lparr>hc_Buffer := hc_Buffer c @ [e]\<rparr> else c)"

definition receives :: "event \<Rightarrow> client \<Rightarrow> bool" where
  "receives e c \<longleftrightarrow> matchesFilters c e \<and> matchesScope c e"

definition dispatchToClients :: "event \<Rightarrow> hub \<Rightarrow> hub option" where
  "dispatchToClients e h =
     (if list_ex (\<lambda>c. receives e c \<and> hc_Chan c \<in> set (hb_closed h)) (hb_clients h) then None
      else Some (h\<lparr>hb_clients := map (\<lambda>c. if receives e c then offer e c else c) (hb_clients h)\<rparr>))"

text \<open>One message of the loop \<^verbatim>\<open>run\<close>, from the channel that is chosen.\<close>

datatype source = FromRegister | FromUnregister | FromEvents | FromBroadcast

definition hub_run :: "source \<Rightarrow> hub \<Rightarrow> hub option" where
  "hub_run src h = (case src of
     FromRegister \<Rightarrow> (case hb_register h of [] \<Rightarrow> Some h | c # cs \<Rightarrow> run_register c (h\<lparr>hb_register := cs\<rparr>))
   | FromUnregister \<Rightarrow> (case hb_unregister h of [] \<Rightarrow> Some h | i # is' \<Rightarrow> run_unregister i (h\<lparr>hb_unregister := is'\<rparr>))
   | FromEvents \<Rightarrow> (case hb_events h of [] \<Rightarrow> Some h | e # es \<Rightarrow> dispatchToClients e (h\<lparr>hb_events := es\<rparr>))
   | FromBroadcast \<Rightarrow> (case hb_broadcast h of [] \<Rightarrow> Some h | e # es \<Rightarrow> dispatchToClients e (h\<lparr>hb_broadcast := es\<rparr>)))"

text \<open>Sends to the channels of the hub, which hold a hundred messages and block when full.\<close>

definition dated :: "int \<Rightarrow> event \<Rightarrow> event" where
  "dated now e = (if et_CreatedAt e = 0 then e\<lparr>et_CreatedAt := now\<rparr> else e)"

definition Publish :: "int \<Rightarrow> event \<Rightarrow> hub \<Rightarrow> hub option" where
  "Publish now e h = (if length (hb_events h) < 100 then Some (h\<lparr>hb_events := hb_events h @ [dated now e]\<rparr>) else None)"

definition Broadcast :: "int \<Rightarrow> event \<Rightarrow> hub \<Rightarrow> hub option" where
  "Broadcast now e h =
     (if length (hb_broadcast h) < 100 then Some (h\<lparr>hb_broadcast := hb_broadcast h @ [dated now e]\<rparr>) else None)"

definition new_client :: "string \<Rightarrow> nat \<Rightarrow> string \<Rightarrow> string \<Rightarrow> string list \<Rightarrow> client" where
  "new_client clientID chan userID projectID filters =
     \<lparr>hc_ID = clientID, hc_Chan = chan, hc_Buffer = [], hc_Filters = remdups filters, hc_UserID = userID, hc_ProjectID = projectID\<rparr>"

definition SubscribeWithScope ::
  "string \<Rightarrow> nat \<Rightarrow> string \<Rightarrow> string \<Rightarrow> string list \<Rightarrow> hub \<Rightarrow> hub option" where
  "SubscribeWithScope clientID chan userID projectID filters h =
     (if length (hb_register h) < 100
      then Some (h\<lparr>hb_register := hb_register h @ [new_client clientID chan userID projectID filters]\<rparr>) else None)"

definition cleanup :: "string \<Rightarrow> hub \<Rightarrow> hub option" where
  "cleanup clientID h =
     (if length (hb_unregister h) < 100 then Some (h\<lparr>hb_unregister := hb_unregister h @ [clientID]\<rparr>) else None)"

definition ClientCount :: "hub \<Rightarrow> nat" where
  "ClientCount h = length (hb_clients h)"

definition UserConnectionCount :: "string \<Rightarrow> hub \<Rightarrow> nat" where
  "UserConnectionCount userID h = (if userID = [] then 0 else connections userID (hb_clients h))"

text \<open>The number of clients for each filter, and for none.\<close>

definition GetClientStats :: "hub \<Rightarrow> nat \<times> (string \<Rightarrow> nat)" where
  "GetClientStats h = (length (hb_clients h),
     \<lambda>t. length (filter (\<lambda>c. if hc_Filters c = [] then t = ''*'' else t \<in> set (hc_Filters c)) (hb_clients h)))"

section \<open>The request\<close>

definition sse_filters :: "string \<Rightarrow> string list" where
  "sse_filters types = (if types = [] then [] else filter IsValid (map trim_space (split_on (CHR '','') types)))"

text \<open>The result is a status that refuses the request, or the hub with the new subscription; a hub
  whose channel is full blocks.\<close>

definition HandleSSEEvents ::
  "claims option \<Rightarrow> string \<Rightarrow> string \<Rightarrow> string \<Rightarrow> nat \<Rightarrow> hub \<Rightarrow> nat + hub option" where
  "HandleSSEEvents who types project_id nanos chan h =
     (let userID = (case who of None \<Rightarrow> [] | Some c \<Rightarrow> cm_UserID c);
          projectID = (case who of None \<Rightarrow> [] | Some _ \<Rightarrow> project_id)
      in if userID \<noteq> [] \<and> UserConnectionCount userID h \<ge> 5 then Inl 429
         else Inr (SubscribeWithScope (userID @ ''-'' @ nanos) chan userID projectID (sse_filters types) h))"

section \<open>The bridge between processes\<close>

text \<open>Publishing also sends the event to a Redis channel, and a process that subscribes to it, as the
  API server does, passes what it receives to its own hub.\<close>

definition PublishToRedis :: "bool \<Rightarrow> event \<Rightarrow> event list \<Rightarrow> event list" where
  "PublishToRedis enabled e redis = (if enabled then redis @ [e] else redis)"

definition Publish_bridged :: "bool \<Rightarrow> int \<Rightarrow> event \<Rightarrow> hub \<times> event list \<Rightarrow> (hub \<times> event list) option" where
  "Publish_bridged enabled now e s =
     map_option (\<lambda>h. (h, PublishToRedis enabled (dated now e) (snd s))) (Publish now e (fst s))"

definition receive_from_redis :: "hub \<times> event list \<Rightarrow> (hub \<times> event list) option" where
  "receive_from_redis s = (case snd s of
     [] \<Rightarrow> Some s
   | e # es \<Rightarrow> if length (hb_events (fst s)) < 100
       then Some ((fst s)\<lparr>hb_events := hb_events (fst s) @ [e]\<rparr>, es) else None)"

section \<open>Steps and invariant\<close>

definition chans :: "hub \<Rightarrow> nat list" where
  "chans h = map hc_Chan (hb_clients h @ hb_register h)"

inductive hub_step :: "hub \<Rightarrow> hub \<Rightarrow> bool" where
  run: "hub_run src h = Some h' \<Longrightarrow> hub_step h h'"
| subscribe: "chan \<notin> set (chans h) \<Longrightarrow> chan \<notin> set (hb_closed h) \<Longrightarrow>
    SubscribeWithScope clientID chan userID projectID filters h = Some h' \<Longrightarrow> hub_step h h'"
| publish: "Publish now e h = Some h' \<Longrightarrow> hub_step h h'"
| broadcast: "Broadcast now e h = Some h' \<Longrightarrow> hub_step h h'"
| cleanup: "cleanup clientID h = Some h' \<Longrightarrow> hub_step h h'"
| read: "hub_step h (h\<lparr>hb_clients := map (\<lambda>c. if hc_Chan c = chan then c\<lparr>hc_Buffer := tl (hc_Buffer c)\<rparr> else c) (hb_clients h)\<rparr>)"

definition client_ok :: "client \<Rightarrow> bool" where
  "client_ok c \<longleftrightarrow> length (hc_Buffer c) \<le> 50 \<and> list_all (\<lambda>e. receives e c) (hc_Buffer c)"

definition hub_ok :: "hub \<Rightarrow> bool" where
  "hub_ok h \<longleftrightarrow> distinct (map hc_ID (hb_clients h)) \<and>
     (\<forall>u. u \<noteq> [] \<longrightarrow> connections u (hb_clients h) \<le> maxConnectionsPerUser) \<and>
     distinct (chans h) \<and> set (chans h) \<inter> set (hb_closed h) = {} \<and>
     list_all client_ok (hb_clients h) \<and> list_all client_ok (hb_register h)"

section \<open>Lemmas\<close>

lemma receives_buffer [simp]: "receives e (c\<lparr>hc_Buffer := b\<rparr>) = receives e c"
  by (simp add: receives_def matchesFilters_def matchesScope_def)

lemma client_ok_offer: "client_ok c \<Longrightarrow> client_ok (if receives e c then offer e c else c)"
  by (auto simp: client_ok_def offer_def)

lemma client_ok_tl: "client_ok c \<Longrightarrow> client_ok (c\<lparr>hc_Buffer := tl (hc_Buffer c)\<rparr>)"
  by (cases "hc_Buffer c") (auto simp: client_ok_def)

lemma offer_fields [simp]: "hc_ID (offer e c) = hc_ID c" "hc_Chan (offer e c) = hc_Chan c" "hc_UserID (offer e c) = hc_UserID c"
  by (simp_all add: offer_def)

lemma connections_filter: "connections u (filter P cs) \<le> connections u cs"
  by (induction cs) (auto simp: connections_def)

lemma connections_put:
  "connections u (put_client c cs) \<le> connections u cs + (if hc_UserID c = u then 1 else 0)"
  using connections_filter [of u "\<lambda>x. hc_ID x \<noteq> hc_ID c" cs] by (simp add: put_client_def connections_def)

lemma connections_map: "(\<And>c. hc_UserID (f c) = hc_UserID c) \<Longrightarrow> connections u (map f cs) = connections u cs"
  by (simp add: connections_def filter_map comp_def)

lemma hub_ok_clients:
  assumes "hub_ok h" "\<And>c. hc_ID (f c) = hc_ID c" "\<And>c. hc_Chan (f c) = hc_Chan c" "\<And>c. hc_UserID (f c) = hc_UserID c"
    and "\<And>c. client_ok c \<Longrightarrow> client_ok (f c)"
  shows "hub_ok (h\<lparr>hb_clients := map f (hb_clients h)\<rparr>)"
  using assms(1,5) by (auto simp: hub_ok_def chans_def assms(2-4) connections_map comp_def list_all_iff)

lemma hub_ok_queues:
  assumes "hub_ok h"
  shows "hub_ok (h\<lparr>hb_unregister := is\<rparr>)" "hub_ok (h\<lparr>hb_events := es\<rparr>)" "hub_ok (h\<lparr>hb_broadcast := es\<rparr>)"
  using assms by (simp_all add: hub_ok_def chans_def)

lemma dispatch_ok:
  assumes "hub_ok h"
  shows "\<exists>h'. dispatchToClients e h = Some h' \<and> hub_ok h'"
proof -
  have "\<not> list_ex (\<lambda>c. receives e c \<and> hc_Chan c \<in> set (hb_closed h)) (hb_clients h)"
    using assms by (auto simp: hub_ok_def chans_def list_ex_iff)
  moreover have "hub_ok (h\<lparr>hb_clients := map (\<lambda>c. if receives e c then offer e c else c) (hb_clients h)\<rparr>)"
    using assms client_ok_offer by (intro hub_ok_clients) auto
  ultimately show ?thesis by (simp add: dispatchToClients_def)
qed

lemma disjoint_insert: "A \<subseteq> insert x B \<Longrightarrow> (B \<union> C) \<inter> D = {} \<Longrightarrow> x \<notin> D \<Longrightarrow> (A \<union> C) \<inter> D = {}"
  by blast

lemma register_ok:
  assumes "hub_ok h" "hb_register h = c # cs"
  shows "\<exists>h'. run_register c (h\<lparr>hb_register := cs\<rparr>) = Some h' \<and> hub_ok h'"
proof -
  have c: "hc_Chan c \<notin> set (hb_closed h)" "client_ok c" using assms by (auto simp: hub_ok_def chans_def)
  show ?thesis
  proof (cases "hc_UserID c \<noteq> [] \<and> connections (hc_UserID c) (hb_clients h) \<ge> maxConnectionsPerUser")
    case True
    then show ?thesis using assms c by (auto simp: run_register_def close_chan_def hub_ok_def chans_def)
  next
    case False
    have sub: "set (put_client c (hb_clients h)) \<subseteq> insert c (set (hb_clients h))" by (auto simp: put_client_def)
    have "connections u (put_client c (hb_clients h)) \<le> maxConnectionsPerUser" if "u \<noteq> []" for u
      using connections_put [of u c "hb_clients h"] False that assms(1) unfolding hub_ok_def
      by (cases "hc_UserID c = u") (auto simp: le_Suc_eq not_le Suc_le_eq dest: spec [of _ u])
    moreover have "distinct (map hc_ID (put_client c (hb_clients h)))"
      using assms(1) by (auto simp: put_client_def hub_ok_def distinct_map_filter)
    moreover have "distinct (map hc_Chan (put_client c (hb_clients h)) @ map hc_Chan cs)"
      using assms by (auto simp: put_client_def hub_ok_def chans_def distinct_map_filter)
    moreover have "(hc_Chan ` set (put_client c (hb_clients h)) \<union> hc_Chan ` set cs) \<inter> set (hb_closed h) = {}"
    proof -
      have "hc_Chan ` set (put_client c (hb_clients h)) \<subseteq> insert (hc_Chan c) (hc_Chan ` set (hb_clients h))" using sub by blast
      moreover have "(hc_Chan ` set (hb_clients h) \<union> hc_Chan ` set cs) \<inter> set (hb_closed h) = {}"
        using assms by (simp add: hub_ok_def chans_def)
      ultimately show ?thesis using c(1) by (rule disjoint_insert)
    qed
    moreover have "list_all client_ok (put_client c (hb_clients h))" "list_all client_ok cs"
      using assms c(2) sub by (auto simp: hub_ok_def list_all_iff)
    ultimately have "hub_ok (h\<lparr>hb_register := cs, hb_clients := put_client c (hb_clients h)\<rparr>)"
      unfolding hub_ok_def chans_def by simp
    then show ?thesis using False by (auto simp: run_register_def)
  qed
qed

lemma unregister_ok:
  assumes "hub_ok h"
  shows "\<exists>h'. run_unregister i h = Some h' \<and> hub_ok h'"
proof (cases "row_by hc_ID i (hb_clients h)")
  case None
  then show ?thesis using assms by (simp add: run_unregister_def)
next
  case (Some c)
  then have c: "c \<in> set (hb_clients h)" "hc_ID c = i" using row_by_SomeD by fastforce+
  have other: "hc_Chan x \<noteq> hc_Chan c" if "x \<in> set (hb_clients h)" "hc_ID x \<noteq> i" for x
    using that c assms by (auto simp: hub_ok_def chans_def distinct_map inj_on_def)
  have waiting: "hc_Chan x \<noteq> hc_Chan c" if "x \<in> set (hb_register h)" for x
    using that c assms by (auto simp: hub_ok_def chans_def)
  have "connections u (filter (\<lambda>x. hc_ID x \<noteq> i) (hb_clients h)) \<le> maxConnectionsPerUser" if "u \<noteq> []" for u
    using connections_filter [of u "\<lambda>x. hc_ID x \<noteq> i" "hb_clients h"] that assms le_trans unfolding hub_ok_def by blast
  moreover have "hc_Chan c \<notin> set (hb_closed h)" using assms c by (auto simp: hub_ok_def chans_def)
  moreover have "(hc_Chan ` set (filter (\<lambda>x. hc_ID x \<noteq> i) (hb_clients h)) \<union> hc_Chan ` set (hb_register h)) \<inter>
      set (hc_Chan c # hb_closed h) = {}"
  proof -
    have "hc_Chan c \<notin> hc_Chan ` set (filter (\<lambda>x. hc_ID x \<noteq> i) (hb_clients h)) \<union> hc_Chan ` set (hb_register h)"
      using other waiting by fastforce
    moreover have "(hc_Chan ` set (hb_clients h) \<union> hc_Chan ` set (hb_register h)) \<inter> set (hb_closed h) = {}"
      using assms by (simp add: hub_ok_def chans_def)
    ultimately show ?thesis by auto
  qed
  moreover have "distinct (map hc_Chan (filter (\<lambda>x. hc_ID x \<noteq> i) (hb_clients h)) @ map hc_Chan (hb_register h))"
    using assms by (auto simp: hub_ok_def chans_def distinct_map_filter)
  ultimately have "hub_ok (h\<lparr>hb_closed := hc_Chan c # hb_closed h, hb_clients := filter (\<lambda>x. hc_ID x \<noteq> i) (hb_clients h)\<rparr>)"
    using assms unfolding hub_ok_def chans_def by (simp add: distinct_map_filter list_all_iff)
  then show ?thesis using Some \<open>hc_Chan c \<notin> set (hb_closed h)\<close> by (simp add: run_unregister_def close_chan_def)
qed

lemma hub_run_ok: "hub_ok h \<Longrightarrow> \<exists>h'. hub_run src h = Some h' \<and> hub_ok h'"
  using register_ok unregister_ok [OF hub_ok_queues(1)] dispatch_ok [OF hub_ok_queues(2)] dispatch_ok [OF hub_ok_queues(3)]
  by (cases src) (auto simp: hub_run_def split: list.split)

interpretation hub_machine: invariant_machine "\<lambda>h. h = new_hub" hub_step hub_ok
proof unfold_locales
  show "hub_ok h" if "h = new_hub" for h using that by (simp add: new_hub_def hub_ok_def chans_def connections_def)
  fix h h' assume "hub_ok h" "hub_step h h'"
  from this(2) show "hub_ok h'"
  proof cases
    case (run src)
    then show ?thesis using hub_run_ok [OF \<open>hub_ok h\<close>, of src] by auto
  next
    case (subscribe chan clientID userID projectID filters)
    then have h': "h' = h\<lparr>hb_register := hb_register h @ [new_client clientID chan userID projectID filters]\<rparr>"
      by (simp add: SubscribeWithScope_def split: if_splits)
    then have "chans h' = chans h @ [chan]" by (simp add: chans_def new_client_def)
    then show ?thesis using \<open>hub_ok h\<close> subscribe(1,2) unfolding hub_ok_def
      by (simp add: h' new_client_def client_ok_def)
  next
    case (read chan)
    then show ?thesis using \<open>hub_ok h\<close> client_ok_tl by (auto intro!: hub_ok_clients)
  qed (use \<open>hub_ok h\<close> in \<open>auto simp: Publish_def Broadcast_def cleanup_def intro: hub_ok_queues split: if_splits\<close>)
qed

section \<open>Properties\<close>

text \<open>C25: However subscriptions, publications, disconnections and reads interleave, the hub never
  panics on a closed channel; no user has more than five clients, whose buffers hold at most
  fifty events, all of them of a type the client asked for and none addressed to another user
  or another project.\<close>

theorem hub_never_panics:
  assumes "hub_step\<^sup>*\<^sup>* new_hub h"
  shows "(\<exists>h'. hub_run src h = Some h') \<and> (u \<noteq> [] \<longrightarrow> UserConnectionCount u h \<le> 5) \<and>
    list_all (\<lambda>c. length (hc_Buffer c) \<le> 50 \<and> list_all (\<lambda>e. matchesFilters c e \<and> matchesScope c e) (hc_Buffer c)) (hb_clients h)"
proof -
  have ok: "hub_ok h" using hub_machine.reachable_inv [OF refl assms] .
  have "\<exists>h'. hub_run src h = Some h'" using hub_run_ok [OF ok] by blast
  moreover have "u \<noteq> [] \<longrightarrow> UserConnectionCount u h \<le> 5"
    using ok by (simp add: UserConnectionCount_def hub_ok_def maxConnectionsPerUser_def)
  moreover have "list_all (\<lambda>c. length (hc_Buffer c) \<le> 50 \<and>
      list_all (\<lambda>e. matchesFilters c e \<and> matchesScope c e) (hc_Buffer c)) (hb_clients h)"
    using ok by (simp add: hub_ok_def client_ok_def receives_def list_all_iff)
  ultimately show ?thesis by blast
qed

text \<open>The event of a finished AI summary holds the text of the summary and names no user and no
  project, so every client that did not ask for other types receives it, whoever owns the
  finding.\<close>

theorem summary_reaches_everyone:
  assumes "hub_step\<^sup>*\<^sup>* new_hub h" "c \<in> set (hb_clients h)" "hc_Filters c = []" "length (hc_Buffer c) < 50"
  shows "\<exists>h'. dispatchToClients (NewFindingSummaryCompleted findingID summary) h = Some h' \<and>
    c\<lparr>hc_Buffer := hc_Buffer c @ [NewFindingSummaryCompleted findingID summary]\<rparr> \<in> set (hb_clients h')"
proof -
  let ?e = "NewFindingSummaryCompleted findingID summary"
  obtain h' where h': "dispatchToClients ?e h = Some h'"
    using dispatch_ok [OF hub_machine.reachable_inv [OF refl assms(1)]] by blast
  have "receives ?e c" using assms(3)
    by (simp add: receives_def matchesFilters_def matchesScope_def NewFindingSummaryCompleted_def new_event_def no_metadata_def)
  let ?f = "\<lambda>c. if receives ?e c then offer ?e c else c"
  have "?f c = c\<lparr>hc_Buffer := hc_Buffer c @ [?e]\<rparr>" using \<open>receives ?e c\<close> assms(4) by (simp add: offer_def)
  moreover have "?f c \<in> ?f ` set (hb_clients h)" using assms(2) by (rule imageI)
  moreover have "hb_clients h' = map ?f (hb_clients h)"
    using h' by (auto simp: dispatchToClients_def split: if_splits)
  ultimately have "c\<lparr>hc_Buffer := hc_Buffer c @ [?e]\<rparr> \<in> set (hb_clients h')" by (simp only: list.set_map)
  then show ?thesis using h' by (intro exI conjI)
qed

text \<open>In a process that publishes to Redis and subscribes to it, as the API server does, every event
  it publishes reaches its clients twice: once directly and once over the bridge.\<close>

theorem published_twice:
  assumes "hb_clients h = [c]" "hb_events h = []" "hc_Chan c \<notin> set (hb_closed h)"
    and "receives (dated now e) c" "length (hc_Buffer c) < 49"
  shows "\<exists>h1 h2 h3 h4. Publish_bridged True now e (h, []) = Some (h1, [dated now e]) \<and> hub_run FromEvents h1 = Some h2 \<and>
    receive_from_redis (h2, [dated now e]) = Some (h3, []) \<and> hub_run FromEvents h3 = Some h4 \<and>
    map hc_Buffer (hb_clients h4) = [hc_Buffer c @ [dated now e, dated now e]]"
  using assms
  by (simp add: Publish_bridged_def PublishToRedis_def Publish_def receive_from_redis_def hub_run_def
      dispatchToClients_def offer_def)

section \<open>Instances\<close>

definition sample_hub_client :: client where
  "sample_hub_client = new_client ''u1-1'' 0 ''u1'' [] []"

lemma sample_hub_reachable: "hub_step\<^sup>*\<^sup>* new_hub (new_hub\<lparr>hb_clients := [sample_hub_client]\<rparr>)"
proof -
  have "hub_step new_hub (new_hub\<lparr>hb_register := [sample_hub_client]\<rparr>)"
    by (rule hub_step.subscribe [of 0 _ "''u1-1''" "''u1''" "[]" "[]"])
      (simp_all add: new_hub_def chans_def SubscribeWithScope_def sample_hub_client_def)
  moreover have "hub_step (new_hub\<lparr>hb_register := [sample_hub_client]\<rparr>) (new_hub\<lparr>hb_clients := [sample_hub_client]\<rparr>)"
    by (rule hub_step.run [of FromRegister])
      (simp add: hub_run_def new_hub_def run_register_def put_client_def sample_hub_client_def new_client_def
        connections_def maxConnectionsPerUser_def)
  ultimately show ?thesis by (meson converse_rtranclp_into_rtranclp r_into_rtranclp)
qed

theorem hub_never_panics_witness:
  "(\<exists>h'. hub_run FromEvents (new_hub\<lparr>hb_clients := [sample_hub_client]\<rparr>) = Some h') \<and>
   UserConnectionCount ''u1'' (new_hub\<lparr>hb_clients := [sample_hub_client]\<rparr>) \<le> 5"
  using hub_never_panics [OF sample_hub_reachable, of FromEvents "''u1''"] by simp

theorem summary_reaches_everyone_witness:
  "\<exists>h'. dispatchToClients (NewFindingSummaryCompleted ''f9'' ''key in main.go'') (new_hub\<lparr>hb_clients := [sample_hub_client]\<rparr>) = Some h' \<and>
    map hc_Buffer (hb_clients h') = [[NewFindingSummaryCompleted ''f9'' ''key in main.go'']]"
proof -
  obtain h' where h': "dispatchToClients (NewFindingSummaryCompleted ''f9'' ''key in main.go'') (new_hub\<lparr>hb_clients := [sample_hub_client]\<rparr>) = Some h'"
    "sample_hub_client\<lparr>hc_Buffer := [NewFindingSummaryCompleted ''f9'' ''key in main.go'']\<rparr> \<in> set (hb_clients h')"
    using summary_reaches_everyone [OF sample_hub_reachable, of sample_hub_client "''f9''" "''key in main.go''"]
    by (auto simp: sample_hub_client_def new_client_def)
  moreover have "length (hb_clients h') = 1"
    using h'(1) by (auto simp: dispatchToClients_def split: if_splits)
  ultimately show ?thesis by (auto simp: length_Suc_conv)
qed

theorem published_twice_witness:
  "\<exists>h1 h2 h3 h4. Publish_bridged True 7 (NewNotificationCreated ''n1'' ''u1'' ''t'' ''info'' [] [] [])
      (new_hub\<lparr>hb_clients := [sample_hub_client]\<rparr>, []) = Some (h1, [dated 7 (NewNotificationCreated ''n1'' ''u1'' ''t'' ''info'' [] [] [])]) \<and>
    hub_run FromEvents h1 = Some h2 \<and>
    receive_from_redis (h2, [dated 7 (NewNotificationCreated ''n1'' ''u1'' ''t'' ''info'' [] [] [])]) = Some (h3, []) \<and>
    hub_run FromEvents h3 = Some h4 \<and> length (concat (map hc_Buffer (hb_clients h4))) = 2"
  using published_twice [of "new_hub\<lparr>hb_clients := [sample_hub_client]\<rparr>" sample_hub_client 7 "NewNotificationCreated ''n1'' ''u1'' ''t'' ''info'' [] [] []"]
  by (auto simp: new_hub_def sample_hub_client_def new_client_def receives_def matchesFilters_def matchesScope_def
      NewNotificationCreated_def new_event_def no_metadata_def dated_def)

end
