(* ===== verification/Access_Session.thy ===== *)
theory Access_Session
  imports Access_Users Rate_Limit Event_Hub
begin

text \<open>
  Sessions: the tokens of \<^verbatim>\<open>src/internal/auth/jwt.go\<close>, the middleware that checks their version
  (\<^verbatim>\<open>src/internal/middleware/token_version.go\<close>), the login and the user administration
  (\<^verbatim>\<open>src/internal/handlers/auth.go\<close>, \<^verbatim>\<open>users.go\<close>, \<^verbatim>\<open>sso.go\<close>), and the notifications they send
  (\<^verbatim>\<open>handler.go\<close>).  The JWT library, HMAC, base64 and bcrypt are parameters with their documented
  laws; cookies are what the client sends.
\<close>

section \<open>Signed tokens\<close>

datatype claim_value = ClaimString string | ClaimNumber rat | ClaimOther

type_synonym map_claims = "(string \<times> claim_value) list"

record jwt_lib =
  jw_sign :: "string \<Rightarrow> map_claims \<Rightarrow> string + string"
  jw_parse :: "string \<Rightarrow> int \<Rightarrow> string \<Rightarrow> string + map_claims"
  jw_mac :: "string \<Rightarrow> string \<Rightarrow> string"
  jw_b64 :: "string \<Rightarrow> string"
  jw_unb64 :: "string \<Rightarrow> string option"

record session_request =
  se_Authorization :: string
  se_Cookie :: "string option"

text \<open>\<open>None\<close> is the panic without a secret.\<close>

definition IssueToken ::
  "jwt_lib \<Rightarrow> string \<Rightarrow> int \<Rightarrow> string \<Rightarrow> string \<Rightarrow> string \<Rightarrow> int \<Rightarrow> (string + string) option" where
  "IssueToken jw secret now username role userID tokenVersion =
     (if secret = [] then None
      else Some (jw_sign jw secret [(''sub'', ClaimString username), (''role'', ClaimString role),
        (''user_id'', ClaimString userID), (''tok_ver'', ClaimNumber (of_int tokenVersion)),
        (''exp'', ClaimNumber (of_int (now + 86400)))]))"

definition tokenFromRequest :: "session_request \<Rightarrow> string" where
  "tokenFromRequest req =
     (case cut (se_Authorization req) '' '' of
        Some (scheme, after) \<Rightarrow> if scheme = ''Bearer'' then after
          else (case se_Cookie req of Some v \<Rightarrow> v | None \<Rightarrow> [])
      | None \<Rightarrow> (case se_Cookie req of Some v \<Rightarrow> v | None \<Rightarrow> []))"

definition parseToken :: "jwt_lib \<Rightarrow> string \<Rightarrow> int \<Rightarrow> session_request \<Rightarrow> (string + map_claims) option" where
  "parseToken jw secret now req =
     (if secret = [] then None
      else (let tokenStr = trim_space (tokenFromRequest req) in
        Some (if tokenStr = [] then Inl ''signature is invalid'' else jw_parse jw secret now tokenStr)))"

definition claim_string :: "map_claims \<Rightarrow> string \<Rightarrow> string" where
  "claim_string m k = (case map_of m k of Some (ClaimString s) \<Rightarrow> s | _ \<Rightarrow> [])"

definition GetClaims :: "map_claims option \<Rightarrow> claims option" where
  "GetClaims ctx = (case ctx of None \<Rightarrow> None
     | Some m \<Rightarrow> Some \<lparr>cm_Sub = claim_string m ''sub'', cm_Role = claim_string m ''role'',
         cm_UserID = claim_string m ''user_id'',
         cm_TokenVersion = (case map_of m ''tok_ver'' of Some (ClaimNumber f) \<Rightarrow> trunc f | _ \<Rightarrow> 0)\<rparr>)"

definition RequireRole :: "string list \<Rightarrow> claims option \<Rightarrow> gate" where
  "RequireRole roles who =
     (case who of None \<Rightarrow> Refuse 403 ''forbidden''
      | Some c \<Rightarrow> if cm_Role c \<in> set roles then Next else Refuse 403 ''forbidden'')"

definition RequireValidTokenVersion :: "user_env \<Rightarrow> user_row list \<Rightarrow> claims option \<Rightarrow> gate" where
  "RequireValidTokenVersion env users who =
     (case who of None \<Rightarrow> Refuse 401 ''unauthorized''
      | Some c \<Rightarrow>
          (case GetTokenVersion env (cm_UserID c) users of
             Inl e \<Rightarrow> Refuse 401 ''unauthorized''
           | Inr currentVersion \<Rightarrow>
               if cm_TokenVersion c < currentVersion then Refuse 401 ''session expired, please log in again'' else Next))"

text \<open>\<^verbatim>\<open>JWTMiddleware\<close> puts the claims of a valid token into the context of the request.\<close>

definition JWTMiddleware :: "jwt_lib \<Rightarrow> string \<Rightarrow> int \<Rightarrow> session_request \<Rightarrow> (gate + map_claims) option" where
  "JWTMiddleware jw secret now req =
     (case parseToken jw secret now req of
        None \<Rightarrow> None
      | Some (Inl e) \<Rightarrow> Some (Inl (Refuse 401 ''unauthorized''))
      | Some (Inr m) \<Rightarrow> Some (Inr m))"

text \<open>The chain in front of the routes of the platform, and of those for some roles only.\<close>

definition session_gate ::
  "jwt_lib \<Rightarrow> string \<Rightarrow> user_env \<Rightarrow> user_row list \<Rightarrow> string list option \<Rightarrow> session_request \<Rightarrow> (gate \<times> claims option) option" where
  "session_gate jw secret env users roles req =
     (case JWTMiddleware jw secret (ux_now env) req of
        None \<Rightarrow> None
      | Some (Inl g) \<Rightarrow> Some (g, None)
      | Some (Inr m) \<Rightarrow>
          (let who = GetClaims (Some m) in
           case RequireValidTokenVersion env users who of
             Refuse s t \<Rightarrow> Some (Refuse s t, None)
           | Next \<Rightarrow> Some ((case roles of None \<Rightarrow> Next | Some rs \<Rightarrow> RequireRole rs who), who)))"

subsection \<open>Signed states\<close>

definition SignState :: "jwt_lib \<Rightarrow> string \<Rightarrow> string \<Rightarrow> string + string" where
  "SignState jw secret state =
     (if secret = [] then Inl ''signature is invalid''
      else Inr (jw_b64 jw state @ ''.'' @ jw_b64 jw (jw_mac jw secret state)))"

definition VerifyState :: "jwt_lib \<Rightarrow> string \<Rightarrow> string \<Rightarrow> string + string" where
  "VerifyState jw secret signed =
     (if secret = [] then Inl ''signature is invalid''
      else (case cut signed ''.'' of
          None \<Rightarrow> Inl ''signature is invalid''
        | Some (a, b) \<Rightarrow>
            (case (jw_unb64 jw a, jw_unb64 jw b) of
               (Some state, Some sig) \<Rightarrow>
                 if sig = jw_mac jw secret state then Inr state else Inl ''signature is invalid''
             | _ \<Rightarrow> Inl ''signature is invalid'')))"

section \<open>State and environment\<close>

record notification =
  nt_ID :: string
  nt_UserID :: string
  nt_Title :: string
  nt_Message :: string
  nt_Type :: string
  nt_EntityType :: "string option"
  nt_EntityID :: "string option"
  nt_Read :: bool
  nt_AISummary :: string

text \<open>The API keys belong to \<^verbatim>\<open>repository/tokens.go\<close>; the table is here because deleting a user
  changes it.\<close>

record token_row =
  ak_ID :: string
  ak_Name :: string
  ak_Prefix :: string
  ak_Hash :: string
  ak_ProjectID :: "string option"
  ak_CreatedBy :: "string option"
  ak_LastUsedAt :: "int option"
  ak_ExpiresAt :: "int option"
  ak_CreatedAt :: int
  ak_UpdatedAt :: int

record access_state =
  xs_users :: "user_row list"
  xs_tokens :: "token_row list"
  xs_counters :: "int redis"
  xs_buckets :: "(rat \<times> int) redis"
  xs_notes :: "notification list"
  xs_published :: "event list"
  xs_intake :: intake_state

record access_env =
  ax_user :: user_env
  ax_jwt :: jwt_lib
  ax_secret :: string
  ax_redis_up :: bool
  ax_hash :: "string \<Rightarrow> string + string"
  ax_compare :: "string \<Rightarrow> string \<Rightarrow> bool"
  ax_note_id :: "notification list \<Rightarrow> string"
  ax_emailEnabled :: bool
  ax_maxUsers :: int
  ax_accept :: "queued \<Rightarrow> bool"

abbreviation "ax_now env \<equiv> ux_now (ax_user env)"
abbreviation "ax_fail env \<equiv> ux_fail (ax_user env)"

section \<open>Login\<close>

fun login_limits :: "access_env \<Rightarrow> (string \<times> int) list \<Rightarrow> int redis \<Rightarrow> bool \<times> int redis" where
  "login_limits env [] r = (True, r)"
| "login_limits env ((k, limit) # ks) r =
     (if \<not> ax_redis_up env then (False, r)
      else (case incr_expire (ax_now env) 900 k r of (v, r') \<Rightarrow>
        if v > limit then (False, r') else login_limits env ks r'))"

definition user_key :: "string \<Rightarrow> string" where
  "user_key username = ''login:ratelimit:user:'' @ username"

definition ip_key :: "string \<Rightarrow> string" where
  "ip_key ip = ''login:ratelimit:ip:'' @ ip"

text \<open>The body of the request is a user name and a password, both required.  A success gives the
  token, which the answer carries as a cookie, and the role; \<open>None\<close> is the panic of
  \<^verbatim>\<open>IssueToken\<close>.\<close>

definition Login ::
  "access_env \<Rightarrow> string \<Rightarrow> (string \<times> string) option \<Rightarrow> access_state \<Rightarrow> ((string \<times> string) reply \<times> access_state) option" where
  "Login env ip body st =
     (case body of
        None \<Rightarrow> Some (Inl (400, ''invalid request''), st)
      | Some (username, password) \<Rightarrow>
          if username = [] \<or> password = [] then Some (Inl (400, ''Validation failed''), st)
          else (case login_limits env [(user_key username, 5), (ip_key ip, 10)] (xs_counters st) of
            (False, r) \<Rightarrow> Some (Inl (429, ''too many login attempts. try again later.''), st\<lparr>xs_counters := r\<rparr>)
          | (True, r) \<Rightarrow>
              (let st = st\<lparr>xs_counters := r\<rparr> in
               case GetCredentials (ax_user env) username (xs_users st) of
                 Inl e \<Rightarrow> Some (Inl (401, ''Invalid credentials''), st)
               | Inr creds \<Rightarrow>
                   if \<not> cd_IsActive creds then Some (Inl (403, ''account is disabled''), st)
                   else if \<not> ax_compare env (cd_PasswordHash creds) password then Some (Inl (401, ''Invalid credentials''), st)
                   else (let st = st\<lparr>xs_counters := r(user_key username := None, ip_key ip := None),
                           xs_users := snd (UpdateLastLogin (ax_user env) (cd_ID creds) (xs_users st))\<rparr> in
                     case IssueToken (ax_jwt env) (ax_secret env) (ax_now env) username (cd_Role creds) (cd_ID creds) (cd_TokenVersion creds) of
                       None \<Rightarrow> None
                     | Some (Inl e) \<Rightarrow> Some (Inl (500, ''token generation failed''), st)
                     | Some (Inr token) \<Rightarrow> Some (Inr (token, cd_Role creds), st)))))"

section \<open>Single sign-on\<close>

text \<open>The start of a login: the random state, or the error of its generation, and the address of
  the provider are given.  The answer is the cookie and the redirection.\<close>

definition SSOLogin ::
  "access_env \<Rightarrow> sso_provider option \<Rightarrow> (string \<Rightarrow> string) \<Rightarrow> string + string \<Rightarrow> (string \<times> string) reply" where
  "SSOLogin env provider authURL nonce =
     (case provider of
        None \<Rightarrow> Inl (404, ''sso not configured'')
      | Some p \<Rightarrow>
        (case nonce of
           Inl e \<Rightarrow> Inl (500, ''failed to generate SSO state'')
         | Inr state \<Rightarrow>
           (case SignState (ax_jwt env) (ax_secret env) state of
              Inl e \<Rightarrow> Inl (500, ''failed to sign SSO state'')
            | Inr signed \<Rightarrow> Inr (signed, authURL state))))"

text \<open>The callback with its code, its state and the state cookie.  It redirects; a success sets
  the cookie of the session.\<close>

definition SSOCallback ::
  "access_env \<Rightarrow> sso_provider option \<Rightarrow> string \<Rightarrow> string \<Rightarrow> string option \<Rightarrow> access_state \<Rightarrow> (string reply \<times> access_state) option" where
  "SSOCallback env provider code state cookie st =
     (case provider of
        None \<Rightarrow> Some (Inl (404, ''sso not configured''), st)
      | Some p \<Rightarrow>
        if code = [] \<or> state = [] then Some (Inl (400, ''missing code or state parameter''), st)
        else if cookie = None \<or> cookie = Some [] \<or>
          VerifyState (ax_jwt env) (ax_secret env) (case cookie of Some v \<Rightarrow> v | None \<Rightarrow> []) \<noteq> Inr state
        then Some (Inl (400, ''invalid or expired SSO state''), st)
        else (case ExchangeAndVerify p code of
          Inl e \<Rightarrow> Some (Inl (302, ''/login?error=sso_failed''), st)
        | Inr c \<Rightarrow>
          if so_Email c = [] then Some (Inl (302, ''/login?error=sso_no_email''), st)
          else (case resolveSSOUser (ax_user env) p c (xs_users st) of
            (Inl e, users) \<Rightarrow> Some (Inl (302, ''/login?error=sso_error''), st\<lparr>xs_users := users\<rparr>)
          | (Inr u, users) \<Rightarrow>
            if \<not> us_IsActive u then Some (Inl (302, ''/login?error=account_disabled''), st\<lparr>xs_users := users\<rparr>)
            else (let users = snd (UpdateLastLogin (ax_user env) (us_ID u) users); st = st\<lparr>xs_users := users\<rparr> in
              case GetTokenVersion (ax_user env) (us_ID u) users of
                Inl e \<Rightarrow> Some (Inl (302, ''/login?error=sso_error''), st)
              | Inr version \<Rightarrow>
                (case IssueToken (ax_jwt env) (ax_secret env) (ax_now env) (us_Username u) (us_Role u) (us_ID u) version of
                   None \<Rightarrow> None
                 | Some (Inl e) \<Rightarrow> Some (Inl (302, ''/login?error=sso_error''), st)
                 | Some (Inr token) \<Rightarrow> Some (Inr token, st))))))"

section \<open>User administration\<close>

definition notify_email :: "access_env \<Rightarrow> string \<Rightarrow> string \<Rightarrow> string \<Rightarrow> access_state \<Rightarrow> access_state" where
  "notify_email env subject body address st =
     st\<lparr>xs_intake := (xs_intake st)\<lparr>it_queue :=
       enqueue (ax_accept env) (EmailSend subject body [address]) 5 30 (it_queue (xs_intake st))\<rparr>\<rparr>"

definition notifySecurityEvent ::
  "access_env \<Rightarrow> user_row \<Rightarrow> string \<Rightarrow> string \<Rightarrow> string \<Rightarrow> access_state \<Rightarrow> access_state" where
  "notifySecurityEvent env target eventType title message st =
     (let st1 = (case ax_fail env ''notifications.Create'' of
            Some e \<Rightarrow> st
          | None \<Rightarrow> (let i = ax_note_id env (xs_notes st) in
              st\<lparr>xs_notes := xs_notes st @ [\<lparr>nt_ID = i, nt_UserID = us_ID target, nt_Title = title, nt_Message = message,
                   nt_Type = eventType, nt_EntityType = Some ''user'', nt_EntityID = Some (us_ID target), nt_Read = False, nt_AISummary = []\<rparr>],
                 xs_published := xs_published st @
                   [NewNotificationCreated i (us_ID target) title eventType ''user'' (us_ID target) []]\<rparr>))
      in if ax_emailEnabled env then
           notify_email env (''[HenKaiPan] '' @ title)
             (message @ [newline, newline] @ ''If you did not request this change, contact your administrator.'') (us_Email target) st1
         else st1)"

definition audit_user :: "claims option \<Rightarrow> string \<Rightarrow> string \<Rightarrow> access_state \<Rightarrow> access_state" where
  "audit_user who action i st = st\<lparr>xs_intake := auditLog who action ''user'' i (xs_intake st)\<rparr>"

definition checkUserLimit :: "access_env \<Rightarrow> user_row list \<Rightarrow> (nat \<times> string) option" where
  "checkUserLimit env users =
     (if ax_maxUsers env < 0 then None
      else (case User_Count (ax_user env) users of
          Inl e \<Rightarrow> Some (500, ''limit check failed'')
        | Inr n \<Rightarrow> if int n \<ge> ax_maxUsers env
            then Some (403, ''User limit reached ('' @ nat_str n @ ''/'' @ itoa (ax_maxUsers env) @ ''). Contact sales to upgrade.'')
            else None))"

definition ListUsers :: "access_env \<Rightarrow> access_state \<Rightarrow> user_row list reply" where
  "ListUsers env st = (case User_List (ax_user env) (xs_users st) of
     Inl e \<Rightarrow> Inl (500, ''failed to list users'') | Inr users \<Rightarrow> Inr users)"

record create_user_body =
  cu_Username :: string
  cu_Email :: string
  cu_Password :: string
  cu_Role :: string

definition CreateUser ::
  "access_env \<Rightarrow> claims option \<Rightarrow> create_user_body option \<Rightarrow> access_state \<Rightarrow> user_row reply \<times> access_state" where
  "CreateUser env who body st =
     (case body of
        None \<Rightarrow> (Inl (400, ''username, email, and password required''), st)
      | Some b \<Rightarrow>
        if cu_Username b = [] \<or> cu_Email b = [] \<or> cu_Password b = [] then
          (Inl (400, ''username, email, and password required''), st)
        else (let role = (if cu_Role b = [] then ''viewer'' else cu_Role b) in
          if role \<notin> set user_roles then (Inl (400, ''role must be admin or viewer''), st)
          else (case checkUserLimit env (xs_users st) of
            Some err \<Rightarrow> (Inl err, st)
          | None \<Rightarrow>
            (case ax_hash env (cu_Password b) of
              Inl e \<Rightarrow> (Inl (500, ''password hash error''), st)
            | Inr hash \<Rightarrow>
              (case User_Create (ax_user env) \<lparr>uc_Username = cu_Username b, uc_Email = cu_Email b, uc_PasswordHash = hash, uc_Role = role\<rparr> (xs_users st) of
                (Inl e, users) \<Rightarrow> (Inl (409, ''username or email already exists''), st\<lparr>xs_users := users\<rparr>)
              | (Inr u, users) \<Rightarrow> (Inr u, audit_user who ''user.create'' (us_ID u) (st\<lparr>xs_users := users\<rparr>)))))))"

record update_user_body =
  ub_Email :: "string option"
  ub_Role :: "string option"
  ub_Password :: "string option"
  ub_CurrentPassword :: "string option"
  ub_IsActive :: "bool option"

definition given :: "string option \<Rightarrow> bool" where
  "given x \<longleftrightarrow> x \<noteq> None \<and> x \<noteq> Some []"

text \<open>The check of the current password for a sensitive change.\<close>

definition verify_current :: "access_env \<Rightarrow> claims option \<Rightarrow> update_user_body \<Rightarrow> user_row list \<Rightarrow> (nat \<times> string) option" where
  "verify_current env who b users =
     (case who of
        None \<Rightarrow> Some (401, ''Invalid credentials'')
      | Some c \<Rightarrow>
        (case GetPasswordHashByID (ax_user env) (cm_UserID c) users of
           Inl e \<Rightarrow> Some (500, ''failed to verify credentials'')
         | Inr hash \<Rightarrow>
           (case ub_CurrentPassword b of
              None \<Rightarrow> Some (400, ''current_password is required for sensitive changes'')
            | Some pw \<Rightarrow> if pw = [] then Some (400, ''current_password is required for sensitive changes'')
                else if \<not> ax_compare env hash pw then Some (403, ''Access denied'') else None)))"

definition in_quotes :: "string \<Rightarrow> string" where
  "in_quotes s = CHR 0x27 # s @ [CHR 0x27]"

definition not_requested :: string where
  "not_requested = '' If you did not request this change, contact your administrator immediately.''"

definition account_disabled_text :: string where
  "account_disabled_text = ''Your HenKaiPan account has been disabled by an administrator. You will no longer be able to log in. '' @
     ''Contact your administrator if you believe this was done in error.''"

definition notify_email_change :: "access_env \<Rightarrow> string \<Rightarrow> user_row \<Rightarrow> user_row \<Rightarrow> access_state \<Rightarrow> access_state" where
  "notify_email_change env email old u st =
     (let st1 = notifySecurityEvent env u ''email_changed'' ''Your email address has been changed''
        (''Your email address has been changed from '' @ in_quotes (us_Email old) @ '' to '' @ in_quotes email @ ''.'' @ not_requested) st
      in if ax_emailEnabled env \<and> us_Email old \<noteq> [] then
        notify_email env ''[HenKaiPan] Your email address was changed''
          (''Your email address on HenKaiPan has been changed from '' @ in_quotes (us_Email old) @ '' to '' @ in_quotes email @ ''.'' @ not_requested)
            (us_Email old) st1
      else st1)"

definition notify_active_change :: "access_env \<Rightarrow> bool \<Rightarrow> user_row \<Rightarrow> user_row \<Rightarrow> access_state \<Rightarrow> access_state" where
  "notify_active_change env active old u st =
     (if \<not> active then
        (let st1 = notifySecurityEvent env u ''account_disabled'' ''Your account has been disabled''
            account_disabled_text st
         in if ax_emailEnabled env \<and> us_Email old \<noteq> [] then
           notify_email env ''[HenKaiPan] Your account has been disabled''
             account_disabled_text (us_Email old) st1
         else st1)
      else notifySecurityEvent env u ''account_enabled'' ''Your account has been re-enabled''
        ''Your HenKaiPan account has been re-enabled by an administrator. You can now log in again.'' st)"

definition notify_update ::
  "access_env \<Rightarrow> update_user_body \<Rightarrow> user_row option \<Rightarrow> user_row \<Rightarrow> access_state \<Rightarrow> access_state" where
  "notify_update env b oldUser u st =
     (case oldUser of
        None \<Rightarrow> st
      | Some old \<Rightarrow>
        (let st1 = (case ub_Email b of Some email \<Rightarrow>
                if email \<noteq> [] \<and> email \<noteq> us_Email old then notify_email_change env email old u st else st
              | None \<Rightarrow> st);
             st2 = (case ub_Role b of Some role \<Rightarrow>
                if role \<noteq> us_Role old then notifySecurityEvent env u ''role_changed'' ''Your role has been changed''
                  (''Your role has been changed from '' @ in_quotes (us_Role old) @ '' to '' @ in_quotes role @ ''.'') st1 else st1
              | None \<Rightarrow> st1)
         in (case ub_IsActive b of Some active \<Rightarrow>
               if active \<noteq> us_IsActive old then notify_active_change env active old u st2 else st2
             | None \<Rightarrow> st2)))"

definition found :: "'e + 'a \<Rightarrow> 'a option" where
  "found r = (case r of Inl _ \<Rightarrow> None | Inr x \<Rightarrow> Some x)"

definition UpdateUser ::
  "access_env \<Rightarrow> claims option \<Rightarrow> string \<Rightarrow> update_user_body option \<Rightarrow> access_state \<Rightarrow> user_row reply \<times> access_state" where
  "UpdateUser env who i body st =
     (case body of
        None \<Rightarrow> (Inl (400, ''invalid body''), st)
      | Some b \<Rightarrow>
        if (case ub_Role b of Some role \<Rightarrow> role \<notin> set user_roles | None \<Rightarrow> False) then
          (Inl (400, ''role must be admin or viewer''), st)
        else (case (if given (ub_Password b) \<or> ub_Role b \<noteq> None \<or> given (ub_Email b)
                    then verify_current env who b (xs_users st) else None) of
          Some err \<Rightarrow> (Inl err, st)
        | None \<Rightarrow>
          (case (if given (ub_Password b) then map_sum id Some (ax_hash env (the (ub_Password b))) else Inr None) of
            Inl e \<Rightarrow> (Inl (500, ''password hash error''), st)
          | Inr hash \<Rightarrow>
            (let oldUser = found (User_GetByID (ax_user env) i (xs_users st)) in
             case User_Update (ax_user env) i \<lparr>uu_Email = ub_Email b, uu_Role = ub_Role b, uu_PasswordHash = hash,
                 uu_IsActive = ub_IsActive b\<rparr> (xs_users st) of
               (Inl e, users) \<Rightarrow> (Inl (404, ''user not found''), st\<lparr>xs_users := users\<rparr>)
             | (Inr u, users) \<Rightarrow>
               (let users' = (if given (ub_Password b) \<or> ub_Role b \<noteq> None \<or> given (ub_Email b) \<or> ub_IsActive b \<noteq> None
                      then snd (BumpTokenVersion (ax_user env) i users) else users)
                in (Inr u, notify_update env b oldUser u (audit_user who ''user.update'' (us_ID u) (st\<lparr>xs_users := users'\<rparr>))))))))"

definition ResetPassword ::
  "access_env \<Rightarrow> claims option \<Rightarrow> string \<Rightarrow> string option \<Rightarrow> access_state \<Rightarrow> unit reply \<times> access_state" where
  "ResetPassword env who i body st =
     (if \<not> given body then (Inl (400, ''password is required''), st)
      else (case who of
        None \<Rightarrow> (Inl (401, ''Invalid credentials''), st)
      | Some c \<Rightarrow>
        (case User_GetByID (ax_user env) i (xs_users st) of
          Inl e \<Rightarrow> (Inl (404, ''user not found''), st)
        | Inr old \<Rightarrow>
          (case ax_hash env (the body) of
            Inl e \<Rightarrow> (Inl (500, ''password hash error''), st)
          | Inr hash \<Rightarrow>
            (case User_Update (ax_user env) i \<lparr>uu_Email = None, uu_Role = None, uu_PasswordHash = Some hash, uu_IsActive = None\<rparr> (xs_users st) of
              (Inl e, users) \<Rightarrow> (Inl (500, ''failed to reset password''), st\<lparr>xs_users := users\<rparr>)
            | (Inr u, users) \<Rightarrow>
              (Inr (), notifySecurityEvent env u ''password_reset'' ''Your password was reset''
                (''Your password was reset by an administrator ('' @ cm_Sub c @ '').'' @ not_requested)
                (audit_user who ''user.reset_password'' (us_ID u)
                  (st\<lparr>xs_users := snd (BumpTokenVersion (ax_user env) i users)\<rparr>))))))))"

text \<open>The foreign keys of the tables that refer to a user: API keys lose their creator,
  notifications are deleted.\<close>

definition DeleteUser :: "access_env \<Rightarrow> claims option \<Rightarrow> string \<Rightarrow> access_state \<Rightarrow> unit reply \<times> access_state" where
  "DeleteUser env who i st =
     (case User_Delete (ax_user env) i (xs_users st) of
        (Some e, _) \<Rightarrow> (Inl (500, ''failed to delete user''), st)
      | (None, users) \<Rightarrow>
        (Inr (), audit_user who ''user.delete'' i
          (st\<lparr>xs_users := users,
              xs_tokens := update_where (\<lambda>t. ak_CreatedBy t = Some i) (ak_CreatedBy_update (\<lambda>_. None)) (xs_tokens st),
              xs_notes := filter (\<lambda>n. nt_UserID n \<noteq> i) (xs_notes st)\<rparr>)))"

section \<open>Lemmas\<close>

named_theorems access_frames \<open>parts of the state a step leaves alone\<close>

lemma notify_email_frame [access_frames]:
  "xs_users (notify_email env s b a st) = xs_users st" "xs_tokens (notify_email env s b a st) = xs_tokens st"
  by (simp_all add: notify_email_def)

lemma notifySecurityEvent_frame [access_frames]:
  "xs_users (notifySecurityEvent env u ty ti m st) = xs_users st"
  "xs_tokens (notifySecurityEvent env u ty ti m st) = xs_tokens st"
  by (simp_all add: notifySecurityEvent_def Let_def access_frames split: option.split)

lemma audit_user_frame [access_frames]:
  "xs_users (audit_user who a i st) = xs_users st" "xs_tokens (audit_user who a i st) = xs_tokens st"
  by (simp_all add: audit_user_def)

lemma notify_update_frame [access_frames]:
  "xs_users (notify_update env b old u st) = xs_users st" "xs_tokens (notify_update env b old u st) = xs_tokens st"
  by (simp_all add: notify_update_def notify_email_change_def notify_active_change_def Let_def access_frames
      split: option.split)

subsection \<open>What the handlers do to the users\<close>

text \<open>The sensitive changes of an update.\<close>

definition sensitive :: "update_user_body \<Rightarrow> bool" where
  "sensitive b \<longleftrightarrow> given (ub_Password b) \<or> ub_Role b \<noteq> None \<or> given (ub_Email b)"

lemma UpdateUser_done:
  assumes "UpdateUser env who i body st = (Inr u, st')"
  shows "\<exists>b hash users. body = Some b \<and> (sensitive b \<longrightarrow> verify_current env who b (xs_users st) = None) \<and>
    (given (ub_Password b) \<longrightarrow> ax_hash env (the (ub_Password b)) = Inr (the hash) \<and> hash \<noteq> None) \<and>
    (\<not> given (ub_Password b) \<longrightarrow> hash = None) \<and>
    User_Update (ax_user env) i \<lparr>uu_Email = ub_Email b, uu_Role = ub_Role b, uu_PasswordHash = hash, uu_IsActive = ub_IsActive b\<rparr>
      (xs_users st) = (Inr u, users) \<and>
    xs_users st' = (if sensitive b \<or> ub_IsActive b \<noteq> None then snd (BumpTokenVersion (ax_user env) i users) else users)"
proof -
  obtain b where b: "body = Some b" using assms by (cases body) (auto simp: UpdateUser_def)
  let ?check = "if given (ub_Password b) \<or> ub_Role b \<noteq> None \<or> given (ub_Email b) then verify_current env who b (xs_users st) else None"
  have check: "?check = None" using assms unfolding UpdateUser_def b option.case
    by (cases ?check) (simp_all split: if_splits)
  obtain hash where hash: "(if given (ub_Password b) then map_sum id Some (ax_hash env (the (ub_Password b))) else Inr None) = Inr hash"
    using assms unfolding UpdateUser_def b option.case check
    by (cases "if given (ub_Password b) then map_sum id Some (ax_hash env (the (ub_Password b))) else Inr None") (simp_all split: if_splits)
  let ?upd = "\<lparr>uu_Email = ub_Email b, uu_Role = ub_Role b, uu_PasswordHash = hash, uu_IsActive = ub_IsActive b\<rparr>"
  obtain r users where upd: "User_Update (ax_user env) i ?upd (xs_users st) = (r, users)" by fastforce
  have r: "r = Inr u" and st': "xs_users st' = (if sensitive b \<or> ub_IsActive b \<noteq> None then snd (BumpTokenVersion (ax_user env) i users) else users)"
    using assms unfolding UpdateUser_def b option.case check hash sum.case Let_def upd prod.case
    by (cases r; force simp: sensitive_def access_frames split: if_splits)+
  have "given (ub_Password b) \<longrightarrow> ax_hash env (the (ub_Password b)) = Inr (the hash) \<and> hash \<noteq> None"
    using hash by (cases "ax_hash env (the (ub_Password b))") auto
  moreover have "sensitive b \<longrightarrow> verify_current env who b (xs_users st) = None" using check by (simp add: sensitive_def split: if_splits)
  moreover have "\<not> given (ub_Password b) \<longrightarrow> hash = None" using hash by (auto split: if_splits)
  ultimately show ?thesis using b upd r st' by blast
qed

lemma CreateUser_next:
  "ux_new_id (ax_user env) (xs_users st) \<noteq> i \<Longrightarrow> users_next i (xs_users st) (xs_users (snd (CreateUser env who body st)))"
proof -
  assume i: "ux_new_id (ax_user env) (xs_users st) \<noteq> i"
  have "users_next i (xs_users st) users" if "User_Create (ax_user env) c (xs_users st) = (r, users)" for c r users
    using User_Create_next [OF i, of c] that by simp
  then show ?thesis
    by (auto simp: CreateUser_def Let_def access_frames split: option.split sum.split prod.split)
qed

lemma ResetPassword_next: "users_next i (xs_users st) (xs_users (snd (ResetPassword env who j body st)))"
proof -
  have u: "users_next i (xs_users st) users" if "User_Update (ax_user env) j upd (xs_users st) = (r, users)" for upd r users
    using User_Update_next [of i "xs_users st" "ax_user env" j upd] that by simp
  then have "users_next i (xs_users st) (snd (BumpTokenVersion (ax_user env) j users))"
    if "User_Update (ax_user env) j upd (xs_users st) = (r, users)" for upd r users
    using users_next_trans [OF u [OF that] BumpTokenVersion_next] by simp
  with u show ?thesis
    by (auto simp: ResetPassword_def access_frames split: option.split sum.split prod.split)
qed

lemma UpdateUser_next: "users_next i (xs_users st) (xs_users (snd (UpdateUser env who j body st)))"
proof (cases "UpdateUser env who j body st")
  case (Pair r st')
  show ?thesis
  proof (cases r)
    case (Inr u)
    then obtain b hash users where upd: "User_Update (ax_user env) j \<lparr>uu_Email = ub_Email b, uu_Role = ub_Role b,
        uu_PasswordHash = hash, uu_IsActive = ub_IsActive b\<rparr> (xs_users st) = (Inr u, users)"
      and st': "xs_users st' = (if sensitive b \<or> ub_IsActive b \<noteq> None then snd (BumpTokenVersion (ax_user env) j users) else users)"
      using UpdateUser_done Pair by blast
    have "users_next i (xs_users st) users" using User_Update_next [of i "xs_users st" "ax_user env" j] upd by (metis snd_conv)
    then show ?thesis using st' users_next_trans [OF _ BumpTokenVersion_next] Pair by simp
  next
    case (Inl err)
    have u: "users_next i (xs_users st) users" if "User_Update (ax_user env) j upd (xs_users st) = (r, users)" for upd r users
      using User_Update_next [of i "xs_users st" "ax_user env" j upd] that by simp
    obtain b where "body = Some b \<or> st' = st" using Pair by (cases body) (auto simp: UpdateUser_def)
    then have "st' = st \<or> (\<exists>upd r users. User_Update (ax_user env) j upd (xs_users st) = (r, users) \<and> st' = st\<lparr>xs_users := users\<rparr>)"
      using Pair unfolding Inl UpdateUser_def Let_def
      by (elim disjE) (force split: if_splits option.splits sum.splits prod.splits)+
    then show ?thesis using u Pair by auto
  qed
qed

lemma DeleteUser_next: "users_next i (xs_users st) (xs_users (snd (DeleteUser env who j st)))"
  using User_Delete_next [of i "xs_users st" "ax_user env" j]
  by (auto simp: DeleteUser_def access_frames split: prod.split option.split)

lemma Login_next: "Login env ip body st = Some (r, st') \<Longrightarrow> users_next i (xs_users st) (xs_users st')"
  by (auto simp: Login_def Let_def UpdateLastLogin_next split: option.splits prod.splits if_splits sum.splits bool.splits)

lemma SSOCallback_next:
  assumes "ux_new_id (ax_user env) (xs_users st) \<noteq> i" "SSOCallback env provider code state cookie st = Some (r, st')"
  shows "users_next i (xs_users st) (xs_users st')"
proof -
  have u: "users_next i (xs_users st) users" if "resolveSSOUser (ax_user env) p c (xs_users st) = (x, users)" for p c x users
    using resolveSSOUser_next [OF assms(1), of p c] that by simp
  have l: "users_next i (xs_users st) (snd (UpdateLastLogin (ax_user env) j users))"
    if "resolveSSOUser (ax_user env) p c (xs_users st) = (x, users)" for p c x users j
    using users_next_trans [OF u [OF that] UpdateLastLogin_next] .
  show ?thesis using assms(2)
    by (auto simp: SSOCallback_def Let_def dest: u l split: option.splits prod.splits if_splits sum.splits)
qed

text \<open>The steps that change the users, in any environment, except that the database never gives
  a new user an identifier that is in use.\<close>

inductive user_step :: "string \<Rightarrow> access_state \<Rightarrow> access_state \<Rightarrow> bool" for i where
  login: "Login env ip body st = Some (r, st') \<Longrightarrow> user_step i st st'"
| sso: "ux_new_id (ax_user env) (xs_users st) \<noteq> i \<Longrightarrow> SSOCallback env provider code state cookie st = Some (r, st') \<Longrightarrow>
    user_step i st st'"
| create: "ux_new_id (ax_user env) (xs_users st) \<noteq> i \<Longrightarrow> user_step i st (snd (CreateUser env who body st))"
| update: "user_step i st (snd (UpdateUser env who j ub st))"
| reset: "user_step i st (snd (ResetPassword env who j pw st))"
| delete: "user_step i st (snd (DeleteUser env who j st))"

lemma user_step_next: "user_step i st st' \<Longrightarrow> users_next i (xs_users st) (xs_users st')"
  by (induction rule: user_step.induct)
    (auto intro: Login_next SSOCallback_next CreateUser_next UpdateUser_next ResetPassword_next DeleteUser_next)

lemma user_steps_next: "(user_step i)\<^sup>*\<^sup>* st st' \<Longrightarrow> users_next i (xs_users st) (xs_users st')"
  by (induction rule: rtranclp_induct) (auto intro: users_next_trans user_step_next)

subsection \<open>Sessions and their end\<close>

text \<open>What the JWT library promises: a signed token parses under the same key to the claims it was
  made of until it expires.\<close>

definition jwt_ok :: "jwt_lib \<Rightarrow> bool" where
  "jwt_ok jw \<longleftrightarrow> (\<forall>key m tok. jw_sign jw key m = Inr tok \<longrightarrow> plain_token tok \<and>
     (\<forall>now e. map_of m ''exp'' = Some (ClaimNumber e) \<longrightarrow>
        jw_parse jw key now tok = (if of_int now < e then Inr m else Inl ''token is expired'')))"

definition version_floor :: "string \<Rightarrow> int \<Rightarrow> user_row list \<Rightarrow> bool" where
  "version_floor i v users \<longleftrightarrow> (\<forall>u \<in> set users. us_ID u = i \<longrightarrow> v \<le> us_TokenVersion u)"

lemma version_floor_next: "users_next i a b \<Longrightarrow> version_floor i v a \<Longrightarrow> version_floor i v b"
  unfolding users_next_def version_floor_def by (meson order_trans)

lemma users_ok_versions:
  assumes "users_ok rows" "\<And>u. f u = u\<lparr>us_TokenVersion := g u\<rparr>" "\<And>u. u \<in> set rows \<Longrightarrow> P u \<Longrightarrow> g u \<le> 2147483647"
  shows "users_ok (update_where P f rows)"
proof -
  have k: "map us_ID (update_where P f rows) = map us_ID rows" "map us_Username (update_where P f rows) = map us_Username rows"
    "map us_Email (update_where P f rows) = map us_Email rows"
    by (simp_all add: map_update_where assms(2))
  have sso: "map us_SSO (filter (\<lambda>u. us_SSO u \<noteq> None) (update_where P f rows)) = map us_SSO (filter (\<lambda>u. us_SSO u \<noteq> None) rows)"
    by (induction rows) (simp_all add: assms(2))
  have "list_all (\<lambda>u. us_Role u \<in> set user_roles \<and> us_TokenVersion u \<le> 2147483647) (update_where P f rows)"
    using assms(1,3) by (auto simp: users_ok_def list_all_iff set_update_where assms(2))
  then show ?thesis using assms(1) unfolding users_ok_def k sso by simp
qed

lemma BumpTokenVersion_floor:
  assumes "users_ok rows" "ux_fail env ''users.BumpTokenVersion'' = None"
    and "\<forall>u \<in> set rows. us_ID u = i \<longrightarrow> us_TokenVersion u < 2147483647" "version_floor i v rows"
  shows "version_floor i (v + 1) (snd (BumpTokenVersion env i rows))"
proof -
  have "users_ok (update_where (\<lambda>u. us_ID u = i) (us_TokenVersion_update (\<lambda>v. v + 1)) rows)"
    by (rule users_ok_versions [OF assms(1), where g = "\<lambda>u. us_TokenVersion u + 1"]) (use assms(3) in auto)
  then have "snd (BumpTokenVersion env i rows) = update_where (\<lambda>u. us_ID u = i) (us_TokenVersion_update (\<lambda>v. v + 1)) rows"
    using assms(2) by (simp add: BumpTokenVersion_def write_users_def)
  moreover have "v + 1 \<le> us_TokenVersion u'"
    if u': "u' \<in> set (update_where (\<lambda>u. us_ID u = i) (us_TokenVersion_update (\<lambda>v. v + 1)) rows)" "us_ID u' = i" for u'
  proof -
    obtain u where u: "u \<in> set rows" "u' = (if us_ID u = i then us_TokenVersion_update (\<lambda>v. v + 1) u else u)"
      using u'(1) unfolding set_update_where by blast
    then have "us_ID u = i" "us_TokenVersion u' = us_TokenVersion u + 1" using u'(2) by (auto split: if_splits)
    then show ?thesis using assms(4) u(1) by (simp add: version_floor_def)
  qed
  ultimately show ?thesis by (simp add: version_floor_def)
qed

lemma User_Update_versions:
  assumes "User_Update env i upd rows = (r, rows')"
  shows "u' \<in> set rows' \<Longrightarrow> \<exists>u \<in> set rows. us_ID u = us_ID u' \<and> us_TokenVersion u = us_TokenVersion u'"
proof -
  have "rows' = rows \<or> rows' = update_where (\<lambda>u. us_ID u = i) (coalesce_user upd) rows"
    using assms by (auto simp: User_Update_def write_users_def split: option.splits if_splits)
  then show "u' \<in> set rows' \<Longrightarrow> ?thesis" by (auto simp: set_update_where coalesce_user_def) blast+
qed

text \<open>The operations that end the sessions of a user: a reset of the password, an update with a
  sensitive change or a change of the active flag, and the deletion.\<close>

inductive revoke_step :: "string \<Rightarrow> access_state \<Rightarrow> access_state \<Rightarrow> bool" for i where
  reset: "ResetPassword env who i pw st = (Inr (), st') \<Longrightarrow> ax_fail env ''users.BumpTokenVersion'' = None \<Longrightarrow> revoke_step i st st'"
| update: "UpdateUser env who i (Some b) st = (Inr u, st') \<Longrightarrow> sensitive b \<or> ub_IsActive b \<noteq> None \<Longrightarrow>
    ax_fail env ''users.BumpTokenVersion'' = None \<Longrightarrow> revoke_step i st st'"
| delete: "DeleteUser env who i st = (Inr (), st') \<Longrightarrow> revoke_step i st st'"

lemma ResetPassword_done:
  assumes "ResetPassword env who i pw st = (Inr (), st')"
  shows "\<exists>upd u users. User_Update (ax_user env) i upd (xs_users st) = (Inr u, users) \<and>
    xs_users st' = snd (BumpTokenVersion (ax_user env) i users)"
proof -
  obtain c where c: "who = Some c" "given pw" using assms by (cases who) (auto simp: ResetPassword_def split: if_splits)
  obtain old where old: "User_GetByID (ax_user env) i (xs_users st) = Inr old"
    using assms c by (cases "User_GetByID (ax_user env) i (xs_users st)") (auto simp: ResetPassword_def)
  obtain hash where hash: "ax_hash env (the pw) = Inr hash"
    using assms c old by (cases "ax_hash env (the pw)") (auto simp: ResetPassword_def)
  let ?upd = "\<lparr>uu_Email = None, uu_Role = None, uu_PasswordHash = Some hash, uu_IsActive = None\<rparr>"
  obtain r users where upd: "User_Update (ax_user env) i ?upd (xs_users st) = (r, users)" by fastforce
  obtain u where r: "r = Inr u" using assms c old hash upd by (cases r) (simp_all add: ResetPassword_def)
  have "st' = snd (ResetPassword env who i pw st)" using assms by simp
  then have "xs_users st' = snd (BumpTokenVersion (ax_user env) i users)"
    using c old hash upd r by (simp add: ResetPassword_def access_frames)
  then show ?thesis using upd r by blast
qed

lemma revoke_step_floor:
  assumes "revoke_step i st st'" "users_ok (xs_users st)" "version_floor i v (xs_users st)"
    and "\<forall>u \<in> set (xs_users st). us_ID u = i \<longrightarrow> us_TokenVersion u < 2147483647"
  shows "version_floor i (v + 1) (xs_users st')"
proof -
  have bump: "version_floor i (v + 1) (snd (BumpTokenVersion env i users))"
    if "User_Update env i upd (xs_users st) = (r, users)" "ux_fail env ''users.BumpTokenVersion'' = None" for env upd r users
  proof (rule BumpTokenVersion_floor [OF _ that(2)])
    have n: "users_next i (xs_users st) users" using User_Update_next [of i "xs_users st" env i upd] that(1) by simp
    then show "users_ok users" using assms(2) by (simp add: users_next_def)
    show "version_floor i v users" by (rule version_floor_next [OF n assms(3)])
    show "\<forall>u \<in> set users. us_ID u = i \<longrightarrow> us_TokenVersion u < 2147483647"
      using User_Update_versions [OF that(1)] assms(4) by metis
  qed
  from assms(1) show ?thesis
  proof cases
    case (reset env who pw)
    obtain upd u users where "User_Update (ax_user env) i upd (xs_users st) = (Inr u, users)"
      "xs_users st' = snd (BumpTokenVersion (ax_user env) i users)"
      using ResetPassword_done [OF reset(1)] by blast
    then show ?thesis using bump reset(2) by simp
  next
    case (update env who b u)
    obtain hash users where "User_Update (ax_user env) i \<lparr>uu_Email = ub_Email b, uu_Role = ub_Role b, uu_PasswordHash = hash,
        uu_IsActive = ub_IsActive b\<rparr> (xs_users st) = (Inr u, users)"
      "xs_users st' = snd (BumpTokenVersion (ax_user env) i users)"
      using UpdateUser_done [OF update(1)] update(2) by auto
    then show ?thesis using bump update(3) by simp
  next
    case (delete env who)
    then have "\<forall>u \<in> set (xs_users st'). us_ID u \<noteq> i"
      by (auto simp: DeleteUser_def User_Delete_def DeleteByID_def allowedDeleteTables_def access_frames
          split: option.splits if_splits prod.splits)
    then show ?thesis by (simp add: version_floor_def)
  qed
qed

lemma Login_done:
  assumes "Login env ip (Some (name, pw)) st = Some (Inr (token, role), st')"
  shows "\<exists>c. GetCredentials (ax_user env) name (xs_users st) = Inr c \<and> cd_IsActive c \<and> ax_compare env (cd_PasswordHash c) pw \<and>
    IssueToken (ax_jwt env) (ax_secret env) (ax_now env) name (cd_Role c) (cd_ID c) (cd_TokenVersion c) = Some (Inr token) \<and>
    role = cd_Role c \<and> xs_users st' = snd (UpdateLastLogin (ax_user env) (cd_ID c) (xs_users st))"
  using assms
  by (auto simp: Login_def Let_def split: option.splits prod.splits if_splits sum.splits bool.splits)

lemma users_ok_Username: "users_ok rows \<Longrightarrow> u \<in> set rows \<Longrightarrow> w \<in> set rows \<Longrightarrow> us_Username u = us_Username w \<Longrightarrow> u = w"
  by (auto simp: users_ok_def distinct_map inj_on_def)

lemma GetCredentials_row:
  assumes "GetCredentials env name rows = Inr c"
  shows "\<exists>u \<in> set rows. us_Username u = name \<and> cd_ID c = us_ID u \<and> cd_TokenVersion c = us_TokenVersion u \<and>
    cd_Role c = us_Role u \<and> cd_IsActive c = us_IsActive u \<and> cd_PasswordHash c = us_PasswordHash u"
  using assms by (auto simp: GetCredentials_def dest!: query_user_Inr split: sum.splits)

text \<open>The claims a token carries, and what the gate does with them.\<close>

lemma issued_gate:
  assumes "jwt_ok jw" "IssueToken jw key issued name role i v = Some (Inr token)" "tokenFromRequest req = token"
  shows "session_gate jw key env users roles req =
    (let c = \<lparr>cm_Sub = name, cm_Role = role, cm_UserID = i, cm_TokenVersion = v\<rparr> in
     if ux_now env < issued + 86400 then
       (case RequireValidTokenVersion env users (Some c) of Refuse s t \<Rightarrow> Some (Refuse s t, None)
        | Next \<Rightarrow> Some ((case roles of None \<Rightarrow> Next | Some rs \<Rightarrow> RequireRole rs (Some c)), Some c))
     else Some (Refuse 401 ''unauthorized'', None))"
proof -
  let ?m = "[(''sub'', ClaimString name), (''role'', ClaimString role), (''user_id'', ClaimString i),
    (''tok_ver'', ClaimNumber (of_int v)), (''exp'', ClaimNumber (of_int (issued + 86400)))]"
  have key: "key \<noteq> []" and sign: "jw_sign jw key ?m = Inr token"
    using assms(2) by (auto simp: IssueToken_def split: if_splits)
  have parse: "jw_parse jw key now token = (if now < issued + 86400 then Inr ?m else Inl ''token is expired'')" for now
  proof -
    have "map_of ?m ''exp'' = Some (ClaimNumber (of_int (issued + 86400)))" by simp
    with assms(1) sign have "jw_parse jw key now token =
        (if of_int now < (of_int (issued + 86400) :: rat) then Inr ?m else Inl ''token is expired'')"
      unfolding jwt_ok_def by blast
    then show ?thesis by (simp only: of_int_less_iff)
  qed
  have plain: "plain_token token" using assms(1) sign unfolding jwt_ok_def by blast
  then have "trim_space (tokenFromRequest req) = token" "token \<noteq> []"
    using trim_token assms(3) by (auto simp: plain_token_def)
  then have pt: "parseToken jw key now req = Some (if now < issued + 86400 then Inr ?m else Inl ''token is expired'')" for now
    using key parse by (simp add: parseToken_def Let_def)
  have claims: "GetClaims (Some ?m) = Some \<lparr>cm_Sub = name, cm_Role = role, cm_UserID = i, cm_TokenVersion = v\<rparr>"
    by (simp add: GetClaims_def claim_string_def trunc_def)
  show ?thesis unfolding session_gate_def JWTMiddleware_def pt
    using claims by (simp add: Let_def split: gate.split)
qed


text \<open>A successful login opens a session: for a day the token passes the gate of every route
  with the user's name, role and identifier as its claims, as long as the user's row keeps its
  version; a route for other roles answers 403.\<close>

theorem login_session:
  assumes "jwt_ok (ax_jwt env)" "users_ok (xs_users st)"
    and "Login env ip (Some (name, pw)) st = Some (Inr (token, role), st')"
    and "tokenFromRequest req = token" "ux_now env' < ax_now env + 86400"
    and "u \<in> set (xs_users st)" "us_Username u = name"
    and "GetTokenVersion env' (us_ID u) users = Inr (us_TokenVersion u)"
  shows "us_IsActive u \<and> ax_compare env (us_PasswordHash u) pw \<and> role = us_Role u \<and>
    session_gate (ax_jwt env) (ax_secret env) env' users roles req =
      Some (if roles = None \<or> us_Role u \<in> set (the roles) then Next else Refuse 403 ''forbidden'',
        Some \<lparr>cm_Sub = name, cm_Role = us_Role u, cm_UserID = us_ID u, cm_TokenVersion = us_TokenVersion u\<rparr>)"
proof -
  obtain c where c: "GetCredentials (ax_user env) name (xs_users st) = Inr c" "cd_IsActive c"
      "ax_compare env (cd_PasswordHash c) pw" "role = cd_Role c"
    and issue: "IssueToken (ax_jwt env) (ax_secret env) (ax_now env) name (cd_Role c) (cd_ID c) (cd_TokenVersion c) = Some (Inr token)"
    using Login_done [OF assms(3)] by blast
  obtain w where w: "w \<in> set (xs_users st)" "us_Username w = name" "cd_ID c = us_ID w" "cd_TokenVersion c = us_TokenVersion w"
      "cd_Role c = us_Role w" "cd_IsActive c = us_IsActive w" "cd_PasswordHash c = us_PasswordHash w"
    using GetCredentials_row [OF c(1)] by blast
  have wu: "w = u" by (rule users_ok_Username [OF assms(2) w(1) assms(6)]) (simp add: w(2) assms(7))
  let ?c = "\<lparr>cm_Sub = name, cm_Role = us_Role u, cm_UserID = us_ID u, cm_TokenVersion = us_TokenVersion u\<rparr>"
  have "RequireValidTokenVersion env' users (Some ?c) = Next" using assms(8) by (simp add: RequireValidTokenVersion_def)
  then have "session_gate (ax_jwt env) (ax_secret env) env' users roles req =
      Some ((case roles of None \<Rightarrow> Next | Some rs \<Rightarrow> RequireRole rs (Some ?c)), Some ?c)"
    using issued_gate [OF assms(1) issue assms(4), of env' users roles] assms(5) w(3-5) wu by (simp add: Let_def)
  then show ?thesis using c w(5-7) wu by (cases roles) (simp_all add: RequireRole_def)
qed

subsection \<open>Updates of a user\<close>


text \<open>An empty address in an update counts as no change of the address, but the statement
  writes it: without the current password, whoever asks, the user loses the address; no
  session ends and nobody is told.\<close>

theorem UpdateUser_empty_email:
  assumes "users_ok (update_where (\<lambda>u. us_ID u = i) (us_Email_update (\<lambda>_. [])) (xs_users st))"
    and "old \<in> set (xs_users st)" "us_ID old = i"
    and "ax_fail env ''users.Update'' = None" "ax_fail env ''users.GetByID'' = None"
    and "UpdateUser env who i (Some \<lparr>ub_Email = Some [], ub_Role = None, ub_Password = None, ub_CurrentPassword = None,
      ub_IsActive = None\<rparr>) st = (r, st')"
  shows "r = Inr (old\<lparr>us_Email := []\<rparr>) \<and> old\<lparr>us_Email := []\<rparr> \<in> set (xs_users st') \<and>
    xs_notes st' = xs_notes st \<and> it_queue (xs_intake st') = it_queue (xs_intake st)"
proof -
  let ?rows = "update_where (\<lambda>u. us_ID u = i) (us_Email_update (\<lambda>_. [])) (xs_users st)"
  have f: "coalesce_user \<lparr>uu_Email = Some [], uu_Role = None, uu_PasswordHash = None, uu_IsActive = None\<rparr> = us_Email_update (\<lambda>_. [])"
    by (rule ext) (simp add: coalesce_user_def)
  have in_rows: "old\<lparr>us_Email := []\<rparr> \<in> set ?rows"
    using update_one(1) [OF assms(2,3), of "us_Email_update (\<lambda>_. [])"] by simp
  then have "find (\<lambda>u. us_ID u = i) ?rows = Some (old\<lparr>us_Email := []\<rparr>)"
  proof -
    obtain w where w: "find (\<lambda>u. us_ID u = i) ?rows = Some w"
      using in_rows assms(3) by (cases "find (\<lambda>u. us_ID u = i) ?rows") (auto simp: find_None_iff)
    then have "w \<in> set ?rows" "us_ID w = i" by (auto simp: find_Some_iff)
    then have "w = old\<lparr>us_Email := []\<rparr>" using users_ok_ID [OF assms(1) _ in_rows] assms(3) by simp
    then show ?thesis using w by simp
  qed
  then have get: "User_GetByID (ax_user env) i ?rows = Inr (old\<lparr>us_Email := []\<rparr>)"
    using assms(5) by (simp add: User_GetByID_def query_user_def)
  have upd: "User_Update (ax_user env) i \<lparr>uu_Email = Some [], uu_Role = None, uu_PasswordHash = None, uu_IsActive = None\<rparr> (xs_users st) =
      (Inr (old\<lparr>us_Email := []\<rparr>), ?rows)"
    using assms(1,4) get by (simp add: User_Update_def write_users_def f)
  have "UpdateUser env who i (Some \<lparr>ub_Email = Some [], ub_Role = None, ub_Password = None, ub_CurrentPassword = None,
      ub_IsActive = None\<rparr>) st = (Inr (old\<lparr>us_Email := []\<rparr>),
        audit_user who ''user.update'' i (st\<lparr>xs_users := ?rows\<rparr>))"
    using upd assms(3) by (simp add: UpdateUser_def given_def notify_update_def Let_def split: option.split)
  then show ?thesis using assms(6) in_rows
    by (auto simp: access_frames audit_user_def auditLog_def split: option.splits)
qed

text \<open>The role a login over the identity provider takes away stays in the user's other
  sessions: the version is not raised, so a token issued before passes the gate of the
  administrators until it expires, while the table says viewer.\<close>

theorem sso_demotion_keeps_sessions:
  assumes "jwt_ok jw" "users_ok users" "u \<in> set users" "us_SSO u = Some (sv_issuer p, so_Subject c)"
    and "IssueToken jw key issued name ''admin'' (us_ID u) (us_TokenVersion u) = Some (Inr token)"
    and "resolveSSOUser env p c users = (Inr w, users')" "ResolveRole p c = ''viewer''" "ux_fail env ''users.GetUserBySSOIdentity'' = None"
    and "tokenFromRequest req = token" "ux_now env' < issued + 86400" "ux_fail env' ''users.GetTokenVersion'' = None"
  shows "us_ID w = us_ID u \<and> us_Role w = ''viewer'' \<and> w \<in> set users' \<and>
    session_gate jw key env' users' (Some [''admin'']) req =
      Some (Next, Some \<lparr>cm_Sub = name, cm_Role = ''admin'', cm_UserID = us_ID u, cm_TokenVersion = us_TokenVersion u\<rparr>)"
proof -
  have "find (\<lambda>u. us_SSO u = Some (sv_issuer p, so_Subject c)) users = Some u"
  proof -
    obtain x where x: "find (\<lambda>u. us_SSO u = Some (sv_issuer p, so_Subject c)) users = Some x"
      using assms(3,4) by (cases "find (\<lambda>u. us_SSO u = Some (sv_issuer p, so_Subject c)) users") (auto simp: find_None_iff)
    then have "x \<in> set users" "us_SSO x = us_SSO u" using assms(4) by (auto simp: find_Some_iff)
    then show ?thesis using x users_ok_SSO [OF assms(2) _ assms(3)] assms(4) by simp
  qed
  then have "syncSSORole env p c u users = (Inr w, users')"
    using assms(6,8) by (simp add: resolveSSOUser_def GetUserBySSOIdentity_def query_user_def)
  then have w: "resolved_user p c w users users'" "us_ID w = us_ID u" "us_TokenVersion w = us_TokenVersion u"
    using syncSSORole_resolved [OF assms(2,3,4)] by blast+
  have ok': "users_ok users'"
    using resolveSSOUser_next [of env users "ux_new_id env users @ ''+''" p c] assms(2,6) by (simp add: users_next_def)
  have "w \<in> set users'" using w(1) by (simp add: resolved_user_def)
  then have "find (\<lambda>x. us_ID x = us_ID u) users' = Some w"
    using w(2) users_ok_ID [OF ok']
    by (cases "find (\<lambda>x. us_ID x = us_ID u) users'") (auto simp: find_None_iff find_Some_iff)
  then have "GetTokenVersion env' (us_ID u) users' = Inr (us_TokenVersion u)"
    using assms(11) w(3) by (simp add: GetTokenVersion_def query_user_def)
  then have "session_gate jw key env' users' (Some [''admin'']) req =
      Some (Next, Some \<lparr>cm_Sub = name, cm_Role = ''admin'', cm_UserID = us_ID u, cm_TokenVersion = us_TokenVersion u\<rparr>)"
    using issued_gate [OF assms(1,5,9), of env' users' "Some [''admin'']"] assms(10)
    by (simp add: RequireValidTokenVersion_def RequireRole_def Let_def)
  then show ?thesis using w assms(7) by (simp add: resolved_user_def)
qed

subsection \<open>States of single sign-on\<close>

definition base64_ok :: "jwt_lib \<Rightarrow> bool" where
  "base64_ok jw \<longleftrightarrow> (\<forall>x. jw_unb64 jw (jw_b64 jw x) = Some x \<and> CHR ''.'' \<notin> set (jw_b64 jw x))"

lemma cut_dot: "CHR ''.'' \<notin> set a \<Longrightarrow> cut (a @ ''.'' @ b) ''.'' = Some (a, b)"
proof -
  assume a: "CHR ''.'' \<notin> set a"
  then have "index_of (a @ ''.'' @ b) ''.'' = Some (length a)" by (induction a) (auto simp: has_prefix_iff)
  then show ?thesis by (simp add: cut_def)
qed

text \<open>The cookie a login sets recovers the state it was made of, so the callback goes on with
  exactly that state; and any value that verifies carries the keyed hash of the state it
  yields.\<close>

theorem sso_state_roundtrip:
  assumes "base64_ok (ax_jwt env)" "SSOLogin env (Some p) url (Inr state) = Inr (cookie, target)"
    and "code \<noteq> []" "state' \<noteq> []"
  shows "VerifyState (ax_jwt env) (ax_secret env) cookie = Inr state \<and>
    (SSOCallback env (Some p) code state' (Some cookie) st = Some (Inl (400, ''invalid or expired SSO state''), st) \<longleftrightarrow> state' \<noteq> state) \<and>
    (\<forall>x t. VerifyState (ax_jwt env) (ax_secret env) x = Inr t \<longrightarrow>
      (\<exists>a b. x = a @ ''.'' @ b \<and> jw_unb64 (ax_jwt env) a = Some t \<and>
         jw_unb64 (ax_jwt env) b = Some (jw_mac (ax_jwt env) (ax_secret env) t)))"
proof (intro conjI allI impI)
  have key: "ax_secret env \<noteq> []" and cookie: "cookie = jw_b64 (ax_jwt env) state @ ''.'' @ jw_b64 (ax_jwt env) (jw_mac (ax_jwt env) (ax_secret env) state)"
    using assms(2) by (auto simp: SSOLogin_def SignState_def split: if_splits)
  show verify: "VerifyState (ax_jwt env) (ax_secret env) cookie = Inr state"
    using assms(1) key unfolding cookie VerifyState_def by (subst cut_dot) (simp_all add: base64_ok_def)
  have ne: "cookie \<noteq> []" by (simp add: cookie)
  show "SSOCallback env (Some p) code state' (Some cookie) st = Some (Inl (400, ''invalid or expired SSO state''), st) \<longleftrightarrow> state' \<noteq> state"
    using verify ne assms(3,4) by (auto simp: SSOCallback_def Let_def split: option.splits sum.splits prod.splits if_splits)
  fix x t assume "VerifyState (ax_jwt env) (ax_secret env) x = Inr t"
  then show "\<exists>a b. x = a @ ''.'' @ b \<and> jw_unb64 (ax_jwt env) a = Some t \<and>
      jw_unb64 (ax_jwt env) b = Some (jw_mac (ax_jwt env) (ax_secret env) t)"
    by (auto simp: VerifyState_def split: if_splits option.splits dest!: cut_Some) blast
qed

subsection \<open>Guessing passwords\<close>

text \<open>A sequence of login attempts: the second, the address, the name and the password.\<close>

fun login_run :: "access_env \<Rightarrow> (int \<times> string \<times> string \<times> string) list \<Rightarrow> access_state \<Rightarrow> ((string \<times> string) reply list \<times> access_state) option" where
  "login_run env [] st = Some ([], st)"
| "login_run env ((t, ip, name, pw) # as) st =
     (case Login (env\<lparr>ax_user := (ax_user env)\<lparr>ux_now := t\<rparr>\<rparr>) ip (Some (name, pw)) st of
        None \<Rightarrow> None
      | Some (r, st') \<Rightarrow> (case login_run env as st' of None \<Rightarrow> None | Some (rs, st'') \<Rightarrow> Some (r # rs, st'')))"

text \<open>An attempt was tried unless it was malformed or over a limit.\<close>

definition tried :: "(string \<times> string) reply \<Rightarrow> bool" where
  "tried r \<longleftrightarrow> (case r of Inl (s, _) \<Rightarrow> s \<notin> {400, 429} | Inr _ \<Rightarrow> True)"

definition guesses :: "string \<Rightarrow> (int \<times> string \<times> string \<times> string) list \<Rightarrow> (string \<times> string) reply list \<Rightarrow> nat" where
  "guesses name as rs = length (filter (\<lambda>((_, _, n, _), r). n = name \<and> tried r) (zip as rs))"

lemma guesses_Nil [simp]: "guesses name [] rs = 0"
  by (simp add: guesses_def)

lemma guesses_Cons [simp]:
  "guesses name ((t, ip, n, pw) # as) (r # rs) = of_bool (n = name \<and> tried r) + guesses name as rs"
  by (simp add: guesses_def)

lemma user_key_inject: "user_key a = user_key b \<longleftrightarrow> a = b" "ip_key x \<noteq> user_key a" "user_key a \<noteq> ip_key x"
  by (simp_all add: user_key_def ip_key_def)

text \<open>The counter of a name while the window from \<open>t0\<close> lasts.\<close>

definition counted :: "string \<Rightarrow> int \<Rightarrow> nat \<Rightarrow> int redis \<Rightarrow> bool" where
  "counted name t0 m r \<longleftrightarrow> m = 0 \<or> (\<exists>v e. r (user_key name) = Some (v, e) \<and> int m \<le> v \<and> t0 + 900 \<le> e)"

lemma counted_incr:
  assumes "counted name t0 m r" "t0 \<le> t" "t < t0 + 900" "incr_expire t 900 (user_key name) r = (v, r')" "\<forall>v e. r (user_key name) = Some (v, e) \<longrightarrow> 0 \<le> v"
  shows "counted name t0 (Suc m) r' \<and> int (Suc m) \<le> v \<and> (\<forall>v e. r' (user_key name) = Some (v, e) \<longrightarrow> 0 \<le> v)"
  using assms by (auto simp: counted_def incr_expire_def redis_get_def Let_def split: option.splits if_splits)

lemma incr_other: "incr_expire t ttl k r = (v, r') \<Longrightarrow> l \<noteq> k \<Longrightarrow> r' l = r l"
  by (auto simp: incr_expire_def Let_def)

definition counter_ok :: "string \<Rightarrow> int redis \<Rightarrow> bool" where
  "counter_ok name r \<longleftrightarrow> (\<forall>v e. r (user_key name) = Some (v, e) \<longrightarrow> 0 \<le> v)"

lemma counted_cong: "r (user_key name) = r' (user_key name) \<Longrightarrow> counted name t0 m r = counted name t0 m r'"
  by (simp add: counted_def)

text \<open>One attempt: the counter of the name counts the tries, unless one succeeds.\<close>

lemma limits_other:
  assumes "login_limits env [(user_key n, 5), (ip_key ip, 10)] r = (b, r')" "n \<noteq> name"
  shows "r' (user_key name) = r (user_key name)"
  using assms
  by (auto simp: user_key_inject dest!: incr_other [where l = "user_key name"] split: if_splits prod.splits)

lemma limits_name:
  assumes "login_limits env [(user_key name, 5), (ip_key ip, 10)] r = (b, r')"
    and "counted name t0 m r" "counter_ok name r" "t0 \<le> ax_now env" "ax_now env < t0 + 900"
  shows "counter_ok name r' \<and> counted name t0 m r' \<and> (b \<longrightarrow> counted name t0 (Suc m) r' \<and> Suc m \<le> 5)"
proof (cases "ax_redis_up env")
  case False
  then show ?thesis using assms by auto
next
  case True
  obtain v r1 where i1: "incr_expire (ax_now env) 900 (user_key name) r = (v, r1)" by fastforce
  note c1 = counted_incr [OF assms(2,4,5) i1] assms(3) [unfolded counter_ok_def]
  have c2: "counted name t0 (Suc m) r1" "int (Suc m) \<le> v" "counter_ok name r1"
    using c1 unfolding counter_ok_def by blast+
  then have c3: "counted name t0 m r1" by (auto simp: counted_def)
  obtain w r2 where i2: "incr_expire (ax_now env) 900 (ip_key ip) r1 = (w, r2)" by fastforce
  have same: "r2 (user_key name) = r1 (user_key name)" by (rule incr_other [OF i2]) (simp add: user_key_inject)
  have r': "r' = (if v > 5 then r1 else r2)" "b \<longrightarrow> \<not> v > 5"
    using assms(1) True i1 i2 by (auto split: if_splits)
  show ?thesis using c2 c3 counted_cong [where r = r2 and r' = r1, OF same] same r'(2) unfolding r'(1) by (auto simp: counter_ok_def)
qed

lemma Login_counted:
  assumes "Login env ip (Some (n, pw)) st = Some (reply, st')"
    and "counted name t0 m (xs_counters st)" "counter_ok name (xs_counters st)" "t0 \<le> ax_now env" "ax_now env < t0 + 900"
    and "n = name \<longrightarrow> (\<exists>s e. reply = Inl (s, e) \<and> s \<noteq> 500)"
  shows "counter_ok name (xs_counters st') \<and> counted name t0 (m + of_bool (n = name \<and> tried reply)) (xs_counters st') \<and>
    (n = name \<and> tried reply \<longrightarrow> Suc m \<le> 5)"
proof (cases "n = [] \<or> pw = []")
  case True
  then show ?thesis using assms by (auto simp: Login_def tried_def)
next
  case False
  obtain b r where l: "login_limits env [(user_key n, 5), (ip_key ip, 10)] (xs_counters st) = (b, r)" by fastforce
  show ?thesis
  proof (cases "n = name")
    case True
    note ln = limits_name [OF l [unfolded True] assms(2-5)]
    have "xs_counters st' = r \<and> (b \<or> \<not> tried reply)"
      using assms(1,6) False l True unfolding Login_def
      by (cases b) (auto simp: Let_def tried_def split: option.splits sum.splits if_splits)
    then show ?thesis using ln True by (cases b; cases "tried reply") auto
  next
    case other: False
    have "xs_counters st' (user_key name) = r (user_key name)"
      using assms(1) False l other unfolding Login_def
      by (cases b) (auto simp: Let_def user_key_inject split: option.splits sum.splits if_splits)
    then have "xs_counters st' (user_key name) = xs_counters st (user_key name)" using limits_other [OF l other] by simp
    then show ?thesis using assms(2,3) other counted_cong [of "xs_counters st'" name "xs_counters st"] by (simp add: counter_ok_def)
  qed
qed

lemma login_run_counted:
  "login_run env as st = Some (rs, st') \<Longrightarrow> \<forall>(t, _) \<in> set as. t0 \<le> t \<and> t < t0 + 900 \<Longrightarrow>
    counted name t0 m (xs_counters st) \<Longrightarrow> counter_ok name (xs_counters st) \<Longrightarrow>
    \<forall>((_, _, n, _), r) \<in> set (zip as rs). n = name \<longrightarrow> (\<exists>s e. r = Inl (s, e) \<and> s \<noteq> 500) \<Longrightarrow> m \<le> 5 \<Longrightarrow>
    m + guesses name as rs \<le> 5"
proof (induction as arbitrary: st rs m)
  case Nil
  then show ?case by simp
next
  case (Cons a as)
  obtain t ip n pw where a: "a = (t, ip, n, pw)" by (metis prod.exhaust)
  let ?env = "env\<lparr>ax_user := (ax_user env)\<lparr>ux_now := t\<rparr>\<rparr>"
  obtain r st1 rs1 where step: "Login ?env ip (Some (n, pw)) st = Some (r, st1)"
    and run: "login_run env as st1 = Some (rs1, st')" "rs = r # rs1"
    using Cons.prems(1) by (auto simp: a split: option.splits)
  have t: "t0 \<le> ax_now ?env" "ax_now ?env < t0 + 900" using Cons.prems(2) a by auto
  have fail: "n = name \<longrightarrow> (\<exists>s e. r = Inl (s, e) \<and> s \<noteq> 500)" using Cons.prems(5) by (auto simp: a run(2))
  let ?m = "m + of_bool (n = name \<and> tried r)"
  have s: "counter_ok name (xs_counters st1)" "counted name t0 ?m (xs_counters st1)" "n = name \<and> tried r \<longrightarrow> Suc m \<le> 5"
    using Login_counted [OF step Cons.prems(3,4) t fail] by blast+
  have "?m + guesses name as rs1 \<le> 5"
    using Cons.prems(2,5,6) s(3) by (intro Cons.IH [OF run(1) _ s(2,1)]) (auto simp: run(2))
  then show ?case by (simp add: a run(2))
qed

text \<open>C30: Within fifteen minutes at most five passwords are tried for one user name, from whatever
  addresses the attempts come and whatever other names are tried in between, as long as none
  of them is right.\<close>

theorem login_guess_bound:
  assumes "login_run env as st = Some (rs, st')" "\<forall>(t, _) \<in> set as. t0 \<le> t \<and> t < t0 + 900"
    and "\<forall>((_, _, n, _), r) \<in> set (zip as rs). n = name \<longrightarrow> (\<exists>s e. r = Inl (s, e) \<and> s \<noteq> 500)"
    and "\<forall>v e. xs_counters st (user_key name) = Some (v, e) \<longrightarrow> 0 \<le> v"
  shows "guesses name as rs \<le> 5"
  using login_run_counted [OF assms(1,2), of name 0] assms(3,4) by (simp add: counted_def counter_ok_def)

section \<open>Instances\<close>

definition sample_map_claims :: map_claims where
  "sample_map_claims = [(''sub'', ClaimString ''ana''), (''role'', ClaimString ''admin''), (''user_id'', ClaimString ''u1''),
     (''tok_ver'', ClaimNumber 3), (''exp'', ClaimNumber 87400)]"

definition sample_jwt :: jwt_lib where
  "sample_jwt = \<lparr>jw_sign = (\<lambda>key m. if m = sample_map_claims then Inr ''tok'' else Inl ''unsupported''),
     jw_parse = (\<lambda>key now t. if t \<noteq> ''tok'' then Inl ''malformed'' else if now < 87400 then Inr sample_map_claims else Inl ''token is expired''),
     jw_mac = (\<lambda>key s. key @ s), jw_b64 = letters, jw_unb64 = unletters\<rparr>"

definition sample_access :: access_env where
  "sample_access = \<lparr>ax_user = sample_user_env, ax_jwt = sample_jwt, ax_secret = ''k'', ax_redis_up = True,
     ax_hash = (\<lambda>p. Inr (CHR ''$'' # p)), ax_compare = (\<lambda>h p. h = CHR ''$'' # p), ax_note_id = (\<lambda>ns. nat_str (length ns)),
     ax_emailEnabled = False, ax_maxUsers = - 1, ax_accept = (\<lambda>_. True)\<rparr>"

definition sample_access_state :: access_state where
  "sample_access_state = \<lparr>xs_users = [sample_user], xs_tokens = [], xs_counters = (\<lambda>_. None), xs_buckets = (\<lambda>_. None), xs_notes = [],
     xs_published = [], xs_intake = sample_intake_state\<rparr>"

definition sample_bearer :: session_request where
  "sample_bearer = \<lparr>se_Authorization = ''Bearer tok'', se_Cookie = None\<rparr>"

definition sample_admin :: claims where
  "sample_admin = \<lparr>cm_Sub = ''root'', cm_Role = ''admin'', cm_UserID = ''u1'', cm_TokenVersion = 3\<rparr>"

definition sample_logged_in :: access_state where
  "sample_logged_in = snd (the (Login sample_access ''1.2.3.4'' (Some (''ana'', ''secret'')) sample_access_state))"

lemma sample_jwt_ok: "jwt_ok sample_jwt"
proof -
  have "rat_of_int now < 87400 \<longleftrightarrow> now < 87400" for now by linarith
  then show ?thesis
    by (auto simp: jwt_ok_def sample_jwt_def sample_map_claims_def plain_token_def split: if_splits)
qed

lemma sample_login: "Login sample_access ''1.2.3.4'' (Some (''ana'', ''secret'')) sample_access_state =
    Some (Inr (''tok'', ''admin''), sample_logged_in)"
proof -
  have "map_option fst (Login sample_access ''1.2.3.4'' (Some (''ana'', ''secret'')) sample_access_state) = Some (Inr (''tok'', ''admin''))"
    by code_simp
  then show ?thesis unfolding sample_logged_in_def
    by (cases "Login sample_access ''1.2.3.4'' (Some (''ana'', ''secret'')) sample_access_state") auto
qed

lemma sample_users_ok: "users_ok [sample_user]"
  by (simp add: users_ok_def sample_user_def user_roles_def)

lemma sample_sels [simp]:
  "us_ID sample_user = ''u1''" "us_Username sample_user = ''ana''" "us_Role sample_user = ''admin''" "us_TokenVersion sample_user = 3"
  "xs_users sample_access_state = [sample_user]" "ax_jwt sample_access = sample_jwt" "ax_secret sample_access = ''k''"
  "ax_user sample_access = sample_user_env" "ux_now sample_user_env = 1000" "ux_fail sample_user_env op = None"
  by (simp_all add: sample_user_def sample_access_state_def sample_access_def sample_user_env_def)

lemma sample_logged_in_users: "xs_users sample_logged_in = [sample_user\<lparr>us_LastLogin := Some 1000\<rparr>]"
  by code_simp

lemma sample_token: "tokenFromRequest sample_bearer = ''tok''"
  by code_simp


theorem login_session_witness:
  "session_gate sample_jwt ''k'' sample_user_env [sample_user] (Some [''admin'']) sample_bearer =
     Some (Next, Some \<lparr>cm_Sub = ''ana'', cm_Role = ''admin'', cm_UserID = ''u1'', cm_TokenVersion = 3\<rparr>)"
proof -
  have "GetTokenVersion sample_user_env ''u1'' [sample_user] = Inr 3" by code_simp
  then show ?thesis
    using login_session [OF _ _ sample_login sample_token, where env' = sample_user_env and u = sample_user and users = "[sample_user]" and roles = "Some [''admin'']"]
    by (simp add: sample_jwt_ok sample_users_ok)
qed


theorem UpdateUser_empty_email_witness:
  "fst (UpdateUser sample_access None ''u1'' (Some \<lparr>ub_Email = Some [], ub_Role = None, ub_Password = None, ub_CurrentPassword = None,
      ub_IsActive = None\<rparr>) sample_access_state) = Inr (sample_user\<lparr>us_Email := []\<rparr>)"
proof -
  have "users_ok (update_where (\<lambda>u. us_ID u = ''u1'') (us_Email_update (\<lambda>_. [])) (xs_users sample_access_state))"
    by (simp add: sample_access_state_def sample_user_def users_ok_def user_roles_def)
  then show ?thesis
    using UpdateUser_empty_email [OF _ _ _ _ _ surjective_pairing, of "''u1''" sample_access_state sample_user sample_access None]
    by simp
qed

theorem sso_demotion_keeps_sessions_witness:
  "session_gate sample_jwt ''k'' sample_user_env (snd (resolveSSOUser sample_user_env sample_provider sample_sso_claims
     [sample_user\<lparr>us_SSO := Some (''idp'', ''s1'')\<rparr>])) (Some [''admin'']) sample_bearer =
   Some (Next, Some \<lparr>cm_Sub = ''ana'', cm_Role = ''admin'', cm_UserID = ''u1'', cm_TokenVersion = 3\<rparr>)"
proof -
  let ?u = "sample_user\<lparr>us_SSO := Some (''idp'', ''s1'')\<rparr>"
  have ok: "users_ok [?u]" by (simp add: users_ok_def sample_user_def user_roles_def)
  have issue: "IssueToken sample_jwt ''k'' 1000 ''ana'' ''admin'' (us_ID ?u) (us_TokenVersion ?u) = Some (Inr ''tok'')"
    by (simp add: IssueToken_def sample_jwt_def sample_map_claims_def)
  have "resolveSSOUser sample_user_env sample_provider sample_sso_claims [?u] = (Inr (?u\<lparr>us_Role := ''viewer''\<rparr>), [?u\<lparr>us_Role := ''viewer''\<rparr>])"
    by code_simp
  from sso_demotion_keeps_sessions [OF sample_jwt_ok ok _ _ issue this _ _ sample_token, of sample_user_env] show ?thesis
    using \<open>resolveSSOUser sample_user_env sample_provider sample_sso_claims [?u] = _\<close>
    by (simp add: sample_provider_def sample_sso_claims_def ResolveRole_def)
qed

theorem sso_state_roundtrip_witness:
  "\<exists>cookie target. SSOLogin sample_access (Some sample_provider) (\<lambda>s. s) (Inr ''st'') = Inr (cookie, target) \<and>
     VerifyState sample_jwt ''k'' cookie = Inr ''st''"
proof -
  have dot: "CHR ''.'' \<notin> set (letters s)" for s
  proof (induction s)
    case (Cons c s)
    have "CHR ''.'' \<noteq> char_of (65 + n :: nat)" if "n < 16" for n
      proof
      assume "CHR ''.'' = char_of (65 + n)"
      then have "of_char CHR ''.'' = 65 + n" using letter_range [OF that] by simp
      then show False by simp
    qed
    moreover have "of_char c div 16 < (16::nat)" using of_char_less [of c] by (simp add: less_mult_imp_div_less)
    ultimately show ?case using Cons by simp
  qed simp
  have ok: "base64_ok (ax_jwt sample_access)"
    by (simp add: base64_ok_def sample_jwt_def unletters_letters dot)
  obtain cookie target where l: "SSOLogin sample_access (Some sample_provider) (\<lambda>s. s) (Inr ''st'') = Inr (cookie, target)"
    by (simp add: SSOLogin_def SignState_def)
  show ?thesis using sso_state_roundtrip [OF ok l, of "''c''" "''st''"] l by simp
qed

theorem login_guess_bound_witness:
  "\<exists>rs st. login_run sample_access (map (\<lambda>i. (1000 + i, ''1.1.1.1'', ''ana'', ''wrong'')) [0, 1, 2, 3, 4, 5]) sample_access_state = Some (rs, st) \<and>
     guesses ''ana'' (map (\<lambda>i. (1000 + i, ''1.1.1.1'', ''ana'', ''wrong'')) [0, 1, 2, 3, 4, 5]) rs \<le> 5"
proof -
  let ?as = "map (\<lambda>i. (1000 + i, ''1.1.1.1'', ''ana'', ''wrong'')) [0, 1, 2, 3, 4, 5 :: int]"
  have rs: "map_option fst (login_run sample_access ?as sample_access_state) =
      Some (replicate 5 (Inl (401, ''Invalid credentials'')) @ [Inl (429, ''too many login attempts. try again later.'')])"
    by code_simp
  then obtain st where run: "login_run sample_access ?as sample_access_state =
      Some (replicate 5 (Inl (401, ''Invalid credentials'')) @ [Inl (429, ''too many login attempts. try again later.'')], st)"
    by (cases "login_run sample_access ?as sample_access_state") auto
  have "guesses ''ana'' ?as (replicate 5 (Inl (401, ''Invalid credentials'')) @ [Inl (429, ''too many login attempts. try again later.'')]) \<le> 5"
    by (rule login_guess_bound [OF run, where ?t0.0 = 1000]) (auto simp: sample_access_state_def numeral_eq_Suc)
  then show ?thesis using run by blast
qed

end
