(* ===== verification/Api_Tokens.thy ===== *)
theory Api_Tokens
  imports Access_Session
begin

text \<open>
  API keys and the endpoints for continuous integration (\<^verbatim>\<open>src/internal/repository/tokens.go\<close>,
  \<^verbatim>\<open>src/internal/handlers/tokens.go\<close>).  The random bytes of a new key are given in hexadecimal,
  or the error of the generator; bcrypt is the pair of functions of the environment.
\<close>

section \<open>The table\<close>

record token_create =
  tc_Name :: string
  tc_ProjectID :: "string option"
  tc_CreatedBy :: string
  tc_ExpiresAt :: "int option"

text \<open>The answers of the table are whole rows; the queries of a listing, a creation and a rotation leave the
  hash out, which no handler reads there and JSON never shows.  New rows get their identifier from \<open>new_id\<close>; \<open>refs_ok\<close> tells whether the foreign keys hold.\<close>

record token_env =
  tq_access :: access_env
  tq_intake :: intake_env
  tq_new_id :: "token_row list \<Rightarrow> string"
  tq_refs_ok :: "token_create \<Rightarrow> bool"
  tq_random :: "string + string"
  tq_bucket :: bucket

abbreviation "tq_now env \<equiv> ax_now (tq_access env)"
abbreviation "tq_fail env \<equiv> ax_fail (tq_access env)"

definition tokenPrefix :: string where
  "tokenPrefix = ''hkp_''"

text \<open>A raw key and its prefix of twelve characters.\<close>

definition generateToken :: "string + string \<Rightarrow> string + string \<times> string" where
  "generateToken random =
     (case random of Inl e \<Rightarrow> Inl e
      | Inr hex \<Rightarrow> (let raw = tokenPrefix @ hex in Inr (raw, take 12 raw)))"

definition hashToken :: "access_env \<Rightarrow> string \<Rightarrow> string + string" where
  "hashToken env raw = ax_hash env raw"

definition Token_Create :: "token_env \<Rightarrow> token_create \<Rightarrow> string \<Rightarrow> string \<Rightarrow> token_row list \<Rightarrow> (string + token_row) \<times> token_row list" where
  "Token_Create env c hash pre rows =
     (case tq_fail env ''tokens.Create'' of
        Some e \<Rightarrow> (Inl (''insert token: '' @ e), rows)
      | None \<Rightarrow>
        if \<not> tq_refs_ok env c then (Inl ''insert token: violates foreign key constraint'', rows)
        else (let t = \<lparr>ak_ID = tq_new_id env rows, ak_Name = tc_Name c, ak_Prefix = pre, ak_Hash = hash,
            ak_ProjectID = tc_ProjectID c, ak_CreatedBy = Some (tc_CreatedBy c), ak_LastUsedAt = None,
            ak_ExpiresAt = tc_ExpiresAt c, ak_CreatedAt = tq_now env, ak_UpdatedAt = tq_now env\<rparr>
          in (Inr t, rows @ [t])))"

definition Token_List :: "token_env \<Rightarrow> string \<Rightarrow> token_row list \<Rightarrow> string + token_row list" where
  "Token_List env userID rows =
     (case tq_fail env ''tokens.List'' of Some e \<Rightarrow> Inl (''list tokens: '' @ e)
      | None \<Rightarrow> Inr (rev (sort_key ak_CreatedAt (filter (\<lambda>t. ak_CreatedBy t = Some userID) rows))))"

definition GetByPrefix :: "token_env \<Rightarrow> string \<Rightarrow> token_row list \<Rightarrow> string + token_row option" where
  "GetByPrefix env pre rows =
     (case tq_fail env ''tokens.GetByPrefix'' of Some e \<Rightarrow> Inl (''get token by prefix: '' @ e)
      | None \<Rightarrow> Inr (find (\<lambda>t. ak_Prefix t = pre) rows))"

definition VerifyToken :: "access_env \<Rightarrow> string \<Rightarrow> string \<Rightarrow> bool" where
  "VerifyToken env raw hash = ax_compare env hash raw"

definition owned_token :: "string \<Rightarrow> string \<Rightarrow> token_row \<Rightarrow> bool" where
  "owned_token i userID t \<longleftrightarrow> ak_ID t = i \<and> ak_CreatedBy t = Some userID"

definition Token_Rotate :: "token_env \<Rightarrow> string \<Rightarrow> string \<Rightarrow> string \<Rightarrow> string \<Rightarrow> token_row list \<Rightarrow> (db_error + token_row) \<times> token_row list" where
  "Token_Rotate env i userID hash pre rows =
     (case tq_fail env ''tokens.Rotate'' of
        Some e \<Rightarrow> (Inl (DbError (''rotate token: '' @ e)), rows)
      | None \<Rightarrow>
        (let rows' = update_where (owned_token i userID) (\<lambda>t. t\<lparr>ak_Hash := hash, ak_Prefix := pre, ak_UpdatedAt := tq_now env\<rparr>) rows in
         case find (owned_token i userID) rows' of
           None \<Rightarrow> (Inl NoRows, rows)
         | Some t \<Rightarrow> (Inr t, rows')))"

definition Token_Delete :: "token_env \<Rightarrow> string \<Rightarrow> string \<Rightarrow> token_row list \<Rightarrow> db_error option \<times> token_row list" where
  "Token_Delete env i userID rows =
     (case tq_fail env ''tokens.Delete'' of
        Some e \<Rightarrow> (Some (DbError (''delete token: '' @ e)), rows)
      | None \<Rightarrow> if list_ex (owned_token i userID) rows then (None, filter (\<lambda>t. \<not> owned_token i userID t) rows)
          else (Some NoRows, rows))"

definition UpdateLastUsed :: "token_env \<Rightarrow> string \<Rightarrow> token_row list \<Rightarrow> token_row list" where
  "UpdateLastUsed env i rows =
     (case tq_fail env ''tokens.UpdateLastUsed'' of Some e \<Rightarrow> rows
      | None \<Rightarrow> update_where (\<lambda>t. ak_ID t = i) (ak_LastUsedAt_update (\<lambda>_. Some (tq_now env))) rows)"

section \<open>The handlers\<close>

definition audit_token :: "claims option \<Rightarrow> string \<Rightarrow> string \<Rightarrow> access_state \<Rightarrow> access_state" where
  "audit_token who action i st = st\<lparr>xs_intake := auditLog who action ''api_token'' i (xs_intake st)\<rparr>"

text \<open>The body is the name and the project, empty for none; the answer holds the raw key.\<close>

definition CreateToken ::
  "token_env \<Rightarrow> claims option \<Rightarrow> (string \<times> string) option \<Rightarrow> access_state \<Rightarrow> (string \<times> token_row) reply \<times> access_state" where
  "CreateToken env who body st =
     (case body of
        None \<Rightarrow> (Inl (400, ''invalid body''), st)
      | Some (name, projectID) \<Rightarrow>
        if name = [] then (Inl (400, ''name is required''), st)
        else (case who of
          None \<Rightarrow> (Inl (401, ''authentication required''), st)
        | Some c \<Rightarrow>
          (case generateToken (tq_random env) of
            Inl e \<Rightarrow> (Inl (500, ''failed to generate token''), st)
          | Inr (raw, pre) \<Rightarrow>
            (case hashToken (tq_access env) raw of
              Inl e \<Rightarrow> (Inl (500, ''failed to hash token''), st)
            | Inr hashed \<Rightarrow>
              (case Token_Create env \<lparr>tc_Name = name, tc_ProjectID = nilOrUUID projectID, tc_CreatedBy = cm_UserID c, tc_ExpiresAt = None\<rparr>
                  hashed pre (xs_tokens st) of
                (Inl e, rows) \<Rightarrow> (Inl (500, ''failed to create token''), st\<lparr>xs_tokens := rows\<rparr>)
              | (Inr t, rows) \<Rightarrow> (Inr (raw, t), audit_token who ''api_token.create'' (ak_ID t) (st\<lparr>xs_tokens := rows\<rparr>)))))))"

definition ListTokens :: "token_env \<Rightarrow> claims option \<Rightarrow> access_state \<Rightarrow> token_row list reply" where
  "ListTokens env who st =
     (case who of
        None \<Rightarrow> Inl (401, ''authentication required'')
      | Some c \<Rightarrow> (case Token_List env (cm_UserID c) (xs_tokens st) of Inl e \<Rightarrow> Inl (500, ''failed to list tokens'') | Inr ts \<Rightarrow> Inr ts))"

definition DeleteToken :: "token_env \<Rightarrow> claims option \<Rightarrow> string \<Rightarrow> access_state \<Rightarrow> unit reply \<times> access_state" where
  "DeleteToken env who i st =
     (if i = [] then (Inl (400, ''token id required''), st)
      else (case who of
        None \<Rightarrow> (Inl (401, ''authentication required''), st)
      | Some c \<Rightarrow>
        (case Token_Delete env i (cm_UserID c) (xs_tokens st) of
           (Some e, rows) \<Rightarrow> (Inl (404, ''token not found''), st\<lparr>xs_tokens := rows\<rparr>)
         | (None, rows) \<Rightarrow> (Inr (), audit_token who ''api_token.delete'' i (st\<lparr>xs_tokens := rows\<rparr>)))))"

definition RotateToken :: "token_env \<Rightarrow> claims option \<Rightarrow> string \<Rightarrow> access_state \<Rightarrow> (string \<times> token_row) reply \<times> access_state" where
  "RotateToken env who i st =
     (if i = [] then (Inl (400, ''token id required''), st)
      else (case who of
        None \<Rightarrow> (Inl (401, ''authentication required''), st)
      | Some c \<Rightarrow>
        (case generateToken (tq_random env) of
          Inl e \<Rightarrow> (Inl (500, ''failed to generate token''), st)
        | Inr (raw, pre) \<Rightarrow>
          (case hashToken (tq_access env) raw of
            Inl e \<Rightarrow> (Inl (500, ''failed to hash token''), st)
          | Inr hashed \<Rightarrow>
            (case Token_Rotate env i (cm_UserID c) hashed pre (xs_tokens st) of
               (Inl e, rows) \<Rightarrow> (Inl (404, ''token not found''), st\<lparr>xs_tokens := rows\<rparr>)
             | (Inr t, rows) \<Rightarrow> (Inr (raw, t), audit_token who ''api_token.rotate'' i (st\<lparr>xs_tokens := rows\<rparr>)))))))"

section \<open>Authentication by key\<close>

text \<open>The header \<^verbatim>\<open>X-API-Key\<close> gives the row of the key, or a refusal; the buckets and the time of
  the last use change.\<close>

definition APIKeyAuth :: "token_env \<Rightarrow> string \<Rightarrow> access_state \<Rightarrow> token_row reply \<times> access_state" where
  "APIKeyAuth env raw st =
     (if raw = [] then (Inl (401, ''X-API-Key header required''), st)
      else (let pre = (if 12 \<le> length raw then take 12 raw else raw) in
        case GetByPrefix env pre (xs_tokens st) of
          Inl e \<Rightarrow> (Inl (401, ''invalid API key''), st)
        | Inr None \<Rightarrow> (Inl (401, ''invalid API key''), st)
        | Inr (Some t) \<Rightarrow>
          if (case ak_ExpiresAt t of Some e \<Rightarrow> e < tq_now env | None \<Rightarrow> False) then (Inl (401, ''API key has expired''), st)
          else if (case ak_CreatedBy t of None \<Rightarrow> False
              | Some u \<Rightarrow> IsActive (ax_user (tq_access env)) u (xs_users st) \<noteq> Inr True)
            then (Inl (401, ''API key owner account is disabled''), st)
          else if \<not> VerifyToken (tq_access env) raw (ak_Hash t) then (Inl (401, ''invalid API key''), st)
          else (case Allow (tq_bucket env) (ax_redis_up (tq_access env)) (tq_now env) (''ratelimit:token:'' @ ak_Prefix t) (xs_buckets st) of
              None \<Rightarrow> (Inl (500, ''panic''), st)
            | Some ((allowed, remaining), r) \<Rightarrow>
              if \<not> allowed then (Inl (429, ''API key rate limit exceeded''), st\<lparr>xs_buckets := r\<rparr>)
              else (Inr t, st\<lparr>xs_buckets := r, xs_tokens := UpdateLastUsed env (ak_ID t) (xs_tokens st)\<rparr>))))"

section \<open>Scans from outside\<close>

record external_request =
  eq_ProjectID :: string
  eq_ProjectName :: string
  eq_RepoURL :: string
  eq_Scanners :: "string list"
  eq_Branch :: string

definition deriveProjectName :: "string \<Rightarrow> string" where
  "deriveProjectName repoURL =
     (if repoURL = [] then []
      else (let name = trim_suffix repoURL ''.git''; parts = split_on (CHR ''/'') (trim_right_cutset ''/'' name) in
        if length parts < 2 then name else join ''/'' (drop (length parts - 2) parts)))"

text \<open>The project of a request that names none by its identifier: looked up by name, or created.\<close>

definition resolve_project ::
  "token_env \<Rightarrow> (project_row list \<Rightarrow> string) \<Rightarrow> external_request \<Rightarrow> intake_state \<Rightarrow> string reply \<times> intake_state" where
  "resolve_project env new_project_id req it =
     (let name = (if eq_ProjectName req = [] then deriveProjectName (eq_RepoURL req) else eq_ProjectName req) in
      case tq_fail env ''apps.GetProjectByName'' of
        Some e \<Rightarrow> (Inl (500, ''failed to look up project''), it)
      | None \<Rightarrow>
        (case GetProjectByName name (it_projects it) of
           Some p \<Rightarrow> (Inr (pw_ID p), it)
         | None \<Rightarrow>
           (case CreateStandaloneProject (new_project_id (it_projects it)) \<lparr>pc_Name = name, pc_Description = [], pc_RepoURL = eq_RepoURL req,
               pc_Provider = ''github'', pc_DefaultBranch = eq_Branch req, pc_Tags = None\<rparr> (it_projects it) of
              (Inl e, rows) \<Rightarrow> (Inl (500, ''failed to create project''), it\<lparr>it_projects := rows\<rparr>)
            | (Inr p, rows) \<Rightarrow> (Inr (pw_ID p), it\<lparr>it_projects := rows\<rparr>))))"

definition external_target :: "external_request \<Rightarrow> string \<Rightarrow> string" where
  "external_target req projectID =
     (let target = (if eq_RepoURL req = [] then projectID else eq_RepoURL req) in
      if eq_Branch req \<noteq> [] then target @ ''#'' @ eq_Branch req else target)"

definition CreateExternalScan ::
  "token_env \<Rightarrow> (project_row list \<Rightarrow> string) \<Rightarrow> token_row option \<Rightarrow> external_request option \<Rightarrow> intake_state
    \<Rightarrow> (string list \<times> string) reply \<times> intake_state" where
  "CreateExternalScan env new_project_id token body it =
     (case token of
        None \<Rightarrow> (Inl (401, ''valid API key required''), it)
      | Some t \<Rightarrow>
        (case body of
          None \<Rightarrow> (Inl (400, ''invalid body''), it)
        | Some req \<Rightarrow>
          if eq_ProjectID req = [] \<and> eq_ProjectName req = [] \<and> eq_RepoURL req = [] then
            (Inl (400, ''project_id or project_name is required''), it)
          else (case (if eq_RepoURL req \<noteq> [] then ValidateGitTarget (ik_clone (tq_intake env)) (eq_RepoURL req) else None) of
            Some e \<Rightarrow> (Inl (400, e), it)
          | None \<Rightarrow>
            (case (if eq_ProjectID req \<noteq> [] then (Inr (eq_ProjectID req), it) else resolve_project env new_project_id req it) of
              (Inl err, it1) \<Rightarrow> (Inl err, it1)
            | (Inr projectID, it1) \<Rightarrow>
              if eq_ProjectID req \<noteq> [] \<and> ak_ProjectID t \<noteq> None \<and> ak_ProjectID t \<noteq> Some (eq_ProjectID req) then
                (Inl (403, ''token is not scoped to this project''), it1)
              else (case resolveScanners (if eq_Scanners req = [] then [''all''] else eq_Scanners req) of
                Inl e \<Rightarrow> (Inl (400, e), it1)
              | Inr names \<Rightarrow>
                (case createScanRecords (tq_intake env) (external_target req projectID) names (Some projectID) [] it1 of
                  (Inl e, it2) \<Rightarrow> (Inl (500, ''failed to create scan records''), it2)
                | (Inr (ids, batchID), it2) \<Rightarrow> (Inr (ids, batchID), it2)))))))"

definition GetExternalScanStatus ::
  "token_row option \<Rightarrow> string \<Rightarrow> (string \<Rightarrow> scan_row option) \<Rightarrow> (string \<Rightarrow> 'f list option) \<Rightarrow> (scan_row \<times> 'f list) reply" where
  "GetExternalScanStatus token scanID get findings =
     (case token of
        None \<Rightarrow> Inl (401, ''valid API key required'')
      | Some t \<Rightarrow>
        if scanID = [] then Inl (400, ''scan id required'')
        else (case get scanID of
          None \<Rightarrow> Inl (404, ''scan not found'')
        | Some s \<Rightarrow>
          if ak_ProjectID t \<noteq> None \<and> sn_Project s \<noteq> None \<and> ak_ProjectID t \<noteq> sn_Project s then
            Inl (403, ''token is not scoped to this project'')
          else Inr (s, case findings scanID of None \<Rightarrow> [] | Some fs \<Rightarrow> fs)))"

section \<open>Lemmas\<close>

text \<open>What bcrypt promises for passwords it accepts (72 bytes at most): a hash compares equal to the
  password it was made of and to no other.\<close>

definition bcrypt_ok :: "access_env \<Rightarrow> bool" where
  "bcrypt_ok env \<longleftrightarrow> (\<forall>p h q h'. ax_hash env p = Inr h \<and> ax_hash env q = Inr h' \<longrightarrow> (ax_compare env h q \<longleftrightarrow> q = p))"

definition key_prefix :: "string \<Rightarrow> string" where
  "key_prefix raw = (if 12 \<le> length raw then take 12 raw else raw)"

text \<open>A key row that is not expired and whose owner, if it still has one, is active.\<close>

definition usable :: "token_env \<Rightarrow> user_row list \<Rightarrow> token_row \<Rightarrow> bool" where
  "usable env users t \<longleftrightarrow> (\<forall>e. ak_ExpiresAt t = Some e \<longrightarrow> tq_now env \<le> e) \<and>
     (\<forall>u. ak_CreatedBy t = Some u \<longrightarrow> IsActive (ax_user (tq_access env)) u users = Inr True)"

lemma APIKeyAuth_eq:
  assumes "tq_fail env ''tokens.GetByPrefix'' = None" "raw \<noteq> []"
    and "find (\<lambda>t. ak_Prefix t = key_prefix raw) (xs_tokens st) = Some t" "usable env (xs_users st) t"
    and "VerifyToken (tq_access env) raw (ak_Hash t)" "ax_redis_up (tq_access env)"
    and "bucket_valid (tq_bucket env)" "bucket_ok (tq_bucket env) (tq_now env) (xs_buckets st)"
  shows "fst (APIKeyAuth env raw st) =
    (if 1 \<le> bucket_level (tq_bucket env) (tq_now env) (''ratelimit:token:'' @ ak_Prefix t) (xs_buckets st) then Inr t
     else Inl (429, ''API key rate limit exceeded''))"
proof -
  obtain n r where "Allow (tq_bucket env) True (tq_now env) (''ratelimit:token:'' @ ak_Prefix t) (xs_buckets st) =
      Some ((1 \<le> bucket_level (tq_bucket env) (tq_now env) (''ratelimit:token:'' @ ak_Prefix t) (xs_buckets st), n), r)"
    using Allow_level [OF assms(7,8)] by blast
  then show ?thesis using assms(1-6)
    by (auto simp: APIKeyAuth_def GetByPrefix_def key_prefix_def usable_def Let_def split: option.splits)
qed

lemma APIKeyAuth_refused:
  assumes "fst (APIKeyAuth env raw st) = Inr t"
  shows "raw \<noteq> [] \<and> find (\<lambda>t. ak_Prefix t = key_prefix raw) (xs_tokens st) = Some t \<and> usable env (xs_users st) t \<and>
    VerifyToken (tq_access env) raw (ak_Hash t) \<and> tq_fail env ''tokens.GetByPrefix'' = None"
  using assms
  by (auto simp: APIKeyAuth_def GetByPrefix_def key_prefix_def usable_def Let_def split: option.splits if_splits sum.splits prod.splits)

text \<open>C27: A request is served as the owner of an API key exactly when the first key with its first
  twelve characters has not expired, belongs to nobody or to an active user, its hash matches
  the whole key, and the key's bucket holds a token.\<close>

theorem APIKeyAuth_iff:
  assumes "tq_fail env ''tokens.GetByPrefix'' = None" "ax_redis_up (tq_access env)"
    and "bucket_valid (tq_bucket env)" "bucket_ok (tq_bucket env) (tq_now env) (xs_buckets st)"
  shows "fst (APIKeyAuth env raw st) = Inr t \<longleftrightarrow>
    raw \<noteq> [] \<and> find (\<lambda>t. ak_Prefix t = key_prefix raw) (xs_tokens st) = Some t \<and> usable env (xs_users st) t \<and>
    ax_compare (tq_access env) (ak_Hash t) raw \<and>
    1 \<le> bucket_level (tq_bucket env) (tq_now env) (''ratelimit:token:'' @ ak_Prefix t) (xs_buckets st)"
proof
  assume h: "fst (APIKeyAuth env raw st) = Inr t"
  note r = APIKeyAuth_refused [OF h]
  have "fst (APIKeyAuth env raw st) = (if 1 \<le> bucket_level (tq_bucket env) (tq_now env) (''ratelimit:token:'' @ ak_Prefix t) (xs_buckets st)
      then Inr t else Inl (429, ''API key rate limit exceeded''))"
    using r by (intro APIKeyAuth_eq [OF assms(1) _ _ _ _ assms(2-4)]) blast+
  then show "raw \<noteq> [] \<and> find (\<lambda>t. ak_Prefix t = key_prefix raw) (xs_tokens st) = Some t \<and> usable env (xs_users st) t \<and>
      ax_compare (tq_access env) (ak_Hash t) raw \<and>
      1 \<le> bucket_level (tq_bucket env) (tq_now env) (''ratelimit:token:'' @ ak_Prefix t) (xs_buckets st)"
    using r h by (auto simp: VerifyToken_def split: if_splits)
qed (simp add: APIKeyAuth_eq [OF assms(1) _ _ _ _ assms(2-4)] VerifyToken_def)

lemma generateToken_raw: "generateToken (Inr hex) = Inr (tokenPrefix @ hex, take 12 (tokenPrefix @ hex))"
  by (simp add: generateToken_def Let_def)

lemma key_prefix_raw: "8 \<le> length hex \<Longrightarrow> key_prefix (tokenPrefix @ hex) = take 12 (tokenPrefix @ hex)"
  by (simp add: key_prefix_def tokenPrefix_def)

lemma CreateToken_done:
  assumes "CreateToken env who (Some (name, projectID)) st = (Inr (raw, t), st')"
  shows "\<exists>c hex. who = Some c \<and> tq_random env = Inr hex \<and> raw = tokenPrefix @ hex \<and> ak_Prefix t = take 12 raw \<and>
    ax_hash (tq_access env) raw = Inr (ak_Hash t) \<and> ak_CreatedBy t = Some (cm_UserID c) \<and> ak_ProjectID t = nilOrUUID projectID \<and>
    ak_ExpiresAt t = None \<and> ak_Name t = name \<and> xs_tokens st' = xs_tokens st @ [t] \<and> xs_users st' = xs_users st \<and> xs_buckets st' = xs_buckets st"
  using assms
  by (auto simp: CreateToken_def generateToken_def hashToken_def Token_Create_def audit_token_def Let_def
      split: if_splits option.splits sum.splits prod.splits)

lemma RotateToken_done:
  assumes "RotateToken env who i st = (Inr (raw, t), st')"
  shows "\<exists>c hex. who = Some c \<and> tq_random env = Inr hex \<and> raw = tokenPrefix @ hex \<and> ak_Prefix t = take 12 raw \<and>
    ax_hash (tq_access env) raw = Inr (ak_Hash t) \<and> ak_ID t = i \<and> ak_CreatedBy t = Some (cm_UserID c) \<and>
    xs_tokens st' = update_where (owned_token i (cm_UserID c)) (\<lambda>u. u\<lparr>ak_Hash := ak_Hash t, ak_Prefix := take 12 raw, ak_UpdatedAt := tq_now env\<rparr>) (xs_tokens st) \<and>
    t \<in> set (xs_tokens st')"
proof -
  obtain c where c: "who = Some c" using assms by (cases who) (auto simp: RotateToken_def split: if_splits)
  obtain hex where hex: "tq_random env = Inr hex"
    using assms c by (cases "tq_random env") (auto simp: RotateToken_def generateToken_def split: if_splits)
  obtain hash where hash: "ax_hash (tq_access env) (tokenPrefix @ hex) = Inr hash"
    using assms c hex by (cases "ax_hash (tq_access env) (tokenPrefix @ hex)") (auto simp: RotateToken_def generateToken_raw hashToken_def split: if_splits)
  let ?raw = "tokenPrefix @ hex"
  let ?rows = "update_where (owned_token i (cm_UserID c)) (\<lambda>u. u\<lparr>ak_Hash := hash, ak_Prefix := take 12 ?raw, ak_UpdatedAt := tq_now env\<rparr>) (xs_tokens st)"
  obtain x rows where rot: "Token_Rotate env i (cm_UserID c) hash (take 12 ?raw) (xs_tokens st) = (x, rows)" by fastforce
  have r: "raw = ?raw" "x = Inr t" "xs_tokens st' = rows"
    using assms c hex hash rot by (auto simp: RotateToken_def generateToken_raw hashToken_def audit_token_def split: if_splits sum.splits)
  then have rows: "rows = ?rows" "find (owned_token i (cm_UserID c)) ?rows = Some t"
    using rot by (auto simp: Token_Rotate_def Let_def split: option.splits)
  then have t: "t \<in> set ?rows" "owned_token i (cm_UserID c) t" by (auto simp: find_Some_iff)
  obtain u where u: "u \<in> set (xs_tokens st)" "t = (if owned_token i (cm_UserID c) u then u\<lparr>ak_Hash := hash, ak_Prefix := take 12 ?raw, ak_UpdatedAt := tq_now env\<rparr> else u)"
    using t(1) unfolding set_update_where by blast
  then have "ak_Hash t = hash" "ak_Prefix t = take 12 ?raw" using t(2) by (auto split: if_splits)
  then show ?thesis using c hex hash r rows t unfolding owned_token_def by simp
qed

text \<open>The key an owner gets from a rotation is the only one that works: it authenticates as
  the row that was rotated, with its scope, and the key it replaces is refused from then on.\<close>

theorem RotateToken_replaces:
  assumes "bcrypt_ok (tq_access env)" "distinct (map ak_Prefix (xs_tokens st'))" "tq_random env = Inr hex" "8 \<le> length hex"
    and "RotateToken env who i st = (Inr (raw, t), st')"
    and "old \<in> set (xs_tokens st)" "ak_ID old = i" "distinct (map ak_ID (xs_tokens st))" "old_raw \<noteq> raw"
    and "ax_hash (tq_access env) old_raw = Inr (ak_Hash old)" "ak_Prefix old = key_prefix old_raw"
    and "tq_fail env ''tokens.GetByPrefix'' = None" "ax_redis_up (tq_access env)" "usable env (xs_users st') t"
    and "bucket_valid (tq_bucket env)" "bucket_ok (tq_bucket env) (tq_now env) (xs_buckets st')"
    and "1 \<le> bucket_level (tq_bucket env) (tq_now env) (''ratelimit:token:'' @ ak_Prefix t) (xs_buckets st')"
  shows "fst (APIKeyAuth env raw st') = Inr t \<and> ak_ProjectID t = ak_ProjectID old \<and> ak_CreatedBy t = ak_CreatedBy old \<and>
    fst (APIKeyAuth env old_raw st') \<noteq> Inr t"
proof -
  obtain c where c: "who = Some c" "raw = tokenPrefix @ hex" "ak_Prefix t = take 12 raw" "ax_hash (tq_access env) raw = Inr (ak_Hash t)"
    and t: "ak_ID t = i" "ak_CreatedBy t = Some (cm_UserID c)" "t \<in> set (xs_tokens st')"
    and rows: "xs_tokens st' = update_where (owned_token i (cm_UserID c)) (\<lambda>u. u\<lparr>ak_Hash := ak_Hash t, ak_Prefix := take 12 raw, ak_UpdatedAt := tq_now env\<rparr>) (xs_tokens st)"
    using RotateToken_done [OF assms(5)] assms(3) by force
  obtain u where u: "u \<in> set (xs_tokens st)" "t = (if owned_token i (cm_UserID c) u then u\<lparr>ak_Hash := ak_Hash t, ak_Prefix := take 12 raw, ak_UpdatedAt := tq_now env\<rparr> else u)"
    using t(3) unfolding rows set_update_where by blast
  have same: "ak_ID u = ak_ID t" "ak_ProjectID t = ak_ProjectID u" "ak_CreatedBy t = ak_CreatedBy u"
    using u(2) by (metis (no_types, lifting) token_row.select_convs token_row.surjective token_row.update_convs)+
  then have "u = old" using u(1) assms(6,7,8) t(1) by (metis distinct_map inj_onD)
  have kp: "key_prefix raw = take 12 raw" unfolding c(2) by (rule key_prefix_raw [OF assms(4)])
  have "find (\<lambda>x. ak_Prefix x = key_prefix raw) (xs_tokens st') = Some t"
  proof -
    obtain x where x: "find (\<lambda>x. ak_Prefix x = key_prefix raw) (xs_tokens st') = Some x"
      using t(3) c(3) kp by (cases "find (\<lambda>x. ak_Prefix x = key_prefix raw) (xs_tokens st')") (auto simp: find_None_iff)
    then have "x \<in> set (xs_tokens st')" "ak_Prefix x = ak_Prefix t" using c(3) kp by (auto simp: find_Some_iff)
    then have "x = t" using assms(2) t(3) by (metis distinct_map inj_onD)
    then show ?thesis using x by simp
  qed
  moreover have "ax_compare (tq_access env) (ak_Hash t) raw" "\<not> ax_compare (tq_access env) (ak_Hash t) old_raw"
    using assms(1,9,10) c(4) unfolding bcrypt_ok_def by blast+
  moreover have "raw \<noteq> []" by (simp add: c(2) tokenPrefix_def)
  ultimately have "fst (APIKeyAuth env raw st') = Inr t" "fst (APIKeyAuth env old_raw st') \<noteq> Inr t"
    using APIKeyAuth_eq [OF assms(12) _ _ assms(14) _ assms(13,15,16), of raw] assms(17) APIKeyAuth_refused [of env old_raw st' t]
    by (auto simp: VerifyToken_def)
  then show ?thesis using same \<open>u = old\<close> by simp
qed

text \<open>Only the user who made a key can delete or rotate it: every other key of the table is
  left as it is, whoever calls.\<close>

theorem token_handlers_owner:
  assumes "st' = snd (DeleteToken env who i st) \<or> st' = snd (RotateToken env who i st)"
    and "t \<in> set (xs_tokens st)" "ak_CreatedBy t = None \<or> ak_CreatedBy t \<noteq> map_option cm_UserID who"
  shows "t \<in> set (xs_tokens st') \<and> xs_users st' = xs_users st"
proof -
  have no: "\<not> owned_token i (cm_UserID c) t" if "who = Some c" for c using assms(3) that by (auto simp: owned_token_def)
  have del: "t \<in> set (snd (Token_Delete env i (cm_UserID c) (xs_tokens st)))" if "who = Some c" for c
    using no [OF that] assms(2) by (auto simp: Token_Delete_def split: option.split)
  have rot: "t \<in> set (snd (Token_Rotate env i (cm_UserID c) h p (xs_tokens st)))" if "who = Some c" for c h p
  proof -
    have "t \<in> set (update_where (owned_token i (cm_UserID c)) f (xs_tokens st))" for f
      using no [OF that] assms(2) by (auto simp: set_update_where image_iff intro!: bexI [of _ t])
    then show ?thesis using assms(2) by (simp add: Token_Rotate_def Let_def split: option.split)
  qed
  from assms(1) show ?thesis
  proof
    assume "st' = snd (DeleteToken env who i st)"
    then show ?thesis using del assms(2)
      by (cases who) (auto simp: DeleteToken_def audit_token_def split: prod.splits option.splits; metis snd_conv)+
  next
    assume "st' = snd (RotateToken env who i st)"
    then show ?thesis using rot assms(2)
      by (cases who) (auto simp: RotateToken_def audit_token_def split: prod.splits sum.splits; metis snd_conv)+
  qed
qed

lemma find_update_where:
  assumes "\<And>x. P (f x) = P x"
  shows "find P (update_where Q f rows) = map_option (\<lambda>x. if Q x then f x else x) (find P rows)"
  by (induction rows) (simp_all add: assms)

text \<open>The keys of a disabled user are refused, but deleting the user brings them back: the
  database clears the creator of the key, the check of the owner is skipped, and from then on
  nobody can delete or rotate the key.\<close>

theorem deleted_owner_key:
  assumes "find (\<lambda>t. ak_Prefix t = key_prefix raw) (xs_tokens st) = Some t" "ak_CreatedBy t = Some i"
    and "IsActive (ax_user (tq_access env)) i (xs_users st) = Inr False"
    and "DeleteUser (tq_access env) who i st = (Inr (), st')"
    and "raw \<noteq> []" "\<forall>e. ak_ExpiresAt t = Some e \<longrightarrow> tq_now env \<le> e" "ax_compare (tq_access env) (ak_Hash t) raw"
    and "tq_fail env ''tokens.GetByPrefix'' = None" "ax_redis_up (tq_access env)"
    and "bucket_valid (tq_bucket env)" "bucket_ok (tq_bucket env) (tq_now env) (xs_buckets st)"
    and "1 \<le> bucket_level (tq_bucket env) (tq_now env) (''ratelimit:token:'' @ ak_Prefix t) (xs_buckets st)"
  shows "fst (APIKeyAuth env raw st) = Inl (401, ''API key owner account is disabled'') \<and>
    fst (APIKeyAuth env raw st') = Inr (t\<lparr>ak_CreatedBy := None\<rparr>)"
proof
  show "fst (APIKeyAuth env raw st) = Inl (401, ''API key owner account is disabled'')"
    using assms(1-3,5,6,8) by (auto simp: APIKeyAuth_def GetByPrefix_def key_prefix_def Let_def split: option.splits)
  let ?t = "t\<lparr>ak_CreatedBy := None\<rparr>"
  have st': "xs_tokens st' = update_where (\<lambda>t. ak_CreatedBy t = Some i) (ak_CreatedBy_update (\<lambda>_. None)) (xs_tokens st)"
    "xs_buckets st' = xs_buckets st"
    using assms(4) by (auto simp: DeleteUser_def audit_user_def split: prod.splits option.splits)
  have "find (\<lambda>t. ak_Prefix t = key_prefix raw) (xs_tokens st') = Some ?t"
    unfolding st'(1) using assms(1,2) by (subst find_update_where) simp_all
  moreover have "usable env (xs_users st') ?t" using assms(6) by (simp add: usable_def)
  ultimately show "fst (APIKeyAuth env raw st') = Inr ?t"
    using APIKeyAuth_eq [OF assms(8,5), of st' ?t] assms(7,9-12) by (simp add: st'(2) VerifyToken_def)
qed

lemma CreateExternalScan_token:
  assumes "(if eq_RepoURL req \<noteq> [] then ValidateGitTarget (ik_clone (tq_intake env)) (eq_RepoURL req) else None) = None"
    and "(if eq_ProjectID req \<noteq> [] then (Inr (eq_ProjectID req), it) else resolve_project env new_id req it) = (x, it1)"
  shows "CreateExternalScan env new_id (Some t) (Some req) it =
    (if eq_ProjectID req = [] \<and> eq_ProjectName req = [] \<and> eq_RepoURL req = [] then
        (Inl (400, ''project_id or project_name is required''), it)
     else (case x of Inl err \<Rightarrow> (Inl err, it1)
      | Inr projectID \<Rightarrow>
        if eq_ProjectID req \<noteq> [] \<and> ak_ProjectID t \<noteq> None \<and> ak_ProjectID t \<noteq> Some (eq_ProjectID req) then
          (Inl (403, ''token is not scoped to this project''), it1)
        else (case resolveScanners (if eq_Scanners req = [] then [''all''] else eq_Scanners req) of Inl e \<Rightarrow> (Inl (400, e), it1)
        | Inr names \<Rightarrow>
          (case createScanRecords (tq_intake env) (external_target req projectID) names (Some projectID) [] it1 of
             (Inl e, it2) \<Rightarrow> (Inl (500, ''failed to create scan records''), it2)
           | (Inr (ids, batchID), it2) \<Rightarrow> (Inr (ids, batchID), it2)))))"
  unfolding CreateExternalScan_def option.case assms by simp

lemma external_scan_created:
  assumes "CreateExternalScan env new_id (Some t) (Some req) it = (Inr (ids, b), it')"
  shows "(\<exists>pid new. it_scans it' = it_scans it @ new \<and> ids = map sn_ID new \<and>
      list_all (\<lambda>s. sn_Project s = Some pid \<and> sn_Status s = ''pending'' \<and> sn_Batch s = b \<and>
        sn_Target s = external_target req pid \<and> Get (sn_Scanner s) \<noteq> None) new \<and>
      it_queue it' = enqueue_all (ik_accept (tq_intake env)) (map row_task new) (it_queue it) \<and>
      (eq_RepoURL req \<noteq> [] \<longrightarrow> allowed_target (ik_clone (tq_intake env)) (eq_RepoURL req)) \<and>
      (eq_ProjectID req \<noteq> [] \<longrightarrow> pid = eq_ProjectID req \<and> ak_ProjectID t \<in> {None, Some pid})) \<and>
    (eq_ProjectID req = [] \<longrightarrow> CreateExternalScan env new_id (Some t') (Some req) it = (Inr (ids, b), it'))"
proof
  let ?target = "if eq_RepoURL req \<noteq> [] then ValidateGitTarget (ik_clone (tq_intake env)) (eq_RepoURL req) else None"
  have target: "?target = None" using assms by (auto simp: CreateExternalScan_def split: if_splits option.splits)
  let ?project = "if eq_ProjectID req \<noteq> [] then (Inr (eq_ProjectID req), it) else resolve_project env new_id req it"
  obtain x it1 where project: "?project = (x, it1)" by (cases ?project)
  let ?scanners = "resolveScanners (if eq_Scanners req = [] then [''all''] else eq_Scanners req)"
  note un = CreateExternalScan_token [OF target project]
  note a = assms [unfolded un]
  obtain pid where x: "x = Inr pid" using a by (cases x) (auto split: if_splits)
  have scope: "eq_ProjectID req \<noteq> [] \<longrightarrow> ak_ProjectID t \<in> {None, Some (eq_ProjectID req)}"
    using a x by (auto split: if_splits)
  obtain names where names: "?scanners = Inr names" using a x by (cases ?scanners) (auto split: if_splits)
  obtain y it2 where rec: "createScanRecords (tq_intake env) (external_target req pid) names (Some pid) [] it1 = (y, it2)" by fastforce
  have y: "y = Inr (ids, b)" "it2 = it'" using a x names rec by (auto split: if_splits sum.splits)
  have it1: "it_scans it1 = it_scans it" "it_queue it1 = it_queue it"
    using project by (auto simp: resolve_project_def Let_def split: if_splits option.splits sum.splits prod.splits)
  have "\<exists>new. it_scans it' = it_scans it1 @ new \<and> it_queue it' = enqueue_all (ik_accept (tq_intake env)) (map row_task new) (it_queue it1) \<and> map sn_Scanner new = names \<and> ids = map sn_ID new \<and>
      list_all (\<lambda>s. sn_Status s = ''pending'' \<and> sn_Target s = external_target req pid \<and> sn_Project s = Some pid \<and> sn_Batch s = b) new"
    using createScanRecords_cases [OF rec] y by (auto simp: list_all_iff)
  then obtain new where new: "it_scans it' = it_scans it1 @ new" "map sn_Scanner new = names" "ids = map sn_ID new"
    "list_all (\<lambda>s. sn_Status s = ''pending'' \<and> sn_Target s = external_target req pid \<and> sn_Project s = Some pid \<and> sn_Batch s = b) new"
    and q: "it_queue it' = enqueue_all (ik_accept (tq_intake env)) (map row_task new) (it_queue it1)"
    by blast
  have "Get (sn_Scanner s) \<noteq> None" if "s \<in> set new" for s
    using resolve_registered [OF names] that unfolding new(2) [symmetric] list_all_iff by simp
  then have all: "list_all (\<lambda>s. sn_Project s = Some pid \<and> sn_Status s = ''pending'' \<and> sn_Batch s = b \<and>
        sn_Target s = external_target req pid \<and> Get (sn_Scanner s) \<noteq> None) new"
    using new(4) by (simp add: list_all_iff)
  have repo: "eq_RepoURL req \<noteq> [] \<longrightarrow> allowed_target (ik_clone (tq_intake env)) (eq_RepoURL req)"
    using target by (auto simp: ValidateGitTarget_iff)
  have pid: "eq_ProjectID req \<noteq> [] \<longrightarrow> pid = eq_ProjectID req" using project x by auto
  show "\<exists>pid new. it_scans it' = it_scans it @ new \<and> ids = map sn_ID new \<and>
      list_all (\<lambda>s. sn_Project s = Some pid \<and> sn_Status s = ''pending'' \<and> sn_Batch s = b \<and>
        sn_Target s = external_target req pid \<and> Get (sn_Scanner s) \<noteq> None) new \<and>
      it_queue it' = enqueue_all (ik_accept (tq_intake env)) (map row_task new) (it_queue it) \<and>
      (eq_RepoURL req \<noteq> [] \<longrightarrow> allowed_target (ik_clone (tq_intake env)) (eq_RepoURL req)) \<and>
      (eq_ProjectID req \<noteq> [] \<longrightarrow> pid = eq_ProjectID req \<and> ak_ProjectID t \<in> {None, Some pid})"
    using new(1,3) all repo pid scope it1 q by (intro exI [of _ pid] exI [of _ new]) auto
  show "eq_ProjectID req = [] \<longrightarrow> CreateExternalScan env new_id (Some t') (Some req) it = (Inr (ids, b), it')"
  proof
    assume "eq_ProjectID req = []"
    then have "CreateExternalScan env new_id (Some t') (Some req) it = CreateExternalScan env new_id (Some t) (Some req) it"
      unfolding un by (cases x) simp_all
    then show "CreateExternalScan env new_id (Some t') (Some req) it = (Inr (ids, b), it')" by (simp only: assms)
  qed
qed

text \<open>C26: A scan from outside that is accepted adds pending scans of registered scanners for one
  project.  With the identifier of a project in the request that is the project, and a key
  with a scope must be one of it.  A request that names the project or its repository instead
  is answered alike for every key: the scope is not looked at.\<close>

theorem external_scan_scope:
  assumes "CreateExternalScan env new_id (Some t) (Some req) it = (Inr (ids, b), it')"
  shows "(\<exists>pid new. it_scans it' = it_scans it @ new \<and> ids = map sn_ID new \<and>
      list_all (\<lambda>s. sn_Project s = Some pid \<and> sn_Status s = ''pending'' \<and> sn_Batch s = b \<and>
        sn_Target s = external_target req pid \<and> Get (sn_Scanner s) \<noteq> None) new \<and>
      (eq_RepoURL req \<noteq> [] \<longrightarrow> allowed_target (ik_clone (tq_intake env)) (eq_RepoURL req)) \<and>
      (eq_ProjectID req \<noteq> [] \<longrightarrow> pid = eq_ProjectID req \<and> ak_ProjectID t \<in> {None, Some pid})) \<and>
    (eq_ProjectID req = [] \<longrightarrow> CreateExternalScan env new_id (Some t') (Some req) it = (Inr (ids, b), it'))"
  using external_scan_created [OF assms, of t'] by blast

section \<open>Instances\<close>

definition sample_token_env :: token_env where
  "sample_token_env = \<lparr>tq_access = sample_access, tq_intake = sample_intake, tq_new_id = (\<lambda>rows. CHR ''t'' # nat_str (length rows)),
     tq_refs_ok = (\<lambda>_. True), tq_random = Inr ''bbbbbbbbbb'', tq_bucket = NewTokenBucket 60 1\<rparr>"

definition sample_key :: token_row where
  "sample_key = \<lparr>ak_ID = ''t0'', ak_Name = ''ci'', ak_Prefix = ''hkp_aaaaaaaa'', ak_Hash = ''$hkp_aaaaaaaaaa'', ak_ProjectID = Some ''p9'',
     ak_CreatedBy = Some ''u1'', ak_LastUsedAt = None, ak_ExpiresAt = None, ak_CreatedAt = 0, ak_UpdatedAt = 0\<rparr>"

definition sample_key_state :: access_state where
  "sample_key_state = sample_access_state\<lparr>xs_tokens := [sample_key]\<rparr>"

definition sample_external_state :: intake_state where
  "sample_external_state = sample_intake_state\<lparr>it_projects := [sample_project\<lparr>pw_ID := ''a1'', pw_AppID := None\<rparr>]\<rparr>"

lemma sample_bucket: "bucket_valid (tq_bucket sample_token_env)" "bucket_ok b now (\<lambda>_. None)" "xs_buckets sample_access_state = (\<lambda>_. None)"
  "1 \<le> bucket_level (tq_bucket sample_token_env) now k (\<lambda>_. None)"
  by (simp_all add: sample_token_env_def NewTokenBucket_def bucket_valid_def bucket_ok_def bucket_level_def sample_access_state_def)

lemma sample_token_sels [simp]: "tq_access sample_token_env = sample_access" "ax_redis_up sample_access = True"
  "tq_random sample_token_env = Inr ''bbbbbbbbbb''" "xs_tokens sample_key_state = [sample_key]"
  "xs_users sample_key_state = [sample_user]" "xs_buckets sample_key_state = (\<lambda>_. None)"
  by (simp_all add: sample_token_env_def sample_access_def sample_key_state_def sample_access_state_def)

theorem APIKeyAuth_iff_witness:
  "fst (APIKeyAuth sample_token_env ''hkp_aaaaaaaaaa'' sample_key_state) = Inr sample_key \<and>
   fst (APIKeyAuth sample_token_env ''hkp_aaaaaaaaab'' sample_key_state) \<noteq> Inr sample_key"
proof -
  have c: "ax_compare sample_access (ak_Hash sample_key) ''hkp_aaaaaaaaaa''" "\<not> ax_compare sample_access (ak_Hash sample_key) ''hkp_aaaaaaaaab''"
    by (simp_all add: sample_access_def sample_key_def)
  have u: "usable sample_token_env [sample_user] sample_key"
  proof -
    have "IsActive sample_user_env ''u1'' [sample_user] = Inr True" by code_simp
    then show ?thesis by (simp add: usable_def sample_key_def)
  qed
  show ?thesis
    using APIKeyAuth_iff [of sample_token_env sample_key_state "''hkp_aaaaaaaaaa''" sample_key]
      APIKeyAuth_iff [of sample_token_env sample_key_state "''hkp_aaaaaaaaab''" sample_key] c u
    by (simp add: sample_bucket key_prefix_def) (simp add: sample_key_def)
qed

theorem RotateToken_replaces_witness:
  "\<exists>raw t st. RotateToken sample_token_env (Some sample_admin) ''t0'' sample_key_state = (Inr (raw, t), st) \<and>
     fst (APIKeyAuth sample_token_env raw st) = Inr t \<and> fst (APIKeyAuth sample_token_env ''hkp_aaaaaaaaaa'' st) \<noteq> Inr t"
proof -
  let ?st = "snd (RotateToken sample_token_env (Some sample_admin) ''t0'' sample_key_state)"
  let ?t = "sample_key\<lparr>ak_Prefix := ''hkp_bbbbbbbb'', ak_Hash := ''$hkp_bbbbbbbbbb'', ak_UpdatedAt := 1000\<rparr>"
  have "fst (RotateToken sample_token_env (Some sample_admin) ''t0'' sample_key_state) = Inr (''hkp_bbbbbbbbbb'', ?t)" by code_simp
  then have rot: "RotateToken sample_token_env (Some sample_admin) ''t0'' sample_key_state = (Inr (''hkp_bbbbbbbbbb'', ?t), ?st)"
    by (simp add: prod_eq_iff)
  have st: "xs_tokens ?st = [?t]" "xs_users ?st = [sample_user]" by code_simp+
  have buckets: "xs_buckets ?st = (\<lambda>_. None)"
    by (simp add: RotateToken_def generateToken_def hashToken_def audit_token_def sample_admin_def Let_def split: sum.split prod.split)
  have bc: "bcrypt_ok sample_access" by (auto simp: bcrypt_ok_def sample_access_def)
  have u: "usable sample_token_env [sample_user] ?t"
  proof -
    have "IsActive sample_user_env ''u1'' [sample_user] = Inr True" by code_simp
    then show ?thesis by (simp add: usable_def sample_key_def)
  qed
  have "fst (APIKeyAuth sample_token_env ''hkp_bbbbbbbbbb'' ?st) = Inr ?t \<and>
     fst (APIKeyAuth sample_token_env ''hkp_aaaaaaaaaa'' ?st) \<noteq> Inr ?t"
    using RotateToken_replaces [OF _ _ _ _ rot, of "''bbbbbbbbbb''" sample_key "''hkp_aaaaaaaaaa''"] bc u
    by (simp add: st buckets sample_bucket) (simp add: sample_key_def sample_access_def key_prefix_def)
  then show ?thesis using rot by blast
qed

theorem token_handlers_owner_witness:
  "sample_key \<in> set (xs_tokens (snd (DeleteToken sample_token_env (Some (sample_admin\<lparr>cm_UserID := ''u2''\<rparr>)) ''t0'' sample_key_state)))"
  using token_handlers_owner [OF disjI1 [OF refl], of sample_key sample_key_state "Some (sample_admin\<lparr>cm_UserID := ''u2''\<rparr>)" sample_token_env "''t0''"]
  by (simp add: sample_key_def)

theorem deleted_owner_key_witness:
  "\<exists>st'. DeleteUser sample_access None ''u1'' (sample_key_state\<lparr>xs_users := [sample_user\<lparr>us_IsActive := False\<rparr>]\<rparr>) = (Inr (), st') \<and>
     fst (APIKeyAuth sample_token_env ''hkp_aaaaaaaaaa'' st') = Inr (sample_key\<lparr>ak_CreatedBy := None\<rparr>)"
proof -
  let ?st = "sample_key_state\<lparr>xs_users := [sample_user\<lparr>us_IsActive := False\<rparr>]\<rparr>"
  have "fst (DeleteUser sample_access None ''u1'' ?st) = Inr ()" by code_simp
  then obtain st' where del: "DeleteUser sample_access None ''u1'' ?st = (Inr (), st')"
    by (cases "DeleteUser sample_access None ''u1'' ?st") simp
  have act: "IsActive sample_user_env ''u1'' [sample_user\<lparr>us_IsActive := False\<rparr>] = Inr False" by code_simp
  have "fst (APIKeyAuth sample_token_env ''hkp_aaaaaaaaaa'' st') = Inr (sample_key\<lparr>ak_CreatedBy := None\<rparr>)"
    using deleted_owner_key [of "''hkp_aaaaaaaaaa''" ?st sample_key "''u1''" sample_token_env None st'] del act
    by (simp add: sample_bucket key_prefix_def) (simp add: sample_key_def sample_access_def)
  then show ?thesis using del by blast
qed

theorem external_scan_scope_witness:
  "\<exists>ids b it'. CreateExternalScan sample_token_env (\<lambda>_. ''a5'') (Some sample_key) (Some \<lparr>eq_ProjectID = [], eq_ProjectName = ''web'',
       eq_RepoURL = ''https://github.com/o/web'', eq_Scanners = [''semgrep''], eq_Branch = []\<rparr>) sample_external_state = (Inr (ids, b), it') \<and>
     map sn_ID (it_scans it') = ids \<and> map sn_Project (it_scans it') = [Some ''a1''] \<and> ak_ProjectID sample_key \<noteq> Some ''a1''"
proof -
  let ?req = "\<lparr>eq_ProjectID = [], eq_ProjectName = ''web'', eq_RepoURL = ''https://github.com/o/web'', eq_Scanners = [''semgrep''], eq_Branch = []\<rparr>"
  let ?r = "CreateExternalScan sample_token_env (\<lambda>_. ''a5'') (Some sample_key) (Some ?req) sample_external_state"
  have "map sn_Project (it_scans (snd ?r)) = [Some ''a1''] \<and> (case fst ?r of Inr _ \<Rightarrow> True | Inl _ \<Rightarrow> False)" by code_simp
  moreover obtain x it' where r: "?r = (x, it')" by (cases ?r)
  ultimately have p: "map sn_Project (it_scans it') = [Some ''a1'']" and x: "case x of Inr _ \<Rightarrow> True | Inl _ \<Rightarrow> False"
    by simp_all
  from x obtain ids b where "x = Inr (ids, b)" by (cases x) auto
  with r have ok: "?r = (Inr (ids, b), it')" by simp
  show ?thesis using external_scan_scope [OF ok] ok p
    by (auto simp: sample_external_state_def sample_intake_state_def sample_key_def)
qed

end
