(* ===== verification/Webhook_Format.thy ===== *)
theory Webhook_Format
  imports Prelude
begin

text \<open>
  The bodies of outgoing webhooks (\<^verbatim>\<open>src/internal/tasks/webhook.go\<close>, \<^verbatim>\<open>formatWebhookBody\<close> and what it
  calls).  Strings are UTF-8 bytes.  Decoding the envelope, encoding a message and the format of
  instants are parameters; a decoded number is a rational, which every finite float is.
\<close>

section \<open>Data\<close>

datatype json = JNull | JBool bool | JNum rat | JStr string | JArr "json list" | JObj "(string \<times> json) list"

text \<open>An instant is its nanoseconds since the epoch with the offset of its zone in seconds.\<close>

record go_time =
  gt_ns :: int
  gt_zone :: int

definition utc :: "go_time \<Rightarrow> go_time" where
  "utc t = t\<lparr>gt_zone := 0\<rparr>"

record webhook_envelope =
  wm_Event :: string
  wm_Data :: json
  wm_Timestamp :: go_time

record block_text =
  bx_Type :: string
  bx_Text :: string

record button_text =
  bt_Type :: string
  bt_Text :: string
  bt_Emoji :: bool

record slack_button =
  sl_Type :: string
  sl_Text :: button_text
  sl_ActionID :: string
  sl_Value :: string
  sl_Style :: string

datatype slack_block =
    SectionText block_text
  | SectionFields "block_text list"
  | ContextBlock "block_text list"
  | ActionBlock string "slack_button list"

record slack_message =
  sm_Text :: string
  sm_Blocks :: "slack_block list"

record embed_field =
  df_Name :: string
  df_Value :: string
  df_Inline :: bool

record discord_embed =
  de_Title :: string
  de_Description :: string
  de_Color :: int
  de_Fields :: "embed_field list"
  de_Timestamp :: string
  de_Footer :: string

record discord_message =
  dm_Content :: string
  dm_Embeds :: "discord_embed list"

datatype webhook_message = SlackMessage slack_message | DiscordMessage discord_message

record webhook_card =
  wc_Prefix :: string
  wc_Title :: string
  wc_Description :: string
  wc_Fields :: "block_text list"
  wc_Context :: string

text \<open>\<open>wf_format\<close> and \<open>wf_parse\<close> are \<^verbatim>\<open>Format\<close> and \<^verbatim>\<open>time.Parse\<close> with RFC 3339.\<close>

record format_env =
  wf_format :: "go_time \<Rightarrow> string"
  wf_parse :: "string \<Rightarrow> go_time option"
  wf_decode :: "string \<Rightarrow> string + webhook_envelope"
  wf_marshal :: "webhook_message \<Rightarrow> string + string"

section \<open>Values as text\<close>

definition round_half_even :: "rat \<Rightarrow> int" where
  "round_half_even r = (let n = \<lfloor>r\<rfloor>; d = r - of_int n in
     if d < 1 / 2 then n else if 1 / 2 < d then n + 1 else if even n then n else n + 1)"

text \<open>The verb \<open>%.0f\<close>: a negative number keeps its sign even when it rounds to zero.\<close>

definition format_float0 :: "rat \<Rightarrow> string" where
  "format_float0 r = (if r < 0 then CHR ''-'' # nat_str (nat (round_half_even (- r))) else nat_str (nat (round_half_even r)))"

fun stringFromAny :: "json \<Rightarrow> string" where
  "stringFromAny (JStr v) = v"
| "stringFromAny (JNum v) = format_float0 v"
| "stringFromAny _ = []"

text \<open>The value of a key of a decoded object; a missing key reads as nil.\<close>

definition key_of :: "(string \<times> json) list \<Rightarrow> string \<Rightarrow> json" where
  "key_of m k = (case map_of m k of None \<Rightarrow> JNull | Some v \<Rightarrow> v)"

abbreviation "text_of m k \<equiv> stringFromAny (key_of m k)"

definition buildLocationLabel :: "(string \<times> json) list \<Rightarrow> string" where
  "buildLocationLabel m =
     (let path = text_of m ''file_path''; line = text_of m ''line'' in
      if path = [] then [] else if line = [] then path else path @ '':'' @ line)"

definition formatHumanTime :: "format_env \<Rightarrow> json \<Rightarrow> go_time \<Rightarrow> string" where
  "formatHumanTime env value fallback =
     (let raw = trim_space (stringFromAny value) in
      if raw = [] then wf_format env (utc fallback)
      else (case wf_parse env raw of Some ts \<Rightarrow> wf_format env (utc ts) | None \<Rightarrow> raw))"

section \<open>Cards\<close>

definition siren :: string where "siren = [CHR 0xF0, CHR 0x9F, CHR 0x9A, CHR 0xA8]"
definition warning_sign :: string where "warning_sign = [CHR 0xE2, CHR 0x9A, CHR 0xA0, CHR 0xEF, CHR 0xB8, CHR 0x8F]"
definition alarm_clock :: string where "alarm_clock = [CHR 0xE2, CHR 0x8F, CHR 0xB0]"
definition check_mark :: string where "check_mark = [CHR 0xE2, CHR 0x9C, CHR 0x85]"
definition cross_mark :: string where "cross_mark = [CHR 0xE2, CHR 0x9D, CHR 0x8C]"
definition test_tube :: string where "test_tube = [CHR 0xF0, CHR 0x9F, CHR 0xA7, CHR 0xAA]"
definition bust :: string where "bust = [CHR 0xF0, CHR 0x9F, CHR 0x91, CHR 0xA4]"
definition bullet :: string where "bullet = [CHR 0x20, CHR 0xE2, CHR 0x80, CHR 0xA2, CHR 0x20]"
definition middle_dot :: string where "middle_dot = [CHR 0x20, CHR 0xC2, CHR 0xB7, CHR 0x20]"

definition formatWebhookSummary :: "webhook_envelope \<Rightarrow> string" where
  "formatWebhookSummary e =
     (if wm_Event e = ''finding.critical'' then siren @ '' Critical finding detected''
      else if wm_Event e = ''finding.high'' then warning_sign @ '' High severity finding detected''
      else if wm_Event e = ''finding.sla_breach'' then alarm_clock @ '' Finding SLA breached''
      else if wm_Event e = ''scan.completed'' then check_mark @ '' Scan completed''
      else if wm_Event e = ''scan.failed'' then cross_mark @ '' Scan failed''
      else if wm_Event e = ''test'' then test_tube @ '' Webhook test from HenKaiPan''
      else ''Webhook event: '' @ wm_Event e)"

definition appendCardField :: "string \<Rightarrow> string \<Rightarrow> block_text list \<Rightarrow> block_text list" where
  "appendCardField label value' fs =
     (let v = trim_space value' in
      if v = [] then fs
      else fs @ [\<lparr>bx_Type = ''mrkdwn'', bx_Text = ''*'' @ label @ ''*'' @ [newline] @ v\<rparr>])"

definition finding_event_name :: "string \<Rightarrow> bool" where
  "finding_event_name ev \<longleftrightarrow> ev = ''finding.critical'' \<or> ev = ''finding.high'' \<or> ev = ''finding.sla_breach''"

definition event_text :: "string \<Rightarrow> string" where
  "event_text ev = ''Event `'' @ ev @ ''` from ASPM webhook delivery.''"

definition finding_card :: "format_env \<Rightarrow> webhook_envelope \<Rightarrow> (string \<times> json) list \<Rightarrow> webhook_card" where
  "finding_card env e m =
     (let severity = to_upper (text_of m ''severity''); title = text_of m ''title''; repo = text_of m ''repository'';
          ai = trim_space (text_of m ''ai_summary''); breach = (wm_Event e = ''finding.sla_breach'');
          desc = (if breach then ''A finding passed its SLA deadline and still requires action.''
             else if ai \<noteq> [] then ai else trim_space (text_of m ''description''));
          base = appendCardField ''Finding ID'' (text_of m ''finding_id'')
            (appendCardField ''Location'' (buildLocationLabel m)
            (appendCardField ''Rule ID'' (text_of m ''rule_id'')
            (appendCardField ''Repository'' repo
            (appendCardField ''Scanner'' (text_of m ''scanner'') (appendCardField ''Severity'' severity [])))))
      in \<lparr>wc_Prefix = formatWebhookSummary e,
          wc_Title = (if breach then ''SLA breached'' @ middle_dot @ title else severity @ middle_dot @ title),
          wc_Description = (if desc = [] then ''A security finding matched the configured severity threshold and triggered this notification.'' else desc),
          wc_Fields = (if breach then appendCardField ''SLA Deadline'' (formatHumanTime env (key_of m ''sla_deadline'') (wm_Timestamp e)) base
             else base),
          wc_Context = trim_space (join bullet [repo, wm_Event e, formatHumanTime env (key_of m ''created_at'') (wm_Timestamp e)])\<rparr>)"

definition scan_fields :: "(string \<times> json) list \<Rightarrow> block_text list" where
  "scan_fields m =
     appendCardField ''Scan ID'' (text_of m ''scan_id'')
     (appendCardField ''Findings'' (text_of m ''finding_count'')
     (appendCardField ''Status'' (to_upper (text_of m ''status''))
     (appendCardField ''Target'' (text_of m ''target'') (appendCardField ''Scanner'' (text_of m ''scanner'') []))))"

definition scan_card :: "format_env \<Rightarrow> webhook_envelope \<Rightarrow> (string \<times> json) list \<Rightarrow> webhook_card" where
  "scan_card env e m =
     (let scanner = text_of m ''scanner''; err = trim_space (text_of m ''error''); failed = (wm_Event e = ''scan.failed'') in
      \<lparr>wc_Prefix = formatWebhookSummary e,
       wc_Title = scanner @ (if failed then '' scan failed'' else '' finished cleanly''),
       wc_Description = (if \<not> failed then ''Scan completed for `'' @ text_of m ''target'' @ ''` with '' @ text_of m ''finding_count'' @ '' findings recorded.''
          else if err = [] then ''The scanner returned a failure without a detailed error message.'' else err),
       wc_Fields = scan_fields m,
       wc_Context = trim_space (join bullet [wm_Event e, formatHumanTime env (key_of m ''completed_at'') (wm_Timestamp e)])\<rparr>)"

definition test_card :: "format_env \<Rightarrow> webhook_envelope \<Rightarrow> (string \<times> json) list \<Rightarrow> webhook_card" where
  "test_card env e m =
     \<lparr>wc_Prefix = formatWebhookSummary e, wc_Title = ''Webhook test from HenKaiPan'',
      wc_Description = ''This confirms the webhook endpoint accepted an ASPM delivery.'',
      wc_Fields = appendCardField ''Event'' (wm_Event e) (appendCardField ''Webhook ID'' (text_of m ''webhook_id'')
        (appendCardField ''Webhook'' (text_of m ''webhook_label'') [])),
      wc_Context = formatHumanTime env (key_of m ''timestamp'') (wm_Timestamp e)\<rparr>"

definition buildWebhookCard :: "format_env \<Rightarrow> webhook_envelope \<Rightarrow> webhook_card" where
  "buildWebhookCard env e =
     (let summary = formatWebhookSummary e; stamp = wf_format env (utc (wm_Timestamp e)) in
      case wm_Data e of
        JObj m \<Rightarrow>
          if finding_event_name (wm_Event e) then finding_card env e m
          else if wm_Event e = ''scan.completed'' \<or> wm_Event e = ''scan.failed'' then scan_card env e m
          else if wm_Event e = ''test'' then test_card env e m
          else \<lparr>wc_Prefix = summary, wc_Title = summary, wc_Description = event_text (wm_Event e),
            wc_Fields = appendCardField ''Event'' (wm_Event e) [], wc_Context = stamp\<rparr>
      | _ \<Rightarrow> \<lparr>wc_Prefix = summary, wc_Title = summary, wc_Description = event_text (wm_Event e), wc_Fields = [],
            wc_Context = ''Event '' @ wm_Event e @ bullet @ stamp\<rparr>)"

definition webhookColor :: "string \<Rightarrow> int" where
  "webhookColor ev =
     (if ev = ''finding.critical'' \<or> ev = ''finding.sla_breach'' \<or> ev = ''scan.failed'' then 0xE11D48
      else if ev = ''finding.high'' then 0xF97316
      else if ev = ''scan.completed'' then 0x10B981
      else 0x38BDF8)"

definition extractFindingID :: "webhook_envelope \<Rightarrow> string" where
  "extractFindingID e =
     (case wm_Data e of
        JObj m \<Rightarrow> if finding_event_name (wm_Event e) then (case key_of m ''finding_id'' of JStr i \<Rightarrow> i | _ \<Rightarrow> []) else []
      | _ \<Rightarrow> [])"

definition finding_button :: "string \<Rightarrow> string \<Rightarrow> string \<Rightarrow> string \<Rightarrow> slack_button" where
  "finding_button caption action findingID style =
     \<lparr>sl_Type = ''button'', sl_Text = \<lparr>bt_Type = ''plain_text'', bt_Text = caption, bt_Emoji = True\<rparr>,
      sl_ActionID = action @ findingID, sl_Value = findingID, sl_Style = style\<rparr>"

definition buildSlackFindingActions :: "string \<Rightarrow> slack_block" where
  "buildSlackFindingActions findingID =
     ActionBlock (''actions_'' @ findingID)
       [finding_button (check_mark @ '' Acknowledge'') ''ack_'' findingID ''primary'',
        finding_button (cross_mark @ '' Dismiss'') ''dismiss_'' findingID ''danger'',
        finding_button (bust @ '' Assign...'') ''assign_'' findingID []]"

section \<open>Messages\<close>

definition slack_message_of :: "format_env \<Rightarrow> webhook_envelope \<Rightarrow> slack_message" where
  "slack_message_of env e =
     (let card = buildWebhookCard env e; findingID = extractFindingID e in
      \<lparr>sm_Text = formatWebhookSummary e,
       sm_Blocks = [SectionText \<lparr>bx_Type = ''mrkdwn'', bx_Text = ''*'' @ wc_Title card @ ''*'' @ [newline] @ wc_Description card\<rparr>] @
         (if wc_Fields card \<noteq> [] then [SectionFields (wc_Fields card)] else []) @
         (if wc_Context card \<noteq> [] then [ContextBlock [\<lparr>bx_Type = ''mrkdwn'', bx_Text = wc_Context card\<rparr>]] else []) @
         (if findingID \<noteq> [] then [buildSlackFindingActions findingID] else [])\<rparr>)"

text \<open>A field splits at its first line break into two parts, or is skipped.\<close>

fun embed_fields :: "block_text list \<Rightarrow> embed_field list" where
  "embed_fields [] = []"
| "embed_fields (f # fs) =
     (case cut (bx_Text f) [newline] of
        None \<Rightarrow> embed_fields fs
      | Some (a, b) \<Rightarrow> \<lparr>df_Name = trim_cutset ''*'' a, df_Value = b, df_Inline = True\<rparr> # embed_fields fs)"

definition discord_message_of :: "format_env \<Rightarrow> webhook_envelope \<Rightarrow> discord_message" where
  "discord_message_of env e =
     (let card = buildWebhookCard env e in
      \<lparr>dm_Content = wc_Prefix card,
       dm_Embeds = [\<lparr>de_Title = wc_Title card, de_Description = wc_Description card, de_Color = webhookColor (wm_Event e),
         de_Fields = embed_fields (wc_Fields card), de_Timestamp = wf_format env (utc (wm_Timestamp e)), de_Footer = wc_Context card\<rparr>]\<rparr>)"

definition formatWebhookBody :: "format_env \<Rightarrow> string \<Rightarrow> string \<Rightarrow> string + string" where
  "formatWebhookBody env deliveryType payload =
     (let deliveryType = to_lower (trim_space deliveryType) in
      if deliveryType = [] \<or> deliveryType = ''generic'' then Inr payload
      else (case wf_decode env payload of
        Inl e \<Rightarrow> Inl (''decode webhook envelope: '' @ e)
      | Inr envelope \<Rightarrow>
        if deliveryType = ''slack'' then wf_marshal env (SlackMessage (slack_message_of env envelope))
        else if deliveryType = ''discord'' then wf_marshal env (DiscordMessage (discord_message_of env envelope))
        else Inl (''unsupported delivery type: '' @ deliveryType)))"

section \<open>Specifications\<close>

text \<open>A labelled value, as either service shows it.\<close>

definition slack_field :: "string \<times> string \<Rightarrow> block_text" where
  "slack_field p = \<lparr>bx_Type = ''mrkdwn'', bx_Text = ''*'' @ fst p @ ''*'' @ [newline] @ snd p\<rparr>"

definition discord_field :: "string \<times> string \<Rightarrow> embed_field" where
  "discord_field p = \<lparr>df_Name = fst p, df_Value = snd p, df_Inline = True\<rparr>"

definition label_ok :: "string \<Rightarrow> bool" where
  "label_ok l \<longleftrightarrow> l \<noteq> [] \<and> newline \<notin> set l \<and> CHR ''*'' \<notin> set l"

definition pair_ok :: "string \<times> string \<Rightarrow> bool" where
  "pair_ok p \<longleftrightarrow> label_ok (fst p) \<and> snd p \<noteq> [] \<and> trim_space (snd p) = snd p"

definition add_pair :: "string \<Rightarrow> string \<Rightarrow> (string \<times> string) list \<Rightarrow> (string \<times> string) list" where
  "add_pair l v ps = (if trim_space v = [] then ps else ps @ [(l, trim_space v)])"

fun field_blocks :: "slack_block list \<Rightarrow> block_text list list" where
  "field_blocks [] = []"
| "field_blocks (SectionFields fs # bs) = fs # field_blocks bs"
| "field_blocks (_ # bs) = field_blocks bs"

section \<open>Lemmas\<close>

lemma append_pair: "appendCardField l v (map slack_field ps) = map slack_field (add_pair l v ps)"
  by (simp add: appendCardField_def add_pair_def slack_field_def Let_def)

lemma append_first: "appendCardField l v [] = map slack_field (add_pair l v [])"
  using append_pair [of l v "[]"] by simp

lemma add_pair_ok: "label_ok l \<Longrightarrow> list_all pair_ok (add_pair l v ps) = list_all pair_ok ps"
  by (simp add: add_pair_def pair_ok_def)

lemma add_pair_length: "length (add_pair l v ps) \<le> Suc (length ps)"
  by (simp add: add_pair_def)

lemma labels_ok:
  "label_ok ''Severity''" "label_ok ''Scanner''" "label_ok ''Repository''" "label_ok ''Rule ID''" "label_ok ''Location''"
  "label_ok ''Finding ID''" "label_ok ''SLA Deadline''" "label_ok ''Target''" "label_ok ''Status''" "label_ok ''Findings''"
  "label_ok ''Scan ID''" "label_ok ''Webhook''" "label_ok ''Webhook ID''" "label_ok ''Event''"
  by (simp_all add: label_ok_def newline_def)

lemmas card_pairs = append_first append_pair add_pair_ok labels_ok

lemma finding_pairs: "\<exists>ps. wc_Fields (finding_card env e m) = map slack_field ps \<and> list_all pair_ok ps \<and> length ps \<le> 7"
proof -
  let ?base = "add_pair ''Finding ID'' (text_of m ''finding_id'') (add_pair ''Location'' (buildLocationLabel m)
    (add_pair ''Rule ID'' (text_of m ''rule_id'') (add_pair ''Repository'' (text_of m ''repository'')
    (add_pair ''Scanner'' (text_of m ''scanner'') (add_pair ''Severity'' (to_upper (text_of m ''severity'')) [])))))"
  have "wc_Fields (finding_card env e m) = map slack_field ?base \<or>
    wc_Fields (finding_card env e m) = map slack_field (add_pair ''SLA Deadline'' (formatHumanTime env (key_of m ''sla_deadline'') (wm_Timestamp e)) ?base)"
    by (simp add: finding_card_def Let_def card_pairs)
  moreover have "list_all pair_ok ?base" by (simp add: card_pairs)
  moreover have "length ?base \<le> 6" by (simp add: add_pair_def)
  ultimately show ?thesis using add_pair_length [of "''SLA Deadline''" _ ?base]
    by (elim disjE) (force simp: card_pairs intro: le_trans)+
qed

lemma card_fields: "\<exists>ps. wc_Fields (buildWebhookCard env e) = map slack_field ps \<and> list_all pair_ok ps \<and> length ps \<le> 7"
proof (cases "wm_Data e")
  case (JObj m)
  let ?scan = "add_pair ''Scan ID'' (text_of m ''scan_id'') (add_pair ''Findings'' (text_of m ''finding_count'')
     (add_pair ''Status'' (to_upper (text_of m ''status'')) (add_pair ''Target'' (text_of m ''target'')
     (add_pair ''Scanner'' (text_of m ''scanner'') []))))"
  let ?test = "add_pair ''Event'' (wm_Event e) (add_pair ''Webhook ID'' (text_of m ''webhook_id'')
        (add_pair ''Webhook'' (text_of m ''webhook_label'') []))"
  have "wc_Fields (scan_card env e m) = map slack_field ?scan" "list_all pair_ok ?scan"
    by (simp_all add: scan_card_def scan_fields_def Let_def card_pairs)
  moreover have "length ?scan \<le> 7" by (simp add: add_pair_def)
  moreover have "wc_Fields (test_card env e m) = map slack_field ?test" "list_all pair_ok ?test"
    by (simp_all add: test_card_def card_pairs)
  moreover have "length ?test \<le> 7" by (simp add: add_pair_def)
  moreover have "list_all pair_ok (add_pair ''Event'' (wm_Event e) [])" "length (add_pair ''Event'' (wm_Event e) []) \<le> 7"
    by (simp add: card_pairs) (simp add: add_pair_def)
  moreover note finding_pairs [of env e m]
  ultimately show ?thesis unfolding buildWebhookCard_def Let_def JObj json.case append_first by auto
qed (simp_all add: buildWebhookCard_def Let_def)

lemma cut_line: "newline \<notin> set a \<Longrightarrow> cut (a @ newline # b) [newline] = Some (a, b)"
proof -
  have "newline \<notin> set a \<Longrightarrow> index_of (a @ newline # b) [newline] = Some (length a)"
    by (induction a) auto
  then show "newline \<notin> set a \<Longrightarrow> cut (a @ newline # b) [newline] = Some (a, b)" by (simp add: cut_def)
qed

lemma trim_stars: "label_ok l \<Longrightarrow> trim_cutset ''*'' (CHR ''*'' # l @ ''*'') = l"
proof -
  have keep: "dropWhile (\<lambda>c. c \<in> set ''*'') s = s" if "CHR ''*'' \<notin> set s" for s
    using that by (cases s) auto
  assume l: "label_ok l"
  then have "dropWhile (\<lambda>c. c \<in> set ''*'') (l @ ''*'') = l @ ''*''" by (cases l) (auto simp: label_ok_def)
  moreover have "dropWhile (\<lambda>c. c \<in> set ''*'') (rev (l @ ''*'')) = rev l" using l keep [of "rev l"] by (simp add: label_ok_def)
  ultimately show ?thesis by (simp add: trim_cutset_def)
qed

lemma embed_pairs: "list_all pair_ok ps \<Longrightarrow> embed_fields (map slack_field ps) = map discord_field ps"
proof (induction ps)
  case (Cons p ps)
  have "newline \<notin> set (CHR ''*'' # fst p @ ''*'')" using Cons.prems by (simp add: pair_ok_def label_ok_def newline_def)
  then have "cut (bx_Text (slack_field p)) [newline] = Some (CHR ''*'' # fst p @ ''*'', snd p)"
    using cut_line [of "CHR ''*'' # fst p @ ''*''" "snd p"] by (simp add: slack_field_def)
  then show ?case using Cons trim_stars [of "fst p"] by (simp add: pair_ok_def discord_field_def)
qed simp

lemma slack_field_blocks: "field_blocks (sm_Blocks (slack_message_of env e)) =
    (if wc_Fields (buildWebhookCard env e) = [] then [] else [wc_Fields (buildWebhookCard env e)])"
  by (simp add: slack_message_of_def buildSlackFindingActions_def Let_def)

lemma floor_of_int_add: "round_half_even (of_int n) = n"
  by (simp add: round_half_even_def Let_def)

lemma format_integer: "format_float0 (of_int n) = itoa n"
proof (cases "n < 0")
  case True
  then have "round_half_even (- of_int n) = - n" using floor_of_int_add [of "- n"] by simp
  then show ?thesis using True by (simp add: format_float0_def itoa_def)
qed (simp add: format_float0_def itoa_def floor_of_int_add)

section \<open>Properties\<close>

text \<open>Slack and Discord show the same card: the same labelled values in the same order, none of them
  blank and none lost when the Discord fields are cut out of the Slack text, at most seven, which
  is below the ten fields Slack takes in a section; titles and descriptions agree too.\<close>

theorem cards_agree:
  "\<exists>ps. field_blocks (sm_Blocks (slack_message_of env e)) = (if ps = [] then [] else [map slack_field ps]) \<and>
     map de_Fields (dm_Embeds (discord_message_of env e)) = [map discord_field ps] \<and>
     list_all pair_ok ps \<and> length ps \<le> 7 \<and>
     (\<exists>title desc rest. sm_Blocks (slack_message_of env e) =
        SectionText \<lparr>bx_Type = ''mrkdwn'', bx_Text = ''*'' @ title @ ''*'' @ [newline] @ desc\<rparr> # rest \<and>
      map de_Title (dm_Embeds (discord_message_of env e)) = [title] \<and>
      map de_Description (dm_Embeds (discord_message_of env e)) = [desc])"
proof -
  obtain ps where ps: "wc_Fields (buildWebhookCard env e) = map slack_field ps" "list_all pair_ok ps" "length ps \<le> 7"
    using card_fields by blast
  have "field_blocks (sm_Blocks (slack_message_of env e)) = (if ps = [] then [] else [map slack_field ps])"
    unfolding slack_field_blocks ps(1) by simp
  moreover have "map de_Fields (dm_Embeds (discord_message_of env e)) = [map discord_field ps]"
    using ps by (simp add: discord_message_of_def Let_def embed_pairs)
  moreover have "sm_Blocks (slack_message_of env e) = SectionText \<lparr>bx_Type = ''mrkdwn'', bx_Text =
      ''*'' @ wc_Title (buildWebhookCard env e) @ ''*'' @ [newline] @ wc_Description (buildWebhookCard env e)\<rparr> #
      tl (sm_Blocks (slack_message_of env e))"
    by (simp add: slack_message_of_def Let_def)
  moreover have "map de_Title (dm_Embeds (discord_message_of env e)) = [wc_Title (buildWebhookCard env e)]"
    "map de_Description (dm_Embeds (discord_message_of env e)) = [wc_Description (buildWebhookCard env e)]"
    by (simp_all add: discord_message_of_def Let_def)
  ultimately show ?thesis using ps(2,3) by (intro exI [of _ ps] conjI exI) assumption+
qed

end
