(* ===== verification/Webhook_Delivery.thy ===== *)
theory Webhook_Delivery
  imports Webhook_Format Scan_Intake
begin

text \<open>
  Webhooks: the table and the delivery log (\<^verbatim>\<open>src/internal/repository/webhook.go\<close>), the handlers that
  administer them (\<^verbatim>\<open>handlers/webhooks.go\<close>), the task that delivers (\<^verbatim>\<open>HandleWebhookSend\<close> of
  \<^verbatim>\<open>tasks/webhook.go\<close>) and the signature (\<^verbatim>\<open>webhook/signature.go\<close>).  The parsers of addresses, the
  resolver, the HTTP client and HMAC are functions of the environment; the state records the requests
  that reached the client.
\<close>

section \<open>The table\<close>

record hook_row =
  wb_ID :: string
  wb_Label :: string
  wb_URL :: string
  wb_DeliveryType :: string
  wb_Events :: "string list"
  wb_Enabled :: bool
  wb_LastDelivery :: "int option"
  wb_DeliveryCount :: int
  wb_ErrorCount :: int
  wb_LastError :: "string option"
  wb_CreatedAt :: int

record hook_create =
  hw_Label :: string
  hw_URL :: string
  hw_DeliveryType :: string
  hw_Events :: "string list"

record hook_update =
  hu_Label :: "string option"
  hu_URL :: "string option"
  hu_DeliveryType :: "string option"
  hu_Events :: "string list option"
  hu_Enabled :: "bool option"

record delivery_log =
  wl_WebhookID :: string
  wl_EventType :: string
  wl_Payload :: "string option"
  wl_StatusCode :: "int option"
  wl_ResponseBody :: "string option"
  wl_ErrorMessage :: "string option"
  wl_CreatedAt :: int

text \<open>The parts of a parsed address; \<open>up_User\<close> tells that it names a user.\<close>

record url_parts =
  up_Scheme :: string
  up_Host :: string
  up_Hostname :: string
  up_User :: bool

text \<open>What the checks read of a parsed IP address.\<close>

record webhook_ip = ip_class +
  ip_LinkLocalMulticast :: bool

record delivery_call =
  hp_URL :: string
  hp_Body :: string
  hp_Headers :: "(string \<times> string) list"

text \<open>\<open>wx_do\<close> is the HTTP client: its error, or the status code and the body of the answer.
  \<open>wx_fail\<close> gives the error of a database operation, \<open>wx_jsonb\<close> tells whether a text is a JSON document,
  \<open>wx_hmac\<close> takes the secret and the message and encodes in base64.\<close>

record hook_env =
  wx_now :: go_time
  wx_body :: format_env
  wx_parse_url :: "string \<Rightarrow> url_parts option"
  wx_parse_ip :: "string \<Rightarrow> webhook_ip option"
  wx_lookup :: "string \<Rightarrow> string list option"
  wx_secret :: string
  wx_hmac :: "string \<Rightarrow> string \<Rightarrow> string"
  wx_do :: "delivery_call \<Rightarrow> string + int \<times> string"
  wx_fail :: "string \<Rightarrow> string option"
  wx_jsonb :: "string \<Rightarrow> bool"
  wx_new_id :: "hook_row list \<Rightarrow> string"
  wx_marshal_event :: "string \<Rightarrow> (string \<times> string) list \<Rightarrow> go_time \<Rightarrow> string + string"
  wx_accept :: "queued \<Rightarrow> bool"

record hook_state =
  ws_hooks :: "hook_row list"
  ws_logs :: "delivery_log list"
  ws_sent :: "delivery_call list"
  ws_intake :: intake_state

abbreviation "wx_secs env \<equiv> gt_ns (wx_now env) div 1000000000"

text \<open>Every query that reads rows ends like this one: the error of the database, or the rows.\<close>

definition hook_query :: "hook_env \<Rightarrow> string \<Rightarrow> string \<Rightarrow> 'a \<Rightarrow> string + 'a" where
  "hook_query env op pre x = (case wx_fail env op of Some e \<Rightarrow> Inl (pre @ e) | None \<Rightarrow> Inr x)"

definition Webhook_List :: "hook_env \<Rightarrow> hook_row list \<Rightarrow> string + hook_row list" where
  "Webhook_List env rows = hook_query env ''webhooks.List'' ''webhooks list: '' (rev (sort_key wb_CreatedAt rows))"

definition Webhook_GetByID :: "hook_env \<Rightarrow> string \<Rightarrow> hook_row list \<Rightarrow> string + hook_row" where
  "Webhook_GetByID env i rows =
     (case hook_query env ''webhooks.GetByID'' ''get webhook: '' (row_by wb_ID i rows) of
        Inl e \<Rightarrow> Inl e
      | Inr None \<Rightarrow> Inl ''get webhook: no rows in result set''
      | Inr (Some w) \<Rightarrow> Inr w)"

definition Webhook_Create :: "hook_env \<Rightarrow> hook_create \<Rightarrow> hook_row list \<Rightarrow> (string + hook_row) \<times> hook_row list" where
  "Webhook_Create env wc rows =
     (case wx_fail env ''webhooks.Create'' of
        Some e \<Rightarrow> (Inl (''create webhook: '' @ e), rows)
      | None \<Rightarrow> (let w = \<lparr>wb_ID = wx_new_id env rows, wb_Label = hw_Label wc, wb_URL = hw_URL wc,
            wb_DeliveryType = hw_DeliveryType wc, wb_Events = hw_Events wc, wb_Enabled = True, wb_LastDelivery = None,
            wb_DeliveryCount = 0, wb_ErrorCount = 0, wb_LastError = None, wb_CreatedAt = wx_secs env\<rparr>
          in (Inr w, rows @ [w])))"

text \<open>The columns an update sets; without any it is a lookup.\<close>

definition set_columns :: "hook_update \<Rightarrow> hook_row \<Rightarrow> hook_row" where
  "set_columns upd w = w\<lparr>
     wb_Label := (case hu_Label upd of Some v \<Rightarrow> v | None \<Rightarrow> wb_Label w),
     wb_URL := (case hu_URL upd of Some v \<Rightarrow> v | None \<Rightarrow> wb_URL w),
     wb_DeliveryType := (case hu_DeliveryType upd of Some v \<Rightarrow> v | None \<Rightarrow> wb_DeliveryType w),
     wb_Events := (case hu_Events upd of Some v \<Rightarrow> v | None \<Rightarrow> wb_Events w),
     wb_Enabled := (case hu_Enabled upd of Some v \<Rightarrow> v | None \<Rightarrow> wb_Enabled w)\<rparr>"

definition Webhook_Update :: "hook_env \<Rightarrow> string \<Rightarrow> hook_update \<Rightarrow> hook_row list \<Rightarrow> (string + hook_row) \<times> hook_row list" where
  "Webhook_Update env i upd rows =
     (if hu_Label upd = None \<and> hu_URL upd = None \<and> hu_DeliveryType upd = None \<and> hu_Events upd = None \<and> hu_Enabled upd = None
      then (Webhook_GetByID env i rows, rows)
      else (case wx_fail env ''webhooks.Update'' of
        Some e \<Rightarrow> (Inl (''update webhook: '' @ e), rows)
      | None \<Rightarrow>
        (let rows' = update_where (\<lambda>w. wb_ID w = i) (set_columns upd) rows in
         case row_by wb_ID i rows' of
           None \<Rightarrow> (Inl ''update webhook: no rows in result set'', rows)
         | Some w \<Rightarrow> (Inr w, rows'))))"

text \<open>Deleting a webhook deletes its log (\<^verbatim>\<open>ON DELETE CASCADE\<close>).\<close>

definition Webhook_Delete :: "hook_env \<Rightarrow> string \<Rightarrow> hook_state \<Rightarrow> string option \<times> hook_state" where
  "Webhook_Delete env i st =
     (case wx_fail env ''webhooks.Delete'' of
        Some e \<Rightarrow> (Some (''delete webhooks: '' @ e), st)
      | None \<Rightarrow>
        if row_by wb_ID i (ws_hooks st) = None then (Some ''no rows in result set'', st)
        else (None, st\<lparr>ws_hooks := filter (\<lambda>w. wb_ID w \<noteq> i) (ws_hooks st),
                       ws_logs := filter (\<lambda>l. wl_WebhookID l \<noteq> i) (ws_logs st)\<rparr>))"

definition Webhook_ListEnabled :: "hook_env \<Rightarrow> hook_row list \<Rightarrow> string + hook_row list" where
  "Webhook_ListEnabled env rows = hook_query env ''webhooks.ListEnabled'' ''list enabled webhooks: '' (filter wb_Enabled rows)"

definition max_int4 :: int where
  "max_int4 = 2147483647"

text \<open>The counters are four-byte columns; an increment beyond their range is an error of the statement.\<close>

definition UpdateDeliveryStats :: "hook_env \<Rightarrow> string \<Rightarrow> bool \<Rightarrow> string \<Rightarrow> hook_row list \<Rightarrow> string option \<times> hook_row list" where
  "UpdateDeliveryStats env i success errorMsg rows =
     (case wx_fail env ''webhooks.UpdateDeliveryStats'' of
        Some e \<Rightarrow> (Some e, rows)
      | None \<Rightarrow>
        if list_ex (\<lambda>w. wb_ID w = i \<and> (max_int4 \<le> wb_DeliveryCount w \<or> (\<not> success \<and> max_int4 \<le> wb_ErrorCount w))) rows
        then (Some ''integer out of range'', rows)
        else (None, update_where (\<lambda>w. wb_ID w = i) (\<lambda>w. w\<lparr>wb_LastDelivery := Some (wx_secs env),
            wb_DeliveryCount := wb_DeliveryCount w + 1, wb_ErrorCount := wb_ErrorCount w + (if success then 0 else 1),
            wb_LastError := (if success then None else Some errorMsg)\<rparr>) rows))"

text \<open>The log row needs a payload that is a JSON document, and its webhook.\<close>

definition LogDelivery :: "hook_env \<Rightarrow> delivery_log \<Rightarrow> hook_state \<Rightarrow> string option \<times> hook_state" where
  "LogDelivery env l st =
     (case wx_fail env ''webhooks.LogDelivery'' of
        Some e \<Rightarrow> (Some e, st)
      | None \<Rightarrow>
        (case wl_Payload l of
          None \<Rightarrow> (Some ''null value in column payload violates not-null constraint'', st)
        | Some p \<Rightarrow>
          if \<not> wx_jsonb env p then (Some ''invalid input syntax for type json'', st)
          else if row_by wb_ID (wl_WebhookID l) (ws_hooks st) = None then (Some ''violates foreign key constraint'', st)
          else (None, st\<lparr>ws_logs := ws_logs st @ [l\<lparr>wl_CreatedAt := wx_secs env\<rparr>]\<rparr>)))"

definition GetDeliveryLogs :: "hook_env \<Rightarrow> string \<Rightarrow> nat \<Rightarrow> hook_state \<Rightarrow> string + delivery_log list" where
  "GetDeliveryLogs env i limit st =
     hook_query env ''webhooks.GetDeliveryLogs'' ''get delivery logs: ''
       (take limit (rev (sort_key wl_CreatedAt (filter (\<lambda>l. wl_WebhookID l = i) (ws_logs st)))))"

section \<open>Addresses\<close>

definition isPublicWebhookIP :: "webhook_ip \<Rightarrow> bool" where
  "isPublicWebhookIP ip \<longleftrightarrow> \<not> (ip_Loopback ip \<or> ip_Private ip \<or> ip_LinkLocal ip \<or> ip_LinkLocalMulticast ip \<or> ip_Unspecified ip)"

text \<open>The checks of form that both validations make: the error, or the host name in lower case.\<close>

definition webhook_host :: "hook_env \<Rightarrow> string \<Rightarrow> string + string" where
  "webhook_host env raw =
     (case wx_parse_url env (trim_space raw) of
        None \<Rightarrow> Inl ''webhook url must be absolute''
      | Some u \<Rightarrow>
        if up_Scheme u = [] \<or> up_Host u = [] then Inl ''webhook url must be absolute''
        else if up_Scheme u \<noteq> ''https'' \<and> up_Scheme u \<noteq> ''http'' then Inl ''webhook url must use http or https''
        else if up_User u then Inl ''webhook url must not contain credentials''
        else (let host = to_lower (up_Hostname u) in
          if host = ''localhost'' \<or> has_suffix host ''.localhost'' then Inl ''webhook url must not target localhost''
          else Inr host))"

definition validateOutboundWebhookURL :: "hook_env \<Rightarrow> string \<Rightarrow> string option" where
  "validateOutboundWebhookURL env raw =
     (case webhook_host env raw of
        Inl e \<Rightarrow> Some e
      | Inr host \<Rightarrow> (case wx_parse_ip env host of
          Some ip \<Rightarrow> if isPublicWebhookIP ip then None else Some ''webhook url must target a public address''
        | None \<Rightarrow> None))"

fun resolved_error :: "hook_env \<Rightarrow> string \<Rightarrow> string list \<Rightarrow> string option" where
  "resolved_error env host [] = None"
| "resolved_error env host (i # ips) =
     (case wx_parse_ip env i of
        None \<Rightarrow> Some (''webhook url '' @ host @ '' resolves to a non-public address ('' @ i @ '')'')
      | Some ip \<Rightarrow> if isPublicWebhookIP ip then resolved_error env host ips
          else Some (''webhook url '' @ host @ '' resolves to a non-public address ('' @ i @ '')''))"

definition validateWebhookURL :: "hook_env \<Rightarrow> string \<Rightarrow> string option" where
  "validateWebhookURL env raw =
     (case webhook_host env raw of
        Inl e \<Rightarrow> Some e
      | Inr host \<Rightarrow> (case wx_parse_ip env host of
          Some ip \<Rightarrow> if isPublicWebhookIP ip then None else Some ''webhook url must target a public address''
        | None \<Rightarrow> (case wx_lookup env host of
            None \<Rightarrow> Some (''webhook url: failed to resolve hostname '' @ host)
          | Some ips \<Rightarrow> resolved_error env host ips)))"

section \<open>Signatures\<close>

definition SignatureHeader :: string where "SignatureHeader = ''X-Webhook-Signature''"
definition TimestampHeader :: string where "TimestampHeader = ''X-Webhook-Timestamp''"
definition MaxAge :: int where "MaxAge = 300000000000"

definition SignPayload :: "hook_env \<Rightarrow> string \<Rightarrow> string \<Rightarrow> go_time \<Rightarrow> string" where
  "SignPayload env payload secret timestamp =
     wx_hmac env secret (wf_format (wx_body env) timestamp @ ''.'' @ payload)"

text \<open>The headers are given as their values, empty when absent.\<close>

definition VerifySignature :: "hook_env \<Rightarrow> string \<Rightarrow> string \<Rightarrow> string \<Rightarrow> string \<Rightarrow> string option" where
  "VerifySignature env signature timestampStr body secret =
     (if signature = [] then Some ''missing signature header''
      else if timestampStr = [] then Some ''missing timestamp header''
      else (case wf_parse (wx_body env) timestampStr of
        None \<Rightarrow> Some ''invalid timestamp format''
      | Some timestamp \<Rightarrow>
        if MaxAge < gt_ns (wx_now env) - gt_ns timestamp then Some ''webhook timestamp expired''
        else if signature \<noteq> SignPayload env body secret timestamp then Some ''invalid webhook signature''
        else None))"

section \<open>Delivery\<close>

definition updateDeliveryStats :: "hook_env \<Rightarrow> string \<Rightarrow> bool \<Rightarrow> string \<Rightarrow> hook_state \<Rightarrow> hook_state" where
  "updateDeliveryStats env i success errorMsg st =
     st\<lparr>ws_hooks := snd (UpdateDeliveryStats env i success errorMsg (ws_hooks st))\<rparr>"

definition non_empty :: "string \<Rightarrow> string option" where
  "non_empty s = (if s = [] then None else Some s)"

definition logDelivery :: "hook_env \<Rightarrow> string \<Rightarrow> string \<Rightarrow> string option \<Rightarrow> int \<Rightarrow> string \<Rightarrow> string \<Rightarrow> hook_state \<Rightarrow> hook_state" where
  "logDelivery env i eventType payload statusCode responseBody errorMsg st =
     snd (LogDelivery env \<lparr>wl_WebhookID = i, wl_EventType = eventType, wl_Payload = payload,
       wl_StatusCode = (if statusCode \<noteq> 0 then Some statusCode else None), wl_ResponseBody = non_empty responseBody,
       wl_ErrorMessage = non_empty errorMsg, wl_CreatedAt = 0\<rparr> st)"

text \<open>The outcome of an attempt goes to the counters and to the log.\<close>

definition record_attempt :: "hook_env \<Rightarrow> string \<Rightarrow> string \<Rightarrow> string option \<Rightarrow> int \<Rightarrow> string \<Rightarrow> string \<Rightarrow> bool \<Rightarrow> hook_state \<Rightarrow> hook_state" where
  "record_attempt env i eventType payload statusCode responseBody errorMsg success st =
     logDelivery env i eventType payload statusCode responseBody errorMsg (updateDeliveryStats env i success errorMsg st)"

definition delivery_request :: "hook_env \<Rightarrow> string \<Rightarrow> string \<Rightarrow> string \<Rightarrow> delivery_call" where
  "delivery_request env url eventType body =
     \<lparr>hp_URL = url, hp_Body = body,
      hp_Headers = [(''Content-Type'', ''application/json''), (''User-Agent'', ''ASPM-Webhook/1.0''), (''X-ASPM-Event'', eventType)] @
        (if wx_secret env \<noteq> [] then [(SignatureHeader, SignPayload env body (wx_secret env) (wx_now env)),
           (TimestampHeader, wf_format (wx_body env) (wx_now env))] else [])\<rparr>"

definition status_error :: "int \<Rightarrow> string" where
  "status_error code = (if 200 \<le> code \<and> code < 300 then [] else ''unexpected status code: '' @ itoa code)"

text \<open>The task: its decoded payload, or the error of decoding it.  \<^verbatim>\<open>http.NewRequest\<close> parses the address
  as it is stored.\<close>

definition HandleWebhookSend :: "hook_env \<Rightarrow> string + string \<times> string \<times> string \<Rightarrow> hook_state \<Rightarrow> string option \<times> hook_state" where
  "HandleWebhookSend env payload st =
     (case payload of
        Inl e \<Rightarrow> (Some (''unmarshal webhook payload: '' @ e), st)
      | Inr (i, eventType, bytes) \<Rightarrow>
        (case Webhook_GetByID env i (ws_hooks st) of
          Inl e \<Rightarrow> (Some (''get webhook: '' @ e), st)
        | Inr w \<Rightarrow>
          if \<not> wb_Enabled w then (None, st)
          else (case validateOutboundWebhookURL env (wb_URL w) of
            Some e \<Rightarrow> (Some (''validate webhook url: '' @ e), record_attempt env i eventType (Some bytes) 0 [] e False st)
          | None \<Rightarrow>
            (case formatWebhookBody (wx_body env) (wb_DeliveryType w) bytes of
              Inl e \<Rightarrow> (Some (''format webhook payload: '' @ e), record_attempt env i eventType None 0 [] e False st)
            | Inr body \<Rightarrow>
              if wx_parse_url env (wb_URL w) = None then (Some ''create request: invalid URL'', st)
              else (let req = delivery_request env (wb_URL w) eventType body; st1 = st\<lparr>ws_sent := ws_sent st @ [req]\<rparr> in
                case wx_do env req of
                  Inl e \<Rightarrow> (Some (''send webhook: '' @ e), record_attempt env i eventType (Some body) 0 [] e False st1)
                | Inr (code, respBody) \<Rightarrow>
                  (let errorMsg = status_error code; success = (200 \<le> code \<and> code < 300) in
                   (if success then None else Some errorMsg,
                    record_attempt env i eventType (Some body) code respBody errorMsg success st1)))))))"

section \<open>Administration\<close>

definition NormalizeWebhookDeliveryType :: "string \<Rightarrow> string" where
  "NormalizeWebhookDeliveryType raw =
     (let n = to_lower raw in if n = ''generic'' \<or> n = ''slack'' \<or> n = ''discord'' then n else [])"

definition audit_hook :: "claims option \<Rightarrow> string \<Rightarrow> string \<Rightarrow> hook_state \<Rightarrow> hook_state" where
  "audit_hook who action i st = st\<lparr>ws_intake := auditLog who action ''webhook'' i (ws_intake st)\<rparr>"

definition ListWebhooks :: "hook_env \<Rightarrow> hook_state \<Rightarrow> hook_row list reply" where
  "ListWebhooks env st =
     (case Webhook_List env (ws_hooks st) of Inl e \<Rightarrow> Inl (500, ''failed to list webhooks'') | Inr ws \<Rightarrow> Inr ws)"

definition CreateWebhook :: "hook_env \<Rightarrow> claims option \<Rightarrow> hook_create option \<Rightarrow> hook_state \<Rightarrow> hook_row reply \<times> hook_state" where
  "CreateWebhook env who body st =
     (case body of
        None \<Rightarrow> (Inl (400, ''invalid body''), st)
      | Some wc \<Rightarrow>
        if hw_Label wc = [] then (Inl (400, ''label required''), st)
        else if hw_URL wc = [] then (Inl (400, ''url required''), st)
        else (case validateWebhookURL env (hw_URL wc) of
          Some e \<Rightarrow> (Inl (400, e), st)
        | None \<Rightarrow>
          (let kind = NormalizeWebhookDeliveryType (hw_DeliveryType wc) in
           if kind = [] then (Inl (400, ''invalid delivery_type''), st)
           else (case Webhook_Create env (wc\<lparr>hw_DeliveryType := kind\<rparr>) (ws_hooks st) of
               (Inl e, rows) \<Rightarrow> (Inl (500, ''failed to create webhook''), st\<lparr>ws_hooks := rows\<rparr>)
             | (Inr w, rows) \<Rightarrow> (Inr w, audit_hook who ''webhook.create'' (wb_ID w) (st\<lparr>ws_hooks := rows\<rparr>))))))"

definition UpdateWebhook :: "hook_env \<Rightarrow> claims option \<Rightarrow> string \<Rightarrow> hook_update option \<Rightarrow> hook_state \<Rightarrow> hook_row reply \<times> hook_state" where
  "UpdateWebhook env who i body st =
     (case body of
        None \<Rightarrow> (Inl (400, ''invalid body''), st)
      | Some upd \<Rightarrow>
        (let kind = map_option NormalizeWebhookDeliveryType (hu_DeliveryType upd) in
         if kind = Some [] then (Inl (400, ''invalid delivery_type''), st)
         else (case (case hu_URL upd of Some u \<Rightarrow> validateWebhookURL env u | None \<Rightarrow> None) of
           Some e \<Rightarrow> (Inl (400, e), st)
         | None \<Rightarrow>
           (case Webhook_Update env i (upd\<lparr>hu_DeliveryType := kind\<rparr>) (ws_hooks st) of
              (Inl e, rows) \<Rightarrow> (Inl (500, ''failed to update webhook''), st\<lparr>ws_hooks := rows\<rparr>)
            | (Inr w, rows) \<Rightarrow> (Inr w, audit_hook who ''webhook.update'' i (st\<lparr>ws_hooks := rows\<rparr>))))))"

definition DeleteWebhook :: "hook_env \<Rightarrow> claims option \<Rightarrow> string \<Rightarrow> hook_state \<Rightarrow> unit reply \<times> hook_state" where
  "DeleteWebhook env who i st =
     (case Webhook_Delete env i st of
        (Some e, st1) \<Rightarrow> (Inl (500, ''failed to delete webhook''), st1)
      | (None, st1) \<Rightarrow> (Inr (), audit_hook who ''webhook.delete'' i st1))"

definition TestWebhook :: "hook_env \<Rightarrow> claims option \<Rightarrow> string \<Rightarrow> hook_state \<Rightarrow> unit reply \<times> hook_state" where
  "TestWebhook env who i st =
     (case Webhook_GetByID env i (ws_hooks st) of
        Inl e \<Rightarrow> (Inl (404, ''webhook not found''), st)
      | Inr w \<Rightarrow>
        (case wx_marshal_event env ''test'' [(''message'', ''This is a test webhook delivery''),
            (''webhook_id'', wb_ID w), (''webhook_label'', wb_Label w)] (utc (wx_now env)) of
          Inl e \<Rightarrow> (Inl (500, ''failed to create test payload''), st)
        | Inr bytes \<Rightarrow>
          (let x = \<lparr>q_task = WebhookSend (wb_ID w) ''test'' bytes, q_retry = 5, q_timeout = 30\<rparr> in
           if \<not> wx_accept env x then (Inl (500, ''failed to enqueue test''), st)
           else (Inr (), audit_hook who ''webhook.test'' (wb_ID w)
             (st\<lparr>ws_intake := (ws_intake st)\<lparr>it_queue := it_queue (ws_intake st) @ [x]\<rparr>\<rparr>)))))"

section \<open>Specifications\<close>

definition hook_ok :: "hook_env \<Rightarrow> hook_row \<Rightarrow> bool" where
  "hook_ok env w \<longleftrightarrow> wb_DeliveryType w \<in> {''generic'', ''slack'', ''discord''} \<and> validateOutboundWebhookURL env (wb_URL w) = None \<and>
     0 \<le> wb_ErrorCount w \<and> wb_ErrorCount w \<le> wb_DeliveryCount w \<and> wb_DeliveryCount w \<le> max_int4 \<and>
     (wb_LastDelivery w = None \<longleftrightarrow> wb_DeliveryCount w = 0) \<and> (wb_LastError w \<noteq> None \<longrightarrow> 0 < wb_ErrorCount w)"

definition hooks_ok :: "hook_env \<Rightarrow> hook_state \<Rightarrow> bool" where
  "hooks_ok env st \<longleftrightarrow> distinct (map wb_ID (ws_hooks st)) \<and> list_all (hook_ok env) (ws_hooks st) \<and>
     wl_WebhookID ` set (ws_logs st) \<subseteq> wb_ID ` set (ws_hooks st) \<and>
     list_all (\<lambda>r. validateOutboundWebhookURL env (hp_URL r) = None) (ws_sent st)"

text \<open>What stays the same while time passes, hosts resolve differently and servers answer: the parsers;
  and a new row gets an identifier that no row has.\<close>

definition same_world :: "hook_env \<Rightarrow> hook_env \<Rightarrow> bool" where
  "same_world env0 env \<longleftrightarrow> wx_parse_url env = wx_parse_url env0 \<and> wx_parse_ip env = wx_parse_ip env0 \<and>
     (\<forall>rows. wx_new_id env rows \<notin> wb_ID ` set rows)"

inductive hook_step :: "hook_env \<Rightarrow> hook_state \<Rightarrow> hook_state \<Rightarrow> bool" for env0 where
  step_create: "same_world env0 env \<Longrightarrow> hook_step env0 st (snd (CreateWebhook env who body st))"
| step_update: "same_world env0 env \<Longrightarrow> hook_step env0 st (snd (UpdateWebhook env who i upd st))"
| step_delete: "same_world env0 env \<Longrightarrow> hook_step env0 st (snd (DeleteWebhook env who i st))"
| step_test: "same_world env0 env \<Longrightarrow> hook_step env0 st (snd (TestWebhook env who i st))"
| step_send: "same_world env0 env \<Longrightarrow> hook_step env0 st (snd (HandleWebhookSend env payload st))"

text \<open>The row of an attempt: one more delivery, the outcome in the error columns; and its log entry.\<close>

definition count_attempt :: "hook_env \<Rightarrow> bool \<Rightarrow> string \<Rightarrow> hook_row \<Rightarrow> hook_row" where
  "count_attempt env ok err v = v\<lparr>wb_LastDelivery := Some (wx_secs env), wb_DeliveryCount := wb_DeliveryCount v + 1,
     wb_ErrorCount := wb_ErrorCount v + (if ok then 0 else 1), wb_LastError := (if ok then None else Some err)\<rparr>"

definition log_entry :: "hook_env \<Rightarrow> string \<Rightarrow> string \<Rightarrow> string \<Rightarrow> int \<Rightarrow> string \<Rightarrow> string \<Rightarrow> delivery_log" where
  "log_entry env i ev body code resp err = \<lparr>wl_WebhookID = i, wl_EventType = ev, wl_Payload = Some body,
     wl_StatusCode = (if code \<noteq> 0 then Some code else None), wl_ResponseBody = non_empty resp,
     wl_ErrorMessage = non_empty err, wl_CreatedAt = wx_secs env\<rparr>"

section \<open>Lemmas\<close>

lemma webhook_host_same: "same_world env0 env \<Longrightarrow> webhook_host env = webhook_host env0"
  by (rule ext) (simp add: webhook_host_def same_world_def)

lemma outbound_same: "same_world env0 env \<Longrightarrow> validateOutboundWebhookURL env = validateOutboundWebhookURL env0"
proof (rule ext)
  fix raw
  assume w: "same_world env0 env"
  then have "wx_parse_ip env = wx_parse_ip env0" by (simp add: same_world_def)
  then show "validateOutboundWebhookURL env raw = validateOutboundWebhookURL env0 raw"
    by (simp only: validateOutboundWebhookURL_def webhook_host_same [OF w])
qed

text \<open>What is accepted when a webhook is stored is accepted when it is called.\<close>

lemma stored_then_sent: "validateWebhookURL env raw = None \<Longrightarrow> validateOutboundWebhookURL env raw = None"
  by (auto simp: validateWebhookURL_def validateOutboundWebhookURL_def split: sum.splits option.splits if_splits)

lemma Normalize_kind: "NormalizeWebhookDeliveryType raw \<noteq> [] \<Longrightarrow> NormalizeWebhookDeliveryType raw \<in> {''generic'', ''slack'', ''discord''}"
  by (auto simp: NormalizeWebhookDeliveryType_def Let_def split: if_splits)

lemma UpdateDeliveryStats_ok:
  assumes "list_all (hook_ok env) rows"
  shows "list_all (hook_ok env) (snd (UpdateDeliveryStats env' i s e rows)) \<and>
    map wb_ID (snd (UpdateDeliveryStats env' i s e rows)) = map wb_ID rows"
proof (cases "snd (UpdateDeliveryStats env' i s e rows) = rows")
  case False
  let ?f = "\<lambda>w. w\<lparr>wb_LastDelivery := Some (wx_secs env'), wb_DeliveryCount := wb_DeliveryCount w + 1,
    wb_ErrorCount := wb_ErrorCount w + (if s then 0 else 1), wb_LastError := (if s then None else Some e)\<rparr>"
  have rows: "snd (UpdateDeliveryStats env' i s e rows) = update_where (\<lambda>w. wb_ID w = i) ?f rows"
    and room: "\<forall>w\<in>set rows. wb_ID w = i \<longrightarrow> wb_DeliveryCount w < max_int4"
    using False by (auto simp: UpdateDeliveryStats_def list_ex_iff not_le split: option.splits if_splits)
  have "hook_ok env (?f w)" if "w \<in> set rows" "wb_ID w = i" for w
    using assms that room by (auto simp: list_all_iff hook_ok_def)
  then show ?thesis unfolding rows using assms by (auto simp: list_all_iff set_update_where map_update_where)
qed (simp add: assms)

lemma LogDelivery_cases:
  "snd (LogDelivery env l st) = st \<or>
   (wl_WebhookID l \<in> wb_ID ` set (ws_hooks st) \<and>
    snd (LogDelivery env l st) = st\<lparr>ws_logs := ws_logs st @ [l\<lparr>wl_CreatedAt := wx_secs env\<rparr>]\<rparr>)"
  by (simp add: LogDelivery_def row_by_None split: option.split)

lemma LogDelivery_ok:
  assumes "wl_WebhookID ` set (ws_logs st) \<subseteq> wb_ID ` set (ws_hooks st)"
  shows "ws_hooks (snd (LogDelivery env l st)) = ws_hooks st \<and> ws_sent (snd (LogDelivery env l st)) = ws_sent st \<and>
    wl_WebhookID ` set (ws_logs (snd (LogDelivery env l st))) \<subseteq> wb_ID ` set (ws_hooks st)"
  using LogDelivery_cases [of env l st] assms by (elim disjE conjE) simp_all

lemma record_attempt_ok:
  assumes "hooks_ok env st"
  shows "hooks_ok env (record_attempt env' i ev p code resp err s st)"
proof -
  let ?st = "updateDeliveryStats env' i s err st"
  have ok: "list_all (hook_ok env) (ws_hooks ?st) \<and> map wb_ID (ws_hooks ?st) = map wb_ID (ws_hooks st)"
    using UpdateDeliveryStats_ok [of env "ws_hooks st"] assms by (simp add: updateDeliveryStats_def hooks_ok_def)
  then have ids: "wb_ID ` set (ws_hooks ?st) = wb_ID ` set (ws_hooks st)" by (metis set_map)
  have "wl_WebhookID ` set (ws_logs ?st) \<subseteq> wb_ID ` set (ws_hooks ?st)" "ws_sent ?st = ws_sent st"
    using assms ids by (simp_all add: hooks_ok_def updateDeliveryStats_def)
  moreover have "wl_WebhookID ` set (ws_logs (snd (LogDelivery env' l ?st))) \<subseteq> wb_ID ` set (ws_hooks ?st) \<and>
      ws_hooks (snd (LogDelivery env' l ?st)) = ws_hooks ?st \<and> ws_sent (snd (LogDelivery env' l ?st)) = ws_sent ?st" for l
    using LogDelivery_ok [of ?st env' l] calculation by blast
  ultimately show ?thesis
    using ok assms unfolding record_attempt_def logDelivery_def hooks_ok_def by simp
qed

lemma CreateWebhook_ok:
  assumes "hooks_ok env0 st" "same_world env0 env"
  shows "hooks_ok env0 (snd (CreateWebhook env who body st))"
proof (cases "ws_hooks (snd (CreateWebhook env who body st)) = ws_hooks st")
  case True
  then show ?thesis using assms(1)
    by (auto simp: CreateWebhook_def audit_hook_def hooks_ok_def Let_def split: option.splits prod.splits sum.splits)
next
  case False
  then obtain wc where wc: "body = Some wc" "hw_Label wc \<noteq> []" "hw_URL wc \<noteq> []" "validateWebhookURL env (hw_URL wc) = None"
    "NormalizeWebhookDeliveryType (hw_DeliveryType wc) \<noteq> []" "wx_fail env ''webhooks.Create'' = None"
    by (auto simp: CreateWebhook_def Webhook_Create_def audit_hook_def Let_def split: option.splits if_splits)
  let ?w = "\<lparr>wb_ID = wx_new_id env (ws_hooks st), wb_Label = hw_Label wc, wb_URL = hw_URL wc,
    wb_DeliveryType = NormalizeWebhookDeliveryType (hw_DeliveryType wc), wb_Events = hw_Events wc, wb_Enabled = True,
    wb_LastDelivery = None, wb_DeliveryCount = 0, wb_ErrorCount = 0, wb_LastError = None, wb_CreatedAt = wx_secs env\<rparr>"
  have st: "ws_hooks (snd (CreateWebhook env who body st)) = ws_hooks st @ [?w]"
    "ws_logs (snd (CreateWebhook env who body st)) = ws_logs st" "ws_sent (snd (CreateWebhook env who body st)) = ws_sent st"
    using False wc by (auto simp: CreateWebhook_def Webhook_Create_def audit_hook_def Let_def)
  have "hook_ok env0 ?w"
    using Normalize_kind [OF wc(5)] stored_then_sent [OF wc(4)] outbound_same [OF assms(2)]
    by (simp add: hook_ok_def max_int4_def)
  moreover have "wx_new_id env (ws_hooks st) \<notin> wb_ID ` set (ws_hooks st)" using assms(2) by (simp add: same_world_def)
  ultimately show ?thesis using assms(1) by (auto simp: hooks_ok_def st)
qed

lemma set_columns_ok:
  assumes "hook_ok env w" "\<forall>u. hu_URL upd = Some u \<longrightarrow> validateOutboundWebhookURL env u = None"
    and "\<forall>k. hu_DeliveryType upd = Some k \<longrightarrow> k \<in> {''generic'', ''slack'', ''discord''}"
  shows "hook_ok env (set_columns upd w)"
  using assms by (auto simp: hook_ok_def set_columns_def split: option.split)

lemma UpdateWebhook_ok:
  assumes "hooks_ok env0 st" "same_world env0 env"
  shows "hooks_ok env0 (snd (UpdateWebhook env who i body st))"
proof (cases "ws_hooks (snd (UpdateWebhook env who i body st)) = ws_hooks st")
  case True
  then show ?thesis using assms(1)
    by (auto simp: UpdateWebhook_def audit_hook_def hooks_ok_def Let_def split: option.splits prod.splits sum.splits)
next
  case False
  then obtain upd where upd: "body = Some upd" "map_option NormalizeWebhookDeliveryType (hu_DeliveryType upd) \<noteq> Some []"
    "\<forall>u. hu_URL upd = Some u \<longrightarrow> validateWebhookURL env u = None"
    by (auto simp: UpdateWebhook_def Let_def split: option.splits if_splits)
  let ?upd = "upd\<lparr>hu_DeliveryType := map_option NormalizeWebhookDeliveryType (hu_DeliveryType upd)\<rparr>"
  have un: "UpdateWebhook env who i body st = (case Webhook_Update env i ?upd (ws_hooks st) of
      (Inl e, rows) \<Rightarrow> (Inl (500, ''failed to update webhook''), st\<lparr>ws_hooks := rows\<rparr>)
    | (Inr w, rows) \<Rightarrow> (Inr w, audit_hook who ''webhook.update'' i (st\<lparr>ws_hooks := rows\<rparr>)))"
    using upd by (auto simp: UpdateWebhook_def Let_def split: option.split)
  have st: "ws_hooks (snd (UpdateWebhook env who i body st)) = snd (Webhook_Update env i ?upd (ws_hooks st))"
    "ws_logs (snd (UpdateWebhook env who i body st)) = ws_logs st" "ws_sent (snd (UpdateWebhook env who i body st)) = ws_sent st"
    unfolding un by (auto simp: audit_hook_def split: prod.split sum.split)
  have rows: "snd (Webhook_Update env i ?upd (ws_hooks st)) = update_where (\<lambda>w. wb_ID w = i) (set_columns ?upd) (ws_hooks st)"
    using False unfolding st(1) by (auto simp: Webhook_Update_def Let_def split: option.splits if_splits)
  have kind: "\<forall>k. hu_DeliveryType ?upd = Some k \<longrightarrow> k \<in> {''generic'', ''slack'', ''discord''}"
    using upd(2) Normalize_kind by (cases "hu_DeliveryType upd") auto
  have url: "\<forall>u. hu_URL ?upd = Some u \<longrightarrow> validateOutboundWebhookURL env0 u = None"
    using upd(3) stored_then_sent by (simp add: outbound_same [OF assms(2), symmetric])
  have "list_all (hook_ok env0) (update_where (\<lambda>w. wb_ID w = i) (set_columns ?upd) (ws_hooks st))"
    using assms(1) set_columns_ok [OF _ url kind] by (auto simp: hooks_ok_def list_all_iff set_update_where)
  moreover have "map wb_ID (update_where (\<lambda>w. wb_ID w = i) (set_columns ?upd) (ws_hooks st)) = map wb_ID (ws_hooks st)"
    by (rule map_update_where) (simp add: set_columns_def)
  ultimately show ?thesis
    using assms(1) unfolding hooks_ok_def st rows by (metis set_map)
qed

lemma DeleteWebhook_ok: "hooks_ok env0 st \<Longrightarrow> hooks_ok env0 (snd (DeleteWebhook env who i st))"
  by (auto simp: DeleteWebhook_def Webhook_Delete_def audit_hook_def hooks_ok_def list_all_iff distinct_map_filter
      split: prod.splits option.splits if_splits)

lemma TestWebhook_same: "ws_hooks (snd (TestWebhook env who i st)) = ws_hooks st \<and> ws_logs (snd (TestWebhook env who i st)) = ws_logs st \<and>
    ws_sent (snd (TestWebhook env who i st)) = ws_sent st"
  by (simp add: TestWebhook_def audit_hook_def Let_def split: sum.split)

lemma HandleWebhookSend_ok:
  assumes "hooks_ok env0 st" "same_world env0 env"
  shows "hooks_ok env0 (snd (HandleWebhookSend env payload st))"
proof -
  have sent: "hooks_ok env0 (st\<lparr>ws_sent := ws_sent st @ [delivery_request env url ev body]\<rparr>)"
    if "validateOutboundWebhookURL env url = None" for url ev body
    using assms(1) that outbound_same [OF assms(2)] by (simp add: hooks_ok_def delivery_request_def)
  show ?thesis
    using assms(1) by (auto simp: HandleWebhookSend_def Let_def intro!: record_attempt_ok sent split: sum.split option.split)
qed

lemma hook_step_ok: "hook_step env st st' \<Longrightarrow> hooks_ok env st \<Longrightarrow> hooks_ok env st'"
  by (induction rule: hook_step.induct)
    (simp_all add: CreateWebhook_ok UpdateWebhook_ok DeleteWebhook_ok HandleWebhookSend_ok, simp add: hooks_ok_def TestWebhook_same)

interpretation hooks: invariant_machine "hooks_ok env" "hook_step env" "hooks_ok env" for env
  by unfold_locales (auto intro: hook_step_ok)

section \<open>Properties\<close>

text \<open>C17: Whatever administrators and deliveries do in any order: webhook identifiers stay unique,
  every stored address and every request sent passed the address check, types are one of the
  three, a webhook fails at most as often as it is called, the last error is set only after a
  failure, and log rows belong to webhooks.\<close>

theorem webhooks_invariant:
  assumes "hooks_ok env st" "(hook_step env)\<^sup>*\<^sup>* st st'"
  shows "hooks_ok env st'"
  by (rule hooks.reachable_inv [OF assms])

text \<open>The webhook of a task is found by its identifier.\<close>

lemma GetByID_row:
  assumes "distinct (map wb_ID (ws_hooks st))" "w \<in> set (ws_hooks st)" "wx_fail env ''webhooks.GetByID'' = None"
  shows "Webhook_GetByID env (wb_ID w) (ws_hooks st) = Inr w"
  using row_by_distinct [OF assms(1), of "wb_ID w" w] assms(2,3) by (simp add: Webhook_GetByID_def hook_query_def)

lemma record_attempt_all:
  assumes "wx_fail env = (\<lambda>_. None)" "distinct (map wb_ID (ws_hooks st))" "w \<in> set (ws_hooks st)"
    and "wb_DeliveryCount w < max_int4" "wb_ErrorCount w < max_int4" "wx_jsonb env body"
  shows "record_attempt env (wb_ID w) ev (Some body) code resp err ok st =
    st\<lparr>ws_hooks := update_where (\<lambda>v. wb_ID v = wb_ID w) (count_attempt env ok err) (ws_hooks st),
       ws_logs := ws_logs st @ [log_entry env (wb_ID w) ev body code resp err]\<rparr>"
proof -
  have same: "v = w" if "wb_ID v = wb_ID w" "v \<in> set (ws_hooks st)" for v using that assms(2,3) by (metis distinct_map inj_onD)
  have room: "\<not> list_ex (\<lambda>v. wb_ID v = wb_ID w \<and> (max_int4 \<le> wb_DeliveryCount v \<or> (\<not> ok \<and> max_int4 \<le> wb_ErrorCount v))) (ws_hooks st)"
    using assms(4,5) same by (auto simp: list_ex_iff not_le)
  define rows where "rows = update_where (\<lambda>v. wb_ID v = wb_ID w) (count_attempt env ok err) (ws_hooks st)"
  have "row_by wb_ID (wb_ID w) (ws_hooks st) \<noteq> None" using assms(3) by (simp add: row_by_None)
  then have row: "row_by wb_ID (wb_ID w) rows \<noteq> None"
    unfolding rows_def by (subst row_by_update_where) (simp_all add: count_attempt_def)
  have upd: "UpdateDeliveryStats env (wb_ID w) ok err (ws_hooks st) = (None, rows)"
    using assms(1) room unfolding rows_def count_attempt_def by (simp only: UpdateDeliveryStats_def option.case if_False)
  show ?thesis
    using assms(1,6) row unfolding rows_def [symmetric] record_attempt_def updateDeliveryStats_def upd logDelivery_def LogDelivery_def
    by (simp add: log_entry_def)
qed


text \<open>An address with a leading blank passes the check, which trims it, but no request can be built for it,
  since that parses the stored text: every delivery fails and nothing is recorded of it, neither
  in the counters nor in the log.\<close>

theorem untrimmed_url_unrecorded:
  assumes "CreateWebhook env who (Some wc) st = (Inr w, st')" "wx_parse_url env (hw_URL wc) = None"
    and "same_world env env'" "wx_new_id env (ws_hooks st) \<notin> wb_ID ` set (ws_hooks st)" "wx_fail env' ''webhooks.GetByID'' = None"
    and "formatWebhookBody (wx_body env') (wb_DeliveryType w) bytes = Inr body"
  shows "HandleWebhookSend env' (Inr (wb_ID w, ev, bytes)) st' = (Some ''create request: invalid URL'', st')"
proof -
  have valid: "validateWebhookURL env (hw_URL wc) = None"
    using assms(1) by (auto simp: CreateWebhook_def split: if_splits option.splits)
  have w: "wb_URL w = hw_URL wc" "wb_Enabled w" "ws_hooks st' = ws_hooks st @ [w]" "wb_ID w = wx_new_id env (ws_hooks st)"
    using assms(1) by (auto simp: CreateWebhook_def Webhook_Create_def audit_hook_def Let_def split: if_splits option.splits)
  have "row_by wb_ID (wb_ID w) (ws_hooks st) = None" using assms(4) w(4) by (simp add: row_by_None)
  then have "Webhook_GetByID env' (wb_ID w) (ws_hooks st') = Inr w"
    using assms(5) by (simp add: w(3) Webhook_GetByID_def hook_query_def row_by_append)
  moreover have "validateOutboundWebhookURL env' (wb_URL w) = None"
    using stored_then_sent [OF valid] by (simp add: w(1) outbound_same [OF assms(3)])
  moreover have "wx_parse_url env' (wb_URL w) = None" using assms(2,3) w(1) by (simp add: same_world_def)
  ultimately show ?thesis using w(2) assms(6) by (simp add: HandleWebhookSend_def)
qed

text \<open>A time that lost its fraction of a second.\<close>

definition whole_second :: "go_time \<Rightarrow> go_time" where
  "whole_second t = t\<lparr>gt_ns := gt_ns t div 1000000000 * 1000000000\<rparr>"

text \<open>C28: The receiver's check of a signed delivery: the headers that were sent with a body are accepted
  with some body and secret exactly if no more than five minutes passed since the second of the
  signature and the tags agree; a timestamp of the future never expires.\<close>

theorem signature_roundtrip:
  assumes "wx_secret env \<noteq> []" "req = delivery_request env url ev body"
    and "wf_parse (wx_body env) (wf_format (wx_body env) (wx_now env)) = Some (whole_second (wx_now env))"
    and "wf_format (wx_body env) (whole_second (wx_now env)) = wf_format (wx_body env) (wx_now env)"
    and "wf_format (wx_body env) (wx_now env) \<noteq> []" "\<forall>k m. wx_hmac env k m \<noteq> []"
    and "map_of (hp_Headers req) SignatureHeader = Some sig" "map_of (hp_Headers req) TimestampHeader = Some stamp"
  shows "VerifySignature (env\<lparr>wx_now := later\<rparr>) sig stamp body' secret = None \<longleftrightarrow>
    gt_ns later - gt_ns (whole_second (wx_now env)) \<le> 300 * 1000000000 \<and>
    wx_hmac env secret (stamp @ ''.'' @ body') = wx_hmac env (wx_secret env) (stamp @ ''.'' @ body)"
proof -
  have "sig = SignPayload env body (wx_secret env) (wx_now env)" "stamp = wf_format (wx_body env) (wx_now env)"
    using assms(1,2,7,8) by (simp_all add: delivery_request_def SignatureHeader_def TimestampHeader_def)
  then show ?thesis
    using assms(3-6) by (auto simp: VerifySignature_def SignPayload_def MaxAge_def)
qed

section \<open>Instances\<close>

definition sample_format :: format_env where
  "sample_format = \<lparr>wf_format = (\<lambda>t. replicate (nat (gt_ns t div 1000000000)) (CHR ''t'')),
     wf_parse = (\<lambda>s. Some \<lparr>gt_ns = int (length s) * 1000000000, gt_zone = 0\<rparr>),
     wf_decode = (\<lambda>_. Inl ''unexpected end of JSON input''), wf_marshal = (\<lambda>_. Inr ''{}'')\<rparr>"

definition sample_hook_env :: hook_env where
  "sample_hook_env = \<lparr>wx_now = \<lparr>gt_ns = 2500000000, gt_zone = 0\<rparr>, wx_body = sample_format,
     wx_parse_url = (\<lambda>u. if has_prefix u ''https://hooks.x/'' then Some \<lparr>up_Scheme = ''https'', up_Host = ''hooks.x'', up_Hostname = ''hooks.x'',
        up_User = False\<rparr> else None),
     wx_parse_ip = (\<lambda>h. if h = ''203.0.113.7'' then Some \<lparr>ip_Loopback = False, ip_Private = False, ip_LinkLocal = False, ip_Unspecified = False,
        ip_LinkLocalMulticast = False\<rparr> else None),
     wx_lookup = (\<lambda>_. Some [''203.0.113.7'']), wx_secret = ''k'', wx_hmac = (\<lambda>k m. CHR ''#'' # k @ m),
     wx_do = (\<lambda>r. Inr (500, ''busy'')), wx_fail = (\<lambda>_. None), wx_jsonb = (\<lambda>s. s = ''{}''),
     wx_new_id = (\<lambda>rows. CHR ''w'' # concat (map wb_ID rows)), wx_marshal_event = (\<lambda>_ _ _. Inr ''{}''), wx_accept = (\<lambda>_. True)\<rparr>"

definition sample_hook_state :: hook_state where
  "sample_hook_state = \<lparr>ws_hooks = [], ws_logs = [], ws_sent = [], ws_intake = sample_intake_state\<rparr>"

definition sample_hook :: hook_create where
  "sample_hook = \<lparr>hw_Label = ''ops'', hw_URL = ''https://hooks.x/1'', hw_DeliveryType = ''Generic'', hw_Events = [''finding.critical'']\<rparr>"

lemma sample_new_id: "wx_new_id sample_hook_env rows \<notin> wb_ID ` set rows"
proof
  assume "wx_new_id sample_hook_env rows \<in> wb_ID ` set rows"
  then obtain r where r: "r \<in> set rows" "wb_ID r = CHR ''w'' # concat (map wb_ID rows)" by (auto simp: sample_hook_env_def)
  have "length (wb_ID r) \<le> length (concat (map wb_ID rows))" using r(1) by (induction rows) auto
  then show False using r(2) by simp
qed

lemma sample_world: "same_world sample_hook_env sample_hook_env"
  by (simp add: same_world_def sample_new_id)

lemma sample_hooks_ok: "hooks_ok sample_hook_env sample_hook_state"
  by (simp add: hooks_ok_def sample_hook_state_def)

abbreviation "sample_created \<equiv> snd (CreateWebhook sample_hook_env None (Some sample_hook) sample_hook_state)"

definition sample_hook_row :: hook_row where
  "sample_hook_row = \<lparr>wb_ID = ''w'', wb_Label = ''ops'', wb_URL = ''https://hooks.x/1'', wb_DeliveryType = ''generic'', wb_Events = [''finding.critical''],
     wb_Enabled = True, wb_LastDelivery = None, wb_DeliveryCount = 0, wb_ErrorCount = 0, wb_LastError = None, wb_CreatedAt = 2\<rparr>"

lemma sample_created_hooks: "ws_hooks sample_created = [sample_hook_row]"
  by code_simp

lemma sample_created_ok: "hooks_ok sample_hook_env sample_created"
  by (rule CreateWebhook_ok [OF sample_hooks_ok sample_world])

theorem webhooks_invariant_witness:
  "hooks_ok sample_hook_env sample_created"
  by (rule webhooks_invariant [OF sample_hooks_ok r_into_rtranclp [where r = "hook_step sample_hook_env", OF step_create [OF sample_world]]])


theorem untrimmed_url_unrecorded_witness:
  "\<exists>w st'. CreateWebhook sample_hook_env None (Some (sample_hook\<lparr>hw_URL := '' https://hooks.x/1''\<rparr>)) sample_hook_state = (Inr w, st') \<and>
     snd (HandleWebhookSend sample_hook_env (Inr (wb_ID w, ''test'', ''{}'')) st') = st'"
proof -
  let ?c = "CreateWebhook sample_hook_env None (Some (sample_hook\<lparr>hw_URL := '' https://hooks.x/1''\<rparr>)) sample_hook_state"
  let ?w = "sample_hook_row\<lparr>wb_URL := '' https://hooks.x/1''\<rparr>"
  have "fst ?c = Inr ?w" by code_simp
  then obtain st' where c: "?c = (Inr ?w, st')" by (cases ?c) simp
  have "formatWebhookBody (wx_body sample_hook_env) (wb_DeliveryType ?w) ''{}'' = Inr ''{}''" by code_simp
  then have "HandleWebhookSend sample_hook_env (Inr (wb_ID ?w, ''test'', ''{}'')) st' = (Some ''create request: invalid URL'', st')"
    using untrimmed_url_unrecorded [OF c _ sample_world sample_new_id, of "''{}''" "''{}''" "''test''"]
    by (simp add: sample_hook_env_def sample_hook_def)
  then show ?thesis using c by (intro exI [of _ ?w] exI [of _ st']) simp
qed

theorem signature_roundtrip_witness:
  "VerifySignature (sample_hook_env\<lparr>wx_now := \<lparr>gt_ns = 302000000000, gt_zone = 0\<rparr>\<rparr>) ''#ktt.{}'' ''tt'' ''{}'' ''k'' = None"
proof -
  let ?req = "delivery_request sample_hook_env ''u'' ''test'' ''{}''"
  have stamp: "wf_format (wx_body sample_hook_env) (wx_now sample_hook_env) = ''tt''"
    "wf_format (wx_body sample_hook_env) (whole_second (wx_now sample_hook_env)) = ''tt''"
    "wf_parse (wx_body sample_hook_env) ''tt'' = Some (whole_second (wx_now sample_hook_env))"
    "map_of (hp_Headers ?req) SignatureHeader = Some ''#ktt.{}''" "map_of (hp_Headers ?req) TimestampHeader = Some ''tt''"
    "wx_secret sample_hook_env = ''k''" "gt_ns (whole_second (wx_now sample_hook_env)) = 2000000000"
    by code_simp+
  show ?thesis
    using signature_roundtrip [OF _ refl, of sample_hook_env "''u''" "''test''" "''{}''" "''#ktt.{}''" "''tt''" "\<lparr>gt_ns = 302000000000, gt_zone = 0\<rparr>" "''{}''" "''k''"]
    unfolding stamp by (simp add: sample_hook_env_def)
qed

end
