(* ===== verification/Ai_Providers.thy ===== *)
theory Ai_Providers
  imports Prelude
begin

text \<open>
  Access to the language models (\<^verbatim>\<open>src/internal/ai/provider.go\<close>, \<^verbatim>\<open>ai/notification.go\<close>, the reading of
  answers in \<^verbatim>\<open>ai/openrouter.go\<close>) and the monthly quota (\<^verbatim>\<open>repository/usage.go\<close>).  The clients of the
  three services are functions of the environment, and so is the JSON decoder: it gives the error, if
  any, and the target as the decoding leaves it.
\<close>

section \<open>Providers\<close>

record provider_config =
  pf_Name :: string
  pf_Model :: string
  pf_IsConfigured :: bool

text \<open>The configuration, if \<^verbatim>\<open>Init\<close> ran; the account and the token of Cloudflare, the address and the
  model of Ollama, the key of OpenRouter; and the three clients.\<close>

record ai_env =
  ay_config :: "(provider_config \<times> provider_config \<times> provider_config) option"
  ay_cf :: "string \<times> string"
  ay_ollama :: "string \<times> string"
  ay_key :: string
  ay_CloudflareGenerate :: "string \<Rightarrow> string \<Rightarrow> string \<Rightarrow> string + string"
  ay_OllamaGenerate :: "string \<Rightarrow> string \<Rightarrow> string \<Rightarrow> string + string"
  ay_OpenRouterGenerate :: "string \<Rightarrow> string \<Rightarrow> nat \<Rightarrow> string \<Rightarrow> string + string"

definition CloudflareEnabled :: "ai_env \<Rightarrow> bool" where
  "CloudflareEnabled env \<longleftrightarrow> fst (ay_cf env) \<noteq> [] \<and> snd (ay_cf env) \<noteq> []"

definition OllamaEnabled :: "ai_env \<Rightarrow> bool" where
  "OllamaEnabled env \<longleftrightarrow> fst (ay_ollama env) \<noteq> [] \<and> snd (ay_ollama env) \<noteq> []"

definition not_configured :: string where
  "not_configured = ''AI provider not configured''"

definition generateWithProvider :: "ai_env \<Rightarrow> provider_config \<Rightarrow> string \<Rightarrow> string \<Rightarrow> nat \<Rightarrow> string + string" where
  "generateWithProvider env p system user maxTokens =
     (if pf_Name p = ''cloudflare'' then
        (if \<not> CloudflareEnabled env then Inl not_configured else ay_CloudflareGenerate env (pf_Model p) system user)
      else if pf_Name p = ''ollama'' then
        (if \<not> OllamaEnabled env then Inl not_configured else ay_OllamaGenerate env (pf_Model p) system user)
      else if pf_Name p = ''openrouter'' then
        (if ay_key env = [] then Inl not_configured
         else ay_OpenRouterGenerate env system user (if maxTokens = 0 then 2048 else maxTokens) (pf_Model p))
      else Inl ''AI provider not supported'')"

text \<open>The three uses read their own provider from the configuration: remediation, summaries, validation.\<close>

definition generate_for ::
  "ai_env \<Rightarrow> (provider_config \<times> provider_config \<times> provider_config \<Rightarrow> provider_config) \<Rightarrow> string \<Rightarrow> string \<Rightarrow> string + string" where
  "generate_for env sel system user =
     (case ay_config env of
        None \<Rightarrow> Inl not_configured
      | Some c \<Rightarrow> if \<not> pf_IsConfigured (sel c) then Inl not_configured else generateWithProvider env (sel c) system user 2048)"

definition GenerateRemediation :: "ai_env \<Rightarrow> string \<Rightarrow> string \<Rightarrow> string + string" where
  "GenerateRemediation env system prompt = generate_for env fst system prompt"

definition GenerateSummary :: "ai_env \<Rightarrow> string \<Rightarrow> string \<Rightarrow> string + string" where
  "GenerateSummary env system user = generate_for env (fst \<circ> snd) system user"

definition GenerateValidation :: "ai_env \<Rightarrow> string \<Rightarrow> string \<Rightarrow> string + string" where
  "GenerateValidation env system user = generate_for env (snd \<circ> snd) system user"

section \<open>Reading an answer\<close>

definition fence :: string where
  "fence = [CHR 0x60, CHR 0x60, CHR 0x60]"

definition extractJSONObject :: "string \<Rightarrow> string + string" where
  "extractJSONObject content =
     (let trimmed = trim_space (trim_suffix (trim_prefix (trim_prefix (trim_space content) (fence @ ''json'')) fence) fence) in
      case (index_of trimmed ''{'', last_index_byte trimmed (CHR ''}'')) of
        (Some start, Some stop) \<Rightarrow>
          if stop < start then Inl ''no JSON object found in response'' else Inr (take (stop + 1 - start) (drop start trimmed))
      | _ \<Rightarrow> Inl ''no JSON object found in response'')"

definition escape_byte :: char where
  "escape_byte = CHR 0x5C"

definition escape_char :: "char \<Rightarrow> bool" where
  "escape_char c \<longleftrightarrow> c \<in> {CHR 0x22, escape_byte, CHR ''/'', CHR ''b'', CHR ''f'', CHR ''n'', CHR ''r'', CHR ''t'', CHR ''u''}"

fun repairInvalidJSONEscapes :: "string \<Rightarrow> string" where
  "repairInvalidJSONEscapes [] = []"
| "repairInvalidJSONEscapes [c] = [c]"
| "repairInvalidJSONEscapes (c # d # s) =
     (if c \<noteq> escape_byte then c # repairInvalidJSONEscapes (d # s)
      else if escape_char d then c # repairInvalidJSONEscapes (d # s)
      else repairInvalidJSONEscapes (d # s))"

definition GenerateValidationJSON :: "ai_env \<Rightarrow> (string \<Rightarrow> 'a \<Rightarrow> string option \<times> 'a) \<Rightarrow> 'a \<Rightarrow> string \<Rightarrow> string \<Rightarrow> string + 'a" where
  "GenerateValidationJSON env decode zero system user =
     (case GenerateValidation env (system @ [newline, newline] @ ''Return a single JSON object only. Do not use markdown fences.'') user of
        Inl e \<Rightarrow> Inl e
      | Inr content \<Rightarrow>
        (let cleaned = trim_space content in
         case decode cleaned zero of
           (None, x) \<Rightarrow> Inr x
         | (Some _, x) \<Rightarrow>
           (case extractJSONObject cleaned of
              Inl e \<Rightarrow> Inl (''parse structured validation response: '' @ e)
            | Inr obj \<Rightarrow>
              (case decode obj x of
                 (None, y) \<Rightarrow> Inr y
               | (Some e, y) \<Rightarrow>
                 (case decode (repairInvalidJSONEscapes obj) y of
                    (None, z) \<Rightarrow> Inr z
                  | (Some _, z) \<Rightarrow> Inl (''unmarshal structured validation response: '' @ e))))))"

section \<open>Summaries of alerts\<close>

record notification_context =
  nx_Severity :: string
  nx_Title :: string
  nx_RuleID :: string
  nx_Scanner :: string
  nx_Description :: string
  nx_FilePath :: string
  nx_Line :: int
  nx_Repository :: string
  nx_EventType :: string

definition notificationSystemPrompt :: string where
  "notificationSystemPrompt = ''You are a security alert writer for a developer dashboard. Write 2-3 sentences max. Be direct and actionable. Focus on what the code does wrong and how to fix it. No preamble, no references section.''"

definition buildNotificationPrompt :: "notification_context \<Rightarrow> string" where
  "buildNotificationPrompt nc =
     (let location = (if 0 < nx_Line nc then nx_FilePath nc @ '':'' @ itoa (nx_Line nc) else nx_FilePath nc);
          d = trim_space (nx_Description nc); desc = (if d = [] then ''No description provided by scanner.'' else d)
      in trim_space (join [newline]
        [[], ''Security finding detected in '' @ nx_Repository nc @ '':'', [],
         ''- Severity: '' @ nx_Severity nc, ''- Tool: '' @ nx_Scanner nc, ''- Rule: '' @ nx_RuleID nc,
         ''- Location: '' @ location, ''- Title: '' @ nx_Title nc, ''- Description: '' @ desc, [],
         ''Write 2-3 sentences max explaining what this finding means for a developer and how to address it. Be direct. No preamble.'', []]))"

definition summary_key :: "notification_context \<Rightarrow> string" where
  "summary_key nc = nx_RuleID nc @ ''|'' @ nx_Scanner nc"

definition GenerateNotificationSummary :: "ai_env \<Rightarrow> notification_context \<Rightarrow> (string \<Rightarrow> string option) \<Rightarrow> string \<times> (string \<Rightarrow> string option)" where
  "GenerateNotificationSummary env nc cache =
     (case cache (summary_key nc) of
        Some s \<Rightarrow> (s, cache)
      | None \<Rightarrow>
        (case GenerateSummary env notificationSystemPrompt (buildNotificationPrompt nc) of
           Inl e \<Rightarrow> ([], cache)
         | Inr s \<Rightarrow> (s, cache(summary_key nc \<mapsto> s))))"

section \<open>The quota\<close>

text \<open>The counters by month.  A limit below zero is none.\<close>

definition IncrementAIScan :: "string option \<Rightarrow> string \<Rightarrow> int \<Rightarrow> (string \<Rightarrow> int option) \<Rightarrow> (string + bool) \<times> (string \<Rightarrow> int option)" where
  "IncrementAIScan fail month limit usage =
     (if limit < 0 then (Inr True, usage)
      else if limit = 0 then (Inr False, usage)
      else (case fail of
        Some e \<Rightarrow> (Inl (''increment ai scan: '' @ e), usage)
      | None \<Rightarrow>
        (case usage month of
           None \<Rightarrow> (Inr True, usage(month \<mapsto> 1))
         | Some v \<Rightarrow> if v < limit then (Inr True, usage(month \<mapsto> v + 1)) else (Inr False, usage))))"

definition GetAIScanCount :: "string option \<Rightarrow> string \<Rightarrow> (string \<Rightarrow> int option) \<Rightarrow> string + int" where
  "GetAIScanCount fail month usage =
     (case fail of Some e \<Rightarrow> Inl (''get ai scan count: '' @ e)
      | None \<Rightarrow> Inr (case usage month of None \<Rightarrow> 0 | Some v \<Rightarrow> v))"

section \<open>Specifications\<close>

text \<open>Every escape_byte stands before a character that JSON lets it escape, or at the end.\<close>

fun escapes_ok :: "string \<Rightarrow> bool" where
  "escapes_ok (c # d # s) \<longleftrightarrow> (c = escape_byte \<longrightarrow> escape_char d) \<and> escapes_ok (d # s)"
| "escapes_ok _ \<longleftrightarrow> True"

text \<open>The answers to a sequence of requests for the quota, given the months they come in.\<close>

fun quota_run :: "int \<Rightarrow> string list \<Rightarrow> (string \<Rightarrow> int option) \<Rightarrow> (string \<times> bool) list" where
  "quota_run limit [] usage = []"
| "quota_run limit (m # ms) usage =
     (case IncrementAIScan None m limit usage of (r, usage') \<Rightarrow> (m, r = Inr True) # quota_run limit ms usage')"

section \<open>Lemmas\<close>

lemma last_index_byte_Some: "last_index_byte s c = Some i \<Longrightarrow> i < length s \<and> s ! i = c"
proof (induction s arbitrary: i)
  case (Cons x s)
  then show ?case by (cases "last_index_byte s c") (auto split: if_splits)
qed simp

lemma last_index_byte_append: "last_index_byte (s @ [c]) c = Some (length s)"
  by (induction s) auto

lemma trim_prefix_infix: "\<exists>a. s = a @ trim_prefix s p"
  by (auto simp: trim_prefix_def has_prefix_def) (metis append_take_drop_id)

lemma trim_suffix_infix: "\<exists>b. s = trim_suffix s p @ b"
  by (auto simp: trim_suffix_def) (metis append_take_drop_id)+

lemma infix_trans:
  assumes "\<exists>a b. s = a @ t @ b" "\<exists>a b. t = a @ u @ b"
  shows "\<exists>a b. s = a @ u @ b"
proof -
  from assms obtain a b c d where "s = a @ t @ b" "t = c @ u @ d" by blast
  then have "s = (a @ c) @ u @ (d @ b)" by simp
  then show ?thesis by blast
qed

lemma trimmed_infix: "\<exists>a b. content = a @ trim_space (trim_suffix (trim_prefix (trim_prefix (trim_space content) p) q) r) @ b"
proof -
  have pre: "\<exists>a b. s = a @ trim_prefix s p @ b" for s p using trim_prefix_infix [of s p] by (metis append_Nil2)
  have suf: "\<exists>a b. s = a @ trim_suffix s p @ b" for s p using trim_suffix_infix [of s p] by (metis append_Nil)
  show ?thesis
    by (rule infix_trans [OF trim_space_infix infix_trans [OF pre infix_trans [OF pre infix_trans [OF suf trim_space_infix]]]])
qed

lemma trim_lines:
  assumes "s \<noteq> []" "\<not> ascii_space (hd s)" "of_char (hd s) < (128::nat)" "\<not> ascii_space (last s)" "of_char (last s) < (128::nat)"
  shows "trim_space (newline # s @ [newline]) = s"
proof -
  have nl: "ascii_space newline" by (simp add: ascii_space_def newline_def)
  obtain c u where s: "s = c # u" using assms(1) by (cases s) auto
  obtain q x where q: "s = q @ [x]" using assms(1) by (cases s rule: rev_cases) auto
  have "space_len wide_spaces (s @ [newline]) = 0" using assms(2,3) s by (simp add: space_len_def)
  moreover have "space_len wide_spaces (newline # s @ [newline]) = 1" using nl by (simp add: space_len_def)
  ultimately have left: "trim_left (newline # s @ [newline]) = s @ [newline]"
    by (simp add: trim_left_def strip_space.simps [of wide_spaces "newline # s @ [newline]"] strip_space_id)
  have "space_len (map rev wide_spaces) (rev s) = 0" using assms(4,5) q by (simp add: space_len_def)
  moreover have "space_len (map rev wide_spaces) (newline # rev s) = 1" using nl by (simp add: space_len_def)
  ultimately have "trim_right (s @ [newline]) = s"
    by (simp add: trim_right_def strip_space.simps [of "map rev wide_spaces" "newline # rev s"] strip_space_id)
  then show ?thesis by (simp add: trim_space_def left)
qed

lemma index_of_char: "index_of s [c] = Some i \<Longrightarrow> i < length s \<and> s ! i = c"
proof (induction s arbitrary: i)
  case (Cons x s)
  then show ?case by (cases "x = c") (auto simp: has_prefix_def)
qed simp

lemma slice_infix:
  assumes "i \<le> j" "j < length t" "x = take (j + 1 - i) (drop i t)"
  shows "(\<exists>a b. t = a @ x @ b) \<and> hd x = t ! i \<and> last x = t ! j"
proof -
  have "length x = j + 1 - i" using assms by simp
  then have "x \<noteq> []" using assms(1) by auto
  then have "hd x = x ! 0" "last x = x ! (j - i)" using \<open>length x = j + 1 - i\<close> assms(1) by (simp_all add: hd_conv_nth last_conv_nth)
  moreover have "x ! 0 = t ! i" "x ! (j - i) = t ! j" using assms by simp_all
  moreover have "t = take i t @ x @ drop (j + 1 - i) (drop i t)" unfolding assms(3) append_take_drop_id by simp
  ultimately show ?thesis by metis
qed

lemma extract_infix:
  assumes "extractJSONObject content = Inr x"
  shows "(\<exists>a b. content = a @ x @ b) \<and> hd x = CHR ''{'' \<and> last x = CHR ''}''"
proof -
  define t where "t = trim_space (trim_suffix (trim_prefix (trim_prefix (trim_space content) (fence @ ''json'')) fence) fence)"
  obtain i j where i: "index_of t ''{'' = Some i" and j: "last_index_byte t (CHR ''}'') = Some j" and ij: "i \<le> j"
    and x: "x = take (j + 1 - i) (drop i t)"
    using assms unfolding extractJSONObject_def Let_def t_def [symmetric] by (auto split: option.splits if_splits)
  note c = slice_infix [OF ij _ x] index_of_char [OF i] last_index_byte_Some [OF j]
  have "\<exists>a b. content = a @ t @ b" unfolding t_def by (rule trimmed_infix)
  then have "\<exists>a b. content = a @ x @ b" using c by (intro infix_trans [of content t x]) blast+
  then show ?thesis using c by simp
qed

lemma IncrementAIScan_count:
  assumes "0 < limit" "\<forall>m v. usage m = Some v \<longrightarrow> 0 \<le> v \<and> v \<le> limit"
  defines "v m \<equiv> (case usage m of None \<Rightarrow> 0 | Some v \<Rightarrow> v)"
  shows "IncrementAIScan None m limit usage = (if v m < limit then (Inr True, usage(m \<mapsto> v m + 1)) else (Inr False, usage))"
  using assms by (auto simp: IncrementAIScan_def split: option.splits)

section \<open>Properties\<close>

text \<open>What is read out of an answer is a part of it that begins with an opening brace and ends with a
  closing one; and an object that a model wraps in a Markdown fence is read back exactly.\<close>

theorem extract_object:
  assumes "obj = CHR ''{'' # rest @ ''}''"
  shows "extractJSONObject (fence @ ''json'' @ [newline] @ obj @ [newline] @ fence) = Inr obj \<and>
    (\<forall>content x. extractJSONObject content = Inr x \<longrightarrow> (\<exists>a b. content = a @ x @ b) \<and> hd x = CHR ''{'' \<and> last x = CHR ''}'')"
proof
  let ?s = "fence @ ''json'' @ [newline] @ obj @ [newline] @ fence"
  have brace: "\<not> ascii_space (hd obj)" "of_char (hd obj) < (128::nat)" "\<not> ascii_space (last obj)" "of_char (last obj) < (128::nat)"
    using assms by (simp_all add: ascii_space_def)
  have "hd ?s = CHR 0x60" "last ?s = CHR 0x60" by (simp_all add: fence_def)
  then have "trim_space ?s = ?s" by (intro trim_ascii) (simp_all add: ascii_space_def fence_def)
  moreover have "trim_prefix ?s (fence @ ''json'') = [newline] @ obj @ [newline] @ fence"
    using trim_prefix_append [of "fence @ ''json''"] by simp
  moreover have "trim_prefix ([newline] @ obj @ [newline] @ fence) fence = [newline] @ obj @ [newline] @ fence"
    by (simp add: trim_prefix_def fence_def newline_def)
  moreover have "trim_suffix ([newline] @ obj @ [newline] @ fence) fence = newline # obj @ [newline]"
    by (simp add: trim_suffix_def has_suffix_def fence_def)
  moreover have "trim_space (newline # obj @ [newline]) = obj" using assms brace by (intro trim_lines) simp_all
  moreover have "index_of obj ''{'' = Some 0" using assms by simp
  moreover have "last_index_byte obj (CHR ''}'') = Some (length obj - 1)"
    using assms last_index_byte_append [of "CHR ''{'' # rest"] by simp
  ultimately show "extractJSONObject ?s = Inr obj"
    using assms by (simp add: extractJSONObject_def Let_def del: append_Cons append_assoc)
qed (use extract_infix in blast)

text \<open>The repair of an object makes every escape valid, if no escape_byte stands before another; one that
  does is a valid escape already, and the repair turns it into an invalid one.\<close>

theorem repair_escapes:
  assumes "\<And>a b. s \<noteq> a @ [escape_byte, escape_byte] @ b"
  shows "escapes_ok (repairInvalidJSONEscapes s) \<and> (escapes_ok s \<longrightarrow> repairInvalidJSONEscapes s = s) \<and>
    repairInvalidJSONEscapes [CHR 0x22, escape_byte, escape_byte, CHR ''d'', CHR 0x22] = [CHR 0x22, escape_byte, CHR ''d'', CHR 0x22]"
proof -
  have hd: "hd (repairInvalidJSONEscapes (d # s)) = d" if "d \<noteq> escape_byte" for d s using that by (cases s) simp_all
  have ne: "repairInvalidJSONEscapes (d # s) \<noteq> []" if "d \<noteq> escape_byte" for d s using that by (cases s) simp_all
  have cons: "escapes_ok (c # t) \<longleftrightarrow> (t \<noteq> [] \<longrightarrow> c = escape_byte \<longrightarrow> escape_char (hd t)) \<and> escapes_ok t" for c t by (cases t) simp_all
  have "escapes_ok (repairInvalidJSONEscapes s) \<and> (escapes_ok s \<longrightarrow> repairInvalidJSONEscapes s = s)"
    using assms
  proof (induction s rule: repairInvalidJSONEscapes.induct)
    case (3 c d s)
    have rest: "d # s \<noteq> a @ [escape_byte, escape_byte] @ b" for a b using "3.prems" [of "c # a" b] by auto
    have d: "d \<noteq> escape_byte" if "c = escape_byte" using "3.prems" [of "[]" s] that by auto
    show ?case using "3.IH" rest d hd ne by (auto simp: cons)
  qed simp_all
  then show ?thesis by (simp add: escape_byte_def escape_char_def)
qed

text \<open>The text of an alert is made once for a rule and a scanner: every later finding of both gets the text
  that was made for the first one, whatever its repository, file, title or severity, and no model
  is asked.\<close>

theorem notification_summary_shared:
  assumes "GenerateNotificationSummary env first cache = (s, cache')" "s \<noteq> []"
    and "nx_RuleID later = nx_RuleID first" "nx_Scanner later = nx_Scanner first"
  shows "GenerateNotificationSummary env' later cache' = (s, cache')"
  using assms by (auto simp: GenerateNotificationSummary_def summary_key_def split: option.splits sum.splits)

text \<open>C32: Of the requests of a month exactly the first ones up to the limit pass, whatever months the
  others come in, and a counter that starts within the limit stays within it.\<close>

theorem ai_quota_exact:
  assumes "0 < limit" "\<forall>m v. usage m = Some v \<longrightarrow> 0 \<le> v \<and> v \<le> limit"
  shows "map snd (filter (\<lambda>r. fst r = m) (quota_run limit ms usage)) =
    (let n = length (filter (\<lambda>k. k = m) ms); left = nat (limit - (case usage m of None \<Rightarrow> 0 | Some v \<Rightarrow> v))
     in replicate (min n left) True @ replicate (n - left) False)"
  using assms
proof (induction ms arbitrary: usage)
  case (Cons k ms)
  let ?v = "case usage k of None \<Rightarrow> 0 | Some v \<Rightarrow> v"
  have inc: "IncrementAIScan None k limit usage = (if ?v < limit then (Inr True, usage(k \<mapsto> ?v + 1)) else (Inr False, usage))"
    by (rule IncrementAIScan_count [OF Cons.prems])
  have v: "0 \<le> ?v" using Cons.prems(2) by (auto split: option.split)
  show ?case
  proof (cases "?v < limit")
    case True
    let ?u = "usage(k \<mapsto> ?v + 1)"
    have "\<forall>m v. ?u m = Some v \<longrightarrow> 0 \<le> v \<and> v \<le> limit" using Cons.prems(2) True v by auto
    note ih = Cons.IH [OF Cons.prems(1) this]
    have run: "quota_run limit (k # ms) usage = (k, True) # quota_run limit ms ?u" unfolding quota_run.simps inc using True by simp
    show ?thesis
    proof (cases "k = m")
      case km: True
      have "nat (limit - ?v) = Suc (nat (limit - (?v + 1)))" using True by simp
      then show ?thesis using ih km unfolding run by (simp add: Let_def fun_upd_def)
    next
      case False
      then show ?thesis using ih unfolding run by (simp add: Let_def fun_upd_def)
    qed
  next
    case False
    note ih = Cons.IH [OF Cons.prems]
    have run: "quota_run limit (k # ms) usage = (k, False) # quota_run limit ms usage" unfolding quota_run.simps inc using False by simp
    show ?thesis
    proof (cases "k = m")
      case km: True
      then have "nat (limit - ?v) = 0" using False by simp
      then show ?thesis using ih km unfolding run by (simp add: Let_def)
    next
      case km: False
      then show ?thesis using ih unfolding run by (simp add: Let_def)
    qed
  qed
qed simp

section \<open>Instances\<close>

theorem extract_object_witness:
  "extractJSONObject (fence @ ''json'' @ [newline] @ ''{a}'' @ [newline] @ fence) = Inr ''{a}''"
  using extract_object [of "''{a}''" "''a''"] by simp

theorem repair_escapes_witness:
  "escapes_ok (repairInvalidJSONEscapes [CHR ''a'', escape_byte, CHR ''d''])"
proof -
  have "[CHR ''a'', escape_byte, CHR ''d''] \<noteq> a @ [escape_byte, escape_byte] @ b" for a b
    by (auto simp: escape_byte_def Cons_eq_append_conv append_eq_Cons_conv)
  from repair_escapes [OF this] show ?thesis by simp
qed

definition sample_ai :: ai_env where
  "sample_ai = \<lparr>ay_config = Some (\<lparr>pf_Name = ''ollama'', pf_Model = ''g'', pf_IsConfigured = True\<rparr>,
       \<lparr>pf_Name = ''openrouter'', pf_Model = ''m'', pf_IsConfigured = True\<rparr>, \<lparr>pf_Name = ''cloudflare'', pf_Model = ''l'', pf_IsConfigured = True\<rparr>),
     ay_cf = (''a'', ''t''), ay_ollama = ([], []), ay_key = ''k'', ay_CloudflareGenerate = (\<lambda>_ _ _. Inr ''{}''),
     ay_OllamaGenerate = (\<lambda>_ _ _. Inl ''down''), ay_OpenRouterGenerate = (\<lambda>_ user _ _. Inr (''Fix this: '' @ take 34 user))\<rparr>"

definition sample_alert :: notification_context where
  "sample_alert = \<lparr>nx_Severity = ''high'', nx_Title = ''eval'', nx_RuleID = ''r1'', nx_Scanner = ''semgrep'', nx_Description = [],
     nx_FilePath = ''a.py'', nx_Line = 3, nx_Repository = ''shop'', nx_EventType = ''finding.high''\<rparr>"

theorem notification_summary_shared_witness:
  "fst (GenerateNotificationSummary sample_ai (sample_alert\<lparr>nx_Repository := ''bank''\<rparr>)
     (snd (GenerateNotificationSummary sample_ai sample_alert (\<lambda>_. None)))) = ''Fix this: Security finding detected in shop:''"
proof -
  have same: "nx_RuleID (sample_alert\<lparr>nx_Repository := ''bank''\<rparr>) = nx_RuleID sample_alert"
    "nx_Scanner (sample_alert\<lparr>nx_Repository := ''bank''\<rparr>) = nx_Scanner sample_alert" by simp_all
  let ?g = "GenerateNotificationSummary sample_ai sample_alert (\<lambda>_. None)"
  have s: "fst ?g = ''Fix this: Security finding detected in shop:''"
    by code_simp
  have "GenerateNotificationSummary sample_ai (sample_alert\<lparr>nx_Repository := ''bank''\<rparr>) (snd ?g) = (fst ?g, snd ?g)"
    by (rule notification_summary_shared [where env = sample_ai and first = sample_alert and cache = "\<lambda>_. None"]) (simp_all add: s same prod_eq_iff)
  then show ?thesis unfolding s by (simp only: fst_conv)
qed

theorem ai_quota_exact_witness:
  "map snd (filter (\<lambda>r. fst r = ''2026-1'') (quota_run 2 [''2026-1'', ''2026-2'', ''2026-1'', ''2026-1''] (\<lambda>_. None))) = [True, True, False]"
  using ai_quota_exact [of 2 "\<lambda>_. None" "''2026-1''" "[''2026-1'', ''2026-2'', ''2026-1'', ''2026-1'']"]
  by (simp add: numeral_eq_Suc)

end
