(* ===== verification/Ai_Agents.thy ===== *)
theory Ai_Agents
  imports Ai_Providers Correlation Scan_Intake
begin

text \<open>
  The agents that summarise and judge findings: the summary columns and their cache
  (\<^verbatim>\<open>src/internal/repository/finding.go\<close>), the signature of a finding (\<^verbatim>\<open>summarymeta/metadata.go\<close>), both
  agents (\<^verbatim>\<open>findings/summary_agent.go\<close>, \<^verbatim>\<open>validation_agent.go\<close>), their table
  (\<^verbatim>\<open>repository/finding_analysis.go\<close>), their tasks and the handlers that request them
  (\<^verbatim>\<open>handlers/finding_analysis.go\<close>).  SHA-256 and the decoding of a scanner's raw row are functions of
  the environment.
\<close>

section \<open>Data\<close>

record summary_row =
  kz_Fingerprint :: string
  kz_Scanner :: string
  kz_RuleID :: string
  kz_Title :: string
  kz_IssueType :: string
  kz_Status :: string
  kz_Summary :: "string option"

record agent_analysis =
  aa_FindingID :: string
  aa_AgentType :: string
  aa_Confidence :: rat
  aa_FPLikelihood :: string
  aa_Reasoning :: string
  aa_RawOutput :: string
  aa_CreatedAt :: int
  aa_UpdatedAt :: int

record validation_result =
  vx_Confidence :: rat
  vx_FPLikelihood :: string
  vx_Reasoning :: string
  vx_CorrelatedIDs :: "string list"

record agent_state =
  ag_findings :: "finding list"
  ag_cache :: "summary_row list"
  ag_corr :: "correlation_row list"
  ag_analyses :: "agent_analysis list"
  ag_usage :: "string \<Rightarrow> int option"
  ag_queue :: "queued list"
  ag_events :: "(string \<times> string \<times> string) list"

text \<open>\<open>sg_issue\<close> decodes the raw row of a KICS finding to the issue types of its files.\<close>

record agent_env =
  sg_now :: int
  sg_fail :: "string \<Rightarrow> string option"
  sg_sha256_hex :: "string \<Rightarrow> string"
  sg_issue :: "string \<Rightarrow> string list option"
  sg_ai :: ai_env
  sg_decode :: "string \<Rightarrow> validation_result \<Rightarrow> string option \<times> validation_result"
  sg_marshal :: "validation_result \<Rightarrow> string"
  sg_accept :: "queued \<Rightarrow> bool"
  sg_limit :: int
  sg_month :: string

section \<open>Signatures\<close>

record metadata =
  mt_Fingerprint :: string
  mt_IssueType :: string
  mt_RawExcerpt :: string

definition normalizeField :: "string \<Rightarrow> string" where
  "normalizeField v = to_lower (join '' '' (go_fields (trim_space v)))"

definition extractIssueType :: "agent_env \<Rightarrow> string \<Rightarrow> string \<Rightarrow> string" where
  "extractIssueType env scanner raw =
     (if to_lower (trim_space scanner) \<noteq> ''kics'' \<or> raw = [] then []
      else (case sg_issue env raw of None \<Rightarrow> [] | Some [] \<Rightarrow> [] | Some (t # _) \<Rightarrow> trim_space t))"

definition Build :: "agent_env \<Rightarrow> string \<Rightarrow> string \<Rightarrow> string \<Rightarrow> string \<Rightarrow> metadata" where
  "Build env scanner ruleID title raw =
     (let issueType = extractIssueType env scanner raw in
      \<lparr>mt_Fingerprint = sg_sha256_hex env (join [newline]
         [normalizeField scanner, normalizeField ruleID, normalizeField title, normalizeField issueType]),
       mt_IssueType = issueType,
       mt_RawExcerpt = (let e = trim_space raw in if 1200 < length e then take 1200 e else e)\<rparr>)"

definition finding_meta :: "agent_env \<Rightarrow> finding \<Rightarrow> metadata" where
  "finding_meta env f = Build env (fd_Scanner f) (fd_RuleID f) (fd_Title f) (fd_Raw f)"

section \<open>The summary columns\<close>

definition text_col :: "string option \<Rightarrow> string" where
  "text_col c = (case c of None \<Rightarrow> [] | Some s \<Rightarrow> s)"

definition GetSummarySource :: "agent_env \<Rightarrow> string \<Rightarrow> finding list \<Rightarrow> string + finding" where
  "GetSummarySource env i rows =
     (case sg_fail env ''findings.GetSummarySource'' of
        Some e \<Rightarrow> Inl e
      | None \<Rightarrow> (case GetByID i rows of None \<Rightarrow> Inl ''no rows in result set'' | Some f \<Rightarrow> Inr f))"

record prepared =
  py_Fingerprint :: string
  py_Summary :: string
  py_State :: string
  py_ShouldEnqueue :: bool

definition on_finding :: "string \<Rightarrow> (finding \<Rightarrow> finding) \<Rightarrow> agent_state \<Rightarrow> agent_state" where
  "on_finding i f st = st\<lparr>ag_findings := update_where (\<lambda>r. fd_ID r = i) f (ag_findings st)\<rparr>"

definition on_cache :: "string \<Rightarrow> (summary_row \<Rightarrow> summary_row) \<Rightarrow> agent_state \<Rightarrow> agent_state" where
  "on_cache fp f st = st\<lparr>ag_cache := update_where (\<lambda>c. kz_Fingerprint c = fp) f (ag_cache st)\<rparr>"

text \<open>A statement that may fail: its error with the prefix of the program, or what follows it.\<close>

definition exec :: "agent_env \<Rightarrow> string \<Rightarrow> string \<Rightarrow> (agent_state \<Rightarrow> agent_state) \<Rightarrow> agent_state
    \<Rightarrow> (agent_state \<Rightarrow> (string + 'a) \<times> agent_state) \<Rightarrow> (string + 'a) \<times> agent_state" where
  "exec env op pre f st k = (case sg_fail env op of Some e \<Rightarrow> (Inl (pre @ e), st) | None \<Rightarrow> k (f st))"

definition PrepareAISummary :: "agent_env \<Rightarrow> string \<Rightarrow> agent_state \<Rightarrow> (string + prepared) \<times> agent_state" where
  "PrepareAISummary env i st =
     (case GetSummarySource env i (ag_findings st) of
        Inl e \<Rightarrow> (Inl (''get summary source: '' @ e), st)
      | Inr src \<Rightarrow>
        if trim_space (fd_Description src) \<noteq> [] then
          exec env ''summary.none'' ''reset summary state: '' (on_finding i (fd_SummaryState_update (\<lambda>_. ''none''))) st
            (\<lambda>st1. (Inr \<lparr>py_Fingerprint = [], py_Summary = [], py_State = ''none'', py_ShouldEnqueue = False\<rparr>, st1))
        else (let m = finding_meta env src; fp = mt_Fingerprint m in
          case sg_fail env ''summary.lookup'' of
            Some e \<Rightarrow> (Inl (''lookup summary cache: '' @ e), st)
          | None \<Rightarrow>
            (case row_by kz_Fingerprint fp (ag_cache st) of
               Some c \<Rightarrow>
                 (let cached = text_col (kz_Summary c) in
                  if trim_space cached \<noteq> [] then
                    exec env ''summary.apply'' ''apply cached summary: '' (on_finding i (\<lambda>f. f\<lparr>fd_SummaryFP := Some fp, fd_AISummary := Some cached,
                        fd_SummaryState := ''ready''\<rparr>)) st
                      (\<lambda>st1. (Inr \<lparr>py_Fingerprint = fp, py_Summary = cached, py_State = ''ready'', py_ShouldEnqueue = False\<rparr>, st1))
                  else (let again = (kz_Status c = ''failed''); state = (if again then ''pending'' else kz_Status c);
                      mark = (\<lambda>st1. exec env ''summary.mark'' ''mark summary state: '' (on_finding i (\<lambda>f. f\<lparr>fd_SummaryFP := Some fp, fd_SummaryState := state\<rparr>)) st1
                        (\<lambda>st2. (Inr \<lparr>py_Fingerprint = fp, py_Summary = cached, py_State = state, py_ShouldEnqueue = again\<rparr>, st2)))
                    in if again then exec env ''summary.reset'' ''reset summary cache status: '' (on_cache fp (kz_Status_update (\<lambda>_. ''pending''))) st mark
                       else mark st))
             | None \<Rightarrow>
               exec env ''summary.insert'' ''insert summary cache: '' (\<lambda>s. s\<lparr>ag_cache := ag_cache s @ [\<lparr>kz_Fingerprint = fp, kz_Scanner = fd_Scanner src,
                   kz_RuleID = fd_RuleID src, kz_Title = fd_Title src, kz_IssueType = mt_IssueType m, kz_Status = ''pending'', kz_Summary = None\<rparr>]\<rparr>) st
                 (\<lambda>st1. exec env ''summary.pending'' ''mark summary pending: '' (on_finding i (\<lambda>f. f\<lparr>fd_SummaryFP := Some fp, fd_SummaryState := ''pending''\<rparr>)) st1
                   (\<lambda>st2. (Inr \<lparr>py_Fingerprint = fp, py_Summary = [], py_State = ''pending'', py_ShouldEnqueue = True\<rparr>, st2))))))"

text \<open>All findings of a signature.\<close>

definition on_signature :: "string \<Rightarrow> (finding \<Rightarrow> finding) \<Rightarrow> agent_state \<Rightarrow> agent_state" where
  "on_signature fp f st = st\<lparr>ag_findings := update_where (\<lambda>r. fd_SummaryFP r = Some fp) f (ag_findings st)\<rparr>"

definition upsert_summary :: "string \<Rightarrow> string \<Rightarrow> summary_row list \<Rightarrow> summary_row list" where
  "upsert_summary fp s cache =
     (if row_by kz_Fingerprint fp cache = None
      then cache @ [\<lparr>kz_Fingerprint = fp, kz_Scanner = [], kz_RuleID = [], kz_Title = [], kz_IssueType = [], kz_Status = ''ready'', kz_Summary = Some s\<rparr>]
      else update_where (\<lambda>c. kz_Fingerprint c = fp) (\<lambda>c. c\<lparr>kz_Summary := Some s, kz_Status := ''ready''\<rparr>) cache)"

definition StoreAISummary :: "agent_env \<Rightarrow> string \<Rightarrow> string \<Rightarrow> agent_state \<Rightarrow> (string + unit) \<times> agent_state" where
  "StoreAISummary env fp summary st =
     (let s = trim_space summary in
      if s = [] then (Inl ''empty ai summary'', st)
      else exec env ''summary.store'' ''update summary cache: '' (\<lambda>x. x\<lparr>ag_cache := upsert_summary fp s (ag_cache x)\<rparr>) st
        (\<lambda>st1. exec env ''summary.spread'' ''update findings ai summary: '' (on_signature fp (\<lambda>f. f\<lparr>fd_AISummary := Some s, fd_SummaryState := ''ready''\<rparr>)) st1
          (\<lambda>st2. (Inr (), st2))))"

definition MarkAISummaryFailed :: "agent_env \<Rightarrow> string \<Rightarrow> agent_state \<Rightarrow> (string + unit) \<times> agent_state" where
  "MarkAISummaryFailed env fp st =
     (if fp = [] then (Inr (), st)
      else exec env ''summary.failcache'' ''mark summary cache failed: '' (on_cache fp (kz_Status_update (\<lambda>_. ''failed''))) st
        (\<lambda>st1. exec env ''summary.failrows'' ''mark findings summary failed: '' (on_signature fp (fd_SummaryState_update (\<lambda>_. ''failed''))) st1
          (\<lambda>st2. (Inr (), st2))))"

section \<open>The summary agent\<close>

definition summarySystemPrompt :: string where
  "summarySystemPrompt = join [newline]
     [''You are a security finding summarizer.'', [],
      ''Write a concise 1-2 sentence description for a repeated scanner finding.'', [], ''Rules:'',
      ''- Explain what the finding means and why it matters.'',
      ''- Do not mention a specific repository, company, or environment unless explicitly provided in the input.'',
      ''- Do not use markdown, bullets, or code fences.'',
      ''- Do not invent exploit details that are not supported by the finding metadata.'',
      ''- Keep the tone factual and useful for an AppSec triage screen.'', ''- Maximum length: 280 characters.'']"

definition buildSummaryPrompt :: "finding \<Rightarrow> metadata \<Rightarrow> string" where
  "buildSummaryPrompt f m =
     ''Generate a reusable summary for this finding signature.'' @ [newline, newline] @
     ''- Scanner: '' @ fd_Scanner f @ [newline] @ ''- Rule ID: '' @ fd_RuleID f @ [newline] @
     ''- Title: '' @ fd_Title f @ [newline] @ ''- Severity: '' @ fd_Severity f @ [newline] @
     (if fd_FilePath f \<noteq> [] then ''- Example path: '' @ fd_FilePath f @ [newline] else []) @
     (if mt_IssueType m \<noteq> [] then ''- Issue type: '' @ mt_IssueType m @ [newline] else []) @
     (if mt_RawExcerpt m \<noteq> [] then ''- Raw scanner payload excerpt: '' @ mt_RawExcerpt m @ [newline] else []) @
     [newline] @ ''Return plain text only.''"

definition sanitizeSummary :: "string \<Rightarrow> string" where
  "sanitizeSummary value' =
     (let v = join '' '' (go_fields (map (\<lambda>c. if c = newline then CHR '' '' else c) (trim_cutset [CHR 0x60] (trim_space value'))))
      in if 280 < length v then trim_space (take 280 v) else v)"

definition Summarize :: "agent_env \<Rightarrow> string \<Rightarrow> agent_state \<Rightarrow> (string + string) \<times> agent_state" where
  "Summarize env i st =
     (case GetSummarySource env i (ag_findings st) of
        Inl e \<Rightarrow> (Inl (''get summary source: '' @ e), st)
      | Inr src \<Rightarrow>
        if trim_space (fd_Description src) \<noteq> [] then (Inr (fd_Description src), st)
        else if trim_space (text_col (fd_AISummary src)) \<noteq> [] then (Inr (text_col (fd_AISummary src)), st)
        else (case PrepareAISummary env i st of
          (Inl e, st1) \<Rightarrow> (Inl (''prepare ai summary: '' @ e), st1)
        | (Inr p, st1) \<Rightarrow>
          if trim_space (py_Summary p) \<noteq> [] then (Inr (py_Summary p), st1)
          else if py_Fingerprint p = [] then (Inr [], st1)
          else (case GenerateSummary (sg_ai env) summarySystemPrompt (buildSummaryPrompt src (finding_meta env src)) of
            Inl e \<Rightarrow> (Inl (''generate finding summary: '' @ e), snd (MarkAISummaryFailed env (py_Fingerprint p) st1))
          | Inr text \<Rightarrow>
            (let s = sanitizeSummary text in
             if s = [] then (Inl ''empty generated summary'', snd (MarkAISummaryFailed env (py_Fingerprint p) st1))
             else (case StoreAISummary env (py_Fingerprint p) s st1 of
                 (Inl e, st2) \<Rightarrow> (Inl (''store ai summary: '' @ e), st2)
               | (Inr _, st2) \<Rightarrow> (Inr s, st2))))))"

text \<open>The task; the payload is the finding, or the error of decoding it.\<close>

definition HandleFindingSummarize :: "agent_env \<Rightarrow> string + string \<Rightarrow> agent_state \<Rightarrow> string option \<times> agent_state" where
  "HandleFindingSummarize env payload st =
     (case payload of
        Inl e \<Rightarrow> (Some e, st)
      | Inr i \<Rightarrow> (case Summarize env i st of
          (Inl e, st1) \<Rightarrow> (Some e, st1)
        | (Inr s, st1) \<Rightarrow> (None, st1\<lparr>ag_events := ag_events st1 @ [(''finding_summary_completed'', i, s)]\<rparr>)))"

definition enqueueFindingSummary :: "agent_env \<Rightarrow> string \<Rightarrow> agent_state \<Rightarrow> agent_state" where
  "enqueueFindingSummary env i st =
     (case PrepareAISummary env i st of
        (Inl e, st1) \<Rightarrow> st1
      | (Inr p, st1) \<Rightarrow> if \<not> py_ShouldEnqueue p then st1
          else st1\<lparr>ag_queue := enqueue (sg_accept env) (FindingSummarize i) 25 1800 (ag_queue st1)\<rparr>)"

section \<open>The validation agent\<close>

definition GetAnalysis :: "agent_env \<Rightarrow> string \<Rightarrow> string \<Rightarrow> agent_state \<Rightarrow> string + agent_analysis" where
  "GetAnalysis env i agentType st =
     (case sg_fail env ''agents.GetAnalysis'' of
        Some e \<Rightarrow> Inl e
      | None \<Rightarrow> (case find (\<lambda>a. aa_FindingID a = i \<and> aa_AgentType a = agentType) (ag_analyses st) of
          None \<Rightarrow> Inl ''no rows in result set'' | Some a \<Rightarrow> Inr a))"

text \<open>The unique index \<^verbatim>\<open>(finding_id, agent_type)\<close> turns the insertion into an update.\<close>

definition UpsertAnalysis :: "agent_env \<Rightarrow> string \<Rightarrow> string \<Rightarrow> validation_result \<Rightarrow> agent_state \<Rightarrow> (string + agent_analysis) \<times> agent_state" where
  "UpsertAnalysis env i agentType r st =
     (case sg_fail env ''agents.UpsertAnalysis'' of
        Some e \<Rightarrow> (Inl e, st)
      | None \<Rightarrow>
        if GetByID i (ag_findings st) = None then (Inl ''violates foreign key constraint'', st)
        else (let same = (\<lambda>a. aa_FindingID a = i \<and> aa_AgentType a = agentType);
                  set = (\<lambda>a. a\<lparr>aa_Confidence := vx_Confidence r, aa_FPLikelihood := vx_FPLikelihood r, aa_Reasoning := vx_Reasoning r,
                     aa_RawOutput := sg_marshal env r, aa_UpdatedAt := sg_now env\<rparr>) in
          case find same (ag_analyses st) of
            Some a \<Rightarrow> (Inr (set a), st\<lparr>ag_analyses := update_where same set (ag_analyses st)\<rparr>)
          | None \<Rightarrow> (let a = \<lparr>aa_FindingID = i, aa_AgentType = agentType, aa_Confidence = vx_Confidence r, aa_FPLikelihood = vx_FPLikelihood r,
                aa_Reasoning = vx_Reasoning r, aa_RawOutput = sg_marshal env r, aa_CreatedAt = sg_now env, aa_UpdatedAt = sg_now env\<rparr>
              in (Inr a, st\<lparr>ag_analyses := ag_analyses st @ [a]\<rparr>))))"

fun findings_with :: "finding list \<Rightarrow> string list \<Rightarrow> finding list" where
  "findings_with rows [] = []"
| "findings_with rows (i # is) = (case GetByID i rows of None \<Rightarrow> findings_with rows is | Some f \<Rightarrow> f # findings_with rows is)"

definition signal_type :: "correlation_row \<Rightarrow> bool" where
  "signal_type c \<longleftrightarrow> cr_Type c = same_family_batch \<or> cr_Type c = ''same_signal''"

text \<open>At most twenty, in the order of the table.\<close>

definition GetCorrelatedFindings :: "agent_env \<Rightarrow> string \<Rightarrow> agent_state \<Rightarrow> string + finding list" where
  "GetCorrelatedFindings env i st =
     (case sg_fail env ''agents.GetCorrelatedFindings'' of
        Some e \<Rightarrow> Inl e
      | None \<Rightarrow> Inr (if GetByID i (ag_findings st) = None then []
          else take 20 (filter (\<lambda>f. \<not> fd_Suppressed f) (findings_with (ag_findings st)
            (remdups (map (other_end i) (filter (\<lambda>c. signal_type c \<and> involves i c) (ag_corr st))))))))"

fun InsertCorrelations :: "agent_env \<Rightarrow> finding list \<Rightarrow> string \<Rightarrow> string list \<Rightarrow> string \<Rightarrow> correlation_row list \<Rightarrow> string option \<times> correlation_row list" where
  "InsertCorrelations env rows i [] typ corr = (None, corr)"
| "InsertCorrelations env rows i (c # cs) typ corr =
     (case sg_fail env ''agents.InsertCorrelations'' of
        Some e \<Rightarrow> (Some e, corr)
      | None \<Rightarrow> (case canonicalPair i c of (a, b) \<Rightarrow>
          if list_ex (\<lambda>x. cr_A x = a \<and> cr_B x = b) corr then InsertCorrelations env rows i cs typ corr
          else if GetByID a rows = None \<or> GetByID b rows = None then (Some ''violates foreign key constraint'', corr)
          else InsertCorrelations env rows i cs typ (corr @ [\<lparr>cr_A = a, cr_B = b, cr_Type = typ\<rparr>])))"

definition validateValidationResult :: "validation_result \<Rightarrow> finding list \<Rightarrow> string option" where
  "validateValidationResult r correlated =
     (if vx_Confidence r < 0 \<or> 1 < vx_Confidence r then Some ''confidence out of range''
      else if vx_FPLikelihood r \<notin> {''low'', ''medium'', ''high''} then Some ''invalid fp_likelihood''
      else if trim_space (vx_Reasoning r) = [] then Some ''missing reasoning''
      else (case find (\<lambda>c. c \<notin> fd_ID ` set correlated) (vx_CorrelatedIDs r) of
          Some c \<Rightarrow> Some (''unknown correlated finding id: '' @ c)
        | None \<Rightarrow> None))"

definition dash :: string where "dash = [CHR 0xE2, CHR 0x80, CHR 0x93]"

definition correlated_line :: "finding \<Rightarrow> string" where
  "correlated_line c = ''- ID: `'' @ fd_ID c @ ''` | Scanner: '' @ fd_Scanner c @ '' | Rule: '' @ fd_RuleID c @ '' | Severity: '' @
     fd_Severity c @ '' | File: '' @ fd_FilePath c @ '':'' @ itoa (fd_LineStart c) @ [newline]"

definition buildValidationPrompt :: "finding \<Rightarrow> finding list \<Rightarrow> string" where
  "buildValidationPrompt f correlated =
     ''## Finding to analyze'' @ [newline, newline] @
     ''- **ID:** '' @ fd_ID f @ [newline] @ ''- **Scanner:** '' @ fd_Scanner f @ [newline] @
     ''- **Rule:** '' @ fd_RuleID f @ [newline] @ ''- **Title:** '' @ fd_Title f @ [newline] @
     ''- **Severity:** '' @ fd_Severity f @ [newline] @
     ''- **File:** '' @ fd_FilePath f @ '' (lines '' @ itoa (fd_LineStart f) @ dash @ itoa (fd_LineEnd f) @ '')'' @ [newline] @
     (case fd_CVEID f of None \<Rightarrow> [] | Some c \<Rightarrow> ''- **CVE:** '' @ c @ [newline]) @
     (case fd_CWEID f of None \<Rightarrow> [] | Some c \<Rightarrow> ''- **CWE:** '' @ c @ [newline]) @
     [newline] @ ''**Description:** '' @ fd_Description f @ [newline] @
     (if fd_CodeSnippet f = [] then []
      else [newline] @ ''**'' @ (if 1024 < length (fd_CodeSnippet f) then ''Full file content'' else ''Code snippet'') @ '':**'' @ [newline] @
        fence @ [newline] @ fd_CodeSnippet f @ [newline] @ fence @ [newline]) @
     (if correlated \<noteq> [] then [newline] @ ''## Correlated findings from other scanners ('' @ nat_str (length correlated) @ '')'' @ [newline, newline] @
        concat (map correlated_line correlated)
      else [newline] @ ''## Correlated findings'' @ [newline, newline] @ ''No other scanners flagged this location or rule.'' @ [newline])"

text \<open>The fixed instructions of the validation agent are an argument.\<close>

definition Analyze :: "agent_env \<Rightarrow> string \<Rightarrow> string \<Rightarrow> agent_state \<Rightarrow> (string + agent_analysis) \<times> agent_state" where
  "Analyze env validationSystemPrompt i st =
     (case sg_fail env ''findings.GetByID'' of
        Some e \<Rightarrow> (Inl (''get finding: '' @ e), st)
      | None \<Rightarrow>
        (case GetByID i (ag_findings st) of
          None \<Rightarrow> (Inl ''get finding: no rows in result set'', st)
        | Some f \<Rightarrow>
          (case GetCorrelatedFindings env i st of
            Inl e \<Rightarrow> (Inl (''get correlations: '' @ e), st)
          | Inr correlated \<Rightarrow>
            (case GenerateValidationJSON (sg_ai env) (sg_decode env) \<lparr>vx_Confidence = 0, vx_FPLikelihood = [], vx_Reasoning = [], vx_CorrelatedIDs = []\<rparr>
                validationSystemPrompt (buildValidationPrompt f correlated) of
              Inl e \<Rightarrow> (Inl (''ai validation: '' @ e), st)
            | Inr r \<Rightarrow>
              (case validateValidationResult r correlated of
                Some e \<Rightarrow> (Inl (''validate response: '' @ e), st)
              | None \<Rightarrow>
                (case UpsertAnalysis env i ''validator'' r st of
                  (Inl e, st1) \<Rightarrow> (Inl (''store analysis: '' @ e), st1)
                | (Inr a, st1) \<Rightarrow>
                  (Inr a, if vx_CorrelatedIDs r = [] then st1
                     else st1\<lparr>ag_corr := snd (InsertCorrelations env (ag_findings st1) i (vx_CorrelatedIDs r) ''same_signal'' (ag_corr st1))\<rparr>)))))))"

definition HandleFindingValidate :: "agent_env \<Rightarrow> string \<Rightarrow> string + string \<Rightarrow> agent_state \<Rightarrow> string option \<times> agent_state" where
  "HandleFindingValidate env prompt payload st =
     (case payload of
        Inl e \<Rightarrow> (Some e, st)
      | Inr i \<Rightarrow> (case Analyze env prompt i st of
          (Inl e, st1) \<Rightarrow> (Some e, st1)
        | (Inr a, st1) \<Rightarrow> (None, st1\<lparr>ag_events := ag_events st1 @ [(''finding_validation_completed'', i, aa_Reasoning a)]\<rparr>)))"

section \<open>The handlers\<close>

definition checkAIScanLimit :: "agent_env \<Rightarrow> agent_state \<Rightarrow> (nat \<times> string) option \<times> agent_state" where
  "checkAIScanLimit env st =
     (if sg_limit env < 0 then (None, st)
      else (case IncrementAIScan (sg_fail env ''usage.IncrementAIScan'') (sg_month env) (sg_limit env) (ag_usage st) of
          (Inl e, u) \<Rightarrow> (Some (500, ''limit check failed''), st\<lparr>ag_usage := u\<rparr>)
        | (Inr allowed, u) \<Rightarrow> (if allowed then None else Some (403, ''AI scan limit reached ('' @ itoa (sg_limit env) @ ''/'' @ itoa (sg_limit env) @
            '' this month). Contact sales to upgrade.''), st\<lparr>ag_usage := u\<rparr>)))"

definition finding_there :: "agent_env \<Rightarrow> string \<Rightarrow> agent_state \<Rightarrow> finding option" where
  "finding_there env i st = (case sg_fail env ''findings.GetByID'' of Some e \<Rightarrow> None | None \<Rightarrow> GetByID i (ag_findings st))"

definition GetFindingCorrelations :: "agent_env \<Rightarrow> string \<Rightarrow> agent_state \<Rightarrow> finding list reply" where
  "GetFindingCorrelations env i st =
     (case finding_there env i st of None \<Rightarrow> Inl (404, ''finding not found'')
      | Some f \<Rightarrow> (case GetCorrelatedFindings env i st of Inl e \<Rightarrow> Inl (500, ''failed to get correlations'') | Inr fs \<Rightarrow> Inr fs))"

definition GetFindingAnalysis :: "agent_env \<Rightarrow> string \<Rightarrow> agent_state \<Rightarrow> agent_analysis reply" where
  "GetFindingAnalysis env i st =
     (case GetAnalysis env i ''validator'' st of Inl e \<Rightarrow> Inl (404, ''no analysis found for this finding'') | Inr a \<Rightarrow> Inr a)"

text \<open>Both requests answer with the status they report.\<close>

definition enqueue_agent :: "agent_env \<Rightarrow> task \<Rightarrow> string \<Rightarrow> agent_state \<Rightarrow> string reply \<times> agent_state" where
  "enqueue_agent env t what st =
     (let x = \<lparr>q_task = t, q_retry = 25, q_timeout = 1800\<rparr> in
      if sg_accept env x then (Inr ''queued'', st\<lparr>ag_queue := ag_queue st @ [x]\<rparr>)
      else (Inl (500, ''failed to enqueue '' @ what), st))"

definition AnalyzeFinding :: "agent_env \<Rightarrow> string \<Rightarrow> agent_state \<Rightarrow> string reply \<times> agent_state" where
  "AnalyzeFinding env i st =
     (case finding_there env i st of None \<Rightarrow> (Inl (404, ''finding not found''), st)
      | Some f \<Rightarrow> (case checkAIScanLimit env st of
          (Some e, st1) \<Rightarrow> (Inl e, st1)
        | (None, st1) \<Rightarrow> enqueue_agent env (FindingValidate i) ''analysis'' st1))"

definition RequestFindingSummary :: "agent_env \<Rightarrow> string \<Rightarrow> agent_state \<Rightarrow> string reply \<times> agent_state" where
  "RequestFindingSummary env i st =
     (case finding_there env i st of None \<Rightarrow> (Inl (404, ''finding not found''), st)
      | Some f \<Rightarrow>
        if fd_SummaryState f = ''pending'' then (Inr ''pending'', st)
        else if fd_SummaryState f = ''ready'' then (Inr ''ready'', st)
        else (case checkAIScanLimit env st of
          (Some e, st1) \<Rightarrow> (Inl e, st1)
        | (None, st1) \<Rightarrow>
          (case PrepareAISummary env i st1 of (r, st2) \<Rightarrow>
            if (case r of Inr p \<Rightarrow> py_Summary p \<noteq> [] | Inl e \<Rightarrow> False) then (Inr ''ready'', st2)
            else enqueue_agent env (FindingSummarize i) ''summary'' st2)))"

section \<open>Specifications\<close>

definition cached_summary :: "summary_row list \<Rightarrow> string \<Rightarrow> string option" where
  "cached_summary cache fp = (case row_by kz_Fingerprint fp cache of None \<Rightarrow> None | Some c \<Rightarrow> kz_Summary c)"

definition cache_row_ok :: "summary_row \<Rightarrow> bool" where
  "cache_row_ok c \<longleftrightarrow> kz_Status c \<in> {''pending'', ''ready'', ''failed''} \<and> (kz_Status c = ''ready'' \<longrightarrow> kz_Summary c \<noteq> None) \<and>
     (\<forall>s. kz_Summary c = Some s \<longrightarrow> s \<noteq> [] \<and> trim_space s = s)"

text \<open>A finding that shows a summary shows the one of its signature.\<close>

definition summary_row_ok :: "summary_row list \<Rightarrow> finding \<Rightarrow> bool" where
  "summary_row_ok cache f \<longleftrightarrow> fd_SummaryState f \<in> {''none'', ''pending'', ''ready'', ''failed''} \<and>
     (fd_SummaryState f = ''ready'' \<longrightarrow> (\<exists>fp s. fd_SummaryFP f = Some fp \<and> fd_AISummary f = Some s \<and> cached_summary cache fp = Some s))"

definition summaries_ok :: "agent_state \<Rightarrow> bool" where
  "summaries_ok st \<longleftrightarrow> distinct (map kz_Fingerprint (ag_cache st)) \<and> list_all cache_row_ok (ag_cache st) \<and>
     list_all (summary_row_ok (ag_cache st)) (ag_findings st)"

text \<open>Both statements of a store reach the database, or the first one fails.\<close>

inductive agent_step :: "agent_state \<Rightarrow> agent_state \<Rightarrow> bool" where
  step_summarize: "sg_fail env ''summary.spread'' = None \<Longrightarrow> agent_step st (snd (HandleFindingSummarize env payload st))"
| step_validate: "agent_step st (snd (HandleFindingValidate env prompt payload st))"
| step_request: "agent_step st (snd (RequestFindingSummary env i st))"
| step_analyze: "agent_step st (snd (AnalyzeFinding env i st))"
| step_enqueue: "agent_step st (enqueueFindingSummary env i st)"

definition canonical :: "correlation_row list \<Rightarrow> bool" where
  "canonical corr \<longleftrightarrow> list_all (\<lambda>c. cr_A c \<le> cr_B c) corr"

section \<open>Lemmas\<close>

lemma list_all_update_where:
  assumes "list_all P rows" "\<And>r. Q r \<Longrightarrow> P r \<Longrightarrow> P' (f r)" "\<And>r. \<not> Q r \<Longrightarrow> P r \<Longrightarrow> P' r"
  shows "list_all P' (update_where Q f rows)"
  using assms(1) by (induction rows) (auto simp: assms(2,3))

lemma cached_other:
  assumes "\<And>c. kz_Fingerprint (f c) = kz_Fingerprint c" "\<And>c. kz_Summary (f c) = kz_Summary c"
  shows "cached_summary (update_where (\<lambda>c. kz_Fingerprint c = fp) f cache) = cached_summary cache"
  by (rule ext) (simp add: cached_summary_def row_by_update_where [of kz_Fingerprint, OF assms(1)] assms(2) split: option.split)

lemma on_cache_status_ok:
  assumes "summaries_ok st" "s \<in> {''pending'', ''failed''}"
  shows "summaries_ok (on_cache fp (kz_Status_update (\<lambda>_. s)) st)"
proof -
  let ?f = "kz_Status_update (\<lambda>_. s)"
  have "list_all cache_row_ok (update_where (\<lambda>c. kz_Fingerprint c = fp) ?f (ag_cache st))"
    using assms by (intro list_all_update_where [of cache_row_ok]) (auto simp: summaries_ok_def cache_row_ok_def)
  moreover have "map kz_Fingerprint (update_where (\<lambda>c. kz_Fingerprint c = fp) ?f (ag_cache st)) = map kz_Fingerprint (ag_cache st)"
    by (rule map_update_where) simp
  moreover have "summary_row_ok (update_where (\<lambda>c. kz_Fingerprint c = fp) ?f (ag_cache st)) = summary_row_ok (ag_cache st)"
    by (rule ext) (simp add: summary_row_ok_def cached_other)
  ultimately show ?thesis using assms(1) by (simp add: summaries_ok_def on_cache_def)
qed

lemma findings_update_ok:
  assumes "summaries_ok st" "\<And>f. Q f \<Longrightarrow> summary_row_ok (ag_cache st) f \<Longrightarrow> summary_row_ok (ag_cache st) (g f)"
  shows "summaries_ok (st\<lparr>ag_findings := update_where Q g (ag_findings st)\<rparr>)"
  using assms unfolding summaries_ok_def by (auto intro: list_all_update_where [of "summary_row_ok (ag_cache st)"])

lemma mark_findings_ok:
  assumes "summaries_ok st" "\<And>f. fd_SummaryState (g f) \<in> {''none'', ''pending'', ''failed''}"
  shows "summaries_ok (st\<lparr>ag_findings := update_where Q g (ag_findings st)\<rparr>)"
proof (rule findings_update_ok [OF assms(1)])
  fix f
  show "summary_row_ok (ag_cache st) (g f)" using assms(2) [of f] unfolding summary_row_ok_def by auto
qed

lemma cached_append: "row_by kz_Fingerprint (kz_Fingerprint c) cache = None \<Longrightarrow>
   cached_summary (cache @ [c]) = (cached_summary cache)(kz_Fingerprint c := kz_Summary c)"
  by (rule ext) (auto simp: cached_summary_def row_by_append split: option.split)

lemma insert_cache_ok:
  assumes "summaries_ok st" "row_by kz_Fingerprint (kz_Fingerprint c) (ag_cache st) = None" "cache_row_ok c"
  shows "summaries_ok (st\<lparr>ag_cache := ag_cache st @ [c]\<rparr>)"
proof -
  have none: "cached_summary (ag_cache st) (kz_Fingerprint c) = None" using assms(2) by (simp add: cached_summary_def)
  have "summary_row_ok (ag_cache st @ [c]) f" if "summary_row_ok (ag_cache st) f" for f
    using that none unfolding summary_row_ok_def cached_append [OF assms(2)] by fastforce
  then have "list_all (summary_row_ok (ag_cache st @ [c])) (ag_findings st)" using assms(1) by (auto simp: summaries_ok_def list_all_iff)
  then show ?thesis using assms by (auto simp: summaries_ok_def row_by_None)
qed

lemma exec_ok:
  assumes "keep st" "keep (f st)" "\<And>st1. keep st1 \<Longrightarrow> st1 = f st \<Longrightarrow> keep (snd (k st1))"
  shows "keep (snd (exec env op pre f st k))"
  using assms by (simp add: exec_def split: option.split)

lemma Prepare_ok:
  assumes "summaries_ok st"
  shows "summaries_ok (snd (PrepareAISummary env i st))"
proof (cases "GetSummarySource env i (ag_findings st)")
  case (Inl e)
  then show ?thesis using assms by (simp add: PrepareAISummary_def)
next
  case (Inr src)
  let ?fp = "mt_Fingerprint (finding_meta env src)"
  show ?thesis
  proof (cases "trim_space (fd_Description src) = []")
    case False
    then show ?thesis unfolding PrepareAISummary_def Inr sum.case if_P [OF False]
      by (intro exec_ok [of summaries_ok] assms) (auto simp: on_finding_def intro!: mark_findings_ok assms)
  next
    case blank: True
    have mark: "summaries_ok (on_finding i (\<lambda>f. f\<lparr>fd_SummaryFP := Some fp, fd_SummaryState := s\<rparr>) x)"
      if "summaries_ok x" "s \<in> {''pending'', ''failed''}" for fp s x
      unfolding on_finding_def using that by (intro mark_findings_ok) auto
    show ?thesis
    proof (cases "row_by kz_Fingerprint ?fp (ag_cache st)")
      case None
      let ?c = "\<lparr>kz_Fingerprint = ?fp, kz_Scanner = fd_Scanner src, kz_RuleID = fd_RuleID src, kz_Title = fd_Title src,
        kz_IssueType = mt_IssueType (finding_meta env src), kz_Status = ''pending'', kz_Summary = None\<rparr>"
      have "summaries_ok (st\<lparr>ag_cache := ag_cache st @ [?c]\<rparr>)"
        using None by (intro insert_cache_ok assms) (simp_all add: cache_row_ok_def)
      then show ?thesis using assms blank
        by (auto simp: PrepareAISummary_def Inr Let_def None intro!: exec_ok [of summaries_ok] mark split: option.split)
    next
      case (Some c)
      have c: "cache_row_ok c" "cached_summary (ag_cache st) ?fp = kz_Summary c"
        using assms row_by_SomeD [OF Some] by (auto simp: summaries_ok_def list_all_iff cached_summary_def Some)
      show ?thesis
      proof (cases "kz_Summary c")
        case (Some s)
        then have s: "trim_space s \<noteq> []" using c(1) by (auto simp: cache_row_ok_def)
        let ?g = "\<lambda>f. f\<lparr>fd_SummaryFP := Some ?fp, fd_AISummary := Some s, fd_SummaryState := ''ready''\<rparr>"
        have "summaries_ok (on_finding i ?g st)" unfolding on_finding_def
          by (rule findings_update_ok [OF assms]) (simp add: summary_row_ok_def c(2) Some)
        then show ?thesis using assms blank s \<open>row_by kz_Fingerprint ?fp (ag_cache st) = Some c\<close>
          by (auto simp: PrepareAISummary_def Inr Let_def Some text_col_def intro!: exec_ok [of summaries_ok] split: option.split)
      next
        case none: None
        have status: "kz_Status c \<in> {''pending'', ''failed''}" using c(1) none by (auto simp: cache_row_ok_def)
        show ?thesis using assms blank Some none status
          by (auto simp: PrepareAISummary_def Inr Let_def text_col_def intro!: exec_ok [of summaries_ok] mark on_cache_status_ok split: option.split)
      qed
    qed
  qed
qed

lemma MarkFailed_ok:
  assumes "summaries_ok st"
  shows "summaries_ok (snd (MarkAISummaryFailed env fp st))"
proof -
  have "summaries_ok (on_signature fp (fd_SummaryState_update (\<lambda>_. ''failed'')) x)" if "summaries_ok x" for x
    unfolding on_signature_def using that by (rule mark_findings_ok) simp
  moreover have "summaries_ok (on_cache fp (kz_Status_update (\<lambda>_. ''failed'')) st)" by (rule on_cache_status_ok [OF assms]) simp
  ultimately show ?thesis using assms by (simp add: MarkAISummaryFailed_def exec_def split: option.split)
qed

lemma cached_upsert: "cached_summary (upsert_summary fp s cache) = (cached_summary cache)(fp \<mapsto> s)"
proof (rule ext)
  fix k
  show "cached_summary (upsert_summary fp s cache) k = ((cached_summary cache)(fp \<mapsto> s)) k"
  proof (cases "row_by kz_Fingerprint fp cache")
    case None
    then show ?thesis by (auto simp: upsert_summary_def cached_summary_def row_by_append split: option.split)
  next
    case (Some c)
    let ?f = "\<lambda>c. c\<lparr>kz_Summary := Some s, kz_Status := ''ready''\<rparr>"
    have "row_by kz_Fingerprint k (update_where (\<lambda>c. kz_Fingerprint c = fp) ?f cache) =
        map_option (\<lambda>c. if kz_Fingerprint c = fp then ?f c else c) (row_by kz_Fingerprint k cache)"
      by (rule row_by_update_where) simp
    then show ?thesis using Some row_by_SomeD [of kz_Fingerprint k cache]
      by (cases "row_by kz_Fingerprint k cache") (auto simp: upsert_summary_def cached_summary_def)
  qed
qed

lemma Store_ok:
  assumes "summaries_ok st" "sg_fail env ''summary.spread'' = None"
  shows "summaries_ok (snd (StoreAISummary env fp summary st))"
proof (cases "trim_space summary = [] \<or> sg_fail env ''summary.store'' \<noteq> None")
  case True
  then show ?thesis using assms(1) by (auto simp: StoreAISummary_def exec_def Let_def)
next
  case False
  let ?s = "trim_space summary"
  let ?cache = "upsert_summary fp ?s (ag_cache st)"
  let ?g = "\<lambda>f. f\<lparr>fd_AISummary := Some ?s, fd_SummaryState := ''ready''\<rparr>"
  have st: "snd (StoreAISummary env fp summary st) = st\<lparr>ag_cache := ?cache,
      ag_findings := update_where (\<lambda>r. fd_SummaryFP r = Some fp) ?g (ag_findings st)\<rparr>"
    using False assms(2) by (auto simp: StoreAISummary_def exec_def on_signature_def Let_def)
  have "list_all (summary_row_ok ?cache) (update_where (\<lambda>r. fd_SummaryFP r = Some fp) ?g (ag_findings st))"
  proof (rule list_all_update_where [of "summary_row_ok (ag_cache st)"])
    show "list_all (summary_row_ok (ag_cache st)) (ag_findings st)" using assms(1) by (simp add: summaries_ok_def)
    fix f
    show "fd_SummaryFP f = Some fp \<Longrightarrow> summary_row_ok ?cache (?g f)"
      by (simp add: summary_row_ok_def cached_upsert)
    show "fd_SummaryFP f \<noteq> Some fp \<Longrightarrow> summary_row_ok (ag_cache st) f \<Longrightarrow> summary_row_ok ?cache f"
      by (auto simp: summary_row_ok_def cached_upsert)
  qed
  moreover have "list_all cache_row_ok ?cache \<and> distinct (map kz_Fingerprint ?cache)"
  proof -
    have ok: "list_all cache_row_ok (ag_cache st)" "distinct (map kz_Fingerprint (ag_cache st))" using assms(1) by (simp_all add: summaries_ok_def)
    show ?thesis
    proof (cases "row_by kz_Fingerprint fp (ag_cache st) = None")
      case True
      then show ?thesis using ok False by (simp add: upsert_summary_def cache_row_ok_def row_by_None)
    next
      case there: False
      let ?f = "\<lambda>c. c\<lparr>kz_Summary := Some ?s, kz_Status := ''ready''\<rparr>"
      have "list_all cache_row_ok (update_where (\<lambda>c. kz_Fingerprint c = fp) ?f (ag_cache st))"
        using ok(1) False by (intro list_all_update_where [of cache_row_ok]) (auto simp: cache_row_ok_def)
      moreover have "map kz_Fingerprint (update_where (\<lambda>c. kz_Fingerprint c = fp) ?f (ag_cache st)) = map kz_Fingerprint (ag_cache st)"
        by (rule map_update_where) simp
      ultimately show ?thesis using ok(2) unfolding upsert_summary_def if_not_P [OF there] by simp
    qed
  qed
  ultimately show ?thesis by (simp add: summaries_ok_def st)
qed

lemma summaries_other: "summaries_ok (st\<lparr>ag_queue := q\<rparr>) = summaries_ok st" "summaries_ok (st\<lparr>ag_events := e\<rparr>) = summaries_ok st"
  "summaries_ok (st\<lparr>ag_usage := u\<rparr>) = summaries_ok st" "summaries_ok (st\<lparr>ag_corr := c\<rparr>) = summaries_ok st"
  "summaries_ok (st\<lparr>ag_analyses := a\<rparr>) = summaries_ok st"
  by (simp_all add: summaries_ok_def)

lemma Summarize_ok:
  assumes "summaries_ok st" "sg_fail env ''summary.spread'' = None"
  shows "summaries_ok (snd (Summarize env i st))"
proof (cases "GetSummarySource env i (ag_findings st)")
  case (Inr src)
  obtain r st1 where p: "PrepareAISummary env i st = (r, st1)" by fastforce
  have st1: "summaries_ok st1" using Prepare_ok [OF assms(1), of env i] p by simp
  have store: "summaries_ok x" if "StoreAISummary env fp s st1 = (y, x)" for fp s y x
    using Store_ok [OF st1 assms(2), of fp s] that by simp
  show ?thesis unfolding Summarize_def Inr sum.case p prod.case using assms(1) st1 store
    by (cases r; cases "GenerateSummary (sg_ai env) summarySystemPrompt (buildSummaryPrompt src (finding_meta env src))")
      (auto simp: Let_def MarkFailed_ok split: prod.split sum.split)
qed (simp add: Summarize_def assms(1))

lemma Analyze_summaries: "ag_findings (snd (Analyze env p i st)) = ag_findings st \<and> ag_cache (snd (Analyze env p i st)) = ag_cache st"
proof -
  have up: "ag_findings (snd (UpsertAnalysis env i ty r st)) = ag_findings st \<and> ag_cache (snd (UpsertAnalysis env i ty r st)) = ag_cache st" for ty r
    by (simp add: UpsertAnalysis_def Let_def split: option.split)
  have up': "ag_findings x = ag_findings st \<and> ag_cache x = ag_cache st" if "UpsertAnalysis env i ty r st = (y, x)" for ty r y x
    using up [of ty r] that by simp
  show ?thesis
    by (auto simp: Analyze_def split: option.split sum.split prod.split dest: up')
qed

lemma enqueue_agent_same: "ag_findings (snd (enqueue_agent env t w st)) = ag_findings st \<and> ag_cache (snd (enqueue_agent env t w st)) = ag_cache st"
  by (simp add: enqueue_agent_def Let_def)

lemma limit_same: "checkAIScanLimit env st = (r, st1) \<Longrightarrow> \<exists>u. st1 = st\<lparr>ag_usage := u\<rparr>"
  by (auto simp: checkAIScanLimit_def split: if_splits prod.splits sum.splits) (metis agent_state.surjective agent_state.update_convs(5))

lemma summaries_same: "ag_findings st' = ag_findings st \<and> ag_cache st' = ag_cache st \<Longrightarrow> summaries_ok st' = summaries_ok st"
  by (simp add: summaries_ok_def)

lemma agent_step_ok: "agent_step st st' \<Longrightarrow> summaries_ok st \<Longrightarrow> summaries_ok st'"
proof (induction rule: agent_step.induct)
  case (step_summarize env st payload)
  then show ?case using Summarize_ok [of st env]
    by (auto simp: HandleFindingSummarize_def summaries_other split: sum.split prod.split) (metis snd_conv)+
next
  case (step_validate st env prompt payload)
  have "summaries_ok (snd (Analyze env prompt i st))" for i using step_validate summaries_same [OF Analyze_summaries] by simp
  then show ?case using step_validate
    by (auto simp: HandleFindingValidate_def summaries_other split: sum.split prod.split) (metis snd_conv)+
next
  case (step_request st env i)
  have limit: "summaries_ok st1" if "checkAIScanLimit env st = (r, st1)" for r st1
    using limit_same [OF that] step_request by (auto simp: summaries_other)
  have prep: "summaries_ok st2" if "checkAIScanLimit env st = (r, st1)" "PrepareAISummary env i st1 = (x, st2)" for r st1 x st2
    using Prepare_ok [OF limit [OF that(1)], of env i] that(2) by simp
  show ?case using step_request limit prep
    by (auto simp: RequestFindingSummary_def summaries_same [OF enqueue_agent_same] split: option.split prod.split)
next
  case (step_analyze st env i)
  have limit: "summaries_ok st1" if "checkAIScanLimit env st = (r, st1)" for r st1
    using limit_same [OF that] step_analyze by (auto simp: summaries_other)
  then show ?case using step_analyze
    by (auto simp: AnalyzeFinding_def summaries_same [OF enqueue_agent_same] split: option.split prod.split)
next
  case (step_enqueue st env i)
  have "summaries_ok st1" if "PrepareAISummary env i st = (r, st1)" for r st1
    using Prepare_ok [OF step_enqueue, of env i] that by simp
  then show ?case by (auto simp: enqueueFindingSummary_def summaries_other split: prod.split sum.split)
qed

interpretation agents: invariant_machine summaries_ok agent_step summaries_ok
  by unfold_locales (auto intro: agent_step_ok)

text \<open>C19: Summaries stay consistent whatever requests and agents run in any order: one cache row for a
  signature, stored summaries trimmed and not empty, and every finding that shows a summary shows
  the one of its signature.\<close>

theorem summaries_invariant:
  assumes "summaries_ok st" "agent_step\<^sup>*\<^sup>* st st'"
  shows "summaries_ok st'"
  by (rule agents.reachable_inv [OF assms])

lemma Store_done:
  assumes "StoreAISummary env fp summary st = (Inr u, st')"
  shows "trim_space summary \<noteq> [] \<and> cached_summary (ag_cache st') fp = Some (trim_space summary) \<and>
    ag_findings st' = update_where (\<lambda>r. fd_SummaryFP r = Some fp) (\<lambda>f. f\<lparr>fd_AISummary := Some (trim_space summary), fd_SummaryState := ''ready''\<rparr>) (ag_findings st)"
  using assms by (auto simp: StoreAISummary_def exec_def Let_def on_signature_def cached_upsert split: if_splits option.splits)

lemma Prepare_done:
  assumes "PrepareAISummary env i st = (Inr p, st')" "trim_space (fd_Description src) = []"
    and "GetSummarySource env i (ag_findings st) = Inr src"
  defines "fp \<equiv> mt_Fingerprint (finding_meta env src)"
  shows "py_Fingerprint p = fp \<and> (\<exists>f. ag_findings st' = update_where (\<lambda>r. fd_ID r = i) f (ag_findings st) \<and>
      (\<forall>r. fd_SummaryFP (f r) = Some fp \<and> fd_Description (f r) = fd_Description r \<and> finding_meta env (f r) = finding_meta env r \<and> fd_ID (f r) = fd_ID r \<and>
        (fd_AISummary (f r) = fd_AISummary r \<or> fd_AISummary (f r) = Some (py_Summary p)))) \<and>
    (trim_space (py_Summary p) \<noteq> [] \<longrightarrow> cached_summary (ag_cache st') fp = Some (py_Summary p))"
proof (cases "row_by kz_Fingerprint fp (ag_cache st)")
  case None
  then show ?thesis using assms(1,2,3) unfolding fp_def
    by (auto simp: PrepareAISummary_def exec_def Let_def on_finding_def finding_meta_def split: option.splits)
next
  case (Some c)
  show ?thesis
  proof (cases "trim_space (text_col (kz_Summary c)) = []")
    case True
    then show ?thesis using assms(1,2,3) Some unfolding fp_def
      by (auto simp: PrepareAISummary_def exec_def Let_def on_finding_def on_cache_def finding_meta_def split: option.splits if_splits)
  next
    case False
    then have "cached_summary (ag_cache st) fp = Some (text_col (kz_Summary c))"
      by (cases "kz_Summary c") (simp_all add: cached_summary_def Some text_col_def)
    then show ?thesis using assms(1,2,3) Some False unfolding fp_def
      by (auto simp: PrepareAISummary_def exec_def Let_def on_finding_def finding_meta_def split: option.splits)
  qed
qed

lemma meta_ai [simp]: "finding_meta (env\<lparr>sg_ai := ai\<rparr>) f = finding_meta env f"
  by (simp add: finding_meta_def Build_def extractIssueType_def)

text \<open>A finding whose signature has a summary gets it without a model.\<close>

lemma cached_hit:
  assumes "GetByID j (ag_findings st) = Some g" "trim_space (fd_Description g) = []" "sg_fail env = (\<lambda>_. None)"
    and "cached_summary (ag_cache st) (mt_Fingerprint (finding_meta env g)) = Some t" "trim_space t \<noteq> []"
    and "trim_space (text_col (fd_AISummary g)) = [] \<or> fd_AISummary g = Some t"
  shows "fst (Summarize env j st) = Inr t"
proof -
  have src: "GetSummarySource env j (ag_findings st) = Inr g" using assms(1,3) by (simp add: GetSummarySource_def)
  obtain c where c: "row_by kz_Fingerprint (mt_Fingerprint (finding_meta env g)) (ag_cache st) = Some c" "kz_Summary c = Some t"
    using assms(4) by (auto simp: cached_summary_def split: option.splits)
  have "PrepareAISummary env j st = (Inr \<lparr>py_Fingerprint = mt_Fingerprint (finding_meta env g), py_Summary = t, py_State = ''ready'', py_ShouldEnqueue = False\<rparr>,
      on_finding j (\<lambda>f. f\<lparr>fd_SummaryFP := Some (mt_Fingerprint (finding_meta env g)), fd_AISummary := Some t, fd_SummaryState := ''ready''\<rparr>) st)"
    using assms(2,3,5) by (simp add: PrepareAISummary_def src c text_col_def exec_def Let_def)
  then show ?thesis using assms(2,5,6) by (auto simp: Summarize_def src text_col_def)
qed

lemma Summarize_done:
  assumes "Summarize env i st = (Inr s, st')" "GetSummarySource env i (ag_findings st) = Inr src"
    and "trim_space (fd_Description src) = []" "trim_space (text_col (fd_AISummary src)) = []" "mt_Fingerprint (finding_meta env src) \<noteq> []"
  obtains p st1 where "PrepareAISummary env i st = (Inr p, st1)" "py_Fingerprint p = mt_Fingerprint (finding_meta env src)"
    and "trim_space (py_Summary p) \<noteq> [] \<and> s = py_Summary p \<and> st' = st1 \<or>
      (\<exists>text u. s = sanitizeSummary text \<and> trim_space (py_Summary p) = [] \<and> StoreAISummary env (py_Fingerprint p) s st1 = (Inr u, st'))"
proof -
  obtain r st1 where p: "PrepareAISummary env i st = (r, st1)" by fastforce
  note un = assms(1) [unfolded Summarize_def assms(2) sum.case p prod.case]
  obtain x where x: "r = Inr x" using un assms(3,4) by (cases r) simp_all
  have fp: "py_Fingerprint x = mt_Fingerprint (finding_meta env src)" using Prepare_done [OF _ assms(3,2)] p x by blast
  have "trim_space (py_Summary x) \<noteq> [] \<and> s = py_Summary x \<and> st' = st1 \<or>
      (\<exists>text u. s = sanitizeSummary text \<and> trim_space (py_Summary x) = [] \<and> StoreAISummary env (py_Fingerprint x) s st1 = (Inr u, st'))"
    using un assms(3,4,5) fp x
    by (cases "GenerateSummary (sg_ai env) summarySystemPrompt (buildSummaryPrompt src (finding_meta env src))")
      (auto simp: Let_def split: if_splits prod.splits sum.splits)
  then show ?thesis using that p x fp by blast
qed

text \<open>C18: One call of a model serves every finding of a signature: after a summary of one finding, the
  agent answers for any other finding of the same scanner, rule, title and issue type with the same
  text, whatever model would be asked.\<close>

theorem one_call_per_signature:
  assumes "summaries_ok st" "sg_fail env = (\<lambda>_. None)" "\<forall>x. sg_sha256_hex env x \<noteq> []"
    and "GetByID i (ag_findings st) = Some f" "trim_space (fd_Description f) = []" "trim_space (text_col (fd_AISummary f)) = []"
    and "GetByID j (ag_findings st) = Some g" "trim_space (fd_Description g) = []" "trim_space (text_col (fd_AISummary g)) = []"
    and "mt_Fingerprint (finding_meta env g) = mt_Fingerprint (finding_meta env f)"
    and "Summarize env i st = (Inr s, st')"
  shows "fst (Summarize (env\<lparr>sg_ai := ai\<rparr>) j st') = Inr (trim_space s)"
proof -
  let ?fp = "mt_Fingerprint (finding_meta env f)"
  have src: "GetSummarySource env i (ag_findings st) = Inr f" using assms(2,4) by (simp add: GetSummarySource_def)
  have "?fp \<noteq> []" using assms(3) by (simp add: finding_meta_def Build_def Let_def)
  from Summarize_done [OF assms(11) src assms(5,6) this] obtain p st1 where
    p: "PrepareAISummary env i st = (Inr p, st1)" "py_Fingerprint p = ?fp"
    and how: "trim_space (py_Summary p) \<noteq> [] \<and> s = py_Summary p \<and> st' = st1 \<or>
      (\<exists>text u. s = sanitizeSummary text \<and> trim_space (py_Summary p) = [] \<and> StoreAISummary env (py_Fingerprint p) s st1 = (Inr u, st'))"
    by blast
  from Prepare_done [OF p(1) assms(5) src] obtain h where
    h: "ag_findings st1 = update_where (\<lambda>r. fd_ID r = i) h (ag_findings st)"
      "\<And>r. fd_Description (h r) = fd_Description r \<and> finding_meta env (h r) = finding_meta env r \<and> fd_ID (h r) = fd_ID r \<and>
        (fd_AISummary (h r) = fd_AISummary r \<or> fd_AISummary (h r) = Some (py_Summary p))"
    and cached1: "trim_space (py_Summary p) \<noteq> [] \<longrightarrow> cached_summary (ag_cache st1) ?fp = Some (py_Summary p)" by blast
  have ok1: "summaries_ok st1" using Prepare_ok [OF assms(1), of env i] p(1) by simp
  have j1: "\<exists>g1. GetByID j (ag_findings st1) = Some g1 \<and> fd_Description g1 = fd_Description g \<and> finding_meta env g1 = finding_meta env g \<and>
      (fd_AISummary g1 = fd_AISummary g \<or> fd_AISummary g1 = Some (py_Summary p))"
    using assms(7) h(2) unfolding GetByID_def h(1) by (subst row_by_update_where) (auto simp: h(2))
  then obtain g1 where g1: "GetByID j (ag_findings st1) = Some g1" "fd_Description g1 = fd_Description g" "finding_meta env g1 = finding_meta env g"
    "fd_AISummary g1 = fd_AISummary g \<or> fd_AISummary g1 = Some (py_Summary p)" by blast
  have "\<exists>g2. GetByID j (ag_findings st') = Some g2 \<and> fd_Description g2 = fd_Description g \<and> finding_meta env g2 = finding_meta env g \<and>
      (trim_space (text_col (fd_AISummary g2)) = [] \<or> fd_AISummary g2 = Some (trim_space s)) \<and>
      cached_summary (ag_cache st') ?fp = Some (trim_space s) \<and> trim_space s \<noteq> []"
    using how
  proof (elim disjE conjE exE)
    assume a: "trim_space (py_Summary p) \<noteq> []" "s = py_Summary p" "st' = st1"
    then have c: "cached_summary (ag_cache st1) ?fp = Some s" using cached1 by simp
    then have "trim_space s = s" using ok1
      by (auto simp: cached_summary_def summaries_ok_def list_all_iff cache_row_ok_def dest!: row_by_SomeD split: option.splits)
    then show ?thesis using a c g1 assms(9) by auto
  next
    fix answer u
    assume a: "trim_space (py_Summary p) = []" "StoreAISummary env (py_Fingerprint p) s st1 = (Inr u, st')"
    let ?g = "\<lambda>f. f\<lparr>fd_AISummary := Some (trim_space s), fd_SummaryState := ''ready''\<rparr>"
    note stored = Store_done [OF a(2)]
    have "GetByID j (ag_findings st') = Some (if fd_SummaryFP g1 = Some (py_Fingerprint p) then ?g g1 else g1)"
      using g1(1) stored unfolding GetByID_def by (simp add: row_by_update_where)
    moreover have "finding_meta env (?g g1) = finding_meta env g1" by (simp add: finding_meta_def)
    moreover have "trim_space (text_col (fd_AISummary g1)) = []" using g1(4) a(1) assms(9) by (auto simp: text_col_def)
    ultimately show ?thesis using g1 stored p(2) by auto
  qed
  then obtain g2 where g2: "GetByID j (ag_findings st') = Some g2" "fd_Description g2 = fd_Description g" "finding_meta env g2 = finding_meta env g"
    "trim_space (text_col (fd_AISummary g2)) = [] \<or> fd_AISummary g2 = Some (trim_space s)"
    "cached_summary (ag_cache st') ?fp = Some (trim_space s)" "trim_space s \<noteq> []" by blast
  show ?thesis
    using cached_hit [of j st' g2 "env\<lparr>sg_ai := ai\<rparr>" "trim_space s"] g2 assms(2,8,10) by simp
qed

text \<open>A request that the queue refuses leaves the finding stuck: it stays marked as pending, and every
  later request of its summary is answered with that, without a task for it.\<close>

theorem summary_request_stuck:
  assumes "finding_there env i st = Some f" "fd_SummaryState f \<notin> {''pending'', ''ready''}" "trim_space (fd_Description f) = []"
    and "sg_fail env = (\<lambda>_. None)" "row_by kz_Fingerprint (mt_Fingerprint (finding_meta env f)) (ag_cache st) = None" "sg_limit env < 0" "\<forall>x. \<not> sg_accept env x"
    and "RequestFindingSummary env i st = (r, st')" "sg_fail env' ''findings.GetByID'' = None"
  shows "r = Inl (500, ''failed to enqueue summary'') \<and> ag_queue st' = ag_queue st \<and>
    RequestFindingSummary env' i st' = (Inr ''pending'', st')"
proof -
  let ?fp = "mt_Fingerprint (finding_meta env f)"
  let ?g = "\<lambda>f. f\<lparr>fd_SummaryFP := Some ?fp, fd_SummaryState := ''pending''\<rparr>"
  have f: "GetByID i (ag_findings st) = Some f" using assms(1,4) by (simp add: finding_there_def)
  then have src: "GetSummarySource env i (ag_findings st) = Inr f" using assms(4) by (simp add: GetSummarySource_def)
  have p: "PrepareAISummary env i st = (Inr \<lparr>py_Fingerprint = ?fp, py_Summary = [], py_State = ''pending'', py_ShouldEnqueue = True\<rparr>,
      on_finding i ?g (st\<lparr>ag_cache := ag_cache st @ [\<lparr>kz_Fingerprint = ?fp, kz_Scanner = fd_Scanner f, kz_RuleID = fd_RuleID f, kz_Title = fd_Title f,
        kz_IssueType = mt_IssueType (finding_meta env f), kz_Status = ''pending'', kz_Summary = None\<rparr>]\<rparr>))"
    using assms(3,4,5) by (simp add: PrepareAISummary_def src exec_def Let_def)
  have limit: "checkAIScanLimit env st = (None, st)" using assms(6) by (simp add: checkAIScanLimit_def)
  have r: "r = Inl (500, ''failed to enqueue summary'')" "ag_queue st' = ag_queue st"
    "ag_findings st' = update_where (\<lambda>r. fd_ID r = i) ?g (ag_findings st)"
    using assms(2,7,8) unfolding RequestFindingSummary_def assms(1) option.case limit prod.case p
    by (auto simp: enqueue_agent_def on_finding_def Let_def)
  have "GetByID i (ag_findings st') = Some (if fd_ID f = i then ?g f else f)"
    using f unfolding GetByID_def r(3) by (simp add: row_by_update_where)
  moreover have "fd_ID f = i" using f row_by_SomeD unfolding GetByID_def by metis
  ultimately have "finding_there env' i st' = Some (?g f)" using assms(9) by (simp add: finding_there_def)
  then show ?thesis using r by (simp add: RequestFindingSummary_def)
qed

lemma canonical_pair: "canonicalPair a b = (x, y) \<Longrightarrow> x \<le> y"
  by (auto simp: canonicalPair_def split: if_splits)

lemma canonical_insert: "canonical corr \<Longrightarrow> canonical (insert_correlations i ms corr)"
proof (induction ms arbitrary: corr)
  case (Cons m ms)
  obtain a b where p: "canonicalPair i m = (a, b)" by fastforce
  have "canonical (upsert_correlation a b corr)"
    using Cons.prems canonical_pair [OF p]
    by (auto simp: upsert_correlation_def canonical_def intro: list_all_update_where)
  then show ?case using Cons.IH by (simp add: p)
qed simp

lemma canonical_replace: "canonical corr \<Longrightarrow> canonical (replaceCorrelationSet i ms corr)"
  unfolding replaceCorrelationSet_def by (rule canonical_insert) (auto simp: canonical_def list_all_iff)

lemma findings_with_ids: "fd_ID ` set (findings_with rows is) \<subseteq> set is"
  by (induction rows "is" rule: findings_with.induct) (auto simp: GetByID_def dest: row_by_SomeD split: option.splits)

lemma correlated_pair:
  assumes "canonical corr" "x \<in> set corr" "involves i x" "other_end i x = c"
  shows "\<exists>y\<in>set corr. (cr_A y, cr_B y) = canonicalPair i c"
proof (intro bexI [of _ x] assms(2))
  have "cr_A x \<le> cr_B x" using assms(1,2) by (auto simp: canonical_def list_all_iff)
  then show "(cr_A x, cr_B x) = canonicalPair i c"
    using assms(3,4) by (auto simp: involves_def other_end_def canonicalPair_def split: if_splits)
qed

lemma InsertCorrelations_known:
  assumes "\<And>c. c \<in> set cs \<Longrightarrow> \<exists>y\<in>set corr. (cr_A y, cr_B y) = canonicalPair i c"
  shows "snd (InsertCorrelations env rows i cs typ corr) = corr"
  using assms
proof (induction cs)
  case (Cons c cs)
  obtain a b where p: "canonicalPair i c = (a, b)" by fastforce
  have "list_ex (\<lambda>x. cr_A x = a \<and> cr_B x = b) corr" using Cons.prems [of c] p by (auto simp: list_ex_iff)
  then show ?case using Cons.IH Cons.prems by (simp add: p split: option.split)
qed simp

lemma validate_accepts:
  "validateValidationResult r correlated = None \<longleftrightarrow> 0 \<le> vx_Confidence r \<and> vx_Confidence r \<le> 1 \<and>
     vx_FPLikelihood r \<in> {''low'', ''medium'', ''high''} \<and> trim_space (vx_Reasoning r) \<noteq> [] \<and> set (vx_CorrelatedIDs r) \<subseteq> fd_ID ` set correlated"
proof -
  have "find (\<lambda>c. c \<notin> fd_ID ` set correlated) (vx_CorrelatedIDs r) = None \<longleftrightarrow> set (vx_CorrelatedIDs r) \<subseteq> fd_ID ` set correlated"
    by (auto simp: find_None_iff)
  then show ?thesis unfolding validateValidationResult_def not_less [symmetric] by (auto split: option.split)
qed

lemma Upsert_corr: "UpsertAnalysis env i ty r st = (x, st1) \<Longrightarrow> ag_corr st1 = ag_corr st"
  by (auto simp: UpsertAnalysis_def Let_def split: option.splits if_splits)

text \<open>The pairs that the validation agent confirms are never stored: a confirmed finding must be one that
  a stored pair of the same batch or signal already leads to, pairs are stored with the smaller
  identifier first, and the insertion leaves a stored pair as it is.\<close>

theorem same_signal_never_stored:
  assumes "canonical (ag_corr st)"
  shows "ag_corr (snd (Analyze env prompt i st)) = ag_corr st \<and> canonical (replaceCorrelationSet k ms (ag_corr st))"
proof
  show "canonical (replaceCorrelationSet k ms (ag_corr st))" by (rule canonical_replace [OF assms])
  have known: "\<exists>y\<in>set (ag_corr st). (cr_A y, cr_B y) = canonicalPair i c"
    if "GetCorrelatedFindings env i st = Inr fs" "validateValidationResult r fs = None" "c \<in> set (vx_CorrelatedIDs r)" for fs r c
  proof -
    have "c \<in> fd_ID ` set fs" using that(2,3) by (auto simp: validate_accepts)
    then have "c \<in> fd_ID ` set (findings_with (ag_findings st)
        (remdups (map (other_end i) (filter (\<lambda>c. signal_type c \<and> involves i c) (ag_corr st)))))"
      using that(1) by (auto simp: GetCorrelatedFindings_def split: option.splits if_splits dest!: in_set_takeD)
    then have "c \<in> set (remdups (map (other_end i) (filter (\<lambda>c. signal_type c \<and> involves i c) (ag_corr st))))"
      by (rule subsetD [OF findings_with_ids])
    then obtain x where "x \<in> set (ag_corr st)" "involves i x" "other_end i x = c" by auto
    then show ?thesis using correlated_pair [OF assms] by blast
  qed
  show "ag_corr (snd (Analyze env prompt i st)) = ag_corr st"
    by (auto simp: Analyze_def InsertCorrelations_known known dest: Upsert_corr split: option.split sum.split prod.split)
qed

text \<open>What is stored of a judgement is within its bounds, whatever the model answers: a confidence from
  0 to 1, one of three likelihoods and a reason; a finding keeps one judgement of an agent, and an
  answer that is refused leaves the state as it was.\<close>

theorem analysis_accepted:
  assumes "Analyze env prompt i st = (r, st')" "distinct (map (\<lambda>a. (aa_FindingID a, aa_AgentType a)) (ag_analyses st))"
  shows "distinct (map (\<lambda>a. (aa_FindingID a, aa_AgentType a)) (ag_analyses st')) \<and>
    (case r of Inl e \<Rightarrow> st' = st
     | Inr a \<Rightarrow> a \<in> set (ag_analyses st') \<and> aa_FindingID a = i \<and> aa_AgentType a = ''validator'' \<and> 0 \<le> aa_Confidence a \<and> aa_Confidence a \<le> 1 \<and>
         aa_FPLikelihood a \<in> {''low'', ''medium'', ''high''} \<and> trim_space (aa_Reasoning a) \<noteq> [])"
proof -
  let ?key = "\<lambda>a. (aa_FindingID a, aa_AgentType a)"
  have upsert: "distinct (map ?key (ag_analyses st1)) \<and> (case x of Inl e \<Rightarrow> st1 = st
     | Inr a \<Rightarrow> a \<in> set (ag_analyses st1) \<and> ?key a = (i, ''validator'') \<and> aa_Confidence a = vx_Confidence v \<and>
         aa_FPLikelihood a = vx_FPLikelihood v \<and> aa_Reasoning a = vx_Reasoning v)"
    if up: "UpsertAnalysis env i ''validator'' v st = (x, st1)" for v x st1
  proof (cases "find (\<lambda>a. aa_FindingID a = i \<and> aa_AgentType a = ''validator'') (ag_analyses st)")
    case None
    then have "(i, ''validator'') \<notin> ?key ` set (ag_analyses st)" by (auto simp: find_None_iff)
    then show ?thesis using up None assms(2) by (auto simp: UpsertAnalysis_def Let_def split: option.splits if_splits)
  next
    case (Some a)
    then have a: "a \<in> set (ag_analyses st)" "?key a = (i, ''validator'')" by (auto simp: find_Some_iff)
    let ?f = "\<lambda>a. a\<lparr>aa_Confidence := vx_Confidence v, aa_FPLikelihood := vx_FPLikelihood v, aa_Reasoning := vx_Reasoning v,
        aa_RawOutput := sg_marshal env v, aa_UpdatedAt := sg_now env\<rparr>"
    let ?rows = "update_where (\<lambda>a. aa_FindingID a = i \<and> aa_AgentType a = ''validator'') ?f (ag_analyses st)"
    have "?f a \<in> set ?rows" unfolding set_update_where using a by (auto intro!: image_eqI [of _ _ a])
    moreover have "map ?key ?rows = map ?key (ag_analyses st)" by (rule map_update_where) simp
    ultimately show ?thesis using up Some a(2) assms(2) by (auto simp: UpsertAnalysis_def Let_def split: option.splits if_splits)
  qed
  show ?thesis using assms upsert
    by (auto simp: Analyze_def validate_accepts split: option.splits sum.splits prod.splits dest!: upsert)
qed

text \<open>Asking for the summary of a finding that has a description costs one request of the monthly
  quota each time, although no summary is made: the state of the finding stays, and the task that is
  queued answers with the description, whatever model is configured.\<close>

theorem described_summary_costs:
  assumes "finding_there env i st = Some f" "fd_SummaryState f = ''none''" "trim_space (fd_Description f) \<noteq> []"
    and "sg_fail env = (\<lambda>_. None)" "0 < sg_limit env" "ag_usage st (sg_month env) = Some v" "v < sg_limit env" "\<forall>x. sg_accept env x"
    and "RequestFindingSummary env i st = (r, st')"
  shows "r = Inr ''queued'' \<and> ag_usage st' (sg_month env) = Some (v + 1) \<and> finding_there env i st' = Some f \<and>
    fst (Summarize (env\<lparr>sg_ai := ai\<rparr>) i st') = Inr (fd_Description f)"
proof -
  let ?u = "(ag_usage st)(sg_month env \<mapsto> v + 1)"
  have limit: "checkAIScanLimit env st = (None, st\<lparr>ag_usage := ?u\<rparr>)"
    using assms(4,5,6,7) by (simp add: checkAIScanLimit_def IncrementAIScan_def)
  have f: "GetByID i (ag_findings st) = Some f" "fd_ID f = i"
    using assms(1,4) row_by_SomeD unfolding finding_there_def GetByID_def by fastforce+
  let ?g = "fd_SummaryState_update (\<lambda>_. ''none'')"
  have "PrepareAISummary env i (st\<lparr>ag_usage := ?u\<rparr>) =
      (Inr \<lparr>py_Fingerprint = [], py_Summary = [], py_State = ''none'', py_ShouldEnqueue = False\<rparr>, on_finding i ?g (st\<lparr>ag_usage := ?u\<rparr>))"
    using assms(3,4) f by (simp add: PrepareAISummary_def GetSummarySource_def exec_def)
  then have r: "r = Inr ''queued''" "ag_usage st' = ?u" "ag_findings st' = update_where (\<lambda>r. fd_ID r = i) ?g (ag_findings st)"
    using assms(8,9) unfolding RequestFindingSummary_def assms(1) option.case limit prod.case assms(2)
    by (auto simp: enqueue_agent_def on_finding_def Let_def)
  have "GetByID i (ag_findings st') = Some (?g f)" using f unfolding GetByID_def r(3) by (simp add: row_by_update_where)
  moreover have "?g f = f" using assms(2) by simp
  ultimately have "GetByID i (ag_findings st') = Some f" by simp
  then show ?thesis using r assms(3,4) by (simp add: finding_there_def Summarize_def GetSummarySource_def)
qed

section \<open>Instances\<close>

definition sample_bare :: "string \<Rightarrow> string \<Rightarrow> finding" where
  "sample_bare i desc = new_finding i 0 \<lparr>fi_ScanID = ''s1'', fi_Scanner = ''kics'', fi_RuleID = ''r1'', fi_Title = ''Open bucket'', fi_Description = desc,
     fi_Severity = ''high'', fi_FilePath = i, fi_LineStart = 1, fi_LineEnd = 1, fi_CodeSnippet = [], fi_Raw = [], fi_SLADeadline = None, fi_CVEID = None,
     fi_CWEID = None, fi_Suppressed = False, fi_SecretHash = [], fi_ProjectID = ''p1'', fi_Fingerprint = i, fi_PkgName = [], fi_PkgVersion = []\<rparr>"

definition sample_agents :: agent_env where
  "sample_agents = \<lparr>sg_now = 7, sg_fail = (\<lambda>_. None), sg_sha256_hex = (\<lambda>x. CHR ''h'' # x), sg_issue = (\<lambda>_. None), sg_ai = sample_ai,
     sg_decode = (\<lambda>s _. (None, \<lparr>vx_Confidence = 1/2, vx_FPLikelihood = ''low'', vx_Reasoning = ''reachable'', vx_CorrelatedIDs = [''f2'']\<rparr>)),
     sg_marshal = (\<lambda>_. ''{}''), sg_accept = (\<lambda>_. True), sg_limit = 5, sg_month = ''2026-1''\<rparr>"

definition sample_agent_state :: agent_state where
  "sample_agent_state = \<lparr>ag_findings = [sample_bare ''f1'' [], sample_bare ''f2'' [], sample_bare ''f3'' ''Leaks''], ag_cache = [],
     ag_corr = [\<lparr>cr_A = ''f1'', cr_B = ''f2'', cr_Type = same_family_batch\<rparr>], ag_analyses = [], ag_usage = (\<lambda>m. Some 0), ag_queue = [], ag_events = []\<rparr>"

lemma sample_agent_findings [simp]: "ag_findings sample_agent_state = [sample_bare ''f1'' [], sample_bare ''f2'' [], sample_bare ''f3'' ''Leaks'']"
  "ag_cache sample_agent_state = []" "ag_usage sample_agent_state m = Some 0" "ag_analyses sample_agent_state = []"
  by (simp_all add: sample_agent_state_def)

lemma sample_agents_sels [simp]: "sg_fail sample_agents = (\<lambda>_. None)" "sg_sha256_hex sample_agents x = CHR ''h'' # x" "sg_limit sample_agents = 5"
  "sg_accept sample_agents q = True" "sg_month sample_agents = ''2026-1''"
  by (simp_all add: sample_agents_def)

lemma sample_bare_sels [simp]: "fd_ID (sample_bare i d) = i" "fd_Description (sample_bare i d) = d" "fd_SummaryState (sample_bare i d) = ''none''"
  "fd_AISummary (sample_bare i d) = None" "finding_meta env (sample_bare i d) = Build env ''kics'' ''r1'' ''Open bucket'' []"
  by (simp_all add: sample_bare_def new_finding_def finding_meta_def)

lemma sample_summaries_ok: "summaries_ok sample_agent_state"
  by (simp add: summaries_ok_def summary_row_ok_def)

theorem summaries_invariant_witness:
  "summaries_ok (snd (RequestFindingSummary sample_agents ''f1'' sample_agent_state))"
  by (rule summaries_invariant [OF sample_summaries_ok r_into_rtranclp [where r = agent_step, OF step_request]])

theorem one_call_per_signature_witness:
  "\<exists>s st'. Summarize sample_agents ''f1'' sample_agent_state = (Inr s, st') \<and>
     fst (Summarize (sample_agents\<lparr>sg_ai := sample_ai\<lparr>ay_key := []\<rparr>\<rparr>) ''f2'' st') = Inr (trim_space s)"
proof -
  let ?r = "Summarize sample_agents ''f1'' sample_agent_state"
  have "case fst ?r of Inr _ \<Rightarrow> True | Inl _ \<Rightarrow> False" by code_simp
  then obtain s where "fst ?r = Inr s" by (cases "fst ?r") auto
  then obtain st' where r: "?r = (Inr s, st')" by (cases ?r) simp
  have "fst (Summarize (sample_agents\<lparr>sg_ai := sample_ai\<lparr>ay_key := []\<rparr>\<rparr>) ''f2'' st') = Inr (trim_space s)"
    using one_call_per_signature [OF sample_summaries_ok _ _ _ _ _ _ _ _ _ r, of "sample_bare ''f1'' []" "''f2''" "sample_bare ''f2'' []"]
    by (simp add: GetByID_def text_col_def)
  then show ?thesis using r by blast
qed

theorem summary_request_stuck_witness:
  "let env = sample_agents\<lparr>sg_limit := - 1, sg_accept := \<lambda>_. False\<rparr>; st' = snd (RequestFindingSummary env ''f1'' sample_agent_state)
   in RequestFindingSummary sample_agents ''f1'' st' = (Inr ''pending'', st')"
  using summary_request_stuck [OF _ _ _ _ _ _ _ surjective_pairing, of "sample_agents\<lparr>sg_limit := - 1, sg_accept := \<lambda>_. False\<rparr>" "''f1''" sample_agent_state
      "sample_bare ''f1'' []" sample_agents]
  by (simp add: finding_there_def GetByID_def Let_def)

lemma sample_canonical: "canonical (ag_corr sample_agent_state)"
  by code_simp

theorem same_signal_never_stored_witness:
  "ag_corr (snd (Analyze sample_agents [] ''f1'' sample_agent_state)) = ag_corr sample_agent_state"
  using same_signal_never_stored [OF sample_canonical, of sample_agents "[]" "''f1''" "''f1''" "[]"] by simp

theorem analysis_accepted_witness:
  "\<exists>a st'. Analyze sample_agents [] ''f1'' sample_agent_state = (Inr a, st') \<and> a \<in> set (ag_analyses st') \<and> aa_Confidence a \<le> 1"
proof -
  let ?r = "Analyze sample_agents [] ''f1'' sample_agent_state"
  have "case fst ?r of Inr _ \<Rightarrow> True | Inl _ \<Rightarrow> False" by code_simp
  then obtain a where "fst ?r = Inr a" by (cases "fst ?r") auto
  then obtain st' where r: "?r = (Inr a, st')" by (cases ?r) simp
  show ?thesis using analysis_accepted [OF r] r by auto
qed

theorem described_summary_costs_witness:
  "ag_usage (snd (RequestFindingSummary sample_agents ''f3'' sample_agent_state)) ''2026-1'' = Some 1"
proof -
  have "trim_space ''Leaks'' \<noteq> []" by code_simp
  then show ?thesis
    using described_summary_costs [OF _ _ _ _ _ _ _ _ surjective_pairing, of sample_agents "''f3''" sample_agent_state "sample_bare ''f3'' ''Leaks''" 0]
    by (simp add: finding_there_def GetByID_def)
qed

end
