(* ===== verification/Collab_Notes.thy ===== *)
theory Collab_Notes
  imports Api_Tokens
begin

text \<open>
  What users tell each other: notifications (\<^verbatim>\<open>src/internal/repository/notification.go\<close>,
  \<^verbatim>\<open>handlers/notifications.go\<close>), comments with their mentions (\<^verbatim>\<open>repository/comments.go\<close>,
  \<^verbatim>\<open>handlers/comments.go\<close>), teams (\<^verbatim>\<open>repository/team.go\<close>, \<^verbatim>\<open>handlers/teams.go\<close>), and the audit log and
  risk acceptances (\<^verbatim>\<open>repository/audit.go\<close>, \<^verbatim>\<open>handlers/audit.go\<close>).  Rows stand in the order of
  their creation, so that the newest first is the reverse of the table.  Handlers read the
  parameters of their route by name, an absent one as the empty text.
\<close>

section \<open>State and environment\<close>

record comment_row =
  fc_ID :: int
  fc_FindingID :: string
  fc_UserID :: string
  fc_Content :: string

record team_row =
  te_ID :: string
  te_Name :: string

record risk_row =
  ra_ID :: string
  ra_FindingID :: string
  ra_UserID :: string
  ra_Rationale :: string
  ra_ExpiresAt :: int
  ra_ApprovedBy :: "string option"
  ra_ApprovedAt :: "int option"
  ra_Status :: string
  ra_ReviewNotes :: "string option"

record collab_state =
  cb_access :: access_state
  cb_findings :: "finding list"
  cb_comments :: "comment_row list"
  cb_next_comment :: int
  cb_teams :: "team_row list"
  cb_members :: members
  cb_apps :: "app_row list"
  cb_risks :: "risk_row list"

text \<open>\<open>co_escape\<close> is \<^verbatim>\<open>url.QueryEscape\<close>, \<open>co_parse_time\<close> is \<^verbatim>\<open>time.Parse\<close> for RFC 3339, \<open>co_months\<close>
  adds months to a time.\<close>

record collab_env =
  co_access :: access_env
  co_uuid_ok :: "string \<Rightarrow> bool"
  co_frontend :: string
  co_escape :: "string \<Rightarrow> string"
  co_parse_time :: "string \<Rightarrow> int option"
  co_months :: "int \<Rightarrow> int \<Rightarrow> int"
  co_team_id :: "team_row list \<Rightarrow> string"
  co_risk_id :: "risk_row list \<Rightarrow> string"

abbreviation "co_fail env \<equiv> ax_fail (co_access env)"
abbreviation "co_now env \<equiv> ax_now (co_access env)"

definition go_int64 :: "int \<Rightarrow> int" where
  "go_int64 x = (x + 9223372036854775808) mod 18446744073709551616 - 9223372036854775808"

text \<open>A page of a result: \<^verbatim>\<open>LIMIT\<close> and \<^verbatim>\<open>OFFSET\<close>, the offset computed by the server in 64 bits.  The
  database refuses a negative offset.\<close>

definition page_of :: "int \<Rightarrow> int \<Rightarrow> 'a list \<Rightarrow> string + 'a list" where
  "page_of page limit rows =
     (let off = go_int64 (go_int64 (page - 1) * limit) in
      if off < 0 then Inl ''OFFSET must not be negative'' else Inr (take (nat limit) (drop (nat off) rows)))"

section \<open>Notifications\<close>

record note_create =
  nc_UserID :: string
  nc_Title :: string
  nc_Message :: string
  nc_Type :: string
  nc_EntityType :: "string option"
  nc_EntityID :: "string option"
  nc_AISummary :: string

definition Note_Create :: "access_env \<Rightarrow> note_create \<Rightarrow> notification list \<Rightarrow> (string + notification) \<times> notification list" where
  "Note_Create env n rows =
     (case ax_fail env ''notifications.Create'' of
        Some e \<Rightarrow> (Inl (''create notification: '' @ e), rows)
      | None \<Rightarrow>
        (let note = \<lparr>nt_ID = ax_note_id env rows, nt_UserID = nc_UserID n, nt_Title = nc_Title n, nt_Message = nc_Message n,
             nt_Type = nc_Type n, nt_EntityType = nc_EntityType n, nt_EntityID = nc_EntityID n, nt_Read = False,
             nt_AISummary = nc_AISummary n\<rparr>
         in (Inr note, rows @ [note])))"

definition note_visible :: "string \<Rightarrow> bool option \<Rightarrow> notification \<Rightarrow> bool" where
  "note_visible user read_filter n \<longleftrightarrow> nt_UserID n = user \<and> (case read_filter of None \<Rightarrow> True | Some b \<Rightarrow> nt_Read n = b)"

definition Note_List :: "access_env \<Rightarrow> string \<Rightarrow> bool option \<Rightarrow> int \<Rightarrow> int \<Rightarrow> notification list \<Rightarrow> string + notification list \<times> nat" where
  "Note_List env user read_filter page limit rows =
     (case ax_fail env ''notifications.List'' of
        Some e \<Rightarrow> Inl (''count notifications: '' @ e)
      | None \<Rightarrow>
        (let mine = filter (note_visible user read_filter) rows in
         if limit > 0 then
           (case page_of page limit (rev mine) of Inl e \<Rightarrow> Inl (''list notifications: '' @ e) | Inr p \<Rightarrow> Inr (p, length mine))
         else Inr (rev mine, length mine)))"

definition MarkAsRead :: "access_env \<Rightarrow> string \<Rightarrow> string \<Rightarrow> notification list \<Rightarrow> string option \<times> notification list" where
  "MarkAsRead env i user rows =
     (case ax_fail env ''notifications.MarkAsRead'' of
        Some e \<Rightarrow> (Some (''mark as read: '' @ e), rows)
      | None \<Rightarrow>
        (if list_ex (\<lambda>n. nt_ID n = i \<and> nt_UserID n = user) rows
         then (None, update_where (\<lambda>n. nt_ID n = i \<and> nt_UserID n = user) (\<lambda>n. n\<lparr>nt_Read := True\<rparr>) rows)
         else (Some ''notification not found'', rows)))"

definition MarkAllAsRead :: "access_env \<Rightarrow> string \<Rightarrow> notification list \<Rightarrow> string option \<times> notification list" where
  "MarkAllAsRead env user rows =
     (case ax_fail env ''notifications.MarkAllAsRead'' of
        Some e \<Rightarrow> (Some (''mark all as read: '' @ e), rows)
      | None \<Rightarrow> (None, update_where (\<lambda>n. nt_UserID n = user \<and> \<not> nt_Read n) (\<lambda>n. n\<lparr>nt_Read := True\<rparr>) rows))"

definition GetUnreadCount :: "access_env \<Rightarrow> string \<Rightarrow> notification list \<Rightarrow> string + nat" where
  "GetUnreadCount env user rows =
     (case ax_fail env ''notifications.GetUnreadCount'' of
        Some e \<Rightarrow> Inl (''get unread count: '' @ e)
      | None \<Rightarrow> Inr (length (filter (\<lambda>n. nt_UserID n = user \<and> \<not> nt_Read n) rows)))"

text \<open>The handlers; \<open>q\<close> is the query of the request.\<close>

definition GetNotifications :: "access_env \<Rightarrow> claims option \<Rightarrow> (string \<Rightarrow> string) \<Rightarrow> notification list \<Rightarrow> (notification list \<times> nat) reply" where
  "GetNotifications env who q rows =
     (let page = fst (atoi (q ''page'')); page = (if page < 1 then 1 else page);
          limit = fst (atoi (q ''limit'')); limit = (if limit < 1 then 20 else limit)
      in case who of
           None \<Rightarrow> Inl (401, ''unauthorized'')
         | Some c \<Rightarrow>
           (case Note_List env (cm_UserID c) (if q ''read'' \<noteq> [] then Some (q ''read'' = ''true'') else None) page limit rows of
              Inl e \<Rightarrow> Inl (500, ''failed to get notifications'')
            | Inr r \<Rightarrow> Inr r))"

definition MarkNotificationAsRead :: "access_env \<Rightarrow> claims option \<Rightarrow> string \<Rightarrow> notification list \<Rightarrow> unit reply \<times> notification list" where
  "MarkNotificationAsRead env who i rows =
     (case who of
        None \<Rightarrow> (Inl (401, ''unauthorized''), rows)
      | Some c \<Rightarrow> (case MarkAsRead env i (cm_UserID c) rows of
          (Some e, rows') \<Rightarrow> (Inl (404, ''notification not found''), rows')
        | (None, rows') \<Rightarrow> (Inr (), rows')))"

definition MarkAllNotificationsAsRead :: "access_env \<Rightarrow> claims option \<Rightarrow> notification list \<Rightarrow> unit reply \<times> notification list" where
  "MarkAllNotificationsAsRead env who rows =
     (case who of
        None \<Rightarrow> (Inl (401, ''unauthorized''), rows)
      | Some c \<Rightarrow> (case MarkAllAsRead env (cm_UserID c) rows of
          (Some e, rows') \<Rightarrow> (Inl (500, ''failed to mark all as read''), rows')
        | (None, rows') \<Rightarrow> (Inr (), rows')))"

definition GetUnreadNotificationCount :: "access_env \<Rightarrow> claims option \<Rightarrow> notification list \<Rightarrow> nat reply" where
  "GetUnreadNotificationCount env who rows =
     (case who of
        None \<Rightarrow> Inl (401, ''unauthorized'')
      | Some c \<Rightarrow> (case GetUnreadCount env (cm_UserID c) rows of
          Inl e \<Rightarrow> Inl (500, ''failed to get unread count'') | Inr n \<Rightarrow> Inr n))"

section \<open>Mentions\<close>

definition word_char :: "char \<Rightarrow> bool" where
  "word_char c \<longleftrightarrow> (let n = (of_char c :: nat) in is_digit c \<or> 65 \<le> n \<and> n \<le> 90 \<or> 97 \<le> n \<and> n \<le> 122 \<or> n = 95)"

definition re_space :: "char \<Rightarrow> bool" where
  "re_space c \<longleftrightarrow> c \<in> {CHR 0x09, CHR 0x0A, CHR 0x0C, CHR 0x0D, CHR 0x20}"

text \<open>The group of the pattern \<^verbatim>\<open>(?:^|\s)@(\w{2,39})\<close>, greedy: the name after an at sign.\<close>

definition mention_name :: "string \<Rightarrow> string option" where
  "mention_name s =
     (case s of [] \<Rightarrow> None
      | c # r \<Rightarrow> (let w = takeWhile word_char r in if c = CHR ''@'' \<and> 2 \<le> length w then Some (take 39 w) else None))"

text \<open>\<^verbatim>\<open>FindAllStringSubmatch\<close>: the leftmost match, then on after its end.\<close>

function mentions_from :: "bool \<Rightarrow> string \<Rightarrow> string list" where
  "mentions_from start [] = []"
| "mentions_from start (c # s) =
     (case (if start then mention_name (c # s) else None) of
        Some u \<Rightarrow> u # mentions_from False (drop (length u) s)
      | None \<Rightarrow>
        (case (if re_space c then mention_name s else None) of
           Some u \<Rightarrow> u # mentions_from False (drop (1 + length u) s)
         | None \<Rightarrow> mentions_from False s))"
  by pat_completeness auto
termination by (relation "measure (\<lambda>(_, s). length s)") auto

fun unique_names :: "string list \<Rightarrow> string list \<Rightarrow> string list" where
  "unique_names seen [] = seen"
| "unique_names seen (u # us) = unique_names (if u \<in> set seen then seen else seen @ [u]) us"

definition extractMentions :: "string \<Rightarrow> string list" where
  "extractMentions content = unique_names [] (mentions_from True content)"

section \<open>Comments\<close>

definition GetFindingComments_rows :: "collab_env \<Rightarrow> string \<Rightarrow> collab_state \<Rightarrow> string + (comment_row \<times> string) list" where
  "GetFindingComments_rows env findingID st =
     (case co_fail env ''comments.List'' of
        Some e \<Rightarrow> Inl (''get finding comments: '' @ e)
      | None \<Rightarrow>
        if \<not> co_uuid_ok env findingID then Inl ''get finding comments: invalid input syntax for type uuid''
        else Inr [(c, us_Username u). c \<leftarrow> filter (\<lambda>c. fc_FindingID c = findingID) (cb_comments st),
                                      u \<leftarrow> filter (\<lambda>u. us_ID u = fc_UserID c) (xs_users (cb_access st))])"

text \<open>The insertion refuses what is not an identifier, an unknown finding or user, and an empty text.  The
  author is read in a second query, after the row is there.\<close>

definition CreateFindingComment_row ::
  "collab_env \<Rightarrow> string \<Rightarrow> string \<Rightarrow> string \<Rightarrow> collab_state \<Rightarrow> (string + comment_row \<times> string) \<times> collab_state" where
  "CreateFindingComment_row env findingID userID content st =
     (case co_fail env ''comments.Create'' of
        Some e \<Rightarrow> (Inl (''create comment: '' @ e), st)
      | None \<Rightarrow>
        if \<not> co_uuid_ok env findingID \<or> \<not> co_uuid_ok env userID then (Inl ''create comment: invalid input syntax for type uuid'', st)
        else if content = [] \<or> row_by fd_ID findingID (cb_findings st) = None \<or> row_by us_ID userID (xs_users (cb_access st)) = None
          then (Inl ''create comment: violates constraint'', st)
        else (let c = \<lparr>fc_ID = cb_next_comment st, fc_FindingID = findingID, fc_UserID = userID, fc_Content = content\<rparr>;
            st1 = st\<lparr>cb_comments := cb_comments st @ [c], cb_next_comment := cb_next_comment st + 1\<rparr>
          in case User_GetByID (ax_user (co_access env)) userID (xs_users (cb_access st1)) of
               Inl _ \<Rightarrow> (Inl ''get username'', st1)
             | Inr u \<Rightarrow> (Inr (c, us_Username u), st1)))"

definition DeleteFindingComment_row :: "collab_env \<Rightarrow> int \<Rightarrow> collab_state \<Rightarrow> string option \<times> collab_state" where
  "DeleteFindingComment_row env commentID st =
     (case co_fail env ''comments.Delete'' of
        Some e \<Rightarrow> (Some e, st)
      | None \<Rightarrow> (None, st\<lparr>cb_comments := filter (\<lambda>c. fc_ID c \<noteq> commentID) (cb_comments st)\<rparr>))"

definition buildMentionEmailBody :: "string \<Rightarrow> string \<Rightarrow> string \<Rightarrow> string \<Rightarrow> string \<Rightarrow> string" where
  "buildMentionEmailBody username author findingTitle commentContent link =
     ''Hi '' @ username @ '','' @ [newline, newline] @
     author @ '' mentioned you in a comment on finding '' @ [CHR 0x22] @ findingTitle @ [CHR 0x22] @ '':'' @ [newline, newline] @
     ''---'' @ [newline] @ commentContent @ [newline] @ ''---'' @ [newline, newline] @
     (if link \<noteq> [] then ''View it here: '' @ link @ [newline, newline] else []) @
     ''Thanks,'' @ [newline] @ ''HenKaiPan Team''"

text \<open>A notification that is stored is published.\<close>

definition create_and_publish :: "access_env \<Rightarrow> note_create \<Rightarrow> access_state \<Rightarrow> access_state" where
  "create_and_publish env n st =
     (case Note_Create env n (xs_notes st) of
        (Inl e, rows) \<Rightarrow> st
      | (Inr note, rows) \<Rightarrow> st\<lparr>xs_notes := rows, xs_published := xs_published st @
          [NewNotificationCreated (nt_ID note) (nc_UserID n) (nt_Title note) (nt_Type note)
             (case nt_EntityType note of Some t \<Rightarrow> t | None \<Rightarrow> []) (case nt_EntityID note of Some t \<Rightarrow> t | None \<Rightarrow> [])
             (nt_AISummary note)]\<rparr>)"

definition notifyOneMentionedUser ::
  "collab_env \<Rightarrow> user_row \<Rightarrow> string \<Rightarrow> string \<Rightarrow> string \<Rightarrow> string \<Rightarrow> string \<Rightarrow> collab_state \<Rightarrow> collab_state" where
  "notifyOneMentionedUser env u author findingTitle content link findingID st =
     (let a = create_and_publish (co_access env) \<lparr>nc_UserID = us_ID u, nc_Title = ''You were mentioned in a comment'',
            nc_Message = author @ '' mentioned you in a comment on finding: '' @ findingTitle, nc_Type = ''comment_mention'',
            nc_EntityType = Some ''finding'', nc_EntityID = Some findingID, nc_AISummary = []\<rparr> (cb_access st)
      in st\<lparr>cb_access := (if ax_emailEnabled (co_access env) then notify_email (co_access env)
            ''[HenKaiPan] You were mentioned in a comment'' (buildMentionEmailBody (us_Username u) author findingTitle content link)
            (us_Email u) a else a)\<rparr>)"

fun mention_loop :: "collab_env \<Rightarrow> string \<Rightarrow> string \<Rightarrow> string \<Rightarrow> string \<Rightarrow> string \<Rightarrow> string \<Rightarrow> string list \<Rightarrow> collab_state \<Rightarrow> collab_state" where
  "mention_loop env authorID author findingTitle content link findingID [] st = st"
| "mention_loop env authorID author findingTitle content link findingID (name # names) st =
     mention_loop env authorID author findingTitle content link findingID names
       (case GetByUsername (ax_user (co_access env)) name (xs_users (cb_access st)) of
          Inl _ \<Rightarrow> st
        | Inr u \<Rightarrow> if us_ID u = authorID \<or> \<not> us_IsActive u then st
            else notifyOneMentionedUser env u author findingTitle content link findingID st)"

definition finding_link :: "collab_env \<Rightarrow> string \<Rightarrow> string" where
  "finding_link env findingID =
     (if co_frontend env = [] then []
      else trim_right_cutset ''/'' (co_frontend env) @ ''/dashboard/findings/detail?id='' @ co_escape env findingID)"

definition notifyMentionedUsers :: "collab_env \<Rightarrow> string \<Rightarrow> string \<Rightarrow> string \<Rightarrow> string \<Rightarrow> collab_state \<Rightarrow> collab_state" where
  "notifyMentionedUsers env findingID authorID author content st =
     (if extractMentions content = [] then st
      else (case co_fail env ''findings.GetByID'' of
          Some e \<Rightarrow> st
        | None \<Rightarrow> (case GetByID findingID (cb_findings st) of
            None \<Rightarrow> st
          | Some f \<Rightarrow> mention_loop env authorID author (fd_Title f) content (finding_link env findingID) findingID
              (extractMentions content) st)))"

text \<open>The handlers take the parameters of the route by name.\<close>

definition GetFindingComments :: "collab_env \<Rightarrow> (string \<Rightarrow> string) \<Rightarrow> collab_state \<Rightarrow> (comment_row \<times> string) list reply" where
  "GetFindingComments env param st =
     (case GetFindingComments_rows env (param ''findingID'') st of
        Inl e \<Rightarrow> Inl (500, ''failed to get comments'') | Inr cs \<Rightarrow> Inr cs)"

definition CreateFindingComment ::
  "collab_env \<Rightarrow> claims option \<Rightarrow> (string \<Rightarrow> string) \<Rightarrow> string option \<Rightarrow> collab_state \<Rightarrow> (comment_row \<times> string) reply \<times> collab_state" where
  "CreateFindingComment env who param body st =
     (case who of
        None \<Rightarrow> (Inl (401, ''unauthorized''), st)
      | Some c \<Rightarrow>
        (case body of
           None \<Rightarrow> (Inl (400, ''content required''), st)
         | Some content \<Rightarrow>
           if content = [] then (Inl (400, ''content required''), st)
           else (case CreateFindingComment_row env (param ''findingID'') (cm_UserID c) content st of
               (Inl e, st1) \<Rightarrow> (Inl (500, ''failed to create comment''), st1)
             | (Inr comment, st1) \<Rightarrow>
                 (Inr comment, notifyMentionedUsers env (param ''findingID'') (cm_UserID c) (cm_Sub c) content st1))))"

text \<open>\<^verbatim>\<open>strconv.ParseInt\<close> of 64 bits is what \<^verbatim>\<open>Atoi\<close> does on a 64-bit platform.\<close>

definition DeleteFindingComment :: "collab_env \<Rightarrow> (string \<Rightarrow> string) \<Rightarrow> collab_state \<Rightarrow> unit reply \<times> collab_state" where
  "DeleteFindingComment env param st =
     (case atoi (param ''commentID'') of
        (n, Some e) \<Rightarrow> (Inl (400, ''invalid comment ID''), st)
      | (n, None) \<Rightarrow> (case DeleteFindingComment_row env n st of
          (Some e, st1) \<Rightarrow> (Inl (500, ''failed to delete comment''), st1)
        | (None, st1) \<Rightarrow> (Inr (), st1)))"

section \<open>Teams\<close>

text \<open>The members are read in a second query; when it fails, every team is shown without members.\<close>

definition Team_List :: "collab_env \<Rightarrow> collab_state \<Rightarrow> string + (team_row \<times> user_row list) list" where
  "Team_List env st =
     (case co_fail env ''teams.List'' of
        Some e \<Rightarrow> Inl (''teams list: '' @ e)
      | None \<Rightarrow> Inr (map (\<lambda>t. (t, case co_fail env ''teams.members'' of
            Some e \<Rightarrow> []
          | None \<Rightarrow> [u. (team, i) \<leftarrow> filter (\<lambda>m. fst m = te_ID t) (cb_members st),
                        u \<leftarrow> filter (\<lambda>u. us_ID u = i) (xs_users (cb_access st))])) (cb_teams st)))"

definition Team_Create :: "collab_env \<Rightarrow> string \<Rightarrow> collab_state \<Rightarrow> (string + team_row) \<times> collab_state" where
  "Team_Create env name st =
     (case co_fail env ''teams.Create'' of
        Some e \<Rightarrow> (Inl (''create team: '' @ e), st)
      | None \<Rightarrow>
        if name \<in> te_Name ` set (cb_teams st) then (Inl ''create team: duplicate key value violates unique constraint'', st)
        else (let t = \<lparr>te_ID = co_team_id env (cb_teams st), te_Name = name\<rparr> in (Inr t, st\<lparr>cb_teams := cb_teams st @ [t]\<rparr>)))"

text \<open>Deleting a team removes its memberships and takes its applications away from it.\<close>

definition Team_Delete :: "collab_env \<Rightarrow> string \<Rightarrow> collab_state \<Rightarrow> string option \<times> collab_state" where
  "Team_Delete env i st =
     (case co_fail env ''teams.Delete'' of
        Some e \<Rightarrow> (Some e, st)
      | None \<Rightarrow> (case DeleteByID te_ID ''teams'' i (cb_teams st) of
          (Some e, rows) \<Rightarrow> (Some e, st)
        | (None, rows) \<Rightarrow> (None, st\<lparr>cb_teams := rows, cb_members := filter (\<lambda>m. fst m \<noteq> i) (cb_members st),
            cb_apps := update_where (\<lambda>a. aw_TeamID a = Some i) (\<lambda>a. a\<lparr>aw_TeamID := None\<rparr>) (cb_apps st)\<rparr>)))"

definition Team_AddMember :: "collab_env \<Rightarrow> string \<Rightarrow> string \<Rightarrow> collab_state \<Rightarrow> string option \<times> collab_state" where
  "Team_AddMember env teamID userID st =
     (case co_fail env ''teams.AddMember'' of
        Some e \<Rightarrow> (Some (''add team member: '' @ e), st)
      | None \<Rightarrow>
        if (teamID, userID) \<in> set (cb_members st) then (None, st)
        else if row_by te_ID teamID (cb_teams st) = None \<or> row_by us_ID userID (xs_users (cb_access st)) = None
          then (Some ''add team member: violates foreign key constraint'', st)
        else (None, st\<lparr>cb_members := cb_members st @ [(teamID, userID)]\<rparr>))"

definition Team_RemoveMember :: "collab_env \<Rightarrow> string \<Rightarrow> string \<Rightarrow> collab_state \<Rightarrow> string option \<times> collab_state" where
  "Team_RemoveMember env teamID userID st =
     (case co_fail env ''teams.RemoveMember'' of
        Some e \<Rightarrow> (Some e, st)
      | None \<Rightarrow> (None, st\<lparr>cb_members := filter (\<lambda>m. m \<noteq> (teamID, userID)) (cb_members st)\<rparr>))"

definition ListTeams :: "collab_env \<Rightarrow> collab_state \<Rightarrow> (team_row \<times> user_row list) list reply" where
  "ListTeams env st = (case Team_List env st of Inl e \<Rightarrow> Inl (500, ''failed to list teams'') | Inr ts \<Rightarrow> Inr ts)"

definition CreateTeam :: "collab_env \<Rightarrow> string option \<Rightarrow> collab_state \<Rightarrow> team_row reply \<times> collab_state" where
  "CreateTeam env body st =
     (case body of
        None \<Rightarrow> (Inl (400, ''name required''), st)
      | Some name \<Rightarrow>
        if name = [] then (Inl (400, ''name required''), st)
        else (case Team_Create env name st of
            (Inl e, st1) \<Rightarrow> (Inl (409, ''team name already exists''), st1) | (Inr t, st1) \<Rightarrow> (Inr t, st1)))"

definition DeleteTeam :: "collab_env \<Rightarrow> string \<Rightarrow> collab_state \<Rightarrow> unit reply \<times> collab_state" where
  "DeleteTeam env i st = (Inr (), snd (Team_Delete env i st))"

definition AddTeamMember :: "collab_env \<Rightarrow> string \<Rightarrow> string option \<Rightarrow> collab_state \<Rightarrow> unit reply \<times> collab_state" where
  "AddTeamMember env teamID body st =
     (case body of
        None \<Rightarrow> (Inl (400, ''user_id required''), st)
      | Some userID \<Rightarrow>
        if userID = [] then (Inl (400, ''user_id required''), st)
        else (case Team_AddMember env teamID userID st of
            (Some e, st1) \<Rightarrow> (Inl (500, ''failed to add member''), st1) | (None, st1) \<Rightarrow> (Inr (), st1)))"

definition RemoveTeamMember :: "collab_env \<Rightarrow> string \<Rightarrow> string \<Rightarrow> collab_state \<Rightarrow> unit reply \<times> collab_state" where
  "RemoveTeamMember env teamID userID st = (Inr (), snd (Team_RemoveMember env teamID userID st))"

section \<open>Audit log\<close>

definition normalize_page :: "int \<Rightarrow> int \<Rightarrow> int \<times> int" where
  "normalize_page page limit = (if page < 1 then 1 else page, if limit < 1 \<or> limit > 100 then 50 else limit)"

definition audit_matches :: "scope \<Rightarrow> string \<Rightarrow> string \<Rightarrow> string \<Rightarrow> audit_row \<Rightarrow> bool" where
  "audit_matches sco userID entityType action a \<longleftrightarrow>
     (case sco of None \<Rightarrow> True | Some u \<Rightarrow> au_UserID a = u) \<and> (userID = [] \<or> au_UserID a = userID) \<and>
     (entityType = [] \<or> au_EntityType a = entityType) \<and> (action = [] \<or> au_Action a = action)"

definition Audit_List ::
  "collab_env \<Rightarrow> scope \<Rightarrow> string \<Rightarrow> string \<Rightarrow> string \<Rightarrow> int \<Rightarrow> int \<Rightarrow> audit_row list \<Rightarrow> string + audit_row list \<times> nat" where
  "Audit_List env sco userID entityType action page limit rows =
     (let (page, limit) = normalize_page page limit; found = filter (audit_matches sco userID entityType action) rows
      in case co_fail env ''audit.List'' of
           Some e \<Rightarrow> Inl (''audit list: '' @ e)
         | None \<Rightarrow> (case page_of page limit (rev found) of Inl e \<Rightarrow> Inl (''audit list: '' @ e) | Inr p \<Rightarrow> Inr (p, length found)))"

definition claims_scope :: "claims option \<Rightarrow> scope" where
  "claims_scope who = (case who of None \<Rightarrow> Admin | Some c \<Rightarrow> if cm_Role c \<noteq> ''admin'' then ForUser (cm_UserID c) else Admin)"

definition ListAuditLogs :: "collab_env \<Rightarrow> claims option \<Rightarrow> (string \<Rightarrow> string) \<Rightarrow> collab_state \<Rightarrow> (audit_row list \<times> nat) reply" where
  "ListAuditLogs env who q st =
     (case Audit_List env (claims_scope who) (q ''user_id'') (q ''entity_type'') (q ''action'') 1 100
         (it_audit (xs_intake (cb_access st))) of
        Inl e \<Rightarrow> Inl (500, ''failed to list audit logs'') | Inr r \<Rightarrow> Inr r)"

section \<open>Risk acceptances\<close>

definition Risk_Create :: "collab_env \<Rightarrow> string \<Rightarrow> string \<Rightarrow> string \<Rightarrow> int \<Rightarrow> string \<Rightarrow> collab_state \<Rightarrow> (string + risk_row) \<times> collab_state" where
  "Risk_Create env findingID userID rationale expiresAt status st =
     (case co_fail env ''risks.Create'' of
        Some e \<Rightarrow> (Inl (''create risk acceptance: '' @ e), st)
      | None \<Rightarrow>
        if \<not> co_uuid_ok env findingID \<or> row_by fd_ID findingID (cb_findings st) = None \<or>
           row_by us_ID userID (xs_users (cb_access st)) = None
        then (Inl ''create risk acceptance: violates constraint'', st)
        else (let r = \<lparr>ra_ID = co_risk_id env (cb_risks st), ra_FindingID = findingID, ra_UserID = userID, ra_Rationale = rationale,
              ra_ExpiresAt = expiresAt, ra_ApprovedBy = None, ra_ApprovedAt = None, ra_Status = status, ra_ReviewNotes = None\<rparr>
          in (Inr r, st\<lparr>cb_risks := cb_risks st @ [r]\<rparr>)))"

definition Risk_GetByFindingID :: "collab_env \<Rightarrow> string \<Rightarrow> collab_state \<Rightarrow> string + risk_row" where
  "Risk_GetByFindingID env findingID st =
     (case co_fail env ''risks.GetByFindingID'' of
        Some e \<Rightarrow> Inl e
      | None \<Rightarrow> (case row_by ra_FindingID findingID (rev (cb_risks st)) of None \<Rightarrow> Inl ''no rows in result set'' | Some r \<Rightarrow> Inr r))"

definition update_risk :: "collab_env \<Rightarrow> string \<Rightarrow> string \<Rightarrow> (risk_row \<Rightarrow> risk_row) \<Rightarrow> collab_state \<Rightarrow> string option \<times> collab_state" where
  "update_risk env op i f st =
     (case co_fail env op of
        Some e \<Rightarrow> (Some e, st)
      | None \<Rightarrow> if \<not> co_uuid_ok env i then (Some ''invalid input syntax for type uuid'', st)
          else (None, st\<lparr>cb_risks := update_where (\<lambda>r. ra_ID r = i) f (cb_risks st)\<rparr>))"

definition Risk_Approve :: "collab_env \<Rightarrow> string \<Rightarrow> string \<Rightarrow> string \<Rightarrow> collab_state \<Rightarrow> string option \<times> collab_state" where
  "Risk_Approve env i approvedBy notes st = update_risk env ''risks.Approve'' i
     (\<lambda>r. r\<lparr>ra_ApprovedBy := Some approvedBy, ra_ApprovedAt := Some (co_now env), ra_Status := ''approved'', ra_ReviewNotes := Some notes\<rparr>) st"

definition Risk_Reject :: "collab_env \<Rightarrow> string \<Rightarrow> string \<Rightarrow> collab_state \<Rightarrow> string option \<times> collab_state" where
  "Risk_Reject env i notes st = update_risk env ''risks.Reject'' i
     (\<lambda>r. r\<lparr>ra_Status := ''rejected'', ra_ReviewNotes := Some notes\<rparr>) st"

definition Risk_Expire :: "collab_env \<Rightarrow> collab_state \<Rightarrow> string option \<times> collab_state" where
  "Risk_Expire env st =
     (case co_fail env ''risks.Expire'' of
        Some e \<Rightarrow> (Some e, st)
      | None \<Rightarrow> (None, st\<lparr>cb_risks := update_where (\<lambda>r. ra_Status r = ''approved'' \<and> ra_ExpiresAt r < co_now env)
          (\<lambda>r. r\<lparr>ra_Status := ''expired''\<rparr>) (cb_risks st)\<rparr>))"

text \<open>The filter gives texts, not absent values: the database compares the empty status, and refuses the
  empty identifier.\<close>

definition Risk_List :: "collab_env \<Rightarrow> string \<Rightarrow> string \<Rightarrow> int \<Rightarrow> int \<Rightarrow> collab_state \<Rightarrow> string + risk_row list \<times> nat" where
  "Risk_List env status findingID page limit st =
     (let (page, limit) = normalize_page page limit;
          found = filter (\<lambda>r. ra_Status r = status \<and> ra_FindingID r = findingID) (cb_risks st)
      in case co_fail env ''risks.List'' of
           Some e \<Rightarrow> Inl (''risk acceptance list: '' @ e)
         | None \<Rightarrow>
           if \<not> co_uuid_ok env findingID then Inl ''risk acceptance list: invalid input syntax for type uuid''
           else (case page_of page limit (rev found) of
               Inl e \<Rightarrow> Inl (''risk acceptance list: '' @ e) | Inr p \<Rightarrow> Inr (p, length found)))"

definition parseTime :: "collab_env \<Rightarrow> string \<Rightarrow> int" where
  "parseTime env s = (case co_parse_time env s of Some t \<Rightarrow> t | None \<Rightarrow> co_months env 3 (co_now env))"

definition audit_risk :: "claims option \<Rightarrow> string \<Rightarrow> string \<Rightarrow> collab_state \<Rightarrow> collab_state" where
  "audit_risk who action i st = st\<lparr>cb_access := (cb_access st)\<lparr>xs_intake :=
     auditLog who action ''risk_acceptance'' i (xs_intake (cb_access st))\<rparr>\<rparr>"

record risk_request =
  rr_FindingID :: string
  rr_Rationale :: string
  rr_ExpiresAt :: string

definition CreateRiskAcceptance ::
  "collab_env \<Rightarrow> claims option \<Rightarrow> risk_request option \<Rightarrow> collab_state \<Rightarrow> risk_row reply \<times> collab_state" where
  "CreateRiskAcceptance env who body st =
     (case body of
        None \<Rightarrow> (Inl (400, ''invalid body''), st)
      | Some b \<Rightarrow>
        if rr_FindingID b = [] \<or> rr_Rationale b = [] \<or> rr_ExpiresAt b = []
        then (Inl (400, ''finding_id, rationale, expires_at required''), st)
        else (case who of
            None \<Rightarrow> (Inl (401, ''unauthorized''), st)
          | Some c \<Rightarrow>
            (case Risk_Create env (rr_FindingID b) (cm_UserID c) (rr_Rationale b) (parseTime env (rr_ExpiresAt b)) ''pending'' st of
               (Inl e, st1) \<Rightarrow> (Inl (500, ''failed to create risk acceptance''), st1)
             | (Inr r, st1) \<Rightarrow> (Inr r, audit_risk who ''risk_acceptance.create'' (ra_ID r) st1))))"

definition ApproveRiskAcceptance ::
  "collab_env \<Rightarrow> claims option \<Rightarrow> string \<Rightarrow> string option \<Rightarrow> collab_state \<Rightarrow> unit reply \<times> collab_state" where
  "ApproveRiskAcceptance env who i body st =
     (case body of
        None \<Rightarrow> (Inl (400, ''invalid body''), st)
      | Some notes \<Rightarrow>
        (case who of
           None \<Rightarrow> (Inl (401, ''unauthorized''), st)
         | Some c \<Rightarrow> (case Risk_Approve env i (cm_UserID c) notes st of
             (Some e, st1) \<Rightarrow> (Inl (500, ''failed to approve risk acceptance''), st1)
           | (None, st1) \<Rightarrow> (Inr (), audit_risk who ''risk_acceptance.approve'' i st1))))"

definition RejectRiskAcceptance ::
  "collab_env \<Rightarrow> claims option \<Rightarrow> string \<Rightarrow> string option \<Rightarrow> collab_state \<Rightarrow> unit reply \<times> collab_state" where
  "RejectRiskAcceptance env who i body st =
     (case body of
        None \<Rightarrow> (Inl (400, ''invalid body''), st)
      | Some notes \<Rightarrow> (case Risk_Reject env i notes st of
          (Some e, st1) \<Rightarrow> (Inl (500, ''failed to reject risk acceptance''), st1)
        | (None, st1) \<Rightarrow> (Inr (), audit_risk who ''risk_acceptance.reject'' i st1)))"

definition ListRiskAcceptances :: "collab_env \<Rightarrow> (string \<Rightarrow> string) \<Rightarrow> collab_state \<Rightarrow> (risk_row list \<times> nat) reply" where
  "ListRiskAcceptances env q st =
     (case Risk_List env (q ''status'') (q ''finding_id'') 1 50 st of
        Inl e \<Rightarrow> Inl (500, ''failed to list risk acceptances'') | Inr r \<Rightarrow> Inr r)"

definition GetRiskAcceptanceByFinding :: "collab_env \<Rightarrow> string \<Rightarrow> collab_state \<Rightarrow> risk_row reply" where
  "GetRiskAcceptanceByFinding env findingID st =
     (case Risk_GetByFindingID env findingID st of
        Inl e \<Rightarrow> Inl (404, ''no risk acceptance found for this finding'') | Inr r \<Rightarrow> Inr r)"

section \<open>Specifications\<close>

text \<open>A name is mentioned where an at sign stands at the beginning or after white space and at least two
  word characters follow; at most 39 of them are the name.\<close>

definition mentioned :: "string \<Rightarrow> string \<Rightarrow> bool" where
  "mentioned content u \<longleftrightarrow> (\<exists>a t. content = a @ t \<and> (a = [] \<or> re_space (last a)) \<and> mention_name t = Some u)"

text \<open>The users a comment notifies: the active users it names, except its author.\<close>

definition recipients :: "user_row list \<Rightarrow> string \<Rightarrow> string \<Rightarrow> user_row list" where
  "recipients users authorID content = concat (map (\<lambda>name. filter (\<lambda>u. us_Username u = name \<and> us_ID u \<noteq> authorID \<and> us_IsActive u) users)
     (extractMentions content))"

section \<open>Lemmas\<close>

lemma word_not_space: "word_char c \<Longrightarrow> \<not> re_space c"
  by (auto simp: word_char_def re_space_def is_digit_def Let_def)

lemma mention_name_Some:
  "mention_name s = Some u \<Longrightarrow> \<exists>r. s = CHR ''@'' # u @ r \<and> list_all word_char u \<and> 2 \<le> length u \<and> length u \<le> 39"
proof -
  assume u: "mention_name s = Some u"
  then obtain r where r: "s = CHR ''@'' # r" "2 \<le> length (takeWhile word_char r)" "u = take 39 (takeWhile word_char r)"
    by (cases s) (auto simp: mention_name_def Let_def split: if_splits)
  have "r = u @ drop 39 (takeWhile word_char r) @ dropWhile word_char r"
    unfolding r(3) by (metis append.assoc append_take_drop_id takeWhile_dropWhile_id)
  moreover have "list_all word_char u" using r(3) by (auto simp: list_all_iff dest!: in_set_takeD set_takeWhileD)
  moreover have "2 \<le> length u" "length u \<le> 39" using r(2,3) by auto
  ultimately show ?thesis using r(1) by blast
qed

definition mention_later :: "string \<Rightarrow> string \<Rightarrow> bool" where
  "mention_later s u \<longleftrightarrow> (\<exists>a c t. s = a @ c # t \<and> re_space c \<and> mention_name t = Some u)"

lemma mention_later_Cons: "mention_later (c # s) u \<longleftrightarrow> (re_space c \<and> mention_name s = Some u) \<or> mention_later s u"
proof
  assume "mention_later (c # s) u"
  then obtain a d t where "c # s = a @ d # t" "re_space d" "mention_name t = Some u" by (auto simp: mention_later_def)
  then show "(re_space c \<and> mention_name s = Some u) \<or> mention_later s u"
    by (cases a) (auto simp: mention_later_def)
next
  assume "(re_space c \<and> mention_name s = Some u) \<or> mention_later s u"
  then show "mention_later (c # s) u"
  proof
    assume "re_space c \<and> mention_name s = Some u"
    then show ?thesis unfolding mention_later_def by (intro exI [of _ "[]"]) auto
  next
    assume "mention_later s u"
    then obtain a d t where "s = a @ d # t" "re_space d" "mention_name t = Some u" by (auto simp: mention_later_def)
    then show ?thesis unfolding mention_later_def by (intro exI [of _ "c # a"]) auto
  qed
qed

lemma mention_later_Nil [simp]: "\<not> mention_later [] u"
  by (simp add: mention_later_def)

lemma mention_later_skip: "list_all (\<lambda>c. \<not> re_space c) w \<Longrightarrow> mention_later (w @ s) u \<longleftrightarrow> mention_later s u"
  by (induction w) (simp_all add: mention_later_Cons)

lemma mentions_from_iff:
  "u \<in> set (mentions_from start s) \<longleftrightarrow> (start \<and> mention_name s = Some u) \<or> mention_later s u"
proof (induction start s rule: mentions_from.induct)
  case (1 start)
  then show ?case by (simp add: mention_name_def)
next
  case (2 start c s)
  have skip: "mention_later (drop (length v) (v @ r)) u \<longleftrightarrow> mention_later (v @ r) u" if "list_all word_char v" for v r
    using mention_later_skip [of v r u] that word_not_space by (simp add: list_all_iff)
  have at: "\<not> re_space (CHR ''@'')" by (simp add: re_space_def)
  show ?case
  proof (cases "if start then mention_name (c # s) else None")
    case (Some v)
    with mention_name_Some [of "c # s" v] obtain r where v: "c = CHR ''@''" "s = v @ r" "list_all word_char v"
      by (auto split: if_splits)
    show ?thesis using 2(3) [OF Some] Some skip [OF v(3), of r] v(1,2) at
      by (auto simp: mention_later_Cons split: if_splits)
  next
    case none: None
    show ?thesis
    proof (cases "if re_space c then mention_name s else None")
      case (Some v)
      with mention_name_Some [of s v] obtain r where v: "s = CHR ''@'' # v @ r" "list_all word_char v"
        by (auto split: if_splits)
      show ?thesis using 2(2) [OF none Some] none Some skip [OF v(2), of r] v(1) at
        by (auto simp: mention_later_Cons split: if_splits)
    next
      case None
      show ?thesis using 2(1) [OF none None] none None by (auto simp: mention_later_Cons split: if_splits)
    qed
  qed
qed

lemma mentioned_iff: "mentioned s u \<longleftrightarrow> mention_name s = Some u \<or> mention_later s u"
proof
  assume "mentioned s u"
  then obtain a t where a: "s = a @ t" "a = [] \<or> re_space (last a)" "mention_name t = Some u" by (auto simp: mentioned_def)
  then show "mention_name s = Some u \<or> mention_later s u"
  proof (cases "a = []")
    case False
    then have "s = butlast a @ last a # t" "re_space (last a)" using a by auto
    then show ?thesis using a(3) unfolding mention_later_def by blast
  qed auto
next
  assume "mention_name s = Some u \<or> mention_later s u"
  then show "mentioned s u"
  proof
    assume "mention_later s u"
    then obtain a c t where "s = a @ c # t" "re_space c" "mention_name t = Some u" by (auto simp: mention_later_def)
    then show ?thesis unfolding mentioned_def by (intro exI [of _ "a @ [c]"] exI [of _ t]) auto
  qed (auto simp: mentioned_def intro: exI [of _ "[]"])
qed

lemma unique_names_set: "set (unique_names seen us) = set seen \<union> set us"
  by (induction us arbitrary: seen) auto

lemma unique_names_distinct: "distinct seen \<Longrightarrow> distinct (unique_names seen us)"
  by (induction us arbitrary: seen) auto

lemma extractMentions_set: "set (extractMentions content) = {u. mentioned content u}"
  by (auto simp: extractMentions_def unique_names_set mentions_from_iff mentioned_iff)

lemma mentioned_shape: "mentioned content u \<Longrightarrow> list_all word_char u \<and> 2 \<le> length u \<and> length u \<le> 39"
  unfolding mentioned_def using mention_name_Some by blast

text \<open>What one recipient gets.\<close>

definition mention_note :: "user_row \<Rightarrow> string \<Rightarrow> string \<times> string \<times> string option \<times> bool" where
  "mention_note u findingID = (us_ID u, ''comment_mention'', Some findingID, False)"

definition note_head :: "notification \<Rightarrow> string \<times> string \<times> string option \<times> bool" where
  "note_head n = (nt_UserID n, nt_Type n, nt_EntityID n, nt_Read n)"

lemma notifyOne_notes:
  assumes "co_fail env = (\<lambda>_. None)"
  shows "map note_head (xs_notes (cb_access (notifyOneMentionedUser env u author title content link i st))) =
      map note_head (xs_notes (cb_access st)) @ [mention_note u i] \<and>
    xs_users (cb_access (notifyOneMentionedUser env u author title content link i st)) = xs_users (cb_access st)"
  using assms by (simp add: notifyOneMentionedUser_def create_and_publish_def Note_Create_def Let_def notify_email_def
      note_head_def mention_note_def)

lemma filter_username:
  assumes "distinct (map us_Username users)"
  shows "filter (\<lambda>u. us_Username u = name) users = (case find (\<lambda>u. us_Username u = name) users of None \<Rightarrow> [] | Some u \<Rightarrow> [u])"
  using assms
proof (induction users)
  case (Cons a users)
  from Cons.prems have "us_Username a = name \<Longrightarrow> filter (\<lambda>u. us_Username u = name) users = []"
    by (auto simp: filter_empty_conv) (metis imageI)
  with Cons show ?case by auto
qed simp

lemma recipients_step:
  assumes "distinct (map us_Username users)" "ux_fail ue = (\<lambda>_. None)"
  shows "filter (\<lambda>u. us_Username u = name \<and> us_ID u \<noteq> authorID \<and> us_IsActive u) users =
    (case GetByUsername ue name users of Inl _ \<Rightarrow> [] | Inr u \<Rightarrow> if us_ID u = authorID \<or> \<not> us_IsActive u then [] else [u])"
proof -
  have "filter (\<lambda>u. us_Username u = name \<and> us_ID u \<noteq> authorID \<and> us_IsActive u) users =
      filter (\<lambda>u. us_ID u \<noteq> authorID \<and> us_IsActive u) (filter (\<lambda>u. us_Username u = name) users)"
    by (simp add: conj_commute conj_left_commute)
  also have "\<dots> = (case GetByUsername ue name users of Inl _ \<Rightarrow> [] | Inr u \<Rightarrow> if us_ID u = authorID \<or> \<not> us_IsActive u then [] else [u])"
    unfolding filter_username [OF assms(1)] using assms(2)
    by (auto simp: GetByUsername_def query_user_def split: option.split)
  finally show ?thesis .
qed

lemma mention_loop_notes:
  assumes "co_fail env = (\<lambda>_. None)" "distinct (map us_Username (xs_users (cb_access st)))"
  shows "map note_head (xs_notes (cb_access (mention_loop env authorID author title content link i names st))) =
    map note_head (xs_notes (cb_access st)) @ map (\<lambda>u. mention_note u i) (concat (map (\<lambda>name.
      filter (\<lambda>u. us_Username u = name \<and> us_ID u \<noteq> authorID \<and> us_IsActive u) (xs_users (cb_access st))) names))"
  using assms(2)
proof (induction names arbitrary: st)
  case (Cons name names)
  note step = recipients_step [OF Cons.prems assms(1), of name authorID]
  show ?case
  proof (cases "GetByUsername (ax_user (co_access env)) name (xs_users (cb_access st))")
    case (Inl e)
    then show ?thesis using Cons step by simp
  next
    case (Inr u)
    show ?thesis
    proof (cases "us_ID u = authorID \<or> \<not> us_IsActive u")
      case True
      then show ?thesis using Inr Cons step by simp
    next
      case False
      let ?st = "notifyOneMentionedUser env u author title content link i st"
      note one = notifyOne_notes [OF assms(1), of u author title content link i st]
      have "distinct (map us_Username (xs_users (cb_access ?st)))" using one Cons.prems by simp
      from Cons.IH [OF this] show ?thesis using Inr False step one by simp
    qed
  qed
qed simp

lemma notes_update_others:
  "(\<And>n. nt_UserID (f n) = nt_UserID n) \<Longrightarrow> (\<And>n. P n \<Longrightarrow> nt_UserID n = user) \<Longrightarrow>
   filter (\<lambda>n. nt_UserID n \<noteq> user) (update_where P f rows) = filter (\<lambda>n. nt_UserID n \<noteq> user) rows"
  by (induction rows) auto

lemma set_page: "page_of page limit rows = Inr p \<Longrightarrow> set p \<subseteq> set rows"
  by (auto simp: page_of_def Let_def split: if_splits dest!: in_set_takeD in_set_dropD)

lemma Note_List_mine: "Note_List env user rf page limit rows = Inr (ns, cnt) \<Longrightarrow> list_all (note_visible user rf) ns \<and>
    cnt = length (filter (note_visible user rf) rows)"
  by (auto simp: Note_List_def Let_def list_all_iff dest!: set_page split: option.splits sum.splits if_splits)

section \<open>Properties\<close>

text \<open>C33: The names a comment mentions are exactly the longest runs of two or more word characters after an
  at sign that begins the text or follows white space, cut to 39 characters, each once: an
  address such as foo@bar.com mentions nobody.\<close>

theorem mentions_exact:
  "set (extractMentions content) = {u. mentioned content u} \<and> distinct (extractMentions content) \<and>
   list_all (\<lambda>u. list_all word_char u \<and> 2 \<le> length u \<and> length u \<le> 39) (extractMentions content)"
  using mentioned_shape by (auto simp: extractMentions_set list_all_iff) (simp add: extractMentions_def unique_names_distinct)

text \<open>A name of more than 39 characters mentions somebody else: the user whose name is its first 39
  characters.\<close>

theorem long_mention_truncated:
  assumes "list_all word_char w" "39 < length w"
  shows "extractMentions (CHR ''@'' # w) = [take 39 w]"
proof -
  have tw: "takeWhile word_char w = w" using assms(1) by (auto simp: list_all_iff)
  have "mention_name (CHR ''@'' # w) = Some (take 39 w)" unfolding mention_name_def list.case tw Let_def using assms(2) by simp
  moreover have "\<not> mention_later (drop 39 w) u" for u
    using mention_later_skip [of "drop 39 w" "[]" u] assms(1) word_not_space by (auto simp: list_all_iff dest: in_set_dropD)
  then have "u \<notin> set (mentions_from False (drop 39 w))" for u by (simp add: mentions_from_iff)
  then have "mentions_from False (drop 39 w) = []" by (metis list.set_intros(1) neq_Nil_conv)
  ultimately show ?thesis using assms(2) by (simp add: extractMentions_def)
qed

text \<open>A comment notifies exactly the active users it names other than its author, once each, in the
  order of their names in the text; every notification is unread and points to the finding.\<close>

theorem mention_notifications:
  assumes "co_fail env = (\<lambda>_. None)" "users_ok (xs_users (cb_access st))" "GetByID i (cb_findings st) = Some f"
  shows "map note_head (xs_notes (cb_access (notifyMentionedUsers env i authorID author content st))) =
    map note_head (xs_notes (cb_access st)) @ map (\<lambda>u. mention_note u i) (recipients (xs_users (cb_access st)) authorID content)"
proof (cases "extractMentions content = []")
  case False
  have "distinct (map us_Username (xs_users (cb_access st)))" using assms(2) by (simp add: users_ok_def)
  from mention_loop_notes [OF assms(1) this] show ?thesis
    using False assms(1,3) by (simp add: notifyMentionedUsers_def recipients_def)
qed (simp add: notifyMentionedUsers_def recipients_def)

text \<open>Notifications are private: whatever a user requests, the notifications of others keep their
  state, a listing shows only the user's own, and marking all as read leaves none unread.\<close>

theorem notifications_private:
  assumes "cm_UserID c = user"
  shows "filter (\<lambda>n. nt_UserID n \<noteq> user) (snd (MarkNotificationAsRead env (Some c) i rows)) = filter (\<lambda>n. nt_UserID n \<noteq> user) rows \<and>
    filter (\<lambda>n. nt_UserID n \<noteq> user) (snd (MarkAllNotificationsAsRead env (Some c) rows)) = filter (\<lambda>n. nt_UserID n \<noteq> user) rows \<and>
    (\<forall>ns cnt. GetNotifications env (Some c) q rows = Inr (ns, cnt) \<longrightarrow> list_all (\<lambda>n. nt_UserID n = user) ns) \<and>
    (\<forall>rows'. MarkAllNotificationsAsRead env (Some c) rows = (Inr (), rows') \<longrightarrow>
      GetUnreadNotificationCount env (Some c) rows' \<in> {Inl (500, ''failed to get unread count''), Inr 0})"
proof -
  have mine: "list_all (\<lambda>n. nt_UserID n = user) ns"
    if "GetNotifications env (Some c) q rows = Inr (ns, cnt)" for ns cnt
    using that assms by (auto simp: GetNotifications_def Let_def list_all_iff note_visible_def dest!: Note_List_mine split: sum.splits)
  have others: "filter (\<lambda>n. nt_UserID n \<noteq> user) (snd (MarkNotificationAsRead env (Some c) i rows)) = filter (\<lambda>n. nt_UserID n \<noteq> user) rows"
    "filter (\<lambda>n. nt_UserID n \<noteq> user) (snd (MarkAllNotificationsAsRead env (Some c) rows)) = filter (\<lambda>n. nt_UserID n \<noteq> user) rows"
    using assms notes_update_others [of "nt_Read_update (\<lambda>_. True)" "\<lambda>n. nt_ID n = i \<and> nt_UserID n = user" user rows]
      notes_update_others [of "nt_Read_update (\<lambda>_. True)" "\<lambda>n. nt_UserID n = user \<and> \<not> nt_Read n" user rows]
    by (simp_all add: MarkNotificationAsRead_def MarkAsRead_def MarkAllNotificationsAsRead_def MarkAllAsRead_def split: option.split)
  have unread: "GetUnreadNotificationCount env (Some c) rows' \<in> {Inl (500, ''failed to get unread count''), Inr 0}"
    if "MarkAllNotificationsAsRead env (Some c) rows = (Inr (), rows')" for rows'
  proof -
    have "rows' = update_where (\<lambda>n. nt_UserID n = user \<and> \<not> nt_Read n) (\<lambda>n. n\<lparr>nt_Read := True\<rparr>) rows"
      using that assms by (cases "ax_fail env ''notifications.MarkAllAsRead''") (auto simp: MarkAllNotificationsAsRead_def MarkAllAsRead_def)
    moreover have "filter (\<lambda>n. nt_UserID n = user \<and> \<not> nt_Read n)
        (update_where (\<lambda>n. nt_UserID n = user \<and> \<not> nt_Read n) (\<lambda>n. n\<lparr>nt_Read := True\<rparr>) rows) = []"
      by (induction rows) simp_all
    ultimately have "filter (\<lambda>n. nt_UserID n = user \<and> \<not> nt_Read n) rows' = []" by simp
    then show ?thesis using assms
      by (cases "ax_fail env ''notifications.GetUnreadCount''") (simp_all add: GetUnreadNotificationCount_def GetUnreadCount_def)
  qed
  show ?thesis by (intro conjI allI impI others mine unread)
qed

text \<open>The listing of risk acceptances is unusable without both filters: without a finding it is an error,
  and without a status it is empty, because the absent filter reaches the database as the empty text.\<close>

theorem risk_list_needs_filters:
  assumes "\<not> co_uuid_ok env []" "\<forall>r \<in> set (cb_risks st). ra_Status r \<noteq> []" "q ''finding_id'' = [] \<or> q ''status'' = []"
  shows "ListRiskAcceptances env q st \<in> {Inl (500, ''failed to list risk acceptances''), Inr ([], 0)}"
proof -
  have "filter (\<lambda>r. ra_Status r = [] \<and> ra_FindingID r = f) (cb_risks st) = []" for f
    using assms(2) by (auto simp: filter_empty_conv)
  then show ?thesis using assms(1,3)
    by (auto simp: ListRiskAcceptances_def Risk_List_def normalize_page_def page_of_def Let_def go_int64_def split: option.split)
qed

section \<open>Instances\<close>

definition sample_collab :: collab_env where
  "sample_collab = \<lparr>co_access = sample_access, co_uuid_ok = (\<lambda>s. s \<noteq> []), co_frontend = ''https://h.x/'', co_escape = (\<lambda>s. s),
     co_parse_time = (\<lambda>_. None), co_months = (\<lambda>n t. t + n * 2592000), co_team_id = (\<lambda>ts. CHR ''t'' # nat_str (length ts)),
     co_risk_id = (\<lambda>rs. CHR ''r'' # nat_str (length rs))\<rparr>"

definition sample_colleague :: user_row where
  "sample_colleague = sample_user\<lparr>us_ID := ''u2'', us_Username := ''bob'', us_Email := ''bob@corp'', us_Role := ''viewer''\<rparr>"

definition sample_collab_state :: collab_state where
  "sample_collab_state = \<lparr>cb_access = sample_access_state\<lparr>xs_users := [sample_user, sample_colleague]\<rparr>,
     cb_findings = [new_finding ''f1'' 0 sample_insert], cb_comments = [], cb_next_comment = 1, cb_teams = [], cb_members = [],
     cb_apps = [], cb_risks = [\<lparr>ra_ID = ''r0'', ra_FindingID = ''f1'', ra_UserID = ''u1'', ra_Rationale = ''low'', ra_ExpiresAt = 9,
       ra_ApprovedBy = None, ra_ApprovedAt = None, ra_Status = ''pending'', ra_ReviewNotes = None\<rparr>]\<rparr>"

theorem long_mention_truncated_witness:
  "extractMentions (CHR ''@'' # replicate 40 CHR ''a'') = [replicate 39 CHR ''a'']"
  using long_mention_truncated [of "replicate 40 CHR ''a''"] by (simp add: list_all_iff word_char_def is_digit_def)

theorem mention_notifications_witness:
  "map nt_UserID (xs_notes (cb_access (notifyMentionedUsers sample_collab ''f1'' ''u1'' ''ana'' ''@bob @ana see bob@corp'' sample_collab_state))) = [''u2'']"
proof -
  let ?st = "notifyMentionedUsers sample_collab ''f1'' ''u1'' ''ana'' ''@bob @ana see bob@corp'' sample_collab_state"
  have fail: "co_fail sample_collab = (\<lambda>_. None)" by (simp add: sample_collab_def sample_access_def sample_user_env_def)
  have users: "users_ok (xs_users (cb_access sample_collab_state))" by code_simp
  have f: "GetByID ''f1'' (cb_findings sample_collab_state) = Some (new_finding ''f1'' 0 sample_insert)"
    by (simp add: sample_collab_state_def GetByID_def new_finding_def)
  have "map us_ID (recipients (xs_users (cb_access sample_collab_state)) ''u1'' ''@bob @ana see bob@corp'') = [''u2'']"
    "xs_notes (cb_access sample_collab_state) = []" by code_simp+
  then have "map fst (map note_head (xs_notes (cb_access ?st))) = [''u2'']"
    unfolding mention_notifications [OF fail users f] by (simp add: mention_note_def o_def)
  then show ?thesis by (simp add: note_head_def o_def)
qed

theorem notifications_private_witness:
  "let note = \<lparr>nt_ID = ''0'', nt_UserID = ''u2'', nt_Title = [], nt_Message = [], nt_Type = [], nt_EntityType = None, nt_EntityID = None,
       nt_Read = False, nt_AISummary = []\<rparr>
   in filter (\<lambda>n. nt_UserID n \<noteq> ''u1'') (snd (MarkNotificationAsRead sample_access (Some sample_admin) ''0'' [note])) = [note]"
  using notifications_private [of sample_admin "''u1''" sample_access "''0''" _ "\<lambda>_. []"]
  unfolding Let_def by (simp add: sample_admin_def)

theorem risk_list_needs_filters_witness:
  "ListRiskAcceptances sample_collab (\<lambda>_. []) sample_collab_state \<in> {Inl (500, ''failed to list risk acceptances''), Inr ([], 0)} \<and>
   cb_risks sample_collab_state \<noteq> []"
proof -
  have "\<not> co_uuid_ok sample_collab []" "\<forall>r \<in> set (cb_risks sample_collab_state). ra_Status r \<noteq> []" "cb_risks sample_collab_state \<noteq> []"
    by (simp_all add: sample_collab_def sample_collab_state_def)
  then show ?thesis using risk_list_needs_filters [of sample_collab sample_collab_state "\<lambda>_. []"] by blast
qed

end
