(* ===== verification/Finding_View.thy ===== *)
theory Finding_View
  imports Collab_Notes Ai_Agents Snippet_Enrich "HOL-Library.Multiset"
begin

text \<open>
  What users see of the findings and do with them: the queries \<^verbatim>\<open>List\<close>, \<^verbatim>\<open>GetByID\<close>, \<^verbatim>\<open>ExportRows\<close>,
  \<^verbatim>\<open>ListUniqueFiles\<close> and \<^verbatim>\<open>GetSLASummary\<close> of \<^verbatim>\<open>src/internal/repository/finding.go\<close>, and the handlers of
  \<^verbatim>\<open>handlers/findings.go\<close>, \<^verbatim>\<open>finding_view.go\<close> and \<^verbatim>\<open>finding_detail.go\<close> with the cache of the detail
  page (\<^verbatim>\<open>internal/cache/cache.go\<close>).  A query returns only the columns it selects, so that a row is
  shown with the others at their zero value.  Rows that agree in the sort columns come in the order
  of the table.  A goroutine of a handler runs after the change that starts it.
\<close>

section \<open>State and environment\<close>

record jira_link =
  jl_ID :: string
  jl_FindingID :: string
  jl_IssueKey :: "string option"
  jl_IssueURL :: "string option"
  jl_Status :: "string option"
  jl_CreatedAt :: int

record finding_view =
  fw_row :: finding
  fw_SnippetStartLine :: int
  fw_CorroborationCount :: nat
  fw_AIAnalyzed :: bool
  fw_CorroboratingScanners :: string
  fw_Jira :: "jira_link option"

record finding_detail =
  dl_Finding :: finding_view
  dl_Correlations :: "finding list option"
  dl_Analysis :: "agent_analysis option"
  dl_Jira :: "jira_link option"
  dl_Risk :: "risk_row option"

text \<open>The findings are those of \<open>vb_agents\<close>; users, teams, risk acceptances, projects and scans are
  in \<open>vb_collab\<close>.  The cache keeps the answers themselves in place of their JSON text.\<close>

record view_state =
  vb_agents :: agent_state
  vb_collab :: collab_state
  vb_links :: "jira_link list"
  vb_cache :: "finding_detail redis"

abbreviation "vb_findings db \<equiv> ag_findings (vb_agents db)"
abbreviation "vb_access db \<equiv> cb_access (vb_collab db)"

record view_env =
  vn_collab :: collab_env
  vn_agents :: agent_env
  vn_has_cache :: bool
  vn_uuid_tag :: "string \<Rightarrow> bool"
  vn_format :: "int \<Rightarrow> string"

abbreviation "vn_fail env \<equiv> co_fail (vn_collab env)"
abbreviation "vn_now env \<equiv> co_now (vn_collab env)"

section \<open>Data scope\<close>

definition tenant_of :: "view_state \<Rightarrow> tenant_db" where
  "tenant_of db = \<lparr>tn_apps = cb_apps (vb_collab db), tn_members = cb_members (vb_collab db),
     tn_projects = it_projects (xs_intake (vb_access db)), tn_scans = it_scans (xs_intake (vb_access db)),
     tn_findings = vb_findings db, tn_risks = [], tn_error = None\<rparr>"

definition finding_visible :: "view_state \<Rightarrow> scope \<Rightarrow> finding \<Rightarrow> bool" where
  "finding_visible db sco f \<longleftrightarrow> (case sco of None \<Rightarrow> True | Some u \<Rightarrow> scan_join (tenant_of db) u (fd_ScanID f) \<noteq> [])"

section \<open>Columns of the queries\<close>

definition hidden_columns :: "finding \<Rightarrow> finding" where
  "hidden_columns f = f\<lparr>fd_Raw := [], fd_SecretHash := [], fd_ProjectID := None, fd_Fingerprint := [],
     fd_SLAAttempted := None, fd_SummaryFP := None, fd_AISummary := Some (text_col (fd_AISummary f))\<rparr>"

definition list_columns :: "finding \<Rightarrow> finding" where
  "list_columns f = (hidden_columns f)\<lparr>fd_CodeSnippet := [], fd_VulnID := None\<rparr>"

definition export_columns :: "finding \<Rightarrow> finding" where
  "export_columns f = (list_columns f)\<lparr>fd_LineEnd := 0, fd_AISummary := Some [], fd_SummaryState := [],
     fd_Suppressed := False, fd_RemediationSlug := None\<rparr>"

definition corroboration_count :: "finding list \<Rightarrow> finding \<Rightarrow> nat" where
  "corroboration_count rows f =
     (case fd_VulnID f of None \<Rightarrow> 0
      | Some v \<Rightarrow> length (remdups (map fd_Scanner (filter (\<lambda>g. fd_VulnID g = Some v) rows))))"

definition buildFindingJiraIssue :: "bool \<Rightarrow> string \<Rightarrow> string \<Rightarrow> string \<Rightarrow> string \<Rightarrow> string \<Rightarrow> int \<Rightarrow> jira_link option" where
  "buildFindingJiraIssue hasIssue i findingID issueKey issueURL status createdAt =
     (if \<not> hasIssue then None
      else Some \<lparr>jl_ID = i, jl_FindingID = findingID, jl_IssueKey = (if issueKey \<noteq> [] then Some issueKey else None),
        jl_IssueURL = (if issueURL \<noteq> [] then Some issueURL else None), jl_Status = (if status \<noteq> [] then Some status else None),
        jl_CreatedAt = createdAt\<rparr>)"

text \<open>The left join with \<^verbatim>\<open>jira_issue_links\<close>, where a finding has at most one row.\<close>

definition joined_link :: "jira_link list \<Rightarrow> string \<Rightarrow> jira_link option" where
  "joined_link links findingID =
     (case row_by jl_FindingID findingID links of
        None \<Rightarrow> buildFindingJiraIssue False [] findingID [] [] [] 0
      | Some l \<Rightarrow> buildFindingJiraIssue True (jl_ID l) findingID (text_col (jl_IssueKey l)) (text_col (jl_IssueURL l))
          (text_col (jl_Status l)) (jl_CreatedAt l))"

text \<open>\<^verbatim>\<open>string_agg(DISTINCT ...)\<close> sorts what it joins.\<close>

definition corroborating_names :: "view_state \<Rightarrow> string \<Rightarrow> string" where
  "corroborating_names db findingID = join '','' (sort (corroborating (vb_findings db) (ag_corr (vb_agents db)) findingID))"

definition analyzed :: "view_state \<Rightarrow> string \<Rightarrow> bool" where
  "analyzed db findingID \<longleftrightarrow>
     list_ex (\<lambda>a. aa_FindingID a = findingID \<and> aa_AgentType a = ''validator'') (ag_analyses (vb_agents db))"

definition list_view :: "view_state \<Rightarrow> finding \<Rightarrow> finding_view" where
  "list_view db f = \<lparr>fw_row = list_columns f, fw_SnippetStartLine = 0,
     fw_CorroborationCount = corroboration_count (vb_findings db) f, fw_AIAnalyzed = analyzed db (fd_ID f),
     fw_CorroboratingScanners = corroborating_names db (fd_ID f), fw_Jira = joined_link (vb_links db) (fd_ID f)\<rparr>"

definition single_view :: "view_state \<Rightarrow> finding \<Rightarrow> finding_view" where
  "single_view db f = \<lparr>fw_row = hidden_columns f, fw_SnippetStartLine = 0,
     fw_CorroborationCount = corroboration_count (vb_findings db) f, fw_AIAnalyzed = False,
     fw_CorroboratingScanners = [], fw_Jira = joined_link (vb_links db) (fd_ID f)\<rparr>"

definition export_view :: "view_state \<Rightarrow> finding \<Rightarrow> finding_view" where
  "export_view db f = \<lparr>fw_row = export_columns f, fw_SnippetStartLine = 0,
     fw_CorroborationCount = corroboration_count (vb_findings db) f, fw_AIAnalyzed = False,
     fw_CorroboratingScanners = [], fw_Jira = None\<rparr>"

section \<open>Listing\<close>

record finding_filter =
  fq_Severities :: "string list"
  fq_Scanner :: string
  fq_Status :: string
  fq_Category :: string
  fq_CVESearch :: string
  fq_Overdue :: bool
  fq_ShowSuppressed :: bool
  fq_Page :: int
  fq_Limit :: int
  fq_FilePath :: string
  fq_SortBy :: string
  fq_UserID :: scope

text \<open>The scanners the statement names for a category.\<close>

definition category_scanners :: "string \<Rightarrow> string list" where
  "category_scanners category =
     (if category = ''sast'' then [''semgrep'', ''gosec'']
      else if category = ''sca'' then [''trivy'', ''grype'', ''osv-scanner'']
      else if category = ''secrets'' then [''trufflehog'', ''gitleaks'']
      else if category = ''iac'' then [''checkov'', ''tfsec'', ''kics'']
      else if category = ''containers'' then [''trivy-image'', ''grype-image'']
      else if category = ''dast'' then [''nuclei'']
      else [])"

definition overdue :: "int \<Rightarrow> finding \<Rightarrow> bool" where
  "overdue now f \<longleftrightarrow> (case fd_SLADeadline f of None \<Rightarrow> False | Some d \<Rightarrow> d < now) \<and> fd_Status f \<notin> set closed_statuses"

definition cve_contains :: "string \<Rightarrow> finding \<Rightarrow> bool" where
  "cve_contains s f \<longleftrightarrow> (case fd_CVEID f of None \<Rightarrow> False | Some c \<Rightarrow> ilike c (percent # s @ [percent]))"

text \<open>A list without severities is \<^verbatim>\<open>NULL\<close> in the statement.\<close>

definition finding_matches :: "view_state \<Rightarrow> int \<Rightarrow> finding_filter \<Rightarrow> finding \<Rightarrow> bool" where
  "finding_matches db now q f \<longleftrightarrow>
     (fq_Severities q = [] \<or> fd_Severity f \<in> set (fq_Severities q)) \<and>
     (fq_Scanner q = [] \<or> fd_Scanner f = fq_Scanner q) \<and>
     (fq_Status q = [] \<or> fd_Status f = fq_Status q) \<and>
     (fq_Overdue q \<longrightarrow> overdue now f) \<and>
     (fq_Category q = [] \<or> fd_Scanner f \<in> set (category_scanners (fq_Category q))) \<and>
     (fq_CVESearch q = [] \<or> cve_contains (fq_CVESearch q) f) \<and>
     (fq_ShowSuppressed q \<or> \<not> fd_Suppressed f) \<and>
     (fq_FilePath q = [] \<or> fd_FilePath f = fq_FilePath q) \<and>
     finding_visible db (fq_UserID q) f"

text \<open>The columns of \<^verbatim>\<open>ORDER BY\<close> from the last to the first.\<close>

definition newest_severe :: "finding list \<Rightarrow> finding list" where
  "newest_severe rows = sort_key (\<lambda>f. severity_order (fd_Severity f)) (sort_key (\<lambda>f. - fd_CreatedAt f) rows)"

definition order_findings :: "finding list \<Rightarrow> string \<Rightarrow> finding list \<Rightarrow> finding list" where
  "order_findings table sortBy rows =
     (let rows = newest_severe rows; score = (\<lambda>f. coalesce_col (fd_Confidence f) 0) in
      if sortBy = ''confidence_desc'' then sort_key (\<lambda>f. - score f) rows
      else if sortBy = ''confidence_asc'' then sort_key score rows
      else if sortBy = ''corroborated'' then sort_key (\<lambda>f. - int (corroboration_count table f)) rows
      else rows)"

definition all_findings :: "view_env \<Rightarrow> finding_filter \<Rightarrow> view_state \<Rightarrow> finding list" where
  "all_findings env q db =
     order_findings (vb_findings db) (fq_SortBy q) (filter (finding_matches db (vn_now env) q) (vb_findings db))"

definition scope_ok :: "view_env \<Rightarrow> scope \<Rightarrow> bool" where
  "scope_ok env sco \<longleftrightarrow> (case sco of None \<Rightarrow> True | Some u \<Rightarrow> co_uuid_ok (vn_collab env) u)"

text \<open>The error of the second query is ignored.\<close>

definition Finding_List :: "view_env \<Rightarrow> finding_filter \<Rightarrow> view_state \<Rightarrow> string + finding_view list \<times> nat" where
  "Finding_List env q db =
     (let (page, limit) = normalize_page (fq_Page q) (fq_Limit q); found = all_findings env q db in
      case vn_fail env ''findings.List'' of
        Some e \<Rightarrow> Inl (''findings list: '' @ e)
      | None \<Rightarrow>
        if \<not> scope_ok env (fq_UserID q) then Inl ''findings list: invalid input syntax for type uuid''
        else (case page_of page limit found of
            Inl e \<Rightarrow> Inl (''findings list: '' @ e)
          | Inr rows \<Rightarrow> Inr (map (list_view db) rows,
              case vn_fail env ''findings.Count'' of Some e \<Rightarrow> 0
              | None \<Rightarrow> length (filter (finding_matches db (vn_now env) q) (vb_findings db)))))"

definition Finding_GetByID :: "view_env \<Rightarrow> string \<Rightarrow> string \<Rightarrow> view_state \<Rightarrow> string + finding_view" where
  "Finding_GetByID env call findingID db =
     (case vn_fail env call of
        Some e \<Rightarrow> Inl e
      | None \<Rightarrow> (case GetByID findingID (vb_findings db) of
          None \<Rightarrow> Inl ''no rows in result set'' | Some f \<Rightarrow> Inr (single_view db f)))"

definition Finding_Update :: "view_env \<Rightarrow> string \<Rightarrow> finding_update \<Rightarrow> view_state \<Rightarrow> (string + finding_view) \<times> view_state" where
  "Finding_Update env findingID upd db =
     (case vn_fail env ''findings.Update'' of
        Some e \<Rightarrow> (Inl (''update finding: '' @ e), db)
      | None \<Rightarrow>
        (let db1 = db\<lparr>vb_agents := (vb_agents db)\<lparr>ag_findings := snd (Update (vn_now env) findingID upd (vb_findings db))\<rparr>\<rparr>
         in (Finding_GetByID env ''findings.Update.GetByID'' findingID db1, db1)))"

definition Finding_SLASummary :: "view_env \<Rightarrow> scope \<Rightarrow> view_state \<Rightarrow> string + nat \<times> nat \<times> nat \<times> nat" where
  "Finding_SLASummary env sco db =
     (case vn_fail env ''findings.GetSLASummary'' of
        Some e \<Rightarrow> Inl (''sla summary: '' @ e)
      | None \<Rightarrow>
        if \<not> scope_ok env sco then Inl ''sla summary: invalid input syntax for type uuid''
        else Inr (GetSLASummary (vn_now env) (filter (finding_visible db sco) (vb_findings db))))"

definition ExportRows :: "view_env \<Rightarrow> string list \<Rightarrow> string \<Rightarrow> string \<Rightarrow> scope \<Rightarrow> view_state \<Rightarrow> string + finding_view list" where
  "ExportRows env severities scanner status sco db =
     (case vn_fail env ''findings.ExportRows'' of
        Some e \<Rightarrow> Inl (''export findings: '' @ e)
      | None \<Rightarrow>
        if \<not> scope_ok env sco then Inl ''export findings: invalid input syntax for type uuid''
        else Inr (map (export_view db) (newest_severe (filter (\<lambda>f.
          (severities = [] \<or> fd_Severity f \<in> set severities) \<and> (scanner = [] \<or> fd_Scanner f = scanner) \<and>
          (status = [] \<or> fd_Status f = status) \<and> finding_visible db sco f) (vb_findings db)))))"

definition ListUniqueFiles :: "view_env \<Rightarrow> scope \<Rightarrow> view_state \<Rightarrow> string + string list" where
  "ListUniqueFiles env sco db =
     (case vn_fail env ''findings.ListUniqueFiles'' of
        Some e \<Rightarrow> Inl (''list unique files: '' @ e)
      | None \<Rightarrow>
        if \<not> scope_ok env sco then Inl ''list unique files: invalid input syntax for type uuid''
        else Inr (sort (remdups (map fd_FilePath
          (filter (\<lambda>f. fd_FilePath f \<noteq> [] \<and> finding_visible db sco f) (vb_findings db))))))"

section \<open>Display\<close>

definition normalizeDisplayPath :: "string \<Rightarrow> string" where
  "normalizeDisplayPath path =
     (let path = trim_space path in
      if path = [] then []
      else if contains path ''://'' \<and> \<not> has_prefix path ''file://'' then path
      else
        (let path = trim_prefix path ''file://'';
             path = (if has_prefix path ''/src/'' then trim_prefix path ''/src'' else path);
             path = (if has_prefix path ''src/'' then ''/'' @ trim_prefix path ''src/'' else path)
         in if \<not> has_prefix path ''/'' then ''/'' @ path else path))"

definition shouldUseRuleIDAsTitle :: "finding \<Rightarrow> bool" where
  "shouldUseRuleIDAsTitle f \<longleftrightarrow>
     (let title = trim_space (fd_Title f); description = trim_space (fd_Description f); trimmed = trim_suffix title ellipsis_rune in
      title = [] \<or> trimmed = [] \<or> (has_suffix title ellipsis_rune \<and> description \<noteq> [] \<and> has_prefix description trimmed))"

definition replace_char :: "char \<Rightarrow> char \<Rightarrow> string \<Rightarrow> string" where
  "replace_char a b s = map (\<lambda>c. if c = a then b else c) s"

text \<open>\<^verbatim>\<open>strings.ToUpper\<close> of the first byte: a byte that is no rune becomes the replacement character.\<close>

definition upper_byte :: "char \<Rightarrow> string" where
  "upper_byte c = (if (of_char c :: nat) < 128 then [to_upper_char c] else [CHR 0xEF, CHR 0xBF, CHR 0xBD])"

definition humanizeRuleID :: "string \<Rightarrow> string" where
  "humanizeRuleID ruleID =
     (let ruleID = trim_space ruleID in
      if ruleID = [] then []
      else
        (let segment = (case last_index_byte ruleID CHR ''.'' of Some idx \<Rightarrow> drop (idx + 1) ruleID | None \<Rightarrow> ruleID);
             segment = replace_char CHR ''-'' CHR '' '' (replace_char CHR ''_'' CHR '' '' segment);
             segment = join '' '' (go_fields segment)
         in case segment of [] \<Rightarrow> ruleID | c # rest \<Rightarrow> upper_byte c @ rest))"

definition normalizeFindingForDisplay :: "finding_view \<Rightarrow> finding_view" where
  "normalizeFindingForDisplay v =
     (let f = (fw_row v)\<lparr>fd_FilePath := normalizeDisplayPath (fd_FilePath (fw_row v))\<rparr>;
          f = (if shouldUseRuleIDAsTitle f \<and> humanizeRuleID (fd_RuleID f) \<noteq> [] then f\<lparr>fd_Title := humanizeRuleID (fd_RuleID f)\<rparr> else f)
      in v\<lparr>fw_row := f, fw_SnippetStartLine :=
           (if fw_SnippetStartLine v = 0 \<and> fd_CodeSnippet f \<noteq> [] then fd_LineStart f else fw_SnippetStartLine v)\<rparr>)"

section \<open>Reading handlers\<close>

fun csv_values :: "string list \<Rightarrow> string list \<Rightarrow> string list" where
  "csv_values seen [] = []"
| "csv_values seen (p # ps) =
     (let value = trim_space p in
      if value = [] \<or> value \<in> set seen then csv_values seen ps else value # csv_values (value # seen) ps)"

definition parseCSVParam :: "string \<Rightarrow> string list" where
  "parseCSVParam raw = (let raw = trim_space raw in if raw = [] then [] else csv_values [] (split_on CHR '','' raw))"

definition list_request :: "claims option \<Rightarrow> (string \<Rightarrow> string) \<Rightarrow> finding_filter" where
  "list_request who q =
     (let (page, limit) = normalize_page (fst (atoi (q ''page''))) (fst (atoi (q ''limit''))) in
      \<lparr>fq_Severities = parseCSVParam (q ''severity''), fq_Scanner = q ''scanner'', fq_Status = q ''status'',
       fq_Category = q ''category'', fq_CVESearch = q ''cve_id'', fq_Overdue = (q ''overdue'' = ''true''),
       fq_ShowSuppressed = (q ''suppressed'' = ''true''), fq_Page = page, fq_Limit = limit, fq_FilePath = q ''file_path'',
       fq_SortBy = q ''sort_by'', fq_UserID = claims_scope who\<rparr>)"

definition ListFindings :: "view_env \<Rightarrow> claims option \<Rightarrow> (string \<Rightarrow> string) \<Rightarrow> view_state \<Rightarrow> (finding_view list \<times> nat) reply" where
  "ListFindings env who q db =
     (case Finding_List env (list_request who q) db of
        Inl e \<Rightarrow> Inl (500, ''failed to list findings'')
      | Inr (rows, cnt) \<Rightarrow> Inr (map normalizeFindingForDisplay rows, cnt))"

definition GetFinding :: "view_env \<Rightarrow> string \<Rightarrow> view_state \<Rightarrow> finding_view reply" where
  "GetFinding env i db =
     (case Finding_GetByID env ''findings.GetByID'' i db of
        Inl e \<Rightarrow> Inl (404, ''finding not found'') | Inr v \<Rightarrow> Inr (normalizeFindingForDisplay v))"

definition GetSLASummary_handler :: "view_env \<Rightarrow> claims option \<Rightarrow> view_state \<Rightarrow> (nat \<times> nat \<times> nat \<times> nat) reply" where
  "GetSLASummary_handler env who db =
     (case Finding_SLASummary env (claims_scope who) db of
        Inl e \<Rightarrow> Inl (500, ''failed to get SLA summary'') | Inr s \<Rightarrow> Inr s)"

definition GetUniqueFiles :: "view_env \<Rightarrow> claims option \<Rightarrow> view_state \<Rightarrow> string list reply" where
  "GetUniqueFiles env who db =
     (case ListUniqueFiles env (claims_scope who) db of
        Inl e \<Rightarrow> Inl (500, ''failed to list files'') | Inr fs \<Rightarrow> Inr fs)"

section \<open>The export\<close>

text \<open>\<^verbatim>\<open>encoding/csv\<close>: a field is quoted when it holds a comma, a quote or a line break, begins with
  white space or is the end marker of PostgreSQL.\<close>

definition quote :: char where "quote = CHR 0x22"

definition fieldNeedsQuotes :: "string \<Rightarrow> bool" where
  "fieldNeedsQuotes s \<longleftrightarrow> s \<noteq> [] \<and>
     (s = [backslash, CHR ''.''] \<or> (\<exists>c \<in> set s. c = CHR '','' \<or> c = quote \<or> c = CHR 0x0D \<or> c = newline) \<or>
      trim_left s \<noteq> s)"

fun double_quotes :: "string \<Rightarrow> string" where
  "double_quotes [] = []"
| "double_quotes (c # s) = (if c = quote then quote # quote # double_quotes s else c # double_quotes s)"

definition csv_field :: "string \<Rightarrow> string" where
  "csv_field s = (if fieldNeedsQuotes s then quote # double_quotes s @ [quote] else s)"

definition csv_record :: "string list \<Rightarrow> string" where
  "csv_record fs = join '','' (map csv_field fs) @ [newline]"

definition derefStr :: "string option \<Rightarrow> string" where
  "derefStr s = (case s of None \<Rightarrow> [] | Some v \<Rightarrow> v)"

definition fmtTime :: "view_env \<Rightarrow> int option \<Rightarrow> string" where
  "fmtTime env t = (case t of None \<Rightarrow> [] | Some v \<Rightarrow> vn_format env v)"

definition export_header :: "string list" where
  "export_header = [''id'', ''scan_id'', ''scanner'', ''rule_id'', ''title'', ''description'',
     ''severity'', ''file_path'', ''line_start'', ''created_at'',
     ''status'', ''assigned_to'', ''false_positive'', ''notes'', ''resolved_at'', ''sla_deadline'',
     ''cve_id'', ''cwe_id'']"

definition export_record :: "view_env \<Rightarrow> finding \<Rightarrow> string list" where
  "export_record env f = [fd_ID f, fd_ScanID f, fd_Scanner f, fd_RuleID f, fd_Title f, fd_Description f,
     fd_Severity f, fd_FilePath f, itoa (fd_LineStart f), vn_format env (fd_CreatedAt f),
     fd_Status f, derefStr (fd_AssignedTo f), (if fd_FalsePositive f then ''true'' else ''false''), derefStr (fd_Notes f),
     fmtTime env (fd_ResolvedAt f), fmtTime env (fd_SLADeadline f),
     derefStr (fd_CVEID f), derefStr (fd_CWEID f)]"

definition ExportFindings :: "view_env \<Rightarrow> claims option \<Rightarrow> (string \<Rightarrow> string) \<Rightarrow> view_state \<Rightarrow> string reply" where
  "ExportFindings env who q db =
     (case ExportRows env (parseCSVParam (q ''severity'')) (q ''scanner'') (q ''status'') (claims_scope who) db of
        Inl e \<Rightarrow> Inl (500, ''failed to export findings'')
      | Inr rows \<Rightarrow> Inr (concat (map csv_record (export_header #
          map (\<lambda>v. export_record env (fw_row (normalizeFindingForDisplay v))) rows))))"

section \<open>Changing handlers\<close>

text \<open>The runes of a text: the bytes that continue none.\<close>

definition rune_count :: "string \<Rightarrow> nat" where
  "rune_count s = length (filter (\<lambda>c. let n = (of_char c :: nat) in n < 128 \<or> 192 \<le> n) s)"

definition finding_statuses :: "string list" where
  "finding_statuses = [''open'', ''in_review'', ''accepted_risk'', ''fixed'', ''verified'']"

definition max_runes :: "nat \<Rightarrow> string option \<Rightarrow> bool" where
  "max_runes n s \<longleftrightarrow> (case s of None \<Rightarrow> True | Some v \<Rightarrow> rune_count v \<le> n)"

record update_request =
  uq_Status :: string
  uq_AssignedTo :: "string option"
  uq_Notes :: string

definition update_request_ok :: "update_request \<Rightarrow> bool" where
  "update_request_ok q \<longleftrightarrow> uq_Status q \<in> set finding_statuses \<and> max_runes 255 (uq_AssignedTo q) \<and> max_runes 5000 (Some (uq_Notes q))"

record bulk_request =
  bq_IDs :: "string list"
  bq_Status :: string
  bq_AssignedTo :: "string option"
  bq_Notes :: "string option"

definition bulk_request_ok :: "view_env \<Rightarrow> bulk_request \<Rightarrow> bool" where
  "bulk_request_ok env q \<longleftrightarrow> bq_IDs q \<noteq> [] \<and> list_all (vn_uuid_tag env) (bq_IDs q) \<and>
     (bq_Status q = [] \<or> bq_Status q \<in> set finding_statuses) \<and> max_runes 255 (bq_AssignedTo q) \<and> max_runes 5000 (bq_Notes q)"

definition validateOwner :: "view_env \<Rightarrow> string \<Rightarrow> view_state \<Rightarrow> string + bool" where
  "validateOwner env owner db =
     (case User_List (ax_user (co_access (vn_collab env))) (xs_users (vb_access db)) of
        Inl e \<Rightarrow> Inl (''list users: '' @ e)
      | Inr users \<Rightarrow>
        if list_ex (\<lambda>u. us_Username u = owner \<or> us_Email u = owner) users then Inr True
        else (case Team_List (vn_collab env) (vb_collab db) of
            Inl e \<Rightarrow> Inl (''list teams: '' @ e)
          | Inr teams \<Rightarrow> Inr (list_ex (\<lambda>(t, ms). te_Name t = owner) teams)))"

definition set_access :: "access_state \<Rightarrow> view_state \<Rightarrow> view_state" where
  "set_access a db = db\<lparr>vb_collab := (vb_collab db)\<lparr>cb_access := a\<rparr>\<rparr>"

definition audit_finding :: "claims option \<Rightarrow> string \<Rightarrow> string \<Rightarrow> view_state \<Rightarrow> view_state" where
  "audit_finding who action i db = set_access ((vb_access db)\<lparr>xs_intake :=
     auditLog who action ''finding'' i (xs_intake (vb_access db))\<rparr>) db"

definition assignment_body :: "string \<Rightarrow> string \<Rightarrow> string \<Rightarrow> string" where
  "assignment_body username title i =
     ''Hi '' @ username @ '','' @ [newline, newline] @ ''You have been assigned as the owner of the following finding:'' @
     [newline, newline] @ ''Title: '' @ title @ [newline] @ ''Finding ID: '' @ i @ [newline, newline] @
     ''Please review it in the dashboard.'' @ [newline, newline] @ ''Thanks,'' @ [newline] @ ''HenKaiPan Team''"

definition notifyOwnerAssignment :: "view_env \<Rightarrow> string \<Rightarrow> string \<Rightarrow> string \<Rightarrow> view_state \<Rightarrow> view_state" where
  "notifyOwnerAssignment env findingID title owner db =
     (let access = co_access (vn_collab env) in
      case User_List (ax_user access) (xs_users (vb_access db)) of
        Inl e \<Rightarrow> db
      | Inr users \<Rightarrow>
        (case find (\<lambda>u. us_Username u = owner \<or> us_Email u = owner) users of
           None \<Rightarrow> db
         | Some u \<Rightarrow>
           (let summary = (case Finding_GetByID env ''findings.GetByID'' findingID db of
                  Inl e \<Rightarrow> [] | Inr v \<Rightarrow> text_col (fd_AISummary (fw_row v)));
                a = create_and_publish access \<lparr>nc_UserID = us_ID u, nc_Title = ''New Finding Assigned'',
                  nc_Message = ''You have been assigned as owner of finding: '' @ title, nc_Type = ''finding_assignment'',
                  nc_EntityType = Some ''finding'', nc_EntityID = Some findingID, nc_AISummary = summary\<rparr> (vb_access db)
            in set_access (notify_email access (''Finding assigned to you: '' @ title)
                 (assignment_body (us_Username u) title findingID) (us_Email u) a) db)))"

definition findingDetailCacheKey :: "string \<Rightarrow> string" where
  "findingDetailCacheKey i = i @ '':detail''"

definition cache_key :: "string \<Rightarrow> string" where
  "cache_key k = ''cache:findings:'' @ k"

definition cache_get :: "view_env \<Rightarrow> string \<Rightarrow> view_state \<Rightarrow> finding_detail option" where
  "cache_get env k db = (case vn_fail env ''cache.Get'' of Some e \<Rightarrow> None | None \<Rightarrow> redis_get (vn_now env) (cache_key k) (vb_cache db))"

definition cache_set :: "view_env \<Rightarrow> string \<Rightarrow> finding_detail \<Rightarrow> view_state \<Rightarrow> view_state" where
  "cache_set env k v db = (case vn_fail env ''cache.Set'' of Some e \<Rightarrow> db
     | None \<Rightarrow> db\<lparr>vb_cache := (vb_cache db)(cache_key k \<mapsto> (v, vn_now env + 300))\<rparr>)"

definition cache_del :: "view_env \<Rightarrow> string \<Rightarrow> view_state \<Rightarrow> view_state" where
  "cache_del env k db = (case vn_fail env ''cache.Del'' of Some e \<Rightarrow> db
     | None \<Rightarrow> db\<lparr>vb_cache := (vb_cache db)(cache_key k := None)\<rparr>)"

definition drop_detail :: "view_env \<Rightarrow> string \<Rightarrow> view_state \<Rightarrow> view_state" where
  "drop_detail env i db = (if vn_has_cache env then cache_del env (i @ '':detail'') db else db)"

text \<open>\<open>None\<close> is the panic on the finding that could not be read before the update.\<close>

definition UpdateFinding ::
  "view_env \<Rightarrow> claims option \<Rightarrow> string \<Rightarrow> update_request option \<Rightarrow> view_state \<Rightarrow> finding_view reply option \<times> view_state" where
  "UpdateFinding env who i body db =
     (case body of
        None \<Rightarrow> (Some (Inl (400, ''invalid body'')), db)
      | Some req \<Rightarrow>
        if \<not> update_request_ok req then (Some (Inl (400, ''Validation failed'')), db)
        else
          (let old = Finding_GetByID env ''findings.GetByID.old'' i db in
           case Finding_Update env i \<lparr>fu_Status = Some (uq_Status req), fu_AssignedTo = uq_AssignedTo req, fu_FalsePositive = None,
               fu_Notes = Some (uq_Notes req)\<rparr> db of
             (Inl e, db1) \<Rightarrow> (Some (Inl (404, ''finding not found'')), db1)
           | (Inr v, db1) \<Rightarrow>
             (let db2 = drop_detail env i (audit_finding who ''finding.update'' i db1);
                  v = normalizeFindingForDisplay v;
                  newOwner = trim_space (derefStr (uq_AssignedTo req))
              in if newOwner = [] then (Some (Inr v), db2)
                 else (case old of
                     Inl e \<Rightarrow> (None, db2)
                   | Inr before \<Rightarrow> (Some (Inr v),
                       if derefStr (fd_AssignedTo (fw_row before)) \<noteq> newOwner
                       then notifyOwnerAssignment env i (fd_Title (fw_row v)) newOwner db2 else db2)))))"

definition bulk_one :: "view_env \<Rightarrow> claims option \<Rightarrow> finding_update \<Rightarrow> string \<Rightarrow> view_state \<Rightarrow> bool \<times> view_state" where
  "bulk_one env who upd i db =
     (case Finding_Update env i upd db of
        (Inl e, db1) \<Rightarrow> (False, db1)
      | (Inr v, db1) \<Rightarrow>
        (let db2 = audit_finding who ''finding.bulk_update'' i db1;
             newOwner = derefStr (fu_AssignedTo upd);
             db3 = (if newOwner = [] then db2
               else (case Finding_GetByID env ''findings.GetByID'' i db2 of
                   Inl e \<Rightarrow> db2
                 | Inr before \<Rightarrow> if derefStr (fd_AssignedTo (fw_row before)) \<noteq> newOwner
                     then notifyOwnerAssignment env i (fd_Title (fw_row v)) newOwner db2 else db2))
         in (True, drop_detail env i db3)))"

fun bulk_loop :: "view_env \<Rightarrow> claims option \<Rightarrow> finding_update \<Rightarrow> string list \<Rightarrow> nat \<Rightarrow> view_state \<Rightarrow> nat \<times> view_state" where
  "bulk_loop env who upd [] updated db = (updated, db)"
| "bulk_loop env who upd (i # is) updated db =
     (case bulk_one env who upd i db of (ok, db1) \<Rightarrow> bulk_loop env who upd is (if ok then updated + 1 else updated) db1)"

definition bulk_update :: "bulk_request \<Rightarrow> finding_update" where
  "bulk_update q = \<lparr>fu_Status = (if bq_Status q \<noteq> [] then Some (bq_Status q) else None), fu_AssignedTo = bq_AssignedTo q,
     fu_FalsePositive = None, fu_Notes = bq_Notes q\<rparr>"

definition BulkUpdateFindings ::
  "view_env \<Rightarrow> claims option \<Rightarrow> bulk_request option \<Rightarrow> view_state \<Rightarrow> nat reply \<times> view_state" where
  "BulkUpdateFindings env who body db =
     (case body of
        None \<Rightarrow> (Inl (400, ''invalid request body''), db)
      | Some q \<Rightarrow>
        if \<not> bulk_request_ok env q then (Inl (400, ''Validation failed''), db)
        else (let upd = bulk_update q in
          if fu_Status upd = None \<and> fu_AssignedTo upd = None \<and> fu_Notes upd = None
          then (Inl (400, ''at least one field (status, assigned_to, notes) is required''), db)
          else (case bulk_loop env who upd (bq_IDs q) 0 db of (n, db1) \<Rightarrow> (Inr n, db1))))"

section \<open>The detail page\<close>

definition optional :: "string + 'a \<Rightarrow> 'a option" where
  "optional r = (case r of Inl e \<Rightarrow> None | Inr v \<Rightarrow> Some v)"

definition GetJiraIssueLinkByFindingID :: "view_env \<Rightarrow> string \<Rightarrow> view_state \<Rightarrow> string + jira_link" where
  "GetJiraIssueLinkByFindingID env i db =
     (case vn_fail env ''settings.GetJiraIssueLink'' of
        Some e \<Rightarrow> Inl (''get jira issue link: '' @ e)
      | None \<Rightarrow>
        if \<not> co_uuid_ok (vn_collab env) i then Inl ''get jira issue link: invalid input syntax for type uuid''
        else (case row_by jl_FindingID i (vb_links db) of None \<Rightarrow> Inl ''no rows in result set'' | Some l \<Rightarrow> Inr l))"

definition build_detail :: "view_env \<Rightarrow> string \<Rightarrow> finding_view \<Rightarrow> view_state \<Rightarrow> finding_detail" where
  "build_detail env i v db = \<lparr>dl_Finding = normalizeFindingForDisplay v,
     dl_Correlations = optional (GetCorrelatedFindings (vn_agents env) i (vb_agents db)),
     dl_Analysis = optional (GetAnalysis (vn_agents env) i ''validator'' (vb_agents db)),
     dl_Jira = optional (GetJiraIssueLinkByFindingID env i db),
     dl_Risk = optional (Risk_GetByFindingID (vn_collab env) i (vb_collab db))\<rparr>"

definition GetFindingDetail :: "view_env \<Rightarrow> string \<Rightarrow> view_state \<Rightarrow> finding_detail reply \<times> view_state" where
  "GetFindingDetail env i db =
     (case (if vn_has_cache env then cache_get env (findingDetailCacheKey i) db else None) of
        Some cached \<Rightarrow> (Inr cached, db)
      | None \<Rightarrow>
        (case Finding_GetByID env ''findings.GetByID'' i db of
           Inl e \<Rightarrow> (Inl (404, ''finding not found''), db)
         | Inr v \<Rightarrow> (let d = build_detail env i v db in
             (Inr d, if vn_has_cache env then cache_set env (findingDetailCacheKey i) d db else db))))"

section \<open>Pages\<close>

text \<open>A query that is read page by page: what it returns for a page, the whole result, and when the
  law holds.  Both lists of the platform that count their rows are instances.\<close>

lemma concat_pages: "concat (map (\<lambda>k. take l (drop (k * l) xs)) [0..<n]) = take (n * l) xs"
proof (induction n)
  case (Suc n)
  then show ?case by (simp add: take_add [symmetric] add.commute [of l])
qed simp

lemma concat_pages_all:
  assumes "length xs \<le> n * l"
  shows "concat (map (\<lambda>k. take l (drop ((k - 1) * l) xs)) [1..<Suc n]) = xs"
proof -
  have "map (\<lambda>k. take l (drop ((k - 1) * l) xs)) [1..<Suc n] = map (\<lambda>k. take l (drop (k * l) xs)) [0..<n]"
    by (rule nth_equalityI) (simp_all del: upt_Suc)
  then show ?thesis using concat_pages [of l xs n] assms by simp
qed

lemma go_int64_small: "- 9223372036854775808 \<le> x \<Longrightarrow> x < 9223372036854775808 \<Longrightarrow> go_int64 x = x"
  by (simp add: go_int64_def)

lemma page_of_small:
  assumes "1 \<le> k" "k \<le> 4294967296" "l \<le> 100"
  shows "page_of (int k) (int l) rows = Inr (take l (drop ((k - 1) * l) rows))"
proof -
  have le: "(k - 1) * l \<le> 4294967296 * 100" by (intro mult_le_mono) (use assms in auto)
  have k: "int k - 1 = int (k - 1)" using assms by simp
  have "go_int64 (int k - 1) = int (k - 1)" unfolding k by (rule go_int64_small) (use assms in auto)
  moreover have "int (k - 1) * int l = int ((k - 1) * l)" by simp
  moreover have "go_int64 (int ((k - 1) * l)) = int ((k - 1) * l)" by (rule go_int64_small) (use le in linarith)+
  ultimately show ?thesis by (simp add: page_of_def Let_def del: of_nat_mult)
qed

locale paged_query =
  fixes holds :: "'e \<Rightarrow> bool" and limit :: "'e \<Rightarrow> nat" and whole :: "'e \<Rightarrow> 'v list"
    and fetch :: "'e \<Rightarrow> int \<Rightarrow> string + 'v list \<times> nat"
  assumes page_law: "holds e \<Longrightarrow> 1 \<le> k \<Longrightarrow> k \<le> 4294967296 \<Longrightarrow>
    fetch e (int k) = Inr (take (limit e) (drop ((k - 1) * limit e) (whole e)), length (whole e))"
begin

definition page_rows :: "'e \<Rightarrow> nat \<Rightarrow> 'v list" where
  "page_rows e k = (case fetch e (int k) of Inl _ \<Rightarrow> [] | Inr (rows, cnt) \<Rightarrow> rows)"

lemma pages_whole:
  assumes h: "holds e" and n: "length (whole e) \<le> n * limit e" "n \<le> 4294967296"
  shows "concat (map (page_rows e) [1..<Suc n]) = whole e"
proof -
  have "map (page_rows e) [1..<Suc n] = map (\<lambda>k. take (limit e) (drop ((k - 1) * limit e) (whole e))) [1..<Suc n]"
  proof (rule map_cong [OF refl])
    fix k assume "k \<in> set [1..<Suc n]"
    then have "1 \<le> k" "k \<le> 4294967296" using n by auto
    then show "page_rows e k = take (limit e) (drop ((k - 1) * limit e) (whole e))"
      by (simp add: page_rows_def page_law [OF h])
  qed
  then show ?thesis by (simp only: concat_pages_all [OF n(1)])
qed

lemma page_total: "holds e \<Longrightarrow> 1 \<le> k \<Longrightarrow> k \<le> 4294967296 \<Longrightarrow> fetch e (int k) = Inr (rows, cnt) \<Longrightarrow> cnt = length (whole e)"
  by (simp add: page_law)

lemma page_length: "holds e \<Longrightarrow> 1 \<le> k \<Longrightarrow> k \<le> 4294967296 \<Longrightarrow> fetch e (int k) = Inr (rows, cnt) \<Longrightarrow> length rows \<le> limit e"
  by (auto simp: page_law)

end

lemma all_findings_mset:
  "mset (all_findings env q db) = mset (filter (finding_matches db (vn_now env) q) (vb_findings db))"
  by (simp add: all_findings_def order_findings_def newest_severe_def Let_def)

lemma length_all_findings:
  "length (all_findings env q db) = length (filter (finding_matches db (vn_now env) q) (vb_findings db))"
  by (rule mset_eq_length [OF all_findings_mset])

definition listable :: "view_env \<times> finding_filter \<times> view_state \<Rightarrow> bool" where
  "listable = (\<lambda>(env, q, db). vn_fail env = (\<lambda>_. None) \<and> scope_ok env (fq_UserID q) \<and> 1 \<le> fq_Limit q \<and> fq_Limit q \<le> 100)"

lemma matches_page: "finding_matches db now (q\<lparr>fq_Page := p\<rparr>) = finding_matches db now q"
  by (simp add: fun_eq_iff finding_matches_def)

lemma all_findings_page: "all_findings env (q\<lparr>fq_Page := p\<rparr>) db = all_findings env q db"
  by (simp add: all_findings_def matches_page)

lemma Finding_List_page:
  assumes h: "vn_fail env = (\<lambda>_. None)" "scope_ok env (fq_UserID q)" "1 \<le> fq_Limit q" "fq_Limit q \<le> 100"
    and k: "1 \<le> k" "k \<le> 4294967296"
  shows "Finding_List env (q\<lparr>fq_Page := int k\<rparr>) db =
    Inr (take (nat (fq_Limit q)) (drop ((k - 1) * nat (fq_Limit q)) (map (list_view db) (all_findings env q db))),
         length (map (list_view db) (all_findings env q db)))"
proof -
  define l where "l = nat (fq_Limit q)"
  then have l: "fq_Limit q = int l" "l \<le> 100" using h(3,4) by auto
  have "normalize_page (int k) (int l) = (int k, int l)" using h k l by (simp add: normalize_page_def)
  then show ?thesis using page_of_small [OF k l(2)] h
    by (simp add: Finding_List_def all_findings_page matches_page l length_all_findings take_map drop_map Let_def
        page_of_small [OF k l(2), of "all_findings env q db", simplified])
qed

interpretation findings_paged: paged_query listable
  "\<lambda>(env, q, db). nat (fq_Limit q)" "\<lambda>(env, q, db). map (list_view db) (all_findings env q db)"
  "\<lambda>(env, q, db) p. Finding_List env (q\<lparr>fq_Page := p\<rparr>) db"
  by unfold_locales (auto simp: listable_def Finding_List_page split: prod.splits)

text \<open>The audit log, whose listing is given the page.\<close>

interpretation audit_paged: paged_query
  "\<lambda>(env, sco, f, l, rows). co_fail env = (\<lambda>_. None) \<and> 1 \<le> l \<and> l \<le> (100 :: nat)"
  "\<lambda>(env, sco, f, l, rows). l"
  "\<lambda>(env, sco, (u, t, a), l, rows). rev (filter (audit_matches sco u t a) rows)"
  "\<lambda>(env, sco, (u, t, a), l, rows) p. Audit_List env sco u t a p (int l) rows"
  by unfold_locales (auto simp: Audit_List_def normalize_page_def page_of_small Let_def)


text \<open>A page so far that its offset leaves the 64-bit integers is answered with an error: the offset
  is negative and the database refuses it.\<close>

theorem huge_page_refused:
  assumes "9223372036854775808 \<le> (fq_Page q - 1) * fq_Limit q" "(fq_Page q - 1) * fq_Limit q < 18446744073709551616"
    and "1 \<le> fq_Page q" "fq_Page q < 9223372036854775808" "1 \<le> fq_Limit q" "fq_Limit q \<le> 100"
  shows "isl (Finding_List env q db)"
proof -
  have p: "go_int64 (fq_Page q - 1) = fq_Page q - 1" by (rule go_int64_small) (use assms in auto)
  let ?x = "(fq_Page q - 1) * fq_Limit q"
  have "(?x + 9223372036854775808) mod 18446744073709551616 = ?x + 9223372036854775808 - 18446744073709551616"
    using assms(1,2) by (simp add: mod_pos_geq mod_pos_pos_trivial)
  then have "go_int64 ?x < 0" using assms(2) by (simp add: go_int64_def)
  then have "isl (page_of (fq_Page q) (fq_Limit q) (all_findings env q db))" by (simp add: page_of_def Let_def p)
  then obtain e where "page_of (fq_Page q) (fq_Limit q) (all_findings env q db) = Inl e" by (auto simp: isl_def)
  then show ?thesis using assms by (simp add: Finding_List_def normalize_page_def split: option.split)
qed

text \<open>The category filter of the list is that of the scanner registry: a finding passes it exactly
  when the registry gives its scanner that category.\<close>

theorem category_filter_registry:
  "finding_matches db now (q\<lparr>fq_Category := c\<rparr>) f \<longleftrightarrow>
     (c = [] \<or> CategoryFor (fd_Scanner f) = Some c) \<and> finding_matches db now (q\<lparr>fq_Category := []\<rparr>) f"
proof -
  have "fd_Scanner f \<in> set (category_scanners c) \<longleftrightarrow> CategoryFor (fd_Scanner f) = Some c"
    by (auto simp: CategoryFor_table category_scanners_def split: if_splits)
  then show ?thesis by (simp add: finding_matches_def) blast
qed

text \<open>C35: A viewer finds in the list exactly the findings that the ownership check of their page admits.\<close>

theorem listed_iff_owned:
  assumes "distinct (map fd_ID (vb_findings db))" "f \<in> set (vb_findings db)"
  shows "finding_visible db (ForUser u) f \<longleftrightarrow> CheckFindingOwnership (tenant_of db) u (fd_ID f) = Inr True"
proof -
  have "finding_join (tenant_of db) u (fd_ID f) \<noteq> [] \<longleftrightarrow>
      (\<exists>g \<in> set (vb_findings db). fd_ID g = fd_ID f \<and> scan_join (tenant_of db) u (fd_ScanID g) \<noteq> [])"
    by (auto simp: finding_join_def tenant_of_def)
  also have "\<dots> \<longleftrightarrow> scan_join (tenant_of db) u (fd_ScanID f) \<noteq> []"
    using assms by (metis distinct_map inj_onD)
  finally show ?thesis
    by (simp add: finding_visible_def ForUser_def CheckFindingOwnership_def count_check_def tenant_of_def)
qed

section \<open>Reading the export\<close>

text \<open>A reader of RFC 4180: at the start of a field, in a plain field, in a quoted field, after a quote
  in a quoted field.\<close>

datatype csv_mode = FieldStart | PlainField | QuotedField | QuoteSeen

fun csv_read :: "csv_mode \<Rightarrow> string \<Rightarrow> string list \<Rightarrow> string \<Rightarrow> string list list" where
  "csv_read m cur fs [] = (if m = FieldStart \<and> fs = [] then [] else [fs @ [cur]])"
| "csv_read m cur fs (c # s) =
     (if m = QuotedField then (if c = quote then csv_read QuoteSeen cur fs s else csv_read QuotedField (cur @ [c]) fs s)
      else if c = CHR '','' then csv_read FieldStart [] (fs @ [cur]) s
      else if c = newline then (fs @ [cur]) # csv_read FieldStart [] [] s
      else if c = quote \<and> m = FieldStart then csv_read QuotedField cur fs s
      else if c = quote \<and> m = QuoteSeen then csv_read QuotedField (cur @ [c]) fs s
      else csv_read PlainField (cur @ [c]) fs s)"

lemma read_quoted:
  "csv_read QuotedField cur fs (double_quotes s @ quote # t) = csv_read QuoteSeen (cur @ s) fs t"
  by (induction s arbitrary: cur) (simp_all add: quote_def newline_def)

definition separator :: "char \<Rightarrow> bool" where
  "separator c \<longleftrightarrow> c = CHR '','' \<or> c = newline"

lemma read_plain:
  assumes "\<forall>c \<in> set s. c \<noteq> CHR '','' \<and> c \<noteq> newline \<and> c \<noteq> quote"
  shows "csv_read PlainField cur fs (s @ t) = csv_read PlainField (cur @ s) fs t"
  using assms by (induction s arbitrary: cur) simp_all

lemma read_mode:
  assumes "separator c" "m \<noteq> QuotedField" "m' \<noteq> QuotedField"
  shows "csv_read m cur fs (c # t) = csv_read m' cur fs (c # t)"
  using assms by (auto simp: separator_def newline_def)

lemma read_field:
  assumes "separator c"
  shows "csv_read FieldStart [] fs (csv_field f @ c # t) = csv_read QuoteSeen f fs (c # t)"
proof (cases "fieldNeedsQuotes f")
  case True
  then show ?thesis using read_quoted [of "[]" fs f "c # t"] by (simp add: csv_field_def quote_def newline_def)
next
  case False
  show ?thesis
  proof (cases f)
    case Nil
    then show ?thesis using read_mode [OF assms, of FieldStart QuoteSeen] by (simp add: csv_field_def fieldNeedsQuotes_def)
  next
    case (Cons x s)
    then have plain: "\<forall>c \<in> set f. c \<noteq> CHR '','' \<and> c \<noteq> newline \<and> c \<noteq> quote" using False by (simp add: fieldNeedsQuotes_def)
    have "csv_read FieldStart [] fs (f @ c # t) = csv_read PlainField [] fs (f @ c # t)"
      using plain by (simp add: Cons)
    also have "\<dots> = csv_read PlainField f fs (c # t)" using read_plain [OF plain, of "[]"] by simp
    also have "\<dots> = csv_read QuoteSeen f fs (c # t)" by (rule read_mode [OF assms]) simp_all
    finally show ?thesis using False by (simp add: csv_field_def)
  qed
qed

lemma read_record:
  "fs \<noteq> [] \<Longrightarrow> csv_read FieldStart [] past (csv_record fs @ t) = (past @ fs) # csv_read FieldStart [] [] t"
proof (induction fs arbitrary: past rule: list_nonempty_induct)
  case (single w)
  show ?case using read_field [of newline past w t] by (simp add: csv_record_def separator_def newline_def)
next
  case (cons w vs)
  have comma: "separator CHR '',''" by (simp add: separator_def)
  have "csv_record (w # vs) @ t = csv_field w @ CHR '','' # csv_record vs @ t"
    using cons.hyps by (cases vs) (simp_all add: csv_record_def)
  then show ?case using read_field [OF comma, of past w "csv_record vs @ t"] cons.IH [of "past @ [w]"] by simp
qed

lemma read_records: "[] \<notin> set rs \<Longrightarrow> csv_read FieldStart [] [] (concat (map csv_record rs)) = rs"
  by (induction rs) (auto simp: read_record)

text \<open>C36: Whatever the findings hold - commas, quotes, line breaks, leading white space -, a reader of RFC
  4180 gets from the exported file the header and, for each exported finding, exactly its eighteen
  fields.\<close>

theorem export_roundtrip:
  assumes "ExportRows env (parseCSVParam (q ''severity'')) (q ''scanner'') (q ''status'') (claims_scope who) db = Inr rows"
  shows "map_sum id (csv_read FieldStart [] []) (ExportFindings env who q db) =
    Inr (export_header # map (\<lambda>v. export_record env (fw_row (normalizeFindingForDisplay v))) rows)"
proof -
  have "[] \<notin> set (export_header # map (\<lambda>v. export_record env (fw_row (normalizeFindingForDisplay v))) rows)"
    by (auto simp: export_header_def export_record_def)
  from read_records [OF this] show ?thesis by (simp add: ExportFindings_def assms)
qed

section \<open>Changes\<close>

lemma set_access_sel [simp]:
  "vb_agents (set_access a db) = vb_agents db" "vb_links (set_access a db) = vb_links db"
  "vb_cache (set_access a db) = vb_cache db" "vb_access (set_access a db) = a"
  by (simp_all add: set_access_def)

lemma audit_finding_sel [simp]:
  "vb_agents (audit_finding who act i db) = vb_agents db" "vb_cache (audit_finding who act i db) = vb_cache db"
  "vb_links (audit_finding who act i db) = vb_links db"
  "xs_users (vb_access (audit_finding who act i db)) = xs_users (vb_access db)"
  "xs_notes (vb_access (audit_finding who act i db)) = xs_notes (vb_access db)"
  "xs_published (vb_access (audit_finding who act i db)) = xs_published (vb_access db)"
  "it_queue (xs_intake (vb_access (audit_finding who act i db))) = it_queue (xs_intake (vb_access db))"
  by (simp_all add: audit_finding_def auditLog_def split: option.split)

lemma drop_detail_sel [simp]:
  "vb_agents (drop_detail env i db) = vb_agents db" "vb_collab (drop_detail env i db) = vb_collab db"
  "vb_links (drop_detail env i db) = vb_links db"
  by (simp_all add: drop_detail_def cache_del_def split: option.split)

lemma notifyOwner_sel [simp]:
  "vb_agents (notifyOwnerAssignment env i title owner db) = vb_agents db"
  "vb_cache (notifyOwnerAssignment env i title owner db) = vb_cache db"
  by (simp_all add: notifyOwnerAssignment_def Let_def split: sum.split option.split)

lemma GetByID_Update: "GetByID i (snd (Update now i upd rows)) = map_option (apply_update now upd) (GetByID i rows)"
proof -
  have "fd_ID (apply_update now upd r) = fd_ID r" for r by (simp add: apply_update_def)
  then show ?thesis by (induction rows) (simp_all add: Update_def GetByID_def row_by_def update_where_def Let_def)
qed

lemma apply_update_notes: "fd_Notes (apply_update now upd f) = (case fu_Notes upd of Some n \<Rightarrow> Some n | None \<Rightarrow> fd_Notes f)"
  by (simp add: apply_update_def)

lemma Finding_Update_Inr:
  assumes "Finding_Update env i upd db = (Inr v, db1)"
  obtains f where "GetByID i (vb_findings db) = Some f"
    "db1 = db\<lparr>vb_agents := (vb_agents db)\<lparr>ag_findings := snd (Update (vn_now env) i upd (vb_findings db))\<rparr>\<rparr>"
    "GetByID i (vb_findings db1) = Some (apply_update (vn_now env) upd f)"
    "v = single_view db1 (apply_update (vn_now env) upd f)"
  using assms
  by (auto simp: Finding_Update_def Finding_GetByID_def GetByID_Update Let_def split: option.splits)

lemma Finding_Update_Inl_sel:
  "vb_cache (snd (Finding_Update env i upd db)) = vb_cache db" "vb_collab (snd (Finding_Update env i upd db)) = vb_collab db"
  by (simp_all add: Finding_Update_def Let_def split: option.split)

text \<open>The state of an update that succeeds, up to the notification.\<close>

definition saved :: "view_env \<Rightarrow> claims option \<Rightarrow> string \<Rightarrow> update_request \<Rightarrow> view_state \<Rightarrow> view_state" where
  "saved env who i req db = drop_detail env i (audit_finding who ''finding.update'' i
     (db\<lparr>vb_agents := (vb_agents db)\<lparr>ag_findings := snd (Update (vn_now env) i
        \<lparr>fu_Status = Some (uq_Status req), fu_AssignedTo = uq_AssignedTo req, fu_FalsePositive = None, fu_Notes = Some (uq_Notes req)\<rparr>
        (vb_findings db))\<rparr>\<rparr>))"

lemma UpdateFinding_saved:
  assumes "UpdateFinding env who i (Some req) db = (Some (Inr v), db1)"
  shows "db1 = saved env who i req db \<or>
    (\<exists>title owner. db1 = notifyOwnerAssignment env i title owner (saved env who i req db))"
proof -
  have ok: "update_request_ok req" using assms by (simp add: UpdateFinding_def split: if_splits)
  show ?thesis
  proof (cases "Finding_Update env i \<lparr>fu_Status = Some (uq_Status req), fu_AssignedTo = uq_AssignedTo req, fu_FalsePositive = None,
               fu_Notes = Some (uq_Notes req)\<rparr> db")
    case (Pair r db2)
    show ?thesis
    proof (cases r)
      case (Inl e)
      then show ?thesis using assms ok Pair by (simp add: UpdateFinding_def)
    next
      case (Inr w)
      obtain f where "db2 = db\<lparr>vb_agents := (vb_agents db)\<lparr>ag_findings := snd (Update (vn_now env) i
         \<lparr>fu_Status = Some (uq_Status req), fu_AssignedTo = uq_AssignedTo req, fu_FalsePositive = None, fu_Notes = Some (uq_Notes req)\<rparr>
         (vb_findings db))\<rparr>\<rparr>"
        using Finding_Update_Inr [OF Pair [unfolded Inr]] by metis
      then have "drop_detail env i (audit_finding who ''finding.update'' i db2) = saved env who i req db" by (simp only: saved_def)
      then show ?thesis using assms ok Pair Inr by (auto simp: UpdateFinding_def Let_def split: if_splits sum.splits)
    qed
  qed
qed

text \<open>After a successful update the next request for the detail page, at whatever time, is answered
  as if there were no cache: the copy from before the update is gone.\<close>

theorem detail_after_update:
  assumes "UpdateFinding env who i (Some req) db = (Some (Inr v), db1)" "vn_has_cache env" "vn_fail env ''cache.Del'' = None"
  shows "fst (GetFindingDetail env' i db1) = fst (GetFindingDetail (env'\<lparr>vn_has_cache := False\<rparr>) i db1)"
proof -
  have "vb_cache (saved env who i req db) (cache_key (findingDetailCacheKey i)) = None"
    using assms(2,3) by (simp add: saved_def drop_detail_def cache_del_def findingDetailCacheKey_def)
  then have "vb_cache db1 (cache_key (findingDetailCacheKey i)) = None" using UpdateFinding_saved [OF assms(1)] by auto
  then have none: "cache_get env' (findingDetailCacheKey i) db1 = None"
    by (simp add: cache_get_def redis_get_def split: option.split)
  have env: "Finding_GetByID (env'\<lparr>vn_has_cache := False\<rparr>) = Finding_GetByID env'" "build_detail (env'\<lparr>vn_has_cache := False\<rparr>) = build_detail env'"
    by (simp_all add: fun_eq_iff Finding_GetByID_def build_detail_def GetJiraIssueLinkByFindingID_def)
  show ?thesis unfolding GetFindingDetail_def env by (simp add: none Let_def split: sum.split)
qed

text \<open>For the five minutes after a detail page was computed the same page is shown, whatever has
  happened to the risk acceptance, the ticket, the analysis or the correlations of the finding since:
  only an update of the finding itself removes the copy.\<close>

theorem detail_shown_again:
  assumes "GetFindingDetail env i db = (Inr d, db1)" "vn_has_cache env" "vn_fail env = (\<lambda>_. None)" "vn_fail env2 = (\<lambda>_. None)"
    and "cache_get env (findingDetailCacheKey i) db = None" "vn_has_cache env2"
    and "vb_cache db2 = vb_cache db1" "vn_now env2 < vn_now env + 300"
  shows "GetFindingDetail env2 i db2 = (Inr d, db2)"
proof -
  have "vb_cache db1 (cache_key (findingDetailCacheKey i)) = Some (d, vn_now env + 300)"
    using assms(1,2,3,5) by (auto simp: GetFindingDetail_def cache_set_def Let_def split: sum.splits)
  then have "cache_get env2 (findingDetailCacheKey i) db2 = Some d"
    using assms(4,7,8) by (simp add: cache_get_def redis_get_def)
  then show ?thesis using assms(6) by (simp add: GetFindingDetail_def)
qed

text \<open>An update that does not mention the notes erases them: the request decodes an absent text as
  the empty one, and the statement takes it for a value.\<close>

theorem update_erases_notes:
  assumes "UpdateFinding env who i (Some req) db = (Some (Inr v), db1)" "uq_Notes req = []"
  shows "map_option fd_Notes (GetByID i (vb_findings db1)) = Some (Some [])"
proof -
  have "vb_findings db1 = vb_findings (saved env who i req db)" using UpdateFinding_saved [OF assms(1)] by auto
  moreover have "GetByID i (vb_findings db) \<noteq> None"
    using assms(1) by (auto simp: UpdateFinding_def Let_def split: if_splits sum.splits prod.splits elim!: Finding_Update_Inr)
  ultimately show ?thesis using assms(2) by (auto simp: saved_def GetByID_Update apply_update_notes)
qed

lemma bulk_one_quiet:
  assumes "bulk_one env who upd i db = (ok, db1)"
  shows "xs_notes (vb_access db1) = xs_notes (vb_access db)" "xs_published (vb_access db1) = xs_published (vb_access db)"
    "it_queue (xs_intake (vb_access db1)) = it_queue (xs_intake (vb_access db))"
proof -
  obtain r db2 where u: "Finding_Update env i upd db = (r, db2)" by fastforce
  have c: "vb_collab db2 = vb_collab db" using Finding_Update_Inl_sel(2) [of env i upd db] u by simp
  have "vb_collab db1 = vb_collab db2 \<or> vb_collab db1 = vb_collab (audit_finding who ''finding.bulk_update'' i db2)"
  proof (cases r)
    case (Inl e)
    then show ?thesis using assms u by (simp add: bulk_one_def)
  next
    case (Inr v)
    obtain f where f: "GetByID i (vb_findings db2) = Some (apply_update (vn_now env) upd f)"
      by (rule Finding_Update_Inr [OF u [unfolded Inr]])
    let ?db = "audit_finding who ''finding.bulk_update'' i db2"
    show ?thesis
    proof (cases "derefStr (fu_AssignedTo upd) = [] \<or> isl (Finding_GetByID env ''findings.GetByID'' i ?db)")
      case True
      then show ?thesis using assms u Inr by (auto simp: bulk_one_def Let_def isl_def)
    next
      case False
      then obtain before where before: "Finding_GetByID env ''findings.GetByID'' i ?db = Inr before"
        by (cases "Finding_GetByID env ''findings.GetByID'' i ?db") simp_all
      then have "fw_row before = hidden_columns (apply_update (vn_now env) upd f)"
        using f by (auto simp: Finding_GetByID_def single_view_def split: option.splits)
      then have "derefStr (fd_AssignedTo (fw_row before)) = derefStr (fu_AssignedTo upd)"
        using False by (auto simp: hidden_columns_def apply_update_def derefStr_def split: option.splits)
      then show ?thesis using assms u Inr before by (auto simp: bulk_one_def Let_def)
    qed
  qed
  then show "xs_notes (vb_access db1) = xs_notes (vb_access db)" "xs_published (vb_access db1) = xs_published (vb_access db)"
    "it_queue (xs_intake (vb_access db1)) = it_queue (xs_intake (vb_access db))"
    using c by auto
qed

lemma bulk_loop_quiet:
  "xs_notes (vb_access (snd (bulk_loop env who upd is n db))) = xs_notes (vb_access db) \<and>
   xs_published (vb_access (snd (bulk_loop env who upd is n db))) = xs_published (vb_access db) \<and>
   it_queue (xs_intake (vb_access (snd (bulk_loop env who upd is n db)))) = it_queue (xs_intake (vb_access db))"
proof (induction "is" arbitrary: n db)
  case (Cons i "is")
  obtain ok db1 where "bulk_one env who upd i db = (ok, db1)" by fastforce
  with bulk_one_quiet [OF this] Cons.IH show ?case by simp
qed simp

text \<open>C39: A bulk update never tells anybody of an assignment: neither a notification nor an event nor an
  e-mail comes of it, since the owner from before is read after the update has been stored.\<close>

theorem bulk_never_notifies:
  "let db1 = snd (BulkUpdateFindings env who body db) in
   (xs_notes (vb_access db1), xs_published (vb_access db1), it_queue (xs_intake (vb_access db1))) =
   (xs_notes (vb_access db), xs_published (vb_access db), it_queue (xs_intake (vb_access db)))"
  using bulk_loop_quiet [of env who]
  by (simp add: BulkUpdateFindings_def Let_def split_beta split: option.split)

definition owner_of :: "user_row list \<Rightarrow> string \<Rightarrow> user_row option" where
  "owner_of users owner = find (\<lambda>u. us_Username u = owner \<or> us_Email u = owner) (sort_key us_CreatedAt users)"

lemma notifyOwner_notes:
  assumes "vn_fail env = (\<lambda>_. None)"
  shows "map nt_UserID (xs_notes (vb_access (notifyOwnerAssignment env i title owner db))) =
    map nt_UserID (xs_notes (vb_access db)) @
    (case owner_of (xs_users (vb_access db)) owner of None \<Rightarrow> [] | Some u \<Rightarrow> [us_ID u])"
  using assms
  by (simp add: notifyOwnerAssignment_def owner_of_def User_List_def create_and_publish_def Note_Create_def notify_email_def
      Let_def split: option.split)

text \<open>An update that gives a finding another owner notifies exactly the user of that name or address,
  the oldest one, and once; an owner who stays, or a name that is no user's, gets no notification.\<close>

theorem owner_notification:
  assumes "vn_fail env = (\<lambda>_. None)" "update_request_ok req" "GetByID i (vb_findings db) = Some f"
  defines "owner \<equiv> trim_space (derefStr (uq_AssignedTo req))"
  shows "map nt_UserID (xs_notes (vb_access (snd (UpdateFinding env who i (Some req) db)))) =
    map nt_UserID (xs_notes (vb_access db)) @
    (if owner = [] \<or> owner = derefStr (fd_AssignedTo f) then []
     else (case owner_of (xs_users (vb_access db)) owner of None \<Rightarrow> [] | Some u \<Rightarrow> [us_ID u]))"
proof -
  let ?upd = "\<lparr>fu_Status = Some (uq_Status req), fu_AssignedTo = uq_AssignedTo req, fu_FalsePositive = None, fu_Notes = Some (uq_Notes req)\<rparr>"
  have "GetByID i (snd (Update (vn_now env) i ?upd (vb_findings db))) = Some (apply_update (vn_now env) ?upd f)"
    by (simp add: GetByID_Update assms(3))
  then obtain v db1 where u: "Finding_Update env i ?upd db = (Inr v, db1)" "vb_collab db1 = vb_collab db"
    by (simp add: Finding_Update_def Finding_GetByID_def assms(1) Let_def)
  have old: "Finding_GetByID env ''findings.GetByID.old'' i db = Inr (single_view db f)" by (simp add: Finding_GetByID_def assms)
  have "fd_AssignedTo (fw_row (single_view db f)) = fd_AssignedTo f" by (simp add: single_view_def hidden_columns_def)
  then show ?thesis using u(2) notifyOwner_notes [OF assms(1)]
    by (simp add: UpdateFinding_def assms(2) u(1) old owner_def Let_def)
qed

section \<open>Instances\<close>

definition sample_stored :: "string \<Rightarrow> finding" where
  "sample_stored i = (new_finding i 0 sample_insert)\<lparr>fd_AssignedTo := Some ''ana'', fd_Notes := Some ''old''\<rparr>"

definition sample_views :: view_env where
  "sample_views = \<lparr>vn_collab = sample_collab, vn_agents = sample_agents, vn_has_cache = True, vn_uuid_tag = (\<lambda>s. s \<noteq> []),
     vn_format = itoa\<rparr>"

definition sample_view_state :: view_state where
  "sample_view_state = \<lparr>vb_agents = sample_agent_state\<lparr>ag_findings := [sample_stored ''f1'', sample_stored ''f2'']\<rparr>,
     vb_collab = sample_collab_state\<lparr>cb_apps := tn_apps sample_tenant, cb_members := tn_members sample_tenant,
       cb_access := (cb_access sample_collab_state)\<lparr>xs_intake := sample_intake_state\<lparr>it_projects := tn_projects sample_tenant,
         it_scans := tn_scans sample_tenant\<rparr>\<rparr>\<rparr>,
     vb_links = [], vb_cache = (\<lambda>_. None)\<rparr>"

definition sample_filter :: finding_filter where
  "sample_filter = \<lparr>fq_Severities = [], fq_Scanner = [], fq_Status = [], fq_Category = [], fq_CVESearch = [], fq_Overdue = False,
     fq_ShowSuppressed = True, fq_Page = 1, fq_Limit = 50, fq_FilePath = [], fq_SortBy = [], fq_UserID = None\<rparr>"

definition sample_update :: update_request where
  "sample_update = \<lparr>uq_Status = ''fixed'', uq_AssignedTo = Some ''bob'', uq_Notes = []\<rparr>"

lemma sample_views_sel [simp]:
  "vn_fail sample_views = (\<lambda>_. None)" "vn_has_cache sample_views" "vn_collab sample_views = sample_collab"
  "co_fail sample_collab = (\<lambda>_. None)"
  by (simp_all add: sample_views_def sample_collab_def sample_access_def sample_user_env_def)

lemma sample_view_findings: "vb_findings sample_view_state = [sample_stored ''f1'', sample_stored ''f2'']"
  by (simp add: sample_view_state_def)

lemma sample_stored_found: "GetByID ''f1'' (vb_findings sample_view_state) = Some (sample_stored ''f1'')"
  by (simp add: sample_view_findings GetByID_def sample_stored_def new_finding_def)

lemma sample_matching: "filter (finding_matches sample_view_state (vn_now sample_views) (sample_filter\<lparr>fq_Limit := 1\<rparr>)) (vb_findings sample_view_state) =
    [sample_stored ''f1'', sample_stored ''f2'']"
  by (simp add: sample_view_findings finding_matches_def sample_filter_def finding_visible_def)

lemma sample_stored_id [simp]: "fd_ID (sample_stored i) = i"
  by (simp add: sample_stored_def)


theorem huge_page_refused_witness:
  "isl (Finding_List sample_views (sample_filter\<lparr>fq_Page := 184467440737095518\<rparr>) sample_view_state)"
  by (rule huge_page_refused) (simp_all add: sample_filter_def)

theorem listed_iff_owned_witness:
  "finding_visible sample_view_state (ForUser ''u1'') (sample_stored ''f1'') \<and>
   CheckFindingOwnership (tenant_of sample_view_state) ''u1'' ''f1'' = Inr True"
proof -
  have "finding_visible sample_view_state (ForUser ''u1'') (sample_stored ''f1'')" by code_simp
  then show ?thesis using listed_iff_owned [of sample_view_state "sample_stored ''f1''" "''u1''"]
    by (simp add: sample_view_findings)
qed

theorem export_roundtrip_witness:
  "map_sum id (\<lambda>t. map hd (csv_read FieldStart [] [] t)) (ExportFindings sample_views (Some sample_admin) (\<lambda>_. []) sample_view_state) =
   Inr [''id'', ''f1'', ''f2'']"
proof -
  obtain rows where rows: "ExportRows sample_views (parseCSVParam []) [] [] (claims_scope (Some sample_admin)) sample_view_state = Inr rows"
    and ids: "map (\<lambda>v. fd_ID (fw_row v)) rows = [''f1'', ''f2'']"
  proof
    let ?rows = "map (export_view sample_view_state) (newest_severe [sample_stored ''f1'', sample_stored ''f2''])"
    show "ExportRows sample_views (parseCSVParam []) [] [] (claims_scope (Some sample_admin)) sample_view_state = Inr ?rows"
      by (simp add: ExportRows_def parseCSVParam_def claims_scope_def sample_admin_def Admin_def scope_ok_def finding_visible_def
          sample_view_findings)
    show "map (\<lambda>v. fd_ID (fw_row v)) ?rows = [''f1'', ''f2'']" by code_simp
  qed
  have id: "hd (export_record sample_views (fw_row (normalizeFindingForDisplay v))) = fd_ID (fw_row v)" for v
    by (simp add: export_record_def normalizeFindingForDisplay_def Let_def)
  have "map_sum id (map hd) (map_sum id (csv_read FieldStart [] []) (ExportFindings sample_views (Some sample_admin) (\<lambda>_. []) sample_view_state)) =
      Inr (''id'' # map (\<lambda>v. fd_ID (fw_row v)) rows)"
    unfolding export_roundtrip [OF rows] by (simp add: export_header_def id o_def)
  then show ?thesis using ids by (simp add: sum.map_comp o_def id_def)
qed

lemma sample_update_succeeds:
  "\<exists>v. UpdateFinding sample_views (Some sample_admin) ''f1'' (Some sample_update) sample_view_state =
     (Some (Inr v), snd (UpdateFinding sample_views (Some sample_admin) ''f1'' (Some sample_update) sample_view_state))"
proof -
  have ok: "update_request_ok sample_update" by code_simp
  have found: "GetByID ''f1'' (snd (Update n ''f1'' u (vb_findings sample_view_state))) = Some (apply_update n u (sample_stored ''f1''))" for n u
    by (simp add: GetByID_Update sample_stored_found)
  have old: "Finding_GetByID sample_views ''findings.GetByID.old'' ''f1'' sample_view_state = Inr (single_view sample_view_state (sample_stored ''f1''))"
    by (simp add: Finding_GetByID_def sample_stored_found)
  show ?thesis by (simp add: UpdateFinding_def ok Finding_Update_def Finding_GetByID_def [of _ "''findings.Update.GetByID''"] found old Let_def)
qed

theorem detail_after_update_witness:
  "let db1 = snd (UpdateFinding sample_views (Some sample_admin) ''f1'' (Some sample_update) sample_view_state) in
   fst (GetFindingDetail sample_views ''f1'' db1) = fst (GetFindingDetail (sample_views\<lparr>vn_has_cache := False\<rparr>) ''f1'' db1)"
proof -
  obtain v where "UpdateFinding sample_views (Some sample_admin) ''f1'' (Some sample_update) sample_view_state =
     (Some (Inr v), snd (UpdateFinding sample_views (Some sample_admin) ''f1'' (Some sample_update) sample_view_state))"
    using sample_update_succeeds by blast
  from detail_after_update [OF this, of sample_views] show ?thesis by simp
qed

theorem update_erases_notes_witness:
  "map_option fd_Notes (GetByID ''f1'' (vb_findings (snd (UpdateFinding sample_views (Some sample_admin) ''f1'' (Some sample_update)
     sample_view_state)))) = Some (Some []) \<and> fd_Notes (sample_stored ''f1'') = Some ''old''"
proof -
  obtain v where "UpdateFinding sample_views (Some sample_admin) ''f1'' (Some sample_update) sample_view_state =
     (Some (Inr v), snd (UpdateFinding sample_views (Some sample_admin) ''f1'' (Some sample_update) sample_view_state))"
    using sample_update_succeeds by blast
  from update_erases_notes [OF this] show ?thesis by (simp add: sample_update_def sample_stored_def)
qed

theorem owner_notification_witness:
  "map nt_UserID (xs_notes (vb_access (snd (UpdateFinding sample_views (Some sample_admin) ''f1'' (Some sample_update) sample_view_state)))) = [''u2'']"
proof -
  have ok: "update_request_ok sample_update" by code_simp
  have u: "map_option us_ID (owner_of (xs_users (vb_access sample_view_state)) ''bob'') = Some ''u2''"
    "xs_notes (vb_access sample_view_state) = []" "trim_space (derefStr (uq_AssignedTo sample_update)) = ''bob''"
    "derefStr (fd_AssignedTo (sample_stored ''f1'')) = ''ana''" by code_simp+
  then obtain w where "owner_of (xs_users (vb_access sample_view_state)) ''bob'' = Some w" "us_ID w = ''u2''" by auto
  then show ?thesis using owner_notification [OF sample_views_sel(1) ok sample_stored_found, of "Some sample_admin"] u by simp
qed

theorem detail_shown_again_witness:
  "let (r, db1) = GetFindingDetail sample_views ''f1'' sample_view_state;
       db2 = db1\<lparr>vb_links := [\<lparr>jl_ID = ''l'', jl_FindingID = ''f1'', jl_IssueKey = None, jl_IssueURL = None, jl_Status = Some ''pending'', jl_CreatedAt = 0\<rparr>]\<rparr>
   in \<exists>d. r = Inr d \<and> GetFindingDetail sample_views ''f1'' db2 = (Inr d, db2)"
proof -
  have none: "cache_get sample_views (findingDetailCacheKey ''f1'') sample_view_state = None"
    by (simp add: cache_get_def redis_get_def sample_view_state_def)
  have "\<exists>d. fst (GetFindingDetail sample_views ''f1'' sample_view_state) = Inr d"
    by (simp add: GetFindingDetail_def none Finding_GetByID_def sample_stored_found Let_def)
  then obtain d db1 where d: "GetFindingDetail sample_views ''f1'' sample_view_state = (Inr d, db1)" by (metis prod.collapse)
  show ?thesis
    using detail_shown_again [OF d sample_views_sel(2) sample_views_sel(1) sample_views_sel(1) none sample_views_sel(2),
        of "db1\<lparr>vb_links := [\<lparr>jl_ID = ''l'', jl_FindingID = ''f1'', jl_IssueKey = None, jl_IssueURL = None, jl_Status = Some ''pending'', jl_CreatedAt = 0\<rparr>]\<rparr>"]
    by (simp add: d)
qed

end
