(* ===== verification/Knowledge.thy ===== *)
theory Knowledge
  imports Finding_View
begin

text \<open>
  The remediation articles (\<^verbatim>\<open>src/internal/knowledge/articles.go\<close>, \<^verbatim>\<open>repository/knowledge.go\<close>,
  \<^verbatim>\<open>handlers/knowledge_articles.go\<close>, \<^verbatim>\<open>handlers/knowledge_remediation.go\<close>): the slugs, the table with its
  one row for every slug, the hand-written articles and the generated ones, which are kept for the next
  finding of the same rule.
\<close>

section \<open>Slugs\<close>

definition slug_char :: "char \<Rightarrow> bool" where
  "slug_char c \<longleftrightarrow> (97 \<le> (of_char c :: nat) \<and> (of_char c :: nat) \<le> 122) \<or> is_digit c"

text \<open>\<^verbatim>\<open>strings.ToLower\<close> as far as a slug sees it: two letters outside ASCII, the dotted capital I and the
  Kelvin sign, have a lower case within it; every other one stays outside the alphabet of slugs.\<close>

fun lower_for_slug :: "string \<Rightarrow> string" where
  "lower_for_slug [] = []"
| "lower_for_slug (c # s) =
     (if has_prefix (c # s) [CHR 0xC4, CHR 0xB0] then CHR ''i'' # lower_for_slug (drop 1 s)
      else if has_prefix (c # s) [CHR 0xE2, CHR 0x84, CHR 0xAA] then CHR ''k'' # lower_for_slug (drop 2 s)
      else to_lower_char c # lower_for_slug s)"

definition hyphen :: char where "hyphen = CHR ''-''"

text \<open>The expression \<^verbatim>\<open>nonAlnum\<close> takes the longest run.\<close>

function replace_runs :: "string \<Rightarrow> string" where
  "replace_runs [] = []"
| "replace_runs (c # s) =
     (if slug_char c then c # replace_runs s else hyphen # replace_runs (dropWhile (\<lambda>x. \<not> slug_char x) s))"
  by pat_completeness auto
termination
  by (relation "measure length") (auto simp: le_imp_less_Suc length_dropWhile_le)

definition Slugify :: "string \<Rightarrow> string" where
  "Slugify value = trim_cutset [hyphen] (replace_runs (lower_for_slug value))"

section \<open>Articles\<close>

text \<open>A row of \<^verbatim>\<open>knowledge_articles\<close>; a draft is a row without identifier and times.\<close>

record article =
  ka_ID :: string
  ka_Slug :: string
  ka_Title :: string
  ka_ContentMD :: string
  ka_Tags :: "string list"
  ka_CWEIDs :: "string list"
  ka_RuleIDs :: "string list"
  ka_Scanner :: string
  ka_AutoGenerated :: bool
  ka_CreatedAt :: int
  ka_UpdatedAt :: int

record article_draft =
  kg_Slug :: string
  kg_Title :: string
  kg_ContentMD :: string
  kg_Tags :: "string list"
  kg_CWEIDs :: "string list"
  kg_RuleIDs :: "string list"
  kg_Scanner :: string
  kg_AutoGenerated :: bool

record article_update =
  ku_Title :: "string option"
  ku_ContentMD :: "string option"
  ku_Tags :: "string list option"
  ku_CWEIDs :: "string list option"
  ku_RuleIDs :: "string list option"
  ku_Scanner :: "string option"

record article_filter =
  kf_Search :: string
  kf_Scanner :: string
  kf_Tag :: string
  kf_CWEID :: string
  kf_RuleID :: string

record remediation_source =
  km_RuleID :: string
  km_Title :: string
  km_Description :: string
  km_Severity :: string
  km_Scanner :: string
  km_FilePath :: string
  km_CodeSnippet :: string
  km_CVEID :: string
  km_CWEID :: string

text \<open>\<open>kb_agents\<close> has the findings and the monthly quota; \<open>ke_id\<close> is the default of the identifier
  column.\<close>

record knowledge_db =
  kb_articles :: "article list"
  kb_agents :: agent_state

record knowledge_env =
  ke_agents :: agent_env
  ke_id :: "article list \<Rightarrow> string"

abbreviation "ke_fail env \<equiv> sg_fail (ke_agents env)"
abbreviation "ke_now env \<equiv> sg_now (ke_agents env)"

section \<open>Drafts\<close>

definition nilToEmpty :: "string list option \<Rightarrow> string list" where
  "nilToEmpty values = (case values of None \<Rightarrow> [] | Some v \<Rightarrow> v)"

definition BuildCreateArticle ::
  "string \<Rightarrow> string \<Rightarrow> string list option \<Rightarrow> string list option \<Rightarrow> string list option \<Rightarrow> string \<Rightarrow> article_draft" where
  "BuildCreateArticle title contentMD tags cweIDs ruleIDs scanner =
     \<lparr>kg_Slug = Slugify title, kg_Title = title, kg_ContentMD = contentMD, kg_Tags = nilToEmpty tags,
      kg_CWEIDs = nilToEmpty cweIDs, kg_RuleIDs = nilToEmpty ruleIDs, kg_Scanner = scanner, kg_AutoGenerated = False\<rparr>"

definition generated_slug :: "(string \<Rightarrow> string) \<Rightarrow> remediation_source \<Rightarrow> string \<Rightarrow> string" where
  "generated_slug sha src content =
     (let slug = ''ai-'' @ Slugify (km_RuleID src @ ''-'' @ km_Title src);
          slug = (if slug = ''ai-'' \<or> slug = [] then ''ai-'' @ take 16 (sha (km_RuleID src @ km_Title src @ km_Scanner src @ content)) else slug)
      in if 80 < length slug then trim_right_cutset [hyphen] (take 80 slug) else slug)"

definition BuildGeneratedArticle :: "(string \<Rightarrow> string) \<Rightarrow> remediation_source \<Rightarrow> string \<Rightarrow> article_draft" where
  "BuildGeneratedArticle sha src content =
     (let slug = generated_slug sha src content in
      \<lparr>kg_Slug = slug, kg_Title = (if km_Title src = [] then slug else km_Title src), kg_ContentMD = content,
       kg_Tags = [''ai-generated''], kg_CWEIDs = (if km_CWEID src = [] then [] else [km_CWEID src]),
       kg_RuleIDs = [km_RuleID src], kg_Scanner = km_Scanner src, kg_AutoGenerated = True\<rparr>)"

definition article_of_draft :: "string \<Rightarrow> int \<Rightarrow> article_draft \<Rightarrow> article" where
  "article_of_draft i now d = \<lparr>ka_ID = i, ka_Slug = kg_Slug d, ka_Title = kg_Title d, ka_ContentMD = kg_ContentMD d, ka_Tags = kg_Tags d,
     ka_CWEIDs = kg_CWEIDs d, ka_RuleIDs = kg_RuleIDs d, ka_Scanner = kg_Scanner d, ka_AutoGenerated = kg_AutoGenerated d,
     ka_CreatedAt = now, ka_UpdatedAt = now\<rparr>"

text \<open>The zero times of Go stand for 0.\<close>

definition BuildGeneratedArticleFallback :: "article_draft \<Rightarrow> article" where
  "BuildGeneratedArticleFallback d = article_of_draft [] 0 d"

section \<open>The prompt\<close>

definition titled :: "string \<Rightarrow> string \<Rightarrow> string" where
  "titled label v = (if v = [] then [] else [newline] @ ''- '' @ label @ '': '' @ v)"

definition backtick :: char where "backtick = CHR 0x60"

definition remediationSystemPrompt :: string where
  "remediationSystemPrompt = ''You are an application security expert. Write concise, practical remediation guides in Markdown for developers. Prefer specific fixes over theory.''"

definition output_format :: "string list" where
  "output_format =
    [''---'', [], ''## Required output format (Markdown, no preamble)'', [], ''## What is this vulnerability?'',
     ''[2-3 sentence explanation of the root cause]'', [], ''## Impact'',
     ''[Business and technical impact, 2-4 bullet points]'', [], ''## How to fix it'',
     ''[Concrete code examples showing vulnerable vs fixed pattern. Use the same language as the affected file if detectable. Show before/after.]'', [],
     ''## Detection & verification'', ''[How to confirm the fix works '' @ [CHR 0xE2, CHR 0x80, CHR 0x94] @ '' test snippet or manual check]'', [],
     ''## References'', ''[3-5 links: CWE, OWASP, scanner docs, language-specific guidance]'', [],
     ''Keep the guide practical and focused. No lengthy theory. Target audience: developer who needs to fix this today.'']"

definition buildPrompt :: "remediation_source \<Rightarrow> string" where
  "buildPrompt req = join [newline]
    ([''A security scanner found the following vulnerability. Generate a concise, practical remediation guide in Markdown.'', [], ''## Finding'', [],
      ''- **Title:** '' @ km_Title req, ''- **Rule ID:** '' @ km_RuleID req, ''- **Scanner:** '' @ km_Scanner req,
      ''- **Severity:** '' @ km_Severity req @ titled ''CVE'' (km_CVEID req) @ titled ''CWE'' (km_CWEID req) @
        (if km_FilePath req = [] then [] else [newline] @ ''- File: '' @ [backtick] @ km_FilePath req @ [backtick]) @
        (if km_CodeSnippet req = [] then []
         else [newline, newline] @ ''**Vulnerable code:**'' @ [newline] @ fence @ [newline] @ km_CodeSnippet req @ [newline] @ fence), [],
      ''**Description:**'', km_Description req, []] @ output_format)"

section \<open>The table\<close>

definition kb_by_slug :: "string \<Rightarrow> article list \<Rightarrow> article option" where
  "kb_by_slug slug rows = row_by ka_Slug slug rows"

definition article_matches :: "article_filter \<Rightarrow> article \<Rightarrow> bool" where
  "article_matches f a \<longleftrightarrow>
     (kf_Search f = [] \<or> ilike (ka_Title a) (percent # kf_Search f @ [percent]) \<or> ilike (ka_ContentMD a) (percent # kf_Search f @ [percent])) \<and>
     (kf_Scanner f = [] \<or> ka_Scanner a = kf_Scanner f) \<and>
     (kf_Tag f = [] \<or> kf_Tag f \<in> set (ka_Tags a)) \<and>
     (kf_CWEID f = [] \<or> kf_CWEID f \<in> set (ka_CWEIDs a)) \<and>
     (kf_RuleID f = [] \<or> kf_RuleID f \<in> set (ka_RuleIDs a))"

text \<open>Hand-written articles come first, each kind from the newest.\<close>

definition List_articles :: "knowledge_env \<Rightarrow> article_filter \<Rightarrow> knowledge_db \<Rightarrow> string + article list" where
  "List_articles env f db =
     (case ke_fail env ''knowledge.List'' of
        Some e \<Rightarrow> Inl (''knowledge list: '' @ e)
      | None \<Rightarrow> Inr (let rows = sort_key (\<lambda>a. - ka_UpdatedAt a) (filter (article_matches f) (kb_articles db))
          in filter (\<lambda>a. \<not> ka_AutoGenerated a) rows @ filter ka_AutoGenerated rows))"

definition GetBySlug :: "knowledge_env \<Rightarrow> string \<Rightarrow> knowledge_db \<Rightarrow> string + article" where
  "GetBySlug env slug db =
     (case ke_fail env ''knowledge.GetBySlug'' of
        Some e \<Rightarrow> Inl e
      | None \<Rightarrow> (case kb_by_slug slug (kb_articles db) of None \<Rightarrow> Inl ''no rows in result set'' | Some a \<Rightarrow> Inr a))"

text \<open>The columns of \<^verbatim>\<open>Create\<close> leave \<^verbatim>\<open>auto_generated\<close> to its default.\<close>

definition Create_article :: "knowledge_env \<Rightarrow> article_draft \<Rightarrow> knowledge_db \<Rightarrow> (string + article) \<times> knowledge_db" where
  "Create_article env d db =
     (case ke_fail env ''knowledge.Create'' of
        Some e \<Rightarrow> (Inl (''create article: '' @ e), db)
      | None \<Rightarrow>
        if kb_by_slug (kg_Slug d) (kb_articles db) \<noteq> None then (Inl ''create article: duplicate key value violates unique constraint'', db)
        else (let a = article_of_draft (ke_id env (kb_articles db)) (ke_now env) (d\<lparr>kg_AutoGenerated := False\<rparr>)
              in (Inr a, db\<lparr>kb_articles := kb_articles db @ [a]\<rparr>)))"

definition Upsert_article :: "knowledge_env \<Rightarrow> article_draft \<Rightarrow> knowledge_db \<Rightarrow> (string + article) \<times> knowledge_db" where
  "Upsert_article env d db =
     (case ke_fail env ''knowledge.Upsert'' of
        Some e \<Rightarrow> (Inl (''upsert article: '' @ e), db)
      | None \<Rightarrow>
        (case kb_by_slug (kg_Slug d) (kb_articles db) of
          Some a \<Rightarrow> (let up = (\<lambda>x. x\<lparr>ka_ContentMD := kg_ContentMD d, ka_UpdatedAt := ke_now env\<rparr>)
             in (Inr (up a), db\<lparr>kb_articles := update_where (\<lambda>x. ka_Slug x = kg_Slug d) up (kb_articles db)\<rparr>))
        | None \<Rightarrow> (let a = article_of_draft (ke_id env (kb_articles db)) (ke_now env) d
             in (Inr a, db\<lparr>kb_articles := kb_articles db @ [a]\<rparr>))))"

definition merge_article :: "int \<Rightarrow> article_update \<Rightarrow> article \<Rightarrow> article" where
  "merge_article now u a = a\<lparr>
     ka_Title := coalesce_col (ku_Title u) (ka_Title a), ka_ContentMD := coalesce_col (ku_ContentMD u) (ka_ContentMD a),
     ka_Tags := coalesce_col (ku_Tags u) (ka_Tags a), ka_CWEIDs := coalesce_col (ku_CWEIDs u) (ka_CWEIDs a),
     ka_RuleIDs := coalesce_col (ku_RuleIDs u) (ka_RuleIDs a), ka_Scanner := coalesce_col (ku_Scanner u) (ka_Scanner a),
     ka_AutoGenerated := False, ka_UpdatedAt := now\<rparr>"

definition Update_article :: "knowledge_env \<Rightarrow> string \<Rightarrow> article_update \<Rightarrow> knowledge_db \<Rightarrow> string option \<times> knowledge_db" where
  "Update_article env slug u db =
     (case ke_fail env ''knowledge.Update'' of
        Some e \<Rightarrow> (Some e, db)
      | None \<Rightarrow> (None, db\<lparr>kb_articles := update_where (\<lambda>x. ka_Slug x = slug) (merge_article (ke_now env) u) (kb_articles db)\<rparr>))"

definition Delete_article :: "knowledge_env \<Rightarrow> string \<Rightarrow> knowledge_db \<Rightarrow> string option \<times> knowledge_db" where
  "Delete_article env slug db =
     (case ke_fail env ''knowledge.Delete'' of
        Some e \<Rightarrow> (Some e, db)
      | None \<Rightarrow> (None, db\<lparr>kb_articles := filter (\<lambda>x. ka_Slug x \<noteq> slug) (kb_articles db)\<rparr>))"

text \<open>The row a \<^verbatim>\<open>LIMIT 1\<close> without an order gives is the first of the table here.\<close>

definition FindByRuleID :: "knowledge_env \<Rightarrow> string \<Rightarrow> knowledge_db \<Rightarrow> string + article option" where
  "FindByRuleID env ruleID db =
     (case ke_fail env ''knowledge.FindByRuleID'' of
        Some e \<Rightarrow> Inl e
      | None \<Rightarrow> Inr (find (\<lambda>a. ruleID \<in> set (ka_RuleIDs a)) (kb_articles db)))"

definition about :: "string \<Rightarrow> string \<Rightarrow> article \<Rightarrow> bool" where
  "about cweID ruleID a \<longleftrightarrow> (ruleID = [] \<or> ruleID \<in> set (ka_RuleIDs a)) \<or> (cweID = [] \<or> cweID \<in> set (ka_CWEIDs a))"

definition FindByCWEOrRule :: "knowledge_env \<Rightarrow> string \<Rightarrow> string \<Rightarrow> knowledge_db \<Rightarrow> string + article option" where
  "FindByCWEOrRule env cweID ruleID db =
     (case ke_fail env ''knowledge.FindByCWEOrRule'' of
        Some e \<Rightarrow> Inl e
      | None \<Rightarrow> Inr (let rows = filter (about cweID ruleID) (kb_articles db)
          in find (\<lambda>a. True) (filter (\<lambda>a. \<not> ka_AutoGenerated a) rows @ filter ka_AutoGenerated rows)))"

section \<open>The handlers of articles\<close>

record article_body =
  kh_Title :: string
  kh_ContentMD :: string
  kh_Tags :: "string list option"
  kh_CWEIDs :: "string list option"
  kh_RuleIDs :: "string list option"
  kh_Scanner :: string

definition ListArticles :: "knowledge_env \<Rightarrow> article_filter \<Rightarrow> knowledge_db \<Rightarrow> article list reply" where
  "ListArticles env f db = (case List_articles env f db of Inl e \<Rightarrow> Inl (500, ''failed to list articles'') | Inr rows \<Rightarrow> Inr rows)"

definition GetArticle :: "knowledge_env \<Rightarrow> string \<Rightarrow> knowledge_db \<Rightarrow> article reply" where
  "GetArticle env slug db = (case GetBySlug env slug db of Inl e \<Rightarrow> Inl (404, ''article not found'') | Inr a \<Rightarrow> Inr a)"

definition CreateArticle :: "knowledge_env \<Rightarrow> article_body option \<Rightarrow> knowledge_db \<Rightarrow> article reply \<times> knowledge_db" where
  "CreateArticle env body db =
     (case body of
        None \<Rightarrow> (Inl (400, ''title required''), db)
      | Some b \<Rightarrow>
        if kh_Title b = [] then (Inl (400, ''title required''), db)
        else (case Create_article env (BuildCreateArticle (kh_Title b) (kh_ContentMD b) (kh_Tags b) (kh_CWEIDs b) (kh_RuleIDs b) (kh_Scanner b)) db of
          (Inl e, db1) \<Rightarrow> (Inl (409, ''slug already exists''), db1)
        | (Inr a, db1) \<Rightarrow> (Inr a, db1)))"

definition UpdateArticle :: "knowledge_env \<Rightarrow> string \<Rightarrow> article_update option \<Rightarrow> knowledge_db \<Rightarrow> article reply \<times> knowledge_db" where
  "UpdateArticle env slug body db =
     (case body of
        None \<Rightarrow> (Inl (400, ''invalid body''), db)
      | Some u \<Rightarrow> (case Update_article env slug u db of
          (Some e, db1) \<Rightarrow> (Inl (500, ''failed to update article''), db1)
        | (None, db1) \<Rightarrow> (GetArticle env slug db1, db1)))"

definition DeleteArticle :: "knowledge_env \<Rightarrow> string \<Rightarrow> knowledge_db \<Rightarrow> knowledge_db" where
  "DeleteArticle env slug db = snd (Delete_article env slug db)"

section \<open>Remediation\<close>

definition GetForRemediation :: "knowledge_env \<Rightarrow> string \<Rightarrow> knowledge_db \<Rightarrow> string + remediation_source" where
  "GetForRemediation env i db =
     (case ke_fail env ''findings.GetForRemediation'' of
        Some e \<Rightarrow> Inl e
      | None \<Rightarrow> (case GetByID i (ag_findings (kb_agents db)) of
          None \<Rightarrow> Inl ''no rows in result set''
        | Some f \<Rightarrow> Inr \<lparr>km_RuleID = fd_RuleID f, km_Title = fd_Title f, km_Description = fd_Description f, km_Severity = fd_Severity f,
            km_Scanner = fd_Scanner f, km_FilePath = fd_FilePath f, km_CodeSnippet = fd_CodeSnippet f,
            km_CVEID = derefStr (fd_CVEID f), km_CWEID = derefStr (fd_CWEID f)\<rparr>))"

text \<open>The store of the slug is not checked for an error.\<close>

definition keep_slug :: "knowledge_env \<Rightarrow> string \<Rightarrow> string \<Rightarrow> knowledge_db \<Rightarrow> knowledge_db" where
  "keep_slug env i slug db =
     (if ke_fail env ''findings.UpdateRemediationSlug'' \<noteq> None then db
      else db\<lparr>kb_agents := (kb_agents db)\<lparr>ag_findings := UpdateRemediationSlug i slug (ag_findings (kb_agents db))\<rparr>\<rparr>)"

definition remediate :: "knowledge_env \<Rightarrow> string \<Rightarrow> remediation_source \<Rightarrow> knowledge_db \<Rightarrow> (article \<times> bool) reply \<times> knowledge_db" where
  "remediate env i src db =
     (case FindByRuleID env (km_RuleID src) db of
        Inr (Some c) \<Rightarrow> (Inr (c, True), keep_slug env i (ka_Slug c) db)
      | _ \<Rightarrow>
        (case GenerateRemediation (sg_ai (ke_agents env)) remediationSystemPrompt (buildPrompt src) of
          Inl e \<Rightarrow> (Inl (503, ''AI generation failed''), db)
        | Inr content \<Rightarrow>
          (let d = BuildGeneratedArticle (sg_sha256_hex (ke_agents env)) src content in
           (case Upsert_article env d db of
             (Inl e, db1) \<Rightarrow> (Inr (BuildGeneratedArticleFallback d, False), db1)
           | (Inr a, db1) \<Rightarrow> (Inr (a, False), keep_slug env i (ka_Slug a) db1)))))"

definition AIRemediate :: "knowledge_env \<Rightarrow> string option \<Rightarrow> knowledge_db \<Rightarrow> (article \<times> bool) reply \<times> knowledge_db" where
  "AIRemediate env body db =
     (case body of
        None \<Rightarrow> (Inl (400, ''finding_id required''), db)
      | Some i \<Rightarrow>
        if i = [] then (Inl (400, ''finding_id required''), db)
        else (case GetForRemediation env i db of
          Inl e \<Rightarrow> (Inl (404, ''finding not found''), db)
        | Inr src \<Rightarrow>
          (case checkAIScanLimit (ke_agents env) (kb_agents db) of
            (Some e, ag) \<Rightarrow> (Inl e, db\<lparr>kb_agents := ag\<rparr>)
          | (None, ag) \<Rightarrow> remediate env i src (db\<lparr>kb_agents := ag\<rparr>))))"

definition FindArticleForFinding :: "knowledge_env \<Rightarrow> string \<Rightarrow> string \<Rightarrow> knowledge_db \<Rightarrow> article option reply" where
  "FindArticleForFinding env ruleID cweID db =
     (if ruleID = [] \<and> cweID = [] then Inl (400, ''rule_id or cwe_id required'')
      else (case FindByCWEOrRule env cweID ruleID db of Inl e \<Rightarrow> Inl (500, ''lookup failed'') | Inr a \<Rightarrow> Inr a))"

section \<open>The shape of a slug\<close>

text \<open>Letters and digits with single hyphens between them.\<close>

fun single_hyphens :: "string \<Rightarrow> bool" where
  "single_hyphens [] \<longleftrightarrow> True"
| "single_hyphens (c # s) \<longleftrightarrow> (slug_char c \<or> c = hyphen \<and> (s = [] \<or> slug_char (hd s))) \<and> single_hyphens s"

definition slug_ok :: "string \<Rightarrow> bool" where
  "slug_ok s \<longleftrightarrow> single_hyphens s \<and> (s = [] \<or> slug_char (hd s) \<and> slug_char (last s))"

lemma hyphen_no_slug_char [simp]: "\<not> slug_char hyphen"
  by (simp add: slug_char_def hyphen_def is_digit_def)

lemma single_hyphens_runs: "single_hyphens (replace_runs s)"
proof (induction s rule: replace_runs.induct)
  case (2 c s)
  have runs: "replace_runs t = [] \<or> slug_char (hd (replace_runs t))" if "t \<noteq> [] \<Longrightarrow> slug_char (hd t)" for t
    using that by (cases t) auto
  have "replace_runs (dropWhile (\<lambda>x. \<not> slug_char x) s) = [] \<or> slug_char (hd (replace_runs (dropWhile (\<lambda>x. \<not> slug_char x) s)))"
    by (rule runs) (use hd_dropWhile [of "\<lambda>x. \<not> slug_char x" s] in blast)
  then show ?case using 2 by auto
qed simp

lemma single_hyphens_append: "single_hyphens (s @ t) \<Longrightarrow> single_hyphens s \<and> single_hyphens t"
proof (induction s)
  case (Cons c s)
  then show ?case by (cases s) auto
qed simp

lemma slug_chars: "single_hyphens s \<Longrightarrow> c \<in> set s \<Longrightarrow> slug_char c \<or> c = hyphen"
  by (induction s) auto

lemma trim_left_part: "\<exists>p. s = p @ dropWhile Q s \<and> (dropWhile Q s \<noteq> [] \<longrightarrow> \<not> Q (hd (dropWhile Q s)))"
  using hd_dropWhile [of Q s] by (metis takeWhile_dropWhile_id)

lemma trim_right_part: "\<exists>p. s = rev (dropWhile Q (rev s)) @ p \<and> (rev (dropWhile Q (rev s)) \<noteq> [] \<longrightarrow> \<not> Q (last (rev (dropWhile Q (rev s)))))"
  using trim_left_part [of "rev s" Q] by (metis last_rev rev_append rev_is_Nil_conv rev_rev_ident)

lemma slug_ok_trim:
  assumes "single_hyphens s"
  shows "slug_ok (trim_cutset [hyphen] s)"
proof -
  let ?Q = "\<lambda>c. c \<in> set [hyphen]" and ?t = "dropWhile (\<lambda>c. c \<in> set [hyphen]) s"
  define u where "u = rev (dropWhile ?Q (rev ?t))"
  obtain p where s: "s = p @ ?t" and h: "?t \<noteq> [] \<Longrightarrow> hd ?t \<noteq> hyphen" using trim_left_part [of s ?Q] by auto
  obtain q where t: "?t = u @ q" and l: "u \<noteq> [] \<Longrightarrow> last u \<noteq> hyphen" using trim_right_part [of ?t ?Q] unfolding u_def by auto
  have ok: "single_hyphens u" using assms s t single_hyphens_append by metis
  have "slug_char (hd u) \<and> slug_char (last u)" if "u \<noteq> []"
  proof -
    have "hd u \<noteq> hyphen" using h t that by (metis append_is_Nil_conv hd_append2)
    then show ?thesis using ok l that slug_chars by (metis hd_in_set last_in_set)
  qed
  then show ?thesis using ok unfolding slug_ok_def trim_cutset_def u_def by blast
qed

lemma lower_slug_char: "slug_char c \<or> c = hyphen \<Longrightarrow> to_lower_char c = c"
  by (auto simp: to_lower_char_def slug_char_def is_digit_def hyphen_def Let_def)

lemma wide_no_slug_char: "\<not> slug_char (CHR 0xC4)" "\<not> slug_char (CHR 0xE2)" "hyphen \<noteq> CHR 0xC4" "hyphen \<noteq> CHR 0xE2"
  by (simp_all add: slug_char_def is_digit_def hyphen_def)

lemma lower_slug_id: "\<forall>c \<in> set s. slug_char c \<or> c = hyphen \<Longrightarrow> lower_for_slug s = s"
proof (induction s)
  case (Cons c s)
  have "c \<noteq> CHR 0xC4" "c \<noteq> CHR 0xE2" using Cons.prems wide_no_slug_char by auto
  then show ?case using Cons by (simp add: lower_slug_char)
qed simp

lemma runs_id: "single_hyphens s \<Longrightarrow> replace_runs s = s"
proof (induction s)
  case (Cons c s)
  then show ?case by (cases s) auto
qed simp

lemma trim_id: "slug_ok s \<Longrightarrow> trim_cutset [hyphen] s = s"
proof (cases s)
  case (Cons c t)
  assume ok: "slug_ok s"
  then have "c \<noteq> hyphen" "last s \<noteq> hyphen" using Cons by (auto simp: slug_ok_def simp del: last.simps)
  moreover have "rev s = last s # rev (butlast s)" using Cons by (metis append_butlast_last_id list.distinct(1) rev.simps(2) rev_append rev_rev_ident append_Cons append_Nil rev_singleton_conv)
  ultimately show ?thesis using Cons by (simp add: trim_cutset_def)
qed (simp add: trim_cutset_def)

lemma Slugify_slug: "slug_ok (Slugify v)"
  by (simp add: Slugify_def slug_ok_trim single_hyphens_runs)

text \<open>A slug is letters and digits with single hyphens between them, and making a slug leaves exactly
  such strings alone: every slug is its own slug, so the slugs are the fixed points of \<^verbatim>\<open>Slugify\<close>.\<close>

theorem slugs_are_fixed_points: "slug_ok v \<longleftrightarrow> Slugify v = v"
proof
  assume ok: "slug_ok v"
  then have sh: "single_hyphens v" by (simp add: slug_ok_def)
  then have "lower_for_slug v = v" by (intro lower_slug_id) (blast dest: slug_chars)
  then show "Slugify v = v" using sh ok by (simp add: Slugify_def runs_id trim_id)
next
  assume "Slugify v = v"
  then show "slug_ok v" using Slugify_slug [of v] by simp
qed

section \<open>Generated slugs\<close>

definition hex_digests :: "(string \<Rightarrow> string) \<Rightarrow> bool" where
  "hex_digests sha \<longleftrightarrow> (\<forall>x. length (sha x) = 64 \<and> list_all slug_char (sha x))"

lemma single_hyphens_chars: "list_all slug_char s \<Longrightarrow> single_hyphens s"
  by (induction s) auto

lemma single_hyphens_slug: "single_hyphens s \<Longrightarrow> s = [] \<or> slug_char (hd s) \<Longrightarrow> single_hyphens (''ai-'' @ s)"
  by (simp add: slug_char_def hyphen_def)

lemma slug_ok_ai: "slug_ok s \<Longrightarrow> s \<noteq> [] \<Longrightarrow> slug_ok (''ai-'' @ s)"
  using single_hyphens_slug [of s] by (auto simp: slug_ok_def slug_char_def)

lemma trim_right_eq: "slug_char (hd s) \<Longrightarrow> trim_right_cutset [hyphen] s = trim_cutset [hyphen] s"
  by (cases s) (auto simp: trim_right_cutset_def trim_cutset_def)

lemma trim_right_nonempty: "c \<in> set s \<Longrightarrow> c \<noteq> hyphen \<Longrightarrow> trim_right_cutset [hyphen] s \<noteq> []"
  by (auto simp: trim_right_cutset_def dropWhile_eq_Nil_conv)

lemma length_trim_right: "length (trim_right_cutset cs s) \<le> length s"
  unfolding trim_right_cutset_def by (metis length_dropWhile_le length_rev)

lemma ai_head: "slug_char (hd (take (length ''ai'') ''ai-''))"
  by (simp add: slug_char_def)

lemma generated_slug_ok:
  assumes "hex_digests (sg_sha256_hex (ke_agents env))"
  shows "let s = kg_Slug (BuildGeneratedArticle (sg_sha256_hex (ke_agents env)) src content) in s \<noteq> [] \<and> slug_ok s \<and> length s \<le> 80"
proof -
  let ?sha = "sg_sha256_hex (ke_agents env)"
  define w where "w = Slugify (km_RuleID src @ ''-'' @ km_Title src)"
  define h where "h = take 16 (?sha (km_RuleID src @ km_Title src @ km_Scanner src @ content))"
  define v where "v = (if w = [] then h else w)"
  have "length h = 16" "list_all slug_char h"
    using assms by (auto simp: hex_digests_def h_def list_all_iff dest: in_set_takeD)
  then have "h \<noteq> []" "slug_ok h" by (auto simp: slug_ok_def single_hyphens_chars list_all_iff)
  then have v: "v \<noteq> []" "slug_ok v" using Slugify_slug unfolding v_def w_def by auto
  define s where "s = ''ai-'' @ v"
  have s: "slug_ok s" "slug_char (hd s)" using v slug_ok_ai unfolding s_def by (auto simp: slug_char_def)
  have g: "kg_Slug (BuildGeneratedArticle ?sha src content) = (if 80 < length s then trim_right_cutset [hyphen] (take 80 s) else s)"
    by (simp add: BuildGeneratedArticle_def generated_slug_def Let_def s_def v_def w_def h_def)
  have t: "single_hyphens (take 80 s)" using s(1) single_hyphens_append [of "take 80 s" "drop 80 s"] by (simp add: slug_ok_def)
  have hd: "slug_char (hd (take 80 s))" using s(2) by simp
  have "CHR ''a'' \<in> set (take 80 s)" by (simp add: s_def)
  then have "trim_right_cutset [hyphen] (take 80 s) \<noteq> []" by (rule trim_right_nonempty) (simp add: hyphen_def)
  moreover have "slug_ok (trim_right_cutset [hyphen] (take 80 s))"
    using slug_ok_trim [OF t] trim_right_eq [OF hd] by simp
  moreover have "length (trim_right_cutset [hyphen] (take 80 s)) \<le> 80"
    using length_trim_right [of "[hyphen]" "take 80 s"] by simp
  ultimately show ?thesis using s(1) unfolding g Let_def by (auto simp: s_def)
qed

text \<open>A generated article has a slug of at most 80 bytes that is not empty and well formed, whatever the
  rule and the title of the finding are, even if they have no letter of the alphabet of slugs.\<close>

theorem generated_slug_shape:
  assumes "hex_digests (sg_sha256_hex (ke_agents env))"
  shows "let s = kg_Slug (BuildGeneratedArticle (sg_sha256_hex (ke_agents env)) src content) in s \<noteq> [] \<and> slug_ok s \<and> length s \<le> 80"
  by (rule generated_slug_ok [OF assms])

section \<open>The table keeps one row for a slug\<close>

definition articles_ok :: "article list \<Rightarrow> bool" where
  "articles_ok rows \<longleftrightarrow> distinct (map ka_Slug rows) \<and> list_all (\<lambda>a. slug_ok (ka_Slug a)) rows"

inductive article_step :: "knowledge_db \<Rightarrow> knowledge_db \<Rightarrow> bool" where
  create: "article_step db (snd (CreateArticle env body db))"
| update: "article_step db (snd (UpdateArticle env slug upd db))"
| delete: "article_step db (DeleteArticle env slug db)"
| remediate: "hex_digests (sg_sha256_hex (ke_agents env)) \<Longrightarrow> article_step db (snd (AIRemediate env req db))"
| other: "article_step db (db\<lparr>kb_agents := ag\<rparr>)"

lemma articles_ok_update: "articles_ok rows \<Longrightarrow> (\<And>a. ka_Slug (f a) = ka_Slug a) \<Longrightarrow> articles_ok (update_where P f rows)"
  by (auto simp: articles_ok_def map_update_where list_all_iff set_update_where)

lemma articles_ok_add: "articles_ok rows \<Longrightarrow> kb_by_slug (ka_Slug a) rows = None \<Longrightarrow> slug_ok (ka_Slug a) \<Longrightarrow> articles_ok (rows @ [a])"
  by (auto simp: articles_ok_def kb_by_slug_def row_by_None)

lemma articles_ok_filter: "articles_ok rows \<Longrightarrow> articles_ok (filter P rows)"
  by (auto simp: articles_ok_def distinct_map_filter list_all_iff)

lemma draft_slug [simp]: "ka_Slug (article_of_draft i now d) = kg_Slug d"
  by (simp add: article_of_draft_def)

lemma Upsert_ok:
  "articles_ok (kb_articles db) \<Longrightarrow> slug_ok (kg_Slug d) \<Longrightarrow> articles_ok (kb_articles (snd (Upsert_article env d db)))"
  by (auto simp: Upsert_article_def Let_def articles_ok_update articles_ok_add split: option.splits)

lemma keep_slug_articles [simp]: "kb_articles (keep_slug env i slug db) = kb_articles db"
  by (simp add: keep_slug_def)

lemma remediate_ok:
  assumes "articles_ok (kb_articles db)" "hex_digests (sg_sha256_hex (ke_agents env))"
  shows "articles_ok (kb_articles (snd (remediate env i src db)))"
proof -
  have "articles_ok (kb_articles db1)"
    if "Upsert_article env (BuildGeneratedArticle (sg_sha256_hex (ke_agents env)) src content) db = (r, db1)" for content r db1
    using Upsert_ok [OF assms(1), of _ env] generated_slug_ok [OF assms(2)] that by (metis snd_conv)
  then show ?thesis using assms(1)
    by (auto simp: remediate_def Let_def split: sum.splits option.splits prod.splits)
qed

lemma article_step_ok:
  assumes "articles_ok (kb_articles db)" "article_step db db'"
  shows "articles_ok (kb_articles db')"
  using assms(2)
proof cases
  case (create env body)
  then show ?thesis using assms(1)
    by (auto simp: CreateArticle_def Create_article_def BuildCreateArticle_def Slugify_slug Let_def articles_ok_add split: option.splits sum.splits prod.splits if_splits)
next
  case (update env slug upd)
  then show ?thesis using assms(1)
    by (auto simp: UpdateArticle_def Update_article_def merge_article_def articles_ok_update split: option.splits)
next
  case (delete env slug)
  then show ?thesis using assms(1)
    by (auto simp: DeleteArticle_def Delete_article_def articles_ok_filter split: option.splits)
next
  case (remediate env req)
  then show ?thesis using assms(1)
    by (auto simp: AIRemediate_def remediate_ok split: option.splits sum.splits prod.splits)
next
  case (other ag)
  then show ?thesis using assms(1) by simp
qed

interpretation articles: invariant_machine "\<lambda>db. articles_ok (kb_articles db)" article_step "\<lambda>db. articles_ok (kb_articles db)"
  by unfold_locales (auto intro: article_step_ok)

text \<open>Whatever requests run in any order, the table has one row for a slug and only well formed slugs.\<close>

theorem articles_invariant:
  assumes "articles_ok (kb_articles db)" "article_step\<^sup>*\<^sup>* db db'"
  shows "articles_ok (kb_articles db')"
  by (rule articles.reachable_inv [OF assms])

section \<open>Remediation keeps its answers\<close>

lemma FindByRuleID_ok: "ke_fail env = (\<lambda>_. None) \<Longrightarrow> FindByRuleID env r db = Inr (find (\<lambda>a. r \<in> set (ka_RuleIDs a)) (kb_articles db))"
  by (simp add: FindByRuleID_def)

lemma found_append: "find P (xs @ ys) = (case find P xs of Some x \<Rightarrow> Some x | None \<Rightarrow> find P ys)"
  by (induction xs) auto

lemma unlimited: "sg_limit env < 0 \<Longrightarrow> checkAIScanLimit env st = (None, st)"
  by (simp add: checkAIScanLimit_def)

lemma GetForRemediation_ok:
  assumes "ke_fail env = (\<lambda>_. None)" "GetByID i (ag_findings (kb_agents db)) = Some f"
  shows "\<exists>src. GetForRemediation env i db = Inr src \<and> km_RuleID src = fd_RuleID f \<and> km_Title src = fd_Title f"
  using assms by (simp add: GetForRemediation_def)

lemma AIRemediate_unlimited:
  assumes "sg_limit (ke_agents env) < 0" "i \<noteq> []" "GetForRemediation env i db = Inr src"
  shows "AIRemediate env (Some i) db = remediate env i src db"
  using assms by (simp add: AIRemediate_def unlimited)

lemma keep_slug_findings: "GetByID j (ag_findings (kb_agents db)) = Some f \<Longrightarrow>
    \<exists>g. GetByID j (ag_findings (kb_agents (keep_slug env i slug db))) = Some g \<and> fd_RuleID g = fd_RuleID f \<and> fd_Title g = fd_Title f"
  by (auto simp: keep_slug_def GetByID_def UpdateRemediationSlug_def row_by_update_where)

lemma remediate_new:
  assumes "ke_fail env = (\<lambda>_. None)" "find (\<lambda>a. km_RuleID src \<in> set (ka_RuleIDs a)) (kb_articles db) = None"
    "GenerateRemediation (sg_ai (ke_agents env)) remediationSystemPrompt (buildPrompt src) = Inr content"
    "d = BuildGeneratedArticle (sg_sha256_hex (ke_agents env)) src content"
  shows "kb_by_slug (kg_Slug d) (kb_articles db) = None \<Longrightarrow>
      remediate env i src db = (let a = article_of_draft (ke_id env (kb_articles db)) (ke_now env) d in
        (Inr (a, False), keep_slug env i (kg_Slug d) (db\<lparr>kb_articles := kb_articles db @ [a]\<rparr>)))"
    "kb_by_slug (kg_Slug d) (kb_articles db) = Some a \<Longrightarrow>
      remediate env i src db = (let up = (\<lambda>x. x\<lparr>ka_ContentMD := content, ka_UpdatedAt := ke_now env\<rparr>) in
        (Inr (up a, False), keep_slug env i (ka_Slug a) (db\<lparr>kb_articles := update_where (\<lambda>x. ka_Slug x = kg_Slug d) up (kb_articles db)\<rparr>)))"
  using assms by (simp_all add: remediate_def FindByRuleID_ok Upsert_article_def Let_def BuildGeneratedArticle_def)

text \<open>An article generated for a finding answers every later finding of the same rule: the second request
  gives the stored article, marked as cached, even if no provider answers any more.\<close>

theorem remediation_cached:
  assumes "ke_fail env = (\<lambda>_. None)" "sg_limit (ke_agents env) < 0" "ke_fail env' = (\<lambda>_. None)" "sg_limit (ke_agents env') < 0"
    and "i \<noteq> []" "j \<noteq> []" "GetByID i (ag_findings (kb_agents db)) = Some f" "GetByID j (ag_findings (kb_agents db)) = Some g"
    and "fd_RuleID g = fd_RuleID f" "find (\<lambda>a. fd_RuleID f \<in> set (ka_RuleIDs a)) (kb_articles db) = None"
    and "AIRemediate env (Some i) db = (Inr (a, False), db1)" "kb_by_slug (ka_Slug a) (kb_articles db) = None"
  shows "fst (AIRemediate env' (Some j) db1) = Inr (a, True)"
proof -
  obtain src where src: "GetForRemediation env i db = Inr src" "km_RuleID src = fd_RuleID f"
    using GetForRemediation_ok [OF assms(1,7)] by blast
  have r: "remediate env i src db = (Inr (a, False), db1)" using AIRemediate_unlimited [OF assms(2,5) src(1)] assms(11) by simp
  obtain content where content: "GenerateRemediation (sg_ai (ke_agents env)) remediationSystemPrompt (buildPrompt src) = Inr content"
    using r assms(1,10) src(2) by (auto simp: remediate_def FindByRuleID_ok split: sum.splits)
  define d where "d = BuildGeneratedArticle (sg_sha256_hex (ke_agents env)) src content"
  note new = remediate_new [OF assms(1) _ content d_def, unfolded src(2), OF assms(10)]
  have slug: "kb_by_slug (kg_Slug d) (kb_articles db) = None"
  proof (rule ccontr)
    assume "kb_by_slug (kg_Slug d) (kb_articles db) \<noteq> None"
    then obtain x where x: "kb_by_slug (kg_Slug d) (kb_articles db) = Some x" by blast
    then have "ka_Slug x = kg_Slug d" by (auto simp: kb_by_slug_def dest: row_by_SomeD)
    moreover have "ka_Slug a = ka_Slug x" using new(2) [OF x, of i] r by (auto simp: Let_def)
    ultimately show False using assms(12) x by simp
  qed
  from new(1) [OF slug] r have a: "ka_RuleIDs a = [fd_RuleID f]" and db1: "kb_articles db1 = kb_articles db @ [a]"
    and db1': "db1 = keep_slug env i (kg_Slug d) (db\<lparr>kb_articles := kb_articles db @ [a]\<rparr>)"
    by (auto simp: Let_def d_def BuildGeneratedArticle_def article_of_draft_def src(2))
  obtain g1 where "GetByID j (ag_findings (kb_agents db1)) = Some g1" "fd_RuleID g1 = fd_RuleID f"
    using keep_slug_findings [of j "db\<lparr>kb_articles := kb_articles db @ [a]\<rparr>" g env i "kg_Slug d"] assms(8,9) unfolding db1' by auto
  then obtain src1 where src1: "GetForRemediation env' j db1 = Inr src1" "km_RuleID src1 = fd_RuleID f"
    using GetForRemediation_ok [OF assms(3)] by metis
  show ?thesis
    unfolding AIRemediate_unlimited [OF assms(4,6) src1(1)]
    using assms(3,10) by (simp add: remediate_def FindByRuleID_ok src1(2) db1 found_append a)
qed

section \<open>What it does not keep\<close>

text \<open>Two rules whose generated slugs agree share a row: the article generated for the second rule
  replaces the text of the first rule's, and is itself never found by its rule, so that the next finding
  of the second rule is generated again.\<close>

theorem shared_slug_overwrites:
  assumes "ke_fail env = (\<lambda>_. None)" "kb_by_slug slug (kb_articles db) = Some a" "articles_ok (kb_articles db)"
    and "find (\<lambda>x. km_RuleID src \<in> set (ka_RuleIDs x)) (kb_articles db) = None"
    and "GenerateRemediation (sg_ai (ke_agents env)) remediationSystemPrompt (buildPrompt src) = Inr content"
    and "kg_Slug (BuildGeneratedArticle (sg_sha256_hex (ke_agents env)) src content) = slug"
  shows "let db1 = snd (remediate env i src db) in
    kb_by_slug slug (kb_articles db1) = Some (a\<lparr>ka_ContentMD := content, ka_UpdatedAt := ke_now env\<rparr>) \<and>
    FindByRuleID env (km_RuleID src) db1 = Inr None"
proof -
  let ?up = "\<lambda>x. x\<lparr>ka_ContentMD := content, ka_UpdatedAt := ke_now env\<rparr>"
  have db1: "kb_articles (snd (remediate env i src db)) = update_where (\<lambda>x. ka_Slug x = slug) ?up (kb_articles db)"
    using remediate_new(2) [OF assms(1,4,5) refl, of a i] assms(2,6) by (simp add: Let_def)
  have "kb_by_slug slug (update_where (\<lambda>x. ka_Slug x = slug) ?up (kb_articles db)) = Some (?up a)"
    using assms(2) by (auto simp: kb_by_slug_def row_by_update_where dest: row_by_SomeD)
  moreover have "find (\<lambda>x. km_RuleID src \<in> set (ka_RuleIDs x)) (update_where (\<lambda>x. ka_Slug x = slug) ?up (kb_articles db)) = None"
    using assms(4) by (auto simp: find_None_iff set_update_where)
  ultimately show ?thesis using assms(1) by (simp add: Let_def FindByRuleID_ok db1)
qed

lemma any_rule: "about [] ruleID = (\<lambda>a. True)"
  by (auto simp: about_def)

text \<open>The article for a rule does not depend on the rule: with no CWE in the request every article
  matches, and the answer is the first of the table, the hand-written ones in front.\<close>

theorem article_ignores_rule:
  assumes "ke_fail env = (\<lambda>_. None)" "r \<noteq> []"
  shows "FindArticleForFinding env r [] db =
    Inr (case filter (\<lambda>a. \<not> ka_AutoGenerated a) (kb_articles db) @ filter ka_AutoGenerated (kb_articles db) of [] \<Rightarrow> None | a # _ \<Rightarrow> Some a)"
  using assms by (simp add: FindArticleForFinding_def FindByCWEOrRule_def any_rule Let_def split: list.split)

text \<open>A stored article costs a unit of the monthly quota like a generated one, and once the quota is used
  up it is refused as well, although no provider would be asked.\<close>

theorem cached_article_costs:
  assumes "ke_fail env = (\<lambda>_. None)" "0 \<le> sg_limit (ke_agents env)" "i \<noteq> []"
    and "GetByID i (ag_findings (kb_agents db)) = Some f" "find (\<lambda>a. fd_RuleID f \<in> set (ka_RuleIDs a)) (kb_articles db) = Some a"
    and "ag_usage (kb_agents db) (sg_month (ke_agents env)) = Some n" "0 \<le> n"
  shows "case AIRemediate env (Some i) db of (r, db1) \<Rightarrow>
    (if n < sg_limit (ke_agents env) then r = Inr (a, True) \<and> ag_usage (kb_agents db1) (sg_month (ke_agents env)) = Some (n + 1)
     else \<exists>msg. r = Inl (403, msg))"
proof -
  obtain src where src: "GetForRemediation env i db = Inr src" "km_RuleID src = fd_RuleID f"
    using GetForRemediation_ok [OF assms(1,4)] by blast
  have up: "ag_usage (kb_agents (keep_slug env j s x)) = ag_usage (kb_agents x)" for j s x by (simp add: keep_slug_def)
  show ?thesis using assms
    by (auto simp: AIRemediate_def src checkAIScanLimit_def IncrementAIScan_def remediate_def FindByRuleID_ok up Let_def split: if_splits)
qed

section \<open>Instances\<close>

definition sample_articles :: knowledge_env where
  "sample_articles = \<lparr>ke_agents = sample_agents\<lparr>sg_limit := - 1, sg_ai := sample_ai\<lparr>ay_ollama := (''u'', ''m''), ay_OllamaGenerate := (\<lambda>_ _ _. Inr ''Close it'')\<rparr>,
     sg_sha256_hex := (\<lambda>_. replicate 64 CHR ''a'')\<rparr>,
     ke_id = (\<lambda>rows. nat_str (length rows))\<rparr>"

definition sample_knowledge :: knowledge_db where
  "sample_knowledge = \<lparr>kb_articles = [], kb_agents = sample_agent_state\<rparr>"

definition sample_article :: "string \<Rightarrow> article" where
  "sample_article rule = \<lparr>ka_ID = ''a1'', ka_Slug = ''ai-r1-open-bucket'', ka_Title = ''Open bucket'', ka_ContentMD = ''Close it'', ka_Tags = [],
     ka_CWEIDs = [], ka_RuleIDs = [rule], ka_Scanner = ''kics'', ka_AutoGenerated = False, ka_CreatedAt = 1, ka_UpdatedAt = 1\<rparr>"

lemma sample_hex: "hex_digests (sg_sha256_hex (ke_agents sample_articles))"
  by (simp add: hex_digests_def sample_articles_def list_all_iff slug_char_def)

lemma sample_articles_env: "ke_fail sample_articles = (\<lambda>_. None)" "sg_limit (ke_agents sample_articles) = - 1"
  by (simp_all add: sample_articles_def)

lemma generated_slug_shape_witness:
  "let s = kg_Slug (BuildGeneratedArticle (sg_sha256_hex (ke_agents sample_articles)) \<lparr>km_RuleID = [], km_Title = ''...'', km_Description = [],
     km_Severity = [], km_Scanner = [], km_FilePath = [], km_CodeSnippet = [], km_CVEID = [], km_CWEID = []\<rparr> ''Close it'')
   in s \<noteq> [] \<and> slug_ok s \<and> length s \<le> 80"
  by (rule generated_slug_shape [OF sample_hex])

lemma articles_invariant_witness:
  "articles_ok (kb_articles (DeleteArticle sample_articles ''x'' (snd (AIRemediate sample_articles (Some ''f1'') sample_knowledge))))"
proof (rule articles_invariant [of sample_knowledge])
  show "articles_ok (kb_articles sample_knowledge)" by (simp add: articles_ok_def sample_knowledge_def)
  have "article_step sample_knowledge (snd (AIRemediate sample_articles (Some ''f1'') sample_knowledge))"
    by (rule article_step.remediate) (rule sample_hex)
  then show "article_step\<^sup>*\<^sup>* sample_knowledge (DeleteArticle sample_articles ''x'' (snd (AIRemediate sample_articles (Some ''f1'') sample_knowledge)))"
    by (meson article_step.delete r_into_rtranclp rtranclp.rtrancl_into_rtrancl)
qed

definition sample_source :: remediation_source where
  "sample_source = \<lparr>km_RuleID = ''r1'', km_Title = ''Open bucket'', km_Description = [], km_Severity = ''high'', km_Scanner = ''kics'',
     km_FilePath = ''f1'', km_CodeSnippet = [], km_CVEID = [], km_CWEID = []\<rparr>"

lemma sample_generation: "GenerateRemediation (sg_ai (ke_agents sample_articles)) remediationSystemPrompt (buildPrompt src) = Inr ''Close it''"
  by (simp add: sample_articles_def sample_agents_def OllamaEnabled_def GenerateRemediation_def generate_for_def sample_ai_def generateWithProvider_def)

lemma sample_slug: "Slugify (''r1'' @ ''-'' @ ''Open bucket'') = ''r1-open-bucket''"
  by code_simp

lemma sample_new_article: "kg_Slug (BuildGeneratedArticle sha sample_source content) = ''ai-r1-open-bucket''"
  by (simp add: BuildGeneratedArticle_def generated_slug_def sample_source_def sample_slug [simplified] Let_def)

lemma sample_knowledge_sel [simp]: "kb_articles sample_knowledge = []" "kb_agents sample_knowledge = sample_agent_state"
  by (simp_all add: sample_knowledge_def)

lemma sample_knowledge_found: "GetByID ''f1'' [sample_bare ''f1'' [], sample_bare ''f2'' [], sample_bare ''f3'' ''Leaks''] = Some (sample_bare ''f1'' [])"
  "GetByID ''f2'' [sample_bare ''f1'' [], sample_bare ''f2'' [], sample_bare ''f3'' ''Leaks''] = Some (sample_bare ''f2'' [])"
  by (simp_all add: GetByID_def)

lemma sample_bare_columns: "fd_RuleID (sample_bare i d) = ''r1''" "fd_Title (sample_bare i d) = ''Open bucket''" "fd_Severity (sample_bare i d) = ''high''"
  "fd_Scanner (sample_bare i d) = ''kics''" "fd_FilePath (sample_bare i d) = i" "fd_CodeSnippet (sample_bare i d) = []"
  "fd_CVEID (sample_bare i d) = None" "fd_CWEID (sample_bare i d) = None"
  by (simp_all add: sample_bare_def new_finding_def)

lemma sample_remediation: "GetForRemediation sample_articles ''f1'' sample_knowledge = Inr sample_source"
  by (simp add: GetForRemediation_def sample_articles_env sample_knowledge_found sample_source_def sample_bare_columns derefStr_def)

lemma remediation_cached_witness:
  "\<exists>a. fst (AIRemediate (sample_articles\<lparr>ke_agents := (ke_agents sample_articles)\<lparr>sg_ai := sample_ai\<rparr>\<rparr>) (Some ''f2'')
      (snd (AIRemediate sample_articles (Some ''f1'') sample_knowledge))) = Inr (a, True)"
proof -
  let ?env' = "sample_articles\<lparr>ke_agents := (ke_agents sample_articles)\<lparr>sg_ai := sample_ai\<rparr>\<rparr>"
  define d where "d = BuildGeneratedArticle (sg_sha256_hex (ke_agents sample_articles)) sample_source ''Close it''"
  have slug: "kb_by_slug (kg_Slug d) (kb_articles sample_knowledge) = None" by (simp add: kb_by_slug_def)
  have none: "find (\<lambda>a. r \<in> set (ka_RuleIDs a)) (kb_articles sample_knowledge) = None" for r by simp
  obtain a db1 where r: "AIRemediate sample_articles (Some ''f1'') sample_knowledge = (Inr (a, False), db1)"
    using remediate_new(1) [OF sample_articles_env(1) none sample_generation d_def slug, of "''f1''"]
      AIRemediate_unlimited [OF _ _ sample_remediation] by (simp add: sample_articles_env Let_def)
  have env': "ke_fail ?env' = (\<lambda>_. None)" "sg_limit (ke_agents ?env') < 0" by (simp_all add: sample_articles_def)
  have "fst (AIRemediate ?env' (Some ''f2'') db1) = Inr (a, True)"
    by (rule remediation_cached [where f = "sample_bare ''f1'' []" and g = "sample_bare ''f2'' []", OF sample_articles_env(1) _ env' _ _ _ _ _ _ r])
      (simp_all add: sample_articles_env sample_knowledge_found sample_bare_columns kb_by_slug_def)
  then show ?thesis using r by auto
qed

lemma shared_slug_overwrites_witness:
  "let db1 = snd (remediate sample_articles ''f1'' sample_source (sample_knowledge\<lparr>kb_articles := [sample_article ''r9'']\<rparr>)) in
    kb_by_slug ''ai-r1-open-bucket'' (kb_articles db1) = Some ((sample_article ''r9'')\<lparr>ka_ContentMD := ''Close it'', ka_UpdatedAt := ke_now sample_articles\<rparr>) \<and>
    FindByRuleID sample_articles ''r1'' db1 = Inr None"
proof -
  have "articles_ok [sample_article ''r9'']" by (simp add: articles_ok_def sample_article_def) code_simp
  then show ?thesis
    using shared_slug_overwrites [OF sample_articles_env(1) _ _ _ sample_generation sample_new_article, of "sample_knowledge\<lparr>kb_articles := [sample_article ''r9'']\<rparr>"
        "sample_article ''r9''" "''f1''"]
    by (simp add: kb_by_slug_def sample_article_def sample_source_def)
qed

lemma article_ignores_rule_witness:
  "FindArticleForFinding sample_articles ''r1'' [] (sample_knowledge\<lparr>kb_articles := [sample_article ''r9'']\<rparr>) = Inr (Some (sample_article ''r9''))"
  by (simp add: article_ignores_rule [OF sample_articles_env(1)] sample_article_def)

lemma cached_article_costs_witness:
  "\<exists>msg. fst (AIRemediate (sample_articles\<lparr>ke_agents := (ke_agents sample_articles)\<lparr>sg_limit := 0\<rparr>\<rparr>) (Some ''f1'')
     (sample_knowledge\<lparr>kb_articles := [sample_article ''r1'']\<rparr>)) = Inl (403, msg)"
  using cached_article_costs [of "sample_articles\<lparr>ke_agents := (ke_agents sample_articles)\<lparr>sg_limit := 0\<rparr>\<rparr>" "''f1''"
      "sample_knowledge\<lparr>kb_articles := [sample_article ''r1'']\<rparr>" "sample_bare ''f1'' []" "sample_article ''r1''" 0]
  by (auto simp: sample_articles_env sample_knowledge_found sample_bare_columns sample_article_def split: prod.splits)

end
