(* ===== verification/Api_Routes.thy ===== *)
theory Api_Routes
  imports Knowledge
begin

text \<open>
  The routes of the server (\<^verbatim>\<open>src/cmd/api/main.go\<close>): the table as it is registered, with the guards in
  front of every handler, and what the guards let through.  Finding the route of a request is the
  work of the router, a library: its answer to \<^verbatim>\<open>URLParam\<close> is a parameter, and the lemmas that need it
  name what its documentation says.  The components prove their handlers; the theorems here are about
  the handlers behind the guards.
\<close>

section \<open>The table\<close>

record api_route =
  rt_Method :: string
  rt_Pattern :: string
  rt_Handler :: string
  rt_Roles :: "string list option"
  rt_Owns :: "string option"

definition route :: "string \<Rightarrow> string \<Rightarrow> string \<Rightarrow> api_route" where
  "route m p h = \<lparr>rt_Method = m, rt_Pattern = p, rt_Handler = h, rt_Roles = None, rt_Owns = None\<rparr>"

definition with_role :: "string list \<Rightarrow> api_route \<Rightarrow> api_route" where
  "with_role roles r = r\<lparr>rt_Roles := Some roles\<rparr>"

definition owned :: "string \<Rightarrow> api_route \<Rightarrow> api_route" where
  "owned resource r = r\<lparr>rt_Owns := Some resource\<rparr>"

definition open_routes :: "api_route list" where
  "open_routes = [
     route ''GET'' ''/api/health'' ''GetHealth'',
     route ''GET'' ''/api/auth/sso/status'' ''GetSSOStatus'',
     route ''POST'' ''/api/auth/login'' ''Login'',
     route ''POST'' ''/api/auth/logout'' ''Logout'',
     route ''GET'' ''/api/auth/sso/login'' ''SSOLogin'',
     route ''GET'' ''/api/auth/sso/callback'' ''SSOCallback'']"

definition key_routes :: "api_route list" where
  "key_routes = [
     route ''POST'' ''/api/v1/scans/external'' ''CreateExternalScan'',
     route ''GET'' ''/api/v1/scans/{id}/status'' ''GetExternalScanStatus'',
     route ''GET'' ''/v1/mcp/'' ''HandleMCP'',
     route ''POST'' ''/v1/mcp/'' ''HandleMCP'']"

definition platform_routes :: "api_route list" where
  "platform_routes = [
     route ''GET'' ''/api/v1/tokens'' ''ListTokens'',
     route ''POST'' ''/api/v1/tokens'' ''CreateToken'',
     route ''POST'' ''/api/v1/tokens/{id}/rotate'' ''RotateToken'',
     route ''DELETE'' ''/api/v1/tokens/{id}'' ''DeleteToken'',
     route ''GET'' ''/api/scans'' ''ListScans'',
     route ''POST'' ''/api/scans'' ''CreateScan'',
     owned ''scan'' (route ''GET'' ''/api/scans/{id}'' ''GetScan''),
     owned ''scan'' (route ''GET'' ''/api/scans/{id}/findings'' ''GetScanFindings''),
     route ''GET'' ''/api/findings'' ''ListFindings'',
     owned ''finding'' (route ''GET'' ''/api/findings/{id}'' ''GetFinding''),
     owned ''finding'' (route ''GET'' ''/api/findings/{id}/detail'' ''GetFindingDetail''),
     owned ''finding'' (route ''PATCH'' ''/api/findings/{id}'' ''UpdateFinding''),
     owned ''finding'' (route ''GET'' ''/api/findings/{id}/jira'' ''GetFindingJiraIssue''),
     with_role [''admin''] (owned ''finding'' (route ''POST'' ''/api/findings/{id}/jira'' ''CreateFindingJiraIssue'')),
     route ''GET'' ''/api/findings/sla'' ''GetSLASummary'',
     owned ''finding'' (route ''GET'' ''/api/findings/{id}/correlations'' ''GetFindingCorrelations''),
     owned ''finding'' (route ''POST'' ''/api/findings/{id}/summary'' ''RequestFindingSummary''),
     route ''GET'' ''/api/findings/files'' ''GetUniqueFiles'',
     with_role [''admin''] (route ''PATCH'' ''/api/findings/bulk'' ''BulkUpdateFindings''),
     route ''GET'' ''/api/events'' ''HandleSSEEvents'',
     route ''GET'' ''/api/events/stats'' ''GetSSEStats'',
     route ''GET'' ''/api/notifications'' ''GetNotifications'',
     route ''GET'' ''/api/notifications/unread-count'' ''GetUnreadNotificationCount'',
     route ''PATCH'' ''/api/notifications/{id}/read'' ''MarkNotificationAsRead'',
     route ''PATCH'' ''/api/notifications/read-all'' ''MarkAllNotificationsAsRead'',
     route ''GET'' ''/api/vulnerabilities'' ''ListVulnerabilities'',
     route ''GET'' ''/api/vulnerabilities/{vulnID}/affected'' ''GetVulnerabilityAffected'',
     route ''GET'' ''/api/vulnerabilities/engine-summary'' ''GetVulnerabilityEngineSummary'',
     with_role [''admin''] (route ''PATCH'' ''/api/vulnerabilities/{vulnID}/status'' ''UpdateVulnerabilityStatus''),
     route ''GET'' ''/api/threats/exposures'' ''ListThreatExposures'',
     owned ''finding'' (route ''GET'' ''/api/findings/{id}/comments'' ''GetFindingComments''),
     with_role [''admin''] (owned ''finding'' (route ''POST'' ''/api/findings/{id}/comments'' ''CreateFindingComment'')),
     with_role [''admin''] (owned ''finding'' (route ''DELETE'' ''/api/findings/{id}/comments/{commentID}'' ''DeleteFindingComment'')),
     route ''GET'' ''/api/audit-logs'' ''ListAuditLogs'',
     owned ''risk-acceptance'' (route ''GET'' ''/api/findings/{id}/risk-acceptance'' ''GetRiskAcceptanceByFinding''),
     with_role [''admin''] (route ''GET'' ''/api/risk-acceptances'' ''ListRiskAcceptances''),
     with_role [''admin''] (route ''POST'' ''/api/risk-acceptances'' ''CreateRiskAcceptance''),
     with_role [''admin''] (owned ''risk-acceptance'' (route ''POST'' ''/api/risk-acceptances/{id}/approve'' ''ApproveRiskAcceptance'')),
     with_role [''admin''] (owned ''risk-acceptance'' (route ''POST'' ''/api/risk-acceptances/{id}/reject'' ''RejectRiskAcceptance'')),
     route ''GET'' ''/api/metrics/trends'' ''GetTrends'',
     route ''GET'' ''/api/metrics/risk'' ''GetRiskScores'',
     route ''GET'' ''/api/findings/export'' ''ExportFindings'',
     route ''GET'' ''/api/metrics/summary'' ''GetMetricsSummary'',
     route ''GET'' ''/api/metrics/sla-compliance'' ''GetSLACompliance'',
     route ''GET'' ''/api/metrics/security-score'' ''GetSecurityScores'',
     route ''GET'' ''/api/metrics/teams'' ''GetTeamMetrics'',
     route ''GET'' ''/api/metrics/scanner-health'' ''GetScannerHealth'',
     route ''GET'' ''/api/apps'' ''ListApps'',
     with_role [''admin''] (route ''POST'' ''/api/apps'' ''CreateApp''),
     owned ''app'' (route ''GET'' ''/api/apps/{id}'' ''GetApp''),
     owned ''app'' (route ''PATCH'' ''/api/apps/{id}'' ''UpdateApp''),
     owned ''app'' (route ''DELETE'' ''/api/apps/{id}'' ''DeleteApp''),
     owned ''app'' (route ''GET'' ''/api/apps/{id}/projects'' ''ListProjects''),
     owned ''app'' (route ''POST'' ''/api/apps/{id}/projects'' ''CreateProject''),
     route ''GET'' ''/api/projects'' ''ListProjects'',
     with_role [''admin''] (route ''POST'' ''/api/projects'' ''CreateProject''),
     route ''GET'' ''/api/coverage'' ''GetCoverageReport'',
     owned ''project'' (route ''GET'' ''/api/projects/{projectID}'' ''GetProject''),
     owned ''project'' (route ''PATCH'' ''/api/projects/{projectID}'' ''UpdateProject''),
     owned ''project'' (route ''PUT'' ''/api/projects/{projectID}/github-token'' ''UpdateProjectGitHubToken''),
     owned ''project'' (route ''DELETE'' ''/api/projects/{projectID}'' ''DeleteProject''),
     with_role [''admin''] (route ''POST'' ''/api/projects/bulk'' ''BulkCreateProjects''),
     with_role [''admin''] (route ''POST'' ''/api/projects/bulk-assign'' ''BulkAssignProjects'')]"

definition settings_routes :: "api_route list" where
  "settings_routes = [
     route ''POST'' ''/api/knowledge/ai-remediate'' ''AIRemediate'',
     owned ''finding'' (route ''POST'' ''/api/findings/{id}/analyze'' ''AnalyzeFinding''),
     owned ''finding'' (route ''GET'' ''/api/findings/{id}/analysis'' ''GetFindingAnalysis''),
     with_role [''admin''] (route ''GET'' ''/api/ai/openrouter/status'' ''GetOpenRouterStatus''),
     route ''GET'' ''/api/knowledge'' ''ListArticles'',
     route ''GET'' ''/api/knowledge/lookup'' ''FindArticleForFinding'',
     route ''GET'' ''/api/knowledge/{slug}'' ''GetArticle'',
     with_role [''admin''] (route ''POST'' ''/api/knowledge'' ''CreateArticle''),
     with_role [''admin''] (route ''PUT'' ''/api/knowledge/{slug}'' ''UpdateArticle''),
     with_role [''admin''] (route ''DELETE'' ''/api/knowledge/{slug}'' ''DeleteArticle''),
     with_role [''admin''] (route ''GET'' ''/api/users'' ''ListUsers''),
     with_role [''admin''] (route ''POST'' ''/api/users'' ''CreateUser''),
     with_role [''admin''] (route ''PATCH'' ''/api/users/{id}'' ''UpdateUser''),
     with_role [''admin''] (route ''POST'' ''/api/users/{id}/reset-password'' ''ResetPassword''),
     with_role [''admin''] (route ''DELETE'' ''/api/users/{id}'' ''DeleteUser''),
     route ''GET'' ''/api/teams'' ''ListTeams'',
     with_role [''admin''] (route ''POST'' ''/api/teams'' ''CreateTeam''),
     with_role [''admin''] (route ''DELETE'' ''/api/teams/{id}'' ''DeleteTeam''),
     with_role [''admin''] (route ''POST'' ''/api/teams/{id}/members'' ''AddTeamMember''),
     with_role [''admin''] (route ''DELETE'' ''/api/teams/{id}/members/{userID}'' ''RemoveTeamMember''),
     route ''GET'' ''/api/me'' ''GetMe'',
     route ''GET'' ''/api/version'' ''GetVersion'',
     route ''GET'' ''/api/version/check'' ''GetVersionCheck'',
     route ''GET'' ''/api/health/detailed'' ''GetDetailedHealth'',
     route ''GET'' ''/api/config/status'' ''GetConfigStatus'',
     with_role [''admin'', ''viewer''] (route ''GET'' ''/api/limits'' ''GetLimits''),
     with_role [''admin''] (route ''GET'' ''/api/policies'' ''ListPolicies''),
     with_role [''admin''] (route ''POST'' ''/api/policies'' ''CreatePolicy''),
     with_role [''admin''] (route ''PATCH'' ''/api/policies/{id}'' ''UpdatePolicy''),
     with_role [''admin''] (route ''DELETE'' ''/api/policies/{id}'' ''DeletePolicy''),
     with_role [''admin''] (route ''GET'' ''/api/suppressions'' ''ListSuppressions''),
     with_role [''admin''] (route ''POST'' ''/api/suppressions'' ''CreateSuppression''),
     with_role [''admin''] (route ''DELETE'' ''/api/suppressions/{id}'' ''DeleteSuppression''),
     route ''GET'' ''/api/schedules'' ''ListSchedules'',
     route ''GET'' ''/api/schedules/{scheduleID}'' ''GetSchedule'',
     with_role [''admin''] (route ''POST'' ''/api/schedules'' ''CreateSchedule''),
     with_role [''admin''] (route ''PATCH'' ''/api/schedules/{scheduleID}'' ''UpdateSchedule''),
     with_role [''admin''] (route ''DELETE'' ''/api/schedules/{scheduleID}'' ''DeleteSchedule''),
     with_role [''admin''] (route ''GET'' ''/api/webhooks'' ''ListWebhooks''),
     with_role [''admin''] (route ''POST'' ''/api/webhooks'' ''CreateWebhook''),
     with_role [''admin''] (route ''PATCH'' ''/api/webhooks/{id}'' ''UpdateWebhook''),
     with_role [''admin''] (route ''DELETE'' ''/api/webhooks/{id}'' ''DeleteWebhook''),
     with_role [''admin''] (route ''POST'' ''/api/webhooks/{id}/test'' ''TestWebhook''),
     with_role [''admin''] (route ''GET'' ''/api/settings/notifications'' ''GetNotificationSettings''),
     with_role [''admin''] (route ''PATCH'' ''/api/settings/notifications'' ''UpdateNotificationSettings''),
     with_role [''admin''] (route ''POST'' ''/api/settings/notifications/test-email'' ''TestNotificationEmail''),
     with_role [''admin''] (route ''GET'' ''/api/integrations/jira'' ''GetJiraIntegration''),
     with_role [''admin''] (route ''PUT'' ''/api/integrations/jira'' ''UpdateJiraIntegration'')]"

text \<open>The group behind the session.\<close>

definition session_routes :: "api_route list" where
  "session_routes = platform_routes @ settings_routes"

section \<open>The guards\<close>

text \<open>The session and its role come first, then the ownership, which wraps the handler.\<close>

definition route_gate ::
  "jwt_lib \<Rightarrow> string \<Rightarrow> user_env \<Rightarrow> user_row list \<Rightarrow> tenant_db \<Rightarrow> api_route \<Rightarrow> session_request \<Rightarrow> string \<Rightarrow> (gate \<times> claims option) option" where
  "route_gate jw secret env users db r req path =
     (case session_gate jw secret env users (rt_Roles r) req of
        None \<Rightarrow> None
      | Some (Refuse s t, who) \<Rightarrow> Some (Refuse s t, who)
      | Some (Next, who) \<Rightarrow>
          Some (case rt_Owns r of None \<Rightarrow> Next | Some resource \<Rightarrow> RequireOwnership db resource who path, who))"

section \<open>Paths and patterns\<close>

text \<open>A path fits a pattern if their segments agree; a segment in braces takes every segment that is not
  empty.  The values are those of the braces.\<close>

definition is_param :: "string \<Rightarrow> bool" where
  "is_param p \<longleftrightarrow> has_prefix p ''{''"

fun fits :: "string list \<Rightarrow> string list \<Rightarrow> string list option" where
  "fits [] [] = Some []"
| "fits (p # ps) (s # ss) =
     (if is_param p then (if s = [] then None else map_option ((#) s) (fits ps ss))
      else if p = s then fits ps ss else None)"
| "fits _ _ = None"

definition path_values :: "api_route \<Rightarrow> string \<Rightarrow> string list option" where
  "path_values r path = fits (split_on (CHR ''/'') (rt_Pattern r)) (split_on (CHR ''/'') path)"

text \<open>A guard finds its identifier if the name of the resource comes before every brace and right before
  the first.\<close>

fun names_first :: "string list \<Rightarrow> string list \<Rightarrow> bool" where
  "names_first names [] \<longleftrightarrow> False"
| "names_first names (p # ps) \<longleftrightarrow>
     (if is_param p then False
      else if p \<in> set names then (case ps of [] \<Rightarrow> False | q # _ \<Rightarrow> is_param q)
      else names_first names ps)"

lemma names_first_loop: "names_first names ps \<Longrightarrow> fits ps ss = Some vs \<Longrightarrow> vs \<noteq> [] \<and> resource_loop names ss = hd vs \<and> hd vs \<noteq> []"
proof (induction ps ss arbitrary: vs rule: fits.induct)
  case (2 p ps s ss)
  show ?case
  proof (cases "p \<in> set names")
    case True
    with 2(3,4) obtain q qs where "ps = q # qs" "is_param q" "p = s" "\<not> is_param p" by (auto split: if_splits list.splits)
    with 2(4) True show ?thesis by (cases ss) (auto split: if_splits)
  next
    case False
    with 2 show ?thesis by (auto split: if_splits)
  qed
qed auto

definition guard_placed :: "api_route \<Rightarrow> bool" where
  "guard_placed r \<longleftrightarrow> (case rt_Owns r of None \<Rightarrow> True
     | Some resource \<Rightarrow> names_first (resource_names resource) (split_on (CHR ''/'') (rt_Pattern r)))"

lemma guards_placed: "list_all (\<lambda>r. guard_placed r \<or> rt_Handler r = ''GetRiskAcceptanceByFinding'') session_routes"
  by code_simp

definition owned_by :: "tenant_db \<Rightarrow> string \<Rightarrow> string \<Rightarrow> string \<Rightarrow> bool" where
  "owned_by db resource userID i \<longleftrightarrow> ownership_of db resource userID i = Some (Inr True)"

lemma guard_reads:
  assumes "r \<in> set session_routes" "rt_Owns r = Some resource" "rt_Handler r \<noteq> ''GetRiskAcceptanceByFinding''" "path_values r path = Some vs"
  shows "extractResourceID path resource = hd vs \<and> hd vs \<noteq> []"
proof -
  have "guard_placed r" using guards_placed assms(1,3) by (auto simp: list_all_iff)
  then show ?thesis
    using names_first_loop assms(2,4) unfolding guard_placed_def path_values_def extractResourceID_def by auto
qed

section \<open>What the guards let through\<close>

lemma gate_session: "route_gate jw secret env users db r req path = Some (Next, Some c) \<Longrightarrow>
    session_gate jw secret env users (rt_Roles r) req = Some (Next, Some c) \<and>
    (case rt_Owns r of None \<Rightarrow> True | Some resource \<Rightarrow> RequireOwnership db resource (Some c) path = Next)"
  by (auto simp: route_gate_def split: option.splits gate.splits prod.splits)

lemma session_role: "session_gate jw secret env users (Some roles) req = Some (Next, Some c) \<Longrightarrow> cm_Role c \<in> set roles"
  by (auto simp: session_gate_def RequireRole_def Let_def split: option.splits sum.splits gate.splits if_splits)

lemma ownership_next:
  assumes "RequireOwnership db resource (Some c) path = Next" "cm_Role c \<noteq> ''admin''"
  shows "extractResourceID path resource \<noteq> [] \<and> owned_by db resource (cm_UserID c) (extractResourceID path resource)"
  using assms
  by (auto simp: RequireOwnership_def owned_by_def hasCapability_def roleCapabilities_def Let_def split: option.splits sum.splits if_splits)

lemma ownership_gate:
  "RequireOwnership db resource (Some c) path = Next \<longleftrightarrow>
    cm_Role c = ''admin'' \<or> extractResourceID path resource \<noteq> [] \<and> owned_by db resource (cm_UserID c) (extractResourceID path resource)"
  by (auto simp: RequireOwnership_def owned_by_def hasCapability_def roleCapabilities_def Let_def split: option.splits sum.splits if_splits)

text \<open>On every route with an ownership guard but one, for every path of the route, the guard checks the
  resource the first brace of the path names: the request gets through exactly for an administrator or
  for a user who owns that resource.\<close>

theorem every_guard_checks_its_resource:
  assumes "r \<in> set session_routes" "rt_Owns r = Some resource" "rt_Handler r \<noteq> ''GetRiskAcceptanceByFinding''" "path_values r path = Some vs"
  shows "RequireOwnership db resource (Some c) path = Next \<longleftrightarrow> cm_Role c = ''admin'' \<or> owned_by db resource (cm_UserID c) (hd vs)"
  using guard_reads [OF assms] by (simp add: ownership_gate)

text \<open>The requests that change something for users of every role, without a resource of a team: the user's
  own keys and notifications, new scans, whose handler has checks of its own, and remediations.\<close>

definition own_requests :: "string list" where
  "own_requests = [''CreateToken'', ''RotateToken'', ''DeleteToken'', ''CreateScan'', ''MarkNotificationAsRead'', ''MarkAllNotificationsAsRead'', ''AIRemediate'']"

lemma changes_guarded: "list_all (\<lambda>r. rt_Method r = ''GET'' \<or> rt_Handler r \<in> set own_requests \<or> rt_Roles r = Some [''admin''] \<or>
    rt_Owns r \<noteq> None \<and> guard_placed r) session_routes"
  by code_simp

text \<open>A user who is not an administrator gets a change through the guards only with a request about the
  user's own things or on a resource the user's team owns: the one the first brace of the path names.\<close>

theorem viewer_changes_owned:
  assumes "r \<in> set session_routes" "rt_Method r \<noteq> ''GET''" "rt_Handler r \<notin> set own_requests" "path_values r path = Some vs"
    and "route_gate jw secret env users db r req path = Some (Next, Some c)" "cm_Role c \<noteq> ''admin''"
  shows "\<exists>resource. rt_Owns r = Some resource \<and> owned_by db resource (cm_UserID c) (hd vs)"
proof -
  have gate: "session_gate jw secret env users (rt_Roles r) req = Some (Next, Some c)"
    "case rt_Owns r of None \<Rightarrow> True | Some resource \<Rightarrow> RequireOwnership db resource (Some c) path = Next"
    using gate_session [OF assms(5)] by auto
  have "rt_Roles r \<noteq> Some [''admin'']" using session_role gate(1) assms(6) by fastforce
  then obtain resource where own: "rt_Owns r = Some resource" "guard_placed r"
    using changes_guarded assms(1-3) by (auto simp: list_all_iff)
  then have "extractResourceID path resource = hd vs"
    using names_first_loop assms(4) unfolding guard_placed_def path_values_def extractResourceID_def by auto
  moreover have "RequireOwnership db resource (Some c) path = Next" using gate(2) own(1) by simp
  ultimately show ?thesis using own(1) ownership_next [OF _ assms(6)] by metis
qed

section \<open>Handlers behind the wrong guard\<close>

text \<open>The documentation gives viewers read access only, but the ownership guard is also in front of changes.

  C0: A viewer of the team of an application gets its deletion through the guards.\<close>

theorem viewer_deletes_app:
  assumes "session_gate jw secret env users None req = Some (Next, Some c)" "cm_Role c = ''viewer''"
    and "owned_by db ''app'' (cm_UserID c) i" "CHR ''/'' \<notin> set i" "i \<noteq> []"
  shows "\<exists>r \<in> set session_routes. rt_Method r = ''DELETE'' \<and> rt_Handler r = ''DeleteApp'' \<and>
    route_gate jw secret env users db r req (''/api/apps/'' @ i) = Some (Next, Some c)"
proof -
  let ?r = "owned ''app'' (route ''DELETE'' ''/api/apps/{id}'' ''DeleteApp'')"
  have r: "?r \<in> set session_routes" by (simp add: session_routes_def platform_routes_def)
  have "extractResourceID (''/api/apps/'' @ i) ''app'' = i"
    using extract_route [of "''app''" i "[]"] assms(4) by simp
  then have "RequireOwnership db ''app'' (Some c) (''/api/apps/'' @ i) = Next" using assms(3,5) by (simp add: ownership_gate)
  then have "route_gate jw secret env users db ?r req (''/api/apps/'' @ i) = Some (Next, Some c)"
    using assms(1) by (simp add: route_gate_def owned_def route_def)
  then show ?thesis using r by (intro bexI [of _ ?r]) (simp_all add: owned_def route_def)
qed

lemma remediation_route: "list_all (\<lambda>r. rt_Handler r = ''AIRemediate'' \<longrightarrow> rt_Roles r = None \<and> rt_Owns r = None) session_routes"
  by code_simp

text \<open>A remediation is for every user with a session, whatever the team: the guards let it through, and the
  answer of a finding of another team has its title.\<close>

theorem remediation_of_any_finding:
  assumes "r \<in> set session_routes" "rt_Handler r = ''AIRemediate''" "session_gate jw secret uenv users None req = Some (Next, Some c)"
    and "ke_fail env = (\<lambda>_. None)" "sg_limit (ke_agents env) < 0" "i \<noteq> []"
    and "GetByID i (ag_findings (kb_agents db)) = Some f" "fd_Title f \<noteq> []" "kb_articles db = []"
    and "\<forall>src. \<exists>content. GenerateRemediation (sg_ai (ke_agents env)) remediationSystemPrompt (buildPrompt src) = Inr content"
  shows "route_gate jw secret uenv users tenants r req path = Some (Next, Some c) \<and>
    (\<exists>a. fst (AIRemediate env (Some i) db) = Inr (a, False) \<and> ka_Title a = fd_Title f)"
proof -
  have "rt_Roles r = None" "rt_Owns r = None" using remediation_route assms(1,2) by (auto simp: list_all_iff)
  then have gate: "route_gate jw secret uenv users tenants r req path = Some (Next, Some c)" using assms(3) by (simp add: route_gate_def)
  obtain src where src: "GetForRemediation env i db = Inr src" "km_Title src = fd_Title f"
    using GetForRemediation_ok [OF assms(4,7)] by blast
  obtain content where content: "GenerateRemediation (sg_ai (ke_agents env)) remediationSystemPrompt (buildPrompt src) = Inr content"
    using assms(10) by blast
  define d where "d = BuildGeneratedArticle (sg_sha256_hex (ke_agents env)) src content"
  have title: "kg_Title d = fd_Title f" using src(2) assms(8) by (simp add: d_def BuildGeneratedArticle_def Let_def)
  have none: "find (\<lambda>a. km_RuleID src \<in> set (ka_RuleIDs a)) (kb_articles db) = None" "kb_by_slug (kg_Slug d) (kb_articles db) = None"
    using assms(9) by (simp_all add: kb_by_slug_def)
  have "fst (AIRemediate env (Some i) db) = Inr (article_of_draft (ke_id env (kb_articles db)) (ke_now env) d, False)"
    unfolding AIRemediate_unlimited [OF assms(5,6) src(1)] remediate_new(1) [OF assms(4) none(1) content d_def none(2)] Let_def by simp
  then show ?thesis using gate title by (simp add: article_of_draft_def)
qed

text \<open>\<^verbatim>\<open>URLParam\<close> of a name the pattern does not have is the empty string.\<close>

definition url_params_ok :: "(api_route \<Rightarrow> string \<Rightarrow> string \<Rightarrow> string) \<Rightarrow> bool" where
  "url_params_ok url_param \<longleftrightarrow>
     (\<forall>r path k. ''{'' @ k @ ''}'' \<notin> set (split_on (CHR ''/'') (rt_Pattern r)) \<longrightarrow> url_param r path k = [])"

lemma comment_routes: "list_all (\<lambda>r. rt_Handler r = ''GetFindingComments'' \<or> rt_Handler r = ''CreateFindingComment'' \<longrightarrow>
    ''{findingID}'' \<notin> set (split_on (CHR ''/'') (rt_Pattern r))) session_routes"
  by code_simp

text \<open>The routes of the comments call the finding \<^verbatim>\<open>id\<close> while the handlers ask for \<^verbatim>\<open>findingID\<close>: over HTTP no
  comment is ever listed or stored, whatever the path and the user.\<close>

theorem comments_unreachable:
  assumes "url_params_ok url_param" "r \<in> set session_routes" "rt_Handler r \<in> {''GetFindingComments'', ''CreateFindingComment''}"
    and "\<not> co_uuid_ok env []"
  shows "GetFindingComments env (url_param r path) st = Inl (500, ''failed to get comments'') \<and>
    cb_comments (snd (CreateFindingComment env who (url_param r path) body st)) = cb_comments st"
proof -
  have "''{findingID}'' \<notin> set (split_on (CHR ''/'') (rt_Pattern r))" using comment_routes assms(2,3) by (auto simp: list_all_iff)
  then have p: "url_param r path ''findingID'' = []"
    using assms(1) unfolding url_params_ok_def by (metis append_Cons append_Nil)
  have row: "\<exists>e. CreateFindingComment_row env [] u content st = (Inl e, st)" for u content
    using assms(4) by (auto simp: CreateFindingComment_row_def split: option.splits)
  have create: "cb_comments (snd (CreateFindingComment env who (url_param r path) body st)) = cb_comments st"
  proof (cases who)
    case (Some c)
    show ?thesis
    proof (cases body)
      case (Some content)
      obtain e where "CreateFindingComment_row env [] (cm_UserID c) content st = (Inl e, st)" using row by blast
      then show ?thesis using Some \<open>who = Some c\<close> by (simp add: CreateFindingComment_def p)
    qed (simp add: CreateFindingComment_def Some)
  qed (simp add: CreateFindingComment_def)
  have "GetFindingComments env (url_param r path) st = Inl (500, ''failed to get comments'')"
    using assms(4) by (auto simp: GetFindingComments_def GetFindingComments_rows_def p split: option.splits)
  then show ?thesis using create by blast
qed

section \<open>Instances\<close>

definition viewer_jwt :: jwt_lib where
  "viewer_jwt = sample_jwt\<lparr>jw_parse := (\<lambda>key now t. Inr [(''sub'', ClaimString ''ann''), (''role'', ClaimString ''viewer''),
     (''user_id'', ClaimString ''u1''), (''tok_ver'', ClaimNumber 1)])\<rparr>"

definition delete_route :: api_route where
  "delete_route = owned ''app'' (route ''DELETE'' ''/api/apps/{id}'' ''DeleteApp'')"

definition viewer_row :: user_row where
  "viewer_row = sample_user\<lparr>us_TokenVersion := 1\<rparr>"

lemma viewer_session: "session_gate viewer_jwt ''k'' sample_user_env [viewer_row] None sample_bearer = Some (Next, Some sample_viewer)"
  by code_simp

lemma viewer_owns: "owned_by sample_tenant ''app'' ''u1'' ''a1''"
  by code_simp

lemma delete_route_sels: "rt_Method delete_route = ''DELETE''" "rt_Handler delete_route = ''DeleteApp''" "rt_Owns delete_route = Some ''app''"
  "rt_Roles delete_route = None" "delete_route \<in> set session_routes"
  by (simp_all add: delete_route_def owned_def route_def session_routes_def platform_routes_def)

lemma delete_route_path: "path_values delete_route ''/api/apps/a1'' = Some [''a1'']"
  by code_simp

lemma viewer_sels: "cm_Role sample_viewer = ''viewer''" "cm_UserID sample_viewer = ''u1''"
  by (simp_all add: sample_viewer_def)

lemma every_guard_checks_its_resource_witness: "RequireOwnership sample_tenant ''app'' (Some sample_viewer) ''/api/apps/a1'' = Next"
  using every_guard_checks_its_resource [OF delete_route_sels(5,3) _ delete_route_path, of sample_tenant sample_viewer] viewer_owns
  by (simp add: delete_route_sels viewer_sels)

lemma viewer_changes_owned_witness: "\<exists>resource. rt_Owns delete_route = Some resource \<and> owned_by sample_tenant resource ''u1'' ''a1''"
proof -
  have g: "route_gate viewer_jwt ''k'' sample_user_env [viewer_row] sample_tenant delete_route sample_bearer ''/api/apps/a1'' =
      Some (Next, Some sample_viewer)"
    by code_simp
  then show ?thesis
    using viewer_changes_owned [OF delete_route_sels(5) _ _ delete_route_path g] by (simp add: delete_route_sels viewer_sels own_requests_def)
qed

lemma viewer_deletes_app_witness:
  "\<exists>r \<in> set session_routes. rt_Method r = ''DELETE'' \<and> rt_Handler r = ''DeleteApp'' \<and>
    route_gate viewer_jwt ''k'' sample_user_env [viewer_row] sample_tenant r sample_bearer ''/api/apps/a1'' = Some (Next, Some sample_viewer)"
  using viewer_deletes_app [OF viewer_session, of sample_tenant "''a1''"] viewer_owns by (simp add: viewer_sels)

lemma remediation_of_any_finding_witness:
  "\<exists>a. fst (AIRemediate sample_articles (Some ''f1'') sample_knowledge) = Inr (a, False) \<and> ka_Title a = ''Open bucket''"
proof -
  let ?r = "route ''POST'' ''/api/knowledge/ai-remediate'' ''AIRemediate''"
  have r: "?r \<in> set session_routes" "rt_Handler ?r = ''AIRemediate''" by (simp_all add: session_routes_def platform_routes_def settings_routes_def route_def)
  show ?thesis
    using remediation_of_any_finding [OF r viewer_session, of sample_articles "''f1''" sample_knowledge "sample_bare ''f1'' []"]
    by (simp add: sample_articles_env sample_generation sample_knowledge_found sample_bare_columns)
qed

lemma comments_unreachable_witness:
  "GetFindingComments sample_collab (\<lambda>k. if k = ''id'' then ''f1'' else []) sample_collab_state = Inl (500, ''failed to get comments'')"
proof -
  let ?p = "\<lambda>r path k. if ''{'' @ k @ ''}'' \<in> set (split_on (CHR ''/'') (rt_Pattern r)) then ''f1'' else []"
  let ?r = "owned ''finding'' (route ''GET'' ''/api/findings/{id}/comments'' ''GetFindingComments'')"
  have r: "?r \<in> set session_routes" "rt_Handler ?r = ''GetFindingComments''"
    by (simp_all add: session_routes_def platform_routes_def route_def owned_def)
  have p: "?p ?r path = (\<lambda>k. if k = ''id'' then ''f1'' else [])" for path
    by (auto simp: route_def owned_def fun_eq_iff)
  have "url_params_ok ?p" by (simp add: url_params_ok_def)
  then show ?thesis
    using comments_unreachable [of ?p ?r sample_collab "[]" sample_collab_state] r p by (simp add: sample_collab_def)
qed

end
