(* ===== verification/Settings_Jira.thy ===== *)
theory Settings_Jira
  imports Finding_View
begin

text \<open>
  The settings of the organisation and the tickets made of findings
  (\<^verbatim>\<open>src/internal/repository/settings.go\<close>, \<^verbatim>\<open>handlers/settings.go\<close>, \<^verbatim>\<open>jira/client.go\<close>): the one row of
  notification settings, the one row of the Jira integration with its encrypted token, and the links
  from findings to tickets.  Creating a ticket reserves the link first, then calls Jira, then stores
  the answer; the three parts are definitions of their own because other requests may run between
  them.  The parsing of an address, the answers of Jira and their decoding are parameters.
\<close>

section \<open>State and environment\<close>

record settings_row =
  no_AlertCritical :: bool
  no_AlertHigh :: bool
  no_AlertScanComplete :: bool
  no_AlertScanFailed :: bool
  no_AlertSLABreach :: bool
  no_EmailRecipients :: "string list"
  no_DigestFrequency :: string
  no_DigestTime :: string
  no_ReportSchedule :: string
  no_ReportTime :: string
  no_ReportChannel :: string
  no_UpdatedAt :: int

record settings_update =
  nu_AlertCritical :: "bool option"
  nu_AlertHigh :: "bool option"
  nu_AlertScanComplete :: "bool option"
  nu_AlertScanFailed :: "bool option"
  nu_AlertSLABreach :: "bool option"
  nu_EmailRecipients :: "string list option"
  nu_DigestFrequency :: "string option"
  nu_DigestTime :: "string option"
  nu_ReportSchedule :: "string option"
  nu_ReportTime :: "string option"
  nu_ReportChannel :: "string option"

text \<open>A row of \<^verbatim>\<open>jira_integrations\<close>, with the token as it is stored; the credentials have it decrypted.\<close>

record jira_row =
  ji_BaseURL :: string
  ji_UserEmail :: string
  ji_ProjectKey :: string
  ji_IssueType :: string
  ji_Labels :: "string list"
  ji_Enabled :: bool
  ji_Token :: string
  ji_UpdatedAt :: int

record jira_update =
  ju_BaseURL :: "string option"
  ju_UserEmail :: "string option"
  ju_ProjectKey :: "string option"
  ju_IssueType :: "string option"
  ju_Labels :: "string list option"
  ju_Enabled :: "bool option"
  ju_Token :: "string option"

record jira_view =
  jv_row :: jira_row
  jv_HasToken :: bool
  jv_TokenMasked :: string

record issue_request =
  iq_ProjectKey :: string
  iq_IssueType :: string
  iq_Summary :: string
  iq_Description :: string
  iq_Labels :: "string list"

record jira_client =
  jk_baseURL :: string
  jk_userEmail :: string
  jk_apiToken :: string

text \<open>\<open>xd_tickets\<close> are the tickets Jira has confirmed: the finding and the key.\<close>

record settings_db =
  xd_settings :: "settings_row option"
  xd_jira :: "jira_row option"
  xd_views :: view_state
  xd_tickets :: "(string \<times> string) list"

abbreviation "xd_links db \<equiv> vb_links (xd_views db)"

record jira_url =
  ul_Scheme :: string
  ul_Hostname :: string
  ul_Host :: string
  ul_Path :: string
  ul_HasUser :: bool

text \<open>\<open>xe_with\<close> renders an address with another path and the query \<^verbatim>\<open>id\<close>; \<open>xe_send\<close> posts a request with
  its authorization and returns the status code, the status text and the body.\<close>

record settings_env =
  xe_view :: view_env
  xe_crypto :: crypto
  xe_key :: string
  xe_nonce :: string
  xe_link_id :: "jira_link list \<Rightarrow> string"
  xe_url :: "string \<Rightarrow> jira_url option"
  xe_with :: "string \<Rightarrow> string \<Rightarrow> string \<Rightarrow> string"
  xe_frontend :: string
  xe_send :: "string \<Rightarrow> string \<Rightarrow> issue_request \<Rightarrow> string + nat \<times> string \<times> string"
  xe_decode :: "string \<Rightarrow> string + string"

abbreviation "xe_fail env \<equiv> vn_fail (xe_view env)"
abbreviation "xe_now env \<equiv> vn_now (xe_view env)"

section \<open>Notification settings\<close>

definition compactStrings :: "string list \<Rightarrow> string list" where
  "compactStrings values = filter (\<lambda>v. v \<noteq> []) (map trim_space values)"

definition default_settings :: "int \<Rightarrow> settings_row" where
  "default_settings now = \<lparr>no_AlertCritical = True, no_AlertHigh = True, no_AlertScanComplete = False, no_AlertScanFailed = False,
     no_AlertSLABreach = False, no_EmailRecipients = [], no_DigestFrequency = ''weekly'', no_DigestTime = ''09:00'',
     no_ReportSchedule = ''disabled'', no_ReportTime = ''09:00'', no_ReportChannel = ''email'', no_UpdatedAt = now\<rparr>"

definition initDefaultNotificationSettings :: "settings_env \<Rightarrow> settings_db \<Rightarrow> (string + settings_row) \<times> settings_db" where
  "initDefaultNotificationSettings env db =
     (case xe_fail env ''settings.Init'' of
        Some e \<Rightarrow> (Inl (''init notification settings: '' @ e), db)
      | None \<Rightarrow> (Inr (default_settings (xe_now env)), db\<lparr>xd_settings := Some (default_settings (xe_now env))\<rparr>))"

definition GetNotificationSettings :: "settings_env \<Rightarrow> settings_db \<Rightarrow> (string + settings_row) \<times> settings_db" where
  "GetNotificationSettings env db =
     (case xe_fail env ''settings.Get'' of
        Some e \<Rightarrow> (Inl (''get notification settings: '' @ e), db)
      | None \<Rightarrow> (case xd_settings db of
          None \<Rightarrow> initDefaultNotificationSettings env db
        | Some s \<Rightarrow> (Inr s, db)))"

definition merge_settings :: "settings_update \<Rightarrow> settings_row \<Rightarrow> settings_row" where
  "merge_settings u s = s\<lparr>
     no_AlertCritical := coalesce_col (nu_AlertCritical u) (no_AlertCritical s),
     no_AlertHigh := coalesce_col (nu_AlertHigh u) (no_AlertHigh s),
     no_AlertScanComplete := coalesce_col (nu_AlertScanComplete u) (no_AlertScanComplete s),
     no_AlertScanFailed := coalesce_col (nu_AlertScanFailed u) (no_AlertScanFailed s),
     no_AlertSLABreach := coalesce_col (nu_AlertSLABreach u) (no_AlertSLABreach s),
     no_EmailRecipients := coalesce_col (map_option compactStrings (nu_EmailRecipients u)) (no_EmailRecipients s),
     no_DigestFrequency := coalesce_col (nu_DigestFrequency u) (no_DigestFrequency s),
     no_DigestTime := coalesce_col (nu_DigestTime u) (no_DigestTime s),
     no_ReportSchedule := coalesce_col (nu_ReportSchedule u) (no_ReportSchedule s),
     no_ReportTime := coalesce_col (nu_ReportTime u) (no_ReportTime s),
     no_ReportChannel := coalesce_col (nu_ReportChannel u) (no_ReportChannel s)\<rparr>"

definition UpdateNotificationSettings_row ::
  "settings_env \<Rightarrow> settings_update \<Rightarrow> settings_db \<Rightarrow> (string + settings_row) \<times> settings_db" where
  "UpdateNotificationSettings_row env u db =
     (case GetNotificationSettings env db of
        (Inl e, db1) \<Rightarrow> (Inl e, db1)
      | (Inr current, db1) \<Rightarrow> (case xe_fail env ''settings.Update'' of
          Some e \<Rightarrow> (Inl (''update notification settings: '' @ e), db1)
        | None \<Rightarrow> (let s = (merge_settings u current)\<lparr>no_UpdatedAt := xe_now env\<rparr> in (Inr s, db1\<lparr>xd_settings := Some s\<rparr>))))"

definition GetNotificationSettings_handler :: "settings_env \<Rightarrow> settings_db \<Rightarrow> settings_row reply \<times> settings_db" where
  "GetNotificationSettings_handler env db =
     (case GetNotificationSettings env db of
        (Inl e, db1) \<Rightarrow> (Inl (500, ''failed to load notification settings''), db1) | (Inr s, db1) \<Rightarrow> (Inr s, db1))"

definition UpdateNotificationSettings ::
  "settings_env \<Rightarrow> settings_update option \<Rightarrow> settings_db \<Rightarrow> settings_row reply \<times> settings_db" where
  "UpdateNotificationSettings env body db =
     (case body of
        None \<Rightarrow> (Inl (400, ''invalid body''), db)
      | Some u \<Rightarrow> (case UpdateNotificationSettings_row env u db of
          (Inl e, db1) \<Rightarrow> (Inl (500, ''failed to update notification settings''), db1) | (Inr s, db1) \<Rightarrow> (Inr s, db1)))"

definition set_queue :: "queued list \<Rightarrow> settings_db \<Rightarrow> settings_db" where
  "set_queue q db = db\<lparr>xd_views := set_access ((vb_access (xd_views db))\<lparr>xs_intake :=
     (xs_intake (vb_access (xd_views db)))\<lparr>it_queue := q\<rparr>\<rparr>) (xd_views db)\<rparr>"

definition TestNotificationEmail :: "settings_env \<Rightarrow> settings_db \<Rightarrow> string reply \<times> settings_db" where
  "TestNotificationEmail env db =
     (case GetNotificationSettings env db of
        (Inl e, db1) \<Rightarrow> (Inl (500, ''failed to load notification settings''), db1)
      | (Inr s, db1) \<Rightarrow>
        if no_EmailRecipients s = [] then (Inl (400, ''configure email recipients first''), db1)
        else (let t = \<lparr>q_task = EmailSend ''HenKaiPan email test''
                ''This is a test email from HenKaiPan. If you received this, Mailpit/Brevo is working.'' (no_EmailRecipients s),
                q_retry = 5, q_timeout = 30\<rparr> in
          if ax_accept (co_access (vn_collab (xe_view env))) t
          then (Inr ''queued'', set_queue (it_queue (xs_intake (vb_access (xd_views db1))) @ [t]) db1)
          else (Inl (500, ''failed to enqueue test email''), db1)))"

section \<open>The Jira integration\<close>

definition mask_bullet :: string where
  "mask_bullet = [CHR 0xE2, CHR 0x80, CHR 0xA2]"

definition maskSecret :: "string \<Rightarrow> string" where
  "maskSecret secret =
     (let secret = trim_space secret in
      if secret = [] then []
      else if length secret \<le> 4 then concat (replicate (length secret) mask_bullet)
      else concat (replicate (length secret - 4) mask_bullet) @ drop (length secret - 4) secret)"

definition jira_current :: "settings_env \<Rightarrow> string \<Rightarrow> settings_db \<Rightarrow> string + jira_row" where
  "jira_current env what db =
     (case xe_fail env ''settings.GetJira'' of
        Some e \<Rightarrow> Inl (what @ '': '' @ e)
      | None \<Rightarrow> (case xd_jira db of None \<Rightarrow> Inl (what @ '': no rows in result set'') | Some j \<Rightarrow> Inr j))"

definition GetJiraIntegration_row :: "settings_env \<Rightarrow> settings_db \<Rightarrow> string + jira_view" where
  "GetJiraIntegration_row env db =
     (case jira_current env ''get jira integration'' db of
        Inl e \<Rightarrow> Inl e
      | Inr j \<Rightarrow> (case Decrypt (xe_crypto env) (xe_key env) (ji_Token j) of
          Inl e \<Rightarrow> Inl (''decrypt jira token: '' @ e)
        | Inr t \<Rightarrow> Inr \<lparr>jv_row = j\<lparr>ji_Token := []\<rparr>, jv_HasToken = (trim_space t \<noteq> []), jv_TokenMasked = maskSecret t\<rparr>))"

definition GetJiraCredentials :: "settings_env \<Rightarrow> settings_db \<Rightarrow> string + jira_row" where
  "GetJiraCredentials env db =
     (case jira_current env ''get jira credentials'' db of
        Inl e \<Rightarrow> Inl e
      | Inr j \<Rightarrow> (case Decrypt (xe_crypto env) (xe_key env) (ji_Token j) of
          Inl e \<Rightarrow> Inl (''decrypt jira credentials: '' @ e) | Inr t \<Rightarrow> Inr (j\<lparr>ji_Token := t\<rparr>)))"

definition merge_jira :: "jira_update \<Rightarrow> jira_row \<Rightarrow> jira_row" where
  "merge_jira u j = j\<lparr>
     ji_BaseURL := coalesce_col (map_option trim_space (ju_BaseURL u)) (ji_BaseURL j),
     ji_UserEmail := coalesce_col (map_option trim_space (ju_UserEmail u)) (ji_UserEmail j),
     ji_ProjectKey := coalesce_col (map_option trim_space (ju_ProjectKey u)) (ji_ProjectKey j),
     ji_IssueType := coalesce_col (map_option trim_space (ju_IssueType u)) (ji_IssueType j),
     ji_Labels := coalesce_col (map_option compactStrings (ju_Labels u)) (ji_Labels j),
     ji_Enabled := coalesce_col (ju_Enabled u) (ji_Enabled j),
     ji_Token := coalesce_col (map_option trim_space (ju_Token u)) (ji_Token j)\<rparr>"

definition UpsertJiraIntegration :: "settings_env \<Rightarrow> jira_update \<Rightarrow> settings_db \<Rightarrow> (string + jira_view) \<times> settings_db" where
  "UpsertJiraIntegration env u db =
     (case GetJiraCredentials env db of
        Inl e \<Rightarrow> (Inl e, db)
      | Inr current \<Rightarrow>
        (let c = merge_jira u current in
         case Encrypt (xe_crypto env) (xe_key env) (xe_nonce env) (ji_Token c) of
           Inl e \<Rightarrow> (Inl (''encrypt jira token: '' @ e), db)
         | Inr enc \<Rightarrow> (case xe_fail env ''settings.UpdateJira'' of
             Some e \<Rightarrow> (Inl (''update jira integration: '' @ e), db)
           | None \<Rightarrow> (let db1 = db\<lparr>xd_jira := Some (c\<lparr>ji_Token := enc, ji_UpdatedAt := xe_now env\<rparr>)\<rparr>
               in (GetJiraIntegration_row env db1, db1)))))"

definition validateJiraCloudBaseURL :: "settings_env \<Rightarrow> string \<Rightarrow> string + string" where
  "validateJiraCloudBaseURL env raw =
     (case xe_url env raw of
        None \<Rightarrow> Inl ''invalid jira base url''
      | Some p \<Rightarrow>
        if ul_Scheme p \<noteq> ''https'' then Inl ''jira base url must use https''
        else (let host = to_lower (ul_Hostname p) in
          if host = [] \<or> \<not> has_suffix host ''.atlassian.net'' then Inl ''jira base url must be a Jira Cloud *.atlassian.net URL''
          else if ul_Path p \<noteq> [] \<and> ul_Path p \<noteq> ''/'' then Inl ''jira base url must not include a path''
          else Inr (''https://'' @ host)))"

definition GetJiraIntegration :: "settings_env \<Rightarrow> settings_db \<Rightarrow> jira_view reply" where
  "GetJiraIntegration env db =
     (case GetJiraIntegration_row env db of Inl e \<Rightarrow> Inl (500, ''failed to load jira integration'') | Inr v \<Rightarrow> Inr v)"

definition checked_base :: "settings_env \<Rightarrow> string option \<Rightarrow> string + string option" where
  "checked_base env base =
     (case base of
        None \<Rightarrow> Inr None
      | Some b \<Rightarrow> (let b = trim_space b in
          if b = [] then Inr (Some [])
          else (case validateJiraCloudBaseURL env b of Inl e \<Rightarrow> Inl e | Inr n \<Rightarrow> Inr (Some n))))"

definition UpdateJiraIntegration :: "settings_env \<Rightarrow> jira_update option \<Rightarrow> settings_db \<Rightarrow> jira_view reply \<times> settings_db" where
  "UpdateJiraIntegration env body db =
     (case body of
        None \<Rightarrow> (Inl (400, ''invalid body''), db)
      | Some u \<Rightarrow>
        (case checked_base env (ju_BaseURL u) of
           Inl e \<Rightarrow> (Inl (400, e), db)
         | Inr base \<Rightarrow>
           (let u = u\<lparr>ju_BaseURL := base, ju_UserEmail := map_option trim_space (ju_UserEmail u),
                ju_ProjectKey := map_option trim_space (ju_ProjectKey u), ju_IssueType := map_option trim_space (ju_IssueType u)\<rparr> in
            if ju_Enabled u = Some True \<and> base = Some [] then (Inl (400, ''jira base url required when enabling integration''), db)
            else (case UpsertJiraIntegration env u db of
                (Inl e, db1) \<Rightarrow> (Inl (500, ''failed to update jira integration''), db1)
              | (Inr v, db1) \<Rightarrow> (Inr v, db1)))))"

section \<open>The Jira client\<close>

definition jira_NewClient :: "string \<Rightarrow> string \<Rightarrow> string \<Rightarrow> jira_client" where
  "jira_NewClient baseURL userEmail apiToken = \<lparr>jk_baseURL = trim_right_cutset ''/'' baseURL, jk_userEmail = trim_space userEmail,
     jk_apiToken = trim_space apiToken\<rparr>"

definition issue_url :: "jira_client \<Rightarrow> string" where
  "issue_url c = jk_baseURL c @ ''/rest/api/3/issue''"

definition CreateIssue :: "settings_env \<Rightarrow> jira_client \<Rightarrow> issue_request \<Rightarrow> string + string" where
  "CreateIssue env c req =
     (case xe_send env (issue_url c) (''Basic '' @ kc_b64 (xe_crypto env) (jk_userEmail c @ '':'' @ jk_apiToken c)) req of
        Inl e \<Rightarrow> Inl (''send jira issue request: '' @ e)
      | Inr (code, status, body) \<Rightarrow>
        if code < 200 \<or> 300 \<le> code
        then (let trimmed = trim_space body in Inl (''jira create issue failed: '' @ (if trimmed = [] then status else trimmed)))
        else (case xe_decode env body of Inl e \<Rightarrow> Inl (''decode jira issue response: '' @ e) | Inr key \<Rightarrow> Inr key))"

section \<open>Tickets of findings\<close>

definition buildHenKaiPanFindingURL :: "settings_env \<Rightarrow> string \<Rightarrow> string \<Rightarrow> string" where
  "buildHenKaiPanFindingURL env frontend findingID =
     (let frontend = trim_space frontend in
      if frontend = [] \<or> trim_space findingID = [] then []
      else (case xe_url env frontend of
          None \<Rightarrow> []
        | Some p \<Rightarrow>
          if ul_Scheme p = [] \<or> ul_Host p = [] then []
          else if ul_Scheme p \<noteq> ''http'' \<and> ul_Scheme p \<noteq> ''https'' then []
          else if ul_HasUser p then []
          else xe_with env frontend (trim_right_cutset ''/'' (ul_Path p) @ ''/dashboard/findings/detail'') findingID))"

definition given_text :: "string option \<Rightarrow> bool" where
  "given_text s \<longleftrightarrow> (case s of None \<Rightarrow> False | Some v \<Rightarrow> trim_space v \<noteq> [])"

definition bool_text :: "bool \<Rightarrow> string" where
  "bool_text b = (if b then ''true'' else ''false'')"

definition finding_location :: "finding \<Rightarrow> string" where
  "finding_location f =
     (if fd_LineStart f > 0
      then fd_FilePath f @ '':'' @ itoa (fd_LineStart f) @ (if fd_LineEnd f > fd_LineStart f then ''-'' @ itoa (fd_LineEnd f) else [])
      else fd_FilePath f)"

definition buildJiraFindingDescription :: "settings_env \<Rightarrow> finding \<Rightarrow> string \<Rightarrow> string" where
  "buildJiraFindingDescription env f url =
     join [newline] ([''HenKaiPan finding details'',
       if url \<noteq> [] then url else ''Finding URL unavailable. Configure FRONTEND_BASE_URL to enable backlinks.'',
       [], ''Overview'', ''Finding ID: '' @ fd_ID f, ''Scan ID: '' @ fd_ScanID f, ''Severity: '' @ fd_Severity f,
       ''Scanner: '' @ fd_Scanner f, ''Rule ID: '' @ fd_RuleID f, ''Status: '' @ fd_Status f,
       ''Created at: '' @ vn_format (xe_view env) (fd_CreatedAt f)] @
       (if given_text (fd_AssignedTo f) then [''Assigned to: '' @ trim_space (derefStr (fd_AssignedTo f))] else []) @
       [''False positive: '' @ bool_text (fd_FalsePositive f), ''Suppressed: '' @ bool_text (fd_Suppressed f)] @
       (case fd_SLADeadline f of None \<Rightarrow> [] | Some d \<Rightarrow> [''SLA deadline: '' @ vn_format (xe_view env) d]) @
       (if fd_FilePath f \<noteq> [] then [[], ''Location'', finding_location f] else []) @
       (if given_text (fd_CVEID f) then [''CVE: '' @ derefStr (fd_CVEID f)] else []) @
       (if given_text (fd_CWEID f) then [''CWE: '' @ derefStr (fd_CWEID f)] else []) @
       [[], ''Title: '' @ fd_Title f])"

definition set_links :: "jira_link list \<Rightarrow> settings_db \<Rightarrow> settings_db" where
  "set_links ls db = db\<lparr>xd_views := (xd_views db)\<lparr>vb_links := ls\<rparr>\<rparr>"

definition link_allowed :: "settings_env \<Rightarrow> string \<Rightarrow> settings_db \<Rightarrow> bool" where
  "link_allowed env findingID db \<longleftrightarrow> co_uuid_ok (vn_collab (xe_view env)) findingID \<and> GetByID findingID (vb_findings (xd_views db)) \<noteq> None"

definition new_link :: "settings_env \<Rightarrow> string \<Rightarrow> string option \<Rightarrow> string option \<Rightarrow> string \<Rightarrow> settings_db \<Rightarrow> jira_link" where
  "new_link env findingID key url status db = \<lparr>jl_ID = xe_link_id env (xd_links db), jl_FindingID = findingID, jl_IssueKey = key,
     jl_IssueURL = url, jl_Status = Some status, jl_CreatedAt = xe_now env\<rparr>"

text \<open>The link, and whether this request has inserted it.\<close>

definition ReserveJiraIssueLink :: "settings_env \<Rightarrow> string \<Rightarrow> settings_db \<Rightarrow> (string + jira_link \<times> bool) \<times> settings_db" where
  "ReserveJiraIssueLink env findingID db =
     (case xe_fail env ''settings.Reserve'' of
        Some e \<Rightarrow> (Inl (''reserve jira issue link: '' @ e), db)
      | None \<Rightarrow>
        if row_by jl_FindingID findingID (xd_links db) \<noteq> None
        then (case GetJiraIssueLinkByFindingID (xe_view env) findingID (xd_views db) of
            Inl e \<Rightarrow> (Inl e, db) | Inr l \<Rightarrow> (Inr (l, False), db))
        else if \<not> link_allowed env findingID db then (Inl ''reserve jira issue link: violates constraint'', db)
        else (let l = new_link env findingID None None ''pending'' db in (Inr (l, True), set_links (xd_links db @ [l]) db)))"

definition UpsertJiraIssueLink ::
  "settings_env \<Rightarrow> string \<Rightarrow> string \<Rightarrow> string \<Rightarrow> string \<Rightarrow> settings_db \<Rightarrow> (string + jira_link) \<times> settings_db" where
  "UpsertJiraIssueLink env findingID key url status db =
     (case xe_fail env ''settings.UpsertLink'' of
        Some e \<Rightarrow> (Inl (''upsert jira issue link: '' @ e), db)
      | None \<Rightarrow>
        (let set = (\<lambda>l. l\<lparr>jl_IssueKey := Some key, jl_IssueURL := Some url, jl_Status := Some status\<rparr>) in
         case row_by jl_FindingID findingID (xd_links db) of
           Some l \<Rightarrow> (Inr (set l), set_links (update_where (\<lambda>l. jl_FindingID l = findingID) set (xd_links db)) db)
         | None \<Rightarrow>
           if \<not> link_allowed env findingID db then (Inl ''upsert jira issue link: violates constraint'', db)
           else (let l = new_link env findingID (Some key) (Some url) status db in (Inr l, set_links (xd_links db @ [l]) db))))"

definition DeleteJiraIssueLink :: "settings_env \<Rightarrow> string \<Rightarrow> settings_db \<Rightarrow> string option \<times> settings_db" where
  "DeleteJiraIssueLink env findingID db =
     (case xe_fail env ''settings.DeleteLink'' of
        Some e \<Rightarrow> (Some (''delete jira issue link: '' @ e), db)
      | None \<Rightarrow> (None, set_links (filter (\<lambda>l. jl_FindingID l \<noteq> findingID) (xd_links db)) db))"

definition jira_complete :: "jira_row \<Rightarrow> bool" where
  "jira_complete c \<longleftrightarrow> trim_space (ji_BaseURL c) \<noteq> [] \<and> trim_space (ji_UserEmail c) \<noteq> [] \<and> trim_space (ji_Token c) \<noteq> [] \<and>
     trim_space (ji_ProjectKey c) \<noteq> [] \<and> trim_space (ji_IssueType c) \<noteq> []"

text \<open>From the reservation to the call: the client, what it sends, the base address and the identifier.\<close>

definition jira_ready :: "settings_env \<Rightarrow> string \<Rightarrow> settings_db \<Rightarrow> (jira_client \<times> issue_request \<times> string) reply" where
  "jira_ready env findingID db =
     (case Finding_GetByID (xe_view env) ''findings.GetByID'' findingID (xd_views db) of
        Inl e \<Rightarrow> Inl (404, ''finding not found'')
      | Inr v \<Rightarrow>
        (let f = fw_row (normalizeFindingForDisplay v) in
         case GetJiraCredentials env db of
           Inl e \<Rightarrow> Inl (500, ''failed to load jira integration'')
         | Inr c \<Rightarrow>
           if \<not> ji_Enabled c then Inl (400, ''jira integration is disabled'')
           else if \<not> jira_complete c then Inl (400, ''jira integration is incomplete'')
           else (case validateJiraCloudBaseURL env (ji_BaseURL c) of
               Inl e \<Rightarrow> Inl (400, e)
             | Inr base \<Rightarrow> Inr (jira_NewClient base (ji_UserEmail c) (ji_Token c),
                 \<lparr>iq_ProjectKey = ji_ProjectKey c, iq_IssueType = ji_IssueType c,
                  iq_Summary = ''['' @ to_upper (fd_Severity f) @ ''] '' @ fd_Title f,
                  iq_Description = buildJiraFindingDescription env f (buildHenKaiPanFindingURL env (xe_frontend env) (fd_ID f)),
                  iq_Labels = [''henkaipan'', ''security-finding''] @ ji_Labels c\<rparr>, base))))"

text \<open>The call: the key and the address of the ticket, or the answer after the reservation is given up.\<close>

definition jira_remote :: "settings_env \<Rightarrow> string \<Rightarrow> settings_db \<Rightarrow> (string \<times> string) reply \<times> settings_db" where
  "jira_remote env findingID db =
     (case jira_ready env findingID db of
        Inl r \<Rightarrow> (Inl r, snd (DeleteJiraIssueLink env findingID db))
      | Inr (client, req, base) \<Rightarrow>
        (case CreateIssue env client req of
           Inl e \<Rightarrow> (Inl (502, ''failed to create Jira ticket''), snd (DeleteJiraIssueLink env findingID db))
         | Inr key \<Rightarrow> (Inr (key, trim_right_cutset ''/'' base @ ''/browse/'' @ key),
             db\<lparr>xd_tickets := xd_tickets db @ [(findingID, key)]\<rparr>)))"

definition jira_persist :: "settings_env \<Rightarrow> string \<Rightarrow> string \<Rightarrow> string \<Rightarrow> settings_db \<Rightarrow> (nat \<times> jira_link) reply \<times> settings_db" where
  "jira_persist env findingID key url db =
     (case UpsertJiraIssueLink env findingID key url ''created'' db of
        (Inl e, db1) \<Rightarrow> (Inl (500, ''jira ticket created but failed to persist link''), db1)
      | (Inr l, db1) \<Rightarrow> (Inr (201, l), db1))"

definition CreateFindingJiraIssue :: "settings_env \<Rightarrow> string \<Rightarrow> settings_db \<Rightarrow> (nat \<times> jira_link) reply \<times> settings_db" where
  "CreateFindingJiraIssue env findingID db =
     (case ReserveJiraIssueLink env findingID db of
        (Inl e, db1) \<Rightarrow> (Inl (500, ''failed to reserve jira ticket link''), db1)
      | (Inr (l, False), db1) \<Rightarrow> (Inr (if jl_Status l = Some ''pending'' then 202 else 200, l), db1)
      | (Inr (l, True), db1) \<Rightarrow>
        (case jira_remote env findingID db1 of
           (Inl r, db2) \<Rightarrow> (Inl r, db2)
         | (Inr (key, url), db2) \<Rightarrow> jira_persist env findingID key url db2))"

definition GetFindingJiraIssue :: "settings_env \<Rightarrow> string \<Rightarrow> settings_db \<Rightarrow> jira_link reply" where
  "GetFindingJiraIssue env findingID db =
     (case GetJiraIssueLinkByFindingID (xe_view env) findingID (xd_views db) of
        Inl e \<Rightarrow> if e = ''no rows in result set'' then Inl (404, ''jira ticket not found'') else Inl (500, ''failed to load jira ticket'')
      | Inr l \<Rightarrow> Inr l)"

section \<open>Secrets\<close>

lemma concat_bullets: "concat (replicate n mask_bullet) = concat (replicate m mask_bullet) \<longleftrightarrow> n = m"
proof
  assume "concat (replicate n mask_bullet) = concat (replicate m mask_bullet)"
  then have "length (concat (replicate n mask_bullet)) = length (concat (replicate m mask_bullet))" by (rule arg_cong)
  then show "n = m" by (simp add: length_concat sum_list_replicate mask_bullet_def)
qed simp

text \<open>What the settings page shows of the Jira token tells its length and its last four bytes and
  nothing else, and of a token of four bytes or less the length alone.\<close>

theorem mask_hides:
  assumes "length (trim_space s) = length (trim_space t)"
    and "4 < length (trim_space s) \<Longrightarrow> drop (length (trim_space s) - 4) (trim_space s) = drop (length (trim_space t) - 4) (trim_space t)"
  shows "maskSecret s = maskSecret t"
  using assms by (cases "length (trim_space s) \<le> 4") (auto simp: maskSecret_def Let_def)

lemma stored_token:
  assumes "UpsertJiraIntegration env u db = (r, db1)" "xe_fail env = (\<lambda>_. None)" "\<not> isl r"
  obtains current enc where "GetJiraCredentials env db = Inr current"
    "Encrypt (xe_crypto env) (xe_key env) (xe_nonce env) (ji_Token (merge_jira u current)) = Inr enc"
    "db1 = db\<lparr>xd_jira := Some ((merge_jira u current)\<lparr>ji_Token := enc, ji_UpdatedAt := xe_now env\<rparr>)\<rparr>"
  using assms by (auto simp: UpsertJiraIntegration_def Let_def split: sum.splits)

lemma GetJiraCredentials_row:
  assumes "xe_fail env = (\<lambda>_. None)" "xd_jira db = Some j" "Decrypt (xe_crypto env) (xe_key env) (ji_Token j) = Inr t"
  shows "GetJiraCredentials env db = Inr (j\<lparr>ji_Token := t\<rparr>)"
  by (simp add: GetJiraCredentials_def jira_current_def assms)

text \<open>The Jira credentials survive their encryption: after an update that succeeds, the next ticket
  is created with the old credentials changed in the given fields only, the token among them, and with
  what was given for these.\<close>

theorem jira_credentials_roundtrip:
  assumes "crypto_ok (xe_crypto env)" "newGCM (xe_crypto env) (xe_key env) = Inr key" "length (xe_nonce env) = nonce_size"
    and "xe_fail env = (\<lambda>_. None)" "GetJiraCredentials env db = Inr current"
    and "UpsertJiraIntegration env u db = (Inr v, db1)"
  shows "GetJiraCredentials env db1 =
    Inr ((merge_jira u current)\<lparr>ji_Token := trim_space (ji_Token (merge_jira u current)), ji_UpdatedAt := xe_now env\<rparr>)"
proof -
  obtain enc where enc: "Encrypt (xe_crypto env) (xe_key env) (xe_nonce env) (ji_Token (merge_jira u current)) = Inr enc"
    and db1: "db1 = db\<lparr>xd_jira := Some ((merge_jira u current)\<lparr>ji_Token := enc, ji_UpdatedAt := xe_now env\<rparr>)\<rparr>"
    by (rule stored_token [OF assms(6,4)]) (use assms(5) in auto)
  have "Decrypt (xe_crypto env) (xe_key env) enc = Inr (trim_space (ji_Token (merge_jira u current)))"
    using Decrypt_Encrypt [OF assms(1-3) enc] by simp
  then show ?thesis using GetJiraCredentials_row [OF assms(4)] db1 by simp
qed

section \<open>Where tickets go\<close>

lemma validate_base:
  assumes "validateJiraCloudBaseURL env raw = Inr base"
  obtains host where "base = ''https://'' @ host" "has_suffix host ''.atlassian.net''"
  using assms by (auto simp: validateJiraCloudBaseURL_def Let_def split: option.splits if_splits)

lemma trim_right_last: "s \<noteq> [] \<Longrightarrow> last s \<notin> set cs \<Longrightarrow> trim_right_cutset cs s = s"
  by (cases s rule: rev_cases) (simp_all add: trim_right_cutset_def)

lemma base_kept:
  assumes "has_suffix host ''.atlassian.net''"
  shows "trim_right_cutset ''/'' (''https://'' @ host) = ''https://'' @ host"
proof -
  let ?n = "length host - length ''.atlassian.net''"
  have s: "length ''.atlassian.net'' \<le> length host" "drop ?n host = ''.atlassian.net''" using assms unfolding has_suffix_def by blast+
  then have ne: "host \<noteq> []" by auto
  have "last host = last (drop ?n host)" by (rule last_drop [symmetric]) (use ne in simp)
  also have "\<dots> = CHR ''t''" unfolding s(2) by simp
  finally have "last host = CHR ''t''" .
  moreover note ne
  ultimately have "last (''https://'' @ host) = CHR ''t''" by simp
  then show ?thesis using trim_right_last [of "''https://'' @ host" "''/''"] by simp
qed


section \<open>One ticket for a finding\<close>

text \<open>The requests for tickets and where each stands.\<close>

datatype jira_pc = Waiting | Reserved | Ticketed string string | Answered

inductive jira_step :: "settings_db \<times> (string \<times> jira_pc) list \<Rightarrow> settings_db \<times> (string \<times> jira_pc) list \<Rightarrow> bool" where
  arrive: "jira_step (db, rs) (db, rs @ [(i, Waiting)])"
| reserve: "ReserveJiraIssueLink env i db = (r, db') \<Longrightarrow>
    jira_step (db, xs @ (i, Waiting) # ys)
      (db', xs @ (i, case r of Inr (l, True) \<Rightarrow> Reserved | _ \<Rightarrow> Answered) # ys)"
| remote: "jira_remote env i db = (r, db') \<Longrightarrow>
    jira_step (db, xs @ (i, Reserved) # ys)
      (db', xs @ (i, case r of Inr (key, url) \<Rightarrow> Ticketed key url | _ \<Rightarrow> Answered) # ys)"
| persist: "jira_step (db, xs @ (i, Ticketed key url) # ys) (snd (jira_persist env i key url db), xs @ (i, Answered) # ys)"
| elsewhere: "xd_links db' = xd_links db \<Longrightarrow> xd_tickets db' = xd_tickets db \<Longrightarrow> jira_step (db, rs) (db', rs)"

definition reserved_for :: "string \<Rightarrow> (string \<times> jira_pc) list \<Rightarrow> nat" where
  "reserved_for i rs = length (filter (\<lambda>r. r = (i, Reserved)) rs)"

definition tickets_for :: "string \<Rightarrow> settings_db \<Rightarrow> nat" where
  "tickets_for i db = length (filter (\<lambda>t. fst t = i) (xd_tickets db))"

definition has_link :: "string \<Rightarrow> settings_db \<Rightarrow> bool" where
  "has_link i db \<longleftrightarrow> i \<in> jl_FindingID ` set (xd_links db)"

definition tickets_ok :: "settings_db \<times> (string \<times> jira_pc) list \<Rightarrow> bool" where
  "tickets_ok = (\<lambda>(db, rs). \<forall>i. tickets_for i db + reserved_for i rs \<le> 1 \<and> (tickets_for i db + reserved_for i rs > 0 \<longrightarrow> has_link i db))"

lemma links_sel [simp]:
  "xd_links (set_links ls db) = ls" "xd_tickets (set_links ls db) = xd_tickets db" "xd_jira (set_links ls db) = xd_jira db"
  by (simp_all add: set_links_def)

lemma has_link_row: "has_link i db \<longleftrightarrow> row_by jl_FindingID i (xd_links db) \<noteq> None"
  by (auto simp: has_link_def row_by_def find_None_iff)

lemma reserved_append [simp]: "reserved_for i (xs @ ys) = reserved_for i xs + reserved_for i ys"
  by (simp add: reserved_for_def)

lemma reserved_Cons [simp]: "reserved_for i (r # rs) = (if r = (i, Reserved) then 1 else 0) + reserved_for i rs"
  by (simp add: reserved_for_def)

lemma reserved_Nil [simp]: "reserved_for i [] = 0"
  by (simp add: reserved_for_def)

lemma reserve_cases:
  assumes "ReserveJiraIssueLink env i db = (r, db')"
  shows "(\<exists>l. r = Inr (l, True) \<and> \<not> has_link i db \<and> jl_FindingID l = i \<and> jl_Status l = Some ''pending'' \<and> xd_links db' = xd_links db @ [l] \<and>
      xd_tickets db' = xd_tickets db) \<or> (db' = db \<and> (\<forall>l. r \<noteq> Inr (l, True)))"
  using assms by (auto simp: ReserveJiraIssueLink_def has_link_row new_link_def Let_def split: option.splits if_splits sum.splits)

lemma DeleteLink_sel:
  "xd_tickets (snd (DeleteJiraIssueLink env i db)) = xd_tickets db"
  "j \<noteq> i \<Longrightarrow> has_link j (snd (DeleteJiraIssueLink env i db)) = has_link j db"
  by (auto simp: DeleteJiraIssueLink_def has_link_def split: option.splits)

lemma remote_cases:
  assumes "jira_remote env i db = (r, db')"
  shows "(\<exists>key url. r = Inr (key, url) \<and> db' = db\<lparr>xd_tickets := xd_tickets db @ [(i, key)]\<rparr>) \<or>
    (isl r \<and> db' = snd (DeleteJiraIssueLink env i db))"
  using assms by (auto simp: jira_remote_def split: sum.splits prod.splits)

lemma persist_sel:
  "xd_tickets (snd (jira_persist env i key url db)) = xd_tickets db"
  "has_link j db \<Longrightarrow> has_link j (snd (jira_persist env i key url db))"
proof -
  have keep: "jl_FindingID ` set (update_where P (\<lambda>l. l\<lparr>jl_IssueKey := a, jl_IssueURL := b, jl_Status := c\<rparr>) ls) = jl_FindingID ` set ls" for P a b c ls
  proof -
    have "map jl_FindingID (update_where P (\<lambda>l. l\<lparr>jl_IssueKey := a, jl_IssueURL := b, jl_Status := c\<rparr>) ls) = map jl_FindingID ls"
      by (induction ls) (simp_all add: update_where_def)
    then show ?thesis by (metis list.set_map)
  qed
  show "xd_tickets (snd (jira_persist env i key url db)) = xd_tickets db"
    by (simp add: jira_persist_def UpsertJiraIssueLink_def Let_def split: option.split)
  show "has_link j db \<Longrightarrow> has_link j (snd (jira_persist env i key url db))"
    by (auto simp: jira_persist_def UpsertJiraIssueLink_def has_link_def keep Let_def split: option.splits if_splits)
qed

lemma jira_step_ok: "tickets_ok s \<Longrightarrow> jira_step s t \<Longrightarrow> tickets_ok t"
proof -
  assume ok: "tickets_ok s" and st: "jira_step s t"
  from st ok show "tickets_ok t"
  proof cases
    case (arrive db rs i)
    then show ?thesis using ok by (simp add: tickets_ok_def)
  next
    case (reserve env i db r db' xs ys)
    from reserve_cases [OF reserve(3)] show ?thesis
    proof (elim disjE exE conjE)
      fix l assume l: "r = Inr (l, True)" "\<not> has_link i db" "jl_FindingID l = i" "xd_links db' = xd_links db @ [l]" "xd_tickets db' = xd_tickets db"
      have "tickets_for i db + reserved_for i (xs @ (i, Waiting) # ys) = 0"
        using ok l(2) unfolding reserve(1) tickets_ok_def by blast
      then show ?thesis using ok l unfolding reserve(1,2) tickets_ok_def
        by (auto simp: tickets_for_def has_link_def)
    next
      assume "db' = db" "\<forall>l. r \<noteq> Inr (l, True)"
      then have "(case r of Inr (l, True) \<Rightarrow> Reserved | _ \<Rightarrow> Answered) = Answered" by (auto split: sum.split bool.split)
      then show ?thesis using ok \<open>db' = db\<close> unfolding reserve(1,2) tickets_ok_def by simp
    qed
  next
    case (remote env i db r db' xs ys)
    have one: "tickets_for i db = 0 \<and> reserved_for i (xs @ ys) = 0 \<and> has_link i db"
      using ok unfolding remote(1) tickets_ok_def by (auto dest!: spec [of _ i])
    from remote_cases [OF remote(3)] show ?thesis
    proof (elim disjE exE conjE)
      fix key url assume r: "r = Inr (key, url)" "db' = db\<lparr>xd_tickets := xd_tickets db @ [(i, key)]\<rparr>"
      then have eq: "tickets_for j db' + reserved_for j (xs @ (i, Ticketed key url) # ys) = tickets_for j db + reserved_for j (xs @ (i, Reserved) # ys)"
        "has_link j db' = has_link j db" for j
        by (auto simp: tickets_for_def has_link_def)
      show ?thesis using ok unfolding remote(1,2) tickets_ok_def split_conv r(1) sum.case eq .
    next
      assume r: "isl r" "db' = snd (DeleteJiraIssueLink env i db)"
      then have pc: "(case r of Inr (key, url) \<Rightarrow> Ticketed key url | _ \<Rightarrow> Answered) = Answered" by (auto simp: isl_def)
      have t: "tickets_for j db' = tickets_for j db" for j by (simp add: r(2) tickets_for_def DeleteLink_sel)
      have h: "j \<noteq> i \<Longrightarrow> has_link j db' = has_link j db" for j unfolding r(2) by (rule DeleteLink_sel(2))
      have all: "tickets_for j db + reserved_for j (xs @ (i, Reserved) # ys) \<le> 1 \<and>
          (tickets_for j db + reserved_for j (xs @ (i, Reserved) # ys) > 0 \<longrightarrow> has_link j db)" for j
        using ok unfolding remote(1) tickets_ok_def split_conv by (rule spec)
      show ?thesis unfolding remote(2) tickets_ok_def pc split_conv
      proof
        fix j
        show "tickets_for j db' + reserved_for j (xs @ (i, Answered) # ys) \<le> 1 \<and>
          (tickets_for j db' + reserved_for j (xs @ (i, Answered) # ys) > 0 \<longrightarrow> has_link j db')"
          using all [of j] one h [of j] by (cases "j = i") (simp_all add: t)
      qed
    qed
  next
    case persist
    show ?thesis using ok unfolding persist by (auto simp: tickets_ok_def tickets_for_def persist_sel)
  next
    case (elsewhere db' db rs)
    then show ?thesis using ok by (simp add: tickets_ok_def tickets_for_def has_link_def)
  qed
qed

interpretation tickets: invariant_machine "\<lambda>(db, rs). xd_tickets db = [] \<and> rs = []" jira_step tickets_ok
  by unfold_locales (simp add: tickets_ok_def tickets_for_def split: prod.splits, rule jira_step_ok)

text \<open>C37: However many requests for a ticket of the same finding run, and however their reservations, calls
  and answers are interleaved with each other and with failures, Jira confirms at most one ticket
  for the finding.\<close>

theorem one_ticket:
  assumes "jira_step\<^sup>*\<^sup>* (db, []) (db', rs)" "xd_tickets db = []"
  shows "length (filter (\<lambda>t. fst t = i) (xd_tickets db')) \<le> 1"
proof -
  have "tickets_ok (db', rs)" by (rule tickets.reachable_inv [OF _ assms(1)]) (use assms(2) in simp)
  then have "tickets_for i db' + reserved_for i rs \<le> 1" by (simp add: tickets_ok_def)
  then show ?thesis by (simp add: tickets_for_def)
qed

text \<open>A ticket whose link could not be stored is lost: the request is answered with an error, and each
  later one is told that the ticket is under way, for ever, although nothing runs any more.\<close>

theorem unsaved_ticket_stuck:
  assumes "ReserveJiraIssueLink env i db = (Inr (l, True), db1)" "jira_remote env i db1 = (Inr (key, url), db2)"
    and "xe_fail env ''settings.UpsertLink'' = Some e" "xe_fail env2 = (\<lambda>_. None)" "co_uuid_ok (vn_collab (xe_view env2)) i"
  shows "isl (fst (CreateFindingJiraIssue env i db)) \<and>
    CreateFindingJiraIssue env2 i (snd (CreateFindingJiraIssue env i db)) = (Inr (202, l), snd (CreateFindingJiraIssue env i db))"
proof -
  have p: "jira_persist env i key url db2 = (Inl (500, ''jira ticket created but failed to persist link''), db2)"
    by (simp add: jira_persist_def UpsertJiraIssueLink_def assms(3))
  have c: "CreateFindingJiraIssue env i db = (Inl (500, ''jira ticket created but failed to persist link''), db2)"
    by (simp add: CreateFindingJiraIssue_def assms(1,2) p)
  have l: "\<not> has_link i db" "jl_FindingID l = i" "jl_Status l = Some ''pending''" "xd_links db1 = xd_links db @ [l]"
    using reserve_cases [OF assms(1)] by auto
  have "xd_links db2 = xd_links db1" using remote_cases [OF assms(2)] by auto
  moreover have "row_by jl_FindingID i (xd_links db @ [l]) = Some l"
    using l(1,2) by (auto simp: has_link_row row_by_def find_Some_iff find_None_iff nth_append)
  ultimately have "row_by jl_FindingID i (xd_links db2) = Some l" by (simp add: l)
  then show ?thesis using assms(4,5) l(3)
    unfolding c snd_conv fst_conv by (simp add: CreateFindingJiraIssue_def ReserveJiraIssueLink_def GetJiraIssueLinkByFindingID_def)
qed

section \<open>Instances\<close>

definition sample_jira :: jira_row where
  "sample_jira = \<lparr>ji_BaseURL = ''https://x.atlassian.net'', ji_UserEmail = ''a@x'', ji_ProjectKey = ''SEC'', ji_IssueType = ''Bug'', ji_Labels = [],
     ji_Enabled = True, ji_Token = ''secret'', ji_UpdatedAt = 0\<rparr>"

definition sample_settings :: settings_env where
  "sample_settings = \<lparr>xe_view = sample_views, xe_crypto = sample_crypto, xe_key = replicate 32 CHR ''0'', xe_nonce = replicate 12 CHR ''n'',
     xe_link_id = (\<lambda>ls. CHR ''l'' # nat_str (length ls)),
     xe_url = (\<lambda>s. if has_prefix s ''https://'' then Some \<lparr>ul_Scheme = ''https'', ul_Hostname = drop 8 s, ul_Host = drop 8 s, ul_Path = [], ul_HasUser = False\<rparr> else None),
     xe_with = (\<lambda>base path i. base @ path @ ''?id='' @ i), xe_frontend = ''https://h.x'',
     xe_send = (\<lambda>url auth req. Inr (201, ''201 Created'', ''SEC-1'')), xe_decode = Inr\<rparr>"

text \<open>A run in which storing the link fails.\<close>

definition sample_broken :: settings_env where
  "sample_broken = sample_settings\<lparr>xe_view := sample_views\<lparr>vn_collab := sample_collab\<lparr>co_access := sample_access\<lparr>ax_user :=
     sample_user_env\<lparr>ux_fail := (\<lambda>op. if op = ''settings.UpsertLink'' then Some ''timeout'' else None)\<rparr>\<rparr>\<rparr>\<rparr>\<rparr>"

definition sample_settings_db :: settings_db where
  "sample_settings_db = \<lparr>xd_settings = None, xd_jira = Some sample_jira, xd_views = sample_view_state, xd_tickets = []\<rparr>"

lemma sample_settings_fail [simp]: "xe_fail sample_settings = (\<lambda>_. None)"
  by (simp add: sample_settings_def)

theorem mask_hides_witness: "maskSecret ''aaaa1234'' = maskSecret ''bbbb1234''"
  by (rule mask_hides) code_simp+

theorem jira_credentials_roundtrip_witness:
  "map_sum id ji_Token (GetJiraCredentials sample_settings (snd (UpsertJiraIntegration sample_settings
     \<lparr>ju_BaseURL = None, ju_UserEmail = None, ju_ProjectKey = None, ju_IssueType = None, ju_Labels = None, ju_Enabled = None,
      ju_Token = Some '' fresh ''\<rparr> sample_settings_db))) = Inr ''fresh''"
proof -
  let ?u = "\<lparr>ju_BaseURL = None, ju_UserEmail = None, ju_ProjectKey = None, ju_IssueType = None, ju_Labels = None, ju_Enabled = None,
      ju_Token = Some '' fresh ''\<rparr>"
  have c: "crypto_ok (xe_crypto sample_settings)" by (simp add: sample_settings_def sample_crypto_ok)
  have k: "newGCM (xe_crypto sample_settings) (xe_key sample_settings) = Inr (replicate 32 CHR ''0'')"
    by (simp add: sample_settings_def sample_crypto_def newGCM_def)
  have n: "length (xe_nonce sample_settings) = nonce_size" by (simp add: sample_settings_def nonce_size_def)
  have cur: "GetJiraCredentials sample_settings sample_settings_db = Inr sample_jira" by code_simp
  obtain v db1 where u: "UpsertJiraIntegration sample_settings ?u sample_settings_db = (Inr v, db1)"
  proof -
    have "isl (fst (UpsertJiraIntegration sample_settings ?u sample_settings_db)) = False" by code_simp
    then show ?thesis using that by (cases "fst (UpsertJiraIntegration sample_settings ?u sample_settings_db)") (auto, metis prod.collapse)
  qed
  have "trim_space (ji_Token (merge_jira ?u sample_jira)) = ''fresh''" by code_simp
  then show ?thesis using jira_credentials_roundtrip [OF c k n sample_settings_fail cur u] by (simp add: u)
qed

lemma sample_ready:
  "\<exists>client req base. jira_ready sample_settings ''f1'' sample_settings_db = Inr (client, req, base) \<and> issue_url client = ''https://x.atlassian.net/rest/api/3/issue''"
proof -
  have "map_sum id (\<lambda>(client, req, base). issue_url client) (jira_ready sample_settings ''f1'' sample_settings_db) =
      Inr ''https://x.atlassian.net/rest/api/3/issue''" by code_simp
  then show ?thesis by (cases "jira_ready sample_settings ''f1'' sample_settings_db") auto
qed


theorem one_ticket_witness:
  "\<exists>db' rs. jira_step\<^sup>*\<^sup>* (sample_settings_db, []) (db', rs) \<and> length (filter (\<lambda>t. fst t = ''f1'') (xd_tickets db')) \<le> 1 \<and>
     rs = [(''f1'', Reserved), (''f1'', Answered)]"
proof -
  obtain l db1 where r1: "ReserveJiraIssueLink sample_settings ''f1'' sample_settings_db = (Inr (l, True), db1)"
  proof -
    have "map_sum id snd (fst (ReserveJiraIssueLink sample_settings ''f1'' sample_settings_db)) = Inr True" by code_simp
    then show ?thesis using that by (cases "ReserveJiraIssueLink sample_settings ''f1'' sample_settings_db") (auto simp: map_sum_def split: sum.splits)
  qed
  have two: "map_sum id snd (fst (ReserveJiraIssueLink sample_settings ''f1'' (snd (ReserveJiraIssueLink sample_settings ''f1'' sample_settings_db)))) = Inr False"
    by code_simp
  obtain r2 db2 where r2: "ReserveJiraIssueLink sample_settings ''f1'' db1 = (r2, db2)" by fastforce
  have pc2: "(case r2 of Inr (l, True) \<Rightarrow> Reserved | _ \<Rightarrow> Answered) = Answered" using two by (auto simp: r1 r2 split: sum.splits)
  let ?start = "(sample_settings_db, [])" and ?w = "(''f1'', Waiting)"
  have s1: "jira_step ?start (sample_settings_db, [?w])" using arrive [of sample_settings_db "[]" "''f1''"] by simp
  have s2: "jira_step (sample_settings_db, [?w]) (sample_settings_db, [?w, ?w])" using arrive [of sample_settings_db "[?w]" "''f1''"] by simp
  have s3: "jira_step (sample_settings_db, [?w, ?w]) (db1, [(''f1'', Reserved), ?w])" using reserve [OF r1, of "[]" "[?w]"] by simp
  have s4: "jira_step (db1, [(''f1'', Reserved), ?w]) (db2, [(''f1'', Reserved), (''f1'', Answered)])"
    using reserve [OF r2, of "[(''f1'', Reserved)]" "[]"] pc2 by simp
  have run: "jira_step\<^sup>*\<^sup>* ?start (db2, [(''f1'', Reserved), (''f1'', Answered)])"
    using s1 s2 s3 s4 by (meson rtranclp.rtrancl_refl rtranclp.rtrancl_into_rtrancl)
  show ?thesis using run one_ticket [OF run, of "''f1''"] by (auto simp: sample_settings_db_def)
qed

theorem unsaved_ticket_stuck_witness:
  "\<exists>l. isl (fst (CreateFindingJiraIssue sample_broken ''f1'' sample_settings_db)) \<and>
    CreateFindingJiraIssue sample_settings ''f1'' (snd (CreateFindingJiraIssue sample_broken ''f1'' sample_settings_db)) =
      (Inr (202, l), snd (CreateFindingJiraIssue sample_broken ''f1'' sample_settings_db))"
proof -
  have r: "map_sum id snd (fst (ReserveJiraIssueLink sample_broken ''f1'' sample_settings_db)) = Inr True" by code_simp
  then obtain l db1 where r1: "ReserveJiraIssueLink sample_broken ''f1'' sample_settings_db = (Inr (l, True), db1)"
    by (cases "ReserveJiraIssueLink sample_broken ''f1'' sample_settings_db") (auto simp: map_sum_def split: sum.splits)
  have "isl (fst (jira_remote sample_broken ''f1'' (snd (ReserveJiraIssueLink sample_broken ''f1'' sample_settings_db)))) = False" by code_simp
  then have "\<not> isl (fst (jira_remote sample_broken ''f1'' db1))" by (simp add: r1)
  then obtain key url db2 where r2: "jira_remote sample_broken ''f1'' db1 = (Inr (key, url), db2)"
    by (metis isl_def obj_sumE prod.collapse)
  have f: "xe_fail sample_broken ''settings.UpsertLink'' = Some ''timeout''" by (simp add: sample_broken_def sample_settings_def)
  have u: "co_uuid_ok (vn_collab (xe_view sample_settings)) ''f1''" by (simp add: sample_settings_def sample_collab_def)
  show ?thesis using unsaved_ticket_stuck [OF r1 r2 f sample_settings_fail u] by blast
qed

end
