(* ===== verification/Metrics_Report.thy ===== *)
theory Metrics_Report
  imports Settings_Jira
begin

text \<open>
  The figures of the dashboard (\<^verbatim>\<open>src/internal/repository/metrics.go\<close>, \<^verbatim>\<open>handlers/metrics.go\<close>) and the
  messages made of them (\<^verbatim>\<open>tasks/digest.go\<close>, \<^verbatim>\<open>tasks/report.go\<close>, \<^verbatim>\<open>ai/digest.go\<close>) with their schedules.
  A join is the list of its rows, \<open>left_join\<close> the one that keeps what has no partner.  Local time is
  seconds without changes of the clock; percentages are rationals, and their formatting and that of
  dates are parameters.
\<close>

section \<open>Joins and counts\<close>

definition left_join :: "('a \<Rightarrow> 'b \<Rightarrow> bool) \<Rightarrow> 'a list \<Rightarrow> 'b list \<Rightarrow> ('a \<times> 'b option) list" where
  "left_join on xs ys = concat (map (\<lambda>x. case filter (on x) ys of [] \<Rightarrow> [(x, None)] | zs \<Rightarrow> map (\<lambda>z. (x, Some z)) zs) xs)"

definition count_by :: "string list \<Rightarrow> (string \<times> nat) list" where
  "count_by xs = map (\<lambda>x. (x, count_list xs x)) (remdups xs)"

definition lookup_count :: "(string \<times> nat) list \<Rightarrow> string \<Rightarrow> nat" where
  "lookup_count m k = (case map_of m k of None \<Rightarrow> 0 | Some n \<Rightarrow> n)"

definition max_time :: "int option list \<Rightarrow> int option" where
  "max_time ts = fold (\<lambda>t acc. case t of None \<Rightarrow> acc | Some x \<Rightarrow> (case acc of None \<Rightarrow> Some x | Some y \<Rightarrow> Some (max x y))) ts None"

definition live :: "finding \<Rightarrow> bool" where
  "live f \<longleftrightarrow> fd_Status f \<notin> set closed_statuses"

definition live_count :: "string \<Rightarrow> finding list \<Rightarrow> nat" where
  "live_count sev fs = length (filter (\<lambda>f. fd_Severity f = sev \<and> live f) fs)"

definition some_rows :: "('a \<times> 'b option) list \<Rightarrow> 'b list" where
  "some_rows rows = concat (map (\<lambda>(x, y). case y of None \<Rightarrow> [] | Some z \<Rightarrow> [z]) rows)"

abbreviation "md_findings db \<equiv> vb_findings (xd_views db)"
abbreviation "md_tenant db \<equiv> tenant_of (xd_views db)"

section \<open>Environment and results\<close>

record metrics_env =
  mx_settings :: settings_env
  mx_ai :: ai_env
  mx_smtp :: smtp
  mx_mail :: email_config
  mx_frontend :: string
  mx_day_text :: "int \<Rightarrow> string"
  mx_short_date :: "int \<Rightarrow> string"
  mx_long_date :: "int \<Rightarrow> string"
  mx_percent :: "rat \<Rightarrow> string"

abbreviation "mx_fail env \<equiv> xe_fail (mx_settings env)"
abbreviation "mx_now env \<equiv> xe_now (mx_settings env)"

record metrics_summary =
  zs_TotalScans :: nat
  zs_ActiveScans :: nat
  zs_TotalFindings :: nat
  zs_FindingsBySeverity :: "(string \<times> nat) list"
  zs_ScansByScanner :: "(string \<times> nat) list"
  zs_RecentScans :: "(scan_row \<times> nat) list"

record trend_point =
  zt_Day :: int
  zt_Critical :: nat
  zt_High :: nat
  zt_Medium :: nat
  zt_Low :: nat
  zt_Info :: nat

record risk_score =
  zr_ProjectID :: string
  zr_ProjectName :: string
  zr_ProjectURL :: string
  zr_AppID :: string
  zr_AppName :: string
  zr_Critical :: nat
  zr_High :: nat
  zr_Medium :: nat
  zr_Low :: nat
  zr_Info :: nat
  zr_Score :: nat

record team_metrics =
  zm_TeamID :: string
  zm_TeamName :: string
  zm_AppCount :: nat
  zm_ProjectCount :: nat
  zm_RepoCount :: nat
  zm_Critical :: nat
  zm_High :: nat
  zm_Medium :: nat
  zm_Low :: nat
  zm_Info :: nat
  zm_Score :: nat
  zm_SLACompliance :: rat
  zm_LastScanAt :: "int option"

record sla_compliance =
  zl_Total :: nat
  zl_OnTime :: nat
  zl_Overdue :: nat
  zl_Percent :: rat

record scanner_health =
  zh_Scanner :: string
  zh_Total :: nat
  zh_Successful :: nat
  zh_Failed :: nat
  zh_SuccessRate :: rat
  zh_AvgDuration :: rat
  zh_LastSuccess :: "int option"
  zh_LastFailure :: "int option"

record security_score =
  zg_ProjectID :: string
  zg_ProjectName :: string
  zg_Grade :: string
  zg_Score :: int
  zg_Critical :: nat
  zg_High :: nat
  zg_Medium :: nat
  zg_Low :: nat
  zg_LastScanAt :: "int option"

section \<open>Queries\<close>

text \<open>The errors of the six queries are ignored.\<close>

definition or_zero :: "metrics_env \<Rightarrow> string \<Rightarrow> nat \<Rightarrow> nat" where
  "or_zero env call n = (case mx_fail env call of Some e \<Rightarrow> 0 | None \<Rightarrow> n)"

definition or_empty :: "metrics_env \<Rightarrow> string \<Rightarrow> 'a list \<Rightarrow> 'a list" where
  "or_empty env call xs = (case mx_fail env call of Some e \<Rightarrow> [] | None \<Rightarrow> xs)"

definition scans_of :: "scope \<Rightarrow> settings_db \<Rightarrow> scan_row list" where
  "scans_of sco db = filter (scan_visible (md_tenant db) sco) (tn_scans (md_tenant db))"

definition findings_of :: "scope \<Rightarrow> settings_db \<Rightarrow> finding list" where
  "findings_of sco db = filter (finding_visible (xd_views db) sco) (md_findings db)"

definition Summary :: "metrics_env \<Rightarrow> scope \<Rightarrow> settings_db \<Rightarrow> metrics_summary" where
  "Summary env sco db =
     \<lparr>zs_TotalScans = or_zero env ''metrics.TotalScans'' (length (scans_of sco db)),
      zs_ActiveScans = or_zero env ''metrics.ActiveScans''
        (length (filter (\<lambda>s. sn_Status s \<in> {''pending'', ''running''}) (scans_of sco db))),
      zs_TotalFindings = or_zero env ''metrics.TotalFindings'' (length (findings_of sco db)),
      zs_FindingsBySeverity = or_empty env ''metrics.BySeverity'' (count_by (map fd_Severity (findings_of sco db))),
      zs_ScansByScanner = or_empty env ''metrics.ByScanner'' (count_by (map sn_Scanner (scans_of sco db))),
      zs_RecentScans = or_empty env ''metrics.Recent'' (take 5 (map (\<lambda>s. (s, length (filter (\<lambda>f. fd_ScanID f = sn_ID s) (md_findings db))))
        (rev (scans_of sco db))))\<rparr>"

definition day_of :: "int \<Rightarrow> int" where
  "day_of t = t div 86400"

definition trend_point_of :: "int \<Rightarrow> finding list \<Rightarrow> trend_point" where
  "trend_point_of d fs =
     (let n = (\<lambda>sev. length (filter (\<lambda>f. fd_Severity f = sev) fs)) in
      \<lparr>zt_Day = d, zt_Critical = n ''critical'', zt_High = n ''high'', zt_Medium = n ''medium'', zt_Low = n ''low'', zt_Info = n ''info''\<rparr>)"

definition window :: "metrics_env \<Rightarrow> scope \<Rightarrow> int \<Rightarrow> settings_db \<Rightarrow> finding list" where
  "window env sco days db = filter (\<lambda>f. fd_CreatedAt f \<ge> mx_now env - days * 86400) (findings_of sco db)"

definition Trends :: "metrics_env \<Rightarrow> scope \<Rightarrow> int \<Rightarrow> settings_db \<Rightarrow> string + trend_point list" where
  "Trends env sco days db =
     (let days = (if days < 1 \<or> days > 365 then 30 else days) in
      case mx_fail env ''metrics.Trends'' of
        Some e \<Rightarrow> Inl (''trends: '' @ e)
      | None \<Rightarrow> (let fs = window env sco days db in
          Inr (map (\<lambda>d. trend_point_of d (filter (\<lambda>f. day_of (fd_CreatedAt f) = d) fs))
            (sort (remdups (map (\<lambda>f. day_of (fd_CreatedAt f)) fs))))))"

definition weighted :: "nat \<Rightarrow> nat \<Rightarrow> nat \<Rightarrow> nat \<Rightarrow> nat" where
  "weighted critical high medium low = critical * 100 + high * 20 + medium * 5 + low * 1"

definition split_part :: "string \<Rightarrow> char \<Rightarrow> nat \<Rightarrow> string" where
  "split_part s c n = (let ps = split_on c s in if n \<le> length ps \<and> n > 0 then ps ! (n - 1) else [])"

text \<open>A row of the join: the scan, its project, the application of that, a finding of the scan.\<close>

definition risk_projects :: "scope \<Rightarrow> settings_db \<Rightarrow> (scan_row \<times> project_row option) list" where
  "risk_projects sco db =
     left_join (\<lambda>s p. sn_Project s = Some (pw_ID p) \<or> pw_RepoURL p = Some (sn_Target s)) (scans_of sco db) (tn_projects (md_tenant db))"

definition risk_apps :: "scope \<Rightarrow> settings_db \<Rightarrow> ((scan_row \<times> project_row option) \<times> app_row option) list" where
  "risk_apps sco db = left_join (\<lambda>(s, p) a. (case p of None \<Rightarrow> False | Some p \<Rightarrow> pw_AppID p = Some (aw_ID a)))
     (risk_projects sco db) (tn_apps (md_tenant db))"

definition risk_rows :: "scope \<Rightarrow> settings_db \<Rightarrow> (((scan_row \<times> project_row option) \<times> app_row option) \<times> finding option) list" where
  "risk_rows sco db = left_join (\<lambda>((s, p), a) f. fd_ScanID f = sn_ID s) (risk_apps sco db) (md_findings db)"

definition risk_key ::
  "((scan_row \<times> project_row option) \<times> app_row option) \<times> finding option \<Rightarrow>
   (string \<times> string \<times> string option \<times> string option) option \<times> string option \<times> string" where
  "risk_key = (\<lambda>(((s, p), a), f).
     (map_option (\<lambda>p. (pw_ID p, pw_Name p, pw_RepoURL p, pw_AppID p)) p, map_option aw_Name a, sn_Target s))"

definition risk_of ::
  "(string \<times> string \<times> string option \<times> string option) option \<times> string option \<times> string \<Rightarrow> finding list \<Rightarrow> risk_score" where
  "risk_of = (\<lambda>(p, a, target) fs.
     \<lparr>zr_ProjectID = (case p of None \<Rightarrow> [] | Some (i, n, u, app) \<Rightarrow> i),
      zr_ProjectName = (case p of None \<Rightarrow> split_part target CHR ''/'' 5 | Some (i, n, u, app) \<Rightarrow> n),
      zr_ProjectURL = (case p of None \<Rightarrow> target | Some (i, n, u, app) \<Rightarrow> (case u of None \<Rightarrow> target | Some x \<Rightarrow> x)),
      zr_AppID = (case p of None \<Rightarrow> [] | Some (i, n, u, app) \<Rightarrow> text_col app),
      zr_AppName = text_col a,
      zr_Critical = live_count ''critical'' fs, zr_High = live_count ''high'' fs, zr_Medium = live_count ''medium'' fs,
      zr_Low = live_count ''low'' fs, zr_Info = live_count ''info'' fs,
      zr_Score = weighted (live_count ''critical'' fs) (live_count ''high'' fs) (live_count ''medium'' fs) (live_count ''low'' fs)\<rparr>)"

definition RiskScores :: "metrics_env \<Rightarrow> scope \<Rightarrow> settings_db \<Rightarrow> string + risk_score list" where
  "RiskScores env sco db =
     (case mx_fail env ''metrics.RiskScores'' of
        Some e \<Rightarrow> Inl (''risk scores: '' @ e)
      | None \<Rightarrow> (let rows = risk_rows sco db in
          Inr (sort_key (\<lambda>r. - int (zr_Score r))
            (map (\<lambda>k. risk_of k (some_rows (filter (\<lambda>r. risk_key r = k) rows))) (remdups (map risk_key rows))))))"

text \<open>The join of \<^verbatim>\<open>TeamMetrics\<close> for one team.\<close>

definition team_apps :: "settings_db \<Rightarrow> team_row \<Rightarrow> (team_row \<times> app_row option) list" where
  "team_apps db t = left_join (\<lambda>t a. aw_TeamID a = Some (te_ID t)) [t] (tn_apps (md_tenant db))"

definition team_projects :: "settings_db \<Rightarrow> team_row \<Rightarrow> ((team_row \<times> app_row option) \<times> project_row option) list" where
  "team_projects db t = left_join (\<lambda>(t, a) p. (case a of None \<Rightarrow> pw_AppID p = None | Some a \<Rightarrow> pw_AppID p = Some (aw_ID a)))
     (team_apps db t) (tn_projects (md_tenant db))"

definition team_scans :: "settings_db \<Rightarrow> team_row \<Rightarrow> (((team_row \<times> app_row option) \<times> project_row option) \<times> scan_row option) list" where
  "team_scans db t = left_join (\<lambda>((t, a), p) s. (case p of None \<Rightarrow> False | Some p \<Rightarrow> sn_Project s = Some (pw_ID p) \<and> sn_Status s = ''completed''))
     (team_projects db t) (tn_scans (md_tenant db))"

definition team_findings :: "settings_db \<Rightarrow> team_row \<Rightarrow> finding list" where
  "team_findings db t = some_rows (left_join (\<lambda>(x, s) f. (case s of None \<Rightarrow> False | Some s \<Rightarrow> fd_ScanID f = sn_ID s))
     (team_scans db t) (md_findings db))"

definition with_deadline :: "finding list \<Rightarrow> finding list" where
  "with_deadline fs = filter (\<lambda>f. fd_SLADeadline f \<noteq> None) fs"

definition on_time :: "int \<Rightarrow> finding \<Rightarrow> bool" where
  "on_time now f \<longleftrightarrow> (case fd_SLADeadline f of None \<Rightarrow> False | Some d \<Rightarrow> d \<ge> now \<or> \<not> live f)"

definition round_tenth :: "rat \<Rightarrow> rat" where
  "round_tenth x = of_int \<lfloor>x * 10 + 1 / 2\<rfloor> / 10"

definition team_sla :: "int \<Rightarrow> finding list \<Rightarrow> rat" where
  "team_sla now fs =
     (if with_deadline fs = [] then 100
      else round_tenth (100 * of_nat (length (filter (on_time now) fs)) / of_nat (length (with_deadline fs))))"

definition team_row_metrics :: "metrics_env \<Rightarrow> settings_db \<Rightarrow> team_row \<Rightarrow> team_metrics" where
  "team_row_metrics env db t =
     (let fs = team_findings db t; ps = some_rows (team_projects db t) in
      \<lparr>zm_TeamID = te_ID t, zm_TeamName = te_Name t,
       zm_AppCount = length (remdups (map aw_ID (some_rows (team_apps db t)))),
       zm_ProjectCount = length (remdups (map pw_ID ps)),
       zm_RepoCount = length (remdups (map pw_ID (filter (\<lambda>p. pw_RepoURL p \<noteq> None) ps))),
       zm_Critical = live_count ''critical'' fs, zm_High = live_count ''high'' fs, zm_Medium = live_count ''medium'' fs,
       zm_Low = live_count ''low'' fs, zm_Info = live_count ''info'' fs,
       zm_Score = weighted (live_count ''critical'' fs) (live_count ''high'' fs) (live_count ''medium'' fs) (live_count ''low'' fs),
       zm_SLACompliance = team_sla (mx_now env) fs,
       zm_LastScanAt = max_time (map sn_Completed (some_rows (team_scans db t)))\<rparr>)"

definition team_visible :: "settings_db \<Rightarrow> scope \<Rightarrow> team_row \<Rightarrow> bool" where
  "team_visible db sco t \<longleftrightarrow> (case sco of None \<Rightarrow> True | Some u \<Rightarrow> (te_ID t, u) \<in> set (tn_members (md_tenant db)))"

definition TeamMetrics :: "metrics_env \<Rightarrow> scope \<Rightarrow> settings_db \<Rightarrow> string + team_metrics list" where
  "TeamMetrics env sco db =
     (case mx_fail env ''metrics.TeamMetrics'' of
        Some e \<Rightarrow> Inl (''team metrics: '' @ e)
      | None \<Rightarrow> Inr (sort_key (\<lambda>m. - int (zm_Score m))
          (map (team_row_metrics env db) (filter (team_visible db sco) (cb_teams (vb_collab (xd_views db)))))))"

definition SLACompliance :: "metrics_env \<Rightarrow> scope \<Rightarrow> settings_db \<Rightarrow> string + sla_compliance" where
  "SLACompliance env sco db =
     (case mx_fail env ''metrics.SLACompliance'' of
        Some e \<Rightarrow> Inl (''sla compliance: '' @ e)
      | None \<Rightarrow>
        (let fs = findings_of sco db; cnt = length (with_deadline fs); ok = length (filter (on_time (mx_now env)) fs) in
         Inr \<lparr>zl_Total = cnt, zl_OnTime = ok, zl_Overdue = length (filter (overdue (mx_now env)) fs),
           zl_Percent = (if cnt > 0 then of_nat ok / of_nat cnt * 100 else 0)\<rparr>))"

definition durations :: "scan_row list \<Rightarrow> int list" where
  "durations ss = concat (map (\<lambda>s. case (sn_Status s = ''completed'', sn_Started s, sn_Completed s) of
     (True, Some a, Some b) \<Rightarrow> [b - a] | _ \<Rightarrow> []) ss)"

definition health_of :: "string \<Rightarrow> scan_row list \<Rightarrow> scanner_health" where
  "health_of name ss =
     (let ok = filter (\<lambda>s. sn_Status s = ''completed'') ss; bad = filter (\<lambda>s. sn_Status s = ''failed'') ss; ds = durations ss in
      \<lparr>zh_Scanner = name, zh_Total = length ss, zh_Successful = length ok, zh_Failed = length bad,
       zh_SuccessRate = (if ss \<noteq> [] then of_nat (length ok) / of_nat (length ss) * 100 else 0),
       zh_AvgDuration = (if ds = [] then 0 else of_int (sum_list ds) / of_nat (length ds)),
       zh_LastSuccess = max_time (map sn_Completed ok), zh_LastFailure = max_time (map sn_Completed bad)\<rparr>)"

definition ScannerHealth :: "metrics_env \<Rightarrow> settings_db \<Rightarrow> string + scanner_health list" where
  "ScannerHealth env db =
     (case mx_fail env ''metrics.ScannerHealth'' of
        Some e \<Rightarrow> Inl (''scanner health: '' @ e)
      | None \<Rightarrow> (let ss = tn_scans (md_tenant db) in
          Inr (map (\<lambda>n. health_of n (filter (\<lambda>s. sn_Scanner s = n) ss)) (sort (remdups (map sn_Scanner ss))))))"

definition PrometheusStats :: "metrics_env \<Rightarrow> settings_db \<Rightarrow> string + nat \<times> nat \<times> nat \<times> (string \<times> nat) list" where
  "PrometheusStats env db =
     (case mx_fail env ''metrics.ScanStats'' of
        Some e \<Rightarrow> Inl (''scans stats: '' @ e)
      | None \<Rightarrow> (case mx_fail env ''metrics.FindingStats'' of
          Some e \<Rightarrow> Inl (''findings stats: '' @ e)
        | None \<Rightarrow> (let ss = tn_scans (md_tenant db) in
            Inr (length ss, length (filter (\<lambda>s. sn_Status s = ''running'') ss), length (filter (\<lambda>s. sn_Status s = ''failed'') ss),
              count_by (map fd_Severity (md_findings db))))))"

definition mapSecurityGrade :: "int \<Rightarrow> string" where
  "mapSecurityGrade score =
     (if score \<ge> 97 then ''A+'' else if score \<ge> 93 then ''A'' else if score \<ge> 90 then ''A-''
      else if score \<ge> 87 then ''B+'' else if score \<ge> 83 then ''B'' else if score \<ge> 80 then ''B-''
      else if score \<ge> 77 then ''C+'' else if score \<ge> 73 then ''C'' else if score \<ge> 70 then ''C-''
      else if score \<ge> 67 then ''D+'' else if score \<ge> 63 then ''D'' else if score \<ge> 60 then ''D-''
      else ''F'')"

text \<open>Days are counted by division toward zero.\<close>

definition days_since :: "int \<Rightarrow> int \<Rightarrow> int" where
  "days_since now t = (if now \<ge> t then (now - t) div 86400 else - ((t - now) div 86400))"

definition computeSecurityGrade :: "int \<Rightarrow> nat \<Rightarrow> nat \<Rightarrow> nat \<Rightarrow> nat \<Rightarrow> int option \<Rightarrow> int \<times> string" where
  "computeSecurityGrade now critical high medium low lastScanAt =
     (let score = 100 - int critical * 15 - int high * 5 - int medium * 2 - int low * 1;
          score = (case lastScanAt of None \<Rightarrow> score - 40 | Some t \<Rightarrow> if days_since now t > 30 then score - 20 else score);
          score = (if score < 0 then 0 else score)
      in (score, mapSecurityGrade score))"

definition project_scans :: "settings_db \<Rightarrow> project_row \<Rightarrow> scan_row list" where
  "project_scans db p = filter (\<lambda>s. sn_Project s = Some (pw_ID p) \<and> sn_Status s = ''completed'') (tn_scans (md_tenant db))"

definition project_findings :: "settings_db \<Rightarrow> project_row \<Rightarrow> finding list" where
  "project_findings db p = concat (map (\<lambda>s. filter (\<lambda>f. fd_ScanID f = sn_ID s \<and> fd_Status f \<notin> {''fixed'', ''verified''}) (md_findings db))
     (project_scans db p))"

definition security_score_of :: "metrics_env \<Rightarrow> settings_db \<Rightarrow> project_row \<Rightarrow> security_score" where
  "security_score_of env db p =
     (let fs = project_findings db p; n = (\<lambda>sev. length (filter (\<lambda>f. fd_Severity f = sev) fs));
          last_scan = max_time (map sn_Completed (project_scans db p));
          (score, grade) = computeSecurityGrade (mx_now env) (n ''critical'') (n ''high'') (n ''medium'') (n ''low'') last_scan
      in \<lparr>zg_ProjectID = pw_ID p, zg_ProjectName = pw_Name p, zg_Grade = grade, zg_Score = score, zg_Critical = n ''critical'',
          zg_High = n ''high'', zg_Medium = n ''medium'', zg_Low = n ''low'', zg_LastScanAt = last_scan\<rparr>)"

definition project_in_scope :: "settings_db \<Rightarrow> scope \<Rightarrow> project_row \<Rightarrow> bool" where
  "project_in_scope db sco p \<longleftrightarrow> scope_allows (tn_apps (md_tenant db)) (tn_members (md_tenant db)) sco (pw_AppID p)"

definition SecurityScores :: "metrics_env \<Rightarrow> scope \<Rightarrow> string option \<Rightarrow> settings_db \<Rightarrow> string + security_score list" where
  "SecurityScores env sco projectID db =
     (case mx_fail env ''metrics.SecurityScores'' of
        Some e \<Rightarrow> Inl (''security scores: '' @ e)
      | None \<Rightarrow> Inr (map (security_score_of env db) (sort_key pw_Name (filter (\<lambda>p.
          (case projectID of None \<Rightarrow> True | Some i \<Rightarrow> pw_ID p = i) \<and> project_in_scope db sco p) (tn_projects (md_tenant db))))))"

section \<open>Handlers\<close>

definition scopeFromRequest :: "claims option \<Rightarrow> scope" where
  "scopeFromRequest who = (case who of None \<Rightarrow> Admin | Some c \<Rightarrow> if cm_Role c = ''admin'' then Admin else ForUser (cm_UserID c))"

definition answer :: "string \<Rightarrow> string + 'a \<Rightarrow> 'a reply" where
  "answer text' r = (case r of Inl e \<Rightarrow> Inl (500, text') | Inr v \<Rightarrow> Inr v)"

definition GetMetricsSummary :: "metrics_env \<Rightarrow> claims option \<Rightarrow> settings_db \<Rightarrow> metrics_summary reply" where
  "GetMetricsSummary env who db = Inr (Summary env (scopeFromRequest who) db)"

definition GetTrends :: "metrics_env \<Rightarrow> claims option \<Rightarrow> (string \<Rightarrow> string) \<Rightarrow> settings_db \<Rightarrow> trend_point list reply" where
  "GetTrends env who q db = answer ''failed to get trends'' (Trends env (scopeFromRequest who) (fst (atoi (q ''days''))) db)"

definition GetRiskScores :: "metrics_env \<Rightarrow> claims option \<Rightarrow> settings_db \<Rightarrow> risk_score list reply" where
  "GetRiskScores env who db = answer ''failed to get risk scores'' (RiskScores env (scopeFromRequest who) db)"

definition GetTeamMetrics :: "metrics_env \<Rightarrow> claims option \<Rightarrow> settings_db \<Rightarrow> team_metrics list reply" where
  "GetTeamMetrics env who db = answer ''failed to get team metrics'' (TeamMetrics env (scopeFromRequest who) db)"

definition GetSLACompliance :: "metrics_env \<Rightarrow> claims option \<Rightarrow> settings_db \<Rightarrow> sla_compliance reply" where
  "GetSLACompliance env who db = answer ''failed to get SLA compliance'' (SLACompliance env (scopeFromRequest who) db)"

definition GetScannerHealth :: "metrics_env \<Rightarrow> settings_db \<Rightarrow> scanner_health list reply" where
  "GetScannerHealth env db = answer ''failed to get scanner health'' (ScannerHealth env db)"

definition GetSecurityScores :: "metrics_env \<Rightarrow> claims option \<Rightarrow> (string \<Rightarrow> string) \<Rightarrow> settings_db \<Rightarrow> security_score list reply" where
  "GetSecurityScores env who q db = answer ''failed to get security scores''
     (SecurityScores env (scopeFromRequest who) (if q ''project_id'' \<noteq> [] then Some (q ''project_id'') else None) db)"

section \<open>The messages\<close>

record digest_context =
  zd_TotalScans :: nat
  zd_TotalFindings :: nat
  zd_CriticalCount :: nat
  zd_HighCount :: nat
  zd_NewFindings :: nat
  zd_ResolvedFindings :: nat
  zd_SLACompliancePct :: rat
  zd_TopProjects :: "(string \<times> nat \<times> nat) list"
  zd_TopVulns :: "(string \<times> string \<times> string \<times> string) list"

definition line :: "string list \<Rightarrow> string" where
  "line parts = concat parts @ [newline]"

definition num :: "nat \<Rightarrow> string" where
  "num n = itoa (int n)"

definition pad_right :: "nat \<Rightarrow> string \<Rightarrow> string" where
  "pad_right w s = s @ replicate (w - length s) CHR '' ''"

definition long_dash :: string where "long_dash = [CHR 0xE2, CHR 0x80, CHR 0x94]"
definition en_dash :: string where "en_dash = [CHR 0xE2, CHR 0x80, CHR 0x93]"
definition left_arrow :: string where "left_arrow = [CHR 0xE2, CHR 0x86, CHR 0x90]"

definition digestSystemPrompt :: string where
  "digestSystemPrompt = ''You are a security executive assistant preparing a weekly digest for technical leadership. Write 3'' @ en_dash @
     ''5 sentences summarizing the week'' @ [CHR 0x27] @ ''s security scan results. Be professional and actionable. Highlight the most critical '' @
     ''findings first. Mention SLA compliance status. Use plain text '' @ long_dash @ '' no markdown, no formatting.''"

definition buildDigestPrompt :: "metrics_env \<Rightarrow> digest_context \<Rightarrow> string" where
  "buildDigestPrompt env dc =
     line [''Weekly security scan digest:'', [newline]] @
     line [''- Total scans: '', num (zd_TotalScans dc)] @
     line [''- Total findings: '', num (zd_TotalFindings dc)] @
     line [''- Critical findings: '', num (zd_CriticalCount dc)] @
     line [''- High findings: '', num (zd_HighCount dc)] @
     line [''- New findings this week: '', num (zd_NewFindings dc)] @
     line [''- Resolved findings this week: '', num (zd_ResolvedFindings dc)] @
     line [''- SLA compliance: '', mx_percent env (zd_SLACompliancePct dc), ''%''] @
     (if zd_TopProjects dc \<noteq> [] then [newline] @ line [''Top projects by finding count:''] @
        concat (map (\<lambda>(name, n, c). line [''  - '', name, '' ('', num n, '' findings, '', num c, '' critical)'']) (zd_TopProjects dc)) else []) @
     (if zd_TopVulns dc \<noteq> [] then [newline] @ line [''Top vulnerabilities:''] @
        concat (map (\<lambda>(title, sev, project, cve). line [''  - ['', sev, ''] '', title, '' (CVE: '', if cve = [] then ''N/A'' else cve, '') '',
          long_dash, '' '', project]) (zd_TopVulns dc)) else []) @
     [newline] @ ''Write 3'' @ en_dash @ ''5 sentences summarizing these weekly security scan results for an executive digest. '' @
     ''Be professional and actionable. Highlight the most critical findings first. Mention SLA compliance status.''"

definition GenerateDigestNarrative :: "metrics_env \<Rightarrow> digest_context \<Rightarrow> string" where
  "GenerateDigestNarrative env dc =
     (case GenerateSummary (mx_ai env) digestSystemPrompt (buildDigestPrompt env dc) of Inl e \<Rightarrow> [] | Inr n \<Rightarrow> trim_space n)"

definition rule_line :: "char \<Rightarrow> string" where
  "rule_line c = replicate 40 c"

definition severity_marker :: "string \<Rightarrow> nat \<Rightarrow> string" where
  "severity_marker sev n =
     (if sev = ''high'' \<and> n > 0 then '' '' @ left_arrow @ '' ATTENTION''
      else if sev = ''critical'' \<and> n > 0 then '' '' @ left_arrow @ '' URGENT'' else [])"

text \<open>The part that both messages share, from the summary of scans to the end.\<close>

definition point_total :: "trend_point \<Rightarrow> nat" where
  "point_total t = zt_Critical t + zt_High t + zt_Medium t + zt_Low t + zt_Info t"

definition metrics_sections ::
  "metrics_env \<Rightarrow> string \<Rightarrow> string \<Rightarrow> metrics_summary \<Rightarrow> trend_point list \<Rightarrow> sla_compliance option \<Rightarrow> string" where
  "metrics_sections env head trend_head s trends sla =
     line [head] @ line [rule_line CHR ''-''] @
     line [''  Total scans:     '', num (zs_TotalScans s)] @ line [''  Active scans:    '', num (zs_ActiveScans s)] @
     line [''  Total findings:  '', num (zs_TotalFindings s)] @ [newline] @
     line [''FINDINGS BY SEVERITY''] @ line [rule_line CHR ''-''] @
     concat (map (\<lambda>sev. let n = lookup_count (zs_FindingsBySeverity s) sev in
        line [''  '', pad_right 10 (to_upper sev @ '':''), '' '', pad_right 4 (num n), severity_marker sev n])
        [''critical'', ''high'', ''medium'', ''low'', ''info'']) @ [newline] @
     (case sla of None \<Rightarrow> [] | Some l \<Rightarrow>
        line [''SLA COMPLIANCE''] @ line [rule_line CHR ''-''] @
        line [''  Compliance:      '', mx_percent env (zl_Percent l), ''%''] @
        line [''  Overdue:         '', num (zl_Overdue l)] @ line [''  On time:         '', num (zl_OnTime l)] @ [newline]) @
     (if trends \<noteq> [] then line [trend_head] @ line [rule_line CHR ''-''] @
        concat (map (\<lambda>t. line [''  '', mx_day_text env (zt_Day t), '': '', num (point_total t), '' (C:'', num (zt_Critical t), '' H:'', num (zt_High t),
          '' M:'', num (zt_Medium t), '' L:'', num (zt_Low t), '' I:'', num (zt_Info t), '')'']) trends) @ [newline] else []) @
     (if mx_frontend env \<noteq> [] then line [''VIEW IN DASHBOARD''] @ line [rule_line CHR ''-''] @
        line [''  '', trim_right_cutset ''/'' (mx_frontend env), ''/dashboard''] @ [newline] else []) @
     line [long_dash, '' HenKaiPan Security Platform'']"

definition buildDigestBody :: "metrics_env \<Rightarrow> metrics_summary \<Rightarrow> trend_point list \<Rightarrow> sla_compliance option \<Rightarrow> string" where
  "buildDigestBody env s trends sla =
     line [''HenKaiPan Weekly Executive Digest''] @ line [rule_line CHR ''='', [newline]] @
     line [''Period: '', mx_short_date env (mx_now env - 7 * 86400), '' '', en_dash, '' '', mx_long_date env (mx_now env), [newline]] @
     metrics_sections env ''SCAN SUMMARY'' ''7-DAY TREND (new findings per day)'' s trends sla"

definition buildReportBody :: "metrics_env \<Rightarrow> metrics_summary \<Rightarrow> trend_point list \<Rightarrow> sla_compliance option \<Rightarrow> string" where
  "buildReportBody env s trends sla =
     line [''HenKaiPan Security Report''] @ line [rule_line CHR ''='', [newline]] @
     line [''Report date: '', mx_long_date env (mx_now env), [newline]] @
     metrics_sections env ''SECURITY SCORES'' ''7-DAY FINDING TREND'' s trends sla"

definition week_trends :: "metrics_env \<Rightarrow> settings_db \<Rightarrow> trend_point list" where
  "week_trends env db = (case Trends env Admin 7 db of Inl e \<Rightarrow> [] | Inr ts \<Rightarrow> ts)"

definition digest_context_of :: "metrics_env \<Rightarrow> settings_db \<Rightarrow> digest_context" where
  "digest_context_of env db =
     (let s = Summary env Admin db in
      \<lparr>zd_TotalScans = zs_TotalScans s, zd_TotalFindings = zs_TotalFindings s,
       zd_CriticalCount = lookup_count (zs_FindingsBySeverity s) ''critical'', zd_HighCount = lookup_count (zs_FindingsBySeverity s) ''high'',
       zd_NewFindings = sum_list (map point_total (week_trends env db)), zd_ResolvedFindings = 0,
       zd_SLACompliancePct = (case SLACompliance env Admin db of Inl e \<Rightarrow> 0 | Inr l \<Rightarrow> zl_Percent l),
       zd_TopProjects = [], zd_TopVulns = []\<rparr>)"

definition message_body :: "metrics_env \<Rightarrow> (metrics_summary \<Rightarrow> trend_point list \<Rightarrow> sla_compliance option \<Rightarrow> string) \<Rightarrow> settings_db \<Rightarrow> string" where
  "message_body env build db =
     (let narrative = GenerateDigestNarrative env (digest_context_of env db);
          body = build (Summary env Admin db) (week_trends env db) (optional (SLACompliance env Admin db))
      in if narrative \<noteq> [] then narrative @ [newline, newline] @ ''---'' @ [newline, newline] @ body else body)"

text \<open>The task handlers: the error, and what is handed to the sender.\<close>

type_synonym mail = "string list \<times> string \<times> string"

definition send_mail :: "metrics_env \<Rightarrow> mail \<Rightarrow> string option \<times> mail list" where
  "send_mail env m = (case m of (to, subject, body) \<Rightarrow> (Send (mx_smtp env) (mx_mail env) to subject body, [m]))"

definition HandleDigestSend :: "metrics_env \<Rightarrow> string + string list \<Rightarrow> settings_db \<Rightarrow> string option \<times> mail list" where
  "HandleDigestSend env payload db =
     (case payload of
        Inl e \<Rightarrow> (Some (''unmarshal digest payload: '' @ e), [])
      | Inr addresses \<Rightarrow>
        if addresses = [] then (None, [])
        else send_mail env (addresses, ''HenKaiPan Weekly Digest '' @ long_dash @ '' '' @ mx_short_date env (mx_now env),
          message_body env (buildDigestBody env) db))"

definition HandleReportSend :: "metrics_env \<Rightarrow> string + string \<Rightarrow> settings_db \<Rightarrow> (string option \<times> mail list) \<times> settings_db" where
  "HandleReportSend env payload db =
     (case payload of
        Inl e \<Rightarrow> ((Some (''unmarshal report payload: '' @ e), []), db)
      | Inr channel \<Rightarrow>
        (case GetNotificationSettings (mx_settings env) db of
           (Inl e, db1) \<Rightarrow> ((Some (''get notification settings: '' @ e), []), db1)
         | (Inr s, db1) \<Rightarrow>
           (let period = (if no_ReportSchedule s = ''weekly'' then ''Weekly'' else ''Daily'');
                subject = ''HenKaiPan '' @ period @ '' Security Report '' @ long_dash @ '' '' @ mx_long_date env (mx_now env);
                channel = (if channel = [] then ''email'' else channel)
            in (if channel = ''email'' then
                  (if no_EmailRecipients s = [] then (None, [])
                   else send_mail env (no_EmailRecipients s, subject, message_body env (buildReportBody env) db1))
                else if channel = ''slack'' then (None, [])
                else (Some (''unsupported report channel: '' @ channel), []), db1))))"

section \<open>Schedules\<close>

text \<open>Local time: the day, the second of the day, the weekday from Sunday.  The first of January 1970 was
  a Thursday.\<close>

definition second_of :: "int \<Rightarrow> int" where
  "second_of t = t mod 86400"

definition weekday :: "int \<Rightarrow> int" where
  "weekday t = (day_of t + 4) mod 7"

definition clock :: "int \<Rightarrow> int \<Rightarrow> int \<Rightarrow> int" where
  "clock d hour minute = d * 86400 + hour * 3600 + minute * 60"

definition days_until_monday :: "int \<Rightarrow> int" where
  "days_until_monday t = (let d = (8 - weekday t) mod 7 in if d = 0 then 7 else d)"

definition nextMonday9am :: "int \<Rightarrow> int" where
  "nextMonday9am t = clock (day_of t + days_until_monday t) 9 0"

text \<open>The \<^verbatim>\<open>atoi\<close> of \<^verbatim>\<open>report.go\<close>, which wraps around in 64 bits.\<close>

fun report_atoi :: "int \<Rightarrow> string \<Rightarrow> int \<Rightarrow> int" where
  "report_atoi n [] fallback = n"
| "report_atoi n (c # s) fallback =
     (if is_digit c then report_atoi (go_int64 (n * 10 + int (digit_val c))) s fallback else fallback)"

definition report_clock :: "string \<Rightarrow> int \<times> int" where
  "report_clock reportTime = (case cut reportTime '':'' of None \<Rightarrow> (9, 0) | Some (h, m) \<Rightarrow> (report_atoi 0 h 9, report_atoi 0 m 0))"

definition nextReportTime :: "int \<Rightarrow> string \<Rightarrow> string \<Rightarrow> int" where
  "nextReportTime t schedule reportTime =
     (let (hour, minute) = report_clock reportTime; today = clock (day_of t) hour minute in
      if schedule = ''daily'' then (if \<not> t > today then today else today + 86400)
      else if schedule = ''weekly'' then
        (if weekday t = 1 \<and> second_of t div 3600 < hour \<and> \<not> t > today then today
         else clock (day_of t + days_until_monday t) hour minute)
      else t + 900)"

text \<open>One round of the loop of the scheduler: how long it waits, and whether it enqueues then.\<close>

definition report_round :: "metrics_env \<Rightarrow> int \<Rightarrow> settings_db \<Rightarrow> (int \<times> bool) \<times> settings_db" where
  "report_round env now db =
     (case GetNotificationSettings (mx_settings env) db of
        (Inl e, db1) \<Rightarrow> ((300, False), db1)
      | (Inr s, db1) \<Rightarrow>
        if no_ReportSchedule s = ''disabled'' then ((900, False), db1)
        else ((nextReportTime now (no_ReportSchedule s) (no_ReportTime s) - now, True), db1))"

definition push :: "metrics_env \<Rightarrow> task \<Rightarrow> settings_db \<Rightarrow> settings_db" where
  "push env t db = set_queue (enqueue (ax_accept (co_access (vn_collab (xe_view (mx_settings env))))) t 3 120
     (it_queue (xs_intake (vb_access (xd_views db))))) db"

definition enqueueReport :: "metrics_env \<Rightarrow> settings_db \<Rightarrow> settings_db" where
  "enqueueReport env db =
     (case GetNotificationSettings (mx_settings env) db of
        (Inl e, db1) \<Rightarrow> db1
      | (Inr s, db1) \<Rightarrow> push env (ReportSend (if no_ReportChannel s = [] then ''email'' else no_ReportChannel s)) db1)"

definition enqueueDigest :: "metrics_env \<Rightarrow> settings_db \<Rightarrow> settings_db" where
  "enqueueDigest env db =
     (case GetNotificationSettings (mx_settings env) db of
        (Inl e, db1) \<Rightarrow> db1
      | (Inr s, db1) \<Rightarrow> if no_EmailRecipients s = [] then db1 else push env (DigestSend (no_EmailRecipients s)) db1)"

section \<open>Lemmas\<close>

lemma left_join_Nil [simp]: "left_join on [] ys = []"
  by (simp add: left_join_def)

lemma left_join_match: "x \<in> set xs \<Longrightarrow> y \<in> set ys \<Longrightarrow> on x y \<Longrightarrow> (x, Some y) \<in> set (left_join on xs ys)"
proof -
  assume x: "x \<in> set xs" and "y \<in> set ys" "on x y"
  then have y: "y \<in> set (filter (on x) ys)" by simp
  then obtain z zs where f: "filter (on x) ys = z # zs" by (cases "filter (on x) ys") auto
  have "(x, Some y) \<in> set (case filter (on x) ys of [] \<Rightarrow> [(x, None)] | zs \<Rightarrow> map (\<lambda>z. (x, Some z)) zs)"
    using y unfolding f by auto
  then show ?thesis using x unfolding left_join_def set_concat set_map by blast
qed

lemma left_join_keeps: "x \<in> set xs \<Longrightarrow> \<exists>y. (x, y) \<in> set (left_join on xs ys)"
proof (cases "filter (on x) ys")
  case Nil
  assume "x \<in> set xs"
  moreover have "(x, None) \<in> set (case filter (on x) ys of [] \<Rightarrow> [(x, None)] | zs \<Rightarrow> map (\<lambda>z. (x, Some z)) zs)"
    unfolding Nil by simp
  ultimately show ?thesis unfolding left_join_def set_concat set_map by blast
next
  case (Cons z zs)
  assume x: "x \<in> set xs"
  have "z \<in> set (filter (on x) ys)" unfolding Cons by simp
  then have z: "z \<in> set ys" "on x z" by simp_all
  show ?thesis by (rule exI) (rule left_join_match [of x xs z ys on, OF x z])
qed

lemma left_join_none: "(\<And>y. y \<in> set ys \<Longrightarrow> \<not> on x y) \<Longrightarrow> left_join on [x] ys = [(x, None)]"
  by (simp add: left_join_def filter_empty_conv)

lemma length_filter_partition:
  assumes "\<And>x. x \<in> set xs \<Longrightarrow> P x \<longleftrightarrow> Q x \<or> R x" "\<And>x. x \<in> set xs \<Longrightarrow> \<not> (Q x \<and> R x)"
  shows "length (filter P xs) = length (filter Q xs) + length (filter R xs)"
  using assms by (induction xs) auto

lemma sum_by_key:
  "(\<Sum>k \<leftarrow> ks. length (filter (\<lambda>x. key x = k \<and> P x) xs)) = length (filter P xs)"
  if "distinct ks" "\<And>x. x \<in> set xs \<Longrightarrow> P x \<Longrightarrow> key x \<in> set ks"
  using that(2)
proof (induction xs)
  case (Cons x xs)
  have one: "(\<Sum>k \<leftarrow> ks. if key x = k \<and> P x then 1 else 0) = (if P x then 1 else 0 :: nat)"
    using that(1) Cons.prems [of x] by (induction ks) auto
  have "(\<Sum>k \<leftarrow> ks. length (filter (\<lambda>x. key x = k \<and> P x) (x # xs))) =
      (\<Sum>k \<leftarrow> ks. (if key x = k \<and> P x then 1 else 0) + length (filter (\<lambda>x. key x = k \<and> P x) xs))"
    by (intro arg_cong [of _ _ sum_list] map_cong) auto
  also have "\<dots> = (if P x then 1 else 0) + length (filter P xs)"
    using Cons by (simp add: sum_list_addf one)
  finally show ?case by simp
qed simp

definition known_severity :: "finding \<Rightarrow> bool" where
  "known_severity f \<longleftrightarrow> fd_Severity f \<in> {''critical'', ''high'', ''medium'', ''low'', ''info''}"

lemma point_total_of: "point_total (trend_point_of d fs) = length (filter known_severity fs)"
  by (induction fs) (auto simp: point_total_def trend_point_of_def known_severity_def Let_def)

section \<open>Properties\<close>

text \<open>The points of the trend add up to the findings of the time span: each finding of a known severity
  that was created in it is counted once, on one day.\<close>

theorem trends_count:
  assumes "1 \<le> days" "days \<le> 365" "mx_fail env ''metrics.Trends'' = None"
  shows "map_sum id (\<lambda>ts. sum_list (map point_total ts)) (Trends env sco days db) =
    Inr (length (filter known_severity (window env sco days db)))"
proof -
  let ?fs = "window env sco days db" and ?key = "\<lambda>f. day_of (fd_CreatedAt f)"
  have "(\<Sum>d \<leftarrow> sort (remdups (map ?key ?fs)). length (filter (\<lambda>f. ?key f = d \<and> known_severity f) ?fs)) = length (filter known_severity ?fs)"
    by (rule sum_by_key) auto
  moreover have "filter known_severity (filter (\<lambda>f. ?key f = d) ?fs) = filter (\<lambda>f. ?key f = d \<and> known_severity f) ?fs" for d
    by (simp add: conj_commute)
  ultimately show ?thesis using assms by (simp add: Trends_def Let_def o_def point_total_of)
qed

text \<open>The counts by severity of the summary add up to its number of findings.\<close>

theorem summary_adds_up:
  assumes "mx_fail env = (\<lambda>_. None)"
  shows "sum_list (map snd (zs_FindingsBySeverity (Summary env sco db))) = zs_TotalFindings (Summary env sco db)"
proof -
  let ?xs = "map fd_Severity (findings_of sco db)"
  have "(\<Sum>k \<leftarrow> remdups ?xs. length (filter (\<lambda>x. x = k \<and> True) ?xs)) = length (filter (\<lambda>_. True) ?xs)"
    by (rule sum_by_key) auto
  then have "sum_list (map snd (count_by ?xs)) = length ?xs"
    by (simp add: count_by_def o_def count_list_eq_length_filter eq_commute)
  then show ?thesis using assms by (simp add: Summary_def or_zero_def or_empty_def)
qed

text \<open>A finding with a deadline is on time or overdue and never both, so the two counts add up to the
  total and the percentage lies between 0 and 100.\<close>

theorem sla_partition:
  assumes "SLACompliance env sco db = Inr l"
  shows "zl_Total l = zl_OnTime l + zl_Overdue l \<and> 0 \<le> zl_Percent l \<and> zl_Percent l \<le> 100"
proof -
  let ?fs = "findings_of sco db"
  have "length (filter (\<lambda>f. fd_SLADeadline f \<noteq> None) ?fs) = length (filter (on_time (mx_now env)) ?fs) + length (filter (overdue (mx_now env)) ?fs)"
    by (rule length_filter_partition) (auto simp: on_time_def overdue_def live_def split: option.splits)
  then have eq: "zl_Total l = zl_OnTime l + zl_Overdue l"
    and p: "zl_Percent l = (if zl_Total l > 0 then of_nat (zl_OnTime l) / of_nat (zl_Total l) * 100 else 0)"
    using assms by (auto simp: SLACompliance_def with_deadline_def Let_def split: option.splits)
  have "zl_OnTime l \<le> zl_Total l" by (simp add: eq)
  then show ?thesis by (auto simp: eq p divide_simps)
qed

text \<open>The score of a project lies between 0 and 100, and more findings never raise it.\<close>

theorem security_score_monotone:
  assumes "c \<le> c'" "h \<le> h'" "m \<le> m'" "l \<le> l'"
  shows "0 \<le> fst (computeSecurityGrade now c' h' m' l' t) \<and>
    fst (computeSecurityGrade now c' h' m' l' t) \<le> fst (computeSecurityGrade now c h m l t) \<and>
    fst (computeSecurityGrade now c h m l t) \<le> 100"
proof -
  have "100 - int c' * 15 - int h' * 5 - int m' * 2 - int l' \<le> 100 - int c * 15 - int h * 5 - int m * 2 - int l" using assms by linarith
  moreover have "100 - int c * 15 - int h * 5 - int m * 2 - int l \<le> 100" by linarith
  ultimately show ?thesis by (cases t) (auto simp: computeSecurityGrade_def Let_def)
qed

lemma weekday_shift: "weekday (clock (day_of t + n) h m) = (weekday t + n) mod 7" if "0 \<le> h" "h < 24" "0 \<le> m" "m < 60"
proof -
  have "day_of (clock (day_of t + n) h m) = day_of t + n" using that by (simp add: day_of_def clock_def)
  then show ?thesis by (simp add: weekday_def mod_simps algebra_simps)
qed

lemma monday_ahead: "1 \<le> days_until_monday t \<and> days_until_monday t \<le> 7 \<and> (weekday t + days_until_monday t) mod 7 = 1"
proof -
  have w: "0 \<le> weekday t" "weekday t < 7" by (simp_all add: weekday_def)
  then have "weekday t \<in> {0, 1, 2, 3, 4, 5, 6}" by auto
  then show ?thesis by (auto simp: days_until_monday_def)
qed

lemma day_bounds: "day_of t * 86400 \<le> t \<and> t < day_of t * 86400 + 86400"
  using div_mult_mod_eq [of t 86400] pos_mod_bound [of 86400 t] pos_mod_sign [of 86400 t] unfolding day_of_def by linarith

text \<open>The weekly digest is due on a Monday at nine, later than now, and at most seven days and nine hours
  away.  On a Monday before nine that is the Monday after.\<close>

theorem digest_monday:
  "weekday (nextMonday9am t) = 1 \<and> second_of (nextMonday9am t) = 9 * 3600 \<and> t < nextMonday9am t \<and>
   nextMonday9am t \<le> t + 7 * 86400 + 9 * 3600"
proof (intro conjI)
  show "weekday (nextMonday9am t) = 1" using weekday_shift [of 9 0 t "days_until_monday t"] monday_ahead [of t] by (simp add: nextMonday9am_def)
  have "nextMonday9am t = 32400 + (day_of t + days_until_monday t) * 86400" by (simp add: nextMonday9am_def clock_def)
  then show "second_of (nextMonday9am t) = 9 * 3600" unfolding second_of_def by (simp only: mod_mult_self1) simp
  have "nextMonday9am t = day_of t * 86400 + days_until_monday t * 86400 + 32400" by (simp add: nextMonday9am_def clock_def algebra_simps)
  then show "t < nextMonday9am t" "nextMonday9am t \<le> t + 7 * 86400 + 9 * 3600" using day_bounds [of t] monday_ahead [of t] by linarith+
qed

text \<open>A daily report is due at its time of the day, not before now and within a day.\<close>

theorem daily_report:
  assumes "report_clock reportTime = (h, m)" "0 \<le> h" "h < 24" "0 \<le> m" "m < 60"
  shows "second_of (nextReportTime t ''daily'' reportTime) = h * 3600 + m * 60 \<and> t \<le> nextReportTime t ''daily'' reportTime \<and>
    nextReportTime t ''daily'' reportTime < t + 86400"
proof -
  let ?today = "clock (day_of t) h m"
  have n: "nextReportTime t ''daily'' reportTime = (if \<not> t > ?today then ?today else ?today + 86400)"
    by (simp add: nextReportTime_def assms(1) Let_def)
  have c: "?today = day_of t * 86400 + (h * 3600 + m * 60)" by (simp add: clock_def)
  have b: "0 \<le> h * 3600 + m * 60" "h * 3600 + m * 60 < 86400" using assms by linarith+
  then have "second_of ?today = h * 3600 + m * 60" "second_of (?today + 86400) = h * 3600 + m * 60" unfolding c second_of_def by simp_all
  then show ?thesis using n c b day_bounds [of t] by auto
qed

text \<open>On a Monday within the hour of a weekly report but before its minute, the report of that day is
  left out: the next is due a week later.\<close>

theorem weekly_report_skipped:
  assumes "report_clock reportTime = (h, m)" "0 \<le> h" "h < 24" "0 \<le> m" "m < 60"
    and "weekday t = 1" "second_of t div 3600 = h" "t < clock (day_of t) h m"
  shows "nextReportTime t ''weekly'' reportTime = clock (day_of t) h m + 7 * 86400"
proof -
  have "days_until_monday t = 7" by (simp add: days_until_monday_def assms(6))
  then show ?thesis by (simp add: nextReportTime_def assms(1,6,7) clock_def Let_def)
qed

text \<open>A report schedule that is no known word makes the scheduler send a report every fifteen minutes.\<close>

theorem unknown_schedule_floods:
  assumes "xd_settings db = Some s" "no_ReportSchedule s \<notin> {''disabled'', ''daily'', ''weekly''}"
    and "xe_fail (mx_settings env) ''settings.Get'' = None"
  shows "fst (report_round env now db) = (900, True)"
  using assms by (simp add: report_round_def GetNotificationSettings_def nextReportTime_def Let_def split: prod.split)

text \<open>A report whose channel is Slack is sent to nobody, and the task succeeds.\<close>

theorem slack_report_silent:
  assumes "xe_fail (mx_settings env) = (\<lambda>_. None)"
  shows "fst (HandleReportSend env (Inr ''slack'') db) = (None, [])"
  using assms by (auto simp: HandleReportSend_def GetNotificationSettings_def initDefaultNotificationSettings_def split: option.split)

lemma standalone_join:
  assumes "\<And>a. a \<in> set (tn_apps (md_tenant db)) \<Longrightarrow> aw_TeamID a \<noteq> Some (te_ID t)"
  shows "team_apps db t = [(t, None)]"
  unfolding team_apps_def by (rule left_join_none) (use assms in simp)

lemma some_rows_match: "x \<in> set xs \<Longrightarrow> y \<in> set ys \<Longrightarrow> on x y \<Longrightarrow> y \<in> set (some_rows (left_join on xs ys))"
  using left_join_match [of x xs y ys on] by (force simp: some_rows_def)

text \<open>A team without applications is charged with the findings of every project that belongs to no
  application.\<close>

theorem standalone_charged:
  assumes "\<And>a. a \<in> set (tn_apps (md_tenant db)) \<Longrightarrow> aw_TeamID a \<noteq> Some (te_ID t)"
    and "p \<in> set (tn_projects (md_tenant db))" "pw_AppID p = None"
    and "s \<in> set (tn_scans (md_tenant db))" "sn_Project s = Some (pw_ID p)" "sn_Status s = ''completed''"
    and "f \<in> set (md_findings db)" "fd_ScanID f = sn_ID s" "fd_Severity f = ''critical''" "live f"
  shows "zm_Critical (team_row_metrics env db t) > 0"
proof -
  have ta: "team_apps db t = [(t, None)]" by (rule standalone_join) (rule assms(1))
  have "((t, None), Some p) \<in> set (team_projects db t)"
    unfolding team_projects_def ta by (rule left_join_match) (use assms in auto)
  then have "(((t, None), Some p), Some s) \<in> set (team_scans db t)"
    unfolding team_scans_def by (rule left_join_match) (use assms in auto)
  then have "f \<in> set (team_findings db t)"
    unfolding team_findings_def by (rule some_rows_match) (use assms in auto)
  then have "filter (\<lambda>f. fd_Severity f = ''critical'' \<and> live f) (team_findings db t) \<noteq> []"
    using assms(9,10) by (auto simp: filter_empty_conv)
  then show ?thesis by (simp add: team_row_metrics_def live_count_def Let_def)
qed

text \<open>C40: The risk scores of a viewer name every project that has the repository of one of the own scans,
  whichever team it belongs to.\<close>

theorem risk_scores_leak:
  assumes "mx_fail env = (\<lambda>_. None)" "s \<in> set (scans_of sco db)"
    and "p \<in> set (tn_projects (md_tenant db))" "pw_RepoURL p = Some (sn_Target s)"
  shows "\<exists>scores. RiskScores env sco db = Inr scores \<and> (\<exists>r \<in> set scores. zr_ProjectID r = pw_ID p \<and> zr_ProjectName r = pw_Name p)"
proof -
  have "(s, Some p) \<in> set (risk_projects sco db)" unfolding risk_projects_def by (rule left_join_match) (use assms in auto)
  then obtain a where "((s, Some p), a) \<in> set (risk_apps sco db)" unfolding risk_apps_def using left_join_keeps by fast
  then obtain f where f: "(((s, Some p), a), f) \<in> set (risk_rows sco db)" unfolding risk_rows_def using left_join_keeps by fast
  let ?k = "risk_key (((s, Some p), a), f)"
  have "zr_ProjectID (risk_of ?k fs) = pw_ID p \<and> zr_ProjectName (risk_of ?k fs) = pw_Name p" for fs
    by (simp add: risk_key_def risk_of_def)
  moreover have "?k \<in> set (remdups (map risk_key (risk_rows sco db)))" using f by force
  moreover define scores where "scores = map (\<lambda>k. risk_of k (some_rows (filter (\<lambda>r. risk_key r = k) (risk_rows sco db))))
      (remdups (map risk_key (risk_rows sco db)))"
  ultimately have "\<exists>r \<in> set scores. zr_ProjectID r = pw_ID p \<and> zr_ProjectName r = pw_Name p"
    unfolding scores_def set_map by blast
  moreover have "RiskScores env sco db = Inr (sort_key (\<lambda>r. - int (zr_Score r)) scores)"
    by (simp add: RiskScores_def scores_def assms(1) Let_def)
  ultimately show ?thesis by (intro exI conjI) (assumption, simp)
qed

section \<open>Instances\<close>

definition sample_metrics :: metrics_env where
  "sample_metrics = \<lparr>mx_settings = sample_settings, mx_ai = sample_ai, mx_smtp = (\<lambda>_ _ _ _ _. None),
     mx_mail = \<lparr>ec_Host = ''m'', ec_Port = ''25'', ec_Username = [], ec_Password = [], ec_From = ''a@h.x'', ec_Enabled = True\<rparr>,
     mx_frontend = ''https://h.x'', mx_day_text = itoa, mx_short_date = itoa, mx_long_date = itoa, mx_percent = (\<lambda>x. itoa \<lfloor>x\<rfloor>)\<rparr>"

text \<open>A project of no application, with a critical finding, and two teams, one without applications.\<close>

definition sample_loose_project :: project_row where
  "sample_loose_project = sample_project\<lparr>pw_ID := ''p9'', pw_AppID := None\<rparr>"

definition sample_loose_scan :: scan_row where
  "sample_loose_scan = \<lparr>sn_ID = ''s9'', sn_Target = ''https://github.com/o/web'', sn_Scanner = ''grype'', sn_Status = ''completed'', sn_Batch = ''b9'',
     sn_Project = Some ''p9'', sn_Error = None, sn_Log = None, sn_Started = Some 0, sn_Completed = Some 9\<rparr>"

definition sample_critical :: finding where
  "sample_critical = (sample_stored ''f9'')\<lparr>fd_ScanID := ''s9'', fd_Severity := ''critical''\<rparr>"

definition sample_idle_team :: team_row where
  "sample_idle_team = \<lparr>te_ID = ''t2'', te_Name = ''idle''\<rparr>"

definition sample_metrics_db :: settings_db where
  "sample_metrics_db = sample_settings_db\<lparr>xd_settings := Some ((default_settings 0)\<lparr>no_ReportSchedule := ''monthly''\<rparr>), xd_views := sample_view_state\<lparr>
     vb_agents := sample_agent_state\<lparr>ag_findings := [sample_stored ''f1'', sample_critical]\<rparr>,
     vb_collab := (vb_collab sample_view_state)\<lparr>cb_access := (vb_access sample_view_state)\<lparr>xs_intake := (xs_intake (vb_access sample_view_state))\<lparr>
       it_projects := [sample_project, sample_loose_project], it_scans := tn_scans sample_tenant @ [sample_loose_scan]\<rparr>\<rparr>\<rparr>\<rparr>\<rparr>"

lemma sample_metrics_fail [simp]: "mx_fail sample_metrics = (\<lambda>_. None)" "xe_fail (mx_settings sample_metrics) = (\<lambda>_. None)"
  by (simp_all add: sample_metrics_def sample_settings_fail)

theorem trends_count_witness:
  "map_sum id (\<lambda>ts. sum_list (map point_total ts)) (Trends sample_metrics Admin 7 sample_metrics_db) = Inr 2"
proof -
  have "length (filter known_severity (window sample_metrics Admin 7 sample_metrics_db)) = 2" by code_simp
  then show ?thesis using trends_count [of 7 sample_metrics Admin sample_metrics_db] by simp
qed

theorem summary_adds_up_witness:
  "sum_list (map snd (zs_FindingsBySeverity (Summary sample_metrics Admin sample_metrics_db))) = 2"
proof -
  have "zs_TotalFindings (Summary sample_metrics Admin sample_metrics_db) = 2" by code_simp
  then show ?thesis using summary_adds_up [of sample_metrics Admin sample_metrics_db] by simp
qed

theorem sla_partition_witness:
  "\<exists>l. SLACompliance sample_metrics Admin sample_metrics_db = Inr l \<and> zl_Total l = 2 \<and> zl_OnTime l + zl_Overdue l = 2"
proof -
  obtain l where l: "SLACompliance sample_metrics Admin sample_metrics_db = Inr l" by (simp add: SLACompliance_def Let_def)
  have "map_sum id zl_Total (SLACompliance sample_metrics Admin sample_metrics_db) = Inr 2" by code_simp
  then show ?thesis using sla_partition [OF l] by (simp add: l)
qed

theorem security_score_monotone_witness:
  "fst (computeSecurityGrade 0 7 2 0 1 (Some 0)) \<le> fst (computeSecurityGrade 0 1 0 0 0 (Some 0))"
  using security_score_monotone [of 1 7 0 2 0 0 0 1 0 "Some 0"] by simp

theorem daily_report_witness:
  "second_of (nextReportTime 100000 ''daily'' ''18:30'') = 18 * 3600 + 30 * 60"
proof -
  have "report_clock ''18:30'' = (18, 30)" by code_simp
  then show ?thesis using daily_report [of "''18:30''" 18 30 100000] by simp
qed

theorem weekly_report_skipped_witness:
  "nextReportTime (4 * 86400 + 9 * 3600 + 600) ''weekly'' ''09:30'' = clock 4 9 30 + 7 * 86400"
proof -
  have c: "report_clock ''09:30'' = (9, 30)" by code_simp
  have d: "day_of (4 * 86400 + 9 * 3600 + 600) = 4" "weekday (4 * 86400 + 9 * 3600 + 600) = 1"
    "second_of (4 * 86400 + 9 * 3600 + 600) div 3600 = 9" by (simp_all add: day_of_def weekday_def second_of_def)
  show ?thesis using weekly_report_skipped [OF c, of "4 * 86400 + 9 * 3600 + 600"] d by (simp add: clock_def)
qed

theorem unknown_schedule_floods_witness:
  "fst (report_round sample_metrics 5 sample_metrics_db) = (900, True)"
  by (rule unknown_schedule_floods [of _ "(default_settings 0)\<lparr>no_ReportSchedule := ''monthly''\<rparr>"]) (simp_all add: sample_metrics_db_def)

theorem slack_report_silent_witness:
  "fst (HandleReportSend sample_metrics (Inr ''slack'') sample_metrics_db) = (None, [])"
  by (rule slack_report_silent) simp

lemma sample_metrics_rows:
  "tn_projects (md_tenant sample_metrics_db) = [sample_project, sample_loose_project]"
  "tn_scans (md_tenant sample_metrics_db) = tn_scans sample_tenant @ [sample_loose_scan]"
  "md_findings sample_metrics_db = [sample_stored ''f1'', sample_critical]"
  "tn_apps (md_tenant sample_metrics_db) = tn_apps sample_tenant"
  by (simp_all add: sample_metrics_db_def tenant_of_def sample_view_state_def)

theorem standalone_charged_witness:
  "zm_Critical (team_row_metrics sample_metrics sample_metrics_db sample_idle_team) > 0"
proof (rule standalone_charged [of _ _ sample_loose_project sample_loose_scan sample_critical])
  show "aw_TeamID a \<noteq> Some (te_ID sample_idle_team)" if "a \<in> set (tn_apps (md_tenant sample_metrics_db))" for a
    using that by (auto simp: sample_metrics_rows sample_tenant_def sample_idle_team_def)
  show "live sample_critical" by (simp add: live_def closed_statuses_def sample_critical_def sample_stored_def new_finding_def)
qed (simp_all add: sample_metrics_rows sample_loose_project_def sample_loose_scan_def sample_critical_def)

theorem risk_scores_leak_witness:
  "\<exists>scores. RiskScores sample_metrics (ForUser ''u1'') sample_metrics_db = Inr scores \<and> (\<exists>r \<in> set scores. zr_ProjectID r = ''p9'') \<and>
     \<not> project_in_scope sample_metrics_db (ForUser ''u1'') sample_loose_project"
proof -
  let ?s = "hd (tn_scans sample_tenant)"
  have "map sn_ID (scans_of (ForUser ''u1'') sample_metrics_db) = [''s1'']" "\<not> project_in_scope sample_metrics_db (ForUser ''u1'') sample_loose_project"
    by code_simp+
  moreover have "set (scans_of (ForUser ''u1'') sample_metrics_db) \<subseteq> {?s, sample_loose_scan}"
    by (auto simp: scans_of_def sample_metrics_rows sample_tenant_def Scan_Insert_def)
  ultimately have "?s \<in> set (scans_of (ForUser ''u1'') sample_metrics_db)"
    by (cases "scans_of (ForUser ''u1'') sample_metrics_db") (auto simp: sample_loose_scan_def)
  moreover have "pw_RepoURL sample_loose_project = Some (sn_Target ?s)" by code_simp
  moreover have "sample_loose_project \<in> set (tn_projects (md_tenant sample_metrics_db))" by (simp add: sample_metrics_rows)
  ultimately have "\<exists>scores. RiskScores sample_metrics (ForUser ''u1'') sample_metrics_db = Inr scores \<and>
      (\<exists>r \<in> set scores. zr_ProjectID r = pw_ID sample_loose_project \<and> zr_ProjectName r = pw_Name sample_loose_project)"
    by (intro risk_scores_leak) simp_all
  moreover have "pw_ID sample_loose_project = ''p9''" by (simp add: sample_loose_project_def)
  ultimately show ?thesis using \<open>\<not> project_in_scope sample_metrics_db (ForUser ''u1'') sample_loose_project\<close> by auto
qed

end
