(* ===== verification/Vuln_View.thy ===== *)
theory Vuln_View
  imports Api_Routes Metrics_Report Threat_Store Vuln_Store "HOL-Library.AList"
begin

text \<open>
  What users see of the vulnerabilities and of the exposures to published threats: the queries of
  \<^verbatim>\<open>src/internal/repository/vulnerability_new.go\<close> and \<^verbatim>\<open>repository/threats.go\<close> and the handlers
  \<^verbatim>\<open>handlers/vulnerabilities.go\<close> and \<^verbatim>\<open>handlers/threats.go\<close>.  Rows that agree in the sort columns come
  in the order of the table.
\<close>

section \<open>State and environment\<close>

text \<open>A row of \<^verbatim>\<open>project_inventory_hits\<close> with the columns its own project does not need.\<close>

record inventory_hit =
  ih_ID :: string
  ih_ProjectID :: string
  ih_Row :: hit_row
  ih_CreatedAt :: int

record inventory_state =
  iv_views :: view_state
  iv_vulns :: "vuln_row list"
  iv_advisories :: "advisory_row list"
  iv_hits :: "inventory_hit list"

text \<open>\<open>vw_time\<close> reads the time of publication of an advisory.\<close>

record vuln_view_env =
  vw_view :: view_env
  vw_time :: "string \<Rightarrow> int"

abbreviation "vw_fail env \<equiv> vn_fail (vw_view env)"
abbreviation "vw_now env \<equiv> vn_now (vw_view env)"
abbreviation "vw_uuid env \<equiv> co_uuid_ok (vn_collab (vw_view env))"
abbreviation "iv_tenant db \<equiv> tenant_of (iv_views db)"

record vuln_filter =
  vf_ProjectID :: string
  vf_Severities :: "string list"
  vf_EngineType :: string
  vf_Status :: string
  vf_Search :: string
  vf_OnlyOpen :: bool
  vf_Page :: int
  vf_Limit :: int
  vf_SortBy :: string
  vf_UserID :: scope

section \<open>The list of vulnerabilities\<close>

definition Normalize_params :: "int \<Rightarrow> int \<Rightarrow> int \<Rightarrow> int \<Rightarrow> int \<times> int" where
  "Normalize_params page limit defaultLimit maxLimit =
     (if page < 1 then 1 else page, if limit < 1 \<or> maxLimit < limit then defaultLimit else limit)"

definition vuln_visible :: "inventory_state \<Rightarrow> scope \<Rightarrow> vuln_row \<Rightarrow> bool" where
  "vuln_visible db sco v \<longleftrightarrow> (case sco of None \<Rightarrow> True | Some u \<Rightarrow> project_join (iv_tenant db) u (Some (vr_ProjectID v)) \<noteq> [])"

definition vuln_found :: "string \<Rightarrow> vuln_row \<Rightarrow> bool" where
  "vuln_found s v \<longleftrightarrow> (let p = percent # s @ [percent] in
     ilike (vr_Title v) p \<or> ilike (vr_CVEID v) p \<or> ilike (vr_RuleID v) p \<or> ilike (vr_PkgName v) p)"

definition vuln_matches :: "inventory_state \<Rightarrow> vuln_filter \<Rightarrow> vuln_row \<Rightarrow> bool" where
  "vuln_matches db f v \<longleftrightarrow>
     (vf_ProjectID f = [] \<or> vr_ProjectID v = vf_ProjectID f) \<and>
     (vf_Severities f = [] \<or> vr_Severity v \<in> set (vf_Severities f)) \<and>
     (vf_EngineType f = [] \<or> vr_EngineType v = vf_EngineType f) \<and>
     (vf_Status f = [] \<or> vr_Status v = vf_Status f) \<and>
     (vf_Search f = [] \<or> vuln_found (vf_Search f) v) \<and>
     (vf_OnlyOpen f \<longrightarrow> vr_Status v \<notin> set closed_statuses) \<and>
     vuln_visible db (vf_UserID f) v"

definition order_vulns :: "string \<Rightarrow> vuln_row list \<Rightarrow> vuln_row list" where
  "order_vulns sortBy rows =
     (if sortBy = ''finding_count''
      then sort_key (\<lambda>v. - int (vr_FindingCount v)) (sort_key (\<lambda>v. severity_order (vr_Severity v)) rows)
      else sort_key (\<lambda>v. severity_order (vr_Severity v)) (sort_key (\<lambda>v. - vr_LastSeenAt v) rows))"

definition all_vulns :: "inventory_state \<Rightarrow> vuln_filter \<Rightarrow> vuln_row list" where
  "all_vulns db f = order_vulns (vf_SortBy f) (filter (vuln_matches db f) (iv_vulns db))"

text \<open>An identifier that is not one refuses the statement; the error of the count is ignored.\<close>

definition vuln_args_ok :: "vuln_view_env \<Rightarrow> vuln_filter \<Rightarrow> bool" where
  "vuln_args_ok env f \<longleftrightarrow> (vf_ProjectID f = [] \<or> vw_uuid env (vf_ProjectID f)) \<and> scope_ok (vw_view env) (vf_UserID f)"

definition Vuln_List :: "vuln_view_env \<Rightarrow> vuln_filter \<Rightarrow> inventory_state \<Rightarrow> string + vuln_row list \<times> nat" where
  "Vuln_List env f db =
     (let (page, limit) = Normalize_params (vf_Page f) (vf_Limit f) 100 200; found = all_vulns db f in
      case vw_fail env ''vulnerabilities.List'' of
        Some e \<Rightarrow> Inl (''list vulnerabilities: '' @ e)
      | None \<Rightarrow>
        if \<not> vuln_args_ok env f then Inl ''list vulnerabilities: invalid input syntax for type uuid''
        else (case page_of page limit found of
            Inl e \<Rightarrow> Inl (''list vulnerabilities: '' @ e)
          | Inr rows \<Rightarrow> Inr (rows, case vw_fail env ''vulnerabilities.Count'' of Some e \<Rightarrow> 0
              | None \<Rightarrow> length (filter (vuln_matches db f) (iv_vulns db)))))"

section \<open>The findings of a vulnerability\<close>

record affected_finding =
  wa_Row :: finding
  wa_CorroborationCount :: nat
  wa_ProjectID :: string
  wa_ProjectName :: string
  wa_RepoURL :: string
  wa_AppID :: string
  wa_AppName :: string

definition affected_columns :: "finding \<Rightarrow> finding" where
  "affected_columns f = (hidden_columns f)\<lparr>fd_VulnID := None\<rparr>"

definition affected_of :: "inventory_state \<Rightarrow> finding \<times> project_row \<times> app_row option \<Rightarrow> affected_finding" where
  "affected_of db = (\<lambda>(f, p, a). \<lparr>wa_Row = affected_columns f, wa_CorroborationCount = corroboration_count (vb_findings (iv_views db)) f,
     wa_ProjectID = pw_ID p, wa_ProjectName = pw_Name p, wa_RepoURL = text_col (pw_RepoURL p),
     wa_AppID = (case a of None \<Rightarrow> [] | Some x \<Rightarrow> aw_ID x), wa_AppName = (case a of None \<Rightarrow> [] | Some x \<Rightarrow> aw_Name x)\<rparr>)"

text \<open>The joins of \<^verbatim>\<open>findings\<close> with their scan, its project and the application of that, if there is one.\<close>

definition affected_rows :: "tenant_db \<Rightarrow> string \<Rightarrow> (finding \<times> project_row \<times> app_row option) list" where
  "affected_rows t vulnID =
     [(f, p, a). f \<leftarrow> filter (\<lambda>f. fd_VulnID f = Some vulnID) (tn_findings t),
        s \<leftarrow> filter (\<lambda>s. sn_ID s = fd_ScanID f) (tn_scans t),
        (p, a) \<leftarrow> left_join (\<lambda>p a. pw_AppID p = Some (aw_ID a)) (filter (\<lambda>p. sn_Project s = Some (pw_ID p)) (tn_projects t)) (tn_apps t)]"

definition GetAffectedFindings :: "vuln_view_env \<Rightarrow> string \<Rightarrow> inventory_state \<Rightarrow> string + affected_finding list" where
  "GetAffectedFindings env vulnID db =
     (case vw_fail env ''vulnerabilities.GetAffectedFindings'' of
        Some e \<Rightarrow> Inl (''get affected findings with context: '' @ e)
      | None \<Rightarrow>
        if \<not> vw_uuid env vulnID then Inl ''get affected findings with context: invalid input syntax for type uuid''
        else Inr (map (affected_of db) (sort_key (\<lambda>(f, p, a). - fd_CreatedAt f) (affected_rows (iv_tenant db) vulnID))))"

section \<open>Counts by engine\<close>

record engine_summary =
  eg_ProjectID :: string
  eg_ProjectName :: string
  eg_AppID :: string
  eg_AppName :: string
  eg_ByEngine :: "(string \<times> nat) list"
  eg_TotalVulns :: nat
  eg_TotalOpen :: nat

text \<open>The rows the statement groups; without an application there is no team.\<close>

definition engine_visible :: "tenant_db \<Rightarrow> scope \<Rightarrow> app_row option \<Rightarrow> bool" where
  "engine_visible t sco a \<longleftrightarrow>
     (case sco of None \<Rightarrow> True
      | Some u \<Rightarrow> (case a of None \<Rightarrow> False
          | Some x \<Rightarrow> (case aw_TeamID x of None \<Rightarrow> False | Some team \<Rightarrow> (team, u) \<in> set (tn_members t))))"

definition engine_rows :: "inventory_state \<Rightarrow> scope \<Rightarrow> (vuln_row \<times> project_row \<times> app_row option) list" where
  "engine_rows db sco =
     filter (\<lambda>(v, p, a). engine_visible (iv_tenant db) sco a)
       [(v, p, a). v \<leftarrow> iv_vulns db,
          (p, a) \<leftarrow> left_join (\<lambda>p a. pw_AppID p = Some (aw_ID a)) (filter (\<lambda>p. pw_ID p = vr_ProjectID v) (tn_projects (iv_tenant db))) (tn_apps (iv_tenant db))]"

text \<open>The loop over the groups fills one summary for a project; the order of the map is not fixed and is that
  of the first rows here.\<close>

definition engine_groups :: "(vuln_row \<times> project_row \<times> app_row option) list \<Rightarrow> (string \<times> string \<times> nat \<times> nat) list" where
  "engine_groups rows =
     map (\<lambda>(pid, e). (pid, e, length (filter (\<lambda>(v, p, a). pw_ID p = pid \<and> vr_EngineType v = e) rows),
         length (filter (\<lambda>(v, p, a). pw_ID p = pid \<and> vr_EngineType v = e \<and> vr_Status v \<notin> set closed_statuses) rows)))
       (remdups (map (\<lambda>(v, p, a). (pw_ID p, vr_EngineType v)) rows))"

fun add_groups :: "(string \<times> string \<times> nat \<times> nat) list \<Rightarrow> engine_summary \<Rightarrow> engine_summary" where
  "add_groups [] s = s"
| "add_groups ((pid, e, n, op) # gs) s =
     add_groups gs (if pid = eg_ProjectID s
       then s\<lparr>eg_ByEngine := AList.update e n (eg_ByEngine s), eg_TotalVulns := eg_TotalVulns s + n, eg_TotalOpen := eg_TotalOpen s + op\<rparr> else s)"

definition empty_summary :: "vuln_row \<times> project_row \<times> app_row option \<Rightarrow> engine_summary" where
  "empty_summary = (\<lambda>(v, p, a). \<lparr>eg_ProjectID = pw_ID p, eg_ProjectName = pw_Name p,
     eg_AppID = (case a of None \<Rightarrow> [] | Some x \<Rightarrow> aw_ID x), eg_AppName = (case a of None \<Rightarrow> [] | Some x \<Rightarrow> aw_Name x),
     eg_ByEngine = [], eg_TotalVulns = 0, eg_TotalOpen = 0\<rparr>)"

fun first_of_each :: "('a \<Rightarrow> 'k) \<Rightarrow> 'a list \<Rightarrow> 'a list" where
  "first_of_each k [] = []"
| "first_of_each k (x # xs) = x # first_of_each k (filter (\<lambda>y. k y \<noteq> k x) xs)"

definition GetProjectEngineSummaries :: "vuln_view_env \<Rightarrow> scope \<Rightarrow> inventory_state \<Rightarrow> string + engine_summary list" where
  "GetProjectEngineSummaries env sco db =
     (case vw_fail env ''vulnerabilities.GetProjectEngineSummaries'' of
        Some e \<Rightarrow> Inl (''get project engine summaries: '' @ e)
      | None \<Rightarrow>
        if \<not> scope_ok (vw_view env) sco then Inl ''get project engine summaries: invalid input syntax for type uuid''
        else (let rows = engine_rows db sco in
          Inr (map (add_groups (engine_groups rows) \<circ> empty_summary) (first_of_each (\<lambda>(v, p, a). pw_ID p) rows))))"

section \<open>Exposures to published threats\<close>

record exposure_filter =
  xf_ProjectID :: string
  xf_KEVOnly :: bool
  xf_MatchStatus :: string
  xf_InventoryStatus :: string
  xf_Q :: string
  xf_Page :: int
  xf_Limit :: int
  xf_Sort :: string

record exposure_row =
  xr_HitID :: string
  xr_ProjectID :: string
  xr_AdvisoryID :: string
  xr_Source :: string
  xr_CVEID :: string
  xr_Ecosystem :: string
  xr_PkgName :: string
  xr_PkgVersion :: string
  xr_Severity :: string
  xr_KEV :: bool
  xr_InventoryStatus :: string
  xr_RuntimeStatus :: string
  xr_MatchStatus :: string
  xr_Evidence :: "string option"
  xr_PublishedAt :: "string option"
  xr_CreatedAt :: int

definition exposure_of :: "inventory_hit \<times> advisory_row \<Rightarrow> exposure_row" where
  "exposure_of = (\<lambda>(h, a). \<lparr>xr_HitID = ih_ID h, xr_ProjectID = ih_ProjectID h, xr_AdvisoryID = hr_AdvisoryID (ih_Row h),
     xr_Source = arow_Source a, xr_CVEID = text_col (arow_CVEID a), xr_Ecosystem = text_col (arow_Ecosystem a),
     xr_PkgName = text_col (hr_PkgName (ih_Row h)), xr_PkgVersion = text_col (hr_PkgVersion (ih_Row h)),
     xr_Severity = text_col (arow_Severity a), xr_KEV = arow_KEV a, xr_InventoryStatus = hr_Inventory (ih_Row h),
     xr_RuntimeStatus = hr_Runtime (ih_Row h), xr_MatchStatus = hr_Match (ih_Row h), xr_Evidence = hr_Evidence (ih_Row h),
     xr_PublishedAt = arow_Published a, xr_CreatedAt = ih_CreatedAt h\<rparr>)"

definition exposure_join :: "inventory_state \<Rightarrow> (inventory_hit \<times> advisory_row) list" where
  "exposure_join db = [(h, a). h \<leftarrow> iv_hits db, a \<leftarrow> filter (\<lambda>a. arow_ID a = hr_AdvisoryID (ih_Row h)) (iv_advisories db)]"

definition col_like :: "string option \<Rightarrow> string \<Rightarrow> bool" where
  "col_like c p \<longleftrightarrow> (case c of None \<Rightarrow> False | Some s \<Rightarrow> ilike s p)"

definition exposure_matches :: "exposure_filter \<Rightarrow> inventory_hit \<times> advisory_row \<Rightarrow> bool" where
  "exposure_matches f = (\<lambda>(h, a).
     (xf_ProjectID f = [] \<or> ih_ProjectID h = xf_ProjectID f) \<and>
     (xf_KEVOnly f \<longrightarrow> arow_KEV a) \<and>
     (xf_MatchStatus f = [] \<or> hr_Match (ih_Row h) = xf_MatchStatus f) \<and>
     (xf_InventoryStatus f = [] \<or> hr_Inventory (ih_Row h) = xf_InventoryStatus f) \<and>
     (xf_Q f = [] \<or> (let p = percent # xf_Q f @ [percent] in
        col_like (hr_PkgName (ih_Row h)) p \<or> col_like (arow_CVEID a) p \<or> ilike (arow_ID a) p)))"

text \<open>\<^verbatim>\<open>NULLS LAST\<close>: the rows without a value come after the others.\<close>

definition nulls_last :: "('a \<Rightarrow> 'k option) \<Rightarrow> ('k \<Rightarrow> 'l :: linorder) \<Rightarrow> 'a list \<Rightarrow> 'a list" where
  "nulls_last c k rows = sort_key (k \<circ> the \<circ> c) (filter (\<lambda>r. c r \<noteq> None) rows) @ filter (\<lambda>r. c r = None) rows"

definition order_exposures :: "vuln_view_env \<Rightarrow> string \<Rightarrow> (inventory_hit \<times> advisory_row) list \<Rightarrow> (inventory_hit \<times> advisory_row) list" where
  "order_exposures env sortBy rows =
     (let rows = sort_key (\<lambda>(h, a). - ih_CreatedAt h) rows in
      if sortBy = ''published_at'' then nulls_last (\<lambda>(h, a). arow_Published a) (\<lambda>t. - vw_time env t) rows
      else if sortBy = ''severity'' then sort_key (\<lambda>(h, a). severity_order (text_col (arow_Severity a))) rows
      else if sortBy = ''cve_id'' then nulls_last (\<lambda>(h, a). arow_CVEID a) (\<lambda>c. c) rows
      else rows)"

definition all_exposures :: "vuln_view_env \<Rightarrow> exposure_filter \<Rightarrow> inventory_state \<Rightarrow> exposure_row list" where
  "all_exposures env f db = map exposure_of (order_exposures env (xf_Sort f) (filter (exposure_matches f) (exposure_join db)))"

definition ListExposures :: "vuln_view_env \<Rightarrow> exposure_filter \<Rightarrow> inventory_state \<Rightarrow> string + exposure_row list \<times> nat" where
  "ListExposures env f db =
     (let (page, limit) = Normalize_params (xf_Page f) (xf_Limit f) 100 200 in
      case vw_fail env ''threats.CountExposures'' of
        Some e \<Rightarrow> Inl (''count exposures: '' @ e)
      | None \<Rightarrow>
        if xf_ProjectID f \<noteq> [] \<and> \<not> vw_uuid env (xf_ProjectID f) then Inl ''count exposures: invalid input syntax for type uuid''
        else (case vw_fail env ''threats.ListExposures'' of
            Some e \<Rightarrow> Inl (''list exposures: '' @ e)
          | None \<Rightarrow> (case page_of page limit (all_exposures env f db) of
              Inl e \<Rightarrow> Inl (''list exposures: '' @ e)
            | Inr rows \<Rightarrow> Inr (rows, length (filter (exposure_matches f) (exposure_join db))))))"

section \<open>Handlers\<close>

definition page_params :: "(string \<Rightarrow> string) \<Rightarrow> int \<Rightarrow> int \<Rightarrow> int \<times> int" where
  "page_params q = Normalize_params (fst (atoi (q ''page''))) (fst (atoi (q ''limit'')))"

definition vuln_request :: "claims option \<Rightarrow> (string \<Rightarrow> string) \<Rightarrow> vuln_filter" where
  "vuln_request who q =
     (let (page, limit) = page_params q 100 200 in
      \<lparr>vf_ProjectID = q ''project_id'', vf_Severities = parseCSVParam (q ''severity''), vf_EngineType = q ''engine_type'',
       vf_Status = q ''status'', vf_Search = q ''q'', vf_OnlyOpen = (q ''open'' \<noteq> ''false''), vf_Page = page, vf_Limit = limit,
       vf_SortBy = q ''sort'', vf_UserID = claims_scope who\<rparr>)"

definition ListVulnerabilities :: "vuln_view_env \<Rightarrow> claims option \<Rightarrow> (string \<Rightarrow> string) \<Rightarrow> inventory_state \<Rightarrow> (vuln_row list \<times> nat) reply" where
  "ListVulnerabilities env who q db =
     (case Vuln_List env (vuln_request who q) db of
        Inl e \<Rightarrow> Inl (500, ''failed to list vulnerabilities'') | Inr r \<Rightarrow> Inr r)"

definition GetVulnerabilityAffected :: "vuln_view_env \<Rightarrow> string \<Rightarrow> inventory_state \<Rightarrow> affected_finding list reply" where
  "GetVulnerabilityAffected env vulnID db =
     (case GetAffectedFindings env vulnID db of
        Inl e \<Rightarrow> Inl (500, ''failed to get vulnerability findings'') | Inr fs \<Rightarrow> Inr fs)"

definition vuln_statuses :: "string list" where
  "vuln_statuses = [''open'', ''in_review'', ''accepted_risk'', ''fixed'', ''verified'']"

definition UpdateVulnerabilityStatus :: "vuln_view_env \<Rightarrow> string \<Rightarrow> string option \<Rightarrow> inventory_state \<Rightarrow> vuln_row reply \<times> inventory_state" where
  "UpdateVulnerabilityStatus env i body db =
     (case body of
        None \<Rightarrow> (Inl (400, ''invalid request body''), db)
      | Some status \<Rightarrow>
        if status \<notin> set vuln_statuses
        then (Inl (400, ''invalid status: must be one of open, in_review, accepted_risk, fixed, verified''), db)
        else if vw_fail env ''vulnerabilities.UpdateStatus'' \<noteq> None \<or> \<not> vw_uuid env i
        then (Inl (500, ''failed to update vulnerability status''), db)
        else (let db1 = db\<lparr>iv_vulns := Vuln_UpdateStatus (vw_now env) i status (iv_vulns db)\<rparr> in
          if vw_fail env ''vulnerabilities.GetByID'' \<noteq> None then (Inl (500, ''vulnerability not found after update''), db1)
          else (case Vuln_GetByID i (iv_vulns db1) of
              None \<Rightarrow> (Inl (500, ''vulnerability not found after update''), db1)
            | Some v \<Rightarrow> (Inr v, db1))))"

definition GetVulnerabilityEngineSummary :: "vuln_view_env \<Rightarrow> claims option \<Rightarrow> inventory_state \<Rightarrow> engine_summary list reply" where
  "GetVulnerabilityEngineSummary env who db =
     (case GetProjectEngineSummaries env (claims_scope who) db of
        Inl e \<Rightarrow> Inl (500, ''failed to get vulnerability engine summary'') | Inr s \<Rightarrow> Inr s)"

definition exposure_request :: "string \<Rightarrow> (string \<Rightarrow> string) \<Rightarrow> exposure_filter" where
  "exposure_request projectID q =
     (let (page, limit) = page_params q 100 200 in
      \<lparr>xf_ProjectID = projectID, xf_KEVOnly = (q ''kev'' = ''true'' \<or> q ''kev'' = ''1''), xf_MatchStatus = q ''match_status'',
       xf_InventoryStatus = q ''inventory_status'', xf_Q = q ''q'', xf_Page = page, xf_Limit = limit, xf_Sort = q ''sort''\<rparr>)"

definition exposure_answer :: "vuln_view_env \<Rightarrow> exposure_filter \<Rightarrow> inventory_state \<Rightarrow> (exposure_row list \<times> nat) reply" where
  "exposure_answer env f db =
     (case ListExposures env f db of Inl e \<Rightarrow> Inl (500, ''failed to list threat exposures'') | Inr r \<Rightarrow> Inr r)"

definition ListThreatExposures :: "vuln_view_env \<Rightarrow> claims option \<Rightarrow> (string \<Rightarrow> string) \<Rightarrow> inventory_state \<Rightarrow> (exposure_row list \<times> nat) reply" where
  "ListThreatExposures env who q db =
     (case who of
        None \<Rightarrow> Inl (401, ''authentication required'')
      | Some c \<Rightarrow>
        (let projectID = q ''project_id'' in
         if cm_Role c = ''admin'' then exposure_answer env (exposure_request projectID q) db
         else if projectID = [] then Inl (403, ''project_id is required for non-admin users'')
         else (case CheckProjectOwnership ((iv_tenant db)\<lparr>tn_error := vw_fail env ''apps.CheckProjectOwnership''\<rparr>) (cm_UserID c) projectID of
             Inl e \<Rightarrow> Inl (500, ''failed to check project ownership'')
           | Inr mine \<Rightarrow> if \<not> mine then Inl (403, ''access denied to project'') else exposure_answer env (exposure_request projectID q) db)))"

section \<open>Pages\<close>

lemma page_of_upto:
  assumes "1 \<le> k" "k \<le> 4294967296" "l \<le> 200"
  shows "page_of (int k) (int l) rows = Inr (take l (drop ((k - 1) * l) rows))"
proof -
  have le: "(k - 1) * l \<le> 4294967296 * 200" by (intro mult_le_mono) (use assms in auto)
  have k: "int k - 1 = int (k - 1)" using assms by simp
  have "go_int64 (int k - 1) = int (k - 1)" unfolding k by (rule go_int64_small) (use assms in auto)
  moreover have "int (k - 1) * int l = int ((k - 1) * l)" by simp
  moreover have "go_int64 (int ((k - 1) * l)) = int ((k - 1) * l)" by (rule go_int64_small) (use le in linarith)+
  ultimately show ?thesis by (simp add: page_of_def Let_def del: of_nat_mult)
qed

lemma Normalize_params_id: "1 \<le> k \<Longrightarrow> 1 \<le> l \<Longrightarrow> l \<le> 200 \<Longrightarrow> Normalize_params (int k) (int l) 100 200 = (int k, int l)"
  by (simp add: Normalize_params_def)

lemma vuln_matches_page: "vuln_matches db (f\<lparr>vf_Page := p\<rparr>) = vuln_matches db f"
  by (simp add: fun_eq_iff vuln_matches_def)

lemma all_vulns_mset: "mset (all_vulns db f) = mset (filter (vuln_matches db f) (iv_vulns db))"
  by (simp add: all_vulns_def order_vulns_def)

lemma Vuln_List_page:
  assumes "vw_fail env = (\<lambda>_. None)" "vuln_args_ok env f" "vf_Limit f = int l" "1 \<le> l" "l \<le> 200" "1 \<le> k" "k \<le> 4294967296"
  shows "Vuln_List env (f\<lparr>vf_Page := int k\<rparr>) db = Inr (take l (drop ((k - 1) * l) (all_vulns db f)), length (all_vulns db f))"
proof -
  have "all_vulns db (f\<lparr>vf_Page := int k\<rparr>) = all_vulns db f" by (simp add: all_vulns_def vuln_matches_page)
  moreover have "length (filter (vuln_matches db f) (iv_vulns db)) = length (all_vulns db f)"
    by (rule mset_eq_length) (simp add: all_vulns_mset)
  moreover have "vuln_args_ok env (f\<lparr>vf_Page := int k\<rparr>)" using assms(2) by (simp add: vuln_args_ok_def)
  ultimately show ?thesis
    using assms by (simp add: Vuln_List_def Normalize_params_id page_of_upto vuln_matches_page Let_def)
qed

definition vulns_listable :: "vuln_view_env \<times> vuln_filter \<times> inventory_state \<Rightarrow> bool" where
  "vulns_listable = (\<lambda>(env, f, db). vw_fail env = (\<lambda>_. None) \<and> vuln_args_ok env f \<and> 1 \<le> vf_Limit f \<and> vf_Limit f \<le> 200)"

interpretation vulns_paged: paged_query vulns_listable "\<lambda>(env, f, db). nat (vf_Limit f)" "\<lambda>(env, f, db). all_vulns db f"
  "\<lambda>(env, f, db) p. Vuln_List env (f\<lparr>vf_Page := p\<rparr>) db"
proof unfold_locales
  fix e :: "vuln_view_env \<times> vuln_filter \<times> inventory_state" and k :: nat
  assume h: "vulns_listable e" "1 \<le> k" "k \<le> 4294967296"
  obtain env f db where e: "e = (env, f, db)" by (metis prod_cases3)
  show "(case e of (env, f, db) \<Rightarrow> \<lambda>p. Vuln_List env (f\<lparr>vf_Page := p\<rparr>) db) (int k) =
      Inr (take (case e of (env, f, db) \<Rightarrow> nat (vf_Limit f))
          (drop ((k - 1) * (case e of (env, f, db) \<Rightarrow> nat (vf_Limit f))) (case e of (env, f, db) \<Rightarrow> all_vulns db f)),
        length (case e of (env, f, db) \<Rightarrow> all_vulns db f))"
    using h Vuln_List_page [of env f "nat (vf_Limit f)" k db] by (auto simp: e vulns_listable_def nat_le_iff)
qed

lemma mset_nulls_last: "mset (nulls_last c k rows) = mset rows"
  using multiset_partition [of "mset rows" "\<lambda>r. c r \<noteq> None"] by (simp add: nulls_last_def)

lemma all_exposures_mset: "mset (all_exposures env f db) = image_mset exposure_of (mset (filter (exposure_matches f) (exposure_join db)))"
  by (simp add: all_exposures_def order_exposures_def Let_def mset_nulls_last)

text \<open>Read page by page, the list of vulnerabilities shows every one that matches the filter and lies in the
  scope of the user exactly once.\<close>

theorem vuln_pages_exact:
  assumes "vw_fail env = (\<lambda>_. None)" "vuln_args_ok env f" "1 \<le> vf_Limit f" "vf_Limit f \<le> 200"
    and "length (filter (vuln_matches db f) (iv_vulns db)) \<le> n * nat (vf_Limit f)" "n \<le> 4294967296"
  shows "mset (concat (map (\<lambda>k. case Vuln_List env (f\<lparr>vf_Page := int k\<rparr>) db of Inl _ \<Rightarrow> [] | Inr (rows, cnt) \<Rightarrow> rows) [1..<Suc n])) =
    mset (filter (vuln_matches db f) (iv_vulns db))"
proof -
  have "vulns_listable (env, f, db)" using assms(1-4) by (simp add: vulns_listable_def)
  moreover have "length (all_vulns db f) \<le> n * nat (vf_Limit f)"
    using assms(5) mset_eq_length [OF all_vulns_mset [of db f]] by simp
  ultimately have "concat (map (vulns_paged.page_rows (env, f, db)) [1..<Suc n]) = all_vulns db f"
    using vulns_paged.pages_whole [of "(env, f, db)" n] assms(6) by simp
  then have "mset (concat (map (vulns_paged.page_rows (env, f, db)) [1..<Suc n])) = mset (filter (vuln_matches db f) (iv_vulns db))"
    by (simp only: all_vulns_mset)
  moreover have "vulns_paged.page_rows (env, f, db) = (\<lambda>k. case Vuln_List env (f\<lparr>vf_Page := int k\<rparr>) db of Inl _ \<Rightarrow> [] | Inr (rows, cnt) \<Rightarrow> rows)"
    by (rule ext) (simp add: vulns_paged.page_rows_def)
  ultimately show ?thesis by (simp only:)
qed

lemma exposure_matches_page: "exposure_matches (f\<lparr>xf_Page := p\<rparr>) = exposure_matches f"
  by (auto simp: fun_eq_iff exposure_matches_def)

lemma ListExposures_page:
  assumes "vw_fail env = (\<lambda>_. None)" "xf_ProjectID f = [] \<or> vw_uuid env (xf_ProjectID f)" "xf_Limit f = int l" "1 \<le> l" "l \<le> 200"
    "1 \<le> k" "k \<le> 4294967296"
  shows "ListExposures env (f\<lparr>xf_Page := int k\<rparr>) db = Inr (take l (drop ((k - 1) * l) (all_exposures env f db)), length (all_exposures env f db))"
proof -
  have "all_exposures env (f\<lparr>xf_Page := int k\<rparr>) db = all_exposures env f db" by (simp add: all_exposures_def exposure_matches_page)
  moreover have "length (filter (exposure_matches f) (exposure_join db)) = length (all_exposures env f db)"
    using arg_cong [OF all_exposures_mset [of env f db], of size] by (metis size_image_mset size_mset)
  ultimately show ?thesis
    using assms by (auto simp: ListExposures_def Normalize_params_id page_of_upto exposure_matches_page Let_def)
qed

interpretation exposures_paged: paged_query
  "\<lambda>(env, f, db). vw_fail env = (\<lambda>_. None) \<and> (xf_ProjectID f = [] \<or> vw_uuid env (xf_ProjectID f)) \<and> 1 \<le> xf_Limit f \<and> xf_Limit f \<le> 200"
  "\<lambda>(env, f, db). nat (xf_Limit f)" "\<lambda>(env, f, db). all_exposures env f db" "\<lambda>(env, f, db) p. ListExposures env (f\<lparr>xf_Page := p\<rparr>) db"
proof unfold_locales
  fix e :: "vuln_view_env \<times> exposure_filter \<times> inventory_state" and k :: nat
  assume h: "case e of (env, f, db) \<Rightarrow> vw_fail env = (\<lambda>_. None) \<and> (xf_ProjectID f = [] \<or> vw_uuid env (xf_ProjectID f)) \<and> 1 \<le> xf_Limit f \<and> xf_Limit f \<le> 200"
    "1 \<le> k" "k \<le> 4294967296"
  obtain env f db where e: "e = (env, f, db)" by (metis prod_cases3)
  have l: "xf_Limit f = int (nat (xf_Limit f))" "1 \<le> nat (xf_Limit f)" "nat (xf_Limit f) \<le> 200" using h(1) by (auto simp: e nat_le_iff)
  show "(case e of (env, f, db) \<Rightarrow> \<lambda>p. ListExposures env (f\<lparr>xf_Page := p\<rparr>) db) (int k) =
      Inr (take (case e of (env, f, db) \<Rightarrow> nat (xf_Limit f))
          (drop ((k - 1) * (case e of (env, f, db) \<Rightarrow> nat (xf_Limit f))) (case e of (env, f, db) \<Rightarrow> all_exposures env f db)),
        length (case e of (env, f, db) \<Rightarrow> all_exposures env f db))"
    using h ListExposures_page [OF _ _ l h(2,3), of env db] by (simp add: e)
qed

section \<open>Scope\<close>

lemma page_of_subset: "page_of page limit xs = Inr rows \<Longrightarrow> set rows \<subseteq> set xs"
  by (auto simp: page_of_def Let_def split: if_splits dest: in_set_takeD in_set_dropD)

lemma set_all_exposures: "set (all_exposures env f db) = exposure_of ` set (filter (exposure_matches f) (exposure_join db))"
  using arg_cong [OF all_exposures_mset [of env f db], of set_mset] by simp

lemma ListExposures_rows:
  assumes "ListExposures env f db = Inr (rows, cnt)" "x \<in> set rows" "xf_ProjectID f \<noteq> []"
  shows "xr_ProjectID x = xf_ProjectID f"
proof -
  obtain page limit where "page_of page limit (all_exposures env f db) = Inr rows"
    using assms(1) by (auto simp: ListExposures_def Let_def split: option.splits if_splits sum.splits prod.splits)
  then have "x \<in> set (all_exposures env f db)" using page_of_subset assms(2) by blast
  then show ?thesis using assms(3) by (auto simp: set_all_exposures exposure_matches_def exposure_of_def)
qed

lemma exposure_request_project [simp]: "xf_ProjectID (exposure_request p q) = p"
  by (simp add: exposure_request_def split: prod.split)

text \<open>Who is not an administrator sees only exposures of a project the user's teams own, the one of the
  request.\<close>

theorem exposures_in_scope:
  assumes "ListThreatExposures env (Some c) q db = Inr (rows, cnt)" "cm_Role c \<noteq> ''admin''" "x \<in> set rows"
  shows "xr_ProjectID x = q ''project_id'' \<and> owns_project (iv_tenant db) (cm_UserID c) (xr_ProjectID x)"
proof -
  have q: "q ''project_id'' \<noteq> []" using assms(1,2) by (auto simp: ListThreatExposures_def Let_def split: if_splits)
  let ?t = "(iv_tenant db)\<lparr>tn_error := vw_fail env ''apps.CheckProjectOwnership''\<rparr>"
  have own: "CheckProjectOwnership ?t (cm_UserID c) (q ''project_id'') = Inr True"
    and ans: "exposure_answer env (exposure_request (q ''project_id'') q) db = Inr (rows, cnt)"
    using assms(1,2) q by (auto simp: ListThreatExposures_def Let_def split: if_splits sum.splits)
  have "xr_ProjectID x = q ''project_id''"
    using ListExposures_rows [OF _ assms(3), of env "exposure_request (q ''project_id'') q" db cnt] ans q
    by (auto simp: exposure_answer_def split: sum.splits)
  moreover have "owns_project ?t (cm_UserID c) (q ''project_id'')"
    using own by (cases "tn_error ?t") (auto simp: CheckProjectOwnership_def count_check_def project_join_owns)
  then have "owns_project (iv_tenant db) (cm_UserID c) (q ''project_id'')" by (simp add: owns_project_def owns_app_def)
  ultimately show ?thesis by simp
qed

lemma vuln_visible_owns: "vuln_visible db (ForUser u) v \<longleftrightarrow> owns_project (iv_tenant db) u (vr_ProjectID v)"
  by (simp add: vuln_visible_def ForUser_def project_join_owns)

text \<open>The list of vulnerabilities keeps to the projects of the user's teams, but the findings of a
  vulnerability do not: every user gets the findings of every vulnerability by its identifier, with the
  names of the project and the application, although the list does not show it.\<close>

theorem affected_leak:
  assumes "vw_fail env = (\<lambda>_. None)" "vw_uuid env vulnID" "cm_Role c = ''viewer''"
    and "v \<in> set (iv_vulns db)" "vr_ID v = vulnID" "\<not> owns_project (iv_tenant db) (cm_UserID c) (vr_ProjectID v)"
    and "f \<in> set (vb_findings (iv_views db))" "fd_VulnID f = Some vulnID" "s \<in> set (tn_scans (iv_tenant db))" "sn_ID s = fd_ScanID f"
    and "p \<in> set (tn_projects (iv_tenant db))" "sn_Project s = Some (pw_ID p)" "vf_UserID q = claims_scope (Some c)"
  shows "v \<notin> set (all_vulns db q) \<and>
    (\<exists>fs. GetVulnerabilityAffected env vulnID db = Inr fs \<and> (\<exists>x \<in> set fs. fd_Title (wa_Row x) = fd_Title f \<and> wa_ProjectName x = pw_Name p))"
proof
  have "\<not> vuln_visible db (claims_scope (Some c)) v" using assms(3,6) by (simp add: claims_scope_def vuln_visible_owns)
  then have "\<not> vuln_matches db q v" using assms(13) by (simp add: vuln_matches_def)
  then show "v \<notin> set (all_vulns db q)" using arg_cong [OF all_vulns_mset [of db q], of set_mset] by auto
  have tf: "f \<in> set (tn_findings (iv_tenant db))" using assms(7) by (simp add: tenant_of_def)
  obtain a where "(p, a) \<in> set (left_join (\<lambda>p a. pw_AppID p = Some (aw_ID a)) (filter (\<lambda>p. sn_Project s = Some (pw_ID p)) (tn_projects (iv_tenant db))) (tn_apps (iv_tenant db)))"
    using left_join_keeps [of p "filter (\<lambda>p. sn_Project s = Some (pw_ID p)) (tn_projects (iv_tenant db))"] assms(11,12) by fastforce
  then have row: "(f, p, a) \<in> set (affected_rows (iv_tenant db) vulnID)"
    using tf assms(8,9,10) unfolding affected_rows_def by force
  let ?fs = "map (affected_of db) (sort_key (\<lambda>(f, p, a). - fd_CreatedAt f) (affected_rows (iv_tenant db) vulnID))"
  have "GetVulnerabilityAffected env vulnID db = Inr ?fs"
    using assms(1,2) by (simp add: GetVulnerabilityAffected_def GetAffectedFindings_def)
  moreover have "affected_of db (f, p, a) \<in> set ?fs" using row by simp
  moreover have "fd_Title (wa_Row (affected_of db (f, p, a))) = fd_Title f \<and> wa_ProjectName (affected_of db (f, p, a)) = pw_Name p"
    by (simp add: affected_of_def affected_columns_def hidden_columns_def)
  ultimately show "\<exists>fs. GetVulnerabilityAffected env vulnID db = Inr fs \<and> (\<exists>x \<in> set fs. fd_Title (wa_Row x) = fd_Title f \<and> wa_ProjectName x = pw_Name p)"
    by blast
qed

section \<open>A vulnerability that comes back\<close>

lemma find_same: "vulns_ok vulns \<Longrightarrow> v \<in> set vulns \<Longrightarrow> same_vuln x v \<Longrightarrow> find (same_vuln x) vulns = Some v"
proof (induction vulns)
  case (Cons w ws)
  show ?case
  proof (cases "same_vuln x w")
    case True
    then have "w = v" using Cons.prems by (auto simp: vulns_ok_def same_vuln_def image_iff)
    then show ?thesis using True by simp
  next
    case False
    then show ?thesis using Cons by (auto simp: vulns_ok_def)
  qed
qed simp

lemma updated_status:
  assumes "v \<in> set (Vuln_UpdateStatus now i status vulns)" "vr_ID v = i"
  shows "vr_Status v = status"
proof -
  obtain r where r: "v = (if vr_ID r = i then r\<lparr>vr_Status := status, vr_UpdatedAt := now\<rparr> else r)"
    using assms(1) unfolding Vuln_UpdateStatus_def set_update_where by blast
  then show ?thesis using assms(2) by (cases "vr_ID r = i") simp_all
qed

text \<open>A vulnerability that was marked as fixed stays fixed when a scan finds it again: the upsert keeps the
  status, so the list of open vulnerabilities, which is the one users get, does not show it.\<close>

theorem reappearing_vuln_hidden:
  assumes "UpdateVulnerabilityStatus env i (Some ''fixed'') db = (Inr v, db1)" "vulns_ok (iv_vulns db1)"
    and "same_vuln x v" "Upsert refuse new_id now x (iv_vulns db1) = (Inr w, vulns2)" "vf_OnlyOpen f"
  shows "vr_ID w = i \<and> vr_Status w = ''fixed'' \<and> vr_LastSeenAt w = now \<and> w \<notin> set (all_vulns (db1\<lparr>iv_vulns := vulns2\<rparr>) f)"
proof -
  have v: "Vuln_GetByID i (iv_vulns db1) = Some v" "iv_vulns db1 = Vuln_UpdateStatus (vw_now env) i ''fixed'' (iv_vulns db)"
    using assms(1) by (auto simp: UpdateVulnerabilityStatus_def Let_def split: if_splits option.splits)
  then have mem: "v \<in> set (iv_vulns db1)" "vr_ID v = i" by (auto simp: Vuln_GetByID_def dest: row_by_SomeD)
  have status: "vr_Status v = ''fixed''" by (rule updated_status [OF mem(1) [unfolded v(2)] mem(2)])
  have "find (same_vuln x) (iv_vulns db1) = Some v" by (rule find_same [OF assms(2) mem(1) assms(3)])
  then have w: "w = merge_vuln now x v" using assms(4) by (auto simp: Upsert_def split: if_splits option.splits)
  then have "vr_Status w = ''fixed''" using status by (simp add: merge_vuln_def)
  moreover have "w \<notin> set (all_vulns (db1\<lparr>iv_vulns := vulns2\<rparr>) f)"
    using arg_cong [OF all_vulns_mset [of "db1\<lparr>iv_vulns := vulns2\<rparr>" f], of set_mset] assms(5) \<open>vr_Status w = ''fixed''\<close>
    by (auto simp: vuln_matches_def closed_statuses_def)
  ultimately show ?thesis using w mem(2) by (simp add: merge_vuln_def)
qed

section \<open>The counts by engine\<close>

lemma add_groups_project [simp]: "eg_ProjectID (add_groups gs s) = eg_ProjectID s"
  by (induction gs s rule: add_groups.induct) auto

lemma add_groups_totals:
  "eg_TotalVulns (add_groups gs s) = eg_TotalVulns s + (\<Sum>(pid, e, n, op) \<leftarrow> gs. if pid = eg_ProjectID s then n else 0)"
  "eg_TotalOpen (add_groups gs s) = eg_TotalOpen s + (\<Sum>(pid, e, n, op) \<leftarrow> gs. if pid = eg_ProjectID s then op else 0)"
  by (induction gs s rule: add_groups.induct) auto

lemma set_first_of_each: "set (first_of_each k xs) \<subseteq> set xs"
  by (induction k xs rule: first_of_each.induct) auto

lemma engine_group_sum:
  fixes rows :: "(vuln_row \<times> project_row \<times> app_row option) list"
  shows "(\<Sum>(pid', e) \<leftarrow> remdups (map (\<lambda>(v, p, a). (pw_ID p, vr_EngineType v)) rows).
      if pid' = pid then length (filter (\<lambda>(v, p, a). pw_ID p = pid' \<and> vr_EngineType v = e \<and> Q v) rows) else 0) =
    length (filter (\<lambda>(v, p, a). pw_ID p = pid \<and> Q v) rows)"
proof -
  let ?key = "\<lambda>(v, p, a). (pw_ID p, vr_EngineType v)" and ?P = "\<lambda>(v, p, a). pw_ID p = pid \<and> Q v"
  let ?ks = "remdups (map ?key rows)"
  have one: "(if pid' = pid then length (filter (\<lambda>(v, p, a). pw_ID p = pid' \<and> vr_EngineType v = e \<and> Q v) rows) else 0) =
      length (filter (\<lambda>x. ?key x = (pid', e) \<and> ?P x) rows)" for pid' e
  proof (cases "pid' = pid")
    case True
    then have eq: "(\<lambda>(v, p, a). pw_ID p = pid' \<and> vr_EngineType v = e \<and> Q v) = (\<lambda>x. ?key x = (pid', e) \<and> ?P x)" by (auto simp: fun_eq_iff)
    show ?thesis unfolding eq [symmetric] using True by (simp only: if_True refl)
  next
    case False
    then have "filter (\<lambda>x. ?key x = (pid', e) \<and> ?P x) rows = []" by (auto simp: filter_empty_conv)
    then show ?thesis using False by simp
  qed
  have "(\<Sum>k \<leftarrow> ?ks. length (filter (\<lambda>x. ?key x = k \<and> ?P x) rows)) = length (filter ?P rows)"
    by (rule sum_by_key) auto
  moreover have "(\<lambda>(pid', e). if pid' = pid then length (filter (\<lambda>(v, p, a). pw_ID p = pid' \<and> vr_EngineType v = e \<and> Q v) rows) else 0) =
      (\<lambda>k. length (filter (\<lambda>x. ?key x = k \<and> ?P x) rows))"
    by (rule ext, rule prod_cases) (simp only: prod.case one)
  ultimately show ?thesis by (simp only:)
qed

text \<open>The summary of a project counts every vulnerability of the project that the user may see once, open or
  not, and those that are open once.\<close>

theorem engine_summary_counts:
  assumes "GetProjectEngineSummaries env sco db = Inr summaries" "s \<in> set summaries"
  shows "eg_TotalVulns s = length (filter (\<lambda>(v, p, a). pw_ID p = eg_ProjectID s) (engine_rows db sco)) \<and>
    eg_TotalOpen s = length (filter (\<lambda>(v, p, a). pw_ID p = eg_ProjectID s \<and> vr_Status v \<notin> set closed_statuses) (engine_rows db sco))"
proof -
  let ?rows = "engine_rows db sco"
  obtain x where s: "s = add_groups (engine_groups ?rows) (empty_summary x)"
    using assms by (auto simp: GetProjectEngineSummaries_def Let_def split: option.splits if_splits)
  have e: "eg_TotalVulns (empty_summary x) = 0" "eg_TotalOpen (empty_summary x) = 0" by (simp_all add: empty_summary_def split: prod.split)
  have all: "eg_TotalVulns s = length (filter (\<lambda>(v, p, a). pw_ID p = eg_ProjectID s \<and> True) ?rows)"
    unfolding engine_group_sum [of "eg_ProjectID s" "\<lambda>v. True" ?rows, symmetric]
    by (auto simp: s add_groups_totals e engine_groups_def o_def intro!: arg_cong [of _ _ sum_list] map_cong)
  have op: "eg_TotalOpen s = length (filter (\<lambda>(v, p, a). pw_ID p = eg_ProjectID s \<and> vr_Status v \<notin> set closed_statuses) ?rows)"
    unfolding engine_group_sum [of "eg_ProjectID s" "\<lambda>v. vr_Status v \<notin> set closed_statuses" ?rows, symmetric]
    by (auto simp: s add_groups_totals e engine_groups_def o_def intro!: arg_cong [of _ _ sum_list] map_cong)
  show ?thesis using all op by simp
qed

section \<open>Instances\<close>

definition sample_vuln_view :: vuln_view_env where
  "sample_vuln_view = \<lparr>vw_view = sample_views, vw_time = (\<lambda>s. int (length s))\<rparr>"

definition sample_vuln :: vuln_row where
  "sample_vuln = (new_vuln ''v1'' 5 (sample_upsert ''high''))"

definition sample_threat_advisory :: advisory_row where
  "sample_threat_advisory = \<lparr>arow_ID = ''GHSA-1'', arow_Source = ''osv'', arow_CVEID = None, arow_Ecosystem = Some ''npm'', arow_PkgName = Some ''a'',
     arow_Ranges = None, arow_Severity = Some ''high'', arow_KEV = False, arow_Published = None, arow_Raw = None\<rparr>"

definition sample_inventory_hit :: inventory_hit where
  "sample_inventory_hit = \<lparr>ih_ID = ''h1'', ih_ProjectID = ''p1'', ih_Row = \<lparr>hr_AdvisoryID = ''GHSA-1'', hr_PkgName = Some ''a'', hr_PkgVersion = Some ''1'',
     hr_Inventory = ''declared'', hr_Runtime = ''L0'', hr_Match = ''unconfirmed'', hr_Evidence = None\<rparr>, ih_CreatedAt = 3\<rparr>"

definition sample_inventory :: inventory_state where
  "sample_inventory = \<lparr>iv_views = sample_view_state\<lparr>vb_agents := sample_agent_state\<lparr>ag_findings := [set_vuln ''v1'' (sample_stored ''f1'')]\<rparr>\<rparr>,
     iv_vulns = [sample_vuln], iv_advisories = [sample_threat_advisory], iv_hits = [sample_inventory_hit]\<rparr>"

definition sample_vuln_filter :: vuln_filter where
  "sample_vuln_filter = \<lparr>vf_ProjectID = [], vf_Severities = [], vf_EngineType = [], vf_Status = [], vf_Search = [], vf_OnlyOpen = True,
     vf_Page = 1, vf_Limit = 10, vf_SortBy = [], vf_UserID = ForUser ''u9''\<rparr>"

lemma sample_vuln_view_sels: "vw_fail sample_vuln_view = (\<lambda>_. None)" "vw_uuid sample_vuln_view s \<longleftrightarrow> s \<noteq> []"
  by (simp_all add: sample_vuln_view_def sample_views_def sample_collab_def sample_access_def sample_user_env_def)

lemma vuln_pages_exact_witness:
  "mset (concat (map (\<lambda>k. case Vuln_List sample_vuln_view (sample_vuln_filter\<lparr>vf_UserID := Admin, vf_Page := int k\<rparr>) sample_inventory of
      Inl _ \<Rightarrow> [] | Inr (rows, cnt) \<Rightarrow> rows) [1..<Suc 1])) = {# sample_vuln #}"
proof -
  let ?f = "sample_vuln_filter\<lparr>vf_UserID := Admin\<rparr>"
  have ok: "vuln_args_ok sample_vuln_view ?f" "1 \<le> vf_Limit ?f" "vf_Limit ?f \<le> 200" "nat (vf_Limit ?f) = 10"
    by (simp_all add: vuln_args_ok_def sample_vuln_filter_def scope_ok_def Admin_def)
  have "vuln_matches sample_inventory ?f sample_vuln" by code_simp
  then have fl: "filter (vuln_matches sample_inventory ?f) (iv_vulns sample_inventory) = [sample_vuln]" by (simp add: sample_inventory_def)
  have len: "length (filter (vuln_matches sample_inventory ?f) (iv_vulns sample_inventory)) \<le> 1 * nat (vf_Limit ?f)"
    unfolding fl ok(4) by simp
  have "mset (filter (vuln_matches sample_inventory ?f) (iv_vulns sample_inventory)) = {# sample_vuln #}" unfolding fl by simp
  then show ?thesis using vuln_pages_exact [OF sample_vuln_view_sels(1) ok(1-3) len] by simp
qed

lemma exposures_in_scope_witness:
  "\<exists>rows cnt. ListThreatExposures sample_vuln_view (Some sample_viewer) (\<lambda>k. if k = ''project_id'' then ''p1'' else []) sample_inventory = Inr (rows, cnt) \<and>
     rows \<noteq> [] \<and> (\<forall>x \<in> set rows. owns_project (iv_tenant sample_inventory) ''u1'' (xr_ProjectID x))"
proof -
  let ?r = "ListThreatExposures sample_vuln_view (Some sample_viewer) (\<lambda>k. if k = ''project_id'' then ''p1'' else []) sample_inventory"
  have "map_sum (\<lambda>e. 0 :: nat) (\<lambda>(rows, cnt). length rows) ?r = Inr 1" by code_simp
  then obtain rows cnt where r: "?r = Inr (rows, cnt)" "length rows = 1" by (cases ?r) auto
  then have "rows \<noteq> []" by auto
  moreover have "\<forall>x \<in> set rows. owns_project (iv_tenant sample_inventory) ''u1'' (xr_ProjectID x)"
  proof
    fix x assume x: "x \<in> set rows"
    have "cm_Role sample_viewer \<noteq> ''admin''" by (simp add: viewer_sels)
    from exposures_in_scope [OF r(1) this x] show "owns_project (iv_tenant sample_inventory) ''u1'' (xr_ProjectID x)"
      unfolding viewer_sels by blast
  qed
  ultimately show ?thesis using r(1) by blast
qed

lemma affected_leak_witness:
  "sample_vuln \<notin> set (all_vulns sample_inventory sample_vuln_filter) \<and>
    (\<exists>fs. GetVulnerabilityAffected sample_vuln_view ''v1'' sample_inventory = Inr fs \<and>
      (\<exists>x \<in> set fs. fd_Title (wa_Row x) = fd_Title (set_vuln ''v1'' (sample_stored ''f1'')) \<and> wa_ProjectName x = pw_Name sample_project))"
proof -
  have scan: "tn_scans (iv_tenant sample_inventory) = tn_scans sample_tenant" "tn_projects (iv_tenant sample_inventory) = tn_projects sample_tenant"
    by code_simp+
  let ?s = "hd (tn_scans sample_tenant)"
  have s: "?s \<in> set (tn_scans sample_tenant)" "sn_ID ?s = ''s1''" "sn_Project ?s = Some (pw_ID sample_project)"
    by (simp_all add: sample_tenant_def Scan_Insert_def sample_project_def new_project_def)
  have f: "fd_ScanID (set_vuln ''v1'' (sample_stored ''f1'')) = ''s1''" by code_simp
  have "project_join (iv_tenant sample_inventory) ''u9'' (Some ''p1'') = []" by code_simp
  then have own: "\<not> owns_project (iv_tenant sample_inventory) ''u9'' (vr_ProjectID sample_vuln)"
    using project_join_owns [of "iv_tenant sample_inventory" "''u9''" "''p1''"] by (simp add: sample_vuln_def new_vuln_def sample_upsert_def)
  show ?thesis
    by (rule affected_leak [where c = "sample_viewer\<lparr>cm_UserID := ''u9''\<rparr>" and s = ?s, OF sample_vuln_view_sels(1)])
      (use own s f scan in \<open>simp_all add: sample_vuln_view_sels viewer_sels sample_inventory_def sample_vuln_def new_vuln_def set_vuln_def
        sample_vuln_filter_def claims_scope_def sample_tenant_def\<close>)
qed

lemma reappearing_vuln_hidden_witness:
  "\<exists>v db1 w vulns2. UpdateVulnerabilityStatus sample_vuln_view ''v1'' (Some ''fixed'') sample_inventory = (Inr v, db1) \<and>
     Upsert (\<lambda>_. None) ''v2'' 9 (sample_upsert ''high'') (iv_vulns db1) = (Inr w, vulns2) \<and> vr_Status w = ''fixed''"
proof -
  let ?u = "UpdateVulnerabilityStatus sample_vuln_view ''v1'' (Some ''fixed'') sample_inventory"
  have "case ?u of (r, db1) \<Rightarrow> map_sum (\<lambda>e. ()) (\<lambda>v. (same_vuln (sample_upsert ''high'') v, vulns_ok (iv_vulns db1))) r = Inr (True, True)"
    by code_simp
  then obtain v db1 where u: "?u = (Inr v, db1)" "same_vuln (sample_upsert ''high'') v" "vulns_ok (iv_vulns db1)"
    by (cases ?u; cases "fst ?u") auto
  have "case ?u of (r, db1) \<Rightarrow> map_sum (\<lambda>e. ()) (\<lambda>w. ()) (fst (Upsert (\<lambda>_. None) ''v2'' 9 (sample_upsert ''high'') (iv_vulns db1))) = Inr ()"
    by code_simp
  then obtain w vulns2 where w: "Upsert (\<lambda>_. None) ''v2'' 9 (sample_upsert ''high'') (iv_vulns db1) = (Inr w, vulns2)"
    unfolding u(1) prod.case by (cases "Upsert (\<lambda>_. None) ''v2'' 9 (sample_upsert ''high'') (iv_vulns db1)"; cases "fst (Upsert (\<lambda>_. None) ''v2'' 9 (sample_upsert ''high'') (iv_vulns db1))") auto
  then show ?thesis using reappearing_vuln_hidden [OF u(1,3,2) w, of sample_vuln_filter] u(1) by (auto simp: sample_vuln_filter_def)
qed

lemma engine_summary_counts_witness:
  "\<exists>s. GetProjectEngineSummaries sample_vuln_view Admin sample_inventory = Inr [s] \<and>
     eg_TotalVulns s = length (filter (\<lambda>(v, p, a). pw_ID p = eg_ProjectID s) (engine_rows sample_inventory Admin))"
proof -
  let ?g = "GetProjectEngineSummaries sample_vuln_view Admin sample_inventory"
  have "map_sum (\<lambda>e. ()) length ?g = Inr 1" by code_simp
  then obtain s where s: "?g = Inr [s]" by (cases ?g) (auto simp: length_Suc_conv)
  then show ?thesis using engine_summary_counts [OF s, of s] by simp
qed

end
