(* ===== verification/Github_Discovery.thy ===== *)
theory Github_Discovery
  imports Prelude
begin

text \<open>
  Finding repositories on GitHub (\<^verbatim>\<open>src/internal/github/discovery.go\<close>): the patterns, the listing that
  reads page after page, the single repository, the search, and the check of a token.  The service and
  the decoding of its answers are functions of the environment.  The listing stops only at an empty page
  or at its limit, so it is a partial function: \<open>None\<close> is a listing that never returns.
\<close>

section \<open>Repositories\<close>

record gh_repo =
  gr_FullName :: string
  gr_Name :: string
  gr_Description :: string
  gr_HTMLURL :: string
  gr_DefaultBranch :: string

record repo_info =
  ri_FullName :: string
  ri_Name :: string
  ri_Description :: string
  ri_RepoURL :: string
  ri_DefaultBranch :: string

text \<open>\<open>gd_get\<close> is the request with its token: the error of building it, of the connection or of reading the answer, as the
  code wraps it, or the status and the body.  The
  other functions decode a body; \<open>gd_message\<close> gives the message of an error.
  \<open>gd_quote\<close> is the verb \<^verbatim>\<open>%q\<close>.\<close>

record github_env =
  gd_get :: "string \<Rightarrow> string \<Rightarrow> string + nat \<times> string"
  gd_repos :: "string \<Rightarrow> string + gh_repo list"
  gd_repo :: "string \<Rightarrow> string + gh_repo"
  gd_items :: "string \<Rightarrow> string + gh_repo list"
  gd_message :: "string \<Rightarrow> string option"
  gd_quote :: "string \<Rightarrow> string"

definition toRepoInfo :: "gh_repo \<Rightarrow> repo_info" where
  "toRepoInfo r = \<lparr>ri_FullName = gr_FullName r, ri_Name = gr_Name r,
     ri_Description = (if 200 < length (gr_Description r) then take 200 (gr_Description r) else gr_Description r),
     ri_RepoURL = gr_HTMLURL r, ri_DefaultBranch = (if gr_DefaultBranch r = [] then ''main'' else gr_DefaultBranch r)\<rparr>"

definition bool_str :: "bool \<Rightarrow> string" where
  "bool_str b = (if b then ''true'' else ''false'')"

definition ghGet :: "github_env \<Rightarrow> (string \<Rightarrow> string + 'a) \<Rightarrow> string \<Rightarrow> string \<Rightarrow> string + 'a" where
  "ghGet env decode url tok =
     (case gd_get env url tok of
        Inl e \<Rightarrow> Inl e
      | Inr (status, body) \<Rightarrow>
        if status \<noteq> 200 then
          (case gd_message env body of
            Some m \<Rightarrow>
              if m = [] then Inl (''GitHub API: HTTP '' @ nat_str status)
              else if (status = 403 \<or> status = 429) \<and> contains m ''rate limit''
              then Inl (''GitHub API rate limit exceeded (token: '' @ bool_str (tok \<noteq> []) @ '')'')
              else Inl (''GitHub API: '' @ m)
          | None \<Rightarrow> Inl (''GitHub API: HTTP '' @ nat_str status))
        else decode body)"

section \<open>Listing\<close>

definition name_matches :: "string \<Rightarrow> gh_repo \<Rightarrow> bool" where
  "name_matches pre r \<longleftrightarrow> pre = [] \<or> has_prefix (gr_Name r) pre"

fun collect :: "string \<Rightarrow> nat \<Rightarrow> repo_info list \<Rightarrow> gh_repo list \<Rightarrow> repo_info list" where
  "collect pre limit found [] = found"
| "collect pre limit found (r # rs) =
     (if name_matches pre r
      then (if limit \<le> length (found @ [toRepoInfo r]) then found @ [toRepoInfo r] else collect pre limit (found @ [toRepoInfo r]) rs)
      else collect pre limit found rs)"

definition page_url :: "string \<Rightarrow> nat \<Rightarrow> string" where
  "page_url baseURL page = baseURL @ ''?per_page=100&page='' @ nat_str page @ ''&sort=full_name''"

partial_function (option) list_pages ::
  "github_env \<Rightarrow> string \<Rightarrow> string \<Rightarrow> string \<Rightarrow> string \<Rightarrow> nat \<Rightarrow> nat \<Rightarrow> repo_info list \<Rightarrow> (string + repo_info list) option" where
  "list_pages env baseURL label pre tok limit page found =
     (if limit \<le> length found then Some (Inr found)
      else (case ghGet env (gd_repos env) (page_url baseURL page) tok of
          Inl e \<Rightarrow> Some (if found = [] then Inl (''fetch '' @ label @ '' repos: '' @ e) else Inr found)
        | Inr repos \<Rightarrow>
            if repos = [] then Some (Inr found)
            else list_pages env baseURL label pre tok limit (page + 1) (collect pre limit found repos)))"

definition listRepos :: "github_env \<Rightarrow> string \<Rightarrow> string \<Rightarrow> string \<Rightarrow> string \<Rightarrow> nat \<Rightarrow> (string + repo_info list) option" where
  "listRepos env baseURL label pre tok limit = list_pages env baseURL label pre tok limit 1 []"

definition listOrgRepos :: "github_env \<Rightarrow> string \<Rightarrow> string \<Rightarrow> string \<Rightarrow> nat \<Rightarrow> (string + repo_info list) option" where
  "listOrgRepos env org pre tok limit = listRepos env (''https://api.github.com/orgs/'' @ org @ ''/repos'') org pre tok limit"

definition listUserRepos :: "github_env \<Rightarrow> string \<Rightarrow> string \<Rightarrow> string \<Rightarrow> nat \<Rightarrow> (string + repo_info list) option" where
  "listUserRepos env username pre tok limit = listRepos env (''https://api.github.com/users/'' @ username @ ''/repos'') username pre tok limit"

definition getSingleRepo :: "github_env \<Rightarrow> string \<Rightarrow> string \<Rightarrow> string \<Rightarrow> string + repo_info" where
  "getSingleRepo env owner repo tok =
     (case ghGet env (gd_repo env) (''https://api.github.com/repos/'' @ owner @ ''/'' @ repo) tok of
        Inl e \<Rightarrow> Inl e | Inr r \<Rightarrow> Inr (toRepoInfo r))"

definition plus_spaces :: "string \<Rightarrow> string" where
  "plus_spaces q = map (\<lambda>c. if c = CHR '' '' then CHR ''+'' else c) q"

definition searchRepos :: "github_env \<Rightarrow> string \<Rightarrow> string \<Rightarrow> nat \<Rightarrow> string + repo_info list" where
  "searchRepos env query tok limit =
     (case ghGet env (gd_items env) (''https://api.github.com/search/repositories?q='' @ plus_spaces query @ ''&per_page='' @ nat_str limit @
         ''&sort=stars&order=desc'') tok of
        Inl e \<Rightarrow> Inl (''search repos: '' @ e)
      | Inr items \<Rightarrow> Inr (map toRepoInfo (take limit items)))"

section \<open>Patterns\<close>

definition star :: string where "star = ''*''"

text \<open>\<^verbatim>\<open>strings.SplitN(s, "/", 2)\<close> where there is a slash.\<close>

definition split_slash :: "string \<Rightarrow> (string \<times> string) option" where
  "split_slash s = cut s ''/''"

definition full_name :: "string \<Rightarrow> string" where
  "full_name pattern =
     (if has_prefix pattern ''https://github.com/''
      then (case split_slash (trim_cutset ''/'' (trim_prefix pattern ''https://github.com/'')) of
          Some (a, b) \<Rightarrow> a @ ''/'' @ b | None \<Rightarrow> pattern)
      else pattern)"

definition lookup_or_search :: "github_env \<Rightarrow> string \<Rightarrow> string \<Rightarrow> nat \<Rightarrow> string + repo_info list" where
  "lookup_or_search env pattern tok limit =
     (case split_slash pattern of
        Some (owner, repo) \<Rightarrow>
          if contains repo star then searchRepos env pattern tok limit
          else (case getSingleRepo env owner repo tok of
              Inr r \<Rightarrow> Inr [r] | Inl e \<Rightarrow> searchRepos env pattern tok limit)
      | None \<Rightarrow> searchRepos env pattern tok limit)"

definition org_pattern :: "github_env \<Rightarrow> string \<Rightarrow> string \<Rightarrow> nat \<Rightarrow> (string + repo_info list) option" where
  "org_pattern env pattern tok limit =
     (if has_suffix pattern ''/*'' then
        (let org = trim_suffix pattern ''/*'' in
         if org = [] \<or> contains org ''/'' then Some (Inl (''invalid org pattern '' @ gd_quote env pattern @ '', expected org/*''))
         else listOrgRepos env org [] tok limit)
      else (case split_slash pattern of
          Some (org, rest) \<Rightarrow>
            if contains rest star then listOrgRepos env org (trim_right_cutset star rest) tok limit
            else Some (lookup_or_search env (full_name pattern) tok limit)
        | None \<Rightarrow> Some (lookup_or_search env (full_name pattern) tok limit)))"

definition ResolvePattern :: "github_env \<Rightarrow> string \<Rightarrow> string \<Rightarrow> int \<Rightarrow> (string + repo_info list) option" where
  "ResolvePattern env pattern tok limit =
     (let limit = (if limit \<le> 0 then 50 else nat limit); pattern = trim_space pattern in
      if pattern = [] then Some (Inl ''pattern is required'')
      else if has_prefix pattern ''@'' \<and> has_suffix pattern ''/*'' then
        (let username = trim_suffix (trim_prefix pattern ''@'') ''/*'' in
         if username = [] \<or> contains username ''/'' then Some (Inl (''invalid user pattern '' @ gd_quote env pattern @ '', expected @username/*''))
         else listUserRepos env username [] tok limit)
      else if has_prefix pattern ''@'' then
        (case split_slash (trim_prefix pattern ''@'') of
          Some (username, rest) \<Rightarrow>
            if contains rest star then listUserRepos env username (trim_right_cutset star rest) tok limit
            else org_pattern env pattern tok limit
        | None \<Rightarrow> org_pattern env pattern tok limit)
      else org_pattern env pattern tok limit)"

section \<open>Tokens\<close>

record token_validation =
  tv_Valid :: bool
  tv_Login :: string
  tv_Scopes :: "string list"
  tv_ExpiresAt :: "int option"
  tv_Error :: string

text \<open>The answer to the request for the user of a token: the headers with the scopes and the expiry, and the
  decoding of the body.\<close>

record token_reply =
  tr_Status :: nat
  tr_User :: "string + string"
  tr_Scopes :: string
  tr_Expiration :: string

record github_token_env =
  tk_user :: "string \<Rightarrow> string + token_reply"
  tk_time_mst :: "string \<Rightarrow> int option"
  tk_time_rfc3339 :: "string \<Rightarrow> int option"

definition invalid_token :: "string \<Rightarrow> token_validation" where
  "invalid_token e = \<lparr>tv_Valid = False, tv_Login = [], tv_Scopes = [], tv_ExpiresAt = None, tv_Error = e\<rparr>"

function split_list :: "string \<Rightarrow> string list" where
  "split_list s = (case cut s '', '' of None \<Rightarrow> [s] | Some (a, b) \<Rightarrow> a # split_list b)"
  by pat_completeness auto
termination
  by (relation "measure length") (auto dest: cut_Some)

declare split_list.simps [simp del]

definition split_scopes :: "string \<Rightarrow> string list" where
  "split_scopes s = (if s = [] then [] else map trim_space (split_list s))"

definition token_expiry :: "github_token_env \<Rightarrow> string \<Rightarrow> int option" where
  "token_expiry env e =
     (if e = [] then None else (case tk_time_mst env e of Some t \<Rightarrow> Some t | None \<Rightarrow> tk_time_rfc3339 env e))"

definition ValidateToken :: "github_token_env \<Rightarrow> string \<Rightarrow> token_validation" where
  "ValidateToken env tok =
     (if tok = [] then \<lparr>tv_Valid = True, tv_Login = [], tv_Scopes = [], tv_ExpiresAt = None, tv_Error = []\<rparr>
      else (case tk_user env tok of
          Inl e \<Rightarrow> invalid_token (''request failed: '' @ e)
        | Inr r \<Rightarrow>
          if tr_Status r \<noteq> 200 then invalid_token (''invalid token (HTTP '' @ nat_str (tr_Status r) @ '')'')
          else (case tr_User r of
              Inl e \<Rightarrow> invalid_token (''parse response: '' @ e)
            | Inr login \<Rightarrow> \<lparr>tv_Valid = True, tv_Login = login, tv_Scopes = split_scopes (tr_Scopes r),
                tv_ExpiresAt = token_expiry env (tr_Expiration r), tv_Error = []\<rparr>)))"

section \<open>What a listing returns\<close>

lemma collect_spec:
  "length found < limit \<Longrightarrow> collect pre limit found rs = take limit (found @ map toRepoInfo (filter (name_matches pre) rs))"
proof (induction pre limit found rs rule: collect.induct)
  case (2 pre limit found r rs)
  show ?case
  proof (cases "name_matches pre r \<and> limit \<le> Suc (length found)")
    case True
    then have "limit = Suc (length found)" using 2(3) by simp
    then show ?thesis using True by simp
  next
    case False
    then show ?thesis using 2 by auto
  qed
qed simp

definition serves :: "github_env \<Rightarrow> string \<Rightarrow> string \<Rightarrow> (nat \<Rightarrow> gh_repo list) \<Rightarrow> bool" where
  "serves env baseURL tok pages \<longleftrightarrow> (\<forall>k. ghGet env (gd_repos env) (page_url baseURL k) tok = Inr (pages k))"

lemma list_pages_spec:
  assumes "serves env baseURL tok pages" "pages (page + n) = []" "\<forall>k < n. pages (page + k) \<noteq> []" "length found \<le> limit"
  shows "list_pages env baseURL label pre tok limit page found =
    Some (Inr (take limit (found @ map toRepoInfo (filter (name_matches pre) (concat (map pages [page..<page + n]))))))"
  using assms(2-)
proof (induction n arbitrary: page found)
  case 0
  then show ?case using assms(1) by (subst list_pages.simps) (simp add: serves_def)
next
  case (Suc n)
  show ?case
  proof (cases "limit \<le> length found")
    case True
    then show ?thesis using Suc.prems by (subst list_pages.simps) simp
  next
    case False
    let ?f = "collect pre limit found (pages page)" and ?new = "map toRepoInfo (filter (name_matches pre) (pages page))"
    have f: "?f = take limit (found @ ?new)" using False by (simp add: collect_spec)
    have "pages page \<noteq> []" using Suc.prems(2) by (metis add_0_right zero_less_Suc)
    then have "list_pages env baseURL label pre tok limit page found = list_pages env baseURL label pre tok limit (page + 1) ?f"
      using False assms(1) by (subst list_pages.simps) (simp add: serves_def)
    also have "\<dots> = Some (Inr (take limit (?f @ map toRepoInfo (filter (name_matches pre) (concat (map pages [page + 1..<page + 1 + n]))))))"
      by (rule Suc.IH) (use Suc.prems f in \<open>auto simp: add.assoc\<close>)
    also have "take limit (?f @ xs) = take limit (found @ ?new @ xs)" for xs
      unfolding f by (cases "limit \<le> length (found @ ?new)") (simp_all add: min_def)
    also have "[page..<page + Suc n] = page # [page + 1..<page + 1 + n]" by (simp add: upt_conv_Cons)
    ultimately show ?thesis by simp
  qed
qed

text \<open>The listing of an organisation returns, and gives the first repositories of the wanted number whose name
  has the prefix, in the order of the pages, when the service has no more after some page.\<close>

theorem listing_exact:
  assumes "serves env (''https://api.github.com/orgs/'' @ org @ ''/repos'') tok pages" "pages (1 + n) = []" "\<forall>k < n. pages (1 + k) \<noteq> []"
  shows "listOrgRepos env org pre tok limit =
    Some (Inr (map toRepoInfo (take limit (filter (name_matches pre) (concat (map pages [1..<1 + n]))))))"
  using list_pages_spec [OF assms, of "[]" limit] by (simp add: listOrgRepos_def listRepos_def take_map)

lemma list_pages_stuck:
  assumes "list_pages env baseURL label pre tok limit page found = Some r"
  shows "serves env baseURL tok pages \<longrightarrow> (\<forall>k. pages k \<noteq> [] \<and> filter (name_matches pre) (pages k) = []) \<longrightarrow> found = [] \<longrightarrow> limit = 0"
proof (rule list_pages.raw_induct [OF _ assms])
  fix go :: "github_env \<Rightarrow> string \<Rightarrow> string \<Rightarrow> string \<Rightarrow> string \<Rightarrow> nat \<Rightarrow> nat \<Rightarrow> repo_info list \<Rightarrow> (string + repo_info list) option"
    and env :: github_env and baseURL label pre tok :: string and limit page :: nat and found :: "repo_info list" and y :: "string + repo_info list"
  assume IH: "\<And>env baseURL label pre tok limit page found y. go env baseURL label pre tok limit page found = Some y \<Longrightarrow>
      serves env baseURL tok pages \<longrightarrow> (\<forall>k. pages k \<noteq> [] \<and> filter (name_matches pre) (pages k) = []) \<longrightarrow> found = [] \<longrightarrow> limit = 0"
    and body: "(if limit \<le> length found then Some (Inr found)
      else (case ghGet env (gd_repos env) (page_url baseURL page) tok of
          Inl e \<Rightarrow> Some (if found = [] then Inl (''fetch '' @ label @ '' repos: '' @ e) else Inr found)
        | Inr repos \<Rightarrow>
            if repos = [] then Some (Inr found)
            else go env baseURL label pre tok limit (page + 1) (collect pre limit found repos))) = Some y"
  show "serves env baseURL tok pages \<longrightarrow> (\<forall>k. pages k \<noteq> [] \<and> filter (name_matches pre) (pages k) = []) \<longrightarrow> found = [] \<longrightarrow> limit = 0"
  proof (intro impI, rule ccontr)
    assume h: "serves env baseURL tok pages" "\<forall>k. pages k \<noteq> [] \<and> filter (name_matches pre) (pages k) = []" "found = []" "limit \<noteq> 0"
    have "ghGet env (gd_repos env) (page_url baseURL page) tok = Inr (pages page)" "pages page \<noteq> []"
      using h(1,2) by (auto simp: serves_def)
    moreover have "collect pre limit [] (pages page) = []" using h(2,4) by (simp add: collect_spec)
    ultimately have "go env baseURL label pre tok limit (page + 1) [] = Some y" using body h(3,4) by simp
    then show False using IH h by blast
  qed
qed

text \<open>A service that keeps giving pages without a repository of the prefix keeps the request for ever: the
  listing has no bound of its own on the pages it reads.\<close>

theorem listing_unbounded:
  assumes "serves env (''https://api.github.com/orgs/'' @ org @ ''/repos'') tok pages"
    and "\<forall>k. pages k \<noteq> [] \<and> filter (name_matches pre) (pages k) = []" "0 < limit"
  shows "listOrgRepos env org pre tok limit = None"
  using list_pages_stuck [of env _ _ pre tok limit 1 "[]" _ pages] assms by (cases "listOrgRepos env org pre tok limit") (auto simp: listOrgRepos_def listRepos_def)

text \<open>The names of repositories have no star, so a prefix with one finds nothing.\<close>

lemma star_prefix: "CHR ''*'' \<in> set pre \<Longrightarrow> CHR ''*'' \<notin> set (gr_Name r) \<Longrightarrow> \<not> name_matches pre r"
  by (auto simp: name_matches_def has_prefix_iff)

lemma cut_first: "CHR ''/'' \<notin> set a \<Longrightarrow> cut (a @ ''/'' @ b) ''/'' = Some (a, b)"
proof -
  assume a: "CHR ''/'' \<notin> set a"
  then have "index_of (a @ ''/'' @ b) ''/'' = Some (length a)" by (induction a) (auto simp: has_prefix_iff)
  then show ?thesis by (simp add: cut_def)
qed

text \<open>A pattern with a star that is not at the end, such as an organisation with the suffix of a name, is no
  search, as the documentation of the function has it for every other pattern: the star is taken as part of
  a prefix, and the answer is empty whatever the repositories of the organisation are.\<close>

theorem inner_star_finds_nothing:
  assumes "pattern = org @ ''/*'' @ suf" "suf \<noteq> []" "last suf \<noteq> CHR ''*''" "CHR ''/'' \<notin> set org" "org \<noteq> []" "hd org \<noteq> CHR ''@''" "trim_space pattern = pattern"
    and "serves env (''https://api.github.com/orgs/'' @ org @ ''/repos'') tok pages" "pages (1 + n) = []" "\<forall>k < n. pages (1 + k) \<noteq> []"
    and "\<forall>k. \<forall>r \<in> set (pages k). CHR ''*'' \<notin> set (gr_Name r)"
  shows "ResolvePattern env pattern tok limit = Some (Inr [])"
proof -
  let ?limit = "if limit \<le> 0 then 50 else nat limit"
  have rev: "rev suf = last suf # rev (butlast suf)" using append_butlast_last_id [OF assms(2)] by (metis rev_eq_Cons_iff rev_rev_ident)
  have pre: "trim_right_cutset star (''*'' @ suf) = ''*'' @ suf"
    using assms(3) by (simp add: trim_right_cutset_def star_def rev append_butlast_last_id [OF assms(2)])
  have at: "\<not> has_prefix pattern ''@''" using assms(1,5,6) by (cases org) (auto simp: has_prefix_iff)
  have suffix: "\<not> has_suffix pattern ''/*''"
  proof
    assume "has_suffix pattern ''/*''"
    then obtain x where "pattern = x @ ''/*''" by (auto simp: has_suffix_iff)
    then have "last pattern = CHR ''*''" by simp
    moreover have "last pattern = last suf" using assms(1,2) by simp
    ultimately show False using assms(3) by simp
  qed
  have cut: "split_slash pattern = Some (org, ''*'' @ suf)"
    using cut_first [OF assms(4)] assms(1) by (simp add: split_slash_def)
  have "contains (''*'' @ suf) star" by (simp add: star_def contains_def)
  then have "org_pattern env pattern tok ?limit = listOrgRepos env org (''*'' @ suf) tok ?limit"
    using suffix cut pre by (simp add: org_pattern_def)
  moreover have "listOrgRepos env org (''*'' @ suf) tok ?limit = Some (Inr [])"
  proof -
    have "filter (name_matches (''*'' @ suf)) (concat (map pages [1..<1 + n])) = []"
      using assms(11) star_prefix [of "''*'' @ suf"] by (auto simp: filter_empty_conv)
    then show ?thesis
      using list_pages_spec [OF assms(8,9,10), of "[]" ?limit org "''*'' @ suf"] by (simp add: listOrgRepos_def listRepos_def)
  qed
  moreover have "pattern \<noteq> []" using assms(1) by simp
  ultimately show ?thesis using at assms(7) by (simp add: ResolvePattern_def Let_def)
qed

section \<open>Instances\<close>

definition sample_repo :: "string \<Rightarrow> gh_repo" where
  "sample_repo name = \<lparr>gr_FullName = ''o/'' @ name, gr_Name = name, gr_Description = [], gr_HTMLURL = ''https://github.com/o/'' @ name,
     gr_DefaultBranch = []\<rparr>"

definition sample_pages :: "nat \<Rightarrow> gh_repo list" where
  "sample_pages k = (if page_url ''https://api.github.com/orgs/o/repos'' k = page_url ''https://api.github.com/orgs/o/repos'' 1
     then [sample_repo ''shop-api'', sample_repo ''web'', sample_repo ''shop-ui''] else [])"

definition sample_github_api :: github_env where
  "sample_github_api = \<lparr>gd_get = (\<lambda>url tok. Inr (200, url)),
     gd_repos = (\<lambda>body. Inr (if body = page_url ''https://api.github.com/orgs/o/repos'' 1
       then [sample_repo ''shop-api'', sample_repo ''web'', sample_repo ''shop-ui''] else [])),
     gd_repo = (\<lambda>_. Inl ''Not Found''), gd_items = (\<lambda>_. Inr []), gd_message = (\<lambda>_. None), gd_quote = (\<lambda>s. s)\<rparr>"

lemma sample_serves: "serves sample_github_api ''https://api.github.com/orgs/o/repos'' tok sample_pages"
  by (simp add: serves_def ghGet_def sample_github_api_def sample_pages_def)

lemma sample_two_pages: "sample_pages (1 + 1) = []" "\<forall>k < 1. sample_pages (1 + k) \<noteq> []"
proof -
  show "sample_pages (1 + 1) = []" by code_simp
qed (simp add: sample_pages_def)

lemma listing_exact_witness:
  "map_option (map_sum (\<lambda>e. e) (map ri_Name)) (listOrgRepos sample_github_api ''o'' ''shop-'' [] 50) = Some (Inr [''shop-api'', ''shop-ui''])"
proof -
  have "filter (name_matches ''shop-'') (sample_pages 1) = [sample_repo ''shop-api'', sample_repo ''shop-ui'']"
    by (simp add: sample_pages_def name_matches_def sample_repo_def)
  then show ?thesis
    using listing_exact [of sample_github_api "''o''" "[]" sample_pages 1 "''shop-''" 50] sample_serves sample_two_pages
    by (simp add: toRepoInfo_def sample_repo_def)
qed

lemma listing_unbounded_witness:
  "listOrgRepos (sample_github_api\<lparr>gd_repos := (\<lambda>_. Inr [sample_repo ''web''])\<rparr>) ''o'' ''shop-'' [] 50 = None"
  by (rule listing_unbounded [where pages = "\<lambda>_. [sample_repo ''web'']"])
    (simp_all add: serves_def ghGet_def sample_github_api_def name_matches_def sample_repo_def)

lemma inner_star_finds_nothing_witness: "ResolvePattern sample_github_api ''o/*-api'' [] 50 = Some (Inr [])"
proof (rule inner_star_finds_nothing [where org = "''o''" and suf = "''-api''" and pages = sample_pages and n = 1])
  show "serves sample_github_api (''https://api.github.com/orgs/'' @ ''o'' @ ''/repos'') [] sample_pages" using sample_serves by simp
  show "trim_space ''o/*-api'' = ''o/*-api''" by code_simp
  show "\<forall>k. \<forall>r \<in> set (sample_pages k). CHR ''*'' \<notin> set (gr_Name r)" by (auto simp: sample_pages_def sample_repo_def)
qed (use sample_two_pages in simp_all)

end
