(* ===== verification/Spec2Isabelle.thy ===== *)
theory Spec2Isabelle
  imports Scanner_Parsers Threat_Sync Scan_Pipeline Snippet_Enrich Api_Tokens Webhook_Delivery Ai_Agents Vuln_View Github_Discovery
begin

text \<open>
  HenKaiPan is an application-security server: it clones repositories, runs scanners on them,
  stores what they find, corroborates and judges the findings, matches the dependencies of each
  project against public advisories, and tells people.  This development models its Go code under
  \<^verbatim>\<open>src/internal\<close> as functions of explicit state and proves what the parts promise, alone
  and together.  Every mapped definition follows one function of the source, with its guards, error
  texts and order of effects.

  \<^bold>\<open>Parts and theories.\<close>  Arrows of import run from the callee to the caller.
  \<^item> \<^verbatim>\<open>Prelude\<close>: Go strings as byte lists and the functions of \<^verbatim>\<open>strings\<close>, \<^verbatim>\<open>strconv\<close>,
    \<^verbatim>\<open>bufio\<close>, times, tables (\<open>update_where\<close>, \<open>row_by\<close>), and three of the locales below.
  \<^item> \<^verbatim>\<open>Scanner_Registry\<close> (\<^verbatim>\<open>scanner/registry.go\<close>, \<^verbatim>\<open>executor.go\<close>) and \<^verbatim>\<open>Scanner_Parsers\<close>
    (\<^verbatim>\<open>parsers.go\<close>): the scanners, the packs, the command line, and the eight output formats.
  \<^item> \<^verbatim>\<open>Threat_Manifest\<close>, \<^verbatim>\<open>Threat_Matcher\<close>, \<^verbatim>\<open>Threat_Osv\<close> (\<^verbatim>\<open>threats/\<close>), \<^verbatim>\<open>Threat_Store\<close>
    (\<^verbatim>\<open>repository/threats.go\<close>) and \<^verbatim>\<open>Threat_Sync\<close> (\<^verbatim>\<open>tasks/threatintel.go\<close> and its helpers):
    manifests to inventory, inventory and advisories to hits, hits to rows, and the periodic job.
  \<^item> \<^verbatim>\<open>Finding_Store\<close>, \<^verbatim>\<open>Correlation\<close> (\<^verbatim>\<open>repository/scan.go\<close>, \<^verbatim>\<open>finding.go\<close>),
    \<^verbatim>\<open>Vuln_Store\<close> (\<^verbatim>\<open>vulnerability_new.go\<close>, \<^verbatim>\<open>vulnerability/uid.go\<close>) and \<^verbatim>\<open>Policy_Engine\<close>
    (\<^verbatim>\<open>policy.go\<close>, \<^verbatim>\<open>tasks/policy_engine.go\<close>): the tables of scans, findings, corroborations,
    vulnerabilities, policies and suppressions.
  \<^item> \<^verbatim>\<open>Task_Queue\<close> (\<^verbatim>\<open>tasks/queue_types.go\<close>, \<^verbatim>\<open>email.go\<close>), \<^verbatim>\<open>Scan_Clone\<close> (the clone helpers),
    \<^verbatim>\<open>Scan_Pipeline\<close> (\<^verbatim>\<open>tasks/scan_run.go\<close>), \<^verbatim>\<open>Snippet_Enrich\<close> (\<^verbatim>\<open>scanner/snippet.go\<close>,
    \<^verbatim>\<open>tasks/snippet_enrich.go\<close>): what a worker does with a queued scan.
  \<^item> \<^verbatim>\<open>Project_Store\<close> (projects, ownership, data scope, secrets) and \<^verbatim>\<open>Scan_Intake\<close>
    (\<^verbatim>\<open>handlers/scans.go\<close>, schedules and their ticker): how scans are asked for.
  \<^item> \<^verbatim>\<open>Rate_Limit\<close>, \<^verbatim>\<open>Access_Users\<close>, \<^verbatim>\<open>Access_Session\<close>, \<^verbatim>\<open>Api_Tokens\<close>: the token bucket and the
    windows, accounts and single sign-on, sessions and the guards of the routes, API keys.
  \<^item> \<^verbatim>\<open>Event_Hub\<close>: the server-sent events.  \<^verbatim>\<open>Webhook_Format\<close> and \<^verbatim>\<open>Webhook_Delivery\<close>: bodies,
    table, handlers and delivery of webhooks.
  \<^item> \<^verbatim>\<open>Ai_Providers\<close>, \<^verbatim>\<open>Ai_Agents\<close>: access to language models, summaries and judgements.
  \<^item> \<^verbatim>\<open>Collab_Notes\<close> (comments, teams, notifications, audit log, risk acceptances),
    \<^verbatim>\<open>Finding_View\<close> (the list, export, detail page and updates of findings), \<^verbatim>\<open>Settings_Jira\<close>
    (\<^verbatim>\<open>repository/settings.go\<close>, \<^verbatim>\<open>jira/client.go\<close>: settings and tickets) and \<^verbatim>\<open>Metrics_Report\<close>
    (\<^verbatim>\<open>repository/metrics.go\<close>, \<^verbatim>\<open>tasks/digest.go\<close>, \<^verbatim>\<open>report.go\<close>): what people read and change.

  \<^bold>\<open>How they interact.\<close>  A request (\<open>CreateScan\<close>, \<open>CreateExternalScan\<close>, \<open>runDueSchedules\<close>)
  goes through \<open>createScanRecords\<close>, which adds pending rows and a \<open>ScanRun\<close> task for each.  The
  worker runs \<open>HandleScan\<close>: \<open>cloneRepo\<close>, \<open>RunScanner\<close>, the parser of the scanner, then per
  row \<open>IsSuppressed\<close>, insertion, \<open>applyPolicies\<close>, \<open>Upsert\<close> of the vulnerability, alerts, and
  \<open>RefreshBatchCorrelation\<close>.  Alerts go through \<open>enqueueWebhookEvent\<close> to \<open>HandleWebhookSend\<close>.
  The properties at the end of this theory follow such a chain across theories.

  \<^bold>\<open>State and effects.\<close>  A table is a list of records, one per row, in the order of insertion, and
  each record field is a column.  A statement is a function on tables; where the source checks its error,
  the environment record of the component says which statements fail, with their message.  An
  operation returns a sum (\<open>Inl\<close> the error, with the status code for handlers) or an option beside
  the new state, so each early return is a branch.  Run-time panics are values (\<open>ClonePanic\<close>, an
  option in the hub).  Time, new identifiers, HTTP, DNS, git, the file system, bcrypt, HMAC, AES,
  JSON text, language models, SMTP and cron expressions are fields of the environment records; their
  documented laws are named hypotheses where a property needs them.

  \<^bold>\<open>Interfaces.\<close>  \<open>invariant_machine\<close> (an invariant of a step relation holds in every
  reachable state) is interpreted for the tables of scans, findings, hits, projects, webhooks and
  summaries, for the tickets of findings, and for the event hub; \<open>first_occurrence\<close> (keep the first of each key) for advisory
  identifiers, advisories, and the rows of a scan; \<open>three_way\<close> for version comparison; \<open>paged_query\<close> (the pages of a query make up its result) for
  the list of findings and the audit log.

  \<^bold>\<open>Lemma groups.\<close>  In each theory: laws of the helpers; a frame lemma per operation (what it
  leaves alone) and a case lemma (what it returns on each branch); preservation of the invariant of its
  table; then the properties, each a few steps over those; then instances on concrete states.

  \<^bold>\<open>Bounds and termination.\<close>  Loops over lists are structural recursion.  The backfill of links
  (\<^verbatim>\<open>BackfillLinks\<close>) repeats until a batch comes back short; it recurses on the
  number of unlinked findings, which each full batch lowers, so no fuel is involved.  Four-byte
  counters of the database overflow into an error of the statement (\<open>max_int4\<close>).  Channels of the
  hub keep their capacities; entries of Redis expire by the clock of the environment.  JSON numbers and
  scores, floats in the source, are rationals, and Go's 64-bit integers that count rows or seconds
  are unbounded.  A list statement with LIMIT keeps its limit; where the source gives no ORDER BY, the
  order is that of the table.

  \<^bold>\<open>Not modelled.\<close>  Process start-up and route registration, configuration from environment
  variables, telemetry and logging, schema migration against a live database, the clients of GitHub,
  Jira and the model services below their HTTP calls, and the web frontend are input and output without
  decisions of their own.  Read-only listings with filters and the MCP endpoint, which render rows,
  are left out where nothing above depends on them.  Concurrency is modelled where the code handles it (the hub, the
  insertion conflicts, the buckets): tasks and requests are otherwise atomic.
\<close>

section \<open>Properties that span components\<close>

subsection \<open>From a scan request to the scan task\<close>

lemma enqueue_all_drop:
  "drop (length q) (enqueue_all accept ts q) = filter accept (map (\<lambda>t. \<lparr>q_task = t, q_retry = 3, q_timeout = 1800\<rparr>) ts)"
  by (simp add: enqueue_all_def)

lemma enqueued_task:
  assumes "ScanRun p \<in> q_task ` set (drop (length q) (enqueue_all accept (map row_task new) q))"
  obtains s where "s \<in> set new" "spl_ScanID p = sn_ID s" "spl_Target p = sn_Target s" "spl_Scanner p = sn_Scanner s"
    "sn_Project s \<noteq> None \<Longrightarrow> sn_Project s = Some (spl_ProjectID p)"
  using assms by (auto simp: enqueue_all_drop row_task_def scan_task_def split: option.splits)

lemma unnamed_target_invalid:
  assumes "\<forall>u scheme host name. ci_parse_url io u = Some (scheme, host, name) \<and> scheme \<noteq> [] \<longrightarrow> CHR '':'' \<in> set u"
    and "CHR '':'' \<notin> set url"
  shows "\<exists>e. ValidateGitTarget io url = Some e"
proof (cases "ci_parse_url io url")
  case None
  then show ?thesis by (simp add: ValidateGitTarget_def)
next
  case (Some p)
  obtain scheme host name where p: "p = (scheme, host, name)" by (cases p)
  with assms Some have "scheme = []" by blast
  with p Some show ?thesis by (simp add: ValidateGitTarget_def)
qed

lemma HandleScan_refused:
  assumes "Get (spl_Scanner p) = Some sc" "sc_TargetType sc = TargetGit" "en_running_error env = None"
    and "ValidateGitTarget (en_clone env) (spl_Target p) = Some e"
  shows "HandleScan env p st = (Some (''target validation failed: '' @ e),
    fail_scan env (spl_ScanID p) (''target validation failed: '' @ e) []
      (st\<lparr>ps_scans := MarkRunning (en_now env) (spl_ScanID p) (ps_scans st)\<rparr>))"
  using assms by (simp add: HandleScan_def cloneRepo_def)



subsection \<open>From an event to its delivery\<close>

definition subscribers :: "string \<Rightarrow> hook_row list \<Rightarrow> hook_row list" where
  "subscribers ev rows = filter (\<lambda>w. wb_Enabled w \<and> (ev \<in> set (wb_Events w) \<or>
     ''finding.created'' \<in> set (wb_Events w) \<and> ev \<in> {''finding.critical'', ''finding.high''})) rows"

definition listed_webhooks :: "hook_row list \<Rightarrow> webhook list" where
  "listed_webhooks = map (\<lambda>w. \<lparr>wh_ID = wb_ID w, wh_Events = wb_Events w\<rparr>)"

lemma webhook_loop_all:
  "snd (webhook_loop (\<lambda>_. True) ev bytes ws n q) = q @
     map (\<lambda>w. \<lparr>q_task = WebhookSend (wh_ID w) ev bytes, q_retry = 5, q_timeout = 30\<rparr>) (filter (accepts_event ev) ws)"
  by (induction ws arbitrary: n q) (simp_all add: Let_def)

lemma subscribers_listed:
  "filter (accepts_event ev) (listed_webhooks (filter wb_Enabled rows)) = listed_webhooks (subscribers ev rows)"
  by (induction rows) (auto simp: listed_webhooks_def subscribers_def accepts_event_def list_ex_iff)

lemma HandleWebhookSend_sends:
  assumes "hooks_ok env st" "w \<in> set (ws_hooks st)" "wb_Enabled w" "wx_parse_url env (wb_URL w) \<noteq> None"
    and "formatWebhookBody (wx_body env) (wb_DeliveryType w) bytes = Inr body" "wx_fail env = (\<lambda>_. None)"
  shows "ws_sent (snd (HandleWebhookSend env (Inr (wb_ID w, ev, bytes)) st)) = ws_sent st @ [delivery_request env (wb_URL w) ev body]"
proof -
  have "distinct (map wb_ID (ws_hooks st))" "validateOutboundWebhookURL env (wb_URL w) = None"
    using assms(1,2) by (auto simp: hooks_ok_def hook_ok_def list_all_iff)
  moreover have "Webhook_GetByID env (wb_ID w) (ws_hooks st) = Inr w"
    using GetByID_row [OF \<open>distinct _\<close> assms(2)] assms(6) by simp
  moreover have "ws_sent (record_attempt env i ev p c r e ok st') = ws_sent st'" for i p c r e ok st'
    by (simp add: record_attempt_def logDelivery_def updateDeliveryStats_def LogDelivery_def Let_def split: option.split)
  ultimately show ?thesis using assms(3-5)
    by (auto simp: HandleWebhookSend_def Let_def split: sum.split)
qed

text \<open>C4: An alert reaches exactly the webhooks that subscribe to it: one task of five retries per enabled
  webhook whose events name it (the event of new findings stands for critical and high ones), in
  the order of the table, and the task of each sends its message once to the address of that webhook.\<close>

theorem alert_delivered:
  assumes "en_webhooks env = map_sum id listed_webhooks (Webhook_ListEnabled henv (ws_hooks st))"
    and "en_marshal env ev payload = Inr bytes" "en_accept env = (\<lambda>_. True)" "wx_fail henv = (\<lambda>_. None)" "hooks_ok henv st"
    and "\<forall>w \<in> set (ws_hooks st). wx_parse_url henv (wb_URL w) \<noteq> None \<and>
      (\<exists>body. formatWebhookBody (wx_body henv) (wb_DeliveryType w) bytes = Inr body)"
  shows "snd (enqueueWebhookEvent env ev payload q) = q @ map (\<lambda>w. \<lparr>q_task = WebhookSend (wb_ID w) ev bytes, q_retry = 5, q_timeout = 30\<rparr>)
      (subscribers ev (ws_hooks st)) \<and>
    (\<forall>w \<in> set (subscribers ev (ws_hooks st)). \<exists>body. formatWebhookBody (wx_body henv) (wb_DeliveryType w) bytes = Inr body \<and>
      ws_sent (snd (HandleWebhookSend henv (Inr (wb_ID w, ev, bytes)) st)) = ws_sent st @ [delivery_request henv (wb_URL w) ev body])"
proof
  have "en_webhooks env = Inr (listed_webhooks (filter wb_Enabled (ws_hooks st)))"
    using assms(1,4) by (simp add: Webhook_ListEnabled_def hook_query_def)
  then show "snd (enqueueWebhookEvent env ev payload q) = q @ map (\<lambda>w. \<lparr>q_task = WebhookSend (wb_ID w) ev bytes, q_retry = 5,
      q_timeout = 30\<rparr>) (subscribers ev (ws_hooks st))"
    using assms(2,3) by (simp add: enqueueWebhookEvent_def webhook_loop_all subscribers_listed) (simp add: listed_webhooks_def)
  show "\<forall>w \<in> set (subscribers ev (ws_hooks st)). \<exists>body. formatWebhookBody (wx_body henv) (wb_DeliveryType w) bytes = Inr body \<and>
      ws_sent (snd (HandleWebhookSend henv (Inr (wb_ID w, ev, bytes)) st)) = ws_sent st @ [delivery_request henv (wb_URL w) ev body]"
  proof
    fix w assume "w \<in> set (subscribers ev (ws_hooks st))"
    then have w: "w \<in> set (ws_hooks st)" "wb_Enabled w" by (auto simp: subscribers_def)
    with assms(6) obtain body where body: "formatWebhookBody (wx_body henv) (wb_DeliveryType w) bytes = Inr body"
      "wx_parse_url henv (wb_URL w) \<noteq> None" by blast
    with HandleWebhookSend_sends [OF assms(5) w body(2,1) assms(4)]
    show "\<exists>body. formatWebhookBody (wx_body henv) (wb_DeliveryType w) bytes = Inr body \<and>
      ws_sent (snd (HandleWebhookSend henv (Inr (wb_ID w, ev, bytes)) st)) = ws_sent st @ [delivery_request henv (wb_URL w) ev body]" by blast
  qed
qed


subsection \<open>Instances\<close>

lemma has_prefix_letters: "has_prefix u p \<Longrightarrow> c \<in> set p \<Longrightarrow> c \<in> set u"
  unfolding has_prefix_def by (metis in_set_takeD)

definition branch_request :: external_request where
  "branch_request = \<lparr>eq_ProjectID = [], eq_ProjectName = ''web'', eq_RepoURL = [], eq_Scanners = [''semgrep''], eq_Branch = ''main''\<rparr>"

definition branch_payload :: scan_payload where
  "branch_payload = \<lparr>spl_ScanID = ''0'', spl_ProjectID = ''a1'', spl_Target = ''a1#main'', spl_Scanner = ''semgrep''\<rparr>"


theorem alert_delivered_witness:
  "\<exists>env. \<forall>payload. map q_task (snd (enqueueWebhookEvent env ''finding.critical'' payload [])) = [WebhookSend ''w'' ''finding.critical'' ''{}'']"
proof (intro exI allI)
  let ?env = "sample_pipeline\<lparr>en_webhooks := Inr (listed_webhooks [sample_hook_row]), en_marshal := (\<lambda>_ _. Inr ''{}'')\<rparr>"
  fix payload
  have s: "subscribers ''finding.critical'' (ws_hooks sample_created) = [sample_hook_row]"
    by (simp add: sample_created_hooks subscribers_def sample_hook_row_def)
  have fail: "wx_fail sample_hook_env = (\<lambda>_. None)" by (simp add: sample_hook_env_def)
  have "formatWebhookBody (wx_body sample_hook_env) (wb_DeliveryType sample_hook_row) ''{}'' = Inr ''{}''"
    "wx_parse_url sample_hook_env (wb_URL sample_hook_row) = None \<longleftrightarrow> False" by code_simp+
  then have "\<forall>w \<in> set (ws_hooks sample_created). wx_parse_url sample_hook_env (wb_URL w) \<noteq> None \<and>
      (\<exists>body. formatWebhookBody (wx_body sample_hook_env) (wb_DeliveryType w) ''{}'' = Inr body)" by (simp add: sample_created_hooks)
  moreover have "en_webhooks ?env = map_sum id listed_webhooks (Webhook_ListEnabled sample_hook_env (ws_hooks sample_created))"
    by (simp add: fail Webhook_ListEnabled_def hook_query_def sample_created_hooks) (simp add: sample_hook_row_def)
  moreover have "en_marshal ?env ''finding.critical'' payload = Inr ''{}''" "en_accept ?env = (\<lambda>_. True)" "wb_ID sample_hook_row = ''w''"
    by (simp_all add: sample_pipeline_def sample_hook_row_def)
  ultimately show "map q_task (snd (enqueueWebhookEvent ?env ''finding.critical'' payload [])) = [WebhookSend ''w'' ''finding.critical'' ''{}'']"
    using alert_delivered [OF _ _ _ fail sample_created_ok, of ?env "''finding.critical''" payload "''{}''" "[]"]
    by (simp only: s) simp
qed

end
